(* ===== verification/Prelude.thy ===== *)
theory Prelude
  imports Complex_Main "HOL-Library.AList"
begin

text \<open>
  What every component of the development shares: the outcome of a Python call (a value, a
  raised exception, or a thread that waits on a lock), dictionaries as association lists,
  the numeric helpers of Python 2 that the sources use, and the collections of facts that the
  component proofs hand to the simplifier.

  Python floats are modelled by rational numbers: comparisons and sums are exact, rounding of
  IEEE doubles is not modelled. Python integers are \<open>int\<close>; lengths and non-negative counts
  are \<open>nat\<close>.
\<close>

named_theorems dict_simps \<open>lookups after dictionary operations\<close>
named_theorems outcome_simps \<open>evaluation and inversion of outcomes\<close>

section \<open>Outcomes\<close>

datatype exn =
    KeyError | IndexError | ValueError | TypeError | AttributeError | ZeroDivisionError
  | InvalidPort | OccupiedPort | InvalidCapacity | InvalidState | AllocationException | BadParameter
  | RuntimeError | NotImplementedError | NameError
  | AttachError | DetachError | StreamInputError | RemoteError | InvalidConfigurationError
  | EnvironmentError | TextFileBusy | InvalidFileName | InvalidLoadKind | LoadFail
  | InvalidOptions | InvalidProcess | ExecuteFail

text \<open>
  \<open>Blocked\<close> is a call that does not return because it waits for a lock or a condition that
  nothing in the modelled run will ever signal.
\<close>

datatype 'a outcome = Returned 'a | Raised exn | Blocked

fun obind :: "'a outcome \<Rightarrow> ('a \<Rightarrow> 'b outcome) \<Rightarrow> 'b outcome" where
  "obind (Returned x) f = f x"
| "obind (Raised e) f = Raised e"
| "obind Blocked f = Blocked"

fun omap :: "('a \<Rightarrow> 'b) \<Rightarrow> 'a outcome \<Rightarrow> 'b outcome" where
  "omap f (Returned x) = Returned (f x)"
| "omap f (Raised e) = Raised e"
| "omap f Blocked = Blocked"

lemma obind_Returned_iff [outcome_simps]:
  "obind m f = Returned y \<longleftrightarrow> (\<exists>x. m = Returned x \<and> f x = Returned y)"
  by (cases m) auto

lemma omap_Returned_iff [outcome_simps]:
  "omap f m = Returned y \<longleftrightarrow> (\<exists>x. m = Returned x \<and> y = f x)"
  by (cases m) auto

lemma obind_Blocked_iff: "obind m f = Blocked \<longleftrightarrow> m = Blocked \<or> (\<exists>x. m = Returned x \<and> f x = Blocked)"
  by (cases m) auto

lemma omap_Blocked_iff: "omap f m = Blocked \<longleftrightarrow> m = Blocked"
  by (cases m) auto

lemma obind_Returned_right [simp]: "obind m Returned = m"
  by (cases m) auto

lemma obind_assoc: "obind (obind m f) g = obind m (\<lambda>x. obind (f x) g)"
  by (cases m) auto

section \<open>Dictionaries\<close>

text \<open>
  A Python dictionary is an association list with distinct keys. Python 2 leaves the order of
  iteration open; a list fixes one order, and since the theorems hold for every list with the
  same entries they hold for every order.
\<close>

type_synonym ('k, 'v) dict = "('k \<times> 'v) list"

definition dget :: "('k, 'v) dict \<Rightarrow> 'k \<Rightarrow> 'v option" where
  "dget d k = map_of d k"

definition dput :: "'k \<Rightarrow> 'v \<Rightarrow> ('k, 'v) dict \<Rightarrow> ('k, 'v) dict" where
  "dput k v d = AList.update k v d"

definition dpop :: "'k \<Rightarrow> ('k, 'v) dict \<Rightarrow> ('k, 'v) dict" where
  "dpop k d = AList.delete k d"

definition dkeys :: "('k, 'v) dict \<Rightarrow> 'k list" where
  "dkeys d = map fst d"

definition dict_ok :: "('k, 'v) dict \<Rightarrow> bool" where
  "dict_ok d \<longleftrightarrow> distinct (dkeys d)"

lemma dget_dput [simp, dict_simps]: "dget (dput k v d) k' = (if k' = k then Some v else dget d k')"
  by (simp add: dget_def dput_def update_conv')

lemma dget_dpop [simp, dict_simps]: "dget (dpop k d) k' = (if k' = k then None else dget d k')"
  by (simp add: dget_def dpop_def delete_conv')

lemma dget_Nil [simp]: "dget [] k = None"
  by (simp add: dget_def)

lemma dget_Cons [simp]: "dget ((k, v) # d) k' = (if k' = k then Some v else dget d k')"
  by (simp add: dget_def)

lemma dput_Nil [simp]: "dput k v [] = [(k, v)]"
  by (simp add: dput_def)

lemma dput_Cons [simp]:
  "dput k v ((k', v') # d) = (if k' = k then (k, v) # d else (k', v') # dput k v d)"
  by (simp add: dput_def)

lemma dpop_Nil [simp]: "dpop k [] = []"
  by (simp add: dpop_def)

lemma dpop_Cons [simp]:
  "dpop k ((k', v') # d) = (if k' = k then dpop k d else (k', v') # dpop k d)"
  by (simp add: dpop_def AList.delete_eq)

lemma dict_ok_dput [simp, intro]: "dict_ok d \<Longrightarrow> dict_ok (dput k v d)"
  by (simp add: dict_ok_def dkeys_def dput_def distinct_update)

lemma dict_ok_dpop [simp, intro]: "dict_ok d \<Longrightarrow> dict_ok (dpop k d)"
  by (simp add: dict_ok_def dkeys_def dpop_def distinct_delete)

lemma dict_ok_Nil [simp]: "dict_ok []"
  by (simp add: dict_ok_def dkeys_def)

lemma dict_ok_Cons: "dict_ok ((k, v) # d) \<longleftrightarrow> dget d k = None \<and> dict_ok d"
  by (auto simp: dict_ok_def dkeys_def dget_def map_of_eq_None_iff)

lemma dget_None_iff: "dget d k = None \<longleftrightarrow> k \<notin> set (dkeys d)"
  by (simp add: dget_def dkeys_def map_of_eq_None_iff)

lemma dget_Some_mem: "dget d k = Some v \<Longrightarrow> (k, v) \<in> set d"
  by (simp add: dget_def map_of_SomeD)

lemma dget_mem: "dict_ok d \<Longrightarrow> (k, v) \<in> set d \<Longrightarrow> dget d k = Some v"
  by (simp add: dget_def dict_ok_def dkeys_def)

section \<open>Numbers\<close>

text \<open>Python's \<open>int(x)\<close> and \<open>math.modf\<close> truncate towards zero.\<close>

definition py_int :: "rat \<Rightarrow> int" where
  "py_int x = (if x < 0 then - \<lfloor>- x\<rfloor> else \<lfloor>x\<rfloor>)"

definition modf :: "rat \<Rightarrow> rat \<times> rat" where
  "modf x = (x - of_int (py_int x), of_int (py_int x))"

lemma modf_sum: "fst (modf x) + snd (modf x) = x"
  by (simp add: modf_def)

lemma modf_whole: "snd (modf x) = of_int (py_int x)"
  by (simp add: modf_def)

lemma modf_frac_bounds: "- 1 < fst (modf x)" "fst (modf x) < 1"
  using floor_correct [of x] floor_correct [of "- x"]
  by (auto simp: modf_def py_int_def) linarith+

lemma py_int_of_int [simp]: "py_int (of_int n) = n"
proof -
  have "- (of_int n :: rat) = of_int (- n)" by simp
  then have "\<lfloor>- (of_int n :: rat)\<rfloor> = - n" by (simp only: floor_of_int)
  then show ?thesis by (simp add: py_int_def)
qed

lemma py_int_nonneg: "0 \<le> x \<Longrightarrow> py_int x = \<lfloor>x\<rfloor>"
  by (simp add: py_int_def)

text \<open>Python's \<open>cmp\<close> on numbers.\<close>

definition py_cmp :: "rat \<Rightarrow> rat \<Rightarrow> int" where
  "py_cmp a b = (if a < b then - 1 else if a = b then 0 else 1)"

lemma py_cmp_sgn: "rat_of_int (py_cmp a b) = sgn (a - b)"
  by (simp add: py_cmp_def sgn_if)

end
