(* ===== verification/Timestamp.thy ===== *)
theory Timestamp
  imports Prelude
begin

text \<open>
  \<open>bulkio/timestamp.py\<close>: the arithmetic on \<open>BULKIO.PrecisionUTCTime\<close>. A time stamp is a
  whole and a fractional number of seconds; \<open>normalize\<close> brings the fraction into \<open>[0,1)\<close>,
  and every operator the module installs on the class goes through it. The floats of the source are exact
  rational numbers here: their rounding, by which a fraction just below zero becomes 1.0 and a sum differs
  from its terms in the last digits, is not modelled, so that the lemmas below are about exact seconds.
\<close>

record utctime =
  tcmode :: int
  tcstatus :: int
  toff :: rat
  twsec :: rat
  tfsec :: rat

text \<open>Constants of the BULKIO IDL.\<close>

definition TCM_OFF :: int where "TCM_OFF = 0"
definition TCM_CPU :: int where "TCM_CPU = 1"
definition TCS_INVALID :: int where "TCS_INVALID = 0"
definition TCS_VALID :: int where "TCS_VALID = 1"

text \<open>The reading of the wall clock is an argument of the functions that take one.\<close>

definition timestamp_now :: "rat \<Rightarrow> utctime" where
  "timestamp_now ts = \<lparr>tcmode = TCM_CPU, tcstatus = TCS_VALID, toff = 0,
     twsec = of_int (py_int ts), tfsec = ts - of_int (py_int ts)\<rparr>"

definition timestamp_notSet :: utctime where
  "timestamp_notSet = \<lparr>tcmode = TCM_OFF, tcstatus = TCS_INVALID, toff = 0, twsec = 0, tfsec = 0\<rparr>"

definition timestamp_cpuTimeStamp :: "rat \<Rightarrow> utctime" where
  "timestamp_cpuTimeStamp ts = timestamp_now ts"

definition timestamp_create :: "rat \<Rightarrow> rat \<Rightarrow> rat \<Rightarrow> int \<Rightarrow> utctime" where
  "timestamp_create ts whole_secs fractional_secs tsrc =
     (let (wsec, fsec) = (if whole_secs < 0 \<and> fractional_secs < 0
                          then (of_int (py_int ts), ts - of_int (py_int ts))
                          else (whole_secs, fractional_secs))
      in \<lparr>tcmode = tsrc, tcstatus = TCS_VALID, toff = 0, twsec = wsec, tfsec = fsec\<rparr>)"

definition timestamp_addSampleOffset :: "utctime \<Rightarrow> int \<Rightarrow> rat \<Rightarrow> utctime" where
  "timestamp_addSampleOffset T numSamples xdelta =
     (let step = of_int numSamples * xdelta;
          w = twsec T + of_int (py_int step);
          f = tfsec T + (step - of_int (py_int step))
      in if 1 \<le> f then T\<lparr>twsec := w + 1, tfsec := f - 1\<rparr> else T\<lparr>twsec := w, tfsec := f\<rparr>)"

definition timestamp_normalize :: "utctime \<Rightarrow> utctime" where
  "timestamp_normalize t =
     (let (fadj, wsec) = modf (twsec t);
          (fsec, wadj) = modf (tfsec t + fadj);
          (fsec', wadj') = (if fsec < 0 then (fsec + 1, wadj - 1) else (fsec, wadj))
      in t\<lparr>twsec := wsec + wadj', tfsec := fsec'\<rparr>)"

definition timestamp_difference :: "utctime \<Rightarrow> utctime \<Rightarrow> rat" where
  "timestamp_difference t1 t2 = (twsec t1 - twsec t2) + (tfsec t1 - tfsec t2)"

definition timestamp_iadd :: "utctime \<Rightarrow> rat \<Rightarrow> utctime" where
  "timestamp_iadd t1 offset =
     (let (fractional, whole) = modf offset
      in timestamp_normalize (t1\<lparr>twsec := twsec t1 + whole, tfsec := tfsec t1 + fractional\<rparr>))"

definition timestamp_add :: "utctime \<Rightarrow> rat \<Rightarrow> utctime" where
  "timestamp_add t1 offset = timestamp_iadd t1 offset"

definition timestamp_isub :: "utctime \<Rightarrow> rat \<Rightarrow> utctime" where
  "timestamp_isub t1 offset = timestamp_iadd t1 (- offset)"

text \<open>\<open>sub\<close> dispatches on the type of its second argument.\<close>

fun timestamp_sub :: "utctime \<Rightarrow> utctime + rat \<Rightarrow> rat + utctime" where
  "timestamp_sub t1 (Inl t2) = Inl (timestamp_difference t1 t2)"
| "timestamp_sub t1 (Inr offset) = Inr (timestamp_isub t1 offset)"

text \<open>
  The module defines \<open>compare\<close> twice; the second definition is the one that stays. \<open>None\<close>
  stands for an argument that is not a \<open>PrecisionUTCTime\<close>.
\<close>

fun timestamp_compare :: "utctime \<Rightarrow> utctime option \<Rightarrow> int" where
  "timestamp_compare t1 None = - 1"
| "timestamp_compare t1 (Some t2) =
     (if twsec t1 = twsec t2 then py_cmp (tfsec t1) (tfsec t2) else py_cmp (twsec t1) (twsec t2))"

section \<open>Correctness\<close>

definition utc_total :: "utctime \<Rightarrow> rat" where
  "utc_total t = twsec t + tfsec t"

definition utc_normal :: "utctime \<Rightarrow> bool" where
  "utc_normal t \<longleftrightarrow> twsec t \<in> \<int> \<and> 0 \<le> tfsec t \<and> tfsec t < 1"

lemma normalize_fields [simp]:
  "tcmode (timestamp_normalize t) = tcmode t" "tcstatus (timestamp_normalize t) = tcstatus t"
  "toff (timestamp_normalize t) = toff t"
  by (simp_all add: timestamp_normalize_def Let_def split: prod.splits)

lemma normalize_total [simp]: "utc_total (timestamp_normalize t) = utc_total t"
  by (simp add: timestamp_normalize_def utc_total_def modf_def Let_def)

lemma normalize_normal [simp]: "utc_normal (timestamp_normalize t)"
proof -
  let ?f = "fst (modf (tfsec t + fst (modf (twsec t))))"
  have b: "- 1 < ?f" "?f < 1" by (rule modf_frac_bounds)+
  show ?thesis
    using b by (simp add: timestamp_normalize_def utc_normal_def modf_def Let_def)
qed

lemma iadd_total [simp]: "utc_total (timestamp_iadd t d) = utc_total t + d"
  by (simp add: timestamp_iadd_def modf_def Let_def) (simp add: utc_total_def)

lemma iadd_normal [simp]: "utc_normal (timestamp_iadd t d)"
  by (simp add: timestamp_iadd_def split: prod.splits)

lemma difference_total: "timestamp_difference a b = utc_total a - utc_total b"
  by (simp add: timestamp_difference_def utc_total_def)

lemma iadd_fields [simp]:
  "tcmode (timestamp_iadd t d) = tcmode t" "tcstatus (timestamp_iadd t d) = tcstatus t"
  "toff (timestamp_iadd t d) = toff t"
  by (simp_all add: timestamp_iadd_def split: prod.splits)

lemma add_fields [simp]:
  "tcmode (timestamp_add t d) = tcmode t" "tcstatus (timestamp_add t d) = tcstatus t"
  "toff (timestamp_add t d) = toff t" "utc_total (timestamp_add t d) = utc_total t + d"
  "utc_normal (timestamp_add t d)"
  by (simp_all add: timestamp_add_def)

text \<open>A normalised time is determined by its total, so equal instants have equal fields.\<close>

lemma utc_normal_unique:
  assumes "utc_normal a" "utc_normal b" "utc_total a = utc_total b"
  shows "twsec a = twsec b \<and> tfsec a = tfsec b"
proof -
  from assms(1,2) obtain m n where mn: "twsec a = of_int m" "twsec b = of_int n"
    by (auto simp: utc_normal_def elim!: Ints_cases)
  have "\<lfloor>utc_total a\<rfloor> = m" "\<lfloor>utc_total b\<rfloor> = n"
    using assms(1,2) mn by (auto simp: utc_normal_def utc_total_def floor_eq_iff)
  then have "m = n" using assms(3) by simp
  then show ?thesis using mn assms(3) by (simp add: utc_total_def)
qed

lemma utc_normal_less:
  assumes "utc_normal a" "utc_normal b"
  shows "utc_total a < utc_total b \<longleftrightarrow>
    twsec a < twsec b \<or> (twsec a = twsec b \<and> tfsec a < tfsec b)"
proof -
  from assms obtain m n where mn: "twsec a = of_int m" "twsec b = of_int n"
    by (auto simp: utc_normal_def elim!: Ints_cases)
  have f: "0 \<le> tfsec a" "tfsec a < 1" "0 \<le> tfsec b" "tfsec b < 1"
    using assms by (auto simp: utc_normal_def)
  consider "m = n" | "m + 1 \<le> n" | "n + 1 \<le> m" by linarith
  then show ?thesis
  proof cases
    case 1
    then show ?thesis using mn by (simp add: utc_total_def)
  next
    case 2
    then have "rat_of_int m + 1 \<le> rat_of_int n" by (metis of_int_1 of_int_add of_int_le_iff)
    then show ?thesis using mn f by (auto simp: utc_total_def)
  next
    case 3
    then have "rat_of_int n + 1 \<le> rat_of_int m" by (metis of_int_1 of_int_add of_int_le_iff)
    then show ?thesis using mn f by (auto simp: utc_total_def)
  qed
qed

text \<open>
  With exact seconds, adding a number of seconds to a time stamp and taking the difference gives the number
  back, subtracting it again restores the instant, and every result is normalised whatever
  the arguments were (negative or non-integral seconds included); mode, status and offset
  are untouched.
\<close>

theorem timestamp_add_sub_roundtrip:
  "timestamp_difference (timestamp_add t d) t = d \<and>
   utc_total (timestamp_isub (timestamp_add t d) d) = utc_total t \<and>
   timestamp_sub (timestamp_add t d) (Inl t) = Inl d \<and>
   utc_normal (timestamp_add t d) \<and> utc_normal (timestamp_isub t d) \<and>
   tcmode (timestamp_add t d) = tcmode t \<and> tcstatus (timestamp_add t d) = tcstatus t \<and>
   toff (timestamp_add t d) = toff t"
  by (simp add: difference_total timestamp_isub_def)

text \<open>
  On normalised time stamps the three-way \<open>compare\<close> is the sign of the difference of the
  two instants, so it is a total order of instants that agrees with subtraction.
\<close>

theorem timestamp_compare_is_order:
  assumes "utc_normal a" and "utc_normal b"
  shows "rat_of_int (timestamp_compare a (Some b)) = sgn (timestamp_difference a b)"
proof -
  consider "utc_total a < utc_total b" | "utc_total a = utc_total b" | "utc_total b < utc_total a"
    by linarith
  then show ?thesis
  proof cases
    case 1
    then show ?thesis
      using utc_normal_less [OF assms] by (auto simp: py_cmp_def difference_total)
  next
    case 2
    then show ?thesis
      using utc_normal_unique [OF assms 2] by (simp add: py_cmp_def difference_total)
  next
    case 3
    then show ?thesis
      using utc_normal_less [OF assms(2,1)] by (auto simp: py_cmp_def difference_total)
  qed
qed

theorem timestamp_compare_is_order_witness:
  "rat_of_int (timestamp_compare
      \<lparr>tcmode = 1, tcstatus = 1, toff = 0, twsec = 5, tfsec = 1/4\<rparr>
      (Some \<lparr>tcmode = 1, tcstatus = 1, toff = 0, twsec = 5, tfsec = 3/4\<rparr>)) = - 1"
proof -
  let ?a = "\<lparr>tcmode = 1, tcstatus = 1, toff = 0, twsec = 5, tfsec = 1/4\<rparr>"
  let ?b = "\<lparr>tcmode = 1, tcstatus = 1, toff = 0, twsec = 5, tfsec = 3/4\<rparr>"
  have "utc_normal ?a" "utc_normal ?b" by (simp_all add: utc_normal_def)
  from timestamp_compare_is_order [OF this]
  have "rat_of_int (timestamp_compare ?a (Some ?b)) = sgn (timestamp_difference ?a ?b)" .
  then show ?thesis by (simp add: timestamp_difference_def)
qed

text \<open>A forward sample offset keeps a normalised time normalised and adds exactly the duration.\<close>

lemma addSampleOffset_total [simp]:
  "utc_total (timestamp_addSampleOffset T n x) = utc_total T + of_int n * x"
  by (simp add: timestamp_addSampleOffset_def utc_total_def Let_def)

lemma addSampleOffset_normal:
  assumes "utc_normal T" "0 \<le> n" "0 \<le> x"
  shows "utc_normal (timestamp_addSampleOffset T n x)"
proof -
  let ?s = "of_int n * x"
  have s: "0 \<le> ?s" using assms(2,3) by simp
  have "of_int \<lfloor>?s\<rfloor> \<le> ?s" "?s < of_int \<lfloor>?s\<rfloor> + 1"
    by (rule of_int_floor_le) (metis floor_correct of_int_1 of_int_add)
  then show ?thesis
    using assms(1) s
    by (auto simp: timestamp_addSampleOffset_def utc_normal_def Let_def py_int_nonneg)
qed

text \<open>Adding a sample offset in one step agrees with the operator \<open>+\<close> on such times.\<close>

lemma addSampleOffset_eq_add:
  assumes "utc_normal T" "0 \<le> n" "0 \<le> x"
  shows "timestamp_addSampleOffset T n x = timestamp_add T (of_int n * x)"
proof (rule utctime.equality)
  let ?a = "timestamp_addSampleOffset T n x" and ?b = "timestamp_add T (of_int n * x)"
  have "twsec ?a = twsec ?b \<and> tfsec ?a = tfsec ?b"
    by (rule utc_normal_unique) (simp_all add: addSampleOffset_normal [OF assms])
  then show "twsec ?a = twsec ?b" "tfsec ?a = tfsec ?b" by simp_all
qed (simp_all add: timestamp_addSampleOffset_def Let_def)

end
