(* ===== verification/Sri.thy ===== *)
theory Sri
  imports Prelude
begin

text \<open>
  \<open>bulkio/sri.py\<close> and the accessors of \<open>bulkio/stream_base.py\<close>: the stream metadata record
  (SRI), its comparison, the bit mask of changed fields that data blocks report, and the
  keyword list that travels with a stream.
\<close>

unbundle bit_operations_syntax

section \<open>Data\<close>

text \<open>
  A keyword carries a CORBA \<open>Any\<close>: a type code and a Python value. Python compares numbers of
  different types by value (\<open>True == 1 == 1.0\<close>), which \<open>py_eq\<close> spells out.
\<close>

datatype pyval =
    PNone | PBool bool | PInt int | PFloat rat | PStr string | PList "pyval list"

fun py_num :: "pyval \<Rightarrow> rat option" where
  "py_num (PBool b) = Some (if b then 1 else 0)"
| "py_num (PInt n) = Some (of_int n)"
| "py_num (PFloat x) = Some x"
| "py_num _ = None"

fun py_eq :: "pyval \<Rightarrow> pyval \<Rightarrow> bool" where
  "py_eq (PList xs) (PList ys) = list_all2 py_eq xs ys"
| "py_eq (PStr s) (PStr t) = (s = t)"
| "py_eq PNone PNone = True"
| "py_eq a b = (case (py_num a, py_num b) of (Some x, Some y) \<Rightarrow> x = y | _ \<Rightarrow> False)"

record corba_any =
  any_t :: string
  any_v :: pyval

record keyword =
  kw_id :: string
  kw_value :: corba_any

record sri =
  hversion :: int
  xstart :: rat
  xdelta :: rat
  xunits :: int
  subsize :: int
  ystart :: rat
  ydelta :: rat
  yunits :: int
  mode :: int
  streamID :: string
  blocking :: bool
  kwords :: "keyword list"

definition NONE :: int where "NONE = 0"
definition HVERSION :: int where "HVERSION = push_bit 0 1"
definition XSTART :: int where "XSTART = push_bit 1 1"
definition XDELTA :: int where "XDELTA = push_bit 2 1"
definition XUNITS :: int where "XUNITS = push_bit 3 1"
definition SUBSIZE :: int where "SUBSIZE = push_bit 4 1"
definition YSTART :: int where "YSTART = push_bit 5 1"
definition YDELTA :: int where "YDELTA = push_bit 6 1"
definition YUNITS :: int where "YUNITS = push_bit 7 1"
definition MODE :: int where "MODE = push_bit 8 1"
definition STREAMID :: int where "STREAMID = push_bit 9 1"
definition BLOCKING :: int where "BLOCKING = push_bit 10 1"
definition KEYWORDS :: int where "KEYWORDS = push_bit 11 1"

lemmas sri_flag_defs = HVERSION_def XSTART_def XDELTA_def XUNITS_def SUBSIZE_def YSTART_def
  YDELTA_def YUNITS_def MODE_def STREAMID_def BLOCKING_def KEYWORDS_def

section \<open>Operations\<close>

text \<open>The loop over \<open>zip(keywordsA, keywordsB)\<close>: only the values are compared.\<close>

fun keyword_values_eq :: "(keyword \<times> keyword) list \<Rightarrow> bool" where
  "keyword_values_eq [] = True"
| "keyword_values_eq ((keyA, keyB) # rest) =
     (if any_t (kw_value keyA) \<noteq> any_t (kw_value keyB) then False
      else if \<not> py_eq (any_v (kw_value keyA)) (any_v (kw_value keyB)) then False
      else keyword_values_eq rest)"

definition sri_compareKeywords :: "keyword list \<Rightarrow> keyword list \<Rightarrow> bool" where
  "sri_compareKeywords ka kb =
     (if length ka \<noteq> length kb then False else keyword_values_eq (zip ka kb))"

text \<open>\<open>None\<close> is a missing SRI, which the function treats as unequal to everything.\<close>

definition sri_compare :: "sri option \<Rightarrow> sri option \<Rightarrow> bool" where
  "sri_compare sriA sriB = (case (sriA, sriB) of
     (Some a, Some b) \<Rightarrow>
       (if hversion a \<noteq> hversion b then False
        else if xstart a \<noteq> xstart b then False
        else if xdelta a \<noteq> xdelta b then False
        else if xunits a \<noteq> xunits b then False
        else if subsize a \<noteq> subsize b then False
        else if ystart a \<noteq> ystart b then False
        else if ydelta a \<noteq> ydelta b then False
        else if yunits a \<noteq> yunits b then False
        else if mode a \<noteq> mode b then False
        else if streamID a \<noteq> streamID b then False
        else if blocking a \<noteq> blocking b then False
        else if length (kwords a) \<noteq> length (kwords b) then False
        else keyword_values_eq (zip (kwords a) (kwords b)))
   | _ \<Rightarrow> False)"

definition or_flag :: "bool \<Rightarrow> int \<Rightarrow> int \<Rightarrow> int" where
  "or_flag differs flag result = (if differs then result OR flag else result)"

definition sri_compareFields :: "sri \<Rightarrow> sri \<Rightarrow> int" where
  "sri_compareFields a b =
     (let result = NONE;
          result = or_flag (hversion a \<noteq> hversion b) HVERSION result;
          result = or_flag (xstart a \<noteq> xstart b) XSTART result;
          result = or_flag (xdelta a \<noteq> xdelta b) XDELTA result;
          result = or_flag (xunits a \<noteq> xunits b) XUNITS result;
          result = or_flag (subsize a \<noteq> subsize b) SUBSIZE result;
          result = or_flag (ystart a \<noteq> ystart b) YSTART result;
          result = or_flag (ydelta a \<noteq> ydelta b) YDELTA result;
          result = or_flag (yunits a \<noteq> yunits b) YUNITS result;
          result = or_flag (mode a \<noteq> mode b) MODE result;
          result = or_flag (streamID a \<noteq> streamID b) STREAMID result;
          result = or_flag (blocking a \<noteq> blocking b) BLOCKING result
      in or_flag (\<not> sri_compareKeywords (kwords a) (kwords b)) KEYWORDS result)"

definition sri_create :: "string \<Rightarrow> rat \<Rightarrow> int \<Rightarrow> sri outcome" where
  "sri_create sid srate xu =
     (if srate = 0 then Raised ZeroDivisionError
      else Returned \<lparr>hversion = 1, xstart = 0, xdelta = 1 / srate, xunits = xu, subsize = 0,
             ystart = 0, ydelta = 0, yunits = 0, mode = 0, streamID = sid, blocking = False,
             kwords = []\<rparr>)"

text \<open>The call \<open>bulkio.sri.create(streamID)\<close> of the ports, with the defaults filled in.\<close>

definition sri_default :: "string \<Rightarrow> sri" where
  "sri_default sid = \<lparr>hversion = 1, xstart = 0, xdelta = 1, xunits = 1, subsize = 0,
     ystart = 0, ydelta = 0, yunits = 0, mode = 0, streamID = sid, blocking = False,
     kwords = []\<rparr>"

lemma sri_create_default: "sri_create sid 1 1 = Returned (sri_default sid)"
  by (simp add: sri_create_def sri_default_def)

lemma sri_default_simps [simp]:
  "streamID (sri_default sid) = sid" "blocking (sri_default sid) = False"
  by (simp_all add: sri_default_def)

fun has_keyword :: "keyword list \<Rightarrow> string \<Rightarrow> bool" where
  "has_keyword [] name = False"
| "has_keyword (dt # rest) name = (if kw_id dt = name then True else has_keyword rest name)"

definition sri_hasKeyword :: "sri \<Rightarrow> string \<Rightarrow> bool" where
  "sri_hasKeyword s name = has_keyword (kwords s) name"

fun get_keyword :: "(corba_any \<Rightarrow> pyval) \<Rightarrow> keyword list \<Rightarrow> string \<Rightarrow> pyval outcome" where
  "get_keyword from_any [] name = Raised KeyError"
| "get_keyword from_any (dt # rest) name =
     (if kw_id dt = name then Returned (from_any (kw_value dt)) else get_keyword from_any rest name)"

text \<open>\<open>from_any\<close> is the conversion of the omniORB library.\<close>

definition sri_getKeyword :: "(corba_any \<Rightarrow> pyval) \<Rightarrow> sri \<Rightarrow> string \<Rightarrow> pyval outcome" where
  "sri_getKeyword from_any s name = get_keyword from_any (kwords s) name"

fun set_keyword :: "keyword list \<Rightarrow> string \<Rightarrow> corba_any \<Rightarrow> keyword list" where
  "set_keyword [] name v = [\<lparr>kw_id = name, kw_value = v\<rparr>]"
| "set_keyword (dt # rest) name v =
     (if kw_id dt = name then dt\<lparr>kw_value := v\<rparr> # rest else dt # set_keyword rest name v)"

text \<open>
  \<open>to_any\<close> is the conversion chosen by the \<open>format\<close> argument: omniORB's \<open>to_any\<close>, or
  \<open>ossie.properties.to_tc_value\<close> for a named CORBA type.
\<close>

definition sri_setKeyword :: "(pyval \<Rightarrow> corba_any) \<Rightarrow> sri \<Rightarrow> string \<Rightarrow> pyval \<Rightarrow> sri" where
  "sri_setKeyword to_any s name value = s\<lparr>kwords := set_keyword (kwords s) name (to_any value)\<rparr>"

fun erase_keyword :: "keyword list \<Rightarrow> string \<Rightarrow> keyword list" where
  "erase_keyword [] name = []"
| "erase_keyword (dt # rest) name = (if kw_id dt = name then rest else dt # erase_keyword rest name)"

definition sri_eraseKeyword :: "sri \<Rightarrow> string \<Rightarrow> sri" where
  "sri_eraseKeyword s name = s\<lparr>kwords := erase_keyword (kwords s) name\<rparr>"

text \<open>\<open>StreamBase.complex\<close> and the scalar count per sample that the streams and ports use.\<close>

definition sri_complex :: "sri \<Rightarrow> bool" where
  "sri_complex s = (mode s \<noteq> 0)"

definition item_size :: "sri \<Rightarrow> nat" where
  "item_size s = (if mode s \<noteq> 0 then 2 else 1)"

lemma item_size_pos [simp]: "0 < item_size s"
  by (simp add: item_size_def)

section \<open>The mask of changed fields\<close>

lemma bit_or_flag [simp]:
  "bit (or_flag c (push_bit k 1) r) i \<longleftrightarrow> bit r i \<or> (c \<and> i = k)"
  by (auto simp: or_flag_def bit_or_iff bit_push_bit_iff bit_1_iff simp del: push_bit_of_1)

text \<open>What field a bit position of the mask speaks about.\<close>

definition sri_field_differs :: "sri \<Rightarrow> sri \<Rightarrow> nat \<Rightarrow> bool" where
  "sri_field_differs a b i \<longleftrightarrow>
     (i = 0 \<and> hversion a \<noteq> hversion b) \<or> (i = 1 \<and> xstart a \<noteq> xstart b) \<or>
     (i = 2 \<and> xdelta a \<noteq> xdelta b) \<or> (i = 3 \<and> xunits a \<noteq> xunits b) \<or>
     (i = 4 \<and> subsize a \<noteq> subsize b) \<or> (i = 5 \<and> ystart a \<noteq> ystart b) \<or>
     (i = 6 \<and> ydelta a \<noteq> ydelta b) \<or> (i = 7 \<and> yunits a \<noteq> yunits b) \<or>
     (i = 8 \<and> mode a \<noteq> mode b) \<or> (i = 9 \<and> streamID a \<noteq> streamID b) \<or>
     (i = 10 \<and> blocking a \<noteq> blocking b) \<or>
     (i = 11 \<and> \<not> sri_compareKeywords (kwords a) (kwords b))"

lemma bit_compareFields: "bit (sri_compareFields a b) i \<longleftrightarrow> sri_field_differs a b i"
  unfolding sri_compareFields_def Let_def sri_flag_defs bit_or_flag NONE_def sri_field_differs_def
  by auto

lemma compareFields_zero_iff:
  "sri_compareFields a b = 0 \<longleftrightarrow> (\<forall>i. \<not> sri_field_differs a b i)"
  by (simp add: bit_eq_iff bit_compareFields)

definition sri_same_fields :: "sri \<Rightarrow> sri \<Rightarrow> bool" where
  "sri_same_fields a b \<longleftrightarrow>
     hversion a = hversion b \<and> xstart a = xstart b \<and> xdelta a = xdelta b \<and>
     xunits a = xunits b \<and> subsize a = subsize b \<and> ystart a = ystart b \<and>
     ydelta a = ydelta b \<and> yunits a = yunits b \<and> mode a = mode b \<and>
     streamID a = streamID b \<and> blocking a = blocking b \<and>
     sri_compareKeywords (kwords a) (kwords b)"

lemma no_field_differs_iff: "(\<forall>i. \<not> sri_field_differs a b i) \<longleftrightarrow> sri_same_fields a b"
proof
  assume h: "\<forall>i. \<not> sri_field_differs a b i"
  have "\<not> sri_field_differs a b 0" "\<not> sri_field_differs a b 1" "\<not> sri_field_differs a b 2"
    "\<not> sri_field_differs a b 3" "\<not> sri_field_differs a b 4" "\<not> sri_field_differs a b 5"
    "\<not> sri_field_differs a b 6" "\<not> sri_field_differs a b 7" "\<not> sri_field_differs a b 8"
    "\<not> sri_field_differs a b 9" "\<not> sri_field_differs a b 10" "\<not> sri_field_differs a b 11"
    using h by blast+
  then show "sri_same_fields a b" by (simp add: sri_field_differs_def sri_same_fields_def)
next
  assume "sri_same_fields a b"
  then show "\<forall>i. \<not> sri_field_differs a b i"
    by (simp add: sri_field_differs_def sri_same_fields_def)
qed

lemma sri_compare_iff: "sri_compare (Some a) (Some b) \<longleftrightarrow> sri_same_fields a b"
  by (simp add: sri_compare_def sri_same_fields_def sri_compareKeywords_def)

lemma py_eq_refl [simp]: "py_eq v v"
proof (induction v)
  case (PList xs)
  then show ?case by (simp add: list_all2_same)
qed simp_all

lemma keyword_values_eq_same [simp]: "keyword_values_eq (zip ks ks)"
  by (induction ks) simp_all

lemma compareKeywords_refl [simp]: "sri_compareKeywords ks ks"
  by (simp add: sri_compareKeywords_def)

lemma compareFields_refl [simp]: "sri_compareFields s s = 0"
  by (simp add: compareFields_zero_iff sri_field_differs_def)

lemma or_flag_nonneg [simp]: "0 \<le> r \<Longrightarrow> 0 \<le> f \<Longrightarrow> 0 \<le> or_flag c f r"
  by (simp add: or_flag_def)

lemma compareFields_nonneg: "0 \<le> sri_compareFields a b"
  by (simp add: sri_compareFields_def Let_def sri_flag_defs NONE_def)

text \<open>
  The mask of \<open>compareFields\<close> reports exactly the fields that differ: bit \<open>i\<close> is set if
  and only if the \<open>i\<close>-th field of the two SRIs differs, no other bit is ever set (so the mask
  is below \<open>2^12\<close> and can never be the all-ones value \<open>-1\<close> reserved for a new stream), and the
  mask is \<open>NONE\<close> exactly when \<open>compare\<close> calls the two SRIs equal.
\<close>

theorem sri_compareFields_mask:
  "bit (sri_compareFields a b) i = sri_field_differs a b i \<and>
   0 \<le> sri_compareFields a b \<and> sri_compareFields a b < 2 ^ 12 \<and>
   (sri_compareFields a b = NONE \<longleftrightarrow> sri_compare (Some a) (Some b))"
proof -
  have "take_bit 12 (sri_compareFields a b) = sri_compareFields a b"
    by (rule bit_eqI) (auto simp: bit_take_bit_iff bit_compareFields sri_field_differs_def)
  moreover have "take_bit 12 (sri_compareFields a b) < 2 ^ 12" by (rule take_bit_int_less_exp)
  ultimately have "sri_compareFields a b < 2 ^ 12" by metis
  then show ?thesis
    using compareFields_nonneg [of a b]
    by (simp add: bit_compareFields NONE_def compareFields_zero_iff sri_compare_iff no_field_differs_iff)
qed

section \<open>Keywords\<close>

lemma has_keyword_iff: "has_keyword ks n \<longleftrightarrow> n \<in> set (map kw_id ks)"
  by (induction ks) auto

lemma get_keyword_KeyError_iff: "get_keyword f ks n = Raised KeyError \<longleftrightarrow> \<not> has_keyword ks n"
  by (induction ks) auto

lemma get_set_keyword:
  "get_keyword f (set_keyword ks n v) m = (if m = n then Returned (f v) else get_keyword f ks m)"
  by (induction ks) auto

lemma has_set_keyword: "has_keyword (set_keyword ks n v) m \<longleftrightarrow> m = n \<or> has_keyword ks m"
  by (induction ks) auto

lemma ids_set_keyword:
  "map kw_id (set_keyword ks n v) = map kw_id ks @ (if has_keyword ks n then [] else [n])"
  by (induction ks) auto

lemma get_erase_other: "m \<noteq> n \<Longrightarrow> get_keyword f (erase_keyword ks n) m = get_keyword f ks m"
  by (induction ks) auto

lemma ids_erase_keyword: "map kw_id (erase_keyword ks n) = remove1 n (map kw_id ks)"
  by (induction ks) auto

text \<open>
  The keyword operations behave as a dictionary that keeps its order: after
  \<open>setKeyword(name, value)\<close> a lookup of \<open>name\<close> returns the value (given that omniORB's
  conversions invert each other) and a lookup of any other name is unchanged; an existing
  keyword keeps its place and a new one is appended; \<open>eraseKeyword\<close> removes the first keyword
  of that name and no other; no other field of the SRI changes.
\<close>

theorem sri_keyword_laws:
  assumes conv: "\<And>v. from_any (to_any v) = v"
  shows "sri_getKeyword from_any (sri_setKeyword to_any s n v) m =
           (if m = n then Returned v else sri_getKeyword from_any s m) \<and>
         map kw_id (kwords (sri_setKeyword to_any s n v)) =
           map kw_id (kwords s) @ (if sri_hasKeyword s n then [] else [n]) \<and>
         map kw_id (kwords (sri_eraseKeyword s n)) = remove1 n (map kw_id (kwords s)) \<and>
         (m \<noteq> n \<longrightarrow> sri_getKeyword from_any (sri_eraseKeyword s n) m = sri_getKeyword from_any s m) \<and>
         (sri_getKeyword from_any s n = Raised KeyError \<longleftrightarrow> \<not> sri_hasKeyword s n) \<and>
         (sri_setKeyword to_any s n v)\<lparr>kwords := kwords s\<rparr> = s"
  by (simp add: sri_getKeyword_def sri_setKeyword_def sri_hasKeyword_def sri_eraseKeyword_def conv
      get_set_keyword ids_set_keyword ids_erase_keyword get_erase_other get_keyword_KeyError_iff)

theorem sri_keyword_laws_witness:
  "sri_getKeyword any_v (sri_setKeyword (\<lambda>v. \<lparr>any_t = ''double'', any_v = v\<rparr>) (sri_default ''s'')
     ''CHAN_RF'' (PFloat 3)) ''CHAN_RF'' = Returned (PFloat 3)"
  using sri_keyword_laws [of any_v "\<lambda>v. \<lparr>any_t = ''double'', any_v = v\<rparr>" "sri_default ''s''"
      "''CHAN_RF''" "PFloat 3" "''CHAN_RF''"] by simp

definition rename_keywords :: "(string \<Rightarrow> string) \<Rightarrow> sri \<Rightarrow> sri" where
  "rename_keywords f s = s\<lparr>kwords := map (\<lambda>k. k\<lparr>kw_id := f (kw_id k)\<rparr>) (kwords s)\<rparr>"

lemma keyword_values_eq_rename: "keyword_values_eq (zip ks (map (\<lambda>k. k\<lparr>kw_id := f (kw_id k)\<rparr>) ks))"
  by (induction ks) simp_all

text \<open>
  Neither \<open>compare\<close> nor \<open>compareFields\<close> looks at the identifiers of the keywords: renaming
  the keywords of an SRI in any way yields an SRI that both functions call equal, so a change
  of a keyword's name is never reported as an SRI change.
\<close>

theorem sri_compare_ignores_keyword_ids:
  "sri_compare (Some s) (Some (rename_keywords f s)) \<and>
   sri_compareFields s (rename_keywords f s) = NONE"
  by (simp add: sri_compare_iff compareFields_zero_iff no_field_differs_iff sri_same_fields_def
      sri_compareKeywords_def rename_keywords_def keyword_values_eq_rename NONE_def)

end
