(* ===== verification/Statistics.thy ===== *)
theory Statistics
  imports Prelude
begin

text \<open>
  \<open>bulkio/statistics.py\<close>: the ring buffers behind the port statistics. An input port keeps one
  ring of the last ten calls, an output port one ring per connection together with a counter of
  consecutive errors. The wall clock (\<open>time.time()\<close>) is an argument.
\<close>

section \<open>Data\<close>

record statPoint =
  sp_elements :: int
  sp_queueSize :: rat
  sp_secs :: rat

record outStatPoint = statPoint +
  sp_streamID :: string

record portStatistics =
  ps_portName :: string
  ps_averageQueueDepth :: rat
  ps_elementsPerSecond :: rat
  ps_bitsPerSecond :: rat
  ps_callsPerSecond :: rat
  ps_streamIDs :: "string list"
  ps_timeSinceLastCall :: rat
  ps_keywords :: "(string \<times> rat) list"

record instats =
  ins_name :: string
  ins_enabled :: bool
  ins_flushTime :: "rat option"
  ins_received :: "statPoint list"
  ins_idx :: nat
  ins_bitSize :: int
  ins_activeStreamIDs :: "string list"
  ins_runningStats :: "portStatistics option"

definition historyWindow :: nat where "historyWindow = 10"

lemma historyWindow_pos [simp]: "0 < historyWindow" "1 < historyWindow" "Suc 0 < historyWindow"
    "Suc 0 \<le> historyWindow" "historyWindow \<noteq> Suc 0"
  by (simp_all add: historyWindow_def)

section \<open>Input statistics\<close>

definition InStats_statPoint :: statPoint where
  "InStats_statPoint = \<lparr>sp_elements = 0, sp_queueSize = 0, sp_secs = 0\<rparr>"

text \<open>\<open>calcsize\<close> is the size in bytes of the element type, used when no bit size is given.\<close>

definition InStats_init :: "string \<Rightarrow> int \<Rightarrow> int \<Rightarrow> instats" where
  "InStats_init name calcsize bits = \<lparr>ins_name = name, ins_enabled = True, ins_flushTime = None,
     ins_received = replicate historyWindow InStats_statPoint, ins_idx = 0,
     ins_bitSize = (if bits = 0 then calcsize * 8 else bits), ins_activeStreamIDs = [],
     ins_runningStats = None\<rparr>"

definition InStats_setEnabled :: "bool \<Rightarrow> instats \<Rightarrow> instats" where
  "InStats_setEnabled b s = s\<lparr>ins_enabled := b\<rparr>"

definition InStats_setBitSize :: "int \<Rightarrow> instats \<Rightarrow> instats" where
  "InStats_setBitSize n s = s\<lparr>ins_bitSize := n\<rparr>"

definition InStats_update ::
    "rat \<Rightarrow> int \<Rightarrow> rat \<Rightarrow> bool \<Rightarrow> string \<Rightarrow> bool \<Rightarrow> instats \<Rightarrow> instats" where
  "InStats_update now elementsReceived queueSize EOS sid flush s =
     (if \<not> ins_enabled s then s
      else let rs = (ins_received s)[ins_idx s :=
                      \<lparr>sp_elements = elementsReceived, sp_queueSize = queueSize, sp_secs = now\<rparr>];
               idx = (ins_idx s + 1) mod historyWindow;
               ft = (if flush then Some (sp_secs (rs ! idx)) else ins_flushTime s);
               act = (if EOS then remove1 sid (ins_activeStreamIDs s)
                      else if sid \<notin> set (ins_activeStreamIDs s)
                      then ins_activeStreamIDs s @ [sid] else ins_activeStreamIDs s)
           in s\<lparr>ins_received := rs, ins_idx := idx, ins_flushTime := ft, ins_activeStreamIDs := act\<rparr>)"

text \<open>The loop of \<open>retrieve\<close>: walk the ring from \<open>listPtr\<close> until it reaches \<open>idx\<close>.\<close>

partial_function (option) ring_loop ::
    "'a statPoint_scheme list \<Rightarrow> nat \<Rightarrow> nat \<Rightarrow> 'a statPoint_scheme list \<Rightarrow> 'a statPoint_scheme list option"
  where
  "ring_loop rs idx listPtr acc =
     (if listPtr = idx then Some acc
      else ring_loop rs idx ((listPtr + 1) mod historyWindow) (acc @ [rs ! listPtr]))"

definition sum_elements :: "'a statPoint_scheme list \<Rightarrow> rat" where
  "sum_elements ps = sum_list (map (\<lambda>p. of_int (sp_elements p)) ps)"

definition sum_queueSize :: "'a statPoint_scheme list \<Rightarrow> rat" where
  "sum_queueSize ps = sum_list (map sp_queueSize ps)"

text \<open>The rates that both kinds of statistics derive from the visited entries.\<close>

definition running_stats ::
    "string \<Rightarrow> int \<Rightarrow> rat \<Rightarrow> 'a statPoint_scheme list \<Rightarrow> nat \<Rightarrow> 'a statPoint_scheme list \<Rightarrow>
     string list \<Rightarrow> portStatistics" where
  "running_stats name bitSize now rs idx visited streamIDs =
     (let frontTime = sp_secs (rs ! ((idx + historyWindow - 1) mod historyWindow));
          backTime = sp_secs (rs ! idx);
          totalTime = (if now - backTime = 0 then 1000000 else now - backTime);
          receivedSize = rat_of_nat (length rs)
      in \<lparr>ps_portName = name,
          ps_averageQueueDepth = sum_queueSize visited / receivedSize,
          ps_elementsPerSecond = sum_elements visited / totalTime,
          ps_bitsPerSecond = (sum_elements visited * of_int bitSize) / totalTime,
          ps_callsPerSecond = (receivedSize - 1) / totalTime,
          ps_streamIDs = streamIDs,
          ps_timeSinceLastCall = now - frontTime,
          ps_keywords = []\<rparr>)"

text \<open>
  \<open>None\<close> as the outer result means that the loop never ends, \<open>Some (None, s)\<close> is Python's
  \<open>None\<close> of a disabled object.
\<close>

definition InStats_retrieve :: "rat \<Rightarrow> instats \<Rightarrow> (portStatistics option \<times> instats) option" where
  "InStats_retrieve now s =
     (if \<not> ins_enabled s then Some (None, s)
      else case ring_loop (ins_received s) (ins_idx s) ((ins_idx s + 1) mod historyWindow) [] of
        None \<Rightarrow> None
      | Some visited \<Rightarrow>
          let st = running_stats (ins_name s) (ins_bitSize s) now (ins_received s) (ins_idx s)
                     visited (ins_activeStreamIDs s);
              st = (case ins_flushTime s of None \<Rightarrow> st
                    | Some ft \<Rightarrow> st\<lparr>ps_keywords := [(''timeSinceLastFlush'', now - ft)]\<rparr>)
          in Some (Some st, s\<lparr>ins_runningStats := Some st\<rparr>))"

section \<open>Output statistics\<close>

record outstats =
  outs_name :: string
  outs_enabled :: bool
  outs_bitSize :: int
  outs_received :: "(string, outStatPoint list) dict"
  outs_idx :: "(string, nat) dict"
  outs_errors :: "(string, int) dict"

definition OutStats_statPoint :: outStatPoint where
  "OutStats_statPoint = \<lparr>sp_elements = 0, sp_queueSize = 0, sp_secs = 0, sp_streamID = ''''\<rparr>"

definition OutStats_init :: "string \<Rightarrow> int \<Rightarrow> int \<Rightarrow> outstats" where
  "OutStats_init name calcsize bits = \<lparr>outs_name = name, outs_enabled = True,
     outs_bitSize = (if bits = 0 then calcsize * 8 else bits), outs_received = [], outs_idx = [],
     outs_errors = []\<rparr>"

definition OutStats_setEnabled :: "bool \<Rightarrow> outstats \<Rightarrow> outstats" where
  "OutStats_setEnabled b s = s\<lparr>outs_enabled := b\<rparr>"

text \<open>The class defines \<open>connectionErrors\<close> twice; the two-argument definition stays.\<close>

definition OutStats_connectionErrors :: "string \<Rightarrow> int \<Rightarrow> outstats \<Rightarrow> int \<times> outstats" where
  "OutStats_connectionErrors cid n s =
     (let cur = (case dget (outs_errors s) cid of None \<Rightarrow> 0 | Some k \<Rightarrow> k)
      in (cur + n, s\<lparr>outs_errors := dput cid (cur + n) (outs_errors s)\<rparr>))"

definition OutStats_add :: "string \<Rightarrow> outstats \<Rightarrow> outstats" where
  "OutStats_add cid s = s\<lparr>
     outs_received := dput cid (replicate historyWindow OutStats_statPoint) (outs_received s),
     outs_idx := dput cid 0 (outs_idx s), outs_errors := dput cid 0 (outs_errors s)\<rparr>"

definition OutStats_remove :: "string \<Rightarrow> outstats \<Rightarrow> outstats" where
  "OutStats_remove cid s = s\<lparr>
     outs_received := dpop cid (outs_received s), outs_errors := dpop cid (outs_errors s)\<rparr>"

definition OutStats_update ::
    "rat \<Rightarrow> int \<Rightarrow> rat \<Rightarrow> bool \<Rightarrow> string \<Rightarrow> string \<Rightarrow> outstats \<Rightarrow> outstats outcome" where
  "OutStats_update now elementsReceived queueSize EOS sid cid s =
     (let s = s\<lparr>outs_errors := dput cid 0 (outs_errors s)\<rparr>
      in if \<not> outs_enabled s then Returned s
         else let s = (if dget (outs_received s) cid = None then OutStats_add cid s else s)
              in case (dget (outs_received s) cid, dget (outs_idx s) cid) of
                   (Some rs, Some idx) \<Rightarrow> Returned (s\<lparr>
                     outs_received := dput cid (rs[idx := \<lparr>sp_elements = elementsReceived,
                       sp_queueSize = queueSize, sp_secs = now, sp_streamID = sid\<rparr>]) (outs_received s),
                     outs_idx := dput cid ((idx + 1) mod historyWindow) (outs_idx s)\<rparr>)
                 | _ \<Rightarrow> Raised KeyError)"

text \<open>The search of the inner loop of \<open>retrieve\<close> adds a stream ID the first time it is seen.\<close>

fun collect_ids :: "string list \<Rightarrow> outStatPoint list \<Rightarrow> string list" where
  "collect_ids acc [] = acc"
| "collect_ids acc (p # ps) =
     collect_ids (if sp_streamID p \<in> set acc then acc else acc @ [sp_streamID p]) ps"

definition OutStats_retrieve_entry ::
    "rat \<Rightarrow> outstats \<Rightarrow> string \<times> outStatPoint list \<Rightarrow> (string \<times> portStatistics) option" where
  "OutStats_retrieve_entry now s entry =
     (case dget (outs_idx s) (fst entry) of
        None \<Rightarrow> None
      | Some idx \<Rightarrow>
          (case ring_loop (snd entry) idx ((idx + 1) mod historyWindow) [] of
             None \<Rightarrow> None
           | Some visited \<Rightarrow> Some (fst entry, running_stats (outs_name s) (outs_bitSize s) now
                               (snd entry) idx visited (collect_ids [] visited))))"

definition OutStats_retrieve :: "rat \<Rightarrow> outstats \<Rightarrow> (string \<times> portStatistics) option list option" where
  "OutStats_retrieve now s =
     (if \<not> outs_enabled s then None
      else Some (map (OutStats_retrieve_entry now s) (outs_received s)))"

section \<open>The ring as a sliding window\<close>

definition ring_ok :: "'a list \<Rightarrow> nat \<Rightarrow> bool" where
  "ring_ok rs idx \<longleftrightarrow> length rs = historyWindow \<and> idx < historyWindow"

text \<open>The entries from the oldest to the newest.\<close>

definition window :: "'a list \<Rightarrow> nat \<Rightarrow> 'a list" where
  "window rs idx = rotate idx rs"

lemma length_window [simp]: "length (window rs idx) = length rs"
  by (simp add: window_def)

lemma nth_window: "ring_ok rs idx \<Longrightarrow> k < historyWindow \<Longrightarrow>
    window rs idx ! k = rs ! ((idx + k) mod historyWindow)"
  by (simp add: window_def ring_ok_def nth_rotate)

lemma ring_ok_write [simp]:
  "ring_ok rs idx \<Longrightarrow> ring_ok (rs[idx := x]) ((idx + 1) mod historyWindow)"
  "ring_ok rs idx \<Longrightarrow> ring_ok (rs[idx := x]) (Suc idx mod historyWindow)"
  by (simp_all add: ring_ok_def)

lemma ring_step_ne:
  assumes "idx < (N::nat)" "0 < k" "k < N"
  shows "(idx + k) mod N \<noteq> idx"
proof (cases "idx + k < N")
  case False
  then have "(idx + k) mod N = idx + k - N" using assms by (simp add: le_mod_geq)
  then show ?thesis using assms False by simp
qed (use assms in simp)

lemma window_write:
  assumes "ring_ok rs idx"
  shows "window (rs[idx := x]) ((idx + 1) mod historyWindow) = tl (window rs idx) @ [x]"
proof (rule nth_equalityI)
  have len: "length rs = historyWindow" "idx < historyWindow"
    using assms by (auto simp: ring_ok_def)
  then show "length (window (rs[idx := x]) ((idx + 1) mod historyWindow)) =
      length (tl (window rs idx) @ [x])" by simp
  fix k assume "k < length (window (rs[idx := x]) ((idx + 1) mod historyWindow))"
  then have k: "k < historyWindow" using len by simp
  have l: "window (rs[idx := x]) ((idx + 1) mod historyWindow) ! k =
      rs[idx := x] ! ((idx + Suc k) mod historyWindow)"
    using nth_window [OF ring_ok_write(1) [OF assms] k] by (simp add: mod_add_left_eq)
  show "window (rs[idx := x]) ((idx + 1) mod historyWindow) ! k = (tl (window rs idx) @ [x]) ! k"
  proof (cases "k = historyWindow - 1")
    case True
    then have "(idx + Suc k) mod historyWindow = idx" using len by simp
    then show ?thesis using l True len by (simp add: nth_append)
  next
    case False
    then have sk: "Suc k < historyWindow" using k by simp
    then have "(idx + Suc k) mod historyWindow \<noteq> idx" using len by (intro ring_step_ne) auto
    moreover have "k < historyWindow - Suc 0" using sk by linarith
    ultimately show ?thesis using l sk len assms by (simp add: nth_append nth_tl nth_window)
  qed
qed

text \<open>The loop visits every entry but the oldest, from old to new, and ends.\<close>

lemma ring_loop_steps:
  assumes "ring_ok rs idx" "1 \<le> k" "k \<le> historyWindow"
  shows "ring_loop rs idx ((idx + k) mod historyWindow) acc = Some (acc @ drop k (window rs idx))"
  using assms(2,3)
proof (induction "historyWindow - k" arbitrary: k acc)
  case 0
  then have "k = historyWindow" by simp
  then have "(idx + k) mod historyWindow = idx" using assms(1) by (simp add: ring_ok_def)
  then show ?case using \<open>k = historyWindow\<close> assms(1)
    by (simp add: ring_loop.simps ring_ok_def)
next
  case (Suc n)
  then have k: "k < historyWindow" by simp
  have ne: "(idx + k) mod historyWindow \<noteq> idx"
    using assms(1) k \<open>1 \<le> k\<close> by (intro ring_step_ne) (auto simp: ring_ok_def)
  have IH: "ring_loop rs idx ((idx + Suc k) mod historyWindow) (acc @ [rs ! ((idx + k) mod historyWindow)])
      = Some ((acc @ [rs ! ((idx + k) mod historyWindow)]) @ drop (Suc k) (window rs idx))"
    using Suc.hyps k by (intro Suc.hyps(1)) linarith+
  have "drop k (window rs idx) = window rs idx ! k # drop (Suc k) (window rs idx)"
    using k assms(1) by (simp add: Cons_nth_drop_Suc ring_ok_def)
  then show ?case using ne IH k assms(1)
    by (subst ring_loop.simps) (simp add: nth_window mod_Suc_eq)
qed

lemma ring_loop_window:
  "ring_ok rs idx \<Longrightarrow>
   ring_loop rs idx ((idx + 1) mod historyWindow) [] = Some (tl (window rs idx))"
  using ring_loop_steps [of rs idx 1 "[]"] by (simp add: drop_Suc)

definition instats_ok :: "instats \<Rightarrow> bool" where
  "instats_ok s \<longleftrightarrow> ring_ok (ins_received s) (ins_idx s) \<and> distinct (ins_activeStreamIDs s)"

definition ins_window :: "instats \<Rightarrow> statPoint list" where
  "ins_window s = window (ins_received s) (ins_idx s)"

lemma instats_ok_init [simp]: "instats_ok (InStats_init name c b)"
  by (simp add: instats_ok_def InStats_init_def ring_ok_def)

lemma InStats_update_disabled: "\<not> ins_enabled s \<Longrightarrow> InStats_update now n q eos sid f s = s"
  by (simp add: InStats_update_def)

lemma ins_window_init: "ins_window (InStats_init name c b) = replicate historyWindow InStats_statPoint"
  by (simp add: ins_window_def window_def InStats_init_def)

lemma ins_window_update:
  assumes "instats_ok s" "ins_enabled s"
  shows "instats_ok (InStats_update now n q eos sid f s)"
    and "ins_window (InStats_update now n q eos sid f s) =
      tl (ins_window s) @ [\<lparr>sp_elements = n, sp_queueSize = q, sp_secs = now\<rparr>]"
  using assms window_write [of "ins_received s" "ins_idx s"]
    ring_ok_write [of "ins_received s" "ins_idx s"]
  by (auto simp: InStats_update_def instats_ok_def ins_window_def Let_def)

lemma ins_enabled_update [simp]: "ins_enabled (InStats_update now n q eos sid f s) = ins_enabled s"
  by (simp add: InStats_update_def Let_def)

lemma ins_enabled_init [simp]: "ins_enabled (InStats_init name c b)"
  by (simp add: InStats_init_def)

lemma instats_ok_update [simp]: "instats_ok s \<Longrightarrow> instats_ok (InStats_update now n q eos sid f s)"
  by (cases "ins_enabled s") (simp_all add: ins_window_update InStats_update_disabled)

text \<open>
  The statistics of an input port are a sliding window over the last ten calls. Every
  update of an enabled object drops the oldest sample and appends the new one, keeps the ring
  well formed, and keeps the set of active stream IDs free of duplicates: an end-of-stream
  removes its ID, any other packet adds it.
\<close>

theorem InStats_update_window:
  assumes "instats_ok s" and "ins_enabled s"
  shows "instats_ok (InStats_update now n q eos sid f s) \<and>
    ins_window (InStats_update now n q eos sid f s) =
      tl (ins_window s) @ [\<lparr>sp_elements = n, sp_queueSize = q, sp_secs = now\<rparr>] \<and>
    set (ins_activeStreamIDs (InStats_update now n q eos sid f s)) =
      (if eos then set (ins_activeStreamIDs s) - {sid} else insert sid (set (ins_activeStreamIDs s)))"
  using assms by (auto simp: ins_window_update) (auto simp: InStats_update_def instats_ok_def Let_def split: if_splits)

theorem InStats_update_window_witness:
  "set (ins_activeStreamIDs (InStats_update 7 100 (1/2) False ''A'' False (InStats_init ''in'' 1 8)))
     = {''A''}"
  using InStats_update_window [OF instats_ok_init, of "''in''" 1 8 7 100 "1/2" False "''A''" False]
  by (simp add: InStats_init_def)

text \<open>
  C31: \<open>retrieve\<close> always ends, returns nothing for a disabled object, and otherwise reports the
  rates over the nine newest samples of the window: elements per second are their elements over
  the time since the oldest sample, the time since the last call is measured from the newest.
\<close>

theorem InStats_retrieve_rates:
  assumes "instats_ok s" and "ins_enabled s" and "now \<noteq> sp_secs (hd (ins_window s))"
  shows "\<exists>st. InStats_retrieve now s = Some (Some st, s\<lparr>ins_runningStats := Some st\<rparr>) \<and>
    ps_elementsPerSecond st * (now - sp_secs (hd (ins_window s))) = sum_elements (tl (ins_window s)) \<and>
    ps_bitsPerSecond st = ps_elementsPerSecond st * of_int (ins_bitSize s) \<and>
    ps_timeSinceLastCall st = now - sp_secs (last (ins_window s)) \<and>
    ps_averageQueueDepth st = sum_queueSize (tl (ins_window s)) / 10 \<and>
    ps_streamIDs st = ins_activeStreamIDs s"
proof -
  have ok: "ring_ok (ins_received s) (ins_idx s)" using assms(1) by (simp add: instats_ok_def)
  then have len: "length (ins_received s) = historyWindow" "ins_idx s < historyWindow"
    by (auto simp: ring_ok_def)
  have w: "ins_window s \<noteq> []" using len by (auto simp: ins_window_def simp flip: length_greater_0_conv)
  have hd: "hd (ins_window s) = ins_received s ! ins_idx s"
    using w nth_window [OF ok, of 0] len by (simp add: hd_conv_nth ins_window_def)
  have lst: "last (ins_window s) = ins_received s ! ((ins_idx s + historyWindow - 1) mod historyWindow)"
    using w nth_window [OF ok, of "historyWindow - 1"] len by (simp add: last_conv_nth ins_window_def)
  have loop: "ring_loop (ins_received s) (ins_idx s) (Suc (ins_idx s) mod historyWindow) [] =
      Some (tl (ins_window s))"
    using ring_loop_window [OF ok] by (simp add: ins_window_def)
  have n10: "rat_of_nat historyWindow = 10" by (simp add: historyWindow_def)
  show ?thesis
    using assms len
    by (cases "ins_flushTime s")
      (simp_all add: InStats_retrieve_def loop running_stats_def Let_def hd lst n10)
qed

theorem InStats_retrieve_rates_witness:
  "\<exists>st s'. InStats_retrieve 20 (InStats_update 7 100 (1/2) False ''A'' False (InStats_init ''in'' 1 8))
      = Some (Some st, s') \<and> ps_timeSinceLastCall st = 13"
proof -
  let ?s = "InStats_update 7 100 (1/2) False ''A'' False (InStats_init ''in'' 1 8)"
  have ok: "instats_ok ?s" by simp
  have en: "ins_enabled ?s" by simp
  have w: "ins_window ?s = replicate (historyWindow - 1) InStats_statPoint @
      [\<lparr>sp_elements = 100, sp_queueSize = 1/2, sp_secs = 7\<rparr>]"
    by (simp add: ins_window_update ins_window_init)
  have "(20::rat) \<noteq> sp_secs (hd (ins_window ?s))"
    by (simp add: w InStats_statPoint_def hd_append)
  from InStats_retrieve_rates [OF ok en this] show ?thesis by (auto simp: w)
qed

text \<open>
  The \<open>timeSinceLastFlush\<close> keyword is not measured from the flush. The flush time that an
  update records is the clock of the oldest sample that stays in the window; on a port that has
  seen fewer than ten calls that is the epoch, so the keyword then reports the whole clock value.
\<close>

theorem InStats_flush_time_is_oldest_sample:
  assumes "instats_ok s" and "ins_enabled s"
  shows "ins_flushTime (InStats_update now n q eos sid True s) =
      Some (sp_secs (hd (ins_window (InStats_update now n q eos sid True s)))) \<and>
    (\<exists>st s'. InStats_retrieve later (InStats_update now n q False sid True (InStats_init name c b))
        = Some (Some st, s') \<and> ps_keywords st = [(''timeSinceLastFlush'', later)])"
proof -
  let ?u = "InStats_update now n q eos sid True s"
  have ok: "ring_ok (ins_received ?u) (ins_idx ?u)"
    using ins_window_update(1) [OF assms] by (simp add: instats_ok_def)
  then have "ins_window ?u \<noteq> []"
    by (auto simp: ins_window_def ring_ok_def simp flip: length_greater_0_conv)
  moreover have "ins_window ?u ! 0 = ins_received ?u ! ins_idx ?u"
    using nth_window [OF ok, of 0] ok by (simp add: ins_window_def ring_ok_def)
  ultimately have a: "hd (ins_window ?u) = ins_received ?u ! ins_idx ?u" by (simp add: hd_conv_nth)
  have b: "ins_flushTime ?u = Some (sp_secs (ins_received ?u ! ins_idx ?u))"
    using assms(2) by (simp add: InStats_update_def Let_def)
  let ?v = "InStats_update now n q False sid True (InStats_init name c b)"
  have v: "ring_ok (ins_received ?v) (ins_idx ?v)" "ins_enabled ?v" "ins_flushTime ?v = Some 0"
    by (simp_all add: InStats_update_def InStats_init_def Let_def ring_ok_def InStats_statPoint_def)
  show ?thesis
    using a b v by (simp add: InStats_retrieve_def ring_loop_window [OF v(1), simplified] Let_def)
qed

theorem InStats_flush_time_is_oldest_sample_witness:
  "ins_flushTime (InStats_update 7 100 1 False ''A'' True (InStats_init ''in'' 1 8)) =
     Some (sp_secs (hd (ins_window (InStats_update 7 100 1 False ''A'' True (InStats_init ''in'' 1 8)))))"
  using InStats_flush_time_is_oldest_sample [OF instats_ok_init, of "''in''" 1 8 7 100 1 False "''A''"]
  by (simp add: InStats_init_def)

section \<open>Output statistics\<close>

definition outstats_ok :: "outstats \<Rightarrow> bool" where
  "outstats_ok s \<longleftrightarrow> (\<forall>cid rs. dget (outs_received s) cid = Some rs \<longrightarrow>
     (\<exists>idx. dget (outs_idx s) cid = Some idx \<and> ring_ok rs idx))"

definition outs_window :: "outstats \<Rightarrow> string \<Rightarrow> outStatPoint list option" where
  "outs_window s cid = (case (dget (outs_received s) cid, dget (outs_idx s) cid) of
     (Some rs, Some idx) \<Rightarrow> Some (window rs idx) | _ \<Rightarrow> None)"

lemma outstats_ok_init [simp]: "outstats_ok (OutStats_init name c b)"
  by (simp add: outstats_ok_def OutStats_init_def)

lemma ring_ok_fresh [simp]: "ring_ok (replicate historyWindow x) 0"
  by (simp add: ring_ok_def)

lemma outstats_ok_add [simp]: "outstats_ok s \<Longrightarrow> outstats_ok (OutStats_add cid s)"
  by (auto simp: outstats_ok_def OutStats_add_def)

lemma outstats_ok_remove [simp]: "outstats_ok s \<Longrightarrow> outstats_ok (OutStats_remove cid s)"
  by (auto simp: outstats_ok_def OutStats_remove_def split: if_splits)

lemma outstats_ok_errors [simp]:
  "outstats_ok s \<Longrightarrow> outstats_ok (snd (OutStats_connectionErrors cid n s))"
  by (simp add: outstats_ok_def OutStats_connectionErrors_def Let_def)

lemma outstats_ok_flags [simp]:
  "outstats_ok (OutStats_setEnabled b s) = outstats_ok s"
  by (simp_all add: outstats_ok_def OutStats_setEnabled_def)

lemma OutStats_update_new:
  assumes "outs_enabled s" "dget (outs_received s) cid = None"
  shows "OutStats_update now n q eos sid cid s = OutStats_update now n q eos sid cid (OutStats_add cid s)"
  using assms by (simp add: OutStats_update_def OutStats_add_def Let_def)

lemma OutStats_update_known:
  assumes "outs_enabled s" "dget (outs_received s) cid = Some rs" "dget (outs_idx s) cid = Some idx"
  shows "OutStats_update now n q eos sid cid s = Returned (s\<lparr>
      outs_errors := dput cid 0 (outs_errors s),
      outs_received := dput cid (rs[idx := \<lparr>sp_elements = n, sp_queueSize = q, sp_secs = now,
        sp_streamID = sid\<rparr>]) (outs_received s),
      outs_idx := dput cid ((idx + 1) mod historyWindow) (outs_idx s)\<rparr>)"
  using assms by (simp add: OutStats_update_def Let_def)

lemma OutStats_update_window_known:
  assumes ok: "outstats_ok s" and en: "outs_enabled s" and rs: "dget (outs_received s) cid = Some rs"
  shows "\<exists>s'. OutStats_update now n q eos sid cid s = Returned s' \<and> outstats_ok s' \<and>
    dget (outs_errors s') cid = Some 0 \<and>
    outs_window s' cid = Some (tl (the (outs_window s cid)) @
      [\<lparr>sp_elements = n, sp_queueSize = q, sp_secs = now, sp_streamID = sid\<rparr>]) \<and>
    (\<forall>c. c \<noteq> cid \<longrightarrow> outs_window s' c = outs_window s c)"
proof -
  from ok rs obtain idx where idx: "dget (outs_idx s) cid = Some idx" "ring_ok rs idx"
    by (auto simp: outstats_ok_def)
  show ?thesis
    using ok window_write [OF idx(2)]
    by (simp add: OutStats_update_known [OF en rs idx(1)] outstats_ok_def outs_window_def rs idx
        split: option.split)
qed

lemma OutStats_update_ok:
  assumes "outstats_ok s"
  shows "\<exists>s'. OutStats_update now n q eos sid cid s = Returned s' \<and> outstats_ok s'"
proof (cases "outs_enabled s")
  case False
  then show ?thesis using assms by (simp add: OutStats_update_def outstats_ok_def Let_def)
next
  case True
  show ?thesis
  proof (cases "dget (outs_received s) cid")
    case None
    have a: "outs_enabled (OutStats_add cid s)" "dget (outs_received (OutStats_add cid s)) cid =
        Some (replicate historyWindow OutStats_statPoint)"
      using True by (simp_all add: OutStats_add_def)
    show ?thesis
      using OutStats_update_window_known [OF outstats_ok_add [OF assms] a, of now n q eos sid]
      unfolding OutStats_update_new [OF True None] by blast
  next
    case (Some rs)
    then show ?thesis using OutStats_update_window_known [OF assms True] by blast
  qed
qed

text \<open>
  The statistics of an output port keep one window per connection. An update of an enabled
  object never raises, clears the error count of its connection, appends the sample to that
  connection's window (which starts with ten empty samples when the connection is new) and
  leaves the windows of all other connections alone.
\<close>

theorem OutStats_update_window:
  assumes "outstats_ok s" and "outs_enabled s"
  shows "\<exists>s'. OutStats_update now n q eos sid cid s = Returned s' \<and> outstats_ok s' \<and>
    dget (outs_errors s') cid = Some 0 \<and>
    outs_window s' cid = Some (tl (case outs_window s cid of None \<Rightarrow> replicate 10 OutStats_statPoint
        | Some w \<Rightarrow> w) @ [\<lparr>sp_elements = n, sp_queueSize = q, sp_secs = now, sp_streamID = sid\<rparr>]) \<and>
    (\<forall>c. c \<noteq> cid \<longrightarrow> outs_window s' c = outs_window s c)"
proof (cases "dget (outs_received s) cid")
  case None
  let ?a = "OutStats_add cid s"
  have a: "outstats_ok ?a" "outs_enabled ?a"
      "dget (outs_received ?a) cid = Some (replicate historyWindow OutStats_statPoint)"
    using assms by (simp_all add: OutStats_add_def outstats_ok_def)
  have w: "outs_window ?a cid = Some (replicate 10 OutStats_statPoint)" "outs_window s cid = None"
      "\<And>c. c \<noteq> cid \<Longrightarrow> outs_window ?a c = outs_window s c"
    using None by (simp_all add: OutStats_add_def outs_window_def window_def historyWindow_def)
  show ?thesis
    using OutStats_update_window_known [OF a, of now n q eos sid]
    unfolding OutStats_update_new [OF assms(2) None] w(1,2) by (simp add: w(3))
next
  case (Some rs)
  then obtain idx where "dget (outs_idx s) cid = Some idx"
    using assms(1) by (auto simp: outstats_ok_def)
  then obtain w where w: "outs_window s cid = Some w" using Some by (simp add: outs_window_def)
  show ?thesis
    using OutStats_update_window_known [OF assms Some, of now n q eos sid] unfolding w by simp
qed

theorem OutStats_update_window_witness:
  "\<exists>s'. OutStats_update 7 100 0 False ''A'' ''c1'' (OutStats_init ''out'' 1 8) = Returned s' \<and>
     dget (outs_errors s') ''c1'' = Some 0"
  using OutStats_update_window [OF outstats_ok_init, of "''out''" 1 8 7 100 0 False "''A''" "''c1''"]
  by (auto simp: OutStats_init_def)

end
