(* ===== verification/PortTypes.thy ===== *)
theory PortTypes
  imports Timestamp Sri Statistics
begin

text \<open>
  The objects that the input side of BulkIO shares: packets (\<open>InPort.Packet\<close>), the input stream
  objects that a port creates and a reader uses, the port itself, and what other threads may do
  to a port while a call waits on one of its conditions.
\<close>

section \<open>Packets\<close>

record 'a packet =
  pk_buffer :: "'a list"
  pk_T :: "utctime option"
  pk_EOS :: bool
  pk_SRI :: sri
  pk_sriChanged :: bool
  pk_flushed :: bool

definition pk_streamID :: "'a packet \<Rightarrow> string" where
  "pk_streamID p = streamID (pk_SRI p)"

lemma pk_streamID_update [simp]:
  "pk_streamID (p\<lparr>pk_buffer := b\<rparr>) = pk_streamID p"
  "pk_streamID (p\<lparr>pk_EOS := e\<rparr>) = pk_streamID p"
  "pk_streamID (p\<lparr>pk_sriChanged := c\<rparr>) = pk_streamID p"
  "pk_streamID (p\<lparr>pk_flushed := f\<rparr>) = pk_streamID p"
  by (simp_all add: pk_streamID_def)

text \<open>Packets that are worth queueing carry data or end their stream.\<close>

definition packet_ok :: "'a packet \<Rightarrow> bool" where
  "packet_ok pkt \<longleftrightarrow> pk_buffer pkt \<noteq> [] \<or> pk_EOS pkt"

section \<open>Input stream objects\<close>

datatype eos_state = EOS_NONE | EOS_RECEIVED | EOS_REACHED | EOS_REPORTED

text \<open>
  One record for \<open>InputStream\<close> and \<open>BufferedInputStream\<close>: \<open>is_buffered\<close> says which class the
  object has; the last four fields are those of the buffered class.
\<close>

record 'a istream =
  is_sri :: sri
  is_eosState :: eos_state
  is_enabled :: bool
  is_newstream :: bool
  is_buffered :: bool
  is_queue :: "'a packet list"
  is_samplesQueued :: nat
  is_sampleOffset :: nat
  is_pending :: "'a packet option"

definition InputStream_init :: "bool \<Rightarrow> sri \<Rightarrow> 'a istream" where
  "InputStream_init buffered H = \<lparr>is_sri = H, is_eosState = EOS_NONE, is_enabled = True,
     is_newstream = True, is_buffered = buffered, is_queue = [], is_samplesQueued = 0,
     is_sampleOffset = 0, is_pending = None\<rparr>"

definition is_streamID :: "'a istream \<Rightarrow> string" where
  "is_streamID st = streamID (is_sri st)"

text \<open>\<open>_close\<close> and \<open>_hasBufferedData\<close>, the two methods that the port calls on a stream.\<close>

definition InputStream_close :: "'a istream \<Rightarrow> 'a istream" where
  "InputStream_close st = st\<lparr>is_eosState := EOS_REPORTED\<rparr>"

definition InputStream_hasBufferedData :: "'a istream \<Rightarrow> bool" where
  "InputStream_hasBufferedData st =
     (if is_buffered st \<and> (is_queue st \<noteq> [] \<or> is_pending st \<noteq> None) then True
      else is_eosState st = EOS_REACHED)"

section \<open>Input ports\<close>

datatype port_event = NewSri sri | SriChange sri | StreamAdded nat

text \<open>
  Stream objects are shared between the port and its user, so they live in a store: the port's
  maps hold references, and a reference stays valid after the port has dropped it. \<open>ip_deque\<close>
  records whether the queue attribute is a \<open>collections.deque\<close> or a plain list, because one
  operation of the port replaces the former by the latter. Callbacks are recorded as events.
\<close>

record 'a inport =
  ip_name :: string
  ip_queue :: "'a packet list"
  ip_deque :: bool
  ip_maxSize :: int
  ip_breakBlock :: bool
  ip_stats :: instats
  ip_blocking :: bool
  ip_sri_cmp :: "(sri \<Rightarrow> sri \<Rightarrow> bool) option"
  ip_newSriCallback :: bool
  ip_sriChangeCallback :: bool
  ip_sriDict :: "(string, sri \<times> bool) dict"
  ip_streams :: "(string, nat) dict"
  ip_pendingStreams :: "(string, nat list) dict"
  ip_heap :: "'a istream list"
  ip_bufferedStreams :: bool
  ip_packetSize :: "'a list \<Rightarrow> int"
  ip_events :: "port_event list"

definition default_sri_cmp :: "sri \<Rightarrow> sri \<Rightarrow> bool" where
  "default_sri_cmp a b = sri_compare (Some a) (Some b)"

text \<open>
  \<open>buffered\<close> and \<open>packetSize\<close> are what the subclasses override (\<open>_streamType\<close>,
  \<open>_packetSize\<close>).
\<close>

definition InPort_init ::
    "string \<Rightarrow> int \<Rightarrow> (sri \<Rightarrow> sri \<Rightarrow> bool) option \<Rightarrow> bool \<Rightarrow> bool \<Rightarrow> int \<Rightarrow> bool \<Rightarrow>
     ('a list \<Rightarrow> int) \<Rightarrow> 'a inport" where
  "InPort_init name bits sriCompare newSriCb sriChangeCb maxsize buffered packetSize =
     \<lparr>ip_name = name, ip_queue = [], ip_deque = True, ip_maxSize = maxsize, ip_breakBlock = False,
      ip_stats = InStats_init name 0 bits, ip_blocking = False, ip_sri_cmp = sriCompare,
      ip_newSriCallback = newSriCb, ip_sriChangeCallback = sriChangeCb, ip_sriDict = [],
      ip_streams = [], ip_pendingStreams = [], ip_heap = [], ip_bufferedStreams = buffered,
      ip_packetSize = packetSize, ip_events = []\<rparr>"

text \<open>
  What other threads do to the port during one wait on a condition, together with the clock
  value read just before it. A call that waits consumes one entry per wait.
\<close>

type_synonym 'a waits = "(rat \<times> ('a inport \<Rightarrow> 'a inport)) list"

datatype port_state = IDLE | ACTIVE | BUSY

end
