(* ===== verification/Flush.thy ===== *)
theory Flush
  imports PortTypes
begin

text \<open>
  The overflow policy of an input port (\<open>InPort._flushQueue\<close> in \<open>bulkio/input_ports.py\<close>): the loop
  over the queue as written, and its meaning. The queue of one stream is a sequence of
  instances, each ended by an end-of-stream; the flush keeps one packet per instance.
\<close>

section \<open>The loop\<close>

text \<open>
  The flush of a full queue. \<open>chg\<close> is the local set \<open>sri_changed\<close>; in the end-of-stream branch
  the source tests the result of \<open>set.discard\<close>, which is always \<open>None\<close>, so the test never
  succeeds and only the removal remains.
\<close>

definition replace_last :: "('b \<Rightarrow> bool) \<Rightarrow> ('b \<Rightarrow> 'b list) \<Rightarrow> 'b list \<Rightarrow> 'b list" where
  "replace_last P f xs =
     (let rest = rev (takeWhile (\<lambda>x. \<not> P x) (rev xs))
      in case dropWhile (\<lambda>x. \<not> P x) (rev xs) of
           [] \<Rightarrow> xs
         | y # ys \<Rightarrow> rev ys @ f y @ rest)"

definition last_with :: "('b \<Rightarrow> bool) \<Rightarrow> 'b list \<Rightarrow> 'b option" where
  "last_with P xs = find P (rev xs)"

fun flush_step :: "string set \<times> 'a packet list \<Rightarrow> 'a packet \<Rightarrow> string set \<times> 'a packet list" where
  "flush_step (chg, saved) pkt0 =
     (let sid = pk_streamID pkt0;
          current_empty = (length (pk_buffer pkt0) = 0);
          current_eos = pk_EOS pkt0;
          chg = (if current_eos then chg - {sid}
                 else if pk_sriChanged pkt0 then insert sid chg else chg);
          packet = (if \<not> current_eos \<and> sid \<in> chg then pkt0\<lparr>pk_sriChanged := True\<rparr> else pkt0);
          same = (\<lambda>s. pk_streamID s = sid)
      in case last_with same saved of
           None \<Rightarrow> (chg, saved @ [packet])
         | Some previous \<Rightarrow>
             (chg,
              if \<not> pk_EOS previous then
                if \<not> current_eos then
                  replace_last same (\<lambda>_. []) saved @
                    [packet\<lparr>pk_sriChanged := pk_sriChanged packet \<or> pk_sriChanged previous,
                            pk_flushed := True\<rparr>]
                else if current_empty then
                  replace_last same (\<lambda>s. [s\<lparr>pk_EOS := True\<rparr>]) saved
                else
                  replace_last same (\<lambda>_. []) saved @
                    [packet\<lparr>pk_flushed := True,
                            pk_sriChanged := pk_sriChanged packet \<or> pk_sriChanged previous,
                            pk_EOS := True\<rparr>]
              else
                saved @ [packet\<lparr>pk_flushed := \<not> (current_empty \<and> current_eos)\<rparr>]))"

definition flush_packets :: "'a packet list \<Rightarrow> 'a packet list" where
  "flush_packets q = snd (foldl flush_step ({}, []) q)"

section \<open>What a flush keeps of one stream\<close>

text \<open>The instances of a stream: runs of packets that end with an end-of-stream packet.\<close>

fun stream_instances :: "'a packet list \<Rightarrow> 'a packet list list" where
  "stream_instances [] = []"
| "stream_instances (p # ps) =
     (if pk_EOS p then [p] # stream_instances ps
      else case stream_instances ps of [] \<Rightarrow> [[p]] | i # is \<Rightarrow> (p # i) # is)"

text \<open>
  The one packet that is left of an instance, which is the last one with the SRI change flag of all the
  packets of the instance. When the last packet is an empty end-of-stream and not the only one, it is folded
  into the packet before it: of the end-of-stream packet only the mark is kept, and its own SRI change flag is
  lost (\<open>keep_data\<close> is applied to the packets before it). The kept packet is marked as flushed when a packet
  that came before it in its instance was dropped, or when the stream has an earlier instance in the queue
  (\<open>earlier\<close>) and the packet is not an empty end-of-stream that is alone in its own.
\<close>

definition keep_data :: "bool \<Rightarrow> 'a packet list \<Rightarrow> 'a packet" where
  "keep_data earlier ps = (last ps)\<lparr>pk_sriChanged := list_ex pk_sriChanged ps,
     pk_flushed := (if earlier \<or> 1 < length ps then True else pk_flushed (last ps))\<rparr>"

definition flush_instance :: "bool \<Rightarrow> 'a packet list \<Rightarrow> 'a packet" where
  "flush_instance earlier ps =
     (let p = last ps; ending = (pk_EOS p \<and> pk_buffer p = [])
      in if butlast ps = [] then p\<lparr>pk_flushed := (if earlier then \<not> ending else pk_flushed p)\<rparr>
         else if ending then (keep_data earlier (butlast ps))\<lparr>pk_EOS := True\<rparr>
         else p\<lparr>pk_sriChanged := list_ex pk_sriChanged ps, pk_flushed := True\<rparr>)"

fun flush_reference :: "'a packet list \<Rightarrow> 'a packet list" where
  "flush_reference q = (case stream_instances q of
     [] \<Rightarrow> [] | i # is \<Rightarrow> flush_instance False i # map (flush_instance True) is)"

declare flush_reference.simps [simp del]

section \<open>Lemmas\<close>

lemma last_with_None_iff: "last_with P xs = None \<longleftrightarrow> (\<forall>x \<in> set xs. \<not> P x)"
  by (auto simp: last_with_def find_None_iff)

lemma last_with_split:
  assumes "last_with P xs = Some y"
  obtains ys zs where "xs = ys @ y # zs" "P y" "\<forall>z \<in> set zs. \<not> P z"
proof -
  obtain i where i: "i < length (rev xs)" "P (rev xs ! i)" "y = rev xs ! i" "\<forall>j<i. \<not> P (rev xs ! j)"
    using assms by (auto simp: last_with_def find_Some_iff)
  have "rev xs = take i (rev xs) @ y # drop (Suc i) (rev xs)"
    using i by (simp add: id_take_nth_drop)
  then have "rev (rev xs) = rev (take i (rev xs) @ y # drop (Suc i) (rev xs))"
    by (rule arg_cong)
  then have "xs = rev (drop (Suc i) (rev xs)) @ y # rev (take i (rev xs))"
    by simp
  moreover have "\<forall>z \<in> set (rev (take i (rev xs))). \<not> P z"
    using i by (auto simp: in_set_conv_nth)
  ultimately show thesis using i that by blast
qed

lemma last_with_app:
  "P y \<Longrightarrow> \<forall>z \<in> set zs. \<not> P z \<Longrightarrow> last_with P (ys @ y # zs) = Some y"
proof -
  assume a: "P y" "\<forall>z \<in> set zs. \<not> P z"
  have "find P (rev zs @ y # rev ys) = Some y"
    using a(2) by (induction zs rule: rev_induct) (simp_all add: a(1))
  then show ?thesis by (simp add: last_with_def)
qed

lemma replace_last_app:
  assumes "P y" "\<forall>z \<in> set zs. \<not> P z"
  shows "replace_last P f (ys @ y # zs) = ys @ f y @ zs"
proof -
  have "takeWhile (\<lambda>x. \<not> P x) (rev zs @ y # rev ys) = rev zs"
    using assms by (subst takeWhile_append2) auto
  moreover have "dropWhile (\<lambda>x. \<not> P x) (rev zs @ y # rev ys) = y # rev ys"
    using assms by (subst dropWhile_append2) auto
  ultimately show ?thesis by (simp add: replace_last_def)
qed

lemma filter_replace_last_same:
  assumes "last_with P xs = Some y"
  shows "filter P (replace_last P f xs) = filter P (replace_last P f (filter P xs))"
proof -
  obtain ys zs where x: "xs = ys @ y # zs" "P y" "\<forall>z \<in> set zs. \<not> P z"
    using assms by (rule last_with_split)
  have z: "filter P zs = []" using x by (simp add: filter_empty_conv)
  have f: "filter P xs = filter P ys @ y # []" using x z by simp
  show ?thesis
    unfolding f unfolding x(1) using x z by (simp add: replace_last_app)
qed

lemma filter_replace_last_other:
  assumes "last_with P xs = Some y" "\<not> Q y" "\<forall>x \<in> set (f y). \<not> Q x"
  shows "filter Q (replace_last P f xs) = filter Q xs"
proof -
  obtain ys zs where x: "xs = ys @ y # zs" "P y" "\<forall>z \<in> set zs. \<not> P z"
    using assms(1) by (rule last_with_split)
  then show ?thesis using assms by (simp add: replace_last_app filter_empty_conv)
qed

lemma last_with_filter: "last_with P (filter P xs) = last_with P xs"
proof (cases "last_with P xs")
  case None
  then have "filter P xs = []" by (simp add: last_with_None_iff filter_empty_conv)
  then show ?thesis using None by (simp add: last_with_def)
next
  case (Some y)
  then obtain ys zs where x: "xs = ys @ y # zs" "P y" "\<forall>z \<in> set zs. \<not> P z"
    by (rule last_with_split)
  then have "filter P xs = filter P ys @ y # []" by (simp add: filter_empty_conv)
  then show ?thesis using Some x(2) by (simp add: last_with_app)
qed

text \<open>One step of the loop touches only the packets and the flag of its own stream.\<close>

abbreviation of_stream :: "string \<Rightarrow> 'a packet \<Rightarrow> bool" where
  "of_stream s \<equiv> (\<lambda>p. pk_streamID p = s)"

lemma flush_step_other:
  assumes "pk_streamID p \<noteq> s"
  shows "filter (of_stream s) (snd (flush_step (chg, saved) p)) = filter (of_stream s) saved"
    and "s \<in> fst (flush_step (chg, saved) p) \<longleftrightarrow> s \<in> chg"
  using assms
  by (auto simp: Let_def replace_last_app last_with_None_iff
      split: option.splits elim!: last_with_split)

lemma flush_step_same:
  assumes "pk_streamID p = s"
  shows "filter (of_stream s) (snd (flush_step (chg, saved) p)) =
           snd (flush_step (chg, filter (of_stream s) saved) p)"
    and "fst (flush_step (chg, saved) p) = fst (flush_step (chg, filter (of_stream s) saved) p)"
proof -
  show "fst (flush_step (chg, saved) p) = fst (flush_step (chg, filter (of_stream s) saved) p)"
    using assms by (simp add: Let_def last_with_filter split: option.split)
  show "filter (of_stream s) (snd (flush_step (chg, saved) p)) =
           snd (flush_step (chg, filter (of_stream s) saved) p)"
  proof (cases "last_with (of_stream s) saved")
    case None
    then show ?thesis
      using assms by (auto simp: Let_def last_with_filter)
  next
    case (Some y)
    then obtain ys zs where x: "saved = ys @ y # zs" "pk_streamID y = s"
        "\<forall>z \<in> set zs. pk_streamID z \<noteq> s"
      by (rule last_with_split)
    then have f: "filter (of_stream s) saved = filter (of_stream s) ys @ y # []"
      by (simp add: filter_empty_conv)
    have z: "filter (of_stream s) zs = []" using x by (simp add: filter_empty_conv)
    show ?thesis
      using assms Some x z unfolding f by (simp add: Let_def last_with_app replace_last_app)
  qed
qed

text \<open>The effect of a step on a queue of one stream, by the last packet kept so far.\<close>

lemma flush_step_first:
  "flush_step (chg, []) p =
     (if pk_EOS p then (chg - {pk_streamID p}, [p])
      else if pk_sriChanged p \<or> pk_streamID p \<in> chg
      then (insert (pk_streamID p) chg, [p\<lparr>pk_sriChanged := True\<rparr>])
      else (chg, [p]))"
  by (auto simp: Let_def last_with_def)

lemma flush_step_next:
  assumes "pk_streamID x = pk_streamID p"
  shows "flush_step (chg, xs @ [x]) p =
    (let sid = pk_streamID p; ending = (pk_EOS p \<and> pk_buffer p = []);
         c = (\<not> pk_EOS p \<and> (pk_sriChanged p \<or> sid \<in> chg))
     in (if pk_EOS p then chg - {sid} else if pk_sriChanged p then insert sid chg else chg,
         if pk_EOS x then xs @ [x, p\<lparr>pk_sriChanged := pk_sriChanged p \<or> c, pk_flushed := \<not> ending\<rparr>]
         else if ending then xs @ [x\<lparr>pk_EOS := True\<rparr>]
         else xs @ [p\<lparr>pk_sriChanged := pk_sriChanged p \<or> pk_sriChanged x \<or> c, pk_flushed := True\<rparr>]))"
  using assms
  by (auto simp: Let_def last_with_app [where zs = "[]", simplified]
      replace_last_app [where zs = "[]", simplified])

lemma instances_snoc:
  "stream_instances (q @ [p]) =
     (if q = [] \<or> pk_EOS (last q) then stream_instances q @ [[p]]
      else butlast (stream_instances q) @ [last (stream_instances q) @ [p]])"
proof (induction q)
  case (Cons a q)
  have "q \<noteq> [] \<Longrightarrow> stream_instances q \<noteq> []"
    by (cases q) (auto split: list.split)
  then show ?case using Cons by (auto split: list.split)
qed simp

lemma instances_Nil_iff [simp]: "stream_instances q = [] \<longleftrightarrow> q = []"
  by (induction q) (auto split: list.split)

lemma instances_nonempty: "i \<in> set (stream_instances q) \<Longrightarrow> i \<noteq> []"
  by (induction q arbitrary: i) (auto split: if_splits list.splits)

lemma concat_instances [simp]: "concat (stream_instances q) = q"
  by (induction q) (auto split: list.split)

lemma instances_EOS:
  "i \<in> set (stream_instances q) \<Longrightarrow> \<forall>p \<in> set (butlast i). \<not> pk_EOS p"
proof (induction q arbitrary: i)
  case (Cons a q)
  show ?case
  proof (cases "pk_EOS a")
    case False
    then show ?thesis
      using Cons by (cases "stream_instances q") (fastforce split: if_splits)+
  qed (use Cons in auto)
qed simp

lemma instances_last:
  assumes "q \<noteq> []"
  shows "last (last (stream_instances q)) = last q"
proof -
  have n: "stream_instances q \<noteq> []" using assms by simp
  then have m: "last (stream_instances q) \<noteq> []"
    by (intro instances_nonempty [of _ q]) simp
  have "q = concat (butlast (stream_instances q)) @ last (stream_instances q)"
    using n by (metis append_butlast_last_id concat_append concat_instances concat.simps append_Nil2)
  then show ?thesis using m by (metis last_appendR)
qed

lemma instances_open:
  assumes "q \<noteq> []" "\<not> pk_EOS (last q)" "p \<in> set (last (stream_instances q))"
  shows "\<not> pk_EOS p"
proof -
  let ?i = "last (stream_instances q)"
  have i: "?i \<in> set (stream_instances q)" using assms(1) by simp
  have "?i \<noteq> []" using i by (rule instances_nonempty)
  then have "p \<in> set (butlast ?i) \<or> p = last ?i"
    using assms(3) by (metis append_butlast_last_id in_set_conv_decomp_last set_ConsD
        rotate1.simps(2) set_rotate1)
  then show ?thesis using instances_EOS [OF i] assms by (auto simp: instances_last)
qed

lemma flush_instance_open:
  assumes "\<not> pk_EOS (last i)" "i \<noteq> []"
  shows "flush_instance earlier i = keep_data earlier i"
  using assms by (cases i rule: rev_cases) (auto simp: flush_instance_def keep_data_def Suc_lessI)

lemma flush_instance_EOS [simp]:
  "i \<noteq> [] \<Longrightarrow> pk_EOS (flush_instance earlier i) = pk_EOS (last i)"
  by (auto simp: flush_instance_def keep_data_def Let_def)

lemma reference_last:
  "q \<noteq> [] \<Longrightarrow> flush_reference q \<noteq> [] \<and>
     last (flush_reference q) =
       flush_instance (1 < length (stream_instances q)) (last (stream_instances q))"
  by (cases "stream_instances q") (auto simp: flush_reference.simps last_map)

lemma reference_snoc:
  "flush_reference (q @ [p]) =
     (if q = [] then [flush_instance False [p]]
      else if pk_EOS (last q) then flush_reference q @ [flush_instance True [p]]
      else butlast (flush_reference q) @
        [flush_instance (1 < length (stream_instances q)) (last (stream_instances q) @ [p])])"
proof (cases "stream_instances q")
  case (Cons i rest)
  then have "q \<noteq> []" by auto
  then show ?thesis
    using Cons by (cases rest rule: rev_cases) (auto simp: flush_reference.simps instances_snoc butlast_append)
qed (auto simp: flush_reference.simps)

lemma pk_streamID_flush_instance:
  assumes "i \<noteq> []" "\<forall>p \<in> set i. pk_streamID p = s"
  shows "pk_streamID (flush_instance earlier i) = s"
proof -
  have "last i \<in> set i" using assms(1) by simp
  moreover have "butlast i \<noteq> [] \<Longrightarrow> last (butlast i) \<in> set i"
    using in_set_butlastD last_in_set by metis
  ultimately show ?thesis
    using assms(2) by (auto simp: flush_instance_def keep_data_def Let_def)
qed

lemma flush_instance_single:
  "flush_instance earlier [p] =
     p\<lparr>pk_flushed := (if earlier then \<not> (pk_EOS p \<and> pk_buffer p = []) else pk_flushed p)\<rparr>"
  by (simp add: flush_instance_def)

lemma flush_instance_snoc:
  "i \<noteq> [] \<Longrightarrow> flush_instance earlier (i @ [p]) =
     (if pk_EOS p \<and> pk_buffer p = [] then (keep_data earlier i)\<lparr>pk_EOS := True\<rparr>
      else p\<lparr>pk_sriChanged := pk_sriChanged p \<or> list_ex pk_sriChanged i, pk_flushed := True\<rparr>)"
  by (auto simp: flush_instance_def Let_def disj_commute)

text \<open>The flag set of the loop and the packets kept, on a queue of one stream.\<close>

lemma flush_fold_single:
  assumes "\<forall>p \<in> set q. pk_streamID p = s"
  shows "snd (foldl flush_step ({}, []) q) = flush_reference q \<and>
    (s \<in> fst (foldl flush_step ({}, []) q) \<longleftrightarrow>
       q \<noteq> [] \<and> \<not> pk_EOS (last q) \<and> list_ex pk_sriChanged (last (stream_instances q)))"
  using assms
proof (induction q rule: rev_induct)
  case Nil
  then show ?case by (simp add: flush_reference.simps)
next
  case (snoc p q)
  obtain chg sv where f: "foldl flush_step ({}, []) q = (chg, sv)"
    by (metis surj_pair)
  have sv: "sv = flush_reference q"
    and chg: "s \<in> chg \<longleftrightarrow>
       q \<noteq> [] \<and> \<not> pk_EOS (last q) \<and> list_ex pk_sriChanged (last (stream_instances q))"
    using snoc f by auto
  have ps: "pk_streamID p = s" using snoc by simp
  show ?case
  proof (cases "q = []")
    case True
    then show ?thesis
      using f chg sv ps
      by (auto simp: flush_step_first reference_snoc flush_reference.simps flush_instance_def
          simp del: flush_step.simps)
  next
    case False
    let ?e = "1 < length (stream_instances q)" and ?i = "last (stream_instances q)"
    let ?x = "flush_instance ?e ?i"
    have ne: "?i \<noteq> []" using False by (intro instances_nonempty [of _ q]) simp
    have "set ?i \<subseteq> set q" 
      using False concat_instances [of q] by (metis instances_Nil_iff UN_upper last_in_set set_concat)
    then have xs: "pk_streamID ?x = pk_streamID p"
      using ne snoc(2) by (intro pk_streamID_flush_instance) (auto simp: ps)
    have svx: "sv = butlast (flush_reference q) @ [?x]"
      using reference_last [OF False] sv by (metis append_butlast_last_id)
    have xe: "pk_EOS ?x = pk_EOS (last q)" using ne False by (simp add: instances_last)
    have open_x: "\<not> pk_EOS (last q) \<Longrightarrow> ?x = keep_data ?e ?i"
      using False ne by (intro flush_instance_open) (auto simp: instances_last)
    obtain xs x where svx: "sv = xs @ [x]" and x: "x = ?x"
      using reference_last [OF False] sv by (metis append_butlast_last_id)
    have xs: "pk_streamID x = pk_streamID p" and xe: "pk_EOS x = pk_EOS (last q)"
      using xs x ne False by (simp_all add: instances_last)
    have ref: "flush_reference q = xs @ [x]" using sv svx by simp
    have fs: "foldl flush_step ({}, []) q = (chg, xs @ [x])" using f svx by simp
    show ?thesis
    proof (cases "pk_EOS (last q)")
      case True
      then show ?thesis
        using chg ps False xe
        by (auto simp: fs ref reference_snoc instances_snoc flush_instance_single flush_step_next [OF xs]
            Let_def simp del: flush_step.simps)
    next
      case open_q: False
      then have xk: "x = keep_data ?e ?i"
        using x False ne by (simp add: flush_instance_open instances_last)
      have xs_def: "butlast (flush_reference q) = xs" using sv svx by (metis butlast_snoc)
      have xc: "pk_sriChanged x = list_ex pk_sriChanged ?i" by (simp add: xk keep_data_def)
      show ?thesis
        using chg ps False xe open_q
        by (auto simp: fs reference_snoc instances_snoc flush_instance_snoc [OF ne] flush_step_next [OF xs]
            Let_def xs_def xk [symmetric, unfolded One_nat_def] xc simp del: flush_step.simps)
    qed
  qed
qed

lemma fst_flush_step:
  "fst (flush_step (chg, saved) p) =
     (if pk_EOS p then chg - {pk_streamID p}
      else if pk_sriChanged p then insert (pk_streamID p) chg else chg)"
  by (cases "last_with (of_stream (pk_streamID p)) saved") (simp_all add: Let_def)

lemma snd_flush_step_chg:
  assumes "s \<in> chg \<longleftrightarrow> s \<in> chg'" "s = pk_streamID p"
  shows "snd (flush_step (chg, saved) p) = snd (flush_step (chg', saved) p)"
proof -
  have *: "(if \<not> e \<and> s \<in> (if e then chg - {s} else if c then insert s chg else chg) then a else b) =
      (if \<not> e \<and> s \<in> (if e then chg' - {s} else if c then insert s chg' else chg') then a else b)"
    for e c and a b :: "'a packet"
    using assms(1) by simp
  show ?thesis
  proof (cases "last_with (of_stream s) saved")
    case None
    then show ?thesis
      unfolding flush_step.simps Let_def assms(2) [symmetric] * by (simp only: option.case snd_conv)
  next
    case (Some y)
    then show ?thesis
      unfolding flush_step.simps Let_def assms(2) [symmetric] * by (simp only: option.case snd_conv)
  qed
qed

lemma flush_step_filter:
  assumes "pk_streamID p = s" "s \<in> chg \<longleftrightarrow> s \<in> chg'"
  obtains c v c' v' where "flush_step (chg, saved) p = (c, v)"
    "flush_step (chg', filter (of_stream s) saved) p = (c', v')"
    "s \<in> c \<longleftrightarrow> s \<in> c'" "filter (of_stream s) v = v'" "filter (of_stream s) v' = v'"
proof -
  let ?a = "flush_step (chg, saved) p" and ?b = "flush_step (chg', filter (of_stream s) saved) p"
  note chg = snd_flush_step_chg [OF assms(2) assms(1) [symmetric]]
  have "filter (of_stream s) (snd ?a) = snd ?b" "filter (of_stream s) (snd ?b) = snd ?b"
    using flush_step_same(1) [OF assms(1)] chg by (simp_all del: flush_step.simps)
  moreover have "s \<in> fst ?a \<longleftrightarrow> s \<in> fst ?b"
    using assms by (simp add: fst_flush_step del: flush_step.simps)
  ultimately show thesis using that by (metis surj_pair prod.sel)
qed

lemma filter_flush_fold:
  assumes "s \<in> chg \<longleftrightarrow> s \<in> chg'"
  shows "filter (of_stream s) (snd (foldl flush_step (chg, saved) q)) =
     snd (foldl flush_step (chg', filter (of_stream s) saved) (filter (of_stream s) q))"
  using assms
proof (induction q arbitrary: chg chg' saved)
  case (Cons p q)
  show ?case
  proof (cases "pk_streamID p = s")
    case False
    obtain c v where f: "flush_step (chg, saved) p = (c, v)" by (metis surj_pair)
    then show ?thesis
      using Cons flush_step_other [OF False, of chg saved] False
      by (simp del: flush_step.simps)
  next
    case True
    obtain c v c' v' where f: "flush_step (chg, saved) p = (c, v)"
        "flush_step (chg', filter (of_stream s) saved) p = (c', v')"
        "s \<in> c \<longleftrightarrow> s \<in> c'" "filter (of_stream s) v = v'"
      using flush_step_filter [OF True Cons.prems] by metis
    then show ?thesis
      using Cons.IH [OF f(3), of v] True by (simp del: flush_step.simps)
  qed
qed simp

text \<open>The shared form of the meaning of a flush.\<close>

lemma flush_packets_filter:
  "filter (of_stream s) (flush_packets q) = flush_reference (filter (of_stream s) q)"
proof -
  have "filter (of_stream s) (flush_packets q) =
      snd (foldl flush_step ({}, []) (filter (of_stream s) q))"
    unfolding flush_packets_def
    using filter_flush_fold [of s "{}" "{}" "[]" q] by simp
  then show ?thesis using flush_fold_single [of "filter (of_stream s) q" s] by auto
qed

section \<open>Counting ends of streams\<close>

definition eos_count :: "string \<Rightarrow> 'a packet list \<Rightarrow> nat" where
  "eos_count s q = length (filter (\<lambda>p. pk_streamID p = s \<and> pk_EOS p) q)"

lemma eos_count_simps [simp]:
  "eos_count s [] = 0"
  "eos_count s (p # q) = (if pk_streamID p = s \<and> pk_EOS p then 1 else 0) + eos_count s q"
  "eos_count s (q @ q') = eos_count s q + eos_count s q'"
  by (simp_all add: eos_count_def)

lemma eos_count_filter: "eos_count s (filter (of_stream s) q) = eos_count s q"
  by (induction q) auto

lemma eos_count_last:
  "\<forall>p \<in> set i. pk_streamID p = s \<Longrightarrow> i \<noteq> [] \<Longrightarrow> \<forall>p \<in> set (butlast i). \<not> pk_EOS p \<Longrightarrow>
   eos_count s i = (if pk_EOS (last i) then 1 else 0)"
  by (induction i) (auto split: if_splits)

lemma eos_count_concat: "eos_count s (concat qs) = sum_list (map (eos_count s) qs)"
  by (induction qs) auto

lemma eos_count_flush_instances:
  assumes "\<forall>i \<in> set is. i \<noteq> [] \<and> (\<forall>p \<in> set i. pk_streamID p = s) \<and> (\<forall>p \<in> set (butlast i). \<not> pk_EOS p)"
  shows "eos_count s (map (flush_instance earlier) is) = sum_list (map (eos_count s) is)"
  using assms
  by (induction "is") (auto simp: eos_count_last pk_streamID_flush_instance)

lemma eos_count_reference:
  assumes "\<forall>p \<in> set q. pk_streamID p = s"
  shows "eos_count s (flush_reference q) = eos_count s q"
proof (cases "stream_instances q")
  case (Cons i rest)
  have q: "q = concat (i # rest)" using concat_instances [of q] Cons by simp
  have w: "\<forall>i \<in> set (i # rest). i \<noteq> [] \<and> (\<forall>p \<in> set i. pk_streamID p = s) \<and>
      (\<forall>p \<in> set (butlast i). \<not> pk_EOS p)"
    using assms instances_nonempty [of _ q] instances_EOS [of _ q] Cons q by fastforce
  have f: "flush_reference q = flush_instance False i # map (flush_instance True) rest"
    using Cons by (simp add: flush_reference.simps)
  have "eos_count s (flush_reference q) = sum_list (map (eos_count s) (i # rest))"
    using w by (simp add: f eos_count_flush_instances eos_count_last pk_streamID_flush_instance)
  then show ?thesis using eos_count_concat [of s "i # rest"] q by simp
qed (auto simp: flush_reference.simps)

lemma eos_count_flush: "eos_count s (flush_packets q) = eos_count s q"
  using eos_count_reference [of "filter (of_stream s) q" s]
  by (simp add: flush_packets_filter [symmetric] eos_count_filter)

lemma length_reference:
  "\<forall>p \<in> set q. pk_streamID p = s \<Longrightarrow>
   length (flush_reference q) = eos_count s q + (if q \<noteq> [] \<and> \<not> pk_EOS (last q) then 1 else 0)"
proof -
  assume a: "\<forall>p \<in> set q. pk_streamID p = s"
  have "length (stream_instances q) = eos_count s q + (if q \<noteq> [] \<and> \<not> pk_EOS (last q) then 1 else 0)"
    using a by (induction q) (auto split: list.split)
  then show ?thesis by (cases "stream_instances q") (simp_all add: flush_reference.simps)
qed

lemma reference_Nil_iff [simp]: "flush_reference q = [] \<longleftrightarrow> q = []"
  by (cases "stream_instances q") (auto simp: flush_reference.simps)

lemma pk_streamID_flush_packets: "pk_streamID ` set (flush_packets q) = pk_streamID ` set q"
proof -
  have mem: "s \<in> pk_streamID ` set x \<longleftrightarrow> filter (of_stream s) x \<noteq> []" for s and x :: "'a packet list"
    by (auto simp: filter_empty_conv)
  show ?thesis by (rule set_eqI) (simp only: mem flush_packets_filter reference_Nil_iff)
qed

section \<open>Properties\<close>

text \<open>
  C15: A flush acts on every stream by itself and keeps exactly one packet of each instance of
  the stream: the last packet, with the SRI change flag of any packet of the instance; or, when the last
  packet is an empty end-of-stream and not the only one, the packet before it, marked as the end, with the SRI
  change flag of any packet of the instance but the end-of-stream packet itself, whose own flag is lost. The
  kept packet is marked as flushed when an earlier packet of its instance was dropped or when the stream has an
  earlier instance in the queue, unless it is an empty end-of-stream alone in a later instance. So the loop of
  the source over the whole queue is the function \<open>flush_instance\<close> of each instance of each stream.
\<close>

theorem flush_keeps_one_packet_per_instance:
  "filter (\<lambda>p. pk_streamID p = s) (flush_packets q) =
     (case stream_instances (filter (\<lambda>p. pk_streamID p = s) q) of
        [] \<Rightarrow> []
      | i # rest \<Rightarrow> flush_instance False i # map (flush_instance True) rest)"
  using flush_packets_filter [of s q] by (simp add: flush_reference.simps)

text \<open>The loss: the only report of a change of the SRI is that of an empty end-of-stream packet.\<close>

lemma flush_loses_change_of_empty_end:
  assumes "pk_streamID p = pk_streamID e" "\<not> pk_EOS p" "\<not> pk_sriChanged p" "pk_EOS e" "pk_buffer e = []" "pk_sriChanged e"
  shows "flush_packets [p, e] = [p\<lparr>pk_EOS := True\<rparr>]"
proof -
  have "filter (of_stream (pk_streamID e)) (flush_packets [p, e]) = [p\<lparr>pk_EOS := True\<rparr>]"
    unfolding flush_packets_filter using assms
    by (simp add: flush_reference.simps flush_instance_def keep_data_def)
  moreover have "\<forall>x \<in> set (flush_packets [p, e]). of_stream (pk_streamID e) x"
    using pk_streamID_flush_packets [of "[p, e]"] assms(1) by auto
  ultimately show ?thesis by (simp add: filter_id_conv [THEN iffD2])
qed

text \<open>
  A flush never loses the end of a stream and always makes progress on the rest: every
  stream has as many end-of-stream packets after a flush as before, at most one further packet
  is left for it, there is one exactly when the queue ended with unfinished data of the stream,
  and no stream appears or disappears.
\<close>

theorem flush_preserves_ends_of_streams:
  "eos_count s (flush_packets q) = eos_count s q \<and>
   length (filter (of_stream s) (flush_packets q)) =
     eos_count s q +
       (let mine = filter (of_stream s) q in if mine \<noteq> [] \<and> \<not> pk_EOS (last mine) then 1 else 0) \<and>
   pk_streamID ` set (flush_packets q) = pk_streamID ` set q"
  using length_reference [of "filter (of_stream s) q" s]
  by (simp add: eos_count_flush flush_packets_filter eos_count_filter Let_def pk_streamID_flush_packets)

end
