(* ===== verification/InPort.thy ===== *)
theory InPort
  imports Flush
begin

text \<open>
  \<open>bulkio/input_ports.py\<close>, class \<open>InPort\<close>: the packet queue of an input port, its overflow
  policy, the SRI dictionary, the active and pending stream maps. The operations come in the
  order of the file; each is one locked section of the source, and the calls that wait on a
  condition take the effects of other threads during the waits as an argument.
\<close>

section \<open>Operations\<close>

definition add_event :: "port_event \<Rightarrow> 'a inport \<Rightarrow> 'a inport" where
  "add_event e p = p\<lparr>ip_events := ip_events p @ [e]\<rparr>"

definition InPort_setNewSriListener :: "bool \<Rightarrow> 'a inport \<Rightarrow> 'a inport" where
  "InPort_setNewSriListener cb p = p\<lparr>ip_newSriCallback := cb\<rparr>"

definition InPort_setSriChangeListener :: "bool \<Rightarrow> 'a inport \<Rightarrow> 'a inport" where
  "InPort_setSriChangeListener cb p = p\<lparr>ip_sriChangeCallback := cb\<rparr>"

definition InPort_enableStats :: "bool \<Rightarrow> 'a inport \<Rightarrow> 'a inport" where
  "InPort_enableStats b p = p\<lparr>ip_stats := InStats_setEnabled b (ip_stats p)\<rparr>"

definition InPort_get_statistics ::
    "rat \<Rightarrow> 'a inport \<Rightarrow> (portStatistics option \<times> 'a inport) option" where
  "InPort_get_statistics now p =
     map_option (\<lambda>(st, s). (st, p\<lparr>ip_stats := s\<rparr>)) (InStats_retrieve now (ip_stats p))"

definition InPort_get_state :: "'a inport \<Rightarrow> port_state" where
  "InPort_get_state p =
     (if length (ip_queue p) = 0 then IDLE
      else if int (length (ip_queue p)) = ip_maxSize p then BUSY else ACTIVE)"

definition InPort_get_activeSRIs :: "'a inport \<Rightarrow> sri list" where
  "InPort_get_activeSRIs p = map (\<lambda>(sid, sri, changed). sri) (ip_sriDict p)"

definition InPort_getCurrentQueueDepth :: "'a inport \<Rightarrow> nat" where
  "InPort_getCurrentQueueDepth p = length (ip_queue p)"

definition InPort_getMaxQueueDepth :: "'a inport \<Rightarrow> int" where
  "InPort_getMaxQueueDepth p = ip_maxSize p"

definition InPort_setMaxQueueDepth :: "int \<Rightarrow> 'a inport \<Rightarrow> 'a inport" where
  "InPort_setMaxQueueDepth n p = p\<lparr>ip_maxSize := n\<rparr>"

definition InPort_unblock :: "'a inport \<Rightarrow> 'a inport" where
  "InPort_unblock p = p\<lparr>ip_breakBlock := False\<rparr>"

definition InPort_block :: "'a inport \<Rightarrow> 'a inport" where
  "InPort_block p = p\<lparr>ip_breakBlock := True\<rparr>"

subsection \<open>Streams of the port\<close>

definition pending_of :: "string \<Rightarrow> 'a inport \<Rightarrow> nat list" where
  "pending_of sid p = (case dget (ip_pendingStreams p) sid of None \<Rightarrow> [] | Some l \<Rightarrow> l)"

definition InPort_createStream :: "sri \<Rightarrow> 'a inport \<Rightarrow> 'a inport" where
  "InPort_createStream H p =
     (let sid = streamID H; r = length (ip_heap p);
          q = p\<lparr>ip_heap := ip_heap p @ [InputStream_init (ip_bufferedStreams p) H]\<rparr>
      in if dget (ip_streams p) sid \<noteq> None
         then q\<lparr>ip_pendingStreams := dput sid (pending_of sid p @ [r]) (ip_pendingStreams p)\<rparr>
         else add_event (StreamAdded r) (q\<lparr>ip_streams := dput sid r (ip_streams p)\<rparr>))"

text \<open>The common tail of \<open>_removeStream\<close> and \<open>_acceptPacket\<close>: a pending stream becomes active.\<close>

definition activate_pending :: "string \<Rightarrow> 'a inport \<Rightarrow> 'a inport" where
  "activate_pending sid p = (case pending_of sid p of
       [] \<Rightarrow> p
     | r # rest \<Rightarrow> add_event (StreamAdded r)
         (p\<lparr>ip_pendingStreams := dput sid rest (ip_pendingStreams p),
            ip_streams := dput sid r (ip_streams p)\<rparr>))"

definition InPort_removeStream :: "string \<Rightarrow> 'a inport \<Rightarrow> 'a inport" where
  "InPort_removeStream sid p = activate_pending sid (p\<lparr>ip_streams := dpop sid (ip_streams p)\<rparr>)"

definition InPort_getStream :: "string \<Rightarrow> 'a inport \<Rightarrow> nat option" where
  "InPort_getStream sid p = dget (ip_streams p) sid"

definition InPort_getStreams :: "'a inport \<Rightarrow> nat list" where
  "InPort_getStreams p = map snd (ip_streams p)"

text \<open>The queue attribute becomes a plain list here.\<close>

definition InPort_discardPacketsForStream :: "string \<Rightarrow> 'a inport \<Rightarrow> 'a inport" where
  "InPort_discardPacketsForStream sid p =
     p\<lparr>ip_queue := filter (\<lambda>pkt. pk_streamID pkt \<noteq> sid) (ip_queue p), ip_deque := False\<rparr>"

definition InPort_disableBlockingOnEOS :: "'a inport \<Rightarrow> bool" where
  "InPort_disableBlockingOnEOS p = (\<forall>(sid, hdr, changed) \<in> set (ip_sriDict p). \<not> blocking hdr)"

subsection \<open>Receiving\<close>

definition InPort_pushSRI :: "sri \<Rightarrow> 'a inport \<Rightarrow> 'a inport" where
  "InPort_pushSRI H p =
     (let sid = streamID H;
          p = (if blocking H then p\<lparr>ip_blocking := True\<rparr> else p)
      in case dget (ip_sriDict p) sid of
           None \<Rightarrow>
             let p = (if ip_newSriCallback p then add_event (NewSri H) p else p);
                 p = p\<lparr>ip_sriDict := dput sid (H, True) (ip_sriDict p)\<rparr>
             in InPort_createStream H p
         | Some (sri, changed) \<Rightarrow>
             let differs = (case ip_sri_cmp p of None \<Rightarrow> False | Some cmp \<Rightarrow> \<not> cmp sri H);
                 p = (if differs \<and> ip_sriChangeCallback p then add_event (SriChange H) p else p)
             in if changed \<or> differs
                then p\<lparr>ip_sriDict := dput sid (H, True) (ip_sriDict p)\<rparr> else p)"

definition InPort_acceptPacket :: "string \<Rightarrow> bool \<Rightarrow> 'a inport \<Rightarrow> bool \<times> 'a inport" where
  "InPort_acceptPacket sid EOS p = (case dget (ip_streams p) sid of
       None \<Rightarrow> (True, p)
     | Some r \<Rightarrow>
         if is_enabled (ip_heap p ! r) then (True, p)
         else if pending_of sid p \<noteq> [] then (True, p)
         else if EOS then
           (False, activate_pending sid
             (p\<lparr>ip_heap := (ip_heap p)[r := InputStream_close (ip_heap p ! r)],
                ip_streams := dpop sid (ip_streams p)\<rparr>))
         else (False, p))"

definition InPort_flushQueue :: "'a inport \<Rightarrow> 'a inport" where
  "InPort_flushQueue p = p\<lparr>ip_queue := flush_packets (ip_queue p), ip_deque := True\<rparr>"

definition queue_full :: "'a inport \<Rightarrow> bool" where
  "queue_full p \<longleftrightarrow> 0 \<le> ip_maxSize p \<and> ip_maxSize p \<le> int (length (ip_queue p))"

text \<open>The wait of a blocking port for space: the condition is tested again after every wake-up.\<close>

fun wait_for_space :: "'a waits \<Rightarrow> 'a inport \<Rightarrow> 'a inport outcome" where
  "wait_for_space ws p =
     (if queue_full p then
        (case ws of [] \<Rightarrow> Blocked | (t, e) # rest \<Rightarrow> wait_for_space rest (e p))
      else Returned p)"

declare wait_for_space.simps [simp del]

text \<open>
  After a flush, the first packet of the same stream that is left without an end-of-stream is
  merged into the new one.
\<close>

definition merge_flushed :: "'a packet \<Rightarrow> 'a packet list \<Rightarrow> 'a packet \<times> 'a packet list" where
  "merge_flushed packet q =
     (let m = (\<lambda>s. pk_streamID s = pk_streamID packet \<and> \<not> pk_EOS s)
      in case dropWhile (\<lambda>s. \<not> m s) q of
           [] \<Rightarrow> (packet, q)
         | old # rest \<Rightarrow>
             (packet\<lparr>pk_flushed := True, pk_sriChanged := pk_sriChanged packet \<or> pk_sriChanged old\<rparr>,
              takeWhile (\<lambda>s. \<not> m s) q @ rest))"

text \<open>
  The three locked sections of \<open>_queuePacket\<close>: the SRI is looked up and its change
  acknowledged, room is made in the queue, and the packet is appended.
\<close>

definition acknowledge_sri :: "string \<Rightarrow> 'a inport \<Rightarrow> sri \<times> bool \<times> 'a inport" where
  "acknowledge_sri sid p =
     (let (sri, changed, new_stream, p) =
            (case dget (ip_sriDict p) sid of
               Some (s, c) \<Rightarrow> (s, c, False, p)
             | None \<Rightarrow> (sri_default sid, True, True,
                 if ip_newSriCallback p then add_event (NewSri (sri_default sid)) p else p));
          p = p\<lparr>ip_sriDict := dput sid (sri, False) (ip_sriDict p)\<rparr>
      in (sri, changed, if new_stream then InPort_createStream sri p else p))"

definition make_room ::
    "'a waits \<Rightarrow> string \<Rightarrow> sri \<times> bool \<times> 'a inport \<Rightarrow> (sri \<times> bool \<times> bool \<times> 'a inport) outcome"
  where
  "make_room ws sid = (\<lambda>(sri, changed, p).
     if ip_blocking p then omap (\<lambda>p. (sri, changed, False, p)) (wait_for_space ws p)
     else if queue_full p then
       let p = InPort_flushQueue p
       in (case dget (ip_sriDict p) sid of
             None \<Rightarrow> Raised KeyError
           | Some (s, c) \<Rightarrow>
               Returned (s, changed \<or> c, True, p\<lparr>ip_sriDict := dput sid (s, False) (ip_sriDict p)\<rparr>))
     else Returned (sri, changed, False, p))"

definition enqueue_packet ::
    "rat \<Rightarrow> 'a list \<Rightarrow> utctime option \<Rightarrow> bool \<Rightarrow> string \<Rightarrow> sri \<times> bool \<times> bool \<times> 'a inport \<Rightarrow> 'a inport"
  where
  "enqueue_packet now data T EOS sid = (\<lambda>(sri, changed, queue_flushed, p).
     let p = p\<lparr>ip_stats := InStats_update now (ip_packetSize p data)
                (of_nat (length (ip_queue p)) / of_int (ip_maxSize p)) EOS sid queue_flushed
                (ip_stats p)\<rparr>;
         packet = \<lparr>pk_buffer = data, pk_T = T, pk_EOS = EOS, pk_SRI = sri,
                   pk_sriChanged = changed, pk_flushed = False\<rparr>;
         (packet, q) = (if queue_flushed then merge_flushed packet (ip_queue p)
                        else (packet, ip_queue p));
         p = p\<lparr>ip_queue := q @ [packet]\<rparr>
     in (if EOS then p\<lparr>ip_sriDict := dpop sid (ip_sriDict p)\<rparr> else p))"

definition InPort_queuePacket ::
    "rat \<Rightarrow> 'a waits \<Rightarrow> 'a list \<Rightarrow> utctime option \<Rightarrow> bool \<Rightarrow> string \<Rightarrow> 'a inport \<Rightarrow> 'a inport outcome"
  where
  "InPort_queuePacket now ws data T EOS sid p =
     (let (accepted, p) = InPort_acceptPacket sid EOS p in
      if \<not> accepted then
        Returned (if EOS \<and> InPort_disableBlockingOnEOS p then p\<lparr>ip_blocking := False\<rparr> else p)
      else if data = [] \<and> \<not> EOS then Returned p
      else if ip_maxSize p = 0 then Returned p
      else omap (enqueue_packet now data T EOS sid) (make_room ws sid (acknowledge_sri sid p)))"

definition InPort_pushPacket ::
    "rat \<Rightarrow> 'a waits \<Rightarrow> 'a list \<Rightarrow> utctime option \<Rightarrow> bool \<Rightarrow> string \<Rightarrow> 'a inport \<Rightarrow> 'a inport outcome"
  where
  "InPort_pushPacket now ws data T EOS sid p = InPort_queuePacket now ws data T EOS sid p"

subsection \<open>Fetching\<close>

text \<open>A missing or empty stream ID is false in Python and selects the front of the queue.\<close>

definition no_streamID :: "string option \<Rightarrow> bool" where
  "no_streamID sid \<longleftrightarrow> sid = None \<or> sid = Some ''''"

definition InPort_fetchPacket ::
    "string option \<Rightarrow> 'a inport \<Rightarrow> ('a packet option \<times> 'a inport) outcome" where
  "InPort_fetchPacket sid p =
     (if no_streamID sid then
        (case ip_queue p of
           [] \<Rightarrow> Returned (None, p)
         | pkt # rest \<Rightarrow>
             if ip_deque p then Returned (Some pkt, p\<lparr>ip_queue := rest\<rparr>) else Raised AttributeError)
      else
        let other = (\<lambda>pkt. Some (pk_streamID pkt) \<noteq> sid)
        in case dropWhile other (ip_queue p) of
             [] \<Rightarrow> Returned (None, p)
           | pkt # rest \<Rightarrow> Returned (Some pkt, p\<lparr>ip_queue := takeWhile other (ip_queue p) @ rest\<rparr>))"

fun next_loop ::
    "rat \<Rightarrow> rat \<Rightarrow> string option \<Rightarrow> 'a waits \<Rightarrow> 'a inport \<Rightarrow>
     ('a packet option \<times> 'a waits \<times> 'a inport) outcome" where
  "next_loop timeout to_time sid ws p =
     obind (InPort_fetchPacket sid p) (\<lambda>(packet, p).
       case packet of
         Some pkt \<Rightarrow> Returned (Some pkt, ws, p)
       | None \<Rightarrow>
           if timeout = 0 then Returned (None, ws, p)
           else (case ws of
             [] \<Rightarrow> if 0 < timeout then Returned (None, [], p) else Blocked
           | (t, e) # rest \<Rightarrow>
               if 0 < timeout \<and> to_time - t \<le> 0 then Returned (None, rest, p)
               else if ip_breakBlock (e p) then Returned (None, rest, e p)
               else next_loop timeout to_time sid rest (e p)))"

declare next_loop.simps [simp del]

definition InPort_nextPacket ::
    "rat \<Rightarrow> rat \<Rightarrow> string option \<Rightarrow> 'a waits \<Rightarrow> 'a inport \<Rightarrow>
     ('a packet option \<times> 'a waits \<times> 'a inport) outcome" where
  "InPort_nextPacket now timeout sid ws p =
     (if ip_breakBlock p then Returned (None, ws, p)
      else omap (\<lambda>(packet, ws, p).
             (packet, ws,
              case packet of
                Some pkt \<Rightarrow> if pk_EOS pkt \<and> InPort_disableBlockingOnEOS p
                            then p\<lparr>ip_blocking := False\<rparr> else p
              | None \<Rightarrow> p))
           (next_loop timeout (now + timeout) sid ws p))"

text \<open>\<open>getPacket\<close>: the seven fields of \<open>DataTransfer\<close>, all \<open>None\<close> when there is no packet.\<close>

record 'a dataTransfer =
  dt_dataBuffer :: "'a list option"
  dt_T :: "utctime option"
  dt_EOS :: "bool option"
  dt_streamID :: "string option"
  dt_SRI :: "sri option"
  dt_sriChanged :: "bool option"
  dt_inputQueueFlushed :: "bool option"

definition dataTransfer_of :: "'a packet option \<Rightarrow> 'a dataTransfer" where
  "dataTransfer_of packet = (case packet of
     None \<Rightarrow> \<lparr>dt_dataBuffer = None, dt_T = None, dt_EOS = None, dt_streamID = None, dt_SRI = None,
              dt_sriChanged = None, dt_inputQueueFlushed = None\<rparr>
   | Some p \<Rightarrow> \<lparr>dt_dataBuffer = Some (pk_buffer p), dt_T = pk_T p, dt_EOS = Some (pk_EOS p),
              dt_streamID = Some (pk_streamID p), dt_SRI = Some (pk_SRI p),
              dt_sriChanged = Some (pk_sriChanged p), dt_inputQueueFlushed = Some (pk_flushed p)\<rparr>)"

definition InPort_getPacket ::
    "rat \<Rightarrow> rat \<Rightarrow> 'a waits \<Rightarrow> 'a inport \<Rightarrow> ('a dataTransfer \<times> 'a waits \<times> 'a inport) outcome" where
  "InPort_getPacket now timeout ws p =
     omap (\<lambda>(packet, ws, p). (dataTransfer_of packet, ws, p)) (InPort_nextPacket now timeout None ws p)"

fun InPort_peekPacket ::
    "rat \<Rightarrow> rat \<Rightarrow> 'a waits \<Rightarrow> 'a inport \<Rightarrow> ('a packet option \<times> 'a waits \<times> 'a inport) outcome" where
  "InPort_peekPacket timeout to_time ws p =
     (if ip_breakBlock p then Returned (None, ws, p)
      else case ip_queue p of
        pkt # _ \<Rightarrow> Returned (Some pkt, ws, p)
      | [] \<Rightarrow>
          if timeout = 0 then Returned (None, ws, p)
          else (case ws of
            [] \<Rightarrow> if 0 < timeout then Returned (None, [], p) else Blocked
          | (t, e) # rest \<Rightarrow>
              if 0 < timeout \<and> to_time - t \<le> 0 then Returned (None, rest, p)
              else InPort_peekPacket timeout to_time rest (e p)))"

declare InPort_peekPacket.simps [simp del]

definition InPort_getCurrentStream ::
    "rat \<Rightarrow> rat \<Rightarrow> 'a waits \<Rightarrow> 'a inport \<Rightarrow> (nat option \<times> 'a waits \<times> 'a inport) outcome" where
  "InPort_getCurrentStream now timeout ws p =
     (case find (\<lambda>r. InputStream_hasBufferedData (ip_heap p ! r)) (InPort_getStreams p) of
        Some r \<Rightarrow> Returned (Some r, ws, p)
      | None \<Rightarrow>
          omap (\<lambda>(packet, ws, p).
              (case packet of None \<Rightarrow> None | Some pkt \<Rightarrow> InPort_getStream (pk_streamID pkt) p, ws, p))
            (InPort_peekPacket timeout (now + timeout) ws p))"

section \<open>The invariant of a port\<close>

text \<open>
  Dictionaries have one entry per key, every SRI and every stream object is filed under its own
  stream ID, references are valid, a stream only waits behind an active one, no stream object is
  filed twice, and no packet without data is queued unless it ends its stream.
\<close>

definition stream_refs :: "string \<Rightarrow> 'a inport \<Rightarrow> nat list" where
  "stream_refs sid p =
     (case dget (ip_streams p) sid of None \<Rightarrow> [] | Some r \<Rightarrow> r # pending_of sid p)"

definition refs_ok :: "'a istream list \<Rightarrow> string \<Rightarrow> nat list \<Rightarrow> bool" where
  "refs_ok heap sid rs \<longleftrightarrow> distinct rs \<and> (\<forall>r \<in> set rs. r < length heap \<and> is_streamID (heap ! r) = sid)"

definition no_orphans :: "'a inport \<Rightarrow> bool" where
  "no_orphans p \<longleftrightarrow> (\<forall>sid. dget (ip_streams p) sid = None \<longrightarrow> pending_of sid p = [])"

definition streams_ok :: "'a inport \<Rightarrow> bool" where
  "streams_ok p \<longleftrightarrow> dict_ok (ip_streams p) \<and> dict_ok (ip_pendingStreams p) \<and> no_orphans p \<and>
     (\<forall>sid. refs_ok (ip_heap p) sid (stream_refs sid p))"

definition sri_dict_ok :: "(string, sri \<times> bool) dict \<Rightarrow> bool" where
  "sri_dict_ok d \<longleftrightarrow> dict_ok d \<and> (\<forall>sid H c. dget d sid = Some (H, c) \<longrightarrow> streamID H = sid)"

definition inport_ok :: "'a inport \<Rightarrow> bool" where
  "inport_ok p \<longleftrightarrow> streams_ok p \<and> sri_dict_ok (ip_sriDict p) \<and>
     (\<forall>pkt \<in> set (ip_queue p). packet_ok pkt) \<and> instats_ok (ip_stats p)"

lemma pending_of_cong [simp]:
  "pending_of sid (p\<lparr>ip_queue := q\<rparr>) = pending_of sid p"
  "pending_of sid (p\<lparr>ip_deque := d\<rparr>) = pending_of sid p"
  "pending_of sid (p\<lparr>ip_sriDict := sd\<rparr>) = pending_of sid p"
  "pending_of sid (p\<lparr>ip_stats := st\<rparr>) = pending_of sid p"
  "pending_of sid (p\<lparr>ip_blocking := b\<rparr>) = pending_of sid p"
  "pending_of sid (p\<lparr>ip_breakBlock := b\<rparr>) = pending_of sid p"
  "pending_of sid (p\<lparr>ip_events := ev\<rparr>) = pending_of sid p"
  "pending_of sid (p\<lparr>ip_streams := ss\<rparr>) = pending_of sid p"
  "pending_of sid (p\<lparr>ip_heap := h\<rparr>) = pending_of sid p"
  "pending_of sid (p\<lparr>ip_maxSize := n\<rparr>) = pending_of sid p"
  "pending_of sid (p\<lparr>ip_newSriCallback := cb\<rparr>) = pending_of sid p"
  "pending_of sid (p\<lparr>ip_sriChangeCallback := cb\<rparr>) = pending_of sid p"
  "pending_of sid (add_event e p) = pending_of sid p"
  by (simp_all add: pending_of_def add_event_def)

lemma pending_of_put [simp]:
  "pending_of sid (p\<lparr>ip_pendingStreams := dput sid' l (ip_pendingStreams p)\<rparr>) =
     (if sid = sid' then l else pending_of sid p)"
  by (simp add: pending_of_def)

lemma add_event_fields [simp]:
  "ip_queue (add_event e p) = ip_queue p" "ip_deque (add_event e p) = ip_deque p"
  "ip_sriDict (add_event e p) = ip_sriDict p" "ip_stats (add_event e p) = ip_stats p"
  "ip_streams (add_event e p) = ip_streams p" "ip_heap (add_event e p) = ip_heap p"
  "ip_pendingStreams (add_event e p) = ip_pendingStreams p" "ip_maxSize (add_event e p) = ip_maxSize p"
  "ip_blocking (add_event e p) = ip_blocking p" "ip_breakBlock (add_event e p) = ip_breakBlock p"
  "ip_sri_cmp (add_event e p) = ip_sri_cmp p" "ip_newSriCallback (add_event e p) = ip_newSriCallback p"
  "ip_sriChangeCallback (add_event e p) = ip_sriChangeCallback p"
  "ip_packetSize (add_event e p) = ip_packetSize p"
  "ip_bufferedStreams (add_event e p) = ip_bufferedStreams p"
  "ip_events (add_event e p) = ip_events p @ [e]"
  by (simp_all add: add_event_def)

lemma is_streamID_init [simp]: "is_streamID (InputStream_init b H) = streamID H"
  by (simp add: is_streamID_def InputStream_init_def)

lemma is_streamID_close [simp]: "is_streamID (InputStream_close st) = is_streamID st"
  by (simp add: is_streamID_def InputStream_close_def)

lemma stream_refs_cong:
  "ip_streams q = ip_streams p \<Longrightarrow> ip_pendingStreams q = ip_pendingStreams p \<Longrightarrow>
   stream_refs sid q = stream_refs sid p"
  by (simp add: stream_refs_def pending_of_def split: option.split)

lemma streams_ok_cong:
  "ip_streams q = ip_streams p \<Longrightarrow> ip_pendingStreams q = ip_pendingStreams p \<Longrightarrow>
   ip_heap q = ip_heap p \<Longrightarrow> streams_ok q = streams_ok p"
  by (simp add: streams_ok_def no_orphans_def stream_refs_def pending_of_def cong: option.case_cong)

lemma streams_ok_add_event [simp]: "streams_ok (add_event e p) = streams_ok p"
  by (rule streams_ok_cong) simp_all

lemma refs_ok_Nil [simp]: "refs_ok h sid []"
  by (simp add: refs_ok_def)

lemma refs_ok_mono: "refs_ok h sid rs \<Longrightarrow> refs_ok (h @ [st]) sid rs"
  by (auto simp: refs_ok_def nth_append)

lemma refs_ok_snoc:
  "refs_ok h sid rs \<Longrightarrow> is_streamID st = sid \<Longrightarrow> refs_ok (h @ [st]) sid (rs @ [length h])"
  by (auto simp: refs_ok_def nth_append)

lemma refs_ok_tl: "refs_ok h sid rs \<Longrightarrow> refs_ok h sid (tl rs)"
  by (cases rs) (auto simp: refs_ok_def)

lemma refs_ok_update:
  "is_streamID st = is_streamID (h ! r) \<Longrightarrow> refs_ok (h[r := st]) sid rs = refs_ok h sid rs"
proof -
  assume a: "is_streamID st = is_streamID (h ! r)"
  have "is_streamID (h[r := st] ! k) = is_streamID (h ! k)" for k
    using a by (cases "k = r"; cases "r < length h") (auto simp: list_update_beyond)
  then show ?thesis by (simp add: refs_ok_def)
qed

text \<open>
  The stream objects of one ID form a queue: creation appends, removal drops the head.
\<close>

lemma stream_refs_createStream:
  "no_orphans p \<Longrightarrow> stream_refs sid (InPort_createStream H p) =
     (if sid = streamID H then stream_refs sid p @ [length (ip_heap p)] else stream_refs sid p)"
  by (auto simp: stream_refs_def InPort_createStream_def no_orphans_def Let_def add_event_def
      pending_of_def split: option.split)

lemma heap_createStream [simp]:
  "ip_heap (InPort_createStream H p) = ip_heap p @ [InputStream_init (ip_bufferedStreams p) H]"
  by (simp add: InPort_createStream_def Let_def)

lemma no_orphans_createStream [simp]:
  "no_orphans p \<Longrightarrow> no_orphans (InPort_createStream H p)"
  by (auto simp: no_orphans_def InPort_createStream_def Let_def add_event_def pending_of_def
      split: option.split)

lemma dicts_createStream [simp]:
  "dict_ok (ip_streams p) \<Longrightarrow> dict_ok (ip_streams (InPort_createStream H p))"
  "dict_ok (ip_pendingStreams p) \<Longrightarrow> dict_ok (ip_pendingStreams (InPort_createStream H p))"
  by (simp_all add: InPort_createStream_def Let_def)

lemma streams_ok_createStream [simp]:
  "streams_ok p \<Longrightarrow> streams_ok (InPort_createStream H p)"
  by (simp add: streams_ok_def stream_refs_createStream refs_ok_snoc refs_ok_mono)

lemma stream_refs_removeStream:
  assumes "no_orphans p"
  shows "stream_refs sid' (InPort_removeStream sid p) =
     (if sid' = sid then tl (stream_refs sid p) else stream_refs sid' p)"
proof -
  have "dget (ip_streams p) sid = None \<Longrightarrow> pending_of sid p = []"
    using assms by (simp add: no_orphans_def)
  then show ?thesis
    by (cases "dget (ip_streams p) sid"; cases "pending_of sid p")
      (simp_all add: stream_refs_def InPort_removeStream_def activate_pending_def pending_of_def
        add_event_def cong: option.case_cong)
qed

lemma no_orphans_removeStream [simp]:
  "no_orphans p \<Longrightarrow> no_orphans (InPort_removeStream sid p)"
  by (auto simp: no_orphans_def InPort_removeStream_def activate_pending_def add_event_def
      pending_of_def split: list.split option.split)

lemma heap_removeStream [simp]: "ip_heap (InPort_removeStream sid p) = ip_heap p"
  by (simp add: InPort_removeStream_def activate_pending_def split: list.split)

lemma dicts_removeStream [simp]:
  "dict_ok (ip_streams p) \<Longrightarrow> dict_ok (ip_streams (InPort_removeStream sid p))"
  "dict_ok (ip_pendingStreams p) \<Longrightarrow> dict_ok (ip_pendingStreams (InPort_removeStream sid p))"
  by (auto simp: InPort_removeStream_def activate_pending_def split: list.split)

lemma streams_ok_removeStream [simp]:
  "streams_ok p \<Longrightarrow> streams_ok (InPort_removeStream sid p)"
  by (simp add: streams_ok_def stream_refs_removeStream refs_ok_tl)

lemma streams_ok_heap:
  "streams_ok p \<Longrightarrow> is_streamID st = is_streamID (ip_heap p ! r) \<Longrightarrow>
   streams_ok (p\<lparr>ip_heap := (ip_heap p)[r := st]\<rparr>)"
  by (simp add: streams_ok_def no_orphans_def stream_refs_def pending_of_def refs_ok_update
      cong: option.case_cong)

text \<open>
  Whether a port takes packets of a stream: only a disabled stream with nothing waiting behind
  it turns them away.
\<close>

definition accepts :: "string \<Rightarrow> 'a inport \<Rightarrow> bool" where
  "accepts sid p \<longleftrightarrow> (case dget (ip_streams p) sid of
     None \<Rightarrow> True | Some r \<Rightarrow> is_enabled (ip_heap p ! r) \<or> pending_of sid p \<noteq> [])"

lemma acceptPacket_accepts: "accepts sid p \<Longrightarrow> InPort_acceptPacket sid eos p = (True, p)"
  by (auto simp: accepts_def InPort_acceptPacket_def split: option.splits)

lemma acceptPacket_rejects:
  assumes "\<not> accepts sid p"
  obtains r where "dget (ip_streams p) sid = Some r" "\<not> is_enabled (ip_heap p ! r)"
    "pending_of sid p = []"
    "InPort_acceptPacket sid eos p =
       (False, if eos then InPort_removeStream sid
          (p\<lparr>ip_heap := (ip_heap p)[r := InputStream_close (ip_heap p ! r)]\<rparr>) else p)"
  using assms that
  by (auto simp: accepts_def InPort_acceptPacket_def InPort_removeStream_def split: option.splits)

lemma removeStream_fields [simp]:
  "ip_queue (InPort_removeStream sid p) = ip_queue p"
  "ip_deque (InPort_removeStream sid p) = ip_deque p"
  "ip_sriDict (InPort_removeStream sid p) = ip_sriDict p"
  "ip_stats (InPort_removeStream sid p) = ip_stats p"
  "ip_maxSize (InPort_removeStream sid p) = ip_maxSize p"
  "ip_blocking (InPort_removeStream sid p) = ip_blocking p"
  "ip_breakBlock (InPort_removeStream sid p) = ip_breakBlock p"
  by (simp_all add: InPort_removeStream_def activate_pending_def split: list.split)

lemma createStream_fields [simp]:
  "ip_queue (InPort_createStream H p) = ip_queue p"
  "ip_deque (InPort_createStream H p) = ip_deque p"
  "ip_sriDict (InPort_createStream H p) = ip_sriDict p"
  "ip_stats (InPort_createStream H p) = ip_stats p"
  "ip_maxSize (InPort_createStream H p) = ip_maxSize p"
  "ip_blocking (InPort_createStream H p) = ip_blocking p"
  "ip_breakBlock (InPort_createStream H p) = ip_breakBlock p"
  "ip_packetSize (InPort_createStream H p) = ip_packetSize p"
  by (simp_all add: InPort_createStream_def Let_def)

lemma queuePacket_accepted:
  "accepts sid p \<Longrightarrow> data \<noteq> [] \<or> eos \<Longrightarrow> ip_maxSize p \<noteq> 0 \<Longrightarrow>
   InPort_queuePacket now ws data T eos sid p =
     omap (enqueue_packet now data T eos sid) (make_room ws sid (acknowledge_sri sid p))"
  by (auto simp: InPort_queuePacket_def acceptPacket_accepts)

section \<open>Preservation\<close>

lemma inport_ok_fields:
  "inport_ok (p\<lparr>ip_blocking := b\<rparr>) = inport_ok p"
  "inport_ok (p\<lparr>ip_breakBlock := b\<rparr>) = inport_ok p"
  "inport_ok (p\<lparr>ip_maxSize := n\<rparr>) = inport_ok p"
  "inport_ok (p\<lparr>ip_events := ev\<rparr>) = inport_ok p"
  "inport_ok (p\<lparr>ip_newSriCallback := cb\<rparr>) = inport_ok p"
  "inport_ok (p\<lparr>ip_sriChangeCallback := cb\<rparr>) = inport_ok p"
  "inport_ok (add_event e p) = inport_ok p"
  by (simp_all add: inport_ok_def add_event_def streams_ok_def no_orphans_def stream_refs_def
      cong: option.case_cong)

lemma streams_ok_fields [simp]:
  "streams_ok (p\<lparr>ip_queue := q\<rparr>) = streams_ok p"
  "streams_ok (p\<lparr>ip_deque := d\<rparr>) = streams_ok p"
  "streams_ok (p\<lparr>ip_sriDict := sd\<rparr>) = streams_ok p"
  "streams_ok (p\<lparr>ip_stats := st\<rparr>) = streams_ok p"
  "streams_ok (p\<lparr>ip_blocking := b\<rparr>) = streams_ok p"
  by (simp_all add: streams_ok_def no_orphans_def stream_refs_def cong: option.case_cong)

lemma sri_dict_ok_Nil [simp]: "sri_dict_ok []"
  by (simp add: sri_dict_ok_def)

lemma sri_dict_ok_dput [simp]:
  "sri_dict_ok d \<Longrightarrow> streamID H = sid \<Longrightarrow> sri_dict_ok (dput sid (H, c) d)"
  by (simp add: sri_dict_ok_def)

lemma sri_dict_ok_dpop [simp]: "sri_dict_ok d \<Longrightarrow> sri_dict_ok (dpop sid d)"
  by (simp add: sri_dict_ok_def)

lemma inport_ok_init: "inport_ok (InPort_init name bits cmp cb1 cb2 n buffered sz)"
  by (simp add: inport_ok_def InPort_init_def streams_ok_def no_orphans_def stream_refs_def
      pending_of_def)

lemma inport_ok_removeStream: "inport_ok p \<Longrightarrow> inport_ok (InPort_removeStream sid p)"
  by (simp add: inport_ok_def)

lemma inport_ok_createStream: "inport_ok p \<Longrightarrow> inport_ok (InPort_createStream H p)"
  by (simp add: inport_ok_def)

lemma inport_ok_dict: "inport_ok p \<Longrightarrow> sri_dict_ok (ip_sriDict p)"
  by (simp add: inport_ok_def)

lemma inport_ok_sriDict:
  "inport_ok p \<Longrightarrow> sri_dict_ok d \<Longrightarrow> inport_ok (p\<lparr>ip_sriDict := d\<rparr>)"
  by (simp add: inport_ok_def)

lemma inport_ok_pushSRI: "inport_ok p \<Longrightarrow> inport_ok (InPort_pushSRI H p)"
  by (auto simp: InPort_pushSRI_def Let_def inport_ok_fields inport_ok_createStream inport_ok_sriDict
      inport_ok_dict split: option.split)

lemma inport_ok_acknowledge:
  "inport_ok p \<Longrightarrow> acknowledge_sri sid p = (H, c, q) \<Longrightarrow>
   inport_ok q \<and> streamID H = sid \<and> dget (ip_sriDict q) sid = Some (H, False)"
  using inport_ok_dict [of p]
  by (auto simp: acknowledge_sri_def Let_def inport_ok_fields inport_ok_createStream inport_ok_sriDict
      sri_default_def sri_dict_ok_def split: option.splits if_splits)

lemma packet_ok_update [simp]:
  "packet_ok (p\<lparr>pk_sriChanged := c\<rparr>) = packet_ok p"
  "packet_ok (p\<lparr>pk_flushed := f\<rparr>) = packet_ok p"
  "packet_ok (p\<lparr>pk_EOS := True\<rparr>)"
  by (simp_all add: packet_ok_def)

lemma packet_ok_flush_instance:
  "i \<noteq> [] \<Longrightarrow> \<forall>p \<in> set i. packet_ok p \<Longrightarrow> packet_ok (flush_instance earlier i)"
  by (auto simp: flush_instance_def keep_data_def Let_def)

lemma reference_member:
  "x \<in> set (flush_reference q) \<Longrightarrow> \<exists>e. \<exists>i \<in> set (stream_instances q). x = flush_instance e i"
  by (cases "stream_instances q") (auto simp: flush_reference.simps)

lemma packet_ok_flush:
  assumes "\<forall>p \<in> set q. packet_ok p" "p \<in> set (flush_packets q)"
  shows "packet_ok p"
proof -
  let ?m = "filter (of_stream (pk_streamID p)) q"
  have "p \<in> set (filter (of_stream (pk_streamID p)) (flush_packets q))"
    using assms(2) by simp
  then obtain e i where p: "p = flush_instance e i" "i \<in> set (stream_instances ?m)"
    unfolding flush_packets_filter by (metis reference_member)
  have "set i \<subseteq> set ?m" using p(2) concat_instances [of ?m] by (metis UN_upper set_concat)
  then show ?thesis
    using p assms(1) instances_nonempty [OF p(2)] by (auto intro!: packet_ok_flush_instance)
qed

lemma inport_ok_queue:
  "inport_ok p \<Longrightarrow> \<forall>pkt \<in> set q. packet_ok pkt \<Longrightarrow> inport_ok (p\<lparr>ip_queue := q\<rparr>)"
  "inport_ok (p\<lparr>ip_deque := d\<rparr>) = inport_ok p"
  by (simp_all add: inport_ok_def)

lemma inport_ok_flushQueue: "inport_ok p \<Longrightarrow> inport_ok (InPort_flushQueue p)"
  by (auto simp: InPort_flushQueue_def inport_ok_def intro: packet_ok_flush)

text \<open>The effects of other threads during the waits of a call keep the invariant.\<close>

definition waits_ok :: "'a waits \<Rightarrow> bool" where
  "waits_ok ws \<longleftrightarrow> (\<forall>(t, e) \<in> set ws. \<forall>p. inport_ok p \<longrightarrow> inport_ok (e p))"

lemma inport_ok_wait:
  assumes "waits_ok ws" "inport_ok p" "wait_for_space ws p = Returned q"
  shows "inport_ok q \<and> \<not> queue_full q"
  using assms
proof (induction ws arbitrary: p)
  case Nil
  then show ?case by (simp add: wait_for_space.simps split: if_splits)
next
  case (Cons w ws)
  obtain t e where w: "w = (t, e)" by (metis surj_pair)
  have "waits_ok ws" and e: "inport_ok (e p)" using Cons.prems by (auto simp: waits_ok_def w)
  then show ?case
    using Cons.prems Cons.IH [OF _ e]
    by (subst (asm) wait_for_space.simps) (auto simp: w split: if_splits)
qed

lemma inport_ok_make_room:
  assumes "waits_ok ws" "inport_ok p" "streamID H = sid" "dget (ip_sriDict p) sid = Some (H, c0)"
    "make_room ws sid (H, c, p) = Returned (H', c', f, q)"
  shows "inport_ok q \<and> streamID H' = sid"
  using assms inport_ok_wait [of ws p] inport_ok_flushQueue [of p] inport_ok_dict [of p]
  by (auto simp: make_room_def Let_def outcome_simps InPort_flushQueue_def inport_ok_sriDict
      split: if_splits)

lemma merge_flushed_cases:
  fixes pkt :: "'a packet"
  obtains (none) "merge_flushed pkt q = (pkt, q)"
      "\<forall>s \<in> set q. pk_streamID s = pk_streamID pkt \<longrightarrow> pk_EOS s"
  | (merged) ys old rest where "q = ys @ old # rest" "pk_streamID old = pk_streamID pkt" "\<not> pk_EOS old"
      "merge_flushed pkt q =
         (pkt\<lparr>pk_flushed := True, pk_sriChanged := pk_sriChanged pkt \<or> pk_sriChanged old\<rparr>, ys @ rest)"
proof -
  define n where "n = (\<lambda>s :: 'a packet. \<not> (pk_streamID s = pk_streamID pkt \<and> \<not> pk_EOS s))"
  have m: "merge_flushed pkt q = (case dropWhile n q of [] \<Rightarrow> (pkt, q)
     | old # rest \<Rightarrow> (pkt\<lparr>pk_flushed := True, pk_sriChanged := pk_sriChanged pkt \<or> pk_sriChanged old\<rparr>,
         takeWhile n q @ rest))"
    unfolding merge_flushed_def Let_def n_def by (rule refl)
  show thesis
  proof (cases "dropWhile n q")
    case Nil
    then have "\<forall>s \<in> set q. n s" by simp
    moreover have "merge_flushed pkt q = (pkt, q)" using m unfolding Nil by simp
    ultimately show ?thesis by (intro none) (auto simp: n_def)
  next
    case (Cons old rest)
    have "q = takeWhile n q @ old # rest" using Cons takeWhile_dropWhile_id [of n q] by simp
    moreover have "\<not> n old" using Cons by (metis dropWhile_eq_Cons_conv)
    moreover note m [unfolded Cons list.case]
    ultimately show ?thesis by (intro merged [of "takeWhile n q" old rest]) (simp_all add: n_def)
  qed
qed

lemma merge_flushed_subset:
  assumes "merge_flushed pkt q = (pkt', q')"
  shows "set q' \<subseteq> set q \<and> pk_streamID pkt' = pk_streamID pkt \<and> packet_ok pkt' = packet_ok pkt"
  using assms by (cases rule: merge_flushed_cases [of pkt q]) auto

lemma inport_ok_enqueue:
  assumes "inport_ok p" "data \<noteq> [] \<or> eos"
  shows "inport_ok (enqueue_packet now data T eos sid (H, c, f, p))"
proof -
  have k: "packet_ok \<lparr>pk_buffer = data, pk_T = T, pk_EOS = eos, pk_SRI = H, pk_sriChanged = c,
      pk_flushed = False\<rparr>"
    using assms(2) by (auto simp: packet_ok_def)
  show ?thesis
    using assms k
    by (auto simp: enqueue_packet_def Let_def inport_ok_def dest!: merge_flushed_subset
        split: prod.splits if_splits)
qed

lemma inport_ok_queuePacket:
  assumes "inport_ok p" "waits_ok ws" "InPort_queuePacket now ws data T eos sid p = Returned q"
  shows "inport_ok q"
proof (cases "accepts sid p")
  case True
  obtain H c p1 where a: "acknowledge_sri sid p = (H, c, p1)" by (metis prod_cases3)
  note p1 = inport_ok_acknowledge [OF assms(1) a]
  show ?thesis
    using True assms a p1 inport_ok_make_room [OF assms(2), of p1 H sid False c]
    by (auto simp: InPort_queuePacket_def acceptPacket_accepts outcome_simps inport_ok_enqueue
        split: if_splits)
next
  case False
  then show ?thesis
  proof (rule acceptPacket_rejects [of sid p eos])
    fix r
    assume "InPort_acceptPacket sid eos p = (False, if eos then InPort_removeStream sid
          (p\<lparr>ip_heap := (ip_heap p)[r := InputStream_close (ip_heap p ! r)]\<rparr>) else p)"
    then show ?thesis
      using assms
      by (auto simp: InPort_queuePacket_def inport_ok_fields inport_ok_def streams_ok_heap
          split: if_splits)
  qed
qed

end
