(* ===== verification/PacketSource.thy ===== *)
theory PacketSource
  imports PortTypes
begin

text \<open>
  The interface between an input stream and its port: fetching the next packet of one stream ID.
  The stream relies on the packets coming in the order of the port's queue, without loss, and on
  the fetch for one ID leaving the packets of the others alone.
\<close>

abbreviation packets_of :: "'a packet option \<Rightarrow> 'a packet list" where
  "packets_of r \<equiv> (case r of None \<Rightarrow> [] | Some k \<Rightarrow> [k])"

text \<open>Fetching without waiting until nothing is left, at most \<open>n\<close> times.\<close>

fun drain :: "nat \<Rightarrow> (bool \<Rightarrow> string \<Rightarrow> 'p \<Rightarrow> ('a packet option \<times> 'p) outcome) \<Rightarrow> string \<Rightarrow> 'p \<Rightarrow>
    ('a packet list \<times> 'p) outcome" where
  "drain 0 nx sid p = Returned ([], p)"
| "drain (Suc n) nx sid p = obind (nx False sid p) (\<lambda>(r, p).
     case r of None \<Rightarrow> Returned ([], p)
     | Some k \<Rightarrow> omap (\<lambda>(ks, p). (k # ks, p)) (drain n nx sid p))"

locale packet_source =
  fixes nx :: "bool \<Rightarrow> string \<Rightarrow> 'p \<Rightarrow> ('a packet option \<times> 'p) outcome"
    and view :: "string \<Rightarrow> 'p \<Rightarrow> 'a packet list"
    and orderly :: "'p \<Rightarrow> bool"
    and stopped :: "'p \<Rightarrow> bool"
  assumes fifo: "orderly p \<Longrightarrow> sid \<noteq> '''' \<Longrightarrow> nx wait sid p = Returned (r, p') \<Longrightarrow>
      \<exists>arrived. view sid p @ arrived = packets_of r @ view sid p'"
    and keeps_order: "orderly p \<Longrightarrow> sid \<noteq> '''' \<Longrightarrow> nx wait sid p = Returned (r, p') \<Longrightarrow> orderly p'"
    and mine: "k \<in> set (view sid p) \<Longrightarrow> pk_streamID k = sid"
    and poll_stopped: "stopped p \<Longrightarrow> nx wait sid p = Returned (None, p)"
    and poll: "sid \<noteq> '''' \<Longrightarrow> \<not> stopped p \<Longrightarrow> \<exists>p'. nx False sid p =
        Returned (case view sid p of [] \<Rightarrow> None | k # _ \<Rightarrow> Some k, p') \<and> \<not> stopped p' \<and>
        view sid p' = tl (view sid p) \<and> (\<forall>sid'. sid' \<noteq> sid \<longrightarrow> view sid' p' = view sid' p)"
begin

lemma drain_view:
  assumes "sid \<noteq> ''''" "\<not> stopped p"
  shows "\<exists>p'. drain n nx sid p = Returned (take n (view sid p), p') \<and> \<not> stopped p' \<and>
     view sid p' = drop n (view sid p) \<and> (\<forall>sid'. sid' \<noteq> sid \<longrightarrow> view sid' p' = view sid' p)"
  using assms(2)
proof (induction n arbitrary: p)
  case (Suc n)
  obtain p1 where p1: "nx False sid p = Returned (case view sid p of [] \<Rightarrow> None | k # _ \<Rightarrow> Some k, p1)"
      "\<not> stopped p1" "view sid p1 = tl (view sid p)"
      "\<forall>sid'. sid' \<noteq> sid \<longrightarrow> view sid' p1 = view sid' p"
    using poll [OF assms(1) Suc.prems] by blast
  show ?case
    using Suc.IH [OF p1(2)] p1 by (cases "view sid p") (auto simp: drop_Suc)
qed simp

end

end
