(* ===== verification/InPortDelivery.thy ===== *)
theory InPortDelivery
  imports InPort PacketSource
begin

text \<open>
  What an input port promises about the packets pushed to it: every operation keeps the
  invariant and announces each stream object once, an accepted push always ends with the new
  packet at the back of the queue, no end-of-stream is ever lost, an SRI change reaches the
  reader exactly once, and packets of a stream are fetched in the order of their arrival.
\<close>

section \<open>Accepted packets\<close>

lemma queue_enqueue:
  "ip_queue (enqueue_packet now data T eos sid (H, c, f, p)) =
     (let pkt = \<lparr>pk_buffer = data, pk_T = T, pk_EOS = eos, pk_SRI = H, pk_sriChanged = c,
                 pk_flushed = False\<rparr>
      in if f then snd (merge_flushed pkt (ip_queue p)) @ [fst (merge_flushed pkt (ip_queue p))]
         else ip_queue p @ [pkt])"
  by (simp add: enqueue_packet_def Let_def split: prod.split)

lemma sriDict_enqueue:
  "ip_sriDict (enqueue_packet now data T eos sid (H, c, f, p)) =
     (if eos then dpop sid (ip_sriDict p) else ip_sriDict p)"
  by (simp add: enqueue_packet_def Let_def split: prod.split)

lemma fst_merge_flushed:
  "pk_buffer (fst (merge_flushed pkt q)) = pk_buffer pkt"
  "pk_T (fst (merge_flushed pkt q)) = pk_T pkt"
  "pk_EOS (fst (merge_flushed pkt q)) = pk_EOS pkt"
  "pk_SRI (fst (merge_flushed pkt q)) = pk_SRI pkt"
  by (cases rule: merge_flushed_cases [of pkt q]; simp)+

lemma fst_merge_streamID [simp]: "pk_streamID (fst (merge_flushed pkt q)) = pk_streamID pkt"
  by (simp add: pk_streamID_def fst_merge_flushed)

lemma eos_count_merge: "eos_count s (snd (merge_flushed pkt q)) = eos_count s q"
  by (cases rule: merge_flushed_cases [of pkt q]) auto

lemma eos_count_enqueue:
  "streamID H = sid \<Longrightarrow>
   eos_count s (ip_queue (enqueue_packet now data T eos sid (H, c, f, p))) =
     eos_count s (ip_queue p) + (if s = sid \<and> eos then 1 else 0)"
  by (auto simp: queue_enqueue Let_def eos_count_merge fst_merge_flushed pk_streamID_def)

lemma acknowledge_fields:
  assumes "acknowledge_sri sid p = (H, c, q)"
  shows "ip_queue q = ip_queue p" "ip_maxSize q = ip_maxSize p" "ip_blocking q = ip_blocking p"
    "ip_deque q = ip_deque p" "ip_sriDict q = dput sid (H, False) (ip_sriDict p)"
    "(H, c) = (case dget (ip_sriDict p) sid of None \<Rightarrow> (sri_default sid, True) | Some e \<Rightarrow> e)"
  using assms by (auto simp: acknowledge_sri_def Let_def split: option.splits if_splits)

lemma make_room_nonblocking:
  assumes "\<not> ip_blocking p" "dget (ip_sriDict p) sid = Some (H, False)"
  shows "make_room ws sid (H, c, p) =
    (if queue_full p
     then Returned (H, c, True, p\<lparr>ip_queue := flush_packets (ip_queue p), ip_deque := True,
            ip_sriDict := dput sid (H, False) (ip_sriDict p)\<rparr>)
     else Returned (H, c, False, p))"
  using assms by (simp add: make_room_def InPort_flushQueue_def)

text \<open>What a flush leaves of a stream is ended but for the last packet, which the new packet replaces.\<close>

lemma reference_last_EOS: "q \<noteq> [] \<Longrightarrow> pk_EOS (last (flush_reference q)) = pk_EOS (last q)"
  using reference_last [of q] instances_nonempty [of "last (stream_instances q)" q]
  by (simp add: instances_last)

lemma reference_butlast_EOS: "x \<in> set (butlast (flush_reference q)) \<Longrightarrow> pk_EOS x"
proof (induction q arbitrary: x rule: rev_induct)
  case (snoc p q)
  show ?case
  proof (cases "q \<noteq> [] \<and> pk_EOS (last q)")
    case True
    then have "x \<in> set (flush_reference q)" using snoc.prems by (simp add: reference_snoc butlast_append)
    then have "x \<in> set (butlast (flush_reference q)) \<or> x = last (flush_reference q)"
      by (metis append_butlast_last_id empty_iff in_set_conv_decomp_last list.set(1) set_ConsD set_append Un_iff)
    then show ?thesis using snoc.IH True reference_last_EOS [of q] by auto
  qed (use snoc in \<open>auto simp: reference_snoc butlast_append split: if_splits\<close>)
qed (simp add: flush_reference.simps)

lemma merge_flushed_other:
  "s \<noteq> pk_streamID pkt \<Longrightarrow> filter (of_stream s) (snd (merge_flushed pkt q)) = filter (of_stream s) q"
  by (cases rule: merge_flushed_cases [of pkt q]) auto

lemma merge_flushed_own:
  fixes pkt :: "'a packet" and q
  defines "kept \<equiv> filter (of_stream (pk_streamID pkt)) (flush_packets q)"
  shows "filter (of_stream (pk_streamID pkt)) (snd (merge_flushed pkt (flush_packets q))) =
      (if kept \<noteq> [] \<and> \<not> pk_EOS (last kept) then butlast kept else kept)"
    and "fst (merge_flushed pkt (flush_packets q)) =
      (if kept \<noteq> [] \<and> \<not> pk_EOS (last kept)
       then pkt\<lparr>pk_flushed := True, pk_sriChanged := pk_sriChanged pkt \<or> pk_sriChanged (last kept)\<rparr> else pkt)"
proof -
  have ends: "\<forall>x \<in> set (butlast kept). pk_EOS x"
    unfolding kept_def flush_packets_filter by (auto dest: reference_butlast_EOS)
  have both: "filter (of_stream (pk_streamID pkt)) (snd (merge_flushed pkt (flush_packets q))) =
      (if kept \<noteq> [] \<and> \<not> pk_EOS (last kept) then butlast kept else kept) \<and>
    fst (merge_flushed pkt (flush_packets q)) =
      (if kept \<noteq> [] \<and> \<not> pk_EOS (last kept)
       then pkt\<lparr>pk_flushed := True, pk_sriChanged := pk_sriChanged pkt \<or> pk_sriChanged (last kept)\<rparr> else pkt)"
  proof (cases rule: merge_flushed_cases [of pkt "flush_packets q"])
    case none
    have "\<forall>x \<in> set kept. pk_EOS x" using none(2) by (simp add: kept_def)
    then have "\<not> (kept \<noteq> [] \<and> \<not> pk_EOS (last kept))" using last_in_set [of kept] by blast
    then show ?thesis unfolding none(1) if_not_P [OF \<open>\<not> (kept \<noteq> [] \<and> \<not> pk_EOS (last kept))\<close>]
      by (simp add: kept_def)
  next
    case (merged ys old rest)
    let ?f = "filter (of_stream (pk_streamID pkt))"
    have k: "kept = ?f ys @ old # ?f rest" using merged by (simp add: kept_def)
    have "?f rest = []"
    proof (rule ccontr)
      assume "?f rest \<noteq> []"
      then have "old \<in> set (butlast kept)" by (simp add: k butlast_append)
      then show False using ends merged(3) by blast
    qed
    then show ?thesis using merged k by simp
  qed
  show "filter (of_stream (pk_streamID pkt)) (snd (merge_flushed pkt (flush_packets q))) =
      (if kept \<noteq> [] \<and> \<not> pk_EOS (last kept) then butlast kept else kept)" using both by (rule conjunct1)
  show "fst (merge_flushed pkt (flush_packets q)) =
      (if kept \<noteq> [] \<and> \<not> pk_EOS (last kept)
       then pkt\<lparr>pk_flushed := True, pk_sriChanged := pk_sriChanged pkt \<or> pk_sriChanged (last kept)\<rparr> else pkt)"
    using both by (rule conjunct2)
qed

text \<open>
  C24: An accepted push to a port that does not block never fails and never waits. With \<open>H\<close> the SRI on
  file for the stream (a default one when there is none) and \<open>c\<close> whether its change has not been reported:
  while the queue is below its maximum the new packet, with \<open>H\<close>, \<open>c\<close> and no mark of a flush, is appended to
  the queue and nothing else in it changes. When the queue is full, every other stream is left as the flush
  leaves it, one packet per instance; of its own stream, the new packet replaces the packet that the flush
  left of the unfinished instance, is marked as flushed and takes over its change flag; without such a packet
  it is appended, unmarked. In both cases it is the last of the queue, no end-of-stream of any stream is lost
  or invented, and the SRI is on file with its change acknowledged, or gone after an end-of-stream, the
  entries of the other streams being as before.
\<close>

theorem nonblocking_push_delivers:
  assumes "inport_ok p" "accepts sid p" "data \<noteq> [] \<or> eos" "ip_maxSize p \<noteq> 0" "\<not> ip_blocking p"
    and on_file: "(H, c) = (case dget (ip_sriDict p) sid of None \<Rightarrow> (sri_default sid, True) | Some e \<Rightarrow> e)"
    and packet: "packet = (\<lambda>changed flushed. \<lparr>pk_buffer = data, pk_T = T, pk_EOS = eos, pk_SRI = H,
      pk_sriChanged = changed, pk_flushed = flushed\<rparr>)"
    and kept: "kept = flush_reference (filter (\<lambda>x. pk_streamID x = sid) (ip_queue p))"
  shows "\<exists>q. InPort_pushPacket now ws data T eos sid p = Returned q \<and>
    (if 0 \<le> ip_maxSize p \<and> ip_maxSize p \<le> int (length (ip_queue p))
     then (\<forall>s. s \<noteq> sid \<longrightarrow> filter (\<lambda>x. pk_streamID x = s) (ip_queue q) =
             flush_reference (filter (\<lambda>x. pk_streamID x = s) (ip_queue p))) \<and>
       filter (\<lambda>x. pk_streamID x = sid) (ip_queue q) =
         (if kept \<noteq> [] \<and> \<not> pk_EOS (last kept)
          then butlast kept @ [packet (c \<or> pk_sriChanged (last kept)) True]
          else kept @ [packet c False]) \<and>
       pk_streamID (last (ip_queue q)) = sid
     else ip_queue q = ip_queue p @ [packet c False]) \<and>
    pk_streamID (packet c False) = sid \<and>
    (\<forall>s. eos_count s (ip_queue q) = eos_count s (ip_queue p) + (if s = sid \<and> eos then 1 else 0)) \<and>
    dget (ip_sriDict q) sid = (if eos then None else Some (H, False)) \<and>
    (\<forall>s. s \<noteq> sid \<longrightarrow> dget (ip_sriDict q) s = dget (ip_sriDict p) s)"
proof -
  obtain H' c' p1 where a: "acknowledge_sri sid p = (H', c', p1)" by (metis prod_cases3)
  have "(H', c') = (H, c)" using acknowledge_fields(6) [OF a] on_file by (rule trans [OF _ sym])
  then have hc: "H' = H" "c' = c" by simp_all
  note a = a [unfolded hc]
  note k = inport_ok_acknowledge [OF assms(1) a] and f = acknowledge_fields [OF a]
  define r where "r = (H, c, queue_full p1,
    if queue_full p1 then p1\<lparr>ip_queue := flush_packets (ip_queue p1), ip_deque := True,
            ip_sriDict := dput sid (H, False) (ip_sriDict p1)\<rparr> else p1)"
  have m: "make_room ws sid (H, c, p1) = Returned r"
    using make_room_nonblocking [of p1 sid H ws c] k f(3) assms(5) by (simp add: r_def)
  have q: "InPort_pushPacket now ws data T eos sid p = Returned (enqueue_packet now data T eos sid r)"
    using queuePacket_accepted [OF assms(2-4)] m by (simp add: InPort_pushPacket_def a)
  have full: "queue_full p1 \<longleftrightarrow> 0 \<le> ip_maxSize p \<and> ip_maxSize p \<le> int (length (ip_queue p))"
    by (simp add: queue_full_def f(1,2))
  have sid: "pk_streamID (packet x y) = sid" for x y using k by (auto simp: packet pk_streamID_def)
  let ?q = "ip_queue (enqueue_packet now data T eos sid r)" and ?m = "merge_flushed (packet c False) (flush_packets (ip_queue p))"
  have others: "dget (ip_sriDict (enqueue_packet now data T eos sid r)) s =
      (if s = sid then if eos then None else Some (H, False) else dget (ip_sriDict p) s)" for s
    using f(5) by (auto simp: r_def sriDict_enqueue)
  have eoss: "eos_count s ?q = eos_count s (ip_queue p) + (if s = sid \<and> eos then 1 else 0)" for s
    using k f(1) by (auto simp: r_def queue_enqueue Let_def fst_merge_flushed pk_streamID_def eos_count_merge eos_count_flush)
  have qs: "?q = (if queue_full p1 then snd ?m @ [fst ?m] else ip_queue p @ [packet c False])"
    by (simp add: r_def queue_enqueue Let_def packet f(1))
  note own = merge_flushed_own [of "packet c False" "ip_queue p", unfolded sid flush_packets_filter, folded kept]
  have upd: "(packet c False)\<lparr>pk_flushed := True, pk_sriChanged := pk_sriChanged (packet c False) \<or> b\<rparr> = packet (c \<or> b) True" for b
    by (simp add: packet)
  have mine: "filter (of_stream sid) ?q = (if kept \<noteq> [] \<and> \<not> pk_EOS (last kept)
      then butlast kept @ [packet (c \<or> pk_sriChanged (last kept)) True] else kept @ [packet c False])"
    if "queue_full p1"
  proof (cases "kept \<noteq> [] \<and> \<not> pk_EOS (last kept)")
    case True
    then show ?thesis unfolding qs if_P [OF that] if_P [OF True] filter_append own upd by (simp add: sid)
  next
    case False
    then show ?thesis unfolding qs if_P [OF that] if_not_P [OF False] filter_append own by (simp add: sid)
  qed
  have rest: "filter (of_stream s) ?q = flush_reference (filter (of_stream s) (ip_queue p))" if "queue_full p1" "s \<noteq> sid" for s
  proof -
    have "filter (of_stream s) [fst ?m] = []" using that(2) by (simp add: sid)
    then show ?thesis
      unfolding qs if_P [OF that(1)] filter_append using that(2) merge_flushed_other [of s "packet c False"]
      by (simp add: sid flush_packets_filter)
  qed
  have lasts: "pk_streamID (last ?q) = sid" by (simp add: qs sid)
  have shape: "if 0 \<le> ip_maxSize p \<and> ip_maxSize p \<le> int (length (ip_queue p))
     then (\<forall>s. s \<noteq> sid \<longrightarrow> filter (of_stream s) ?q = flush_reference (filter (of_stream s) (ip_queue p))) \<and>
       filter (of_stream sid) ?q =
         (if kept \<noteq> [] \<and> \<not> pk_EOS (last kept)
          then butlast kept @ [packet (c \<or> pk_sriChanged (last kept)) True]
          else kept @ [packet c False]) \<and>
       pk_streamID (last ?q) = sid
     else ?q = ip_queue p @ [packet c False]"
  proof (cases "queue_full p1")
    case True
    show ?thesis unfolding if_P [OF True [unfolded full]] using mine [OF True] rest [OF True] lasts by blast
  next
    case False
    show ?thesis unfolding if_not_P [OF False [unfolded full]] qs if_not_P [OF False] ..
  qed
  show ?thesis
    unfolding q
    by (rule exI, intro conjI, rule refl, rule shape) (simp_all add: others eoss sid)
qed

definition wave_port :: "rat inport" where
  "wave_port = InPort_pushSRI (sri_default ''s'')
     (InPort_init ''in'' 32 (Some default_sri_cmp) False False 1 True (\<lambda>d. int (length d)))"

lemma wave_port_ok: "inport_ok wave_port"
  by (simp add: wave_port_def inport_ok_pushSRI inport_ok_init)

lemma wave_port_fields [simp]:
  "ip_queue wave_port = []" "ip_maxSize wave_port = 1" "ip_blocking wave_port = False"
  "ip_breakBlock wave_port = False" "ip_deque wave_port = True"
  "ip_sriDict wave_port = [(''s'', sri_default ''s'', True)]"
  "ip_sri_cmp wave_port = Some default_sri_cmp" "ip_sriChangeCallback wave_port = False"
  "ip_streams wave_port = [(''s'', 0)]" "ip_pendingStreams wave_port = []"
  "ip_heap wave_port = [InputStream_init True (sri_default ''s'')]"
  by (simp_all add: wave_port_def InPort_pushSRI_def InPort_init_def sri_default_def
      InPort_createStream_def add_event_def Let_def)

lemma sri_default_streamID [simp]: "streamID (sri_default sid) = sid"
  by (simp add: sri_default_def)

lemma is_enabled_init [simp]: "is_enabled (InputStream_init b H)"
  by (simp add: InputStream_init_def)

text \<open>A port with room for one packet, which holds an unfinished packet that reports a change of the SRI.\<close>

definition full_wave_port :: "rat inport" where
  "full_wave_port = (case InPort_pushPacket 5 [] [1, 2] None False ''s'' wave_port of Returned q \<Rightarrow> q | _ \<Rightarrow> wave_port)"

lemma full_wave_port_ok: "inport_ok full_wave_port"
  using inport_ok_queuePacket [OF wave_port_ok, of "[]" 5 "[1, 2]" None False "''s''"]
  by (auto simp: full_wave_port_def wave_port_ok InPort_pushPacket_def waits_ok_def split: outcome.split)

theorem nonblocking_push_delivers_witness:
  "\<exists>q. InPort_pushPacket 6 [] [3] None True ''s'' full_wave_port = Returned q \<and>
     filter (\<lambda>x. pk_streamID x = ''s'') (ip_queue q) =
       [\<lparr>pk_buffer = [3], pk_T = None, pk_EOS = True, pk_SRI = sri_default ''s'', pk_sriChanged = True, pk_flushed = True\<rparr>]"
proof -
  have f: "accepts ''s'' full_wave_port" "ip_maxSize full_wave_port \<noteq> 0" "\<not> ip_blocking full_wave_port"
    "(sri_default ''s'', False) = (case dget (ip_sriDict full_wave_port) ''s'' of
       None \<Rightarrow> (sri_default ''s'', True) | Some e \<Rightarrow> e)"
    "0 \<le> ip_maxSize full_wave_port \<and> ip_maxSize full_wave_port \<le> int (length (ip_queue full_wave_port))"
    "[\<lparr>pk_buffer = [1, 2], pk_T = None, pk_EOS = False, pk_SRI = sri_default ''s'', pk_sriChanged = True, pk_flushed = False\<rparr>] =
     flush_reference (filter (\<lambda>x. pk_streamID x = ''s'') (ip_queue full_wave_port))"
    by code_simp+
  show ?thesis
    using nonblocking_push_delivers [OF full_wave_port_ok f(1) _ f(2,3,4) refl f(6), of "[3]" True 6 "[]" None] f(5) by auto
qed

section \<open>Blocking ports\<close>

text \<open>
  C32: a blocking port never drops anything: when a push returns, the packet was appended to a
  queue that had room, exactly as the other threads left it; a push to a full port waits, and it
  keeps waiting even when the port is stopped by \<open>block\<close> again and again, because its wait does
  not look at the break flag.
\<close>

theorem blocking_push_appends_or_waits:
  assumes "ip_blocking p" "accepts sid p" "data \<noteq> [] \<or> eos" "ip_maxSize p \<noteq> 0"
  shows "(\<forall>q. InPort_pushPacket now ws data T eos sid p = Returned q \<longrightarrow>
      (\<exists>p1 p2 pkt. p1 = snd (snd (acknowledge_sri sid p)) \<and> wait_for_space ws p1 = Returned p2 \<and>
         \<not> queue_full p2 \<and> ip_queue q = ip_queue p2 @ [pkt] \<and> pk_buffer pkt = data \<and>
         pk_EOS pkt = eos \<and> \<not> pk_flushed pkt)) \<and>
    (queue_full p \<longrightarrow>
      InPort_pushPacket now (replicate n (t, InPort_block)) data T eos sid p = Blocked)"
proof -
  obtain H c p1 where a: "acknowledge_sri sid p = (H, c, p1)" by (metis prod_cases3)
  note f = acknowledge_fields [OF a]
  have b: "wait_for_space (replicate n (t, InPort_block)) x = Blocked" if "queue_full x"
    for n and x :: "'a inport"
    using that
    by (induction n arbitrary: x)
      (simp_all add: wait_for_space.simps InPort_block_def queue_full_def)
  have full: "queue_full p1 = queue_full p" by (simp add: queue_full_def f)
  have "wait_for_space ws x = Returned y \<Longrightarrow> \<not> queue_full y" for ws and x y :: "'a inport"
    by (induction ws arbitrary: x)
      (subst (asm) wait_for_space.simps, auto split: if_splits)+
  then show ?thesis
    using assms a b [of p1 n] full
    by (auto simp: InPort_pushPacket_def queuePacket_accepted make_room_def f outcome_simps
        queue_enqueue Let_def)
qed

definition wave_packet :: "rat packet" where
  "wave_packet = \<lparr>pk_buffer = [1], pk_T = None, pk_EOS = False, pk_SRI = sri_default ''s'',
     pk_sriChanged = True, pk_flushed = False\<rparr>"

definition blocking_port :: "rat inport" where
  "blocking_port = wave_port\<lparr>ip_blocking := True, ip_queue := [wave_packet]\<rparr>"

theorem blocking_push_appends_or_waits_witness:
  "InPort_pushPacket 5 (replicate 3 (6, InPort_block)) [1, 2] None False ''s'' blocking_port = Blocked"
proof -
  have f: "ip_blocking blocking_port" "accepts ''s'' blocking_port" "ip_maxSize blocking_port \<noteq> 0"
      "queue_full blocking_port"
    by (simp_all add: blocking_port_def accepts_def queue_full_def)
  show ?thesis
    using blocking_push_appends_or_waits [OF f(1,2) _ f(3), of "[1, 2]" False 5 "[]" None 3 6] f(4)
    by simp
qed

section \<open>SRI changes\<close>

text \<open>A run of data packets of one stream, pushed in order.\<close>

definition push_all ::
    "rat \<Rightarrow> utctime option \<Rightarrow> string \<Rightarrow> 'a list list \<Rightarrow> 'a inport \<Rightarrow> 'a inport outcome" where
  "push_all now T sid ds p =
     foldl (\<lambda>m d. obind m (InPort_pushPacket now [] d T False sid)) (Returned p) ds"

lemma push_unlimited:
  assumes "ip_maxSize p < 0" "accepts sid p" "data \<noteq> []" "dget (ip_sriDict p) sid = Some (H, c)"
  obtains q where "InPort_pushPacket now [] data T False sid p = Returned q"
    "ip_maxSize q < 0" "accepts sid q" "dget (ip_sriDict q) sid = Some (H, False)"
    "ip_queue q = ip_queue p @ [\<lparr>pk_buffer = data, pk_T = T, pk_EOS = False, pk_SRI = H,
       pk_sriChanged = c, pk_flushed = False\<rparr>]"
proof -
  let ?p1 = "p\<lparr>ip_sriDict := dput sid (H, False) (ip_sriDict p)\<rparr>"
  have a: "acknowledge_sri sid p = (H, c, ?p1)" using assms(4) by (simp add: acknowledge_sri_def)
  have nf: "\<not> queue_full ?p1" using assms(1) by (simp add: queue_full_def)
  have m: "make_room [] sid (H, c, ?p1) = Returned (H, c, False, ?p1)"
    using nf by (simp add: make_room_def wait_for_space.simps)
  show thesis
    by (rule that [of "enqueue_packet now data T False sid (H, c, False, ?p1)"])
      (use assms a m in \<open>simp_all add: InPort_pushPacket_def queuePacket_accepted queue_enqueue
         sriDict_enqueue enqueue_packet_def Let_def accepts_def cong: option.case_cong\<close>)
qed

lemma push_all_unlimited:
  assumes "ip_maxSize p < 0" "accepts sid p" "\<forall>d \<in> set ds. d \<noteq> []"
    "dget (ip_sriDict p) sid = Some (H, c)"
  shows "\<exists>q. push_all now T sid ds p = Returned q \<and> ip_queue q = ip_queue p @
    map (\<lambda>(d, c). \<lparr>pk_buffer = d, pk_T = T, pk_EOS = False, pk_SRI = H, pk_sriChanged = c,
      pk_flushed = False\<rparr>) (zip ds (c # replicate (length ds) False))"
  using assms
proof (induction ds arbitrary: p c)
  case (Cons d ds)
  obtain q where q: "InPort_pushPacket now [] d T False sid p = Returned q"
    "ip_maxSize q < 0" "accepts sid q" "dget (ip_sriDict q) sid = Some (H, False)"
    "ip_queue q = ip_queue p @ [\<lparr>pk_buffer = d, pk_T = T, pk_EOS = False, pk_SRI = H,
       pk_sriChanged = c, pk_flushed = False\<rparr>]"
    using push_unlimited [of p sid d H c now T] Cons.prems by auto
  show ?case
    using Cons.IH [OF q(2,3) _ q(4)] Cons.prems(3) q(1,5) by (auto simp: push_all_def)
qed (simp add: push_all_def)

lemma pushSRI_changed:
  assumes "dget (ip_sriDict p) (streamID H) = Some (old, c)" "ip_sri_cmp p = Some cmp" "\<not> cmp old H"
  shows "dget (ip_sriDict (InPort_pushSRI H p)) (streamID H) = Some (H, True)"
    "ip_queue (InPort_pushSRI H p) = ip_queue p" "ip_maxSize (InPort_pushSRI H p) = ip_maxSize p"
    "accepts sid (InPort_pushSRI H p) = accepts sid p"
    "ip_events (InPort_pushSRI H p) =
       ip_events p @ (if ip_sriChangeCallback p then [SriChange H] else [])"
  using assms by (simp_all add: InPort_pushSRI_def accepts_def Let_def cong: option.case_cong)

text \<open>
  A change of a stream's SRI is reported to its listener once and to the reader exactly once. When an
  SRI arrives that the port's comparator tells apart from the one on file, the next packet of the
  stream carries the new SRI with the change flag set, and every later packet carries the new SRI
  with the flag clear.
\<close>

theorem sri_change_reported_once:
  assumes "dget (ip_sriDict p) (streamID H) = Some (old, c)" "ip_sri_cmp p = Some cmp" "\<not> cmp old H"
    and "accepts (streamID H) p" "ip_maxSize p < 0" "\<forall>d \<in> set ds. d \<noteq> []"
  shows "\<exists>q. push_all now T (streamID H) ds (InPort_pushSRI H p) = Returned q \<and>
    map (\<lambda>k. (pk_buffer k, pk_SRI k, pk_sriChanged k)) (drop (length (ip_queue p)) (ip_queue q)) =
      map (\<lambda>(d, flag). (d, H, flag)) (zip ds (True # replicate (length ds) False)) \<and>
    ip_events (InPort_pushSRI H p) =
      ip_events p @ (if ip_sriChangeCallback p then [SriChange H] else [])"
  using push_all_unlimited [of "InPort_pushSRI H p" "streamID H" ds H True now T]
    pushSRI_changed [OF assms(1-3)] assms(4-6)
  by auto

theorem sri_change_reported_once_witness:
  "\<exists>q. push_all 5 None ''s'' [[1], [2, 3]]
      (InPort_pushSRI ((sri_default ''s'')\<lparr>mode := 1\<rparr>) (wave_port\<lparr>ip_maxSize := - 1\<rparr>)) = Returned q \<and>
    map pk_sriChanged (ip_queue q) = [True, False]"
proof -
  let ?H = "(sri_default ''s'')\<lparr>mode := 1\<rparr>" and ?p = "wave_port\<lparr>ip_maxSize := - 1\<rparr>"
  have ne: "\<not> default_sri_cmp (sri_default ''s'') ?H"
    by (simp add: default_sri_cmp_def sri_compare_iff sri_same_fields_def sri_default_def)
  have f: "dget (ip_sriDict ?p) (streamID ?H) = Some (sri_default ''s'', True)"
      "ip_sri_cmp ?p = Some default_sri_cmp" "accepts (streamID ?H) ?p" "ip_maxSize ?p < 0" "ip_queue ?p = []" "streamID ?H = ''s''"
    by (simp_all add: accepts_def)
  note t = sri_change_reported_once [OF f(1,2) ne f(3,4), of "[[1], [2, 3]]" 5 None]
  obtain q where q: "push_all 5 None (streamID ?H) [[1], [2, 3]] (InPort_pushSRI ?H ?p) = Returned q"
      "map (\<lambda>k. (pk_buffer k, pk_SRI k, pk_sriChanged k)) (drop (length (ip_queue ?p)) (ip_queue q)) =
        map (\<lambda>(d, flag). (d, ?H, flag)) (zip [[1], [2, 3]] (True # replicate (length [[1], [2, 3::rat]]) False))"
    using t by (auto simp del: list.size length_Cons)
  have "map pk_sriChanged (ip_queue q) =
      map (\<lambda>x. snd (snd x)) (map (\<lambda>k. (pk_buffer k, pk_SRI k, pk_sriChanged k)) (drop (length (ip_queue ?p)) (ip_queue q)))"
    by (simp add: f(5) comp_def)
  also have "\<dots> = [True, False]" unfolding q(2) by simp
  finally show ?thesis using q(1) f(6) by metis
qed

section \<open>Fetching\<close>

lemma fetch_by_stream:
  assumes "sid \<noteq> ''''"
  shows "InPort_fetchPacket (Some sid) p = Returned
    (case filter (of_stream sid) (ip_queue p) of
       [] \<Rightarrow> (None, p) | k # _ \<Rightarrow> (Some k, p\<lparr>ip_queue := remove1 k (ip_queue p)\<rparr>))"
proof -
  let ?n = "\<lambda>k. Some (pk_streamID k) \<noteq> Some sid" and ?q = "ip_queue p"
  have q: "?q = takeWhile ?n ?q @ dropWhile ?n ?q" by simp
  show ?thesis
  proof (cases "dropWhile ?n ?q")
    case Nil
    then have f: "filter (of_stream sid) ?q = []" by (simp add: filter_empty_conv)
    show ?thesis
      unfolding InPort_fetchPacket_def no_streamID_def Let_def Nil f using assms by simp
  next
    case (Cons k rest)
    have "\<not> ?n (hd (dropWhile ?n ?q))" by (rule hd_dropWhile) (simp only: Cons, simp)
    then have k: "pk_streamID k = sid" unfolding Cons by simp
    have t: "\<forall>x \<in> set (takeWhile ?n ?q). pk_streamID x \<noteq> sid" by (auto dest: set_takeWhileD)
    have split: "?q = takeWhile ?n ?q @ k # rest" using q unfolding Cons .
    have "filter (of_stream sid) ?q = k # filter (of_stream sid) rest"
      by (subst split) (use k t in \<open>simp add: filter_empty_conv\<close>)
    moreover have "remove1 k ?q = takeWhile ?n ?q @ rest"
      by (subst split) (use k t in \<open>auto simp: remove1_append\<close>)
    ultimately show ?thesis using assms Cons by (simp add: InPort_fetchPacket_def no_streamID_def)
  qed
qed

lemma filter_remove1_first:
  assumes "filter P q = k # ks"
  shows "filter P (remove1 k q) = ks"
proof -
  have "P k" using assms by (metis list.set_intros(1) mem_Collect_eq set_filter)
  then show ?thesis using assms by (induction q) (auto split: if_splits)
qed

lemma filter_remove1_other: "\<not> P k \<Longrightarrow> filter P (remove1 k q) = filter P q"
  by (induction q) auto

text \<open>
  The port as its streams use it: \<open>nextPacket\<close> for one stream ID, waiting for ever or not at all.
  The waits of a run are orderly when other threads only append to the queue during them.
\<close>

definition port_next ::
    "bool \<Rightarrow> string \<Rightarrow> 'a inport \<times> 'a waits \<Rightarrow> ('a packet option \<times> 'a inport \<times> 'a waits) outcome" where
  "port_next wait sid = (\<lambda>(p, ws).
     omap (\<lambda>(r, ws, p). (r, p, ws)) (InPort_nextPacket 0 (if wait then - 1 else 0) (Some sid) ws p))"

definition port_view :: "string \<Rightarrow> 'a inport \<times> 'a waits \<Rightarrow> 'a packet list" where
  "port_view sid s = filter (of_stream sid) (ip_queue (fst s))"

definition orderly_waits :: "'a waits \<Rightarrow> bool" where
  "orderly_waits ws \<longleftrightarrow> (\<forall>(t, e) \<in> set ws. \<forall>p. \<exists>arrived. ip_queue (e p) = ip_queue p @ arrived)"

lemma nextPacket_queue:
  assumes "InPort_nextPacket now timeout sid ws p = Returned (r, ws', p')"
  shows "(ip_breakBlock p \<and> r = None \<and> ws' = ws \<and> p' = p) \<or>
    (\<not> ip_breakBlock p \<and> (\<exists>p1. next_loop timeout (now + timeout) sid ws p = Returned (r, ws', p1) \<and>
       ip_queue p' = ip_queue p1 \<and> ip_breakBlock p' = ip_breakBlock p1 \<and> ip_deque p' = ip_deque p1))"
  using assms
  by (auto simp: InPort_nextPacket_def outcome_simps split: if_splits option.splits)

lemma next_loop_fifo:
  assumes "orderly_waits ws" "sid \<noteq> ''''" "next_loop timeout to_time (Some sid) ws p = Returned (r, ws', p')"
  shows "(\<exists>arrived. filter (of_stream sid) (ip_queue p) @ arrived =
            packets_of r @ filter (of_stream sid) (ip_queue p')) \<and> orderly_waits ws'"
  using assms
proof (induction ws arbitrary: p)
  case Nil
  then show ?case
    by (subst (asm) next_loop.simps)
      (auto simp: fetch_by_stream filter_remove1_first split: list.splits if_splits)
next
  case (Cons w ws)
  obtain t e where w: "w = (t, e)" by (metis surj_pair)
  obtain arr where arr: "ip_queue (e p) = ip_queue p @ arr"
    using Cons.prems(1) by (force simp: orderly_waits_def w)
  have ord: "orderly_waits ws" using Cons.prems(1) by (auto simp: orderly_waits_def)
  show ?case
  proof (cases "filter (of_stream sid) (ip_queue p)")
    case Nil
    then show ?thesis
      using Cons.prems Cons.IH [OF ord Cons.prems(2), of "e p"] ord arr
      by (subst (asm) next_loop.simps) (auto simp: fetch_by_stream w split: if_splits)
  next
    case (Cons k ks)
    then show ?thesis
      using Cons.prems
      by (subst (asm) next_loop.simps) (auto simp: fetch_by_stream filter_remove1_first)
  qed
qed

lemma next_loop_keeps:
  "orderly_waits ws \<Longrightarrow> next_loop timeout to_time sid ws p = Returned (r, ws', p') \<Longrightarrow> orderly_waits ws'"
proof (induction ws arbitrary: p)
  case Nil
  then show ?case
    by (subst (asm) next_loop.simps) (auto simp: outcome_simps split: option.splits if_splits)
next
  case (Cons w ws)
  have "orderly_waits ws" using Cons.prems(1) by (auto simp: orderly_waits_def)
  then show ?case
    using Cons.prems Cons.IH
    by (subst (asm) next_loop.simps)
      (auto simp: outcome_simps split: option.splits if_splits prod.splits)
qed

lemma next_poll:
  assumes "sid \<noteq> ''''" "\<not> ip_breakBlock p"
  shows "\<exists>p'. InPort_nextPacket now 0 (Some sid) ws p =
      Returned (case filter (of_stream sid) (ip_queue p) of [] \<Rightarrow> None | k # _ \<Rightarrow> Some k, ws, p') \<and>
    \<not> ip_breakBlock p' \<and>
    ip_queue p' = (case filter (of_stream sid) (ip_queue p) of [] \<Rightarrow> ip_queue p
      | k # _ \<Rightarrow> remove1 k (ip_queue p))"
  using assms
  by (cases "filter (of_stream sid) (ip_queue p)")
    (auto simp: InPort_nextPacket_def next_loop.simps fetch_by_stream)

interpretation port: packet_source port_next port_view "\<lambda>s. orderly_waits (snd s)"
  "\<lambda>s. ip_breakBlock (fst s)"
proof unfold_locales
  fix s :: "'a inport \<times> 'a waits" and sid wait r and s' :: "'a inport \<times> 'a waits"
  obtain p ws p' ws' where s: "s = (p, ws)" "s' = (p', ws')" by (metis surj_pair)
  assume o: "orderly_waits (snd s)" and n: "port_next wait sid s = Returned (r, s')"
  then have n: "InPort_nextPacket 0 (if wait then - 1 else 0) (Some sid) ws p = Returned (r, ws', p')"
    by (auto simp: port_next_def s outcome_simps)
  have o: "orderly_waits ws" using o by (simp add: s)
  consider (stop) "r = None" "ws' = ws" "p' = p"
    | (go) p1 timeout to_time where "next_loop timeout to_time (Some sid) ws p = Returned (r, ws', p1)"
        "ip_queue p' = ip_queue p1"
    using nextPacket_queue [OF n] by blast
  note run = this
  show "\<exists>arrived. port_view sid s @ arrived = packets_of r @ port_view sid s'" if "sid \<noteq> ''''"
    using run
  proof cases
    case go
    then show ?thesis using next_loop_fifo [OF o that go(1)] by (simp add: port_view_def s)
  qed (simp add: port_view_def s)
  show "orderly_waits (snd s')"
    using run
  proof cases
    case go
    then show ?thesis using next_loop_keeps [OF o go(1)] by (simp add: s)
  qed (simp add: s o)
next
  fix k and s :: "'a inport \<times> 'a waits" and sid
  show "k \<in> set (port_view sid s) \<Longrightarrow> pk_streamID k = sid" by (simp add: port_view_def)
next
  fix s :: "'a inport \<times> 'a waits" and sid wait
  show "ip_breakBlock (fst s) \<Longrightarrow> port_next wait sid s = Returned (None, s)"
    by (cases s) (simp add: port_next_def InPort_nextPacket_def)
next
  fix s :: "'a inport \<times> 'a waits" and sid :: string
  assume a: "sid \<noteq> ''''" "\<not> ip_breakBlock (fst s)"
  obtain p ws where s: "s = (p, ws)" by (metis surj_pair)
  have o: "k \<in> set (filter (of_stream sid) (ip_queue p)) \<Longrightarrow> sid' \<noteq> sid \<Longrightarrow> \<not> of_stream sid' k" for k sid'
    by simp
  show "\<exists>p'. port_next False sid s =
        Returned (case port_view sid s of [] \<Rightarrow> None | k # _ \<Rightarrow> Some k, p') \<and> \<not> ip_breakBlock (fst p') \<and>
        port_view sid p' = tl (port_view sid s) \<and>
        (\<forall>sid'. sid' \<noteq> sid \<longrightarrow> port_view sid' p' = port_view sid' s)"
  proof -
    obtain p' where p': "InPort_nextPacket 0 0 (Some sid) ws p =
        Returned (case filter (of_stream sid) (ip_queue p) of [] \<Rightarrow> None | k # _ \<Rightarrow> Some k, ws, p')"
        "\<not> ip_breakBlock p'"
        "ip_queue p' = (case filter (of_stream sid) (ip_queue p) of [] \<Rightarrow> ip_queue p
          | k # _ \<Rightarrow> remove1 k (ip_queue p))"
      using next_poll [OF a(1), of p 0 ws] a(2) by (auto simp: s)
    have v: "port_view sid' (p', ws) = (if sid' = sid then tl (port_view sid s) else port_view sid' s)"
      for sid'
    proof (cases "filter (of_stream sid) (ip_queue p)")
      case Nil
      then show ?thesis by (simp add: port_view_def s p'(3))
    next
      case (Cons k ks)
      then have "filter (of_stream sid) (remove1 k (ip_queue p)) = ks" by (rule filter_remove1_first)
      then show ?thesis
        using Cons o [of k sid'] by (simp add: port_view_def s p'(3) filter_remove1_other)
    qed
    have "port_next False sid s =
        Returned (case port_view sid s of [] \<Rightarrow> None | k # _ \<Rightarrow> Some k, p', ws)"
      by (simp add: port_next_def s p'(1) port_view_def)
    then show ?thesis using v p'(2) by auto
  qed
qed

text \<open>
  C4: reading a stream is lossless and in order. From a running port, polling one stream ID \<open>n\<close> times
  returns exactly the first \<open>n\<close> packets that the queue holds of that stream, in the order of their
  arrival, leaves the rest of that stream in the queue and does not touch the packets of any
  other stream.
\<close>

theorem stream_reads_are_fifo:
  assumes "sid \<noteq> ''''" "\<not> ip_breakBlock p"
  shows "\<exists>p' ws'. drain n port_next sid (p, ws) =
      Returned (take n (filter (of_stream sid) (ip_queue p)), p', ws') \<and>
    filter (of_stream sid) (ip_queue p') = drop n (filter (of_stream sid) (ip_queue p)) \<and>
    (\<forall>sid'. sid' \<noteq> sid \<longrightarrow> filter (of_stream sid') (ip_queue p') = filter (of_stream sid') (ip_queue p))"
  using port.drain_view [of sid "(p, ws)" n] assms by (auto simp: port_view_def)

theorem stream_reads_are_fifo_witness:
  "\<exists>p' ws'. drain 2 port_next ''s'' (blocking_port, []) = Returned ([wave_packet], p', ws')"
  using stream_reads_are_fifo [of "''s''" blocking_port 2 "[]"]
  by (auto simp: blocking_port_def pk_streamID_def wave_packet_def)

section \<open>Announcing streams\<close>

text \<open>The stream objects that were passed to the stream listeners, in order.\<close>

fun added_ref :: "port_event \<Rightarrow> nat option" where
  "added_ref (StreamAdded r) = Some r"
| "added_ref _ = None"

definition stream_additions :: "'a inport \<Rightarrow> nat list" where
  "stream_additions p = List.map_filter added_ref (ip_events p)"

definition announced :: "'a inport \<Rightarrow> bool" where
  "announced p \<longleftrightarrow> distinct (stream_additions p) \<and>
     (\<forall>r. r \<in> set (stream_additions p) \<longleftrightarrow>
        r < length (ip_heap p) \<and> (\<forall>sid. r \<notin> set (pending_of sid p)))"

lemma stream_additions_add [simp]:
  "stream_additions (add_event e p) =
     stream_additions p @ (case added_ref e of None \<Rightarrow> [] | Some r \<Rightarrow> [r])"
  by (simp add: stream_additions_def List.map_filter_def split: option.split)

lemma announced_cong:
  "ip_events q = ip_events p \<Longrightarrow> length (ip_heap q) = length (ip_heap p) \<Longrightarrow>
   ip_pendingStreams q = ip_pendingStreams p \<Longrightarrow> announced q = announced p"
  by (simp add: announced_def stream_additions_def pending_of_def)

lemma announced_event: "added_ref e = None \<Longrightarrow> announced (add_event e p) = announced p"
  by (simp add: announced_def)

lemma pending_refs:
  assumes "streams_ok p" "r \<in> set (pending_of sid p)"
  shows "r < length (ip_heap p)" "is_streamID (ip_heap p ! r) = sid" "distinct (pending_of sid p)"
proof -
  obtain a where "dget (ip_streams p) sid = Some a"
    using assms by (cases "dget (ip_streams p) sid") (auto simp: streams_ok_def no_orphans_def)
  then have "stream_refs sid p = a # pending_of sid p" by (simp add: stream_refs_def)
  moreover have "refs_ok (ip_heap p) sid (stream_refs sid p)"
    using assms(1) by (simp add: streams_ok_def)
  ultimately show "r < length (ip_heap p)" "is_streamID (ip_heap p ! r) = sid"
    "distinct (pending_of sid p)"
    using assms(2) by (auto simp: refs_ok_def)
qed

lemma announced_createStream:
  assumes "streams_ok p" "announced p"
  shows "announced (InPort_createStream H p)"
proof -
  let ?n = "length (ip_heap p)"
  have new: "?n \<notin> set (pending_of sid p)" for sid using pending_refs(1) [OF assms(1)] by blast
  have add: "?n \<notin> set (stream_additions p)" using assms(2) by (auto simp: announced_def)
  have ev: "stream_additions (p\<lparr>ip_heap := h, ip_streams := s\<rparr>) = stream_additions p"
      "stream_additions (p\<lparr>ip_heap := h, ip_pendingStreams := l\<rparr>) = stream_additions p" for h s l
    by (simp_all add: stream_additions_def)
  have pen: "pending_of sid (p\<lparr>ip_heap := h, ip_pendingStreams := dput s l (ip_pendingStreams p)\<rparr>) =
      (if sid = s then l else pending_of sid p)" for h s l sid
    by (simp add: pending_of_def)
  show ?thesis
    using assms(2) new add
    by (auto simp: announced_def InPort_createStream_def Let_def ev pen less_Suc_eq)
qed

lemma announced_removeStream:
  assumes "streams_ok p" "announced p"
  shows "announced (InPort_removeStream sid p)"
proof (cases "pending_of sid p")
  case Nil
  then show ?thesis
    using assms(2) by (simp add: announced_def InPort_removeStream_def activate_pending_def
        stream_additions_def)
next
  case (Cons r rest)
  then have r: "r < length (ip_heap p)" "is_streamID (ip_heap p ! r) = sid" "r \<notin> set rest"
    using pending_refs [OF assms(1), of r sid] by auto
  have other: "s = sid" if "r \<in> set (pending_of s p)" for s
    using pending_refs(2) [OF assms(1) that] r by simp

  have "r \<notin> set (stream_additions p)"
    using assms(2) Cons by (metis announced_def list.set_intros(1))
  moreover have "(\<forall>s. x \<notin> set (if s = sid then rest else pending_of s p)) \<longleftrightarrow>
      x = r \<or> (\<forall>s. x \<notin> set (pending_of s p))" for x
  proof (cases "x = r")
    case True
    then show ?thesis using r(3) other by auto
  next
    case False
    then have "x \<notin> set (if s = sid then rest else pending_of s p) \<longleftrightarrow> x \<notin> set (pending_of s p)" for s
      using Cons by simp
    then show ?thesis using False by simp
  qed
  moreover have "stream_additions (InPort_removeStream sid p) = stream_additions p @ [r]"
    using Cons by (simp add: InPort_removeStream_def activate_pending_def)
      (simp add: stream_additions_def)
  moreover have "pending_of s (InPort_removeStream sid p) = (if s = sid then rest else pending_of s p)"
    for s
    using Cons by (simp add: InPort_removeStream_def activate_pending_def pending_of_def)
  ultimately show ?thesis
    using assms(2) r(1) by (auto simp: announced_def)
qed

text \<open>Everything that users and other threads can do to a port, one locked section at a time.\<close>

definition port_inv :: "'a inport \<Rightarrow> bool" where
  "port_inv p \<longleftrightarrow> inport_ok p \<and> announced p"

definition waits_inv :: "'a waits \<Rightarrow> bool" where
  "waits_inv ws \<longleftrightarrow> (\<forall>(t, e) \<in> set ws. \<forall>p. port_inv p \<longrightarrow> port_inv (e p))"

inductive inport_step :: "'a inport \<Rightarrow> 'a inport \<Rightarrow> bool" where
  step_pushSRI: "inport_step p (InPort_pushSRI H p)"
| step_pushPacket: "waits_inv ws \<Longrightarrow> InPort_pushPacket now ws data T eos sid p = Returned q \<Longrightarrow>
    inport_step p q"
| step_nextPacket: "waits_inv ws \<Longrightarrow> InPort_nextPacket now timeout sid' ws p = Returned (r, ws', q) \<Longrightarrow>
    inport_step p q"
| step_removeStream: "inport_step p (InPort_removeStream sid p)"
| step_discard: "inport_step p (InPort_discardPacketsForStream sid p)"
| step_stream: "is_streamID st = is_streamID (ip_heap p ! i) \<Longrightarrow>
    inport_step p (p\<lparr>ip_heap := (ip_heap p)[i := st]\<rparr>)"
| step_depth: "inport_step p (InPort_setMaxQueueDepth n p)"
| step_block: "inport_step p (InPort_block p)"
| step_unblock: "inport_step p (InPort_unblock p)"
| step_newSriListener: "inport_step p (InPort_setNewSriListener b p)"
| step_sriChangeListener: "inport_step p (InPort_setSriChangeListener b p)"
| step_enableStats: "inport_step p (InPort_enableStats b p)"

lemma wait_for_space_inv:
  assumes "\<forall>(t, e) \<in> set ws. \<forall>p. P p \<longrightarrow> P (e p)" "P p" "wait_for_space ws p = Returned q"
  shows "P q"
  using assms
proof (induction ws arbitrary: p)
  case Nil
  then show ?case by (simp add: wait_for_space.simps split: if_splits)
next
  case (Cons w ws)
  obtain t e where w: "w = (t, e)" by (metis surj_pair)
  have "P (e p)" using Cons.prems(1,2) by (auto simp: w)
  then show ?case
    using Cons.prems Cons.IH [of "e p"]
    by (subst (asm) wait_for_space.simps) (auto simp: w split: if_splits)
qed

lemma port_inv_heap:
  "port_inv p \<Longrightarrow> is_streamID st = is_streamID (ip_heap p ! i) \<Longrightarrow>
   port_inv (p\<lparr>ip_heap := (ip_heap p)[i := st]\<rparr>)"
  using announced_cong [of "p\<lparr>ip_heap := (ip_heap p)[i := st]\<rparr>" p]
  by (simp add: port_inv_def inport_ok_def streams_ok_heap)

lemma port_inv_removeStream: "port_inv p \<Longrightarrow> port_inv (InPort_removeStream sid p)"
  by (simp add: port_inv_def inport_ok_removeStream announced_removeStream inport_ok_def)

lemma port_inv_createStream: "port_inv p \<Longrightarrow> port_inv (InPort_createStream H p)"
  by (simp add: port_inv_def inport_ok_createStream announced_createStream inport_ok_def)

lemma port_inv_event: "added_ref e = None \<Longrightarrow> port_inv (add_event e p) = port_inv p"
  by (simp add: port_inv_def inport_ok_fields announced_event)

lemma port_inv_data:
  assumes "port_inv p" "ip_events q = ip_events p" "ip_heap q = ip_heap p"
    "ip_pendingStreams q = ip_pendingStreams p" "inport_ok q"
  shows "port_inv q"
  using assms announced_cong [of q p] by (simp add: port_inv_def)

lemma port_inv_sriDict:
  "port_inv p \<Longrightarrow> sri_dict_ok d \<Longrightarrow> port_inv (p\<lparr>ip_sriDict := d\<rparr>)"
  by (rule port_inv_data) (auto simp: port_inv_def inport_ok_sriDict)

lemma port_inv_blocking: "port_inv p \<Longrightarrow> port_inv (p\<lparr>ip_blocking := b\<rparr>)"
  by (rule port_inv_data) (auto simp: port_inv_def inport_ok_fields)

lemma port_inv_dict: "port_inv p \<Longrightarrow> sri_dict_ok (ip_sriDict p)"
  by (simp add: port_inv_def inport_ok_dict)

lemma port_inv_pushSRI: "port_inv p \<Longrightarrow> port_inv (InPort_pushSRI H p)"
  by (auto simp: InPort_pushSRI_def Let_def port_inv_event port_inv_createStream port_inv_sriDict
      port_inv_dict port_inv_blocking split: option.split)

lemma port_inv_acknowledge:
  "port_inv p \<Longrightarrow> acknowledge_sri sid p = (H, c, q) \<Longrightarrow> port_inv q"
  using port_inv_dict [of p]
  by (auto simp: acknowledge_sri_def Let_def port_inv_event port_inv_createStream port_inv_sriDict
      sri_dict_ok_def split: option.splits if_splits)

lemma port_inv_make_room:
  assumes "waits_inv ws" "port_inv p" "streamID H = sid" "dget (ip_sriDict p) sid = Some (H, c0)"
    "make_room ws sid (H, c, p) = Returned (H', c', f, q)"
  shows "port_inv q"
proof (cases "ip_blocking p")
  case True
  then have "wait_for_space ws p = Returned q"
    using assms(5) by (auto simp: make_room_def outcome_simps)
  then show ?thesis using wait_for_space_inv [of ws port_inv p q] assms(1,2) by (simp add: waits_inv_def)
next
  case False
  have fl: "port_inv (InPort_flushQueue p)"
    by (rule port_inv_data [OF assms(2)])
      (use assms(2) in \<open>simp_all add: InPort_flushQueue_def port_inv_def
         inport_ok_flushQueue [unfolded InPort_flushQueue_def]\<close>)
  have "sri_dict_ok (dput sid (H, False) (ip_sriDict p))"
    using assms(3) by (intro sri_dict_ok_dput port_inv_dict [OF assms(2)])
  then show ?thesis
    using False assms port_inv_sriDict [OF fl]
    by (auto simp: make_room_def Let_def InPort_flushQueue_def split: if_splits)
qed

lemma port_inv_enqueue:
  assumes "port_inv p" "data \<noteq> [] \<or> eos"
  shows "port_inv (enqueue_packet now data T eos sid (H, c, f, p))"
proof -
  have "inport_ok (enqueue_packet now data T eos sid (H, c, f, p))"
    using assms by (intro inport_ok_enqueue) (simp_all add: port_inv_def)
  moreover have "ip_events (enqueue_packet now data T eos sid (H, c, f, p)) = ip_events p"
      "ip_heap (enqueue_packet now data T eos sid (H, c, f, p)) = ip_heap p"
      "ip_pendingStreams (enqueue_packet now data T eos sid (H, c, f, p)) = ip_pendingStreams p"
    by (simp_all add: enqueue_packet_def Let_def split: prod.split)
  ultimately show ?thesis using port_inv_data [OF assms(1)] by blast
qed

lemma port_inv_pushPacket:
  assumes "port_inv p" "waits_inv ws" "InPort_pushPacket now ws data T eos sid p = Returned q"
  shows "port_inv q"
proof (cases "accepts sid p")
  case True
  obtain H c p1 where a: "acknowledge_sri sid p = (H, c, p1)" by (metis prod_cases3)
  have p1: "port_inv p1" "streamID H = sid" "dget (ip_sriDict p1) sid = Some (H, False)"
    using port_inv_acknowledge [OF assms(1) a] inport_ok_acknowledge [OF _ a] assms(1)
    by (auto simp: port_inv_def)
  show ?thesis
    using True assms(1,3) a port_inv_make_room [OF assms(2) p1]
    by (auto simp: InPort_pushPacket_def InPort_queuePacket_def acceptPacket_accepts outcome_simps
        port_inv_enqueue split: if_splits)
next
  case False
  then show ?thesis
  proof (rule acceptPacket_rejects [of sid p eos])
    fix r
    assume "InPort_acceptPacket sid eos p = (False, if eos then InPort_removeStream sid
          (p\<lparr>ip_heap := (ip_heap p)[r := InputStream_close (ip_heap p ! r)]\<rparr>) else p)"
    then show ?thesis
      using assms(1,3) port_inv_heap [OF assms(1), of "InputStream_close (ip_heap p ! r)" r]
      by (auto simp: InPort_pushPacket_def InPort_queuePacket_def port_inv_blocking port_inv_removeStream
          split: if_splits)
  qed
qed

lemma port_inv_queue:
  "port_inv p \<Longrightarrow> set q \<subseteq> set (ip_queue p) \<Longrightarrow> port_inv (p\<lparr>ip_queue := q\<rparr>)"
  by (rule port_inv_data) (auto simp: port_inv_def inport_ok_def)

lemma port_inv_fetch:
  assumes "port_inv p" "InPort_fetchPacket sid p = Returned (r, q)"
  shows "port_inv q"
proof -
  have "set (dropWhile P xs) \<subseteq> set xs" "set (takeWhile P xs) \<subseteq> set xs" for P and xs :: "'a packet list"
    by (auto dest: set_dropWhileD set_takeWhileD)
  note sub = this
  have rest: "dropWhile P xs = k # ks \<Longrightarrow> set ks \<subseteq> set xs" for P k ks and xs :: "'a packet list"
    using sub(1) [of P xs] by auto
  show ?thesis
  proof (cases "no_streamID sid")
    case True
    then show ?thesis
      using assms by (auto simp: InPort_fetchPacket_def intro!: port_inv_queue
          split: list.splits if_splits)
  next
    case False
    define other where "other = (\<lambda>pkt :: 'a packet. Some (pk_streamID pkt) \<noteq> sid)"
    have "Returned (r, q) = (case dropWhile other (ip_queue p) of
             [] \<Rightarrow> Returned (None, p)
           | pkt # rest \<Rightarrow> Returned (Some pkt, p\<lparr>ip_queue := takeWhile other (ip_queue p) @ rest\<rparr>))"
      using False assms(2) unfolding InPort_fetchPacket_def other_def Let_def by simp
    then show ?thesis
      using assms(1) rest [of other "ip_queue p"] sub(2) [of other "ip_queue p"]
      by (auto intro!: port_inv_queue split: list.splits)
  qed
qed

lemma port_inv_next_loop:
  assumes "waits_inv ws" "port_inv p" "next_loop timeout to_time sid ws p = Returned (r, ws', q)"
  shows "port_inv q"
  using assms
proof (induction ws arbitrary: p)
  case Nil
  then show ?case
    by (subst (asm) next_loop.simps)
      (auto simp: outcome_simps intro: port_inv_fetch split: option.splits if_splits)
next
  case (Cons w ws)
  obtain t e where w: "w = (t, e)" by (metis surj_pair)
  have ws: "waits_inv ws" and e: "port_inv x \<Longrightarrow> port_inv (e x)" for x
    using Cons.prems(1) by (auto simp: waits_inv_def w)
  obtain a b where f: "InPort_fetchPacket sid p = Returned (a, b)"
    using Cons.prems(3) by (subst (asm) next_loop.simps) (auto simp: outcome_simps)
  have b: "port_inv b" using port_inv_fetch [OF Cons.prems(2) f] .
  show ?case
    using Cons.prems(3) Cons.IH [OF ws e [OF b]] e [OF b] b
    by (subst (asm) next_loop.simps) (auto simp: f w split: option.splits if_splits)
qed

lemma port_inv_nextPacket:
  assumes "waits_inv ws" "port_inv p" "InPort_nextPacket now timeout sid ws p = Returned (r, ws', q)"
  shows "port_inv q"
  using assms port_inv_next_loop [OF assms(1,2)]
  by (auto simp: InPort_nextPacket_def outcome_simps port_inv_blocking
      split: if_splits option.splits)

lemma port_inv_step: "inport_step p q \<Longrightarrow> port_inv p \<Longrightarrow> port_inv q"
proof (induction rule: inport_step.induct)
  case (step_discard p sid)
  then have q: "port_inv (p\<lparr>ip_queue := filter (\<lambda>pkt. pk_streamID pkt \<noteq> sid) (ip_queue p)\<rparr>)"
    by (intro port_inv_queue) auto
  show ?case
    by (rule port_inv_data [OF q])
      (use q in \<open>simp_all add: InPort_discardPacketsForStream_def port_inv_def inport_ok_def\<close>)
next
  case (step_depth p n)
  show ?case
    by (rule port_inv_data [OF step_depth])
      (use step_depth in \<open>simp_all add: InPort_setMaxQueueDepth_def port_inv_def inport_ok_fields\<close>)
next
  case (step_block p)
  show ?case
    by (rule port_inv_data [OF step_block])
      (use step_block in \<open>simp_all add: InPort_block_def port_inv_def inport_ok_fields\<close>)
next
  case (step_unblock p)
  show ?case
    by (rule port_inv_data [OF step_unblock])
      (use step_unblock in \<open>simp_all add: InPort_unblock_def port_inv_def inport_ok_fields\<close>)
next
  case (step_newSriListener p b)
  show ?case
    by (rule port_inv_data [OF step_newSriListener])
      (use step_newSriListener in \<open>simp_all add: InPort_setNewSriListener_def port_inv_def inport_ok_fields\<close>)
next
  case (step_sriChangeListener p b)
  show ?case
    by (rule port_inv_data [OF step_sriChangeListener])
      (use step_sriChangeListener in \<open>simp_all add: InPort_setSriChangeListener_def port_inv_def inport_ok_fields\<close>)
next
  case (step_enableStats p b)
  show ?case
    by (rule port_inv_data [OF step_enableStats])
      (use step_enableStats in \<open>simp_all add: InPort_enableStats_def port_inv_def inport_ok_def InStats_setEnabled_def
        instats_ok_def\<close>)
qed (auto intro: port_inv_pushSRI port_inv_pushPacket port_inv_nextPacket port_inv_removeStream
      port_inv_heap)

definition inport_reachable :: "'a inport \<Rightarrow> bool" where
  "inport_reachable p \<longleftrightarrow> (\<exists>name bits cmp cb1 cb2 n buffered sz.
     inport_step\<^sup>*\<^sup>* (InPort_init name bits cmp cb1 cb2 n buffered sz) p)"

text \<open>
  C13: whatever users and other threads do to a port, in any order, its books stay straight: there is one SRI per
  stream ID, filed under its own ID; each stream object is active or waiting under its own ID, at
  most once, and one only waits behind an active one; no empty packet is queued unless it ends a
  stream; and each stream object has been announced to the stream listeners exactly once if it
  has left the waiting list, and not at all while it waits.
\<close>

theorem inport_invariant:
  assumes "inport_reachable p"
  shows "inport_ok p \<and> announced p"
proof -
  have init: "port_inv (InPort_init name bits cmp cb1 cb2 n buffered sz)"
    for name bits cmp cb1 cb2 n buffered and sz :: "'a list \<Rightarrow> int"
    unfolding port_inv_def
    by (intro conjI inport_ok_init) (simp add: announced_def stream_additions_def InPort_init_def
        pending_of_def List.map_filter_def)
  have "inport_step\<^sup>*\<^sup>* a p \<Longrightarrow> port_inv a \<Longrightarrow> port_inv p" for a
    by (induction rule: rtranclp_induct) (auto intro: port_inv_step)
  then show ?thesis using assms init by (auto simp: inport_reachable_def port_inv_def)
qed

theorem inport_invariant_witness: "inport_ok wave_port \<and> announced wave_port"
proof -
  have "inport_reachable wave_port"
    unfolding inport_reachable_def wave_port_def
    by (intro exI, rule r_into_rtranclp, rule step_pushSRI)
  then show ?thesis by (rule inport_invariant)
qed

section \<open>Where the port departs from its contract\<close>

text \<open>
  Discarding the packets of a stream leaves the queue a plain list, which has no
  \<open>popleft\<close>: from then on, until a flush happens to rebuild the queue, every \<open>getPacket\<close> that
  finds a packet of another stream at the front raises an \<open>AttributeError\<close> instead of returning
  it.
\<close>

theorem discard_breaks_getPacket:
  assumes "\<not> ip_breakBlock p" "\<exists>k \<in> set (ip_queue p). pk_streamID k \<noteq> sid"
  shows "InPort_getPacket now timeout ws (InPort_discardPacketsForStream sid p) = Raised AttributeError"
proof -
  have "filter (\<lambda>k. pk_streamID k \<noteq> sid) (ip_queue p) \<noteq> []"
    using assms(2) by (auto simp: filter_empty_conv)
  then show ?thesis
    using assms(1)
    by (auto simp: InPort_getPacket_def InPort_nextPacket_def next_loop.simps InPort_fetchPacket_def
        no_streamID_def InPort_discardPacketsForStream_def split: list.split)
qed

theorem discard_breaks_getPacket_witness:
  "InPort_getPacket 0 0 [] (InPort_discardPacketsForStream ''other'' blocking_port) =
     Raised AttributeError"
  by (rule discard_breaks_getPacket)
    (simp_all add: blocking_port_def pk_streamID_def wave_packet_def)

text \<open>
  The end of a disabled stream removes the stream object but not the SRI on file. A new
  stream that later starts under the same ID is then taken for an update of the old one: no
  stream object is created for it and its packets wait in the queue for a reader that does not
  exist.
\<close>

theorem disabled_end_orphans_the_next_stream:
  assumes "\<not> accepts sid p" "dget (ip_sriDict p) sid = Some (H, c)" "streamID H' = sid"
  shows "\<exists>q. InPort_pushPacket now ws data T True sid p = Returned q \<and>
    dget (ip_streams q) sid = None \<and> dget (ip_sriDict q) sid = Some (H, c) \<and>
    dget (ip_streams (InPort_pushSRI H' q)) sid = None"
proof (rule acceptPacket_rejects [OF assms(1), of True])
  fix r
  assume a: "dget (ip_streams p) sid = Some r" "pending_of sid p = []"
    and "InPort_acceptPacket sid True p = (False, if True then InPort_removeStream sid
          (p\<lparr>ip_heap := (ip_heap p)[r := InputStream_close (ip_heap p ! r)]\<rparr>) else p)"
  then obtain q where q: "InPort_pushPacket now ws data T True sid p = Returned q"
      "dget (ip_streams q) sid = None" "ip_sriDict q = ip_sriDict p"
    by (auto simp: InPort_pushPacket_def InPort_queuePacket_def InPort_removeStream_def
        activate_pending_def)
  have "dget (ip_streams (InPort_pushSRI H' q)) sid = None"
    using q(2,3) assms(2,3) by (auto simp: InPort_pushSRI_def Let_def)
  then show ?thesis using q assms(2) by auto
qed

definition disabled_port :: "rat inport" where
  "disabled_port = wave_port\<lparr>ip_heap := [(InputStream_init True (sri_default ''s''))\<lparr>is_enabled := False\<rparr>]\<rparr>"

theorem disabled_end_orphans_the_next_stream_witness:
  "\<exists>q. InPort_pushPacket 5 [] [] None True ''s'' disabled_port = Returned q \<and>
     dget (ip_streams (InPort_pushSRI (sri_default ''s'') q)) ''s'' = None"
proof -
  have "\<not> accepts ''s'' disabled_port"
      "dget (ip_sriDict disabled_port) ''s'' = Some (sri_default ''s'', True)"
      "streamID (sri_default ''s'') = ''s''"
    by (simp_all add: disabled_port_def accepts_def pending_of_def)
  from disabled_end_orphans_the_next_stream [OF this, of 5 "[]" "[]" None]
  show ?thesis by blast
qed

end
