(* ===== verification/InputStreams.thy ===== *)
theory InputStreams
  imports PacketSource
begin

text \<open>
  \<open>bulkio/input_streams.py\<close>: the input stream classes, over the port operations they call, and
  \<open>DataBlock\<close> of \<open>bulkio/datablock.py\<close>. An operation takes the state of the stream object and
  the state of the port side and returns both. Sample counts are natural numbers, since the
  callers pass sizes; \<open>None\<close> of the outer option is a call that never returns.
\<close>

section \<open>What a stream uses of its port\<close>

record ('a, 'p) port_api =
  api_next :: "bool \<Rightarrow> string \<Rightarrow> 'p \<Rightarrow> ('a packet option \<times> 'p) outcome"
  api_remove :: "string \<Rightarrow> 'p \<Rightarrow> 'p"
  api_discard :: "string \<Rightarrow> 'p \<Rightarrow> 'p"
  api_reformat :: "'a list \<Rightarrow> 'a list"

section \<open>Data blocks\<close>

record sampleTimestamp =
  ts_time :: "utctime option"
  ts_offset :: nat
  ts_synthetic :: bool

record 'a dataBlock =
  db_sri :: sri
  db_data :: "'a list"
  db_timestamps :: "sampleTimestamp list"
  db_sriChangeFlags :: int
  db_inputQueueFlushed :: bool

definition DataBlock_init :: "sri \<Rightarrow> 'a list \<Rightarrow> int \<Rightarrow> bool \<Rightarrow> 'a dataBlock" where
  "DataBlock_init H data flags flushed = \<lparr>db_sri = H, db_data = data, db_timestamps = [],
     db_sriChangeFlags = flags, db_inputQueueFlushed = flushed\<rparr>"

definition DataBlock_sriChanged :: "'a dataBlock \<Rightarrow> bool" where
  "DataBlock_sriChanged b \<longleftrightarrow> db_sriChangeFlags b \<noteq> NONE"

definition DataBlock_addTimestamp :: "sampleTimestamp \<Rightarrow> 'a dataBlock \<Rightarrow> 'a dataBlock" where
  "DataBlock_addTimestamp ts b = b\<lparr>db_timestamps := db_timestamps b @ [ts]\<rparr>"

text \<open>\<open>_validateTimestamps\<close> raises a plain \<open>Exception\<close>, here \<open>ValueError\<close>.\<close>

definition DataBlock_getStartTime :: "'a dataBlock \<Rightarrow> utctime option outcome" where
  "DataBlock_getStartTime b = (case db_timestamps b of
     [] \<Rightarrow> Raised ValueError
   | ts # _ \<Rightarrow> if ts_offset ts \<noteq> 0 then Raised ValueError else Returned (ts_time ts))"

fun interleaved_to_complex :: "'a list \<Rightarrow> ('a \<times> 'a) list" where
  "interleaved_to_complex (re # im # rest) = (re, im) # interleaved_to_complex rest"
| "interleaved_to_complex _ = []"

section \<open>\<open>InputStream\<close>\<close>

type_synonym ('a, 'p) sstate = "'a istream \<times> 'p"

definition InputStream_fetchNextPacket ::
    "('a, 'p) port_api \<Rightarrow> bool \<Rightarrow> ('a, 'p) sstate \<Rightarrow> ('a packet option \<times> ('a, 'p) sstate) outcome" where
  "InputStream_fetchNextPacket api wait = (\<lambda>(st, p).
     if \<not> is_enabled st then Returned (None, st, p)
     else if is_eosState st \<noteq> EOS_NONE then Returned (None, st, p)
     else omap (\<lambda>(packet, p).
       case packet of
         None \<Rightarrow> (None, st, p)
       | Some k \<Rightarrow> (Some (k\<lparr>pk_buffer := api_reformat api (pk_buffer k)\<rparr>),
                   if pk_EOS k then st\<lparr>is_eosState := EOS_RECEIVED\<rparr> else st, p))
       (api_next api wait (is_streamID st) p))"

definition InputStream_reportIfEosReached ::
    "('a, 'p) port_api \<Rightarrow> ('a, 'p) sstate \<Rightarrow> ('a, 'p) sstate" where
  "InputStream_reportIfEosReached api = (\<lambda>(st, p).
     if is_eosState st = EOS_REACHED
     then (st\<lparr>is_eosState := EOS_REPORTED\<rparr>, api_remove api (is_streamID st) p) else (st, p))"

definition InputStream_getSriChangeFlags :: "'a packet \<Rightarrow> 'a istream \<Rightarrow> int \<times> 'a istream" where
  "InputStream_getSriChangeFlags packet st =
     (if is_newstream st then (- 1, st\<lparr>is_newstream := False\<rparr>)
      else if pk_sriChanged packet then (sri_compareFields (is_sri st) (pk_SRI packet), st)
      else (NONE, st))"

definition InputStream_readPacket ::
    "('a, 'p) port_api \<Rightarrow> bool \<Rightarrow> ('a, 'p) sstate \<Rightarrow> ('a dataBlock option \<times> ('a, 'p) sstate) outcome" where
  "InputStream_readPacket api wait s =
     omap (\<lambda>(packet, st, p).
       let st = (if is_eosState st = EOS_RECEIVED then st\<lparr>is_eosState := EOS_REACHED\<rparr> else st)
       in case packet of
            None \<Rightarrow> (None, InputStream_reportIfEosReached api (st, p))
          | Some k \<Rightarrow>
              if pk_EOS k \<and> pk_buffer k = [] then (None, InputStream_reportIfEosReached api (st, p))
              else
                let (flags, st) = InputStream_getSriChangeFlags k st;
                    block = DataBlock_init (pk_SRI k) (pk_buffer k) flags (pk_flushed k);
                    block = (if pk_T k \<noteq> None
                             then DataBlock_addTimestamp
                               \<lparr>ts_time = pk_T k, ts_offset = 0, ts_synthetic = False\<rparr> block
                             else block)
                in (Some block, st\<lparr>is_sri := pk_SRI k\<rparr>, p))
       (InputStream_fetchNextPacket api wait s)"

definition InputStream_read where "InputStream_read api s = InputStream_readPacket api True s"
definition InputStream_tryread where "InputStream_tryread api s = InputStream_readPacket api False s"

definition InputStream_enable :: "('a, 'p) sstate \<Rightarrow> ('a, 'p) sstate" where
  "InputStream_enable = (\<lambda>(st, p). (st\<lparr>is_enabled := True\<rparr>, p))"

text \<open>\<open>disable\<close> with the \<open>_disable\<close> hook of the buffered class.\<close>

definition BufferedInputStream_disable_hook :: "'a istream \<Rightarrow> 'a istream" where
  "BufferedInputStream_disable_hook st =
     st\<lparr>is_queue := [], is_sampleOffset := 0, is_samplesQueued := 0, is_pending := None\<rparr>"

definition InputStream_disable :: "('a, 'p) port_api \<Rightarrow> ('a, 'p) sstate \<Rightarrow> ('a, 'p) sstate" where
  "InputStream_disable api = (\<lambda>(st, p).
     let st = st\<lparr>is_enabled := False\<rparr>;
         p = (if is_eosState st = EOS_NONE then api_discard api (is_streamID st) p else p)
     in (if is_buffered st then BufferedInputStream_disable_hook st else st, p))"

definition InputStream_checkEos :: "('a, 'p) port_api \<Rightarrow> ('a, 'p) sstate \<Rightarrow> bool \<times> ('a, 'p) sstate" where
  "InputStream_checkEos api s =
     (let s = InputStream_reportIfEosReached api s in (is_eosState (fst s) = EOS_REPORTED, s))"

section \<open>\<open>BufferedInputStream\<close>\<close>

definition canBridge :: "'a packet \<Rightarrow> bool" where
  "canBridge packet \<longleftrightarrow> \<not> (pk_sriChanged packet \<or> pk_flushed packet)"

definition BIS_queuePacket :: "'a packet \<Rightarrow> 'a istream \<Rightarrow> bool \<times> 'a istream" where
  "BIS_queuePacket packet st =
     (if pk_EOS packet \<and> pk_buffer packet = [] then
        (False,
         if is_queue st = [] then st\<lparr>is_eosState := EOS_REACHED\<rparr>
         else st\<lparr>is_queue := butlast (is_queue st) @ [(last (is_queue st))\<lparr>pk_EOS := True\<rparr>]\<rparr>)
      else
        (True, st\<lparr>is_samplesQueued := is_samplesQueued st + length (pk_buffer packet),
                  is_queue := is_queue st @ [packet]\<rparr>))"

definition BIS_fetchPacket ::
    "('a, 'p) port_api \<Rightarrow> bool \<Rightarrow> ('a, 'p) sstate \<Rightarrow> (bool \<times> ('a, 'p) sstate) outcome" where
  "BIS_fetchPacket api wait = (\<lambda>(st, p).
     if is_pending st \<noteq> None then Returned (False, st, p)
     else omap (\<lambda>(packet, st, p).
       case packet of
         None \<Rightarrow> (False, st, p)
       | Some k \<Rightarrow>
           if is_queue st = [] \<or> canBridge k
           then (let (got, st) = BIS_queuePacket k st in (got, st, p))
           else (False, st\<lparr>is_pending := Some k\<rparr>, p))
       (InputStream_fetchNextPacket api wait (st, p)))"

definition BIS_nextSRI ::
    "('a, 'p) port_api \<Rightarrow> bool \<Rightarrow> ('a, 'p) sstate \<Rightarrow> (sri option \<times> ('a, 'p) sstate) outcome" where
  "BIS_nextSRI api wait s =
     (if is_queue (fst s) \<noteq> [] then Returned (Some (pk_SRI (hd (is_queue (fst s)))), s)
      else obind (BIS_fetchPacket api wait s) (\<lambda>(got, s).
        if \<not> got then Returned (None, s)
        else case is_queue (fst s) of
               [] \<Rightarrow> Raised IndexError | k # _ \<Rightarrow> Returned (Some (pk_SRI k), s)))"

text \<open>Adding an offset to a missing time stamp raises a \<open>TypeError\<close>.\<close>

definition BIS_getTimestamp :: "sri \<Rightarrow> nat \<Rightarrow> nat \<Rightarrow> utctime option \<Rightarrow> sampleTimestamp outcome" where
  "BIS_getTimestamp H inputOffset outputOffset time =
     (let time_offset = of_nat inputOffset * xdelta H;
          (time_offset, outputOffset) =
            (if mode H \<noteq> 0 then (time_offset / 2, outputOffset div 2) else (time_offset, outputOffset))
      in if time_offset > 0 then
           (case time of
              None \<Rightarrow> Raised TypeError
            | Some t \<Rightarrow> Returned \<lparr>ts_time = Some (timestamp_add t time_offset),
                                 ts_offset = outputOffset, ts_synthetic = True\<rparr>)
         else Returned \<lparr>ts_time = time, ts_offset = outputOffset, ts_synthetic = False\<rparr>)"

definition BIS_consumePacket :: "'a istream \<Rightarrow> 'a istream" where
  "BIS_consumePacket st =
     (let front = hd (is_queue st);
          st = st\<lparr>is_queue := tl (is_queue st)\<rparr>;
          st = (if pk_EOS front then st\<lparr>is_eosState := EOS_REACHED\<rparr> else st)
      in case is_pending st of
           Some k \<Rightarrow> if is_queue st = [] then (snd (BIS_queuePacket k st))\<lparr>is_pending := None\<rparr> else st
         | None \<Rightarrow> st)"

function (sequential) BIS_consumeData :: "nat \<Rightarrow> 'a istream \<Rightarrow> 'a istream outcome" where
  "BIS_consumeData 0 st = Returned st"
| "BIS_consumeData count st = (case is_queue st of
     [] \<Rightarrow> Raised IndexError
   | front # _ \<Rightarrow>
       let data_len = length (pk_buffer front);
           available = data_len - is_sampleOffset st;
           nelem = min available count;
           st = st\<lparr>is_sampleOffset := is_sampleOffset st + nelem,
                   is_samplesQueued := is_samplesQueued st - nelem\<rparr>
       in BIS_consumeData (count - nelem)
            (if data_len \<le> is_sampleOffset st
             then (BIS_consumePacket st)\<lparr>is_sampleOffset := 0\<rparr> else st))"
  by pat_completeness auto

text \<open>
  Each turn of the loop consumes samples or a packet; a pending packet counts as two because it
  may move to the queue.
\<close>

definition consume_measure :: "nat \<times> 'a istream \<Rightarrow> nat" where
  "consume_measure = (\<lambda>(n, st). n + length (is_queue st) +
     (case is_pending st of None \<Rightarrow> 0 | Some _ \<Rightarrow> 2))"

lemma consumePacket_measure:
  "is_queue st \<noteq> [] \<Longrightarrow>
   consume_measure (n, (BIS_consumePacket st)\<lparr>is_sampleOffset := k\<rparr>) < consume_measure (n, st)"
  by (cases "is_queue st")
    (auto simp: consume_measure_def BIS_consumePacket_def BIS_queuePacket_def Let_def
      split: option.splits)

termination BIS_consumeData
proof (relation "measure consume_measure", goal_cases)
  case 1
  then show ?case by simp
next
  case (2 v st front xs data_len available nelem st')
  let ?m = "\<lambda>n s. consume_measure (n, s)"
  have st': "is_queue st' = is_queue st" "is_pending st' = is_pending st"
    using 2 by simp_all
  have m: "?m (Suc v - nelem) st' = ?m (Suc v) st - nelem" "nelem \<le> Suc v"
    using st' 2 by (auto simp: consume_measure_def)
  show ?case
  proof (cases "data_len \<le> is_sampleOffset st'")
    case True
    have "?m (Suc v - nelem) ((BIS_consumePacket st')\<lparr>is_sampleOffset := 0\<rparr>) < ?m (Suc v - nelem) st'"
      using st' 2(1) by (intro consumePacket_measure) simp
    then show ?thesis using True m by simp
  next
    case False
    then have "0 < nelem" using 2 by (auto simp: min_def)
    moreover have "nelem \<le> ?m (Suc v) st" using m(2) by (simp add: consume_measure_def)
    ultimately show ?thesis using False m by simp
  qed
qed

fun BIS_mergePacketData ::
    "sri \<Rightarrow> 'a packet list \<Rightarrow> nat \<Rightarrow> nat \<Rightarrow> nat \<Rightarrow> (sampleTimestamp list \<times> 'a list) outcome" where
  "BIS_mergePacketData H [] packet_offset data_offset count = Returned ([], [])"
| "BIS_mergePacketData H (packet # rest) packet_offset data_offset count =
     obind (BIS_getTimestamp H packet_offset data_offset (pk_T packet)) (\<lambda>ts.
       let available = length (pk_buffer packet) - packet_offset;
           nelem = min available count;
           chunk = take nelem (drop packet_offset (pk_buffer packet))
       in if count - nelem = 0 then Returned ([ts], chunk)
          else omap (\<lambda>(tss, data). (ts # tss, chunk @ data))
            (BIS_mergePacketData H rest 0 (data_offset + nelem) (count - nelem)))"

definition BIS_readData ::
    "nat \<Rightarrow> nat \<Rightarrow> 'a istream \<Rightarrow> ('a dataBlock \<times> 'a istream) outcome" where
  "BIS_readData count consume st = (case is_queue st of
     [] \<Rightarrow> Raised IndexError
   | front # rest \<Rightarrow>
       obind
         (if is_sampleOffset st + count \<le> length (pk_buffer front)
          then omap (\<lambda>ts. ([ts], take count (drop (is_sampleOffset st) (pk_buffer front))))
                 (BIS_getTimestamp (pk_SRI front) (is_sampleOffset st) 0 (pk_T front))
          else BIS_mergePacketData (pk_SRI front) (front # rest) (is_sampleOffset st) 0 count)
         (\<lambda>(time_stamps, data).
           let (flags, st) = InputStream_getSriChangeFlags front st;
               block = DataBlock_init (pk_SRI front) data flags (pk_flushed front);
               st = (if pk_sriChanged front then st\<lparr>is_sri := pk_SRI front\<rparr> else st);
               block = foldl (\<lambda>b ts. DataBlock_addTimestamp ts b) block time_stamps;
               st = st\<lparr>is_queue := front\<lparr>pk_sriChanged := False, pk_flushed := False\<rparr> # rest\<rparr>
           in omap (\<lambda>st. (block, st)) (BIS_consumeData consume st)))"

definition BIS_readPacket ::
    "('a, 'p) port_api \<Rightarrow> bool \<Rightarrow> ('a, 'p) sstate \<Rightarrow> ('a dataBlock option \<times> ('a, 'p) sstate) outcome" where
  "BIS_readPacket api wait s =
     obind (if is_samplesQueued (fst s) = 0 then omap snd (BIS_fetchPacket api wait s) else Returned s)
       (\<lambda>(st, p).
         if is_samplesQueued st = 0 then Returned (None, InputStream_reportIfEosReached api (st, p))
         else case is_queue st of
           [] \<Rightarrow> Raised IndexError
         | front # _ \<Rightarrow>
             let samples = length (pk_buffer front) - is_sampleOffset st
             in omap (\<lambda>(block, st). (Some block, st, p)) (BIS_readData samples samples st))"

text \<open>The loop that queues packets until enough samples are there or a fetch fails.\<close>

partial_function (option) BIS_fill ::
    "('a, 'p) port_api \<Rightarrow> bool \<Rightarrow> nat \<Rightarrow> ('a, 'p) sstate \<Rightarrow> (('a, 'p) sstate) outcome option" where
  "BIS_fill api wait requested s =
     (if is_samplesQueued (fst s) < requested then
        (case BIS_fetchPacket api wait s of
           Raised e \<Rightarrow> Some (Raised e)
         | Blocked \<Rightarrow> Some Blocked
         | Returned (got, s') \<Rightarrow>
             if got then BIS_fill api wait requested s' else Some (Returned s'))
      else Some (Returned s))"

definition BIS_read ::
    "('a, 'p) port_api \<Rightarrow> nat \<Rightarrow> nat option \<Rightarrow> bool \<Rightarrow> ('a, 'p) sstate \<Rightarrow>
     ('a dataBlock option \<times> ('a, 'p) sstate) outcome option" where
  "BIS_read api count consume wait s =
     (let consume = (case consume of None \<Rightarrow> count | Some c \<Rightarrow> c)
      in case BIS_nextSRI api wait s of
           Raised e \<Rightarrow> Some (Raised e)
         | Blocked \<Rightarrow> Some Blocked
         | Returned (None, s) \<Rightarrow> Some (Returned (None, InputStream_reportIfEosReached api s))
         | Returned (Some H, s) \<Rightarrow>
             let count = (if mode H \<noteq> 0 then count * 2 else count);
                 consume = (if mode H \<noteq> 0 then consume * 2 else consume);
                 requested = max count consume
             in map_option (\<lambda>r. obind r (\<lambda>(st, p).
                  if is_samplesQueued st = 0
                  then Returned (None, InputStream_reportIfEosReached api (st, p))
                  else
                    let samples = min requested (is_samplesQueued st);
                        short = samples < requested
                    in if short \<and> \<not> wait \<and> is_pending st = None \<and> is_eosState st = EOS_NONE
                       then Returned (None, st, p)
                       else
                         let consume = (if short \<and> consume \<noteq> 0 then samples else consume);
                             samples = min count (is_samplesQueued st)
                         in omap (\<lambda>(block, st). (Some block, st, p)) (BIS_readData samples consume st)))
                (BIS_fill api wait requested s))"

definition BufferedInputStream_read ::
    "('a, 'p) port_api \<Rightarrow> nat option \<Rightarrow> nat option \<Rightarrow> ('a, 'p) sstate \<Rightarrow>
     ('a dataBlock option \<times> ('a, 'p) sstate) outcome option" where
  "BufferedInputStream_read api count consume s = (case count of
     None \<Rightarrow> if consume \<noteq> None then Some (Raised ValueError) else Some (BIS_readPacket api True s)
   | Some n \<Rightarrow> BIS_read api n consume True s)"

definition BufferedInputStream_tryread ::
    "('a, 'p) port_api \<Rightarrow> nat option \<Rightarrow> nat option \<Rightarrow> ('a, 'p) sstate \<Rightarrow>
     ('a dataBlock option \<times> ('a, 'p) sstate) outcome option" where
  "BufferedInputStream_tryread api count consume s = (case count of
     None \<Rightarrow> Some (BIS_readPacket api False s)
   | Some n \<Rightarrow> BIS_read api n consume False s)"

definition BufferedInputStream_skip ::
    "('a, 'p) port_api \<Rightarrow> nat \<Rightarrow> ('a, 'p) sstate \<Rightarrow> (nat \<times> ('a, 'p) sstate) outcome option" where
  "BufferedInputStream_skip api count s = (case BIS_nextSRI api True s of
     Raised e \<Rightarrow> Some (Raised e)
   | Blocked \<Rightarrow> Some Blocked
   | Returned (None, s) \<Rightarrow> Some (Returned (0, s))
   | Returned (Some H, s) \<Rightarrow>
       let item_size = (if mode H \<noteq> 0 then 2 else 1); count = count * item_size
       in map_option (\<lambda>r. obind r (\<lambda>(st, p).
            let count = min count (is_samplesQueued st)
            in omap (\<lambda>st. (count div item_size, st, p)) (BIS_consumeData count st)))
          (BIS_fill api True count s))"

definition BufferedInputStream_checkEos ::
    "('a, 'p) port_api \<Rightarrow> ('a, 'p) sstate \<Rightarrow> (bool \<times> ('a, 'p) sstate) outcome" where
  "BufferedInputStream_checkEos api s =
     omap (InputStream_checkEos api)
       (if is_queue (fst s) = [] then omap snd (BIS_fetchPacket api False s) else Returned s)"

section \<open>The invariant of a buffered stream\<close>

definition bis_data :: "'a istream \<Rightarrow> 'a list" where
  "bis_data st = concat (map pk_buffer (is_queue st))"

definition bis_mine :: "'a istream \<Rightarrow> bool" where
  "bis_mine st \<longleftrightarrow> (\<forall>k \<in> set (is_queue st). pk_streamID k = is_streamID st) \<and>
     (\<forall>k. is_pending st = Some k \<longrightarrow> pk_streamID k = is_streamID st)"

definition bis_eos_ok :: "'a istream \<Rightarrow> bool" where
  "bis_eos_ok st \<longleftrightarrow> (case is_eosState st of
     EOS_NONE \<Rightarrow> (\<forall>k \<in> set (is_queue st). \<not> pk_EOS k) \<and>
       (\<forall>k. is_pending st = Some k \<longrightarrow> \<not> pk_EOS k)
   | EOS_RECEIVED \<Rightarrow> is_queue st \<noteq> [] \<and>
       (case is_pending st of None \<Rightarrow> pk_EOS (last (is_queue st))
        | Some k \<Rightarrow> pk_EOS k \<and> \<not> pk_EOS (last (is_queue st)))
   | _ \<Rightarrow> is_queue st = [] \<and> is_pending st = None)"

definition bis_ok :: "'a istream \<Rightarrow> bool" where
  "bis_ok st \<longleftrightarrow>
     is_samplesQueued st + is_sampleOffset st = length (bis_data st) \<and>
     (case is_queue st of [] \<Rightarrow> is_sampleOffset st = 0 \<and> is_pending st = None
      | front # rest \<Rightarrow> is_sampleOffset st < length (pk_buffer front) \<and>
          (\<forall>k \<in> set rest. canBridge k)) \<and>
     (\<forall>k \<in> set (is_queue st). pk_buffer k \<noteq> []) \<and>
     (\<forall>k \<in> set (butlast (is_queue st)). \<not> pk_EOS k) \<and>
     (\<forall>k. is_pending st = Some k \<longrightarrow> \<not> canBridge k \<and> packet_ok k) \<and>
     bis_mine st \<and> bis_eos_ok st"

text \<open>The samples that the stream holds: from the read pointer on, and the pending packet.\<close>

definition bis_samples :: "'a istream \<Rightarrow> 'a list" where
  "bis_samples st = drop (is_sampleOffset st) (bis_data st) @
     (case is_pending st of None \<Rightarrow> [] | Some k \<Rightarrow> pk_buffer k)"

lemma bis_ok_init [simp]: "bis_ok (InputStream_init b H)"
  by (simp add: bis_ok_def InputStream_init_def bis_data_def bis_mine_def bis_eos_ok_def)

lemma bis_ok_queued: "bis_ok st \<Longrightarrow> is_samplesQueued st = 0 \<longleftrightarrow> is_queue st = []"
  by (cases "is_queue st") (auto simp: bis_ok_def bis_data_def)

lemma bis_samples_queued:
  "bis_ok st \<Longrightarrow> n \<le> is_samplesQueued st \<Longrightarrow>
   take n (bis_samples st) = take n (drop (is_sampleOffset st) (bis_data st))"
  by (auto simp: bis_ok_def bis_samples_def)

text \<open>Finishing the front packet and advancing within it.\<close>

lemma consumePacket_ok:
  assumes "bis_ok st" "is_queue st = front # rest"
  defines "nelem \<equiv> length (pk_buffer front) - is_sampleOffset st"
  defines "st' \<equiv> (BIS_consumePacket (st\<lparr>is_sampleOffset := is_sampleOffset st + nelem,
      is_samplesQueued := is_samplesQueued st - nelem\<rparr>))\<lparr>is_sampleOffset := 0\<rparr>"
  shows "bis_ok st' \<and> bis_samples st' = drop nelem (bis_samples st) \<and>
     is_samplesQueued st - nelem \<le> is_samplesQueued st'"
proof (cases rest)
  case Nil
  show ?thesis
  proof (cases "is_pending st")
    case None
    then show ?thesis
      using assms(1,2) Nil
      by (auto simp: st'_def nelem_def bis_ok_def bis_samples_def bis_data_def bis_mine_def
          bis_eos_ok_def BIS_consumePacket_def Let_def is_streamID_def split: eos_state.splits)
  next
    case (Some k)
    then show ?thesis
      using assms(1,2) Nil
      by (auto simp: st'_def nelem_def bis_ok_def bis_samples_def bis_data_def bis_mine_def
          bis_eos_ok_def BIS_consumePacket_def BIS_queuePacket_def Let_def is_streamID_def packet_ok_def
          split: eos_state.splits)
  qed
next
  case (Cons k ks)
  then show ?thesis
    using assms(1,2)
    by (auto simp: st'_def nelem_def bis_ok_def bis_samples_def bis_data_def bis_mine_def
        bis_eos_ok_def BIS_consumePacket_def Let_def is_streamID_def
        split: eos_state.splits option.splits)
qed

lemma advance_ok:
  assumes "bis_ok st" "is_queue st = front # rest" "n < length (pk_buffer front) - is_sampleOffset st"
  defines "st' \<equiv> st\<lparr>is_sampleOffset := is_sampleOffset st + n,
      is_samplesQueued := is_samplesQueued st - n\<rparr>"
  shows "bis_ok st' \<and> bis_samples st' = drop n (bis_samples st)"
proof
  have l: "n + is_sampleOffset st \<le> length (bis_data st)"
    using assms(2,3) by (simp add: bis_data_def)
  then show "bis_samples st' = drop n (bis_samples st)"
    by (simp add: st'_def bis_samples_def bis_data_def add.commute)
  have "bis_mine st'" "bis_eos_ok st'"
    using assms(1) by (simp_all add: st'_def bis_ok_def bis_mine_def bis_eos_ok_def is_streamID_def
        cong: eos_state.case_cong option.case_cong)
  then show "bis_ok st'"
    using assms(1-3) l by (auto simp: st'_def bis_ok_def bis_data_def)
qed

lemma consumeData_ok:
  assumes "bis_ok st" "n \<le> is_samplesQueued st"
  shows "\<exists>st'. BIS_consumeData n st = Returned st' \<and> bis_ok st' \<and>
     bis_samples st' = drop n (bis_samples st)"
  using assms
proof (induction n st rule: BIS_consumeData.induct)
  case (2 v st)
  from 2(3) have "is_queue st \<noteq> []" using bis_ok_queued [OF 2(2)] by auto
  then obtain front rest where q: "is_queue st = front # rest" by (cases "is_queue st") auto
  let ?a = "length (pk_buffer front) - is_sampleOffset st" and ?n = "min (length (pk_buffer front) - is_sampleOffset st) (Suc v)"
  have off: "is_sampleOffset st < length (pk_buffer front)"
    using 2(2) q by (simp add: bis_ok_def)
  show ?case
  proof (cases "?a \<le> Suc v")
    case True
    let ?st = "(BIS_consumePacket (st\<lparr>is_sampleOffset := is_sampleOffset st + ?a,
      is_samplesQueued := is_samplesQueued st - ?a\<rparr>))\<lparr>is_sampleOffset := 0\<rparr>"
    note c = consumePacket_ok [OF 2(2) q]
    have step: "BIS_consumeData (Suc v) st = BIS_consumeData (Suc v - ?a) ?st"
      using q True off by (simp add: Let_def)
    have le: "Suc v - ?a \<le> is_samplesQueued ?st"
      using conjunct2 [OF conjunct2 [OF c]] 2(3) by linarith
    have upd: "(if length (pk_buffer front) \<le> is_sampleOffset (st\<lparr>is_sampleOffset :=
          is_sampleOffset st + ?n, is_samplesQueued := is_samplesQueued st - ?n\<rparr>)
        then (BIS_consumePacket (st\<lparr>is_sampleOffset := is_sampleOffset st + ?n,
          is_samplesQueued := is_samplesQueued st - ?n\<rparr>))\<lparr>is_sampleOffset := 0\<rparr>
        else st\<lparr>is_sampleOffset := is_sampleOffset st + ?n,
          is_samplesQueued := is_samplesQueued st - ?n\<rparr>) = ?st"
      unfolding min_absorb1 [OF True] using off by simp
    have "\<exists>st'. BIS_consumeData (Suc v - ?a) ?st = Returned st' \<and> bis_ok st' \<and>
        bis_samples st' = drop (Suc v - ?a) (bis_samples ?st)"
      using 2(1) [OF q refl refl refl refl, unfolded upd, unfolded min_absorb1 [OF True], OF _ le] c
      by blast
    moreover have "drop (Suc v - ?a) (bis_samples ?st) = drop (Suc v) (bis_samples st)"
      using c True by simp
    ultimately show ?thesis by (simp only: step)
  next
    case False
    then show ?thesis
      using advance_ok [OF 2(2) q, of "Suc v"] q by (auto simp: Let_def min_absorb2)
  qed
qed simp

lemma consumePacket_frame:
  "is_sri (BIS_consumePacket st) = is_sri st" "is_enabled (BIS_consumePacket st) = is_enabled st"
  "is_newstream (BIS_consumePacket st) = is_newstream st"
  by (auto simp: BIS_consumePacket_def BIS_queuePacket_def Let_def split: option.split)

lemma consumeData_frame:
  "BIS_consumeData n st = Returned st' \<Longrightarrow>
   is_sri st' = is_sri st \<and> is_enabled st' = is_enabled st \<and> is_newstream st' = is_newstream st"
proof (induction n st rule: BIS_consumeData.induct)
  case (2 v st)
  then show ?case
    by (auto simp: Let_def consumePacket_frame split: list.splits)
qed simp

text \<open>All packets held carry a time stamp.\<close>

definition timed :: "'a istream \<Rightarrow> bool" where
  "timed st \<longleftrightarrow> (\<forall>k \<in> set (is_queue st). pk_T k \<noteq> None) \<and>
     (\<forall>k. is_pending st = Some k \<longrightarrow> pk_T k \<noteq> None)"

lemma consumePacket_timed: "timed st \<Longrightarrow> timed (BIS_consumePacket st)"
  by (cases "is_queue st")
    (auto simp: timed_def BIS_consumePacket_def BIS_queuePacket_def Let_def split: option.split)

lemma timed_fields [simp]:
  "timed (st\<lparr>is_sampleOffset := a\<rparr>) = timed st"
  "timed (st\<lparr>is_samplesQueued := a\<rparr>) = timed st"
  by (simp_all add: timed_def)

lemma consumeData_timed: "BIS_consumeData n st = Returned st' \<Longrightarrow> timed st \<Longrightarrow> timed st'"
proof (induction n st rule: BIS_consumeData.induct)
  case (2 v st)
  then obtain front rest where q: "is_queue st = front # rest" by (cases "is_queue st") auto
  let ?st = "st\<lparr>is_sampleOffset := is_sampleOffset st + min (length (pk_buffer front) - is_sampleOffset st) (Suc v),
    is_samplesQueued := is_samplesQueued st - min (length (pk_buffer front) - is_sampleOffset st) (Suc v)\<rparr>"
  have "timed ?st" "timed ((BIS_consumePacket ?st)\<lparr>is_sampleOffset := 0\<rparr>)"
    using 2(3) consumePacket_timed [of ?st] by simp_all
  then have "timed (if length (pk_buffer front) \<le> is_sampleOffset ?st
      then (BIS_consumePacket ?st)\<lparr>is_sampleOffset := 0\<rparr> else ?st)"
    by (cases "length (pk_buffer front) \<le> is_sampleOffset ?st") (simp_all only: if_True if_False)
  then show ?case
    using 2(1) [OF q refl refl refl refl] 2(2) by (simp only: BIS_consumeData.simps q list.case Let_def)
qed simp

text \<open>Data and time stamps of a read that spans packets.\<close>

lemma getTimestamp_simps:
  "BIS_getTimestamp H 0 off T = Returned \<lparr>ts_time = T, ts_offset = off div item_size H, ts_synthetic = False\<rparr>"
  "T \<noteq> None \<Longrightarrow> \<exists>ts. BIS_getTimestamp H i off T = Returned ts \<and> ts_offset ts = off div item_size H"
  by (auto simp: BIS_getTimestamp_def item_size_def Let_def)

lemma mergePacketData_ok:
  assumes "\<forall>k \<in> set ks. pk_T k \<noteq> None" "\<forall>k \<in> set ks. pk_buffer k \<noteq> []" "0 < count"
    "count + po \<le> length (concat (map pk_buffer ks))" "po < length (pk_buffer (hd ks))"
  shows "\<exists>tss. BIS_mergePacketData H ks po off count =
      Returned (tss, take count (drop po (concat (map pk_buffer ks)))) \<and>
    tss \<noteq> [] \<and> length tss \<le> length ks \<and> ts_offset (hd tss) = off div item_size H \<and>
    (\<forall>i. 0 < i \<longrightarrow> i < length tss \<longrightarrow> \<not> ts_synthetic (tss ! i) \<and> ts_time (tss ! i) = pk_T (ks ! i) \<and>
       ts_offset (tss ! i) =
         (off + length (concat (map pk_buffer (take i ks))) - po) div item_size H)"
  using assms
proof (induction ks arbitrary: po off count)
  case (Cons k ks)
  let ?a = "length (pk_buffer k) - po"
  obtain ts where ts: "BIS_getTimestamp H po off (pk_T k) = Returned ts"
      "ts_offset ts = off div item_size H"
    using getTimestamp_simps(2) [of "pk_T k" H po off] Cons.prems(1) by auto
  show ?case
  proof (cases "count \<le> ?a")
    case True
    then show ?thesis using ts by (auto simp: Let_def min_absorb2)
  next
    case False
    have po: "po < length (pk_buffer k)" using Cons.prems(5) by simp
    have ne: "ks \<noteq> []" using False Cons.prems(4) by auto
    then have hd: "0 < length (pk_buffer (hd ks))" using Cons.prems(2) by (cases ks) auto
    let ?d = "off + ?a"
    have bound: "count - ?a + 0 \<le> length (concat (map pk_buffer ks))"
      using Cons.prems(4) False po by simp
    obtain tss where IH: "BIS_mergePacketData H ks 0 ?d (count - ?a) =
        Returned (tss, take (count - ?a) (drop 0 (concat (map pk_buffer ks))))"
      "tss \<noteq> []" "length tss \<le> length ks" "ts_offset (hd tss) = ?d div item_size H"
      "\<forall>i. 0 < i \<longrightarrow> i < length tss \<longrightarrow> \<not> ts_synthetic (tss ! i) \<and> ts_time (tss ! i) = pk_T (ks ! i) \<and>
       ts_offset (tss ! i) = (?d + length (concat (map pk_buffer (take i ks))) - 0) div item_size H"
      using Cons.IH [of "count - ?a" 0 ?d] Cons.prems(1,2) False bound hd by auto
    have first: "tss ! 0 = \<lparr>ts_time = pk_T (ks ! 0), ts_offset = ?d div item_size H, ts_synthetic = False\<rparr>"
      using IH(1) ne by (cases ks) (auto simp: getTimestamp_simps(1) Let_def outcome_simps split: if_splits)
    have m: "BIS_mergePacketData H (k # ks) po off count =
        Returned (ts # tss, take count (drop po (concat (map pk_buffer (k # ks)))))"
      using ts IH(1) False po by (simp add: Let_def min_absorb1 take_append)
    have "\<not> ts_synthetic ((ts # tss) ! i) \<and> ts_time ((ts # tss) ! i) = pk_T ((k # ks) ! i) \<and>
       ts_offset ((ts # tss) ! i) =
         (off + length (concat (map pk_buffer (take i (k # ks)))) - po) div item_size H"
      if "0 < i" "i < length (ts # tss)" for i
    proof (cases "i = 1")
      case True
      then show ?thesis using first po by simp
    next
      case False
      define j where "j = i - 1"
      then have j: "i = Suc j" "0 < j" using that(1) False by auto
      then show ?thesis using IH(5) [rule_format, of j] that(2) po by (simp add: add.assoc)
    qed
    then show ?thesis using m ts(2) IH(3) by (intro exI [of _ "ts # tss"]) simp
  qed
qed simp

lemma getSriChangeFlags_frame:
  "InputStream_getSriChangeFlags k st = (flags, st') \<Longrightarrow> st' = st\<lparr>is_newstream := False\<rparr> \<or> st' = st"
  by (auto simp: InputStream_getSriChangeFlags_def split: if_splits)

lemma foldl_addTimestamp:
  "foldl (\<lambda>b ts. DataBlock_addTimestamp ts b) b tss = b\<lparr>db_timestamps := db_timestamps b @ tss\<rparr>"
  by (induction tss arbitrary: b) (simp_all add: DataBlock_addTimestamp_def)

text \<open>What a read reports: the block that starts at the read pointer.\<close>

definition block_ok :: "nat \<Rightarrow> 'a istream \<Rightarrow> 'a dataBlock \<Rightarrow> bool" where
  "block_ok count st b \<longleftrightarrow>
     db_sri b = pk_SRI (hd (is_queue st)) \<and> db_inputQueueFlushed b = pk_flushed (hd (is_queue st)) \<and>
     db_data b = take count (drop (is_sampleOffset st) (bis_data st)) \<and>
     db_timestamps b \<noteq> [] \<and> length (db_timestamps b) \<le> length (is_queue st) \<and>
     ts_offset (hd (db_timestamps b)) = 0 \<and>
     (\<forall>i. 0 < i \<longrightarrow> i < length (db_timestamps b) \<longrightarrow>
        \<not> ts_synthetic (db_timestamps b ! i) \<and>
        ts_time (db_timestamps b ! i) = pk_T (is_queue st ! i) \<and>
        ts_offset (db_timestamps b ! i) =
          (length (concat (map pk_buffer (take i (is_queue st)))) - is_sampleOffset st) div
            item_size (db_sri b))"

lemma read_stamps:
  assumes "bis_ok st" "is_queue st = front # rest" "count \<le> is_samplesQueued st"
    "timed st"
  shows "\<exists>tss. (if is_sampleOffset st + count \<le> length (pk_buffer front)
          then omap (\<lambda>ts. ([ts], take count (drop (is_sampleOffset st) (pk_buffer front))))
                 (BIS_getTimestamp (pk_SRI front) (is_sampleOffset st) 0 (pk_T front))
          else BIS_mergePacketData (pk_SRI front) (front # rest) (is_sampleOffset st) 0 count) =
      Returned (tss, take count (drop (is_sampleOffset st) (bis_data st))) \<and>
    tss \<noteq> [] \<and> length tss \<le> length (is_queue st) \<and> ts_offset (hd tss) = 0 \<and>
    (\<forall>i. 0 < i \<longrightarrow> i < length tss \<longrightarrow> \<not> ts_synthetic (tss ! i) \<and>
       ts_time (tss ! i) = pk_T (is_queue st ! i) \<and>
       ts_offset (tss ! i) = (length (concat (map pk_buffer (take i (is_queue st)))) -
         is_sampleOffset st) div item_size (pk_SRI front))"
proof (cases "is_sampleOffset st + count \<le> length (pk_buffer front)")
  case True
  obtain ts where "BIS_getTimestamp (pk_SRI front) (is_sampleOffset st) 0 (pk_T front) = Returned ts"
      "ts_offset ts = 0"
    using getTimestamp_simps(2) [of "pk_T front" "pk_SRI front" "is_sampleOffset st" 0] assms(2,4)
    by (auto simp: timed_def)
  then show ?thesis using True assms(2) by (auto simp: bis_data_def)
next
  case False
  have f: "\<forall>k \<in> set (front # rest). pk_buffer k \<noteq> []" "is_sampleOffset st < length (pk_buffer front)"
      "count + is_sampleOffset st \<le> length (concat (map pk_buffer (front # rest)))"
      "\<forall>k \<in> set (front # rest). pk_T k \<noteq> None"
    using assms by (auto simp: bis_ok_def bis_data_def timed_def)
  have "0 < count" using False f(2) by linarith
  then show ?thesis
    using mergePacketData_ok [OF f(4,1) _ f(3), of "pk_SRI front" 0] f(2) False assms(2)
    by (auto simp: bis_data_def)
qed

lemma readData_ok:
  assumes "bis_ok st" "is_queue st \<noteq> []" "count \<le> is_samplesQueued st"
    "consume \<le> is_samplesQueued st" "timed st"
  shows "\<exists>b st'. BIS_readData count consume st = Returned (b, st') \<and> block_ok count st b \<and>
    bis_ok st' \<and> bis_samples st' = drop consume (bis_samples st) \<and>
    is_streamID st' = is_streamID st \<and> is_enabled st' = is_enabled st \<and> timed st'"
proof -
  obtain front rest where q: "is_queue st = front # rest" using assms(2) by (cases "is_queue st") auto
  obtain tss where tss: "(if is_sampleOffset st + count \<le> length (pk_buffer front)
          then omap (\<lambda>ts. ([ts], take count (drop (is_sampleOffset st) (pk_buffer front))))
                 (BIS_getTimestamp (pk_SRI front) (is_sampleOffset st) 0 (pk_T front))
          else BIS_mergePacketData (pk_SRI front) (front # rest) (is_sampleOffset st) 0 count) =
      Returned (tss, take count (drop (is_sampleOffset st) (bis_data st)))"
    "tss \<noteq> [] \<and> length tss \<le> length (is_queue st) \<and> ts_offset (hd tss) = 0 \<and>
    (\<forall>i. 0 < i \<longrightarrow> i < length tss \<longrightarrow> \<not> ts_synthetic (tss ! i) \<and>
       ts_time (tss ! i) = pk_T (is_queue st ! i) \<and>
       ts_offset (tss ! i) = (length (concat (map pk_buffer (take i (is_queue st)))) -
         is_sampleOffset st) div item_size (pk_SRI front))"
    using read_stamps [OF assms(1) q assms(3,5)] by blast
  obtain flags st1 where fl: "InputStream_getSriChangeFlags front st = (flags, st1)" by fastforce
  define st2 where "st2 = (if pk_sriChanged front then st1\<lparr>is_sri := pk_SRI front\<rparr> else st1)
    \<lparr>is_queue := front\<lparr>pk_sriChanged := False, pk_flushed := False\<rparr> # rest\<rparr>"
  have sid: "streamID (pk_SRI front) = is_streamID st"
    using assms(1) q by (auto simp: bis_ok_def bis_mine_def pk_streamID_def)
  have st1: "st1 = st\<lparr>is_newstream := False\<rparr> \<or> st1 = st" using getSriChangeFlags_frame [OF fl] .
  have keep: "is_streamID st2 = is_streamID st" "is_enabled st2 = is_enabled st"
    using st1 sid by (auto simp: st2_def is_streamID_def)
  have d: "bis_data st2 = bis_data st" "is_sampleOffset st2 = is_sampleOffset st"
      "is_samplesQueued st2 = is_samplesQueued st" "is_pending st2 = is_pending st"
      "is_eosState st2 = is_eosState st"
    using st1 q by (auto simp: st2_def bis_data_def)
  have "bis_mine st2" "bis_eos_ok st2"
    using assms(1) st1 q sid
    by (auto simp: st2_def bis_ok_def bis_mine_def bis_eos_ok_def is_streamID_def d pk_streamID_def
        split: eos_state.splits option.splits)
  moreover have "is_queue st2 = front\<lparr>pk_sriChanged := False, pk_flushed := False\<rparr> # rest"
    by (simp add: st2_def)
  ultimately have ok2: "bis_ok st2" using assms(1) q by (auto simp: bis_ok_def d)
  have t2: "timed st2" using assms(5) st1 q by (auto simp: timed_def st2_def)
  have s2: "bis_samples st2 = bis_samples st" by (simp add: bis_samples_def d)
  obtain st' where st': "BIS_consumeData consume st2 = Returned st'" "bis_ok st'"
      "bis_samples st' = drop consume (bis_samples st2)"
    using consumeData_ok [OF ok2, of consume] assms(4) d by auto
  have "BIS_readData count consume st = Returned
      ((DataBlock_init (pk_SRI front) (take count (drop (is_sampleOffset st) (bis_data st))) flags
         (pk_flushed front))\<lparr>db_timestamps := tss\<rparr>, st')"
    unfolding BIS_readData_def q list.case tss(1) obind.simps prod.case fl Let_def foldl_addTimestamp
    using st'(1) by (simp add: st2_def DataBlock_init_def)
  then show ?thesis
    using st' s2 tss(2) q consumeData_frame [OF st'(1)] keep consumeData_timed [OF st'(1) t2]
    by (auto simp: block_ok_def DataBlock_init_def is_streamID_def)
qed

text \<open>The part of \<open>_read\<close> after its loop, with the sizes in scalars.\<close>

definition read_tail ::
    "('a, 'p) port_api \<Rightarrow> nat \<Rightarrow> nat \<Rightarrow> bool \<Rightarrow> ('a, 'p) sstate \<Rightarrow>
     ('a dataBlock option \<times> ('a, 'p) sstate) outcome" where
  "read_tail api count consume wait = (\<lambda>(st, p).
     if is_samplesQueued st = 0
     then Returned (None, InputStream_reportIfEosReached api (st, p))
     else
       let samples = min count (is_samplesQueued st);
           short = samples < count
       in if short \<and> \<not> wait \<and> is_pending st = None \<and> is_eosState st = EOS_NONE
          then Returned (None, st, p)
          else
            let consume = (if short \<and> consume \<noteq> 0 then samples else consume);
                samples = min count (is_samplesQueued st)
            in omap (\<lambda>(block, st). (Some block, st, p)) (BIS_readData samples consume st))"

definition same_front :: "'a istream \<Rightarrow> 'a istream \<Rightarrow> bool" where
  "same_front st st' \<longleftrightarrow> (is_queue st \<noteq> [] \<longrightarrow>
     is_queue st' \<noteq> [] \<and> pk_SRI (hd (is_queue st')) = pk_SRI (hd (is_queue st)))"

lemma same_front_refl [simp]: "same_front st st"
  by (simp add: same_front_def)

lemma same_front_trans: "same_front a b \<Longrightarrow> same_front b c \<Longrightarrow> same_front a c"
  by (auto simp: same_front_def)

lemma queuePacket_front:
  assumes "BIS_queuePacket k st = (got, st')"
  shows "same_front st st'"
proof (cases "is_queue st" rule: rev_cases)
  case (snoc xs x)
  then show ?thesis using assms by (cases xs) (auto simp: BIS_queuePacket_def same_front_def split: if_splits)
qed (simp add: same_front_def)

lemma fetchPacket_front:
  "BIS_fetchPacket api wait (st, p) = Returned (got, st', p') \<Longrightarrow> same_front st st'"
proof -
  assume a: "BIS_fetchPacket api wait (st, p) = Returned (got, st', p')"
  have n: "InputStream_fetchNextPacket api wait (st, p) = Returned (r, st1, p1) \<Longrightarrow>
      is_queue st1 = is_queue st" for r st1 p1
    by (auto simp: InputStream_fetchNextPacket_def outcome_simps split: if_splits option.splits)
  show ?thesis
  proof (cases "is_pending st")
    case None
    obtain r st1 p1 where f: "InputStream_fetchNextPacket api wait (st, p) = Returned (r, st1, p1)"
      "(case r of None \<Rightarrow> (False, st1, p1)
         | Some k \<Rightarrow> if is_queue st1 = [] \<or> canBridge k
           then (let (got, st) = BIS_queuePacket k st1 in (got, st, p1))
           else (False, st1\<lparr>is_pending := Some k\<rparr>, p1)) = (got, st', p')"
      using a None by (auto simp: BIS_fetchPacket_def omap_Returned_iff)
    have "same_front st1 st'"
      using f(2) queuePacket_front [of "the r" st1]
      by (cases r; cases "BIS_queuePacket (the r) st1") (auto simp: same_front_def split: if_splits)
    then show ?thesis using n [OF f(1)] by (simp add: same_front_def)
  qed (use a in \<open>simp add: BIS_fetchPacket_def\<close>)
qed

lemma fetchPacket_unreported:
  assumes "BIS_fetchPacket api wait (st, p) = Returned (got, st', p')" "is_eosState st' = EOS_REPORTED"
  shows "is_eosState st = EOS_REPORTED"
proof (cases "is_pending st")
  case None
  have n: "InputStream_fetchNextPacket api wait (st, p) = Returned (r, st1, p1) \<Longrightarrow>
      is_eosState st1 = is_eosState st \<or> is_eosState st1 = EOS_RECEIVED" for r st1 p1
    by (auto simp: InputStream_fetchNextPacket_def outcome_simps split: if_splits option.splits)
  have q: "is_eosState (snd (BIS_queuePacket k st1)) = is_eosState st1 \<or>
      is_eosState (snd (BIS_queuePacket k st1)) = EOS_REACHED" for k and st1 :: "'a istream"
    by (simp add: BIS_queuePacket_def)
  obtain r st1 p1 where f: "InputStream_fetchNextPacket api wait (st, p) = Returned (r, st1, p1)"
      "(case r of None \<Rightarrow> (False, st1, p1)
         | Some k \<Rightarrow> if is_queue st1 = [] \<or> canBridge k
           then (let (got, st) = BIS_queuePacket k st1 in (got, st, p1))
           else (False, st1\<lparr>is_pending := Some k\<rparr>, p1)) = (got, st', p')"
    using assms(1) None by (auto simp: BIS_fetchPacket_def omap_Returned_iff)
  have "is_eosState st' = is_eosState st1 \<or> is_eosState st' = EOS_REACHED"
    using f(2) q [of "the r" st1]
    by (cases r; cases "BIS_queuePacket (the r) st1") (auto split: if_splits)
  then show ?thesis using n [OF f(1)] assms(2) by auto
qed (use assms in \<open>simp add: BIS_fetchPacket_def\<close>)

section \<open>Reading from a port\<close>

definition extends :: "'a list \<Rightarrow> 'a list \<Rightarrow> bool" where
  "extends xs ys \<longleftrightarrow> (\<exists>arrived. ys = xs @ arrived)"

lemma extends_refl [simp]: "extends xs xs"
  by (simp add: extends_def)

lemma extends_trans: "extends xs ys \<Longrightarrow> extends ys zs \<Longrightarrow> extends xs zs"
  by (auto simp: extends_def)

text \<open>
  The block a read returns for \<open>n\<close> samples of which \<open>c\<close> are to be consumed, in scalars, from
  the samples \<open>xs\<close> that were there, and the samples \<open>ys\<close> that remain.
\<close>

definition delivers :: "nat \<Rightarrow> nat \<Rightarrow> 'a list \<Rightarrow> 'a dataBlock \<Rightarrow> 'a list \<Rightarrow> bool" where
  "delivers n c xs b ys \<longleftrightarrow>
     (let item = item_size (db_sri b); len = length (db_data b)
      in db_data b = take len xs \<and> db_timestamps b \<noteq> [] \<and> ts_offset (hd (db_timestamps b)) = 0 \<and>
         ((len = n * item \<and> ys = drop (c * item) xs) \<or>
          (0 < len \<and> len < n * item \<and> ys = drop (if c = 0 then 0 else len) xs)))"

text \<open>
  What the stream relies on: packets come in order, they belong to the stream, carry a time and
  are not empty unless they end it; the conversion of the data keeps its length.
\<close>

locale stream_port = packet_source "api_next api" view orderly stopped
  for api :: "('a, 'p) port_api" and view :: "string \<Rightarrow> 'p \<Rightarrow> 'a packet list"
    and orderly :: "'p \<Rightarrow> bool" and stopped :: "'p \<Rightarrow> bool" +
  assumes good_packet: "orderly p \<Longrightarrow> sid \<noteq> '''' \<Longrightarrow> api_next api wait sid p = Returned (Some k, p') \<Longrightarrow>
      packet_ok k \<and> pk_T k \<noteq> None \<and> pk_streamID k = sid"
    and no_error: "orderly p \<Longrightarrow> sid \<noteq> '''' \<Longrightarrow> api_next api wait sid p \<noteq> Raised e"
    and reformat_length: "length (api_reformat api d) = length d"
    and remove_view: "view sid (api_remove api sid' p) = view sid p"
    and remove_orderly: "orderly p \<Longrightarrow> orderly (api_remove api sid' p)"
begin

definition port_samples :: "string \<Rightarrow> 'p \<Rightarrow> 'a list" where
  "port_samples sid p = concat (map (\<lambda>k. api_reformat api (pk_buffer k)) (view sid p))"

text \<open>Everything of the stream that has arrived and was not consumed, in order.\<close>

definition unread :: "('a, 'p) sstate \<Rightarrow> 'a list" where
  "unread s = bis_samples (fst s) @ port_samples (is_streamID (fst s)) (snd s)"

definition ready :: "('a, 'p) sstate \<Rightarrow> bool" where
  "ready s \<longleftrightarrow> bis_ok (fst s) \<and> timed (fst s) \<and> orderly (snd s) \<and> is_streamID (fst s) \<noteq> ''''"

lemma reformat_Nil_iff [simp]: "api_reformat api d = [] \<longleftrightarrow> d = []"
  using reformat_length [of d] by auto

lemma fetchNext_ok:
  assumes "ready (st, p)" "InputStream_fetchNextPacket api wait (st, p) = Returned (r, st', p')"
  shows "(r = None \<and> st' = st \<and> orderly p' \<and> extends (port_samples (is_streamID st) p) (port_samples (is_streamID st) p')) \<or>
    (\<exists>k. r = Some k \<and> is_eosState st = EOS_NONE \<and> is_enabled st \<and>
       st' = (if pk_EOS k then st\<lparr>is_eosState := EOS_RECEIVED\<rparr> else st) \<and>
       packet_ok k \<and> pk_T k \<noteq> None \<and> pk_streamID k = is_streamID st \<and> orderly p' \<and>
       extends (port_samples (is_streamID st) p) (pk_buffer k @ port_samples (is_streamID st) p'))"
proof (cases "is_enabled st \<and> is_eosState st = EOS_NONE")
  case False
  then show ?thesis
    using assms by (auto simp: InputStream_fetchNextPacket_def ready_def split: if_splits)
next
  case True
  let ?sid = "is_streamID st"
  obtain r0 where n: "api_next api wait ?sid p = Returned (r0, p')"
      "(r, st') = (case r0 of None \<Rightarrow> (None, st)
         | Some k \<Rightarrow> (Some (k\<lparr>pk_buffer := api_reformat api (pk_buffer k)\<rparr>),
                   if pk_EOS k then st\<lparr>is_eosState := EOS_RECEIVED\<rparr> else st))"
    using True assms(2)
    by (auto simp: InputStream_fetchNextPacket_def outcome_simps split: option.splits) 
  have o: "orderly p" "?sid \<noteq> ''''" using assms(1) by (simp_all add: ready_def)
  obtain arrived where arr: "view ?sid p @ arrived = packets_of r0 @ view ?sid p'"
    using fifo [OF o n(1)] by blast
  have ext: "extends (port_samples ?sid p)
      (concat (map (\<lambda>k. api_reformat api (pk_buffer k)) (packets_of r0)) @ port_samples ?sid p')"
    unfolding port_samples_def extends_def
    by (metis (no_types, lifting) arr concat_append map_append)
  show ?thesis
  proof (cases r0)
    case None
    then show ?thesis using n(2) ext keeps_order [OF o n(1)] by simp
  next
    case (Some k)
    then show ?thesis
      using n(2) ext keeps_order [OF o n(1)] good_packet [OF o n(1) [unfolded Some]] True
      by (auto simp: packet_ok_def pk_streamID_def)
  qed
qed

lemma append_packet_ok:
  assumes "bis_ok st" "is_eosState st = EOS_NONE" "is_pending st = None" "pk_buffer k \<noteq> []"
    "pk_streamID k = is_streamID st" "is_queue st = [] \<or> canBridge k"
  defines "st' \<equiv> st\<lparr>is_eosState := (if pk_EOS k then EOS_RECEIVED else EOS_NONE),
     is_samplesQueued := is_samplesQueued st + length (pk_buffer k), is_queue := is_queue st @ [k]\<rparr>"
  shows "bis_ok st' \<and> bis_samples st' = bis_samples st @ pk_buffer k"
proof
  have data: "bis_data st' = bis_data st @ pk_buffer k" by (simp add: st'_def bis_data_def)
  have off: "is_sampleOffset st \<le> length (bis_data st)" using assms(1) by (simp add: bis_ok_def)
  then show "bis_samples st' = bis_samples st @ pk_buffer k"
    using assms(3) by (simp add: bis_samples_def data) (simp add: st'_def)
  have "bis_mine st'"
    using assms(1,3,5) by (auto simp: st'_def bis_ok_def bis_mine_def is_streamID_def)
  moreover have "bis_eos_ok st'"
    using assms(1-3) by (auto simp: st'_def bis_ok_def bis_eos_ok_def)
  moreover have "\<forall>k \<in> set (is_queue st). \<not> pk_EOS k"
    using assms(1,2) by (simp add: bis_ok_def bis_eos_ok_def)
  moreover have "case is_queue st' of [] \<Rightarrow> False | front # rest \<Rightarrow>
      is_sampleOffset st' < length (pk_buffer front) \<and> (\<forall>k \<in> set rest. canBridge k)"
    using assms(1,4,6) by (cases "is_queue st") (auto simp: st'_def bis_ok_def)
  ultimately show "bis_ok st'"
    using assms(1,3,4) data
    by (cases "is_queue st") (auto simp: bis_ok_def st'_def)
qed

lemma mark_eos_ok:
  assumes "bis_ok st" "is_eosState st = EOS_NONE" "is_pending st = None" "is_queue st = xs @ [x]"
  defines "st' \<equiv> st\<lparr>is_eosState := EOS_RECEIVED, is_queue := xs @ [x\<lparr>pk_EOS := True\<rparr>]\<rparr>"
  shows "bis_ok st' \<and> bis_samples st' = bis_samples st"
proof
  have data: "bis_data st' = bis_data st" using assms(4) by (simp add: st'_def bis_data_def)
  then show "bis_samples st' = bis_samples st"
    by (simp add: bis_samples_def st'_def cong: option.case_cong)
  have "bis_mine st'" "bis_eos_ok st'"
    using assms(1-4) by (auto simp: st'_def bis_ok_def bis_mine_def is_streamID_def bis_eos_ok_def)
  moreover have "\<forall>k \<in> set xs. \<not> pk_EOS k"
    using assms(1,2,4) by (simp add: bis_ok_def bis_eos_ok_def)
  ultimately show "bis_ok st'"
    using assms(1,3,4) data by (cases xs) (auto simp: bis_ok_def st'_def canBridge_def)
qed

lemma queuePacket_ok:
  assumes "bis_ok st" "timed st" "is_eosState st = EOS_NONE" "is_pending st = None"
    "packet_ok k" "pk_T k \<noteq> None" "pk_streamID k = is_streamID st"
    "is_queue st = [] \<or> canBridge k"
    "BIS_queuePacket k (if pk_EOS k then st\<lparr>is_eosState := EOS_RECEIVED\<rparr> else st) = (got, st')"
  shows "bis_ok st' \<and> timed st' \<and> bis_samples st' = bis_samples st @ pk_buffer k \<and>
    is_streamID st' = is_streamID st \<and> is_enabled st' = is_enabled st \<and> is_pending st' = None \<and>
    (if got then is_samplesQueued st < is_samplesQueued st' else is_samplesQueued st' = is_samplesQueued st)"
proof (cases "pk_EOS k \<and> pk_buffer k = []")
  case fin: True
  show ?thesis
  proof (cases "is_queue st" rule: rev_cases)
    case Nil
    then show ?thesis
      using assms fin
      by (auto simp: BIS_queuePacket_def bis_ok_def bis_samples_def bis_data_def bis_mine_def
          bis_eos_ok_def timed_def is_streamID_def)
  next
    case (snoc xs x)
    then show ?thesis
      using mark_eos_ok [OF assms(1,3,4) snoc] assms(2,4,9) fin
      by (auto simp: BIS_queuePacket_def timed_def is_streamID_def)
  qed
next
  case data: False
  then have d: "pk_buffer k \<noteq> []" using assms(5) by (auto simp: packet_ok_def)
  have "(got, st') = (True, st\<lparr>is_eosState := (if pk_EOS k then EOS_RECEIVED else EOS_NONE),
     is_samplesQueued := is_samplesQueued st + length (pk_buffer k), is_queue := is_queue st @ [k]\<rparr>)"
    using assms(3,9) data by (cases "pk_EOS k") (auto simp: BIS_queuePacket_def)
  then show ?thesis
    using append_packet_ok [OF assms(1,3,4) d assms(7,8)] assms(2,4,6) d
    by (auto simp: timed_def is_streamID_def)
qed

lemma fetchPacket_ok:
  assumes "ready (st, p)" "BIS_fetchPacket api wait (st, p) = Returned (got, st', p')"
  shows "ready (st', p') \<and> is_streamID st' = is_streamID st \<and> is_enabled st' = is_enabled st \<and>
    extends (unread (st, p)) (unread (st', p')) \<and>
    (if got then is_samplesQueued st < is_samplesQueued st' \<and> is_pending st' = None
     else is_samplesQueued st' = is_samplesQueued st)"
proof (cases "is_pending st")
  case (Some k)
  then show ?thesis using assms by (auto simp: BIS_fetchPacket_def)
next
  case None
  have ok: "bis_ok st" "timed st" "is_streamID st \<noteq> ''''" using assms(1) by (simp_all add: ready_def)
  obtain r st1 where f: "InputStream_fetchNextPacket api wait (st, p) = Returned (r, st1, p')"
      "(got, st') = (case r of None \<Rightarrow> (False, st1) | Some k \<Rightarrow>
         if is_queue st1 = [] \<or> canBridge k then BIS_queuePacket k st1
         else (False, st1\<lparr>is_pending := Some k\<rparr>))"
  proof -
    obtain x where x: "InputStream_fetchNextPacket api wait (st, p) = Returned x"
      "(case x of (packet, st, p) \<Rightarrow> (case packet of None \<Rightarrow> (False, st, p)
         | Some k \<Rightarrow> if is_queue st = [] \<or> canBridge k
           then (let (got, st) = BIS_queuePacket k st in (got, st, p))
           else (False, st\<lparr>is_pending := Some k\<rparr>, p))) = (got, st', p')"
      using assms(2) None by (auto simp: BIS_fetchPacket_def omap_Returned_iff)
    obtain r st1 p1 where xs: "x = (r, st1, p1)" by (metis prod_cases3)
    have "p1 = p' \<and> (got, st') = (case r of None \<Rightarrow> (False, st1) | Some k \<Rightarrow>
         if is_queue st1 = [] \<or> canBridge k then BIS_queuePacket k st1
         else (False, st1\<lparr>is_pending := Some k\<rparr>))"
      using x(2) xs
      by (cases r; cases "BIS_queuePacket (the r) st1") (auto split: if_splits)
    then show thesis using that x(1) xs by blast
  qed
  from fetchNext_ok [OF assms(1) f(1)] show ?thesis
  proof (elim disjE exE conjE)
    assume "r = None" "st1 = st" "orderly p'"
      "extends (port_samples (is_streamID st) p) (port_samples (is_streamID st) p')"
    then show ?thesis using f(2) ok by (auto simp: ready_def unread_def extends_def)
  next
    fix k
    assume k: "r = Some k" "is_eosState st = EOS_NONE"
      "st1 = (if pk_EOS k then st\<lparr>is_eosState := EOS_RECEIVED\<rparr> else st)"
      "packet_ok k" "pk_T k \<noteq> None" "pk_streamID k = is_streamID st" "orderly p'"
      and ext: "extends (port_samples (is_streamID st) p) (pk_buffer k @ port_samples (is_streamID st) p')"
    have q1: "is_queue st1 = is_queue st" by (simp add: k(3))
    have ext': "extends (unread (st, p)) (bis_samples st @ pk_buffer k @ port_samples (is_streamID st) p')"
      using ext by (auto simp: unread_def extends_def)
    show ?thesis
    proof (cases "is_queue st = [] \<or> canBridge k")
      case True
      then have "BIS_queuePacket k (if pk_EOS k then st\<lparr>is_eosState := EOS_RECEIVED\<rparr> else st) = (got, st')"
        using f(2) k(1,3) q1 by simp
      from queuePacket_ok [OF ok(1,2) k(2) None k(4,5,6) True this]
      show ?thesis using ext' k(7) ok(3) by (auto simp: ready_def unread_def)
    next
      case False
      then have st': "got = False" "st' = st\<lparr>is_eosState := (if pk_EOS k then EOS_RECEIVED else EOS_NONE),
          is_pending := Some k\<rparr>"
        using f(2) k(1,2,3) q1 by auto
      have "bis_eos_ok st'" "bis_mine st'"
        using ok(1) k(2,6) None False
        by (auto simp: st' bis_ok_def bis_eos_ok_def bis_mine_def is_streamID_def)
      then have "bis_ok st'"
        using ok(1) k(4) None False
        by (cases "is_queue st") (auto simp: st' bis_ok_def bis_data_def)
      moreover have "bis_samples st' = bis_samples st @ pk_buffer k"
        using None by (simp add: st' bis_samples_def bis_data_def)
      moreover have "timed st'" using ok(2) k(5) by (auto simp: st' timed_def)
      moreover have "is_streamID st' = is_streamID st" by (simp add: st' is_streamID_def)
      ultimately show ?thesis using ext' k(7) ok(3) st' by (auto simp: ready_def unread_def)
    qed
  qed
qed

lemma fetchPacket_no_error: "ready s \<Longrightarrow> BIS_fetchPacket api wait s \<noteq> Raised e"
  by (cases s) (auto simp: BIS_fetchPacket_def InputStream_fetchNextPacket_def ready_def no_error
      elim!: omap.elims)

text \<open>The loop ends: every turn queues at least one sample.\<close>

lemma fill_ok:
  assumes "ready s"
  shows "\<exists>r. BIS_fill api wait n s = Some r \<and>
    (r = Blocked \<or> (\<exists>s'. r = Returned s' \<and> ready s' \<and>
      is_streamID (fst s') = is_streamID (fst s) \<and> is_enabled (fst s') = is_enabled (fst s) \<and>
      extends (unread s) (unread s') \<and> is_samplesQueued (fst s) \<le> is_samplesQueued (fst s') \<and>
      same_front (fst s) (fst s')))"
  using assms
proof (induction "n - is_samplesQueued (fst s)" arbitrary: s rule: less_induct)
  case less
  show ?case
  proof (cases "is_samplesQueued (fst s) < n")
    case False
    then show ?thesis using less.prems by (cases s) (simp add: BIS_fill.simps)
  next
    case True
    show ?thesis
    proof (cases "BIS_fetchPacket api wait s")
      case (Returned x)
      obtain got st' p' where x: "x = (got, st', p')" by (metis prod_cases3)
      obtain st p where s: "s = (st, p)" by (metis surj_pair)
      note f = fetchPacket_ok [of st p wait got st' p'] 
      have f': "ready (st', p')" "is_streamID st' = is_streamID st" "is_enabled st' = is_enabled st"
        "extends (unread s) (unread (st', p'))"
        "if got then is_samplesQueued st < is_samplesQueued st' \<and> is_pending st' = None
         else is_samplesQueued st' = is_samplesQueued st" "same_front st st'"
        using f fetchPacket_front [of api wait st p got st' p'] less.prems Returned by (auto simp: s x)
      show ?thesis
      proof (cases got)
        case False
        then show ?thesis using True Returned f' by (subst BIS_fill.simps) (simp add: x s)
      next
        case got: True
        then have "n - is_samplesQueued (fst (st', p')) < n - is_samplesQueued (fst s)"
          using True f'(5) by (auto simp: s intro: diff_less_mono2)
        from less.hyps [OF this f'(1)] show ?thesis
          using True Returned f' got extends_trans [OF f'(4)] same_front_trans [OF f'(6)]
          by (subst BIS_fill.simps) (auto simp: x s)
      qed
    qed (use fetchPacket_no_error [OF less.prems] True in \<open>subst BIS_fill.simps, auto\<close>)+
  qed
qed

lemma nextSRI_ok:
  assumes "ready s"
  shows "BIS_nextSRI api wait s \<noteq> Raised e"
    and "BIS_nextSRI api wait s = Returned (r, s') \<Longrightarrow> ready s' \<and>
      is_streamID (fst s') = is_streamID (fst s) \<and> extends (unread s) (unread s') \<and>
      (\<forall>H. r = Some H \<longrightarrow> is_queue (fst s') \<noteq> [] \<and> H = pk_SRI (hd (is_queue (fst s'))))"
proof -
  obtain st p where s: "s = (st, p)" by (metis surj_pair)
  have got: "is_queue st' \<noteq> []" if "BIS_fetchPacket api wait s = Returned (True, st', p')" for st' p'
  proof -
    have "ready (st', p')" "0 < is_samplesQueued st'"
      using fetchPacket_ok [of st p wait True st' p'] that assms by (auto simp: s)
    then show ?thesis using bis_ok_queued [of st'] by (auto simp: ready_def)
  qed
  show "BIS_nextSRI api wait s \<noteq> Raised e"
  proof (cases "BIS_fetchPacket api wait s")
    case (Returned x)
    obtain g st' p' where "x = (g, st', p')" by (metis prod_cases3)
    then show ?thesis
      using got [of st' p'] Returned by (cases g) (auto simp: BIS_nextSRI_def split: list.splits)
  qed (use fetchPacket_no_error [OF assms] in \<open>auto simp: BIS_nextSRI_def\<close>)
  show "ready s' \<and> is_streamID (fst s') = is_streamID (fst s) \<and> extends (unread s) (unread s') \<and>
      (\<forall>H. r = Some H \<longrightarrow> is_queue (fst s') \<noteq> [] \<and> H = pk_SRI (hd (is_queue (fst s'))))"
    if n: "BIS_nextSRI api wait s = Returned (r, s')"
  proof (cases "is_queue st = []")
    case False
    then show ?thesis using that assms by (auto simp: BIS_nextSRI_def s)
  next
    case True
    then obtain g st' p' where f: "BIS_fetchPacket api wait s = Returned (g, st', p')"
        "(if \<not> g then Returned (None, st', p') else case is_queue (fst (st', p')) of
               [] \<Rightarrow> Raised IndexError | k # _ \<Rightarrow> Returned (Some (pk_SRI k), st', p')) = Returned (r, s')"
      using n by (auto simp: BIS_nextSRI_def s obind_Returned_iff)
    have "ready (st', p')" "is_streamID st' = is_streamID st" "extends (unread s) (unread (st', p'))"
      using fetchPacket_ok [of st p wait g st' p'] f(1) assms by (auto simp: s)
    then show ?thesis
      using f(2) by (auto simp: s split: if_splits list.splits)
  qed
qed

lemma reportIfEosReached_ok:
  assumes "ready s"
  shows "ready (InputStream_reportIfEosReached api s) \<and>
    unread (InputStream_reportIfEosReached api s) = unread s \<and>
    is_streamID (fst (InputStream_reportIfEosReached api s)) = is_streamID (fst s)"
proof -
  obtain st p where s: "s = (st, p)" by (metis surj_pair)
  have "bis_ok (st\<lparr>is_eosState := EOS_REPORTED\<rparr>)" if "bis_ok st" "is_eosState st = EOS_REACHED"
    using that by (auto simp: bis_ok_def bis_data_def bis_mine_def bis_eos_ok_def is_streamID_def)
  then show ?thesis
    using assms
    by (auto simp: InputStream_reportIfEosReached_def s ready_def timed_def unread_def port_samples_def
        remove_view remove_orderly is_streamID_def bis_samples_def bis_data_def)
qed

lemma read_by_tail:
  assumes "BIS_nextSRI api wait s = Returned (Some H, s1)" "c \<le> n"
    "consume = None \<and> c = n \<or> consume = Some c"
  shows "BIS_read api n consume wait s =
    map_option (\<lambda>r. obind r (read_tail api (n * item_size H) (c * item_size H) wait))
      (BIS_fill api wait (n * item_size H) s1)"
proof -
  have eq: "(case consume of None \<Rightarrow> n | Some c \<Rightarrow> c) = c" using assms(3) by auto
  have it: "(if mode H \<noteq> 0 then k * 2 else k) = k * item_size H" for k by (simp add: item_size_def)
  have m: "max (n * item_size H) (c * item_size H) = n * item_size H"
    using assms(2) by (intro max_absorb1 mult_le_mono1)
  show ?thesis
    unfolding BIS_read_def assms(1) eq Let_def outcome.case prod.case option.case it m read_tail_def
    by (rule refl)
qed

lemma read_tail_ok:
  assumes "ready s" "is_queue (fst s) \<noteq> []" "pk_SRI (hd (is_queue (fst s))) = H" "c \<le> n"
  shows "\<exists>blk s'. read_tail api (n * item_size H) (c * item_size H) wait s = Returned (blk, s') \<and>
    ready s' \<and> is_streamID (fst s') = is_streamID (fst s) \<and>
    (case blk of None \<Rightarrow> unread s' = unread s | Some b \<Rightarrow> delivers n c (unread s) b (unread s'))"
proof -
  obtain st p where s: "s = (st, p)" by (metis surj_pair)
  have ok: "bis_ok st" "timed st" "is_queue st \<noteq> []" using assms(1,2) by (auto simp: ready_def s)
  let ?q = "is_samplesQueued st" and ?N = "n * item_size H" and ?C = "c * item_size H"
  have q: "?q \<noteq> 0" using bis_ok_queued [OF ok(1)] ok(3) by simp
  have item: "0 < item_size H" by simp
  have CN: "?C \<le> ?N" using assms(4) by simp
  define use where "use = (if ?q < ?N \<and> ?C \<noteq> 0 then ?q else ?C)"
  have use: "use \<le> ?q"
  proof -
    consider "?C = 0" | "?q < ?N" "?C \<noteq> 0" | "?N \<le> ?q" by linarith
    then show ?thesis
    proof cases
      case 3
      then have "use = ?C" by (simp add: use_def)
      then show ?thesis using CN 3 by linarith
    qed (auto simp: use_def)
  qed
  show ?thesis
  proof (cases "?q < ?N \<and> \<not> wait \<and> is_pending st = None \<and> is_eosState st = EOS_NONE")
    case True
    then show ?thesis
      using q assms(1) by (intro exI [of _ None] exI [of _ s]) (auto simp: read_tail_def s)
  next
    case False
    obtain b st' where r: "BIS_readData (min ?N ?q) use st = Returned (b, st')" "block_ok (min ?N ?q) st b"
        "bis_ok st'" "bis_samples st' = drop use (bis_samples st)" "is_streamID st' = is_streamID st"
        "timed st'"
      using readData_ok [OF ok(1,3) _ use ok(2), of "min ?N ?q"] by auto
    have tail: "read_tail api ?N ?C wait s = Returned (Some b, st', p)"
      using False q r(1) by (auto simp: read_tail_def s use_def Let_def min_def)
    have len: "?q \<le> length (bis_samples st)" using ok(1) by (auto simp: bis_ok_def bis_samples_def)
    have data: "db_data b = take (min ?N ?q) (unread s)"
      using r(2) bis_samples_queued [OF ok(1), of "min ?N ?q"] len
      by (auto simp: block_ok_def unread_def s)
    then have dl: "length (db_data b) = min ?N ?q" using len by (simp add: unread_def s)
    have rest: "unread (st', p) = drop use (unread s)"
      using use len r(4,5) by (simp add: unread_def s)
    have sri: "db_sri b = H" using r(2) assms(3) by (simp add: block_ok_def s)
    have amount: "(min ?N ?q = ?N \<and> use = ?C) \<or>
        (0 < min ?N ?q \<and> min ?N ?q < ?N \<and> use = (if c = 0 then 0 else min ?N ?q))"
    proof (cases "?q < ?N")
      case True
      then have "min ?N ?q = ?q" by simp
      moreover have "use = (if c = 0 then 0 else ?q)" using True item by (simp add: use_def)
      ultimately show ?thesis using True q by presburger
    next
      case False
      then show ?thesis by (simp add: use_def)
    qed
    have head: "db_timestamps b \<noteq> []" "ts_offset (hd (db_timestamps b)) = 0"
      using r(2) by (simp_all add: block_ok_def)
    have "delivers n c (unread s) b (unread (st', p))"
      unfolding delivers_def Let_def sri dl rest
    proof (intro conjI)
      show "db_data b = take (min ?N ?q) (unread s)" by (rule data)
      from amount show "(min ?N ?q = ?N \<and> drop use (unread s) = drop ?C (unread s)) \<or>
        (0 < min ?N ?q \<and> min ?N ?q < ?N \<and>
         drop use (unread s) = drop (if c = 0 then 0 else min ?N ?q) (unread s))"
        by (rule disj_forward) (elim conjE, simp only: simp_thms)+
    qed (rule head)+
    moreover have "ready (st', p)" using assms(1) r(3,5,6) by (auto simp: ready_def s)
    ultimately show ?thesis using tail r(5) by (auto simp: s)
  qed
qed

lemma read_ok:
  assumes "ready s" "c \<le> n" "consume = None \<and> c = n \<or> consume = Some c"
  shows "\<exists>r. BIS_read api n consume wait s = Some r \<and>
    (r = Blocked \<or> (\<exists>blk s' xs. r = Returned (blk, s') \<and> ready s' \<and> extends (unread s) xs \<and>
       is_streamID (fst s') = is_streamID (fst s) \<and>
       (case blk of None \<Rightarrow> unread s' = xs | Some b \<Rightarrow> delivers n c xs b (unread s'))))"
proof (cases "BIS_nextSRI api wait s")
  case (Raised e)
  then show ?thesis using nextSRI_ok(1) [OF assms(1)] by simp
next
  case Blocked
  then show ?thesis by (simp add: BIS_read_def)
next
  case (Returned x)
  obtain r s1 where x: "x = (r, s1)" by (metis surj_pair)
  note n1 = nextSRI_ok(2) [OF assms(1) Returned [unfolded x]]
  show ?thesis
  proof (cases r)
    case None
    then show ?thesis
      using Returned x n1 reportIfEosReached_ok [of s1]
      by (cases "InputStream_reportIfEosReached api s1") (auto simp: BIS_read_def)
  next
    case (Some H)
    have H: "H = pk_SRI (hd (is_queue (fst s1)))" "is_queue (fst s1) \<noteq> []" using n1 Some by auto
    have rd: "BIS_read api n consume wait s =
        map_option (\<lambda>r. obind r (read_tail api (n * item_size H) (c * item_size H) wait))
          (BIS_fill api wait (n * item_size H) s1)"
      using read_by_tail [OF Returned [unfolded x Some] assms(2,3)] .
    obtain f where f: "BIS_fill api wait (n * item_size H) s1 = Some f"
      "f = Blocked \<or> (\<exists>s'. f = Returned s' \<and> ready s' \<and>
      is_streamID (fst s') = is_streamID (fst s1) \<and> is_enabled (fst s') = is_enabled (fst s1) \<and>
      extends (unread s1) (unread s') \<and> is_samplesQueued (fst s1) \<le> is_samplesQueued (fst s') \<and>
      same_front (fst s1) (fst s'))"
      using fill_ok [of s1 wait "n * item_size H"] n1 by blast
    show ?thesis
    proof (cases "f = Blocked")
      case True
      then show ?thesis by (simp add: rd f(1))
    next
      case False
      then obtain s2 where s2: "f = Returned s2" "ready s2" "is_streamID (fst s2) = is_streamID (fst s1)"
        "extends (unread s1) (unread s2)" "same_front (fst s1) (fst s2)"
        using f(2) by blast
      have "is_queue (fst s2) \<noteq> []" "pk_SRI (hd (is_queue (fst s2))) = H"
        using s2(5) H by (auto simp: same_front_def)
      from read_tail_ok [OF s2(2) this assms(2), of wait]
      obtain blk s' where t: "read_tail api (n * item_size H) (c * item_size H) wait s2 = Returned (blk, s')"
        "ready s'" "is_streamID (fst s') = is_streamID (fst s2)"
        "case blk of None \<Rightarrow> unread s' = unread s2 | Some b \<Rightarrow> delivers n c (unread s2) b (unread s')"
        by blast
      have "extends (unread s) (unread s2)" using n1 s2(4) extends_trans by blast
      then show ?thesis
        using t s2(1,3) n1 by (intro exI [of _ "Returned (blk, s')"]) (auto simp: rd f(1))
    qed
  qed
qed

end

end
