(* ===== verification/StreamReads.thy ===== *)
theory StreamReads
  imports InPortDelivery InputStreams
begin

text \<open>
  Input streams on an input port: the interface \<open>stream_port\<close> is provided by \<open>InPort\<close>, and the
  reads of a buffered stream keep every sample that arrived, in order.
\<close>

section \<open>The port provides the interface\<close>

definition inport_api :: "('a, 'a inport \<times> 'a waits) port_api" where
  "inport_api = \<lparr>api_next = port_next,
     api_remove = (\<lambda>sid (p, ws). (InPort_removeStream sid p, ws)),
     api_discard = (\<lambda>sid (p, ws). (InPort_discardPacketsForStream sid p, ws)),
     api_reformat = (\<lambda>data. data)\<rparr>"

definition good_data :: "'a packet \<Rightarrow> bool" where
  "good_data k \<longleftrightarrow> packet_ok k \<and> pk_T k \<noteq> None"

text \<open>
  Every packet in the queue carries a time, and data unless it ends its stream; during the waits
  of a run other threads only append packets of this kind.
\<close>

definition well_fed :: "'a inport \<times> 'a waits \<Rightarrow> bool" where
  "well_fed s \<longleftrightarrow> (\<forall>k \<in> set (ip_queue (fst s)). good_data k) \<and>
     (\<forall>(t, e) \<in> set (snd s). \<forall>p. \<exists>arrived. ip_queue (e p) = ip_queue p @ arrived \<and>
        (\<forall>k \<in> set arrived. good_data k))"

lemma well_fed_orderly: "well_fed (p, ws) \<Longrightarrow> orderly_waits ws"
  by (fastforce simp: well_fed_def orderly_waits_def)

lemma well_fed_wait:
  "well_fed (p, (t, e) # ws) \<Longrightarrow> \<forall>k \<in> set (ip_queue q). good_data k \<Longrightarrow> well_fed (e q, ws)"
proof -
  assume a: "well_fed (p, (t, e) # ws)" and q: "\<forall>k \<in> set (ip_queue q). good_data k"
  have "\<forall>p. \<exists>arrived. ip_queue (e p) = ip_queue p @ arrived \<and> (\<forall>k \<in> set arrived. good_data k)"
    using a by (simp add: well_fed_def)
  then obtain arrived where "ip_queue (e q) = ip_queue q @ arrived" "\<forall>k \<in> set arrived. good_data k"
    by blast
  then show ?thesis using a q by (simp add: well_fed_def) blast
qed

lemma next_loop_well_fed:
  assumes "well_fed (p, ws)" "sid \<noteq> ''''" "next_loop timeout to_time (Some sid) ws p = Returned (r, ws', p')"
  shows "well_fed (p', ws') \<and> (\<forall>k. r = Some k \<longrightarrow> good_data k \<and> pk_streamID k = sid)"
  using assms
proof (induction ws arbitrary: p)
  case Nil
  show ?case
  proof (cases "filter (of_stream sid) (ip_queue p)")
    case (Cons k ks)
    have "k \<in> set (filter (of_stream sid) (ip_queue p))" unfolding Cons by simp
    then have k: "k \<in> set (ip_queue p)" "pk_streamID k = sid" by simp_all
    have "r = Some k \<and> ws' = [] \<and> p' = p\<lparr>ip_queue := remove1 k (ip_queue p)\<rparr>"
      using Nil.prems(2,3) Cons by (subst (asm) next_loop.simps) (simp add: fetch_by_stream)
    then show ?thesis
      using Nil.prems(1) k set_remove1_subset [of k "ip_queue p"] by (auto simp: well_fed_def)
  qed (use Nil in \<open>subst (asm) next_loop.simps, auto simp: fetch_by_stream split: if_splits\<close>)
next
  case (Cons w ws)
  obtain t e where w: "w = (t, e)" by (metis surj_pair)
  have fed: "well_fed (p, ws)" using Cons.prems(1) by (auto simp: well_fed_def)
  have fed': "well_fed (e p, ws)"
    using Cons.prems(1) by (intro well_fed_wait [of p t e]) (auto simp: w well_fed_def)
  show ?case
  proof (cases "filter (of_stream sid) (ip_queue p)")
    case Nil
    then show ?thesis
      using Cons.prems Cons.IH [OF fed'] fed fed'
      by (subst (asm) next_loop.simps) (auto simp: fetch_by_stream w split: if_splits)
  next
    case (Cons k ks)
    have "k \<in> set (filter (of_stream sid) (ip_queue p))" unfolding Cons by simp
    then have k: "k \<in> set (ip_queue p)" "pk_streamID k = sid" by simp_all
    have "r = Some k \<and> ws' = w # ws \<and> p' = p\<lparr>ip_queue := remove1 k (ip_queue p)\<rparr>"
      using Cons.prems(2,3) Cons by (subst (asm) next_loop.simps) (simp add: fetch_by_stream)
    then show ?thesis
      using Cons.prems(1) k set_remove1_subset [of k "ip_queue p"] by (auto simp: well_fed_def)
  qed
qed

lemma well_fed_cong: "ip_queue p' = ip_queue p \<Longrightarrow> well_fed (p', ws) = well_fed (p, ws)"
  by (simp add: well_fed_def)

lemma next_loop_no_error:
  "sid \<noteq> '''' \<Longrightarrow> next_loop timeout to_time (Some sid) ws p \<noteq> Raised e"
proof (induction ws arbitrary: p)
  case Nil
  then show ?case
    by (cases "filter (of_stream sid) (ip_queue p)")
      (simp_all add: next_loop.simps [of _ _ _ "[]"] fetch_by_stream)
next
  case (Cons w ws)
  then show ?case
    by (cases "filter (of_stream sid) (ip_queue p)"; cases w)
      (simp_all add: next_loop.simps [of _ _ _ "_ # _"] fetch_by_stream)
qed

lemma port_next_well_fed:
  assumes "well_fed s" "port_next wait sid s = Returned (r, s')"
  shows "sid \<noteq> '''' \<Longrightarrow> well_fed s' \<and> (\<forall>k. r = Some k \<longrightarrow> good_data k \<and> pk_streamID k = sid)"
proof -
  assume sid: "sid \<noteq> ''''"
  obtain p ws p' ws' where s: "s = (p, ws)" "s' = (p', ws')" by (metis surj_pair)
  have "InPort_nextPacket 0 (if wait then - 1 else 0) (Some sid) ws p = Returned (r, ws', p')"
    using assms(2) by (auto simp: port_next_def s outcome_simps)
  from nextPacket_queue [OF this] show ?thesis
  proof (elim disjE conjE exE)
    fix p1
    assume n: "next_loop (if wait then - 1 else 0) (0 + (if wait then - 1 else 0)) (Some sid) ws p =
        Returned (r, ws', p1)" "ip_queue p' = ip_queue p1"
    have "well_fed (p, ws)" using assms(1) by (simp add: s)
    from next_loop_well_fed [OF this sid n(1)] show ?thesis
      by (simp add: s well_fed_cong [OF n(2)])
  qed (use assms(1) s in simp)
qed

lemma omap_Raised_iff: "omap f m = Raised e \<longleftrightarrow> m = Raised e"
  by (cases m) auto

lemma port_next_no_error: "sid \<noteq> '''' \<Longrightarrow> port_next wait sid s \<noteq> Raised e"
  by (cases s) (simp add: port_next_def InPort_nextPacket_def next_loop_no_error omap_Raised_iff)

lemma remove_queue: "fst (api_remove inport_api sid s) = InPort_removeStream sid (fst s)"
  "snd (api_remove inport_api sid s) = snd s"
  by (cases s; simp add: inport_api_def)+
interpretation reader: stream_port inport_api port_view well_fed "\<lambda>s. ip_breakBlock (fst s)"
proof unfold_locales
  fix s :: "'a inport \<times> 'a waits" and sid wait r s'
  have next_eq: "api_next inport_api = port_next" by (simp add: inport_api_def)
  have ord: "well_fed s \<Longrightarrow> orderly_waits (snd s)" for s :: "'a inport \<times> 'a waits"
    using well_fed_orderly [of "fst s" "snd s"] by simp
  show "\<exists>arrived. port_view sid s @ arrived = packets_of r @ port_view sid s'"
    if "well_fed s" "sid \<noteq> ''''" "api_next inport_api wait sid s = Returned (r, s')"
    using port.fifo [OF ord [OF that(1)] that(2)] that(3) by (simp add: next_eq)
  show "well_fed s'" if "well_fed s" "sid \<noteq> ''''" "api_next inport_api wait sid s = Returned (r, s')"
    using port_next_well_fed [OF that(1) _ that(2)] that(3) by (simp add: next_eq)
  show "k \<in> set (port_view sid s) \<Longrightarrow> pk_streamID k = sid" for k by (rule port.mine)
  show "ip_breakBlock (fst s) \<Longrightarrow> api_next inport_api wait sid s = Returned (None, s)"
    by (simp add: next_eq port.poll_stopped)
  show "\<exists>p'. api_next inport_api False sid s =
        Returned (case port_view sid s of [] \<Rightarrow> None | k # _ \<Rightarrow> Some k, p') \<and> \<not> ip_breakBlock (fst p') \<and>
        port_view sid p' = tl (port_view sid s) \<and>
        (\<forall>sid'. sid' \<noteq> sid \<longrightarrow> port_view sid' p' = port_view sid' s)"
    if "sid \<noteq> ''''" "\<not> ip_breakBlock (fst s)"
    using port.poll [OF that] by (simp add: next_eq)
  show "packet_ok k \<and> pk_T k \<noteq> None \<and> pk_streamID k = sid"
    if "well_fed s" "sid \<noteq> ''''" "api_next inport_api wait sid s = Returned (Some k, s')" for k
    using port_next_well_fed [OF that(1) _ that(2)] that(3) by (auto simp: next_eq good_data_def)
  show "api_next inport_api wait sid s \<noteq> Raised e" if "sid \<noteq> ''''" for e
    using port_next_no_error [OF that] by (simp add: next_eq)
  show "length (api_reformat inport_api d) = length d" for d :: "'a list" by (simp add: inport_api_def)
  show "port_view sid (api_remove inport_api sid' s) = port_view sid s" for sid'
    by (simp add: port_view_def remove_queue)
  show "well_fed s \<Longrightarrow> well_fed (api_remove inport_api sid s)"
    by (simp add: well_fed_def remove_queue)
qed

section \<open>Properties of reads\<close>

text \<open>All samples of the stream that have arrived and were not consumed: those in the stream
  object, then those in the port's queue.\<close>

definition stream_unread :: "'a istream \<Rightarrow> 'a inport \<Rightarrow> 'a list" where
  "stream_unread st p =
     bis_samples st @ concat (map pk_buffer (filter (of_stream (is_streamID st)) (ip_queue p)))"

lemma unread_eq: "reader.unread (st, p, ws) = stream_unread st p"
proof -
  have r: "api_reformat inport_api = (\<lambda>d :: 'a list. d)" by (simp add: inport_api_def)
  show ?thesis
    by (simp add: reader.unread_def reader.port_samples_def stream_unread_def port_view_def r)
qed

lemma ready_eq:
  "reader.ready (st, p, ws) \<longleftrightarrow> bis_ok st \<and> timed st \<and> well_fed (p, ws) \<and> is_streamID st \<noteq> ''''"
  by (simp add: reader.ready_def)

text \<open>
  C14: sized reads of a buffered stream neither lose nor duplicate samples, and always come to an end. A read of
  \<open>n\<close> samples that consumes \<open>c\<close> returns, in the stream's own order, the next \<open>n\<close> unread samples
  and advances by \<open>c\<close>; a shorter block is consumed whole (not at all when \<open>c\<close> is zero); a read
  that returns nothing leaves every sample in place. It never raises, and its loop over the
  port's packets ends, so that a call returns unless it waits for ever for data. The sizes count
  complex samples when the SRI says so.
\<close>

theorem buffered_read_delivers:
  assumes "bis_ok st" "timed st" "well_fed (p, ws)" "is_streamID st \<noteq> ''''" "c \<le> n"
  shows "\<exists>r. (if wait then BufferedInputStream_read else BufferedInputStream_tryread)
        inport_api (Some n) (Some c) (st, p, ws) = Some r \<and>
    (r = Blocked \<or> (\<exists>blk st' p' ws' xs. r = Returned (blk, st', p', ws') \<and>
       bis_ok st' \<and> timed st' \<and> well_fed (p', ws') \<and> is_streamID st' = is_streamID st \<and>
       extends (stream_unread st p) xs \<and>
       (case blk of None \<Rightarrow> stream_unread st' p' = xs
        | Some b \<Rightarrow> delivers n c xs b (stream_unread st' p'))))"
proof -
  have "reader.ready (st, p, ws)" using assms by (simp add: ready_eq)
  from reader.read_ok [OF this assms(5) disjI2 [OF refl], of wait] obtain r where
    r: "BIS_read inport_api n (Some c) wait (st, p, ws) = Some r"
    "r = Blocked \<or> (\<exists>blk s' xs. r = Returned (blk, s') \<and> reader.ready s' \<and>
       extends (reader.unread (st, p, ws)) xs \<and> is_streamID (fst s') = is_streamID (fst (st, p, ws)) \<and>
       (case blk of None \<Rightarrow> reader.unread s' = xs | Some b \<Rightarrow> delivers n c xs b (reader.unread s')))"
    by blast
  have e: "(if wait then BufferedInputStream_read else BufferedInputStream_tryread)
        inport_api (Some n) (Some c) (st, p, ws) = Some r"
    using r(1) by (cases wait) (simp_all add: BufferedInputStream_read_def BufferedInputStream_tryread_def)
  show ?thesis
  proof (cases "r = Blocked")
    case False
    then obtain blk st' p' ws' xs where x: "r = Returned (blk, st', p', ws')"
      "reader.ready (st', p', ws')" "extends (reader.unread (st, p, ws)) xs"
      "is_streamID st' = is_streamID st"
      "case blk of None \<Rightarrow> reader.unread (st', p', ws') = xs
       | Some b \<Rightarrow> delivers n c xs b (reader.unread (st', p', ws'))"
    proof -
      from r(2) False obtain blk s' xs where y: "r = Returned (blk, s')" "reader.ready s'"
        "extends (reader.unread (st, p, ws)) xs" "is_streamID (fst s') = is_streamID (fst (st, p, ws))"
        "case blk of None \<Rightarrow> reader.unread s' = xs | Some b \<Rightarrow> delivers n c xs b (reader.unread s')"
        by blast
      obtain st' p' ws' where s': "s' = (st', p', ws')" by (metis prod_cases3)
      show thesis
        by (rule that [OF y(1-3) [unfolded s'] _ y(5) [unfolded s']]) (use y(4) s' in simp)
    qed
    show ?thesis
      by (rule exI [of _ r], rule conjI [OF e], rule disjI2,
          intro exI [of _ blk] exI [of _ st'] exI [of _ p'] exI [of _ ws'] exI [of _ xs])
        (use x in \<open>simp add: ready_eq unread_eq cong: option.case_cong\<close>)
  qed (use e in blast)
qed

definition two_packets :: "rat inport" where
  "two_packets = wave_port\<lparr>ip_queue :=
     [\<lparr>pk_buffer = [1, 2], pk_T = Some (timestamp_now 10), pk_EOS = False, pk_SRI = sri_default ''s'',
       pk_sriChanged = True, pk_flushed = False\<rparr>,
      \<lparr>pk_buffer = [3, 4], pk_T = Some (timestamp_now 12), pk_EOS = True, pk_SRI = sri_default ''s'',
       pk_sriChanged = False, pk_flushed = False\<rparr>]\<rparr>"

definition fresh_stream :: "rat istream" where
  "fresh_stream = InputStream_init True (sri_default ''s'')"

lemma fresh_stream_ok:
  "bis_ok fresh_stream" "timed fresh_stream" "is_streamID fresh_stream = ''s''"
  "bis_samples fresh_stream = []"
  by (simp_all add: fresh_stream_def timed_def) (simp_all add: InputStream_init_def bis_samples_def bis_data_def)

lemma two_packets_ok: "well_fed (two_packets, [])"
  by (simp add: well_fed_def two_packets_def good_data_def packet_ok_def)

theorem buffered_read_delivers_witness:
  "\<exists>r. BufferedInputStream_tryread inport_api (Some 3) (Some 2) (fresh_stream, two_packets, []) = Some r \<and>
     (r = Blocked \<or> (\<exists>blk st' p' ws' xs. r = Returned (blk, st', p', ws') \<and> bis_ok st' \<and>
        extends [1, 2, 3, 4] xs \<and>
        (case blk of None \<Rightarrow> stream_unread st' p' = xs
         | Some b \<Rightarrow> delivers 3 2 xs b (stream_unread st' p'))))"
proof -
  have u: "stream_unread fresh_stream two_packets = [1, 2, 3, 4]"
    by (simp add: stream_unread_def fresh_stream_ok two_packets_def pk_streamID_def)
  have "(2::nat) \<le> 3" "is_streamID fresh_stream \<noteq> ''''" by (simp_all add: fresh_stream_ok)
  from buffered_read_delivers [OF fresh_stream_ok(1,2) two_packets_ok this(2,1), of False]
  show ?thesis unfolding u if_False by blast
qed

text \<open>
  A block describes its samples correctly. It carries the SRI of the packet at the read
  pointer, its first time stamp applies to its first sample, and every further packet it spans
  adds that packet's own time stamp at the offset of its first sample; only the first stamp can
  be interpolated.
\<close>

theorem block_metadata:
  assumes "bis_ok st" "timed st" "is_queue st \<noteq> []" "count \<le> is_samplesQueued st"
    "consume \<le> is_samplesQueued st"
  shows "\<exists>b st'. BIS_readData count consume st = Returned (b, st') \<and>
     db_sri b = pk_SRI (hd (is_queue st)) \<and> db_inputQueueFlushed b = pk_flushed (hd (is_queue st)) \<and>
     db_data b = take count (bis_samples st) \<and> bis_samples st' = drop consume (bis_samples st) \<and>
     (\<exists>ts tss. db_timestamps b = ts # tss \<and> ts_offset ts = 0 \<and>
       (\<forall>i < length tss. \<not> ts_synthetic (tss ! i) \<and> ts_time (tss ! i) = pk_T (is_queue st ! Suc i) \<and>
          ts_offset (tss ! i) =
            (length (concat (map pk_buffer (take (Suc i) (is_queue st)))) - is_sampleOffset st) div
              item_size (db_sri b)))"
proof -
  obtain b st' where r: "BIS_readData count consume st = Returned (b, st')" "block_ok count st b"
      "bis_samples st' = drop consume (bis_samples st)"
    using readData_ok [OF assms(1,3,4,5,2)] by blast
  obtain ts tss where t: "db_timestamps b = ts # tss"
    using r(2) by (cases "db_timestamps b") (auto simp: block_ok_def)
  have "\<not> ts_synthetic (tss ! i) \<and> ts_time (tss ! i) = pk_T (is_queue st ! Suc i) \<and>
      ts_offset (tss ! i) =
        (length (concat (map pk_buffer (take (Suc i) (is_queue st)))) - is_sampleOffset st) div
          item_size (db_sri b)"
    if "i < length tss" for i
  proof -
    have "\<forall>i. 0 < i \<longrightarrow> i < length (db_timestamps b) \<longrightarrow>
        \<not> ts_synthetic (db_timestamps b ! i) \<and>
        ts_time (db_timestamps b ! i) = pk_T (is_queue st ! i) \<and>
        ts_offset (db_timestamps b ! i) =
          (length (concat (map pk_buffer (take i (is_queue st)))) - is_sampleOffset st) div
            item_size (db_sri b)"
      using r(2) by (simp add: block_ok_def)
    from this [rule_format, of "Suc i"] that show ?thesis by (simp add: t)
  qed
  moreover have "db_data b = take count (bis_samples st)"
    using r(2) bis_samples_queued [OF assms(1,4)] by (simp add: block_ok_def)
  ultimately show ?thesis using r t by (auto simp: block_ok_def)
qed

definition half_read :: "rat istream" where
  "half_read = fresh_stream\<lparr>is_queue := ip_queue two_packets, is_eosState := EOS_RECEIVED,
     is_samplesQueued := 3, is_sampleOffset := 1\<rparr>"

lemma half_read_ok:
  "bis_ok half_read" "timed half_read" "is_queue half_read \<noteq> []" "is_samplesQueued half_read = 3"
  "bis_samples half_read = [2, 3, 4]" "is_streamID half_read = ''s''"
  by (simp_all add: half_read_def fresh_stream_def two_packets_def InputStream_init_def bis_ok_def
      bis_data_def bis_mine_def bis_eos_ok_def timed_def bis_samples_def is_streamID_def
      pk_streamID_def canBridge_def)

theorem block_metadata_witness:
  "\<exists>b st'. BIS_readData 3 2 half_read = Returned (b, st') \<and> db_data b = [2, 3, 4] \<and>
     bis_samples st' = [4]"
proof -
  have le: "(3::nat) \<le> is_samplesQueued half_read" "(2::nat) \<le> is_samplesQueued half_read"
    by (simp_all add: half_read_ok)
  from block_metadata [OF half_read_ok(1-3) le] show ?thesis by (auto simp: half_read_ok)
qed

text \<open>
  C28: a stream reports its end only when everything was read. If \<open>eos()\<close> answers yes, the stream
  holds no samples and no packet, the samples in the port's queue were left alone, and the stream
  was removed from the port, now or when the end was reported before.
\<close>

theorem eos_only_after_all_data:
  assumes "bis_ok st" "timed st" "well_fed (p, ws)" "is_streamID st \<noteq> ''''"
    and "BufferedInputStream_checkEos inport_api (st, p, ws) = Returned (True, st', p', ws')"
  shows "is_queue st' = [] \<and> is_pending st' = None \<and> bis_samples st' = [] \<and>
    extends (stream_unread st p) (stream_unread st' p') \<and>
    (is_eosState st = EOS_REPORTED \<or>
      (\<exists>q. p' = InPort_removeStream (is_streamID st) q \<and> well_fed (q, ws')))"
proof -
  have ready: "reader.ready (st, p, ws)" using assms(1-4) by (simp add: ready_eq)
  obtain s1 where s1: "(if is_queue st = [] then omap snd (BIS_fetchPacket inport_api False (st, p, ws))
        else Returned (st, p, ws)) = Returned s1"
      "InputStream_checkEos inport_api s1 = (True, st', p', ws')"
    using assms(5) by (auto simp: BufferedInputStream_checkEos_def omap_Returned_iff)
  have f: "reader.ready s1 \<and> is_streamID (fst s1) = is_streamID st \<and>
      extends (reader.unread (st, p, ws)) (reader.unread s1) \<and>
      (is_eosState (fst s1) = EOS_REPORTED \<longrightarrow> is_eosState st = EOS_REPORTED)"
  proof (cases "is_queue st = []")
    case True
    then obtain got st1 x where "BIS_fetchPacket inport_api False (st, p, ws) = Returned (got, st1, x)"
        "s1 = (st1, x)"
      using s1(1) by (auto simp: omap_Returned_iff)
    then show ?thesis
      using reader.fetchPacket_ok [OF ready] fetchPacket_unreported [of inport_api False st "(p, ws)"]
      by (cases x) auto
  qed (use s1(1) ready in auto)
  obtain st1 p1 ws1 where s1': "s1 = (st1, p1, ws1)" by (metis prod_cases3)
  have rep: "(st', p', ws') = InputStream_reportIfEosReached inport_api s1"
      "is_eosState st' = EOS_REPORTED"
    using s1(2) by (auto simp: InputStream_checkEos_def Let_def)
  have r: "reader.ready (st', p', ws')" "reader.unread (st', p', ws') = reader.unread s1"
    using reader.reportIfEosReached_ok [of s1] f rep(1) by auto
  have empty: "is_queue st' = []" "is_pending st' = None"
    using r(1) rep(2) by (auto simp: ready_eq bis_ok_def bis_eos_ok_def)
  have removed: "is_eosState st1 = EOS_REPORTED \<or>
      (\<exists>q. p' = InPort_removeStream (is_streamID st) q \<and> well_fed (q, ws'))"
    using rep f by (auto simp: InputStream_reportIfEosReached_def s1' inport_api_def ready_eq
        split: if_splits)
  show ?thesis
    using empty f r(2) removed by (auto simp: bis_samples_def bis_data_def unread_eq s1')
qed

definition ended_port :: "rat inport" where
  "ended_port = wave_port\<lparr>ip_queue :=
     [\<lparr>pk_buffer = [], pk_T = Some (timestamp_now 10), pk_EOS = True, pk_SRI = sri_default ''s'',
       pk_sriChanged = False, pk_flushed = False\<rparr>]\<rparr>"

lemma ended_port_eos:
  "\<exists>st' p'. BufferedInputStream_checkEos inport_api (fresh_stream, ended_port, []) =
     Returned (True, st', p', [])"
  by (simp add: BufferedInputStream_checkEos_def BIS_fetchPacket_def InputStream_fetchNextPacket_def
      fresh_stream_def InputStream_init_def inport_api_def port_next_def InPort_nextPacket_def
      next_loop.simps InPort_fetchPacket_def no_streamID_def ended_port_def is_streamID_def
      pk_streamID_def BIS_queuePacket_def InputStream_checkEos_def InputStream_reportIfEosReached_def
      InPort_disableBlockingOnEOS_def Let_def)

theorem eos_only_after_all_data_witness:
  "\<exists>st' p' q. BufferedInputStream_checkEos inport_api (fresh_stream, ended_port, []) =
     Returned (True, st', p', []) \<and> bis_samples st' = [] \<and> p' = InPort_removeStream ''s'' q"
proof -
  obtain st' p' where e: "BufferedInputStream_checkEos inport_api (fresh_stream, ended_port, []) =
      Returned (True, st', p', [])"
    using ended_port_eos by blast
  have "well_fed (ended_port, [])"
    by (simp add: well_fed_def ended_port_def good_data_def packet_ok_def)
  moreover have "is_streamID fresh_stream \<noteq> ''''" "is_eosState fresh_stream \<noteq> EOS_REPORTED"
    by (simp_all add: fresh_stream_ok) (simp add: fresh_stream_def InputStream_init_def)
  ultimately show ?thesis
    using eos_only_after_all_data [OF fresh_stream_ok(1,2) _ _ e] e by (auto simp: fresh_stream_ok)
qed

section \<open>Where streams depart from their contract\<close>

text \<open>
  Disabling a stream whose end-of-stream waits in the port's queue loses the end for good.
  The stream object only knows of an end it has fetched, so it discards the packet like any
  other data; the port has already forgotten the SRI, so the next stream with the same ID starts
  as a new object, but it waits behind the old one, which nothing will ever end.
\<close>

theorem disable_loses_queued_end:
  assumes "is_eosState st = EOS_NONE" "dget (ip_streams p) (is_streamID st) = Some r"
    "dget (ip_sriDict p) (is_streamID st) = None" "streamID H = is_streamID st" "no_orphans p"
    "InputStream_disable inport_api (st, p, ws) = (st', p', ws')"
  shows "is_eosState st' = EOS_NONE \<and> \<not> is_enabled st' \<and>
    eos_count (is_streamID st) (ip_queue p') = 0 \<and>
    stream_refs (is_streamID st) (InPort_pushSRI H p') =
      stream_refs (is_streamID st) p @ [length (ip_heap p)]"
proof -
  have p': "p' = InPort_discardPacketsForStream (is_streamID st) p" and st': "is_eosState st' = EOS_NONE"
      "\<not> is_enabled st'"
    using assms(1,6)
    by (auto simp: InputStream_disable_def inport_api_def Let_def BufferedInputStream_disable_hook_def
        is_streamID_def split: if_splits)
  have "eos_count s (filter (\<lambda>k. pk_streamID k \<noteq> s) q) = 0" for s and q :: "'a packet list"
    by (induction q) auto
  moreover have "stream_refs (is_streamID st) (InPort_pushSRI H p') =
      stream_refs (is_streamID st) p @ [length (ip_heap p)]"
  proof -
    define q where "q = (let p = (if blocking H then p'\<lparr>ip_blocking := True\<rparr> else p');
        p = (if ip_newSriCallback p then add_event (NewSri H) p else p)
      in p\<lparr>ip_sriDict := dput (streamID H) (H, True) (ip_sriDict p)\<rparr>)"
    have q: "ip_streams q = ip_streams p" "ip_pendingStreams q = ip_pendingStreams p"
        "ip_heap q = ip_heap p"
      by (simp_all add: q_def p' InPort_discardPacketsForStream_def Let_def)
    have "InPort_pushSRI H p' = InPort_createStream H q"
      using assms(3,4) by (simp add: InPort_pushSRI_def q_def p' InPort_discardPacketsForStream_def Let_def)
    moreover have "no_orphans q"
      using assms(5) q by (simp add: no_orphans_def pending_of_def)
    ultimately show ?thesis
      using assms(4) q stream_refs_cong [OF q(1,2), of "is_streamID st"]
      by (simp add: stream_refs_createStream)
  qed
  ultimately show ?thesis using st' p' by (simp add: InPort_discardPacketsForStream_def)
qed

definition closing_port :: "rat inport" where
  "closing_port = ended_port\<lparr>ip_sriDict := []\<rparr>"

theorem disable_loses_queued_end_witness:
  "\<exists>st' p'. InputStream_disable inport_api (fresh_stream, closing_port, []) = (st', p', []) \<and>
     eos_count ''s'' (ip_queue closing_port) = 1 \<and> eos_count ''s'' (ip_queue p') = 0 \<and>
     stream_refs ''s'' (InPort_pushSRI (sri_default ''s'') p') = [0, 1]"
proof -
  obtain st' p' where d: "InputStream_disable inport_api (fresh_stream, closing_port, []) = (st', p', [])"
    by (auto simp: InputStream_disable_def inport_api_def fresh_stream_def InputStream_init_def Let_def)
  have f: "is_eosState fresh_stream = EOS_NONE" "dget (ip_streams closing_port) (is_streamID fresh_stream) = Some 0"
      "dget (ip_sriDict closing_port) (is_streamID fresh_stream) = None"
      "streamID (sri_default ''s'') = is_streamID fresh_stream" "no_orphans closing_port"
      "stream_refs ''s'' closing_port = [0]" "length (ip_heap closing_port) = 1"
      "eos_count ''s'' (ip_queue closing_port) = 1"
    by (simp_all add: fresh_stream_ok closing_port_def ended_port_def no_orphans_def pending_of_def
        stream_refs_def pk_streamID_def) (simp add: fresh_stream_def InputStream_init_def)
  from disable_loses_queued_end [OF f(1-5) d] show ?thesis
    using d f(6-8) by (auto simp: fresh_stream_ok)
qed

text \<open>
  The documented check that \<open>consume\<close> is not larger than \<open>count\<close> is never made when a
  count is given: a read of one sample that consumes three returns the one sample and silently
  drops the two after it.
\<close>

theorem read_drops_samples_beyond_count:
  "\<exists>b st'. BufferedInputStream_read inport_api (Some 1) (Some 3) (half_read, p, ws) =
     Some (Returned (Some b, st', p, ws)) \<and>
   bis_samples half_read = [2, 3, 4] \<and> db_data b = [2] \<and> bis_samples st' = []"
proof -
  have c: "(1::nat) \<le> is_samplesQueued half_read" "(3::nat) \<le> is_samplesQueued half_read"
    by (simp_all add: half_read_ok)
  obtain b st' where r: "BIS_readData 1 3 half_read = Returned (b, st')" "block_ok 1 half_read b"
      "bis_samples st' = drop 3 (bis_samples half_read)"
    using readData_ok [OF half_read_ok(1,3) c half_read_ok(2)] by blast
  have "db_data b = take 1 (bis_samples half_read)"
    using r(2) bis_samples_queued [OF half_read_ok(1) c(1)] by (simp add: block_ok_def)
  moreover have "BIS_nextSRI inport_api True (half_read, p, ws) =
      Returned (Some (sri_default ''s''), half_read, p, ws)"
    by (simp add: BIS_nextSRI_def half_read_def two_packets_def)
  moreover have "mode (sri_default ''s'') = 0" by (simp add: sri_default_def)
  moreover have "BIS_fill inport_api True 3 (half_read, p, ws) = Some (Returned (half_read, p, ws))"
    by (subst BIS_fill.simps) (simp add: half_read_ok)
  ultimately show ?thesis
    using r(1,3)
    by (simp add: BufferedInputStream_read_def BIS_read_def half_read_ok Let_def)
qed

end
