(* ===== verification/DataBlocks.thy ===== *)
theory DataBlocks
  imports StreamReads
begin

text \<open>
  \<open>bulkio/datablock.py\<close>: the accessors of a data block, its time drift, and the complex view of its
  samples. The record, the constructor and the time stamps are in \<open>InputStreams\<close>.
\<close>

section \<open>Accessors\<close>

definition DataBlock_buffer :: "'a dataBlock \<Rightarrow> 'a list" where
  "DataBlock_buffer b = db_data b"

definition DataBlock_xdelta :: "'a dataBlock \<Rightarrow> rat" where
  "DataBlock_xdelta b = xdelta (db_sri b)"

definition DataBlock_getTimestamps :: "'a dataBlock \<Rightarrow> sampleTimestamp list" where
  "DataBlock_getTimestamps b = db_timestamps b"

definition SampleDataBlock_size :: "'a dataBlock \<Rightarrow> nat" where
  "SampleDataBlock_size b = length (db_data b)"

definition SampleDataBlock_complex :: "'a dataBlock \<Rightarrow> bool" where
  "SampleDataBlock_complex b \<longleftrightarrow> mode (db_sri b) \<noteq> 0"

definition SampleDataBlock_cxdata :: "'a dataBlock \<Rightarrow> ('a \<times> 'a) list" where
  "SampleDataBlock_cxdata b = interleaved_to_complex (db_data b)"

definition SampleDataBlock_cxsize :: "'a dataBlock \<Rightarrow> nat" where
  "SampleDataBlock_cxsize b = SampleDataBlock_size b div 2"

section \<open>Time drift\<close>

definition DataBlock_validateTimestamps :: "'a dataBlock \<Rightarrow> unit outcome" where
  "DataBlock_validateTimestamps b =
     (if db_timestamps b = [] then Raised ValueError
      else if ts_offset (db_timestamps b ! 0) \<noteq> 0 then Raised ValueError
      else Returned ())"

text \<open>
  The difference of the times is computed first, which is a \<open>TypeError\<close> when one is \<open>None\<close>; then the name
  \<open>self\<close> is looked up in a function of the module that has none.
\<close>

definition get_drift :: "sampleTimestamp \<Rightarrow> sampleTimestamp \<Rightarrow> rat \<Rightarrow> rat outcome" where
  "get_drift begin_ts end_ts xd = (case (ts_time end_ts, ts_time begin_ts) of
     (Some e, Some b) \<Rightarrow> Raised NameError
   | _ \<Rightarrow> Raised TypeError)"

definition DataBlock_getNetTimeDrift :: "'a dataBlock \<Rightarrow> rat outcome" where
  "DataBlock_getNetTimeDrift b = obind (DataBlock_validateTimestamps b) (\<lambda>_.
     get_drift (db_timestamps b ! 0) (last (db_timestamps b)) (DataBlock_xdelta b))"

text \<open>A value of the loop would be compared with the built-in function \<open>max\<close>, of which there is no \<open>abs\<close>.\<close>

fun max_drift_loop :: "rat \<Rightarrow> sampleTimestamp list \<Rightarrow> rat \<Rightarrow> rat outcome" where
  "max_drift_loop xd (a # b # rest) max_drift =
     obind (get_drift a b xd) (\<lambda>drift. Raised TypeError)"
| "max_drift_loop xd _ max_drift = Returned max_drift"

definition DataBlock_getMaxTimeDrift :: "'a dataBlock \<Rightarrow> rat outcome" where
  "DataBlock_getMaxTimeDrift b = obind (DataBlock_validateTimestamps b) (\<lambda>_.
     max_drift_loop (DataBlock_xdelta b) (db_timestamps b) 0)"

section \<open>Correctness\<close>

lemma get_drift_raises: "get_drift a b xd \<noteq> Returned d"
  by (simp add: get_drift_def split: option.split)

lemma validate_getStartTime:
  "DataBlock_getStartTime b =
     obind (DataBlock_validateTimestamps b) (\<lambda>_. Returned (ts_time (db_timestamps b ! 0)))"
  by (simp add: DataBlock_getStartTime_def DataBlock_validateTimestamps_def split: list.split)

lemma valid_blocks_raise:
  assumes "DataBlock_getStartTime b = Returned t" "\<forall>ts \<in> set (db_timestamps b). ts_time ts \<noteq> None"
  shows "DataBlock_getNetTimeDrift b = Raised NameError"
    and "2 \<le> length (db_timestamps b) \<Longrightarrow> DataBlock_getMaxTimeDrift b = Raised NameError"
proof -
  obtain ts rest where ts: "db_timestamps b = ts # rest" "ts_offset ts = 0"
    using assms(1) by (cases "db_timestamps b") (auto simp: DataBlock_getStartTime_def split: if_splits)
  have valid: "DataBlock_validateTimestamps b = Returned ()"
    by (simp add: DataBlock_validateTimestamps_def ts)
  have "ts_time (last (db_timestamps b)) \<noteq> None" "ts_time ts \<noteq> None"
    using assms(2) ts(1) by auto
  then show "DataBlock_getNetTimeDrift b = Raised NameError"
    by (auto simp: DataBlock_getNetTimeDrift_def valid get_drift_def ts(1))
  show "DataBlock_getMaxTimeDrift b = Raised NameError" if "2 \<le> length (db_timestamps b)"
    using that assms(2) ts(1)
    by (cases rest) (auto simp: DataBlock_getMaxTimeDrift_def valid get_drift_def)
qed

text \<open>
  The time drift of a data block is never computed. \<open>getNetTimeDrift\<close> returns for no block, and
  \<open>getMaxTimeDrift\<close> returns only for a block with a single time stamp, whose drift is 0; for a valid block
  all of whose times were received both raise the \<open>NameError\<close> of the missing \<open>self\<close>.
\<close>

theorem time_drift_is_never_computed:
  "DataBlock_getNetTimeDrift b \<noteq> Returned d \<and>
   (DataBlock_getMaxTimeDrift b = Returned d \<longleftrightarrow>
      d = 0 \<and> (\<exists>ts. db_timestamps b = [ts] \<and> ts_offset ts = 0)) \<and>
   (DataBlock_getStartTime b = Returned t \<and> (\<forall>ts \<in> set (db_timestamps b). ts_time ts \<noteq> None) \<longrightarrow>
      DataBlock_getNetTimeDrift b = Raised NameError \<and>
      (2 \<le> length (db_timestamps b) \<longrightarrow> DataBlock_getMaxTimeDrift b = Raised NameError))"
proof (intro conjI)
  show "DataBlock_getNetTimeDrift b \<noteq> Returned d"
    by (auto simp: DataBlock_getNetTimeDrift_def outcome_simps get_drift_raises)
  show "DataBlock_getMaxTimeDrift b = Returned d \<longleftrightarrow>
      d = 0 \<and> (\<exists>ts. db_timestamps b = [ts] \<and> ts_offset ts = 0)"
    by (cases "db_timestamps b" rule: remdups_adj.cases)
       (auto simp: DataBlock_getMaxTimeDrift_def DataBlock_validateTimestamps_def outcome_simps get_drift_raises)
qed (simp add: valid_blocks_raise)

theorem time_drift_is_never_computed_witness:
  "DataBlock_getNetTimeDrift (DataBlock_addTimestamp
     \<lparr>ts_time = Some (timestamp_create 1 0 1 1), ts_offset = 0, ts_synthetic = False\<rparr>
     (DataBlock_init (sri_default ''s'') [1, 2, 3 :: int] 0 False)) = Raised NameError"
  using time_drift_is_never_computed [of "DataBlock_addTimestamp
     \<lparr>ts_time = Some (timestamp_create 1 0 1 1), ts_offset = 0, ts_synthetic = False\<rparr>
     (DataBlock_init (sri_default ''s'') [1, 2, 3 :: int] 0 False)" 0 "Some (timestamp_create 1 0 1 1)"]
  by (simp add: DataBlock_addTimestamp_def DataBlock_init_def DataBlock_getStartTime_def)

lemma cxdata_size: "length (SampleDataBlock_cxdata b) = SampleDataBlock_cxsize b"
proof -
  have "length (interleaved_to_complex xs) = length xs div 2" for xs :: "'a list"
    by (induction xs rule: interleaved_to_complex.induct) auto
  then show ?thesis by (simp add: SampleDataBlock_cxdata_def SampleDataBlock_cxsize_def SampleDataBlock_size_def)
qed

end
