(* ===== verification/Actions.thy ===== *)
theory Actions
  imports Prelude
begin

text \<open>
  Python code with state and exceptions: an action takes the state and gives a value or an
  exception together with the state it leaves behind, since what was done before a \<open>raise\<close> stays
  done; \<open>Hangs\<close> is a loop that never ends. A \<open>try\<close> with an \<open>except\<close> clause is \<open>act_catch\<close>; a \<open>finally\<close> that only releases a lock
  changes nothing here and is left out. The rules at the end turn an invariant of a composed action
  into invariants of its parts.
\<close>

datatype 'a result = Ok 'a | Exn exn | Hangs

type_synonym ('s, 'a) action = "'s \<Rightarrow> 'a result \<times> 's"

definition act_return :: "'a \<Rightarrow> ('s, 'a) action" where
  "act_return x s = (Ok x, s)"

definition act_raise :: "exn \<Rightarrow> ('s, 'a) action" where
  "act_raise e s = (Exn e, s)"

definition act_hang :: "('s, 'a) action" where
  "act_hang s = (Hangs, s)"

definition act_bind :: "('s, 'a) action \<Rightarrow> ('a \<Rightarrow> ('s, 'b) action) \<Rightarrow> ('s, 'b) action" where
  "act_bind m f s = (case m s of (Ok x, s') \<Rightarrow> f x s' | (Exn e, s') \<Rightarrow> (Exn e, s') | (Hangs, s') \<Rightarrow> (Hangs, s'))"

definition act_then :: "('s, 'a) action \<Rightarrow> ('s, 'b) action \<Rightarrow> ('s, 'b) action" where
  "act_then m n = act_bind m (\<lambda>_. n)"

definition act_catch :: "('s, 'a) action \<Rightarrow> (exn \<Rightarrow> ('s, 'a) action) \<Rightarrow> ('s, 'a) action" where
  "act_catch m h s = (case m s of (Ok x, s') \<Rightarrow> (Ok x, s') | (Exn e, s') \<Rightarrow> h e s' | (Hangs, s') \<Rightarrow> (Hangs, s'))"

definition act_get :: "('s \<Rightarrow> 'a) \<Rightarrow> ('s, 'a) action" where
  "act_get f s = (Ok (f s), s)"

definition act_update :: "('s \<Rightarrow> 's) \<Rightarrow> ('s, unit) action" where
  "act_update f s = (Ok (), f s)"

definition act_when :: "bool \<Rightarrow> ('s, unit) action \<Rightarrow> ('s, unit) action" where
  "act_when b m = (if b then m else act_return ())"

fun act_each :: "('a \<Rightarrow> ('s, unit) action) \<Rightarrow> 'a list \<Rightarrow> ('s, unit) action" where
  "act_each f [] = act_return ()"
| "act_each f (x # xs) = act_then (f x) (act_each f xs)"

text \<open>Indexing a list and looking up a dictionary, with the errors of Python.\<close>

definition act_nth :: "'a list \<Rightarrow> nat \<Rightarrow> ('s, 'a) action" where
  "act_nth xs i = (if i < length xs then act_return (xs ! i) else act_raise IndexError)"

definition act_lookup :: "('k, 'v) dict \<Rightarrow> 'k \<Rightarrow> ('s, 'v) action" where
  "act_lookup d k = (case dget d k of None \<Rightarrow> act_raise KeyError | Some v \<Rightarrow> act_return v)"

named_theorems act_simps \<open>running an action\<close>

lemma act_run [simp, act_simps]:
  "act_return x s = (Ok x, s)" "act_raise e s = (Exn e, s)" "act_get f s = (Ok (f s), s)"
  "act_update g s = (Ok (), g s)" "act_hang s = (Hangs, s)"
  by (simp_all add: act_return_def act_hang_def act_raise_def act_get_def act_update_def)

lemma act_bind_run [act_simps]:
  "m s = (Ok x, s') \<Longrightarrow> act_bind m f s = f x s'" "m s = (Exn e, s') \<Longrightarrow> act_bind m f s = (Exn e, s')"
  "m s = (Hangs, s') \<Longrightarrow> act_bind m f s = (Hangs, s')"
  by (simp_all add: act_bind_def)

lemma act_bind_simps [simp]:
  "act_bind (act_return x) f = f x" "act_bind (act_raise e) f = act_raise e"
  "act_bind (act_get g) f s = f (g s) s" "act_bind (act_update h) k s = k () (h s)"
  by (auto simp: act_bind_def act_return_def act_raise_def act_get_def act_update_def)

lemma act_then_simps [simp]:
  "act_then (act_return x) n = n" "act_then (act_raise e) n = act_raise e"
  "act_then (act_update h) n s = n (h s)"
  by (simp_all add: act_then_def)

lemma act_then_run [act_simps]:
  "m s = (Ok x, s') \<Longrightarrow> act_then m n s = n s'" "m s = (Exn e, s') \<Longrightarrow> act_then m n s = (Exn e, s')"
  "m s = (Hangs, s') \<Longrightarrow> act_then m n s = (Hangs, s')"
  by (simp_all add: act_then_def act_simps)

lemma act_catch_run [act_simps]:
  "m s = (Ok x, s') \<Longrightarrow> act_catch m h s = (Ok x, s')" "m s = (Exn e, s') \<Longrightarrow> act_catch m h s = h e s'"
  "m s = (Hangs, s') \<Longrightarrow> act_catch m h s = (Hangs, s')"
  by (simp_all add: act_catch_def)

lemma act_lookup_run [simp]:
  "dget d k = Some v \<Longrightarrow> act_lookup d k = act_return v" "dget d k = None \<Longrightarrow> act_lookup d k = act_raise KeyError"
  by (simp_all add: act_lookup_def)

lemma act_nth_run [simp]: "i < length xs \<Longrightarrow> act_nth xs i = act_return (xs ! i)"
  by (simp add: act_nth_def)

definition lift_outcome :: "'a outcome \<Rightarrow> ('s, 'a) action" where
  "lift_outcome m = (case m of Returned x \<Rightarrow> act_return x | Raised e \<Rightarrow> act_raise e | Blocked \<Rightarrow> act_hang)"

lemma lift_outcome_simps [simp]:
  "lift_outcome (Returned x) = act_return x" "lift_outcome (Raised e) = act_raise e" "lift_outcome Blocked = act_hang"
  by (simp_all add: lift_outcome_def)

section \<open>Invariants of actions\<close>

definition keeps :: "('s \<Rightarrow> bool) \<Rightarrow> ('s, 'a) action \<Rightarrow> bool" where
  "keeps P m \<longleftrightarrow> (\<forall>s. P s \<longrightarrow> P (snd (m s)))"

named_theorems keeps_rules \<open>invariants of composed actions\<close>

lemma keepsD: "keeps P m \<Longrightarrow> P s \<Longrightarrow> m s = (r, s') \<Longrightarrow> P s'"
  by (force simp: keeps_def)

lemma keeps_return [keeps_rules, simp]:
  "keeps P (act_return x)" "keeps P (act_raise e)" "keeps P (act_get f)" "keeps P act_hang"
  by (simp_all add: keeps_def)

lemma keeps_bind [keeps_rules]: "keeps P m \<Longrightarrow> (\<And>x. keeps P (f x)) \<Longrightarrow> keeps P (act_bind m f)"
  by (auto simp: keeps_def act_bind_def split: prod.split result.split)

lemma keeps_then [keeps_rules]: "keeps P m \<Longrightarrow> keeps P n \<Longrightarrow> keeps P (act_then m n)"
  by (simp add: act_then_def keeps_bind)

lemma keeps_catch [keeps_rules]: "keeps P m \<Longrightarrow> (\<And>e. keeps P (h e)) \<Longrightarrow> keeps P (act_catch m h)"
  by (auto simp: keeps_def act_catch_def split: prod.split result.split)

lemma keeps_if [keeps_rules]: "(b \<Longrightarrow> keeps P m) \<Longrightarrow> (\<not> b \<Longrightarrow> keeps P n) \<Longrightarrow> keeps P (if b then m else n)"
  by simp

lemma keeps_when [keeps_rules]: "(b \<Longrightarrow> keeps P m) \<Longrightarrow> keeps P (act_when b m)"
  by (simp add: act_when_def)

lemma keeps_update: "(\<And>s. P s \<Longrightarrow> P (f s)) \<Longrightarrow> keeps P (act_update f)"
  by (simp add: keeps_def)

lemma keeps_nth [keeps_rules, simp]: "keeps P (act_nth xs i)"
  by (simp add: act_nth_def)

lemma keeps_lookup [keeps_rules, simp]: "keeps P (act_lookup d k)"
  by (simp add: act_lookup_def split: option.split)

lemma keeps_each [keeps_rules]: "(\<And>x. x \<in> set xs \<Longrightarrow> keeps P (f x)) \<Longrightarrow> keeps P (act_each f xs)"
  by (induction xs) (auto intro: keeps_rules)

end
