(* ===== verification/InAttachable.thy ===== *)
theory InAttachable
  imports Actions PortTypes
begin

text \<open>
  \<open>bulkio/input_ports.py\<close>, class \<open>InAttachablePort\<close>: the input side of SDDS and VITA49 streams, which
  are not sent over CORBA. A producer attaches the definition of a stream (an address to listen to) and
  gets an attachment ID. The callbacks of the user are functions of the number of calls made so far, so
  that they may answer differently each time; \<open>uuid\<close> supplies the identifiers of \<open>uuid.uuid4\<close>.
\<close>

section \<open>State\<close>

record 'd stream_def =
  sd_id :: string
  sd_details :: 'd

text \<open>An attach callback raises (\<open>None\<close>), or returns nothing or an identifier; a detach callback returns or not.\<close>

type_synonym 'd attach_callback = "nat \<Rightarrow> 'd stream_def \<Rightarrow> string \<Rightarrow> string option option"

type_synonym detach_callback = "nat \<Rightarrow> string \<Rightarrow> bool"

record 'd inattach =
  ia_name :: string
  ia_attachedStreams :: "(string, 'd stream_def \<times> string) dict"
  ia_stats :: instats
  ia_sriDict :: "(string, sri \<times> utctime) dict"
  ia_attach_cb :: "'d attach_callback option"
  ia_detach_cb :: "detach_callback option"
  ia_newSriCallback :: bool
  ia_sriChangeCallback :: bool
  ia_sri_cmp :: "(sri \<Rightarrow> sri \<Rightarrow> bool) option"
  ia_time_cmp :: "(utctime \<Rightarrow> utctime \<Rightarrow> int) option"
  ia_sriChanged :: bool
  ia_events :: "port_event list"
  ia_calls :: nat
  ia_uuid :: "nat \<Rightarrow> string"

definition InAttachablePort_init ::
    "string \<Rightarrow> 'd attach_callback option \<Rightarrow> detach_callback option \<Rightarrow> (sri \<Rightarrow> sri \<Rightarrow> bool) option \<Rightarrow>
     (utctime \<Rightarrow> utctime \<Rightarrow> int) option \<Rightarrow> bool \<Rightarrow> bool \<Rightarrow> (nat \<Rightarrow> string) \<Rightarrow> 'd inattach" where
  "InAttachablePort_init name attach_cb detach_cb sriCmp timeCmp newSriCb sriChangeCb uuid =
     \<lparr>ia_name = name, ia_attachedStreams = [], ia_stats = InStats_init name 1 0, ia_sriDict = [],
      ia_attach_cb = attach_cb, ia_detach_cb = detach_cb, ia_newSriCallback = newSriCb,
      ia_sriChangeCallback = sriChangeCb, ia_sri_cmp = sriCmp, ia_time_cmp = timeCmp,
      ia_sriChanged = False, ia_events = [], ia_calls = 0, ia_uuid = uuid\<rparr>"

text \<open>The default time comparison is \<open>bulkio.timestamp.compare\<close>; the SDDS and VITA49 ports pass \<open>None\<close>.\<close>

definition default_time_cmp :: "utctime \<Rightarrow> utctime \<Rightarrow> int" where
  "default_time_cmp a b = timestamp_compare a (Some b)"

section \<open>Operations\<close>

definition InAttachablePort_setNewAttachDetachListener ::
    "'d attach_callback option \<Rightarrow> detach_callback option \<Rightarrow> 'd inattach \<Rightarrow> 'd inattach" where
  "InAttachablePort_setNewAttachDetachListener attach_cb detach_cb p =
     p\<lparr>ia_attach_cb := attach_cb, ia_detach_cb := detach_cb\<rparr>"

definition InAttachablePort_setNewSriListener :: "bool \<Rightarrow> 'd inattach \<Rightarrow> 'd inattach" where
  "InAttachablePort_setNewSriListener cb p = p\<lparr>ia_newSriCallback := cb\<rparr>"

definition InAttachablePort_setSriChangeListener :: "bool \<Rightarrow> 'd inattach \<Rightarrow> 'd inattach" where
  "InAttachablePort_setSriChangeListener cb p = p\<lparr>ia_sriChangeCallback := cb\<rparr>"

definition InAttachablePort_setBitSize :: "int \<Rightarrow> 'd inattach \<Rightarrow> 'd inattach" where
  "InAttachablePort_setBitSize n p = p\<lparr>ia_stats := InStats_setBitSize n (ia_stats p)\<rparr>"

definition InAttachablePort_enableStats :: "bool \<Rightarrow> 'd inattach \<Rightarrow> 'd inattach" where
  "InAttachablePort_enableStats b p = p\<lparr>ia_stats := InStats_setEnabled b (ia_stats p)\<rparr>"

text \<open>\<open>InStats.update\<close> needs four arguments and gets three.\<close>

definition InAttachablePort_updateStats :: "int \<Rightarrow> rat \<Rightarrow> string \<Rightarrow> ('d inattach, unit) action" where
  "InAttachablePort_updateStats elementsReceived queueSize sid = act_raise TypeError"

definition InAttachablePort_get_state :: "'d inattach \<Rightarrow> port_state" where
  "InAttachablePort_get_state p =
     (let numAttachedStreams = length (ia_attachedStreams p)
      in if numAttachedStreams = 0 then IDLE else if numAttachedStreams = 1 then BUSY else ACTIVE)"

definition InAttachablePort_get_usageState :: "'d inattach \<Rightarrow> port_state" where
  "InAttachablePort_get_usageState p =
     (let numAttachedStreams = length (ia_attachedStreams p)
      in if numAttachedStreams = 0 then IDLE else if numAttachedStreams = 1 then BUSY else ACTIVE)"

definition InAttachablePort_get_attachedSRIs :: "'d inattach \<Rightarrow> sri list" where
  "InAttachablePort_get_attachedSRIs p = map (fst \<circ> snd) (ia_sriDict p)"

definition InAttachablePort_get_activeSRIs :: "'d inattach \<Rightarrow> sri list" where
  "InAttachablePort_get_activeSRIs p = map (fst \<circ> snd) (ia_sriDict p)"

definition InAttachablePort_get_attachedStreams :: "'d inattach \<Rightarrow> 'd stream_def list" where
  "InAttachablePort_get_attachedStreams p = map (fst \<circ> snd) (ia_attachedStreams p)"

definition InAttachablePort_get_attachmentIds :: "'d inattach \<Rightarrow> string list" where
  "InAttachablePort_get_attachmentIds p = dkeys (ia_attachedStreams p)"

text \<open>The answer of the attach callback, counting the call; without a callback nothing is returned.\<close>

definition call_attach_cb :: "'d stream_def \<Rightarrow> string \<Rightarrow> ('d inattach, string option) action" where
  "call_attach_cb sd user p =
     (let q = p\<lparr>ia_calls := Suc (ia_calls p)\<rparr>
      in case ia_attach_cb p of
           None \<Rightarrow> (Ok None, q)
         | Some cb \<Rightarrow> (case cb (ia_calls p) sd user of None \<Rightarrow> (Exn AttachError, q) | Some r \<Rightarrow> (Ok r, q)))"

definition InAttachablePort_attach :: "'d stream_def \<Rightarrow> string \<Rightarrow> ('d inattach, string) action" where
  "InAttachablePort_attach sd user =
     act_bind (act_get (\<lambda>p. ia_uuid p (ia_calls p))) (\<lambda>uuid.
     act_bind (call_attach_cb sd user) (\<lambda>answer.
       let attachId = (case answer of None \<Rightarrow> uuid | Some a \<Rightarrow> a)
       in act_then (act_update (\<lambda>p. p\<lparr>ia_attachedStreams := dput attachId (sd, user) (ia_attachedStreams p)\<rparr>))
            (act_return attachId)))"

definition call_detach_cb :: "string \<Rightarrow> ('d inattach, unit) action" where
  "call_detach_cb attachId p = (case ia_detach_cb p of
     None \<Rightarrow> (Ok (), p)
   | Some cb \<Rightarrow> (if cb (ia_calls p) attachId then Ok () else Exn DetachError,
                 p\<lparr>ia_calls := Suc (ia_calls p)\<rparr>))"

definition InAttachablePort_detach :: "string \<Rightarrow> ('d inattach, unit) action" where
  "InAttachablePort_detach attachId =
     act_bind (act_get (\<lambda>p. dget (ia_attachedStreams p) attachId = None)) (\<lambda>unknown.
       if unknown then act_raise DetachError
       else act_then (call_detach_cb attachId)
         (act_update (\<lambda>p. p\<lparr>ia_attachedStreams := dpop attachId (ia_attachedStreams p)\<rparr>)))"

definition InAttachablePort_getStreamDefinition :: "string \<Rightarrow> 'd inattach \<Rightarrow> 'd stream_def outcome" where
  "InAttachablePort_getStreamDefinition attachId p = (case dget (ia_attachedStreams p) attachId of
     None \<Rightarrow> Raised StreamInputError | Some (sd, user) \<Rightarrow> Returned sd)"

definition InAttachablePort_getUser :: "string \<Rightarrow> 'd inattach \<Rightarrow> string outcome" where
  "InAttachablePort_getUser attachId p = (case dget (ia_attachedStreams p) attachId of
     None \<Rightarrow> Raised StreamInputError | Some (sd, user) \<Rightarrow> Returned user)"

text \<open>
  \<open>t_same == False\<close> holds in Python exactly when the number \<open>t_same\<close> is zero.
\<close>

definition ia_add_event :: "port_event \<Rightarrow> 'd inattach \<Rightarrow> 'd inattach" where
  "ia_add_event e p = p\<lparr>ia_events := ia_events p @ [e]\<rparr>"

definition InAttachablePort_pushSRI :: "sri \<Rightarrow> utctime \<Rightarrow> 'd inattach \<Rightarrow> 'd inattach" where
  "InAttachablePort_pushSRI H T p =
     (let p = (case dget (ia_sriDict p) (streamID H) of
           None \<Rightarrow> (if ia_newSriCallback p then ia_add_event (NewSri H) p else p)
         | Some (cur_H, cur_T) \<Rightarrow>
             (let s_same = (case ia_sri_cmp p of None \<Rightarrow> False | Some cmp \<Rightarrow> cmp cur_H H);
                  t_same = (case ia_time_cmp p of None \<Rightarrow> 0 | Some cmp \<Rightarrow> cmp cur_T T);
                  p = p\<lparr>ia_sriChanged := \<not> s_same \<or> t_same = 0\<rparr>
              in if ia_sriChanged p \<and> ia_sriChangeCallback p then ia_add_event (SriChange H) p else p))
      in p\<lparr>ia_sriDict := dput (streamID H) (H, T) (ia_sriDict p)\<rparr>)"

end
