(* ===== verification/OutPort.thy ===== *)
theory OutPort
  imports PortTypes
begin

text \<open>
  \<open>bulkio/output_ports.py\<close>, classes \<open>OutPort\<close> and \<open>OutNumericPort\<close>: connections, the stream
  dictionary with the connections that know each SRI, the filter table, and the sending of SRIs
  and packets. Calls to remote ports are recorded on a wire; whether a call fails is read from a
  list of faults, one entry per call, so that every pattern of failures is covered.
\<close>

section \<open>State\<close>

record filter_rule =
  fr_port_name :: string
  fr_stream_id :: string
  fr_connection_id :: string

text \<open>
  The stream object of \<open>output_streams.py\<close>; buffer, size and time are those of the buffered class.
  \<open>os_shared\<close> says that its SRI is the very object the port has on file for the stream ID, so
  that an assignment to one of its fields changes both.
\<close>

record 'a ostream =
  os_sri :: sri
  os_sriModified :: bool
  os_buffer :: "'a list"
  os_bufferSize :: nat
  os_bufferTime :: "utctime option"
  os_shared :: bool

definition OutputStream_init :: "bool \<Rightarrow> sri \<Rightarrow> 'a ostream" where
  "OutputStream_init shared H = \<lparr>os_sri = H, os_sriModified = True, os_buffer = [], os_bufferSize = 0,
     os_bufferTime = Some timestamp_notSet, os_shared = shared\<rparr>"

definition os_streamID :: "'a ostream \<Rightarrow> string" where
  "os_streamID os = streamID (os_sri os)"

datatype 'a wire_event =
    WConnect (wire_cid: string)
  | WDisconnect (wire_cid: string)
  | WSri (wire_cid: string) sri
  | WPacket (wire_cid: string) "'a list" "utctime option" bool string

record 'a outport =
  op_name :: string
  op_numeric :: bool
  op_connections :: "(string, nat) dict"
  op_stats :: outstats
  op_sriDict :: "(string, sri \<times> string list) dict"
  op_filter :: "filter_rule list"
  op_bitSize :: nat
  op_maxSamples :: nat
  op_streams :: "(string, nat) dict"
  op_heap :: "'a ostream list"
  op_locked :: bool
  op_faults :: "bool list"
  op_wire :: "'a wire_event list"

definition MAX_TRANSFER_BYTES :: nat where "MAX_TRANSFER_BYTES = 2097152"

text \<open>
  \<open>8 * int(MAX_TRANSFER_BYTES * .9) / bits\<close>; the product is below 1887437 in floating point.
\<close>

definition max_samples_per_push :: "nat \<Rightarrow> nat" where
  "max_samples_per_push bits = 8 * nat (py_int (of_nat MAX_TRANSFER_BYTES * (9 / 10))) div bits"

definition OutPort_init :: "string \<Rightarrow> nat \<Rightarrow> nat \<Rightarrow> bool \<Rightarrow> bool list \<Rightarrow> 'a outport" where
  "OutPort_init name calcsize bits numeric faults =
     (let bits = (if bits = 0 then calcsize * 8 else bits)
      in \<lparr>op_name = name, op_numeric = numeric, op_connections = [],
          op_stats = OutStats_init name 0 (int bits), op_sriDict = [], op_filter = [],
          op_bitSize = bits, op_maxSamples = max_samples_per_push bits, op_streams = [],
          op_heap = [], op_locked = False, op_faults = faults, op_wire = []\<rparr>)"

section \<open>Calls to the connected ports\<close>

definition remote_call :: "'a wire_event \<Rightarrow> 'a outport \<Rightarrow> bool \<times> 'a outport" where
  "remote_call msg p = (case op_faults p of
     [] \<Rightarrow> (True, p\<lparr>op_wire := op_wire p @ [msg]\<rparr>)
   | fault # faults \<Rightarrow>
       if fault then (False, p\<lparr>op_faults := faults\<rparr>)
       else (True, p\<lparr>op_faults := faults, op_wire := op_wire p @ [msg]\<rparr>))"

definition OutPort_isStreamRoutedToConnection :: "string \<Rightarrow> string \<Rightarrow> 'a outport \<Rightarrow> bool" where
  "OutPort_isStreamRoutedToConnection sid cid p =
     (let mine = filter (\<lambda>rule. fr_port_name rule = op_name p) (op_filter p)
      in list_ex (\<lambda>rule. fr_stream_id rule = sid \<and> fr_connection_id rule = cid) mine \<or> mine = [])"

definition OutPort_reportConnectionErrors :: "string \<Rightarrow> 'a outport \<Rightarrow> bool \<times> 'a outport" where
  "OutPort_reportConnectionErrors cid p =
     (let (n, s) = OutStats_connectionErrors cid 1 (op_stats p) in (n < 11, p\<lparr>op_stats := s\<rparr>))"

definition add_sri_connection :: "string \<Rightarrow> string \<Rightarrow> 'a outport \<Rightarrow> 'a outport" where
  "add_sri_connection sid cid p = (case dget (op_sriDict p) sid of
     None \<Rightarrow> p
   | Some (H, cs) \<Rightarrow> p\<lparr>op_sriDict := dput sid (H, List.insert cid cs) (op_sriDict p)\<rparr>)"

section \<open>Connections\<close>

text \<open>
  \<open>obj\<close> is the object reference, and \<open>is_a\<close> the answer of the remote type check: nothing when the
  object cannot be reached.
\<close>

definition OutPort_connectPort ::
    "nat option \<Rightarrow> bool option \<Rightarrow> string \<Rightarrow> 'a outport \<Rightarrow> 'a outport outcome" where
  "OutPort_connectPort obj is_a cid p = (case obj of
     None \<Rightarrow> Raised InvalidPort
   | Some ref \<Rightarrow>
       (case is_a of
          None \<Rightarrow> Raised InvalidPort
        | Some valid \<Rightarrow>
            if \<not> valid then Raised InvalidPort
            else if op_locked p then Blocked
            else if dget (op_connections p) cid \<noteq> None then Raised OccupiedPort
            else Returned (p\<lparr>op_connections := dput cid ref (op_connections p),
                             op_stats := OutStats_add cid (op_stats p),
                             op_wire := op_wire p @ [WConnect cid]\<rparr>)))"

text \<open>One stream of the loop in \<open>disconnectPort\<close>; a failure is only logged.\<close>

definition send_last :: "string \<Rightarrow> string \<Rightarrow> 'a outport \<Rightarrow> 'a outport" where
  "send_last cid sid p =
     (if \<not> OutPort_isStreamRoutedToConnection sid cid p then p
      else snd (remote_call (WPacket cid [] (Some timestamp_notSet) True sid) p))"

definition OutPort_disconnectPort :: "string \<Rightarrow> 'a outport \<Rightarrow> 'a outport outcome" where
  "OutPort_disconnectPort cid p =
     (if op_locked p then Blocked
      else if dget (op_connections p) cid = None then Raised InvalidPort
      else
        let p = p\<lparr>op_connections := dpop cid (op_connections p)\<rparr>;
            p = fold (send_last cid) (dkeys (op_sriDict p)) p;
            p = p\<lparr>op_stats := OutStats_remove cid (op_stats p)\<rparr>
        in Returned (p\<lparr>op_sriDict := map (\<lambda>(sid, H, cs). (sid, H, removeAll cid cs)) (op_sriDict p),
                       op_wire := op_wire p @ [WDisconnect cid]\<rparr>))"

definition OutPort_enableStats :: "bool \<Rightarrow> 'a outport \<Rightarrow> 'a outport" where
  "OutPort_enableStats b p = p\<lparr>op_stats := OutStats_setEnabled b (op_stats p)\<rparr>"

text \<open>\<open>OutStats\<close> has no \<open>setBitSize\<close>.\<close>

definition OutPort_setBitSize :: "int \<Rightarrow> 'a outport \<Rightarrow> 'a outport outcome" where
  "OutPort_setBitSize n p = Raised AttributeError"

definition OutPort_get_connections :: "'a outport \<Rightarrow> (string \<times> nat) list outcome" where
  "OutPort_get_connections p = (if op_locked p then Blocked else Returned (op_connections p))"

definition OutPort_get_statistics ::
    "rat \<Rightarrow> 'a outport \<Rightarrow> (string \<times> portStatistics) option list option outcome" where
  "OutPort_get_statistics now p =
     (if op_locked p then Blocked else Returned (OutStats_retrieve now (op_stats p)))"

definition OutPort_get_state :: "'a outport \<Rightarrow> port_state outcome" where
  "OutPort_get_state p =
     (if op_locked p then Blocked
      else Returned (if length (op_connections p) = 0 then IDLE else ACTIVE))"

definition OutPort_get_activeSRIs :: "'a outport \<Rightarrow> sri list outcome" where
  "OutPort_get_activeSRIs p =
     (if op_locked p then Blocked else Returned (map (fst \<circ> snd) (op_sriDict p)))"

definition OutPort_updateConnectionFilter ::
    "filter_rule list option \<Rightarrow> 'a outport \<Rightarrow> 'a outport outcome" where
  "OutPort_updateConnectionFilter t p =
     (if op_locked p then Blocked
      else Returned (p\<lparr>op_filter := (case t of None \<Rightarrow> [] | Some rules \<Rightarrow> rules)\<rparr>))"

definition OutPort_getStream :: "string \<Rightarrow> 'a outport \<Rightarrow> nat option outcome" where
  "OutPort_getStream sid p = (if op_locked p then Blocked else Returned (dget (op_streams p) sid))"

definition OutPort_getStreams :: "'a outport \<Rightarrow> nat list outcome" where
  "OutPort_getStreams p = (if op_locked p then Blocked else Returned (map snd (op_streams p)))"

section \<open>Sending\<close>

definition OutPort_newStream :: "bool \<Rightarrow> sri \<Rightarrow> 'a outport \<Rightarrow> nat \<times> 'a outport" where
  "OutPort_newStream shared H p =
     (length (op_heap p),
      p\<lparr>op_heap := op_heap p @ [OutputStream_init shared H],
        op_streams := dput (streamID H) (length (op_heap p)) (op_streams p)\<rparr>)"

definition push_sri_to :: "sri \<Rightarrow> string \<Rightarrow> 'a outport \<Rightarrow> 'a outport" where
  "push_sri_to H cid p =
     (if \<not> OutPort_isStreamRoutedToConnection (streamID H) cid p then p
      else
        let (sent, p) = remote_call (WSri cid H) p
        in if sent then add_sri_connection (streamID H) cid p
           else snd (OutPort_reportConnectionErrors cid p))"

text \<open>The entry gets a copy of the SRI, which only the stream made from it shares.\<close>

definition put_sri :: "sri \<Rightarrow> 'a outport \<Rightarrow> 'a outport" where
  "put_sri H p = p\<lparr>op_sriDict := dput (streamID H) (H, []) (op_sriDict p),
     op_heap := map (\<lambda>os. if os_streamID os = streamID H then os\<lparr>os_shared := False\<rparr> else os) (op_heap p)\<rparr>"

definition OutPort_pushSRI :: "sri \<Rightarrow> 'a outport \<Rightarrow> 'a outport outcome" where
  "OutPort_pushSRI H p =
     (if op_locked p then Blocked
      else
        let p = put_sri H p;
            p = (if dget (op_streams p) (streamID H) = None then snd (OutPort_newStream True H p) else p)
        in Returned (fold (push_sri_to H) (dkeys (op_connections p)) p))"

text \<open>
  One connection of the loop in \<open>_pushPacket\<close>. Every exception of the body is caught and counted.
\<close>

definition send_packet_to ::
    "rat \<Rightarrow> 'a list \<Rightarrow> utctime option \<Rightarrow> bool \<Rightarrow> string \<Rightarrow> string \<Rightarrow> 'a outport \<Rightarrow> 'a outport" where
  "send_packet_to now data T EOS sid cid p =
     (let (sent, p) = remote_call (WPacket cid data T EOS sid) p
      in if \<not> sent then snd (OutPort_reportConnectionErrors cid p)
         else case OutStats_update now (int (length data)) 0 EOS sid cid (op_stats p) of
                Returned s \<Rightarrow> p\<lparr>op_stats := s\<rparr>
              | _ \<Rightarrow> snd (OutPort_reportConnectionErrors cid p))"

definition push_packet_to ::
    "rat \<Rightarrow> 'a list \<Rightarrow> utctime option \<Rightarrow> bool \<Rightarrow> string \<Rightarrow> string \<Rightarrow> 'a outport \<Rightarrow> 'a outport" where
  "push_packet_to now data T EOS sid cid p =
     (if \<not> OutPort_isStreamRoutedToConnection sid cid p then p
      else case dget (op_sriDict p) sid of
        None \<Rightarrow> snd (OutPort_reportConnectionErrors cid p)
      | Some (H, cs) \<Rightarrow>
          if cid \<notin> set cs \<and> length data = 0 then p
          else if cid \<notin> set cs then
            (let (sent, p) = remote_call (WSri cid H) p
             in if sent then send_packet_to now data T EOS sid cid (add_sri_connection sid cid p)
                else snd (OutPort_reportConnectionErrors cid p))
          else send_packet_to now data T EOS sid cid p)"

definition OutPort_sendAll ::
    "rat \<Rightarrow> 'a list \<Rightarrow> utctime option \<Rightarrow> bool \<Rightarrow> string \<Rightarrow> 'a outport \<Rightarrow> 'a outport" where
  "OutPort_sendAll now data T EOS sid p =
     (let p = fold (push_packet_to now data T EOS sid) (dkeys (op_connections p)) p
      in if EOS then p\<lparr>op_sriDict := dpop sid (op_sriDict p)\<rparr> else p)"

text \<open>
  \<open>OutNumericPort._pushPacket\<close>: data beyond the transfer limit goes out in sub-packets of whole
  frames; \<open>xrange\<close> with step 0 raises a \<open>ValueError\<close>.
\<close>

fun subpackets ::
    "nat \<Rightarrow> nat \<Rightarrow> rat \<Rightarrow> 'a list \<Rightarrow> utctime \<Rightarrow> bool \<Rightarrow> ('a list \<times> utctime \<times> bool) list" where
  "subpackets n item xd data T EOS =
     (if n = 0 \<or> data = [] then []
      else
        let chunk = take n data; rest = drop n data;
            T' = (if tcstatus T = TCS_VALID
                  then timestamp_add T (of_nat (length chunk div item) * xd) else T)
        in (chunk, T, if rest = [] then EOS else False) # subpackets n item xd rest T' EOS)"

declare subpackets.simps [simp del]

definition frame_size :: "sri \<Rightarrow> nat" where
  "frame_size H = item_size H * (if 0 < subsize H then nat (subsize H) else 1)"

definition OutPort_numericPush ::
    "rat \<Rightarrow> 'a list \<Rightarrow> utctime option \<Rightarrow> bool \<Rightarrow> string \<Rightarrow> 'a outport \<Rightarrow> 'a outport outcome" where
  "OutPort_numericPush now data T EOS sid p =
     (if length data \<le> op_maxSamples p then Returned (OutPort_sendAll now data T EOS sid p)
      else case dget (op_sriDict p) sid of
        None \<Rightarrow> Raised KeyError
      | Some (H, _) \<Rightarrow>
          let max_samples = op_maxSamples p div frame_size H * frame_size H
          in if max_samples = 0 then Raised ValueError
             else case T of
               None \<Rightarrow> Raised AttributeError
             | Some t \<Rightarrow> Returned (fold (\<lambda>(d, t, e). OutPort_sendAll now d (Some t) e sid)
                 (subpackets max_samples (item_size H) (xdelta H) data t EOS) p))"

definition OutPort_sendPackets ::
    "rat \<Rightarrow> 'a list \<Rightarrow> utctime option \<Rightarrow> bool \<Rightarrow> string \<Rightarrow> 'a outport \<Rightarrow> 'a outport outcome" where
  "OutPort_sendPackets now data T EOS sid p =
     (if op_numeric p then OutPort_numericPush now data T EOS sid p
      else Returned (OutPort_sendAll now data T EOS sid p))"

definition OutPort_pushPacket ::
    "rat \<Rightarrow> 'a list \<Rightarrow> utctime option \<Rightarrow> bool \<Rightarrow> string \<Rightarrow> 'a outport \<Rightarrow> 'a outport outcome" where
  "OutPort_pushPacket now data T EOS sid p =
     obind (if dget (op_sriDict p) sid = None then OutPort_pushSRI (sri_default sid) p else Returned p)
       (\<lambda>p. if op_locked p then Blocked
            else obind (OutPort_sendPackets now data T EOS sid p) (\<lambda>p.
              if EOS then
                (if dget (op_streams p) sid = None then Raised KeyError
                 else Returned (p\<lparr>op_streams := dpop sid (op_streams p)\<rparr>))
              else Returned p))"

end
