(* ===== verification/AttachStreams.thy ===== *)
theory AttachStreams
  imports InAttachable OutPort
begin

text \<open>
  \<open>bulkio/output_ports.py\<close>, the classes \<open>StreamAttachment\<close>, \<open>Stream\<close> and \<open>StreamContainer\<close> inside
  \<open>OutAttachablePort\<close>: the books of an output port on which receiver holds which attachment of which
  stream. The receivers are remote: their operations are arguments (\<open>peer_api\<close>) over a state \<open>'r\<close>, and
  any call may fail. A stream object is changed together with the state of the receivers.
\<close>

section \<open>State\<close>

text \<open>Attaching answers with an identifier or raises; the other two calls say whether they returned.\<close>

record ('d, 'r) peer_api =
  peer_attach :: "nat \<Rightarrow> 'd stream_def \<Rightarrow> string \<Rightarrow> 'r \<Rightarrow> string option \<times> 'r"
  peer_detach :: "nat \<Rightarrow> string \<Rightarrow> 'r \<Rightarrow> bool \<times> 'r"
  peer_pushSRI :: "nat \<Rightarrow> sri \<Rightarrow> utctime \<Rightarrow> 'r \<Rightarrow> bool \<times> 'r"

record attachment =
  at_connectionId :: string
  at_attachId :: string
  at_inputPort :: nat

record 'd attach_stream =
  as_streamDef :: "'d stream_def"
  as_name :: string
  as_streamId :: string
  as_attachments :: "attachment list"
  as_sri :: "sri option"
  as_time :: "utctime option"

definition Stream_init :: "'d stream_def \<Rightarrow> string \<Rightarrow> string \<Rightarrow> 'd attach_stream" where
  "Stream_init sd name sid = \<lparr>as_streamDef = sd, as_name = name, as_streamId = sid,
     as_attachments = [], as_sri = None, as_time = None\<rparr>"

type_synonym ('d, 'r) on_stream = "('d attach_stream \<times> 'r, unit) action"

type_synonym ('d, 'r) on_streams = "('d attach_stream list \<times> 'r, unit) action"

section \<open>\<open>Stream\<close>\<close>

text \<open>
  Nothing gives a stream its port, so \<open>StreamAttachment.detach\<close> neither counts nor reports: it calls the
  receiver and swallows an exception.
\<close>

definition StreamAttachment_detach :: "('d, 'r) peer_api \<Rightarrow> attachment \<Rightarrow> 'r \<Rightarrow> 'r" where
  "StreamAttachment_detach api att r = snd (peer_detach api (at_inputPort att) (at_attachId att) r)"

text \<open>The loops over a copy of the list that detach and remove the attachments of one kind.\<close>

definition detach_where :: "('d, 'r) peer_api \<Rightarrow> (attachment \<Rightarrow> bool) \<Rightarrow> ('d, 'r) on_stream" where
  "detach_where api P = act_update (\<lambda>(st, r).
     (st\<lparr>as_attachments := filter (Not \<circ> P) (as_attachments st)\<rparr>,
      fold (StreamAttachment_detach api) (filter P (as_attachments st)) r))"

definition Stream_detachAll :: "('d, 'r) peer_api \<Rightarrow> ('d, 'r) on_stream" where
  "Stream_detachAll api = detach_where api (\<lambda>att. True)"

definition Stream_detachByConnectionId :: "('d, 'r) peer_api \<Rightarrow> string \<Rightarrow> ('d, 'r) on_stream" where
  "Stream_detachByConnectionId api cid =
     detach_where api (\<lambda>att. at_connectionId att = cid \<and> at_attachId att \<noteq> '''')"

definition Stream_detachByAttachId :: "('d, 'r) peer_api \<Rightarrow> string \<Rightarrow> ('d, 'r) on_stream" where
  "Stream_detachByAttachId api aid =
     detach_where api (\<lambda>att. at_attachId att \<noteq> '''' \<and> at_attachId att = aid)"

text \<open>The parameter is not called \<open>attachId\<close>: the comparison looks up a global name that does not exist.\<close>

definition Stream_detachByAttachIdConnectionId :: "string \<Rightarrow> ('d, 'r) on_stream" where
  "Stream_detachByAttachIdConnectionId cid =
     act_bind (act_get (\<lambda>(st, r). list_ex (\<lambda>att. at_attachId att \<noteq> '''') (as_attachments st)))
       (\<lambda>some. if some then act_raise NameError else act_return ())"

definition Stream_createNewAttachment :: "('d, 'r) peer_api \<Rightarrow> string \<Rightarrow> nat \<Rightarrow> ('d, 'r) on_stream" where
  "Stream_createNewAttachment api cid port = (\<lambda>(st, r).
     case peer_attach api port (as_streamDef st) (as_name st) r of
       (None, r) \<Rightarrow> (Exn RemoteError, st, r)
     | (Some aid, r) \<Rightarrow>
         (Ok (), st\<lparr>as_attachments := as_attachments st @
            [\<lparr>at_connectionId = cid, at_attachId = aid, at_inputPort = port\<rparr>]\<rparr>, r))"

definition Stream_hasConnectionId :: "string \<Rightarrow> 'd attach_stream \<Rightarrow> bool" where
  "Stream_hasConnectionId cid st = list_ex (\<lambda>att. at_connectionId att = cid) (as_attachments st)"

definition Stream_getConnectionIds :: "'d attach_stream \<Rightarrow> string list" where
  "Stream_getConnectionIds st = map at_connectionId (as_attachments st)"

definition add_connection :: "('d, 'r) peer_api \<Rightarrow> string \<Rightarrow> nat \<Rightarrow> ('d, 'r) on_stream" where
  "add_connection api cid port =
     act_bind (act_get (\<lambda>(st, r). Stream_hasConnectionId cid st)) (\<lambda>has.
       if has then act_return () else Stream_createNewAttachment api cid port)"

text \<open>The expected attachments are given by connection ID and port; theirs is no attachment ID yet.\<close>

definition Stream_updateAttachments :: "('d, 'r) peer_api \<Rightarrow> (string \<times> nat) list \<Rightarrow> ('d, 'r) on_stream" where
  "Stream_updateAttachments api expected =
     act_then (act_each (\<lambda>(cid, port). add_connection api cid port) expected)
       (act_bind (act_get (\<lambda>(st, r). filter (\<lambda>cid. cid \<notin> set (map fst expected)) (Stream_getConnectionIds st)))
         (\<lambda>connectionsToRemove. act_each (Stream_detachByConnectionId api) connectionsToRemove))"

section \<open>\<open>StreamContainer\<close>\<close>

text \<open>A loop over the streams of the container; an exception leaves the streams behind it alone.\<close>

fun each_stream :: "('d, 'r) on_stream \<Rightarrow> ('d, 'r) on_streams" where
  "each_stream m ([], r) = (Ok (), [], r)"
| "each_stream m (st # sts, r) = (case m (st, r) of
     (Ok _, st, r) \<Rightarrow> (case each_stream m (sts, r) of (res, sts, r) \<Rightarrow> (res, st # sts, r))
   | (res, st, r) \<Rightarrow> (res, st # sts, r))"

definition when_id :: "string \<Rightarrow> ('d, 'r) on_stream \<Rightarrow> ('d, 'r) on_stream" where
  "when_id sid m = act_bind (act_get (\<lambda>(st, r). as_streamId st = sid)) (\<lambda>b. act_when b m)"

text \<open>\<open>findByStreamId\<close>, with what is then done to the stream it finds.\<close>

fun with_stream :: "string \<Rightarrow> ('d, 'r) on_stream \<Rightarrow> ('d, 'r) on_streams" where
  "with_stream sid m ([], r) = (Ok (), [], r)"
| "with_stream sid m (st # sts, r) =
     (if as_streamId st = sid then (case m (st, r) of (res, st, r) \<Rightarrow> (res, st # sts, r))
      else (case with_stream sid m (sts, r) of (res, sts, r) \<Rightarrow> (res, st # sts, r)))"

definition StreamContainer_findByStreamId :: "string \<Rightarrow> 'd attach_stream list \<Rightarrow> 'd attach_stream option" where
  "StreamContainer_findByStreamId sid sts = find (\<lambda>st. as_streamId st = sid) sts"

definition StreamContainer_hasStreams :: "'d attach_stream list \<Rightarrow> bool" where
  "StreamContainer_hasStreams sts \<longleftrightarrow> 0 < length sts"

definition StreamContainer_hasStreamId :: "string \<Rightarrow> 'd attach_stream list \<Rightarrow> bool" where
  "StreamContainer_hasStreamId sid sts = list_ex (\<lambda>st. as_streamId st = sid) sts"

definition StreamContainer_getStreamIds :: "'d attach_stream list \<Rightarrow> string list" where
  "StreamContainer_getStreamIds sts = map as_streamId sts"

definition StreamContainer_addConnectionToAllStreams ::
    "('d, 'r) peer_api \<Rightarrow> string \<Rightarrow> nat \<Rightarrow> ('d, 'r) on_streams" where
  "StreamContainer_addConnectionToAllStreams api cid port = each_stream (add_connection api cid port)"

definition StreamContainer_addConnectionToStream ::
    "('d, 'r) peer_api \<Rightarrow> string \<Rightarrow> nat \<Rightarrow> string \<Rightarrow> ('d, 'r) on_streams" where
  "StreamContainer_addConnectionToStream api cid port sid =
     each_stream (when_id sid (add_connection api cid port))"

definition StreamContainer_updateSRIForAllStreams ::
    "(string, sri \<times> utctime) dict \<Rightarrow> 'd attach_stream list \<Rightarrow> 'd attach_stream list" where
  "StreamContainer_updateSRIForAllStreams currentSRIs sts =
     map (\<lambda>st. case dget currentSRIs (as_streamId st) of None \<Rightarrow> st
               | Some (H, T) \<Rightarrow> st\<lparr>as_sri := Some H, as_time := Some T\<rparr>) sts"

definition StreamContainer_updateStreamSRI :: "string \<Rightarrow> sri \<Rightarrow> 'd attach_stream list \<Rightarrow> 'd attach_stream list" where
  "StreamContainer_updateStreamSRI sid H sts =
     map (\<lambda>st. if as_streamId st = sid then st\<lparr>as_sri := Some H\<rparr> else st) sts"

definition StreamContainer_updateStreamTime :: "string \<Rightarrow> utctime \<Rightarrow> 'd attach_stream list \<Rightarrow> 'd attach_stream list" where
  "StreamContainer_updateStreamTime sid T sts =
     map (\<lambda>st. if as_streamId st = sid then st\<lparr>as_time := Some T\<rparr> else st) sts"

definition StreamContainer_updateStreamSRIAndTime ::
    "string \<Rightarrow> sri \<Rightarrow> utctime \<Rightarrow> 'd attach_stream list \<Rightarrow> 'd attach_stream list" where
  "StreamContainer_updateStreamSRIAndTime sid H T sts =
     map (\<lambda>st. if as_streamId st = sid then st\<lparr>as_sri := Some H, as_time := Some T\<rparr> else st) sts"

definition StreamContainer_addStream :: "'d attach_stream \<Rightarrow> 'd attach_stream list \<Rightarrow> 'd attach_stream list" where
  "StreamContainer_addStream st sts = sts @ [st]"

definition StreamContainer_removeStreamByStreamId :: "('d, 'r) peer_api \<Rightarrow> string \<Rightarrow> ('d, 'r) on_streams" where
  "StreamContainer_removeStreamByStreamId api sid =
     act_then (each_stream (when_id sid (Stream_detachAll api)))
       (act_update (\<lambda>(sts, r). (filter (\<lambda>st. as_streamId st \<noteq> sid) sts, r)))"

definition StreamContainer_detachByAttachIdConnectionId ::
    "('d, 'r) peer_api \<Rightarrow> string \<Rightarrow> string \<Rightarrow> ('d, 'r) on_streams" where
  "StreamContainer_detachByAttachIdConnectionId api aid cid = each_stream (detach_where api
     (\<lambda>att. at_connectionId att = cid \<and> at_attachId att \<noteq> '''' \<and> at_attachId att = aid))"

definition StreamContainer_detachAllStreams :: "('d, 'r) peer_api \<Rightarrow> ('d, 'r) on_streams" where
  "StreamContainer_detachAllStreams api = each_stream (detach_where api (\<lambda>att. at_attachId att \<noteq> ''''))"

definition StreamContainer_detachByConnectionId :: "('d, 'r) peer_api \<Rightarrow> string \<Rightarrow> ('d, 'r) on_streams" where
  "StreamContainer_detachByConnectionId api cid = each_stream (detach_where api
     (\<lambda>att. at_connectionId att = cid \<and> at_attachId att \<noteq> ''''))"

text \<open>This one detaches and leaves the attachment on the books.\<close>

definition StreamContainer_detachByAttachId :: "('d, 'r) peer_api \<Rightarrow> string \<Rightarrow> ('d, 'r) on_streams" where
  "StreamContainer_detachByAttachId api aid = each_stream (act_update (\<lambda>(st, r). (st,
     fold (StreamAttachment_detach api)
       (filter (\<lambda>att. at_attachId att \<noteq> '''' \<and> at_attachId att = aid) (as_attachments st)) r)))"

definition StreamContainer_findStreamAttachmentsByAttachId :: "string \<Rightarrow> 'd attach_stream list \<Rightarrow> attachment list" where
  "StreamContainer_findStreamAttachmentsByAttachId aid sts =
     filter (\<lambda>att. at_attachId att = aid) (concat (map as_attachments sts))"

end
