(* ===== verification/OutAttachable.thy ===== *)
theory OutAttachable
  imports AttachStreams
begin

text \<open>
  \<open>bulkio/output_ports.py\<close>, class \<open>OutAttachablePort\<close>: connections, streams, the filter table that routes
  streams to connections, and the SRIs on file. \<open>oa_locked\<close> is \<open>port_lock\<close> left behind by an earlier
  operation: whoever waits for it then waits for ever. Within an operation the lock is not contended.
\<close>

section \<open>State\<close>

record ('d, 'r) outattach =
  oa_name :: string
  oa_outConnections :: "(string, nat) dict"
  oa_stats :: outstats
  oa_container :: "'d attach_stream list"
  oa_sriDict :: "(string, sri \<times> utctime \<times> string list) dict"
  oa_filterTable :: "filter_rule list"
  oa_locked :: bool
  oa_peers :: 'r

type_synonym ('d, 'r, 'a) port_action = "(('d, 'r) outattach, 'a) action"

definition OutAttachablePort_init :: "string \<Rightarrow> 'r \<Rightarrow> ('d, 'r) outattach" where
  "OutAttachablePort_init name peers = \<lparr>oa_name = name, oa_outConnections = [],
     oa_stats = OutStats_init name 0 8, oa_container = [], oa_sriDict = [], oa_filterTable = [],
     oa_locked = False, oa_peers = peers\<rparr>"

definition with_lock :: "('d, 'r, 'a) port_action \<Rightarrow> ('d, 'r, 'a) port_action" where
  "with_lock m p = (if oa_locked p then (Hangs, p) else m p)"

definition on_container :: "('d, 'r) on_streams \<Rightarrow> ('d, 'r, unit) port_action" where
  "on_container m p = (case m (oa_container p, oa_peers p) of
     (res, sts, r) \<Rightarrow> (res, p\<lparr>oa_container := sts, oa_peers := r\<rparr>))"

definition OutAttachablePort_reportConnectionErrors :: "string \<Rightarrow> ('d, 'r) outattach \<Rightarrow> ('d, 'r) outattach" where
  "OutAttachablePort_reportConnectionErrors cid p =
     p\<lparr>oa_stats := snd (OutStats_connectionErrors cid 1 (oa_stats p))\<rparr>"

section \<open>Queries\<close>

text \<open>\<open>_get_state\<close> looks at an attribute that the port does not have.\<close>

definition OutAttachablePort_get_state :: "('d, 'r, port_state) port_action" where
  "OutAttachablePort_get_state = with_lock (act_raise AttributeError)"

definition OutAttachablePort_get_attachedSRIs :: "('d, 'r, sri list) port_action" where
  "OutAttachablePort_get_attachedSRIs = with_lock (act_get (\<lambda>p. map (fst \<circ> snd) (oa_sriDict p)))"

definition OutAttachablePort_attachedStreams :: "('d, 'r) outattach \<Rightarrow> 'd stream_def list" where
  "OutAttachablePort_attachedStreams p = map as_streamDef (oa_container p)"

definition OutAttachablePort_attachmentIds :: "string \<Rightarrow> ('d, 'r) outattach \<Rightarrow> string list" where
  "OutAttachablePort_attachmentIds sid p = (case find (\<lambda>st. as_streamId st = sid) (oa_container p) of
     None \<Rightarrow> [] | Some st \<Rightarrow> map at_attachId (as_attachments st))"

definition streams_of_attachment :: "string \<Rightarrow> ('d, 'r) outattach \<Rightarrow> 'd attach_stream list" where
  "streams_of_attachment aid p = concat (map (\<lambda>st. map (\<lambda>att. st)
     (filter (\<lambda>att. at_attachId att = aid) (as_attachments st))) (oa_container p))"

definition OutAttachablePort_getStreamDefinition :: "string \<Rightarrow> ('d, 'r) outattach \<Rightarrow> 'd stream_def list" where
  "OutAttachablePort_getStreamDefinition aid p = map as_streamDef (streams_of_attachment aid p)"

definition OutAttachablePort_getUser :: "string \<Rightarrow> ('d, 'r) outattach \<Rightarrow> string list" where
  "OutAttachablePort_getUser aid p = map as_name (streams_of_attachment aid p)"

section \<open>SRIs\<close>

text \<open>A call of \<open>pushSRI\<close> on a connection, and the entry in the set of connections that know the SRI.\<close>

definition push_to_peer ::
    "('d, 'r) peer_api \<Rightarrow> sri \<Rightarrow> utctime \<Rightarrow> string \<Rightarrow> string \<Rightarrow> nat \<Rightarrow> ('d, 'r, unit) port_action" where
  "push_to_peer api H T sid cid ref p = (case peer_pushSRI api ref H T (oa_peers p) of
     (False, r) \<Rightarrow> (Exn RemoteError, p\<lparr>oa_peers := r\<rparr>)
   | (True, r) \<Rightarrow> (Ok (), p\<lparr>oa_peers := r, oa_sriDict := (case dget (oa_sriDict p) sid of
        None \<Rightarrow> oa_sriDict p
      | Some (H', T', cs) \<Rightarrow> dput sid (H', T', List.insert cid cs) (oa_sriDict p))\<rparr>))"

definition push_known_sri ::
    "('d, 'r) peer_api \<Rightarrow> string \<Rightarrow> string \<Rightarrow> ('d, 'r, unit) port_action" where
  "push_known_sri api sid cid p = (case dget (oa_sriDict p) sid of
     None \<Rightarrow> (Ok (), p)
   | Some (H, T, cs) \<Rightarrow>
       if cid \<in> set cs then (Ok (), p)
       else (case dget (oa_outConnections p) cid of
          None \<Rightarrow> (Ok (), p)
        | Some ref \<Rightarrow> push_to_peer api H T sid cid ref p))"

definition OutAttachablePort_updateSRIForAllConnections :: "('d, 'r) peer_api \<Rightarrow> ('d, 'r, unit) port_action" where
  "OutAttachablePort_updateSRIForAllConnections api =
     act_bind (act_get oa_container) (act_each (\<lambda>st.
       act_each (push_known_sri api (as_streamId st)) (Stream_getConnectionIds st)))"

text \<open>
  The connections to which a stream goes when it is pushed or added: once for each rule that names it
  and the connection, or all connections when no rule names the port.
\<close>

definition port_listed :: "('d, 'r) outattach \<Rightarrow> bool" where
  "port_listed p \<longleftrightarrow> list_ex (\<lambda>ft. fr_port_name ft = oa_name p) (oa_filterTable p)"

definition listed_targets :: "string \<Rightarrow> ('d, 'r) outattach \<Rightarrow> (string \<times> nat) list" where
  "listed_targets sid p = concat (map (\<lambda>(cid, ref). map (\<lambda>ft. (cid, ref))
     (filter (\<lambda>ft. fr_port_name ft = oa_name p \<and> fr_connection_id ft = cid \<and> fr_stream_id ft = sid)
        (oa_filterTable p))) (oa_outConnections p))"

definition stream_targets :: "string \<Rightarrow> ('d, 'r) outattach \<Rightarrow> (string \<times> nat) list" where
  "stream_targets sid p = (if port_listed p then listed_targets sid p else oa_outConnections p)"

text \<open>A failure is counted and otherwise ignored.\<close>

definition push_or_report ::
    "('d, 'r) peer_api \<Rightarrow> sri \<Rightarrow> utctime \<Rightarrow> string \<times> nat \<Rightarrow> ('d, 'r, unit) port_action" where
  "push_or_report api H T = (\<lambda>(cid, ref). act_catch (push_to_peer api H T (streamID H) cid ref)
     (\<lambda>e. act_update (OutAttachablePort_reportConnectionErrors cid)))"

definition OutAttachablePort_pushSRI :: "('d, 'r) peer_api \<Rightarrow> sri \<Rightarrow> utctime \<Rightarrow> ('d, 'r, unit) port_action" where
  "OutAttachablePort_pushSRI api H T = with_lock (
     act_then (act_update (\<lambda>p. p\<lparr>oa_sriDict := dput (streamID H) (H, T, []) (oa_sriDict p),
         oa_container := StreamContainer_updateStreamSRIAndTime (streamID H) H T (oa_container p)\<rparr>))
       (act_bind (act_get (stream_targets (streamID H))) (act_each (push_or_report api H T))))"

section \<open>Connections\<close>

text \<open>\<open>OutPort.connectPort\<close>; \<open>obj\<close> and \<open>is_a\<close> are the object and the answer of its type check.\<close>

definition OutAttachablePort_connect_base ::
    "nat option \<Rightarrow> bool option \<Rightarrow> string \<Rightarrow> ('d, 'r, unit) port_action" where
  "OutAttachablePort_connect_base obj is_a cid = (case obj of
     None \<Rightarrow> act_raise InvalidPort
   | Some ref \<Rightarrow>
       if is_a \<noteq> Some True then act_raise InvalidPort
       else with_lock (act_bind (act_get (\<lambda>p. dget (oa_outConnections p) cid \<noteq> None)) (\<lambda>occupied.
         if occupied then act_raise OccupiedPort
         else act_update (\<lambda>p. p\<lparr>oa_outConnections := dput cid ref (oa_outConnections p),
                              oa_stats := OutStats_add cid (oa_stats p)\<rparr>))))"

definition connect_by_rule ::
    "('d, 'r) peer_api \<Rightarrow> string \<Rightarrow> nat \<Rightarrow> filter_rule \<Rightarrow> ('d, 'r, unit) port_action" where
  "connect_by_rule api cid port ft = act_bind (act_get oa_name) (\<lambda>name.
     if fr_port_name ft = name \<and> fr_connection_id ft = cid
     then on_container (StreamContainer_addConnectionToStream api cid port (fr_stream_id ft))
     else act_return ())"

definition OutAttachablePort_connectPort ::
    "('d, 'r) peer_api \<Rightarrow> nat option \<Rightarrow> bool option \<Rightarrow> string \<Rightarrow> ('d, 'r, unit) port_action" where
  "OutAttachablePort_connectPort api obj is_a cid =
     act_then (OutAttachablePort_connect_base obj is_a cid) (with_lock (act_catch
       (act_bind (act_bind (act_get oa_outConnections) (\<lambda>conns. act_lookup conns cid)) (\<lambda>port.
        act_then (act_bind (act_get oa_filterTable) (act_each (connect_by_rule api cid port)))
        (act_then (act_bind (act_get port_listed) (\<lambda>portListed.
            if portListed then act_return ()
            else on_container (StreamContainer_addConnectionToAllStreams api cid port)))
          (OutAttachablePort_updateSRIForAllConnections api))))
       (\<lambda>e. act_raise InvalidPort)))"

definition OutAttachablePort_disconnectPort :: "('d, 'r) peer_api \<Rightarrow> string \<Rightarrow> ('d, 'r, unit) port_action" where
  "OutAttachablePort_disconnectPort api cid = with_lock (
     act_then (on_container (StreamContainer_detachByConnectionId api cid))
       (act_update (\<lambda>p.
          if dget (oa_outConnections p) cid = None then p
          else p\<lparr>oa_outConnections := dpop cid (oa_outConnections p),
                 oa_sriDict := map (\<lambda>(sid, H, T, cs). (sid, H, T, removeAll cid cs)) (oa_sriDict p)\<rparr>)))"

section \<open>Streams\<close>

text \<open>Attaching a new stream, which is not in the container yet, to a list of connections.\<close>

fun attach_each ::
    "('d, 'r) peer_api \<Rightarrow> (string \<times> nat) list \<Rightarrow> 'd attach_stream \<Rightarrow> ('d, 'r, 'd attach_stream) port_action" where
  "attach_each api [] st p = (Ok st, p)"
| "attach_each api ((cid, port) # targets) st p =
     (case Stream_createNewAttachment api cid port (st, oa_peers p) of
        (Ok _, st, r) \<Rightarrow> attach_each api targets st (p\<lparr>oa_peers := r\<rparr>)
      | (Exn e, st, r) \<Rightarrow> (Exn e, OutAttachablePort_reportConnectionErrors cid (p\<lparr>oa_peers := r\<rparr>))
      | (Hangs, st, r) \<Rightarrow> (Hangs, p\<lparr>oa_peers := r\<rparr>))"

text \<open>A listed stream takes over the SRI on file only with its first attachment.\<close>

definition new_stream :: "'d stream_def \<Rightarrow> ('d, 'r) outattach \<Rightarrow> 'd attach_stream" where
  "new_stream sd p =
     (let st = Stream_init sd '''' (sd_id sd)
      in if port_listed p \<and> oa_outConnections p \<noteq> [] \<and> listed_targets (sd_id sd) p = [] then st
         else case dget (oa_sriDict p) (sd_id sd) of
           None \<Rightarrow> st
         | Some (H, T, cs) \<Rightarrow> st\<lparr>as_sri := Some H, as_time := Some T\<rparr>)"

definition OutAttachablePort_addStream :: "('d, 'r) peer_api \<Rightarrow> 'd stream_def \<Rightarrow> ('d, 'r, bool) port_action" where
  "OutAttachablePort_addStream api sd = with_lock (
     act_bind (act_get (\<lambda>p. StreamContainer_hasStreamId (sd_id sd) (oa_container p))) (\<lambda>known.
       if known then act_return False
       else act_bind (act_get (new_stream sd)) (\<lambda>st.
         act_bind (act_get (stream_targets (sd_id sd))) (\<lambda>targets.
         act_bind (attach_each api targets st) (\<lambda>st.
         act_then (act_update (\<lambda>p. p\<lparr>oa_container := StreamContainer_addStream st (oa_container p)\<rparr>))
           (act_return True))))))"

definition OutAttachablePort_removeStream :: "('d, 'r) peer_api \<Rightarrow> string \<Rightarrow> ('d, 'r, unit) port_action" where
  "OutAttachablePort_removeStream api sid = on_container (StreamContainer_removeStreamByStreamId api sid)"

text \<open>For an unknown stream the early \<open>return\<close> leaves the lock acquired.\<close>

definition OutAttachablePort_updateStream :: "('d, 'r) peer_api \<Rightarrow> 'd stream_def \<Rightarrow> ('d, 'r, bool) port_action" where
  "OutAttachablePort_updateStream api sd = with_lock (
     act_bind (act_get (\<lambda>p. StreamContainer_hasStreamId (sd_id sd) (oa_container p))) (\<lambda>known.
       if \<not> known then act_then (act_update (\<lambda>p. p\<lparr>oa_locked := True\<rparr>)) (act_return False)
       else act_then (OutAttachablePort_removeStream api (sd_id sd)) (OutAttachablePort_addStream api sd)))"

definition OutAttachablePort_attach :: "('d, 'r) peer_api \<Rightarrow> 'd stream_def \<Rightarrow> ('d, 'r, string) port_action" where
  "OutAttachablePort_attach api sd =
     act_then (OutAttachablePort_removeStream api (sd_id sd))
       (act_bind (OutAttachablePort_addStream api sd) (\<lambda>added. act_return ''''))"

text \<open>
  \<open>detach\<close> by attachment ID calls \<open>StreamAttachment.detach\<close> with an argument that it does not take; an
  empty string is no ID. Without any ID all attachments are detached and all streams forgotten.
\<close>

definition OutAttachablePort_detach :: "('d, 'r) peer_api \<Rightarrow> string \<Rightarrow> string \<Rightarrow> ('d, 'r, unit) port_action" where
  "OutAttachablePort_detach api aid cid = with_lock (
     act_then (act_when (cid \<noteq> '''') (on_container (each_stream (Stream_detachByConnectionId api cid))))
     (act_then (act_bind (act_get (\<lambda>p. list_ex (\<lambda>st. list_ex (\<lambda>att. at_attachId att = aid) (as_attachments st))
           (oa_container p))) (\<lambda>found. act_when (aid \<noteq> '''' \<and> found) (act_raise TypeError)))
       (act_when (aid = '''' \<and> cid = '''')
          (act_then (on_container (each_stream (Stream_detachAll api)))
             (act_update (\<lambda>p. p\<lparr>oa_container := []\<rparr>))))))"

section \<open>The filter table\<close>

text \<open>One entry of the new table: the streams it finds and the attachments it expects.\<close>

definition filter_entry ::
    "('d, 'r) outattach \<Rightarrow> filter_rule \<Rightarrow> (string, bool) dict \<times> (string, (string \<times> nat) list) dict \<Rightarrow>
     (string, bool) dict \<times> (string, (string \<times> nat) list) dict" where
  "filter_entry p entry = (\<lambda>(streamsFound, streamAttachments).
     if fr_port_name entry \<noteq> oa_name p then (streamsFound, streamAttachments)
     else case dget (oa_outConnections p) (fr_connection_id entry) of
       None \<Rightarrow> (streamsFound, streamAttachments)
     | Some connectedPort \<Rightarrow>
         if StreamContainer_hasStreamId (fr_stream_id entry) (oa_container p)
         then (dput (fr_stream_id entry) True streamsFound,
               dput (fr_stream_id entry)
                 ((case dget streamAttachments (fr_stream_id entry) of None \<Rightarrow> [] | Some atts \<Rightarrow> atts) @
                  [(fr_connection_id entry, connectedPort)]) streamAttachments)
         else (streamsFound, streamAttachments))"

definition OutAttachablePort_updateConnectionFilter ::
    "('d, 'r) peer_api \<Rightarrow> filter_rule list option \<Rightarrow> ('d, 'r, unit) port_action" where
  "OutAttachablePort_updateConnectionFilter api table = with_lock (
     act_then (act_update (\<lambda>p. p\<lparr>oa_filterTable := (case table of None \<Rightarrow> [] | Some rules \<Rightarrow> rules)\<rparr>))
     (act_bind (act_get (\<lambda>p. fold (filter_entry p) (oa_filterTable p)
          (fold (\<lambda>sid. dput sid False) (StreamContainer_getStreamIds (oa_container p)) [], [])))
       (\<lambda>(streamsFound, streamAttachments).
          act_then (act_each (\<lambda>(sid, expected). on_container
              (with_stream sid (Stream_updateAttachments api expected))) streamAttachments)
          (act_then (act_bind (act_get port_listed) (\<lambda>hasPortEntry.
              if hasPortEntry
              then act_each (\<lambda>(sid, found).
                act_when (\<not> found) (on_container (with_stream sid (Stream_detachAll api)))) streamsFound
              else act_bind (act_get oa_outConnections) (act_each (\<lambda>(cid, port).
                on_container (StreamContainer_addConnectionToAllStreams api cid port)))))
            (OutAttachablePort_updateSRIForAllConnections api)))))"

end
