(* ===== verification/AttachBooks.thy ===== *)
theory AttachBooks
  imports OutAttachable
begin

text \<open>
  What an \<open>OutAttachablePort\<close> relies on in its receivers, as a locale, and what follows for its books:
  an attachment on the books is one the receiver holds, under that ID and for that stream.
\<close>

section \<open>Loops that establish a fact about each element\<close>

lemma act_then_Ok:
  "act_then m n s = (Ok y, s') \<longleftrightarrow> (\<exists>x t. m s = (Ok x, t) \<and> n t = (Ok y, s'))"
  by (auto simp: act_then_def act_bind_def split: prod.splits result.splits)

lemma act_bind_Ok:
  "act_bind m f s = (Ok y, s') \<longleftrightarrow> (\<exists>x t. m s = (Ok x, t) \<and> f x t = (Ok y, s'))"
  by (auto simp: act_bind_def split: prod.splits result.splits)

lemma act_catch_raise_Ok:
  "act_catch m (\<lambda>e. act_raise e') s = (Ok y, s') \<longleftrightarrow> m s = (Ok y, s')"
  by (auto simp: act_catch_def split: prod.splits result.splits)

lemma act_each_establishes:
  assumes "act_each f xs s = (Ok (), s')" "distinct xs" "P s"
    and keeps: "\<And>x. x \<in> set xs \<Longrightarrow> keeps P (f x)"
    and establish: "\<And>x s s'. x \<in> set xs \<Longrightarrow> P s \<Longrightarrow> f x s = (Ok (), s') \<Longrightarrow> Q x s'"
    and frame: "\<And>x y s s'. x \<in> set xs \<Longrightarrow> y \<in> set xs \<Longrightarrow> x \<noteq> y \<Longrightarrow> P s \<Longrightarrow> Q x s \<Longrightarrow> f y s = (Ok (), s') \<Longrightarrow> Q x s'"
  shows "P s' \<and> (\<forall>x \<in> set xs. Q x s')"
proof -
  have "P s' \<and> (\<forall>x \<in> done \<union> set ys. Q x s')"
    if "act_each f ys s = (Ok (), s')" "P s" "\<forall>x \<in> done. Q x s" "distinct ys" "set ys \<subseteq> set xs"
      "done \<inter> set ys = {}" "done \<subseteq> set xs" for ys s "done"
    using that
  proof (induction ys arbitrary: s "done")
    case (Cons y ys)
    obtain t where t: "f y s = (Ok (), t)" "act_each f ys t = (Ok (), s')"
      using Cons.prems(1) by (auto simp: act_then_Ok)
    have "P t" using keepsD [OF keeps] Cons.prems(2,5) t(1) by (meson list.set_intros(1) subsetD)
    moreover have "\<forall>x \<in> insert y done. Q x t"
      using establish [of y s t] frame [of _ y s t] Cons.prems t(1) by (auto simp: subset_eq)
    ultimately have "P s' \<and> (\<forall>x \<in> insert y done \<union> set ys. Q x s')"
      using Cons.IH [of t "insert y done"] t(2) Cons.prems by auto
    then show ?case by auto
  qed simp
  from this [of xs s "{}"] assms(1-3) show ?thesis by simp
qed

section \<open>The interface\<close>

text \<open>
  \<open>held r ref aid\<close> is what the receiver behind a reference holds under an ID, \<open>known r ref sid\<close> the SRI
  and time it was last told. \<open>reliable\<close> receivers never refuse.
\<close>

locale attach_peers =
  fixes api :: "('d, 'r) peer_api"
    and held :: "'r \<Rightarrow> nat \<Rightarrow> string \<Rightarrow> ('d stream_def \<times> string) option"
    and known :: "'r \<Rightarrow> nat \<Rightarrow> string \<Rightarrow> (sri \<times> utctime) option"
    and orderly :: "'r \<Rightarrow> bool"
    and reliable :: bool
  assumes attach: "orderly r \<Longrightarrow> peer_attach api ref sd user r = (Some aid, r') \<Longrightarrow>
      orderly r' \<and> aid \<noteq> '''' \<and> held r ref aid = None \<and> known r' = known r \<and>
      held r' = (held r)(ref := (held r ref)(aid \<mapsto> (sd, user)))"
    and attach_fails: "orderly r \<Longrightarrow> peer_attach api ref sd user r = (None, r') \<Longrightarrow>
      \<not> reliable \<and> orderly r' \<and> held r' = held r \<and> known r' = known r"
    and detach: "orderly r \<Longrightarrow> peer_detach api ref aid r = (b, r') \<Longrightarrow>
      orderly r' \<and> known r' = known r \<and> (reliable \<and> held r ref aid \<noteq> None \<longrightarrow> b) \<and>
      held r' = (if b then (held r)(ref := (held r ref)(aid := None)) else held r)"
    and push: "orderly r \<Longrightarrow> peer_pushSRI api ref H T r = (b, r') \<Longrightarrow>
      orderly r' \<and> held r' = held r \<and>
      known r' = (if b then (known r)(ref := (known r ref)(streamID H \<mapsto> (H, T))) else known r)"
begin

definition slot :: "attachment \<Rightarrow> nat \<times> string" where
  "slot att = (at_inputPort att, at_attachId att)"

definition slots :: "'d attach_stream list \<Rightarrow> (nat \<times> string) list" where
  "slots sts = concat (map (\<lambda>st. map slot (as_attachments st)) sts)"

definition stream_books :: "(string, nat) dict \<Rightarrow> 'r \<Rightarrow> 'd attach_stream \<Rightarrow> bool" where
  "stream_books conns r st \<longleftrightarrow> as_streamId st = sd_id (as_streamDef st) \<and>
     (\<forall>att \<in> set (as_attachments st). at_attachId att \<noteq> '''' \<and>
        dget conns (at_connectionId att) = Some (at_inputPort att) \<and>
        held r (at_inputPort att) (at_attachId att) = Some (as_streamDef st, as_name st))"

definition books :: "(string, nat) dict \<Rightarrow> (nat \<Rightarrow> string \<Rightarrow> (sri \<times> utctime) option) \<Rightarrow>
    'd attach_stream list \<times> 'r \<Rightarrow> bool" where
  "books conns K = (\<lambda>(sts, r). orderly r \<and> known r = K \<and> distinct (slots sts) \<and>
     distinct (map as_streamId sts) \<and> (\<forall>st \<in> set sts. stream_books conns r st) \<and>
     (reliable \<longrightarrow> (\<forall>ref aid. held r ref aid \<noteq> None \<longrightarrow> (ref, aid) \<in> set (slots sts))))"

definition books_around :: "(string, nat) dict \<Rightarrow> (nat \<Rightarrow> string \<Rightarrow> (sri \<times> utctime) option) \<Rightarrow>
    'd attach_stream list \<Rightarrow> 'd attach_stream list \<Rightarrow> 'd attach_stream \<times> 'r \<Rightarrow> bool" where
  "books_around conns K pre post = (\<lambda>(st, r). books conns K (pre @ st # post, r))"

lemma slots_simps [simp]:
  "slots [] = []" "slots (st # sts) = map slot (as_attachments st) @ slots sts"
  "slots (xs @ ys) = slots xs @ slots ys"
  by (simp_all add: slots_def)

lemma slots_held:
  "\<forall>st \<in> set sts. stream_books conns r st \<Longrightarrow> (ref, aid) \<in> set (slots sts) \<Longrightarrow> held r ref aid \<noteq> None"
  by (auto simp: slots_def stream_books_def slot_def)

lemma booksI:
  assumes "orderly r" "known r = K" "distinct (slots sts)" "distinct (map as_streamId sts)"
    and "\<And>st. st \<in> set sts \<Longrightarrow> stream_books conns r st"
    and "\<And>ref aid. reliable \<Longrightarrow> held r ref aid \<noteq> None \<Longrightarrow> (ref, aid) \<in> set (slots sts)"
  shows "books conns K (sts, r)"
  unfolding books_def prod.case using assms by blast

lemma booksD:
  assumes "books conns K (sts, r)"
  shows "orderly r" "known r = K" "distinct (slots sts)" "distinct (map as_streamId sts)"
    and "\<And>st. st \<in> set sts \<Longrightarrow> stream_books conns r st"
  using assms unfolding books_def prod.case by blast+

lemma books_exact:
  "books conns K (sts, r) \<Longrightarrow> reliable \<Longrightarrow> held r ref aid \<noteq> None \<Longrightarrow> (ref, aid) \<in> set (slots sts)"
  unfolding books_def prod.case by blast

lemma stream_books_frame:
  assumes "stream_books conns r st"
    and "\<And>att. att \<in> set (as_attachments st) \<Longrightarrow>
           held r' (at_inputPort att) (at_attachId att) = held r (at_inputPort att) (at_attachId att)"
  shows "stream_books conns r' st"
  using assms by (simp add: stream_books_def)

section \<open>Streams\<close>

lemma keeps_create:
  assumes conn: "dget conns cid = Some port"
  shows "keeps (books_around conns K pre post) (Stream_createNewAttachment api cid port)"
  unfolding keeps_def
proof (intro allI impI)
  fix s assume "books_around conns K pre post s"
  moreover obtain st r where s: "s = (st, r)" by (cases s)
  ultimately have b: "books conns K (pre @ st # post, r)" by (simp add: books_around_def)
  then have ord: "orderly r" by (simp add: books_def)
  obtain a r' where a: "peer_attach api port (as_streamDef st) (as_name st) r = (a, r')"
    by (cases "peer_attach api port (as_streamDef st) (as_name st) r")
  show "books_around conns K pre post (snd (Stream_createNewAttachment api cid port s))"
  proof (cases a)
    case None
    have f: "\<not> reliable" "orderly r'" "held r' = held r" "known r' = known r"
      using attach_fails [OF ord, OF a [unfolded None]] by blast+
    have "books conns K (pre @ st # post, r')"
      using b f(1) unfolding books_def prod.case f(4) stream_books_def f(3) by (blast intro: f(2))
    then show ?thesis
      by (simp add: s Stream_createNewAttachment_def a None books_around_def)
  next
    case (Some aid)
    note at = attach [OF ord, OF a [unfolded Some]]
    let ?att = "\<lparr>at_connectionId = cid, at_attachId = aid, at_inputPort = port\<rparr>"
    let ?st = "st\<lparr>as_attachments := as_attachments st @ [?att]\<rparr>"
    have sb: "\<forall>st' \<in> set (pre @ st # post). stream_books conns r st'" using b by (simp add: books_def)
    have new: "(port, aid) \<notin> set (slots (pre @ st # post))"
      using slots_held [OF sb] at by blast
    have other: "stream_books conns r' st'" if "st' \<in> set (pre @ st # post)" for st'
    proof (rule stream_books_frame)
      show "stream_books conns r st'" using sb that by blast
      show "held r' (at_inputPort att) (at_attachId att) = held r (at_inputPort att) (at_attachId att)"
        if "att \<in> set (as_attachments st')" for att
        using \<open>stream_books conns r st'\<close> that at by (auto simp: stream_books_def)
    qed
    have "books conns K (pre @ ?st # post, r')"
    proof (rule booksI)
      show "orderly r'" "known r' = K" using at booksD(2) [OF b] by simp_all
      show "distinct (slots (pre @ ?st # post))"
        using booksD(3) [OF b] new by (auto simp: slot_def)
      show "distinct (map as_streamId (pre @ ?st # post))" using booksD(4) [OF b] by simp
      have "stream_books conns r' ?st"
        using other [of st] at conn by (auto simp: stream_books_def)
      then show "stream_books conns r' st'" if "st' \<in> set (pre @ ?st # post)" for st'
        using other that by auto
    next
      fix ref aid' assume that: reliable and "held r' ref aid' \<noteq> None"
      then have "held r ref aid' \<noteq> None \<or> (ref, aid') = (port, aid)" using at by (auto split: if_splits)
      then have "(ref, aid') \<in> set (slots (pre @ st # post)) \<or> (ref, aid') = (port, aid)"
        using books_exact [OF b that] by blast
      then show "(ref, aid') \<in> set (slots (pre @ ?st # post))" by (auto simp: slot_def)
    qed
    then show ?thesis
      using a Some by (simp add: s Stream_createNewAttachment_def books_around_def)
  qed
qed

lemma detach_one:
  assumes "books_around conns K pre post (st, r)" "as_attachments st = xs @ att # ys"
  shows "books_around conns K pre post (st\<lparr>as_attachments := xs @ ys\<rparr>, StreamAttachment_detach api att r)"
proof -
  let ?st = "st\<lparr>as_attachments := xs @ ys\<rparr>"
  obtain b r' where br: "peer_detach api (at_inputPort att) (at_attachId att) r = (b, r')"
    by (cases "peer_detach api (at_inputPort att) (at_attachId att) r")
  have bk: "books conns K (pre @ st # post, r)" using assms(1) by (simp add: books_around_def)
  then have ord: "orderly r" by (simp add: books_def)
  note d = detach [OF ord br]
  have sb: "\<forall>st' \<in> set (pre @ st # post). stream_books conns r st'" using bk by (simp add: books_def)
  then have sb': "\<forall>st' \<in> set (pre @ ?st # post). stream_books conns r st'"
    using assms(2) by (auto simp: stream_books_def)
  have mine: "held r (at_inputPort att) (at_attachId att) \<noteq> None"
    using sb assms(2) by (auto simp: stream_books_def)
  have dist: "slot att \<notin> set (slots (pre @ ?st # post))" "distinct (slots (pre @ ?st # post))"
    using bk assms(2) by (auto simp: books_def)
  have "stream_books conns r' st'" if "st' \<in> set (pre @ ?st # post)" for st'
  proof (rule stream_books_frame)
    show "stream_books conns r st'" using sb' that by blast
    show "held r' (at_inputPort att') (at_attachId att') = held r (at_inputPort att') (at_attachId att')"
      if att': "att' \<in> set (as_attachments st')" for att'
    proof -
      have "slot att' \<in> set (slots (pre @ ?st # post))"
        unfolding slots_def set_concat set_map using att' \<open>st' \<in> set (pre @ ?st # post)\<close> by auto
      then have "slot att' \<noteq> slot att" using dist(1) by metis
      then show ?thesis using d by (auto simp: slot_def)
    qed
  qed
  moreover have "(ref, aid) \<in> set (slots (pre @ ?st # post))" if that: reliable and h: "held r' ref aid \<noteq> None" for ref aid
  proof -
    have b using d mine that by blast
    then have "held r ref aid \<noteq> None" "(ref, aid) \<noteq> slot att"
      using h d by (auto simp: slot_def split: if_splits)
    then have "(ref, aid) \<in> set (slots (pre @ st # post))" "(ref, aid) \<noteq> slot att"
      using books_exact [OF bk that] by blast+
    then show "(ref, aid) \<in> set (slots (pre @ ?st # post))" using assms(2) by auto
  qed
  ultimately have "books conns K (pre @ ?st # post, r')"
    using d booksD(2,4) [OF bk] dist(2) by (intro booksI) auto
  then show ?thesis by (simp add: books_around_def StreamAttachment_detach_def br)
qed

lemma detach_list:
  assumes "books_around conns K pre post (st\<lparr>as_attachments := xs @ ys\<rparr>, r)"
  shows "books_around conns K pre post (st\<lparr>as_attachments := xs @ filter (Not \<circ> P) ys\<rparr>,
           fold (StreamAttachment_detach api) (filter P ys) r)"
  using assms
proof (induction ys arbitrary: xs r)
  case (Cons y ys)
  show ?case
  proof (cases "P y")
    case True
    have "books_around conns K pre post (st\<lparr>as_attachments := xs @ ys\<rparr>, StreamAttachment_detach api y r)"
      using detach_one [OF Cons.prems, of xs y ys] by simp
    then show ?thesis using Cons.IH [of xs] True by simp
  next
    case False
    then show ?thesis using Cons.IH [of "xs @ [y]"] Cons.prems by simp
  qed
qed simp

lemma keeps_detach_where [keeps_rules]: "keeps (books_around conns K pre post) (detach_where api P)"
  unfolding keeps_def detach_where_def
proof (intro allI impI)
  fix s assume "books_around conns K pre post s"
  then show "books_around conns K pre post (snd (act_update (\<lambda>(st, r).
      (st\<lparr>as_attachments := filter (Not \<circ> P) (as_attachments st)\<rparr>,
       fold (StreamAttachment_detach api) (filter P (as_attachments st)) r)) s))"
    using detach_list [where st = "fst s" and xs = "[]" and ys = "as_attachments (fst s)" and r = "snd s"]
    by (cases s) simp
qed

end

end
