(* ===== verification/AttachKeeps.thy ===== *)
theory AttachKeeps
  imports AttachBooks
begin

text \<open>
  Every operation of an \<open>OutAttachablePort\<close> keeps its books, whatever its receivers refuse, on every path
  out of the operation: proved from the laws of the receivers for streams, the container and the port.
\<close>

lemma each_stream_all:
  assumes "\<And>st r. \<exists>st' r'. m (st, r) = (Ok (), st', r') \<and> R st'"
  shows "\<exists>sts' r'. each_stream m (sts, r) = (Ok (), sts', r') \<and> (\<forall>st \<in> set sts'. R st)"
proof (induction sts arbitrary: r)
  case (Cons st sts)
  obtain st1 r1 where m: "m (st, r) = (Ok (), st1, r1)" "R st1" using assms by blast
  obtain sts2 r2 where "each_stream m (sts, r1) = (Ok (), sts2, r2)" "\<forall>st \<in> set sts2. R st"
    using Cons.IH by blast
  then show ?case using m by simp
qed simp

lemma dget_map_entries:
  "dget (map (\<lambda>(k, a, b, cs). (k, a, b, f cs)) d) k' = (case dget d k' of None \<Rightarrow> None | Some (a, b, cs) \<Rightarrow> Some (a, b, f cs))"
  by (induction d) auto

lemma keeps_with_lock [keeps_rules]: "keeps P m \<Longrightarrow> keeps P (with_lock m)"
  by (auto simp: keeps_def with_lock_def)

context attach_peers
begin

section \<open>The container\<close>

lemma keeps_each_stream:
  assumes "\<And>pre post. keeps (books_around conns K pre post) m"
  shows "keeps (books conns K) (each_stream m)"
proof -
  have "books conns K (pre @ fst (snd (each_stream m (sts, r))), snd (snd (each_stream m (sts, r))))"
    if "books conns K (pre @ sts, r)" for pre sts r
    using that
  proof (induction sts arbitrary: pre r)
    case (Cons st sts)
    obtain res st1 r1 where m: "m (st, r) = (res, st1, r1)" by (cases "m (st, r)")
    have "books_around conns K pre sts (st1, r1)"
      using keepsD [OF assms _ m] Cons.prems by (simp add: books_around_def)
    then have b: "books conns K ((pre @ [st1]) @ sts, r1)" by (simp add: books_around_def)
    show ?case
      using Cons.IH [OF b] b m by (cases res) (auto split: prod.splits)
  qed simp
  from this [of "[]"] show ?thesis by (simp add: keeps_def)
qed

lemma keeps_with_stream:
  assumes "\<And>pre post. keeps (books_around conns K pre post) m"
  shows "keeps (books conns K) (with_stream sid m)"
proof -
  have "books conns K (pre @ fst (snd (with_stream sid m (sts, r))), snd (snd (with_stream sid m (sts, r))))"
    if "books conns K (pre @ sts, r)" for pre sts r
    using that
  proof (induction sts arbitrary: pre r)
    case (Cons st sts)
    obtain res st1 r1 where m: "m (st, r) = (res, st1, r1)" by (cases "m (st, r)")
    have "books_around conns K pre sts (st1, r1)"
      using keepsD [OF assms _ m] Cons.prems by (simp add: books_around_def)
    then show ?case
      using Cons.IH [of "pre @ [st]" r] Cons.prems m by (auto simp: books_around_def split: prod.splits)
  qed simp
  from this [of "[]"] show ?thesis by (simp add: keeps_def)
qed

lemma keeps_when_id [keeps_rules]: "keeps P m \<Longrightarrow> keeps P (when_id sid m)"
  unfolding when_id_def by (intro keeps_rules)

lemma keeps_add_connection [keeps_rules]:
  "dget conns cid = Some port \<Longrightarrow> keeps (books_around conns K pre post) (add_connection api cid port)"
  unfolding add_connection_def by (intro keeps_rules keeps_create keeps_return)

lemma keeps_stream_detach [keeps_rules]:
  "keeps (books_around conns K pre post) (Stream_detachAll api)"
  "keeps (books_around conns K pre post) (Stream_detachByConnectionId api cid)"
  "keeps (books_around conns K pre post) (Stream_detachByAttachId api aid)"
  "keeps (books_around conns K pre post) (Stream_detachByAttachIdConnectionId cid)"
  unfolding Stream_detachAll_def Stream_detachByConnectionId_def Stream_detachByAttachId_def
    Stream_detachByAttachIdConnectionId_def
  by (intro keeps_rules keeps_return)+

lemma keeps_updateAttachments [keeps_rules]:
  assumes "\<And>cid port. (cid, port) \<in> set expected \<Longrightarrow> dget conns cid = Some port"
  shows "keeps (books_around conns K pre post) (Stream_updateAttachments api expected)"
  unfolding Stream_updateAttachments_def
  by (intro keeps_rules keeps_return) (auto intro!: keeps_add_connection assms)

lemma keeps_removeStreamByStreamId:
  "keeps (books conns K) (StreamContainer_removeStreamByStreamId api sid)"
  unfolding keeps_def
proof (intro allI impI)
  fix s assume b: "books conns K s"
  obtain sts r where s: "s = (sts, r)" by (cases s)
  let ?m = "when_id sid (Stream_detachAll api)"
  have "\<exists>st' r'. ?m (st, r) = (Ok (), st', r') \<and> (as_streamId st' = sid \<longrightarrow> as_attachments st' = [])" for st r
    by (simp add: when_id_def act_when_def Stream_detachAll_def detach_where_def o_def)
  then obtain sts' r' where e: "each_stream ?m (sts, r) = (Ok (), sts', r')"
      and empty: "\<forall>st \<in> set sts'. as_streamId st = sid \<longrightarrow> as_attachments st = []"
    using each_stream_all [of ?m "\<lambda>st'. as_streamId st' = sid \<longrightarrow> as_attachments st' = []"] by blast
  have b': "books conns K (sts', r')"
    using keepsD [OF keeps_each_stream b, of ?m "Ok ()" "(sts', r')"] e by (auto simp: s intro!: keeps_rules)
  have "slots (filter (\<lambda>st. as_streamId st \<noteq> sid) sts') = slots sts'"
    using empty by (induction sts') auto
  then have "books conns K (filter (\<lambda>st. as_streamId st \<noteq> sid) sts', r')"
    using booksD [OF b'] books_exact [OF b'] by (intro booksI) (auto simp: distinct_map_filter)
  then show "books conns K (snd (StreamContainer_removeStreamByStreamId api sid s))"
    using e by (simp add: StreamContainer_removeStreamByStreamId_def s act_then_run)
qed

section \<open>The port\<close>

definition sris_ok :: "(string, nat) dict \<Rightarrow> (nat \<Rightarrow> string \<Rightarrow> (sri \<times> utctime) option) \<Rightarrow>
    (string, sri \<times> utctime \<times> string list) dict \<Rightarrow> bool" where
  "sris_ok conns K d \<longleftrightarrow> (\<forall>sid H T cs. dget d sid = Some (H, T, cs) \<longrightarrow> streamID H = sid \<and>
     (\<forall>cid \<in> set cs. \<exists>ref. dget conns cid = Some ref \<and> K ref sid = Some (H, T)))"

definition port_ok :: "('d, 'r) outattach \<Rightarrow> bool" where
  "port_ok p \<longleftrightarrow> books (oa_outConnections p) (known (oa_peers p)) (oa_container p, oa_peers p) \<and>
     dict_ok (oa_outConnections p) \<and> sris_ok (oa_outConnections p) (known (oa_peers p)) (oa_sriDict p)"

definition port_at :: "(string, nat) dict \<Rightarrow> ('d, 'r) outattach \<Rightarrow> bool" where
  "port_at conns p \<longleftrightarrow> port_ok p \<and> oa_outConnections p = conns"

lemma port_okD:
  assumes "port_ok p"
  shows "books (oa_outConnections p) (known (oa_peers p)) (oa_container p, oa_peers p)"
    "dict_ok (oa_outConnections p)" "sris_ok (oa_outConnections p) (known (oa_peers p)) (oa_sriDict p)"
    "orderly (oa_peers p)"
  using assms booksD(1) unfolding port_ok_def by blast+

lemma keeps_port: "(\<And>conns. keeps (port_at conns) m) \<Longrightarrow> keeps port_ok m"
  by (auto simp: keeps_def port_at_def)

lemma keeps_on_container:
  assumes "\<And>K. keeps (books conns K) m"
  shows "keeps (port_at conns) (on_container m)"
  unfolding keeps_def
proof (intro allI impI)
  fix p assume p: "port_at conns p"
  obtain res sts r where m: "m (oa_container p, oa_peers p) = (res, sts, r)"
    by (cases "m (oa_container p, oa_peers p)")
  have "books conns (known (oa_peers p)) (sts, r)"
    using keepsD [OF assms [of "known (oa_peers p)"] _ m] p by (auto simp: port_at_def port_ok_def)
  moreover from booksD(2) [OF this] have "known r = known (oa_peers p)" .
  ultimately show "port_at conns (snd (on_container m p))"
    using p by (auto simp: on_container_def m port_at_def port_ok_def)
qed

lemma books_push:
  assumes "books conns K (sts, r)" "peer_pushSRI api ref H T r = (b, r')"
  shows "books conns (known r') (sts, r')"
proof -
  note f = push [OF booksD(1) [OF assms(1)] assms(2)]
  have "held r' = held r" using f by blast
  then have "stream_books conns r' st \<longleftrightarrow> stream_books conns r st" for st
    by (simp add: stream_books_def)
  then show ?thesis
    using booksD [OF assms(1)] books_exact [OF assms(1)] f \<open>held r' = held r\<close>
    by (intro booksI) simp_all
qed

lemma sris_ok_put:
  assumes "sris_ok conns K d" "dget conns cid = Some ref" "dget d (streamID H) = Some (H, T, cs)"
  shows "sris_ok conns (K(ref := (K ref)(streamID H \<mapsto> (H, T)))) (dput (streamID H) (H, T, List.insert cid cs) d)"
  unfolding sris_ok_def
proof (intro allI impI conjI ballI)
  let ?d = "dput (streamID H) (H, T, List.insert cid cs) d"
  let ?K = "K(ref := (K ref)(streamID H \<mapsto> (H, T)))"
  fix sid H' T' cs' assume e: "dget ?d sid = Some (H', T', cs')"
  then show "streamID H' = sid"
    using assms(1) by (cases "sid = streamID H") (auto simp: sris_ok_def)
  fix c assume c: "c \<in> set cs'"
  show "\<exists>ref'. dget conns c = Some ref' \<and> ?K ref' sid = Some (H', T')"
  proof (cases "sid = streamID H")
    case True
    then have eq: "H' = H" "T' = T" "c = cid \<or> c \<in> set cs" using e c by auto
    show ?thesis
    proof (cases "c = cid")
      case False
      then obtain ref' where "dget conns c = Some ref'" "K ref' sid = Some (H, T)"
        using assms(1,3) eq(3) True unfolding sris_ok_def by blast
      then show ?thesis using eq True by simp
    qed (use eq assms(2) True in simp)
  next
    case False
    then have "dget d sid = Some (H', T', cs')" using e by simp
    then obtain ref' where "dget conns c = Some ref'" "K ref' sid = Some (H', T')"
      using assms(1) c unfolding sris_ok_def by blast
    then show ?thesis using False by auto
  qed
qed

text \<open>Pushing an SRI that is the one on file; \<open>on_file\<close> says so.\<close>

definition on_file :: "(string, nat) dict \<Rightarrow> sri \<Rightarrow> utctime \<Rightarrow> ('d, 'r) outattach \<Rightarrow> bool" where
  "on_file conns H T p \<longleftrightarrow> port_at conns p \<and> (\<exists>cs. dget (oa_sriDict p) (streamID H) = Some (H, T, cs))"

lemma keeps_push_to_peer:
  assumes "dget conns cid = Some ref"
  shows "keeps (on_file conns H T) (push_to_peer api H T (streamID H) cid ref)"
  unfolding keeps_def
proof (intro allI impI)
  fix p assume "on_file conns H T p"
  then obtain cs where p: "port_ok p" "oa_outConnections p = conns" "dget (oa_sriDict p) (streamID H) = Some (H, T, cs)"
    by (auto simp: on_file_def port_at_def)
  obtain b r' where br: "peer_pushSRI api ref H T (oa_peers p) = (b, r')"
    by (cases "peer_pushSRI api ref H T (oa_peers p)")
  note f = push [OF port_okD(4) [OF p(1)] br]
  have bk: "books conns (known r') (oa_container p, r')"
    using books_push [OF _ br] port_okD(1) [OF p(1)] p(2) by blast
  have ok: "sris_ok conns (known (oa_peers p)) (oa_sriDict p)" "dict_ok conns"
    using port_okD [OF p(1)] p(2) by simp_all
  show "on_file conns H T (snd (push_to_peer api H T (streamID H) cid ref p))"
  proof (cases b)
    case True
    have kn: "known r' = (known (oa_peers p))(ref := (known (oa_peers p) ref)(streamID H \<mapsto> (H, T)))"
      using f True by simp
    have "sris_ok conns (known r') (dput (streamID H) (H, T, List.insert cid cs) (oa_sriDict p))"
      unfolding kn by (rule sris_ok_put [OF ok(1) assms p(3)])
    then show ?thesis
      using True br bk p ok(2) by (simp add: push_to_peer_def on_file_def port_at_def port_ok_def)
  next
    case False
    then show ?thesis
      using f br bk p ok by (simp add: push_to_peer_def on_file_def port_at_def port_ok_def)
  qed
qed

lemma keeps_push_known_sri [keeps_rules]: "keeps (port_at conns) (push_known_sri api sid cid)"
  unfolding keeps_def
proof (intro allI impI)
  fix p assume p: "port_at conns p"
  show "port_at conns (snd (push_known_sri api sid cid p))"
  proof (cases "dget (oa_sriDict p) sid")
    case (Some e)
    obtain H T cs where e: "e = (H, T, cs)" by (cases e)
    have sid: "streamID H = sid"
      using p Some e by (auto simp: port_at_def port_ok_def sris_ok_def)
    show ?thesis
    proof (cases "cid \<in> set cs \<or> dget conns cid = None")
      case True
      then show ?thesis using p Some e by (auto simp: push_known_sri_def port_at_def split: option.splits)
    next
      case False
      then obtain ref where ref: "dget conns cid = Some ref" "cid \<notin> set cs" by auto
      have "on_file conns H T p" using p Some e sid by (simp add: on_file_def)
      then have "on_file conns H T (snd (push_to_peer api H T sid cid ref p))"
        using keeps_push_to_peer [OF ref(1)] sid by (auto simp: keeps_def)
      then show ?thesis
        using p Some e ref by (simp add: push_known_sri_def port_at_def on_file_def)
    qed
  qed (use p in \<open>simp add: push_known_sri_def\<close>)
qed

lemma keeps_updateSRI [keeps_rules]:
  "keeps (port_at conns) (OutAttachablePort_updateSRIForAllConnections api)"
  unfolding OutAttachablePort_updateSRIForAllConnections_def
  by (intro keeps_rules keeps_return)

end

end
