(* ===== verification/AttachRequests.thy ===== *)
theory AttachRequests
  imports AttachKeeps
begin

text \<open>
  The requests to an \<open>OutAttachablePort\<close> and their runs; every request keeps the books of the port,
  also when it raises. A caller that raises or hangs does not keep other callers from going on.
\<close>

datatype 'd attach_request =
    ConnectPort "nat option" "bool option" string
  | DisconnectPort string
  | AddStream "'d stream_def"
  | RemoveStream string
  | UpdateStream "'d stream_def"
  | AttachStream "'d stream_def"
  | Detach string string
  | PushSRI sri utctime
  | UpdateConnectionFilter "filter_rule list option"

fun serve_request :: "('d, 'r) peer_api \<Rightarrow> 'd attach_request \<Rightarrow> ('d, 'r, unit) port_action" where
  "serve_request api (ConnectPort obj is_a cid) = OutAttachablePort_connectPort api obj is_a cid"
| "serve_request api (DisconnectPort cid) = OutAttachablePort_disconnectPort api cid"
| "serve_request api (AddStream sd) = act_then (OutAttachablePort_addStream api sd) (act_return ())"
| "serve_request api (RemoveStream sid) = OutAttachablePort_removeStream api sid"
| "serve_request api (UpdateStream sd) = act_then (OutAttachablePort_updateStream api sd) (act_return ())"
| "serve_request api (AttachStream sd) = act_then (OutAttachablePort_attach api sd) (act_return ())"
| "serve_request api (Detach aid cid) = OutAttachablePort_detach api aid cid"
| "serve_request api (PushSRI H T) = OutAttachablePort_pushSRI api H T"
| "serve_request api (UpdateConnectionFilter table) = OutAttachablePort_updateConnectionFilter api table"

definition attach_run :: "('d, 'r) peer_api \<Rightarrow> 'd attach_request list \<Rightarrow> ('d, 'r) outattach \<Rightarrow> ('d, 'r) outattach" where
  "attach_run api reqs p = fold (\<lambda>req p. snd (serve_request api req p)) reqs p"

section \<open>Actions that read the state\<close>

lemma keeps_get_bind: "(\<And>s. P s \<Longrightarrow> keeps P (f (g s))) \<Longrightarrow> keeps P (act_bind (act_get g) f)"
  by (auto simp: keeps_def)

lemma act_bind_assoc: "act_bind (act_bind m f) g = act_bind m (\<lambda>x. act_bind (f x) g)"
  by (auto simp: act_bind_def fun_eq_iff split: prod.split result.split)

lemma keeps_lookup_bind: "(\<And>v. dget d k = Some v \<Longrightarrow> keeps P (f v)) \<Longrightarrow> keeps P (act_bind (act_lookup d k) f)"
  by (cases "dget d k") simp_all

section \<open>Connections of a stream\<close>

lemma stream_targets_connected:
  "dict_ok (oa_outConnections p) \<Longrightarrow> (cid, ref) \<in> set (stream_targets sid p) \<Longrightarrow>
     dget (oa_outConnections p) cid = Some ref"
  by (auto simp: stream_targets_def listed_targets_def dget_mem split: if_splits)

text \<open>What the loop over the filter table collects: the connected rules for streams of the port.\<close>

definition rule_applies :: "('d, 'r) outattach \<Rightarrow> string \<Rightarrow> filter_rule \<Rightarrow> bool" where
  "rule_applies p sid e \<longleftrightarrow> fr_port_name e = oa_name p \<and> fr_stream_id e = sid \<and>
     dget (oa_outConnections p) (fr_connection_id e) \<noteq> None \<and> StreamContainer_hasStreamId sid (oa_container p)"

lemma filter_entry_found:
  "dget (fst (filter_entry p e d)) sid = (if rule_applies p sid e then Some True else dget (fst d) sid)"
  by (cases d) (auto simp: filter_entry_def rule_applies_def split: option.split)

lemma filter_entry_expected:
  "dget (snd (filter_entry p e d)) sid = (if rule_applies p sid e
     then Some ((case dget (snd d) sid of None \<Rightarrow> [] | Some atts \<Rightarrow> atts) @
        [(fr_connection_id e, the (dget (oa_outConnections p) (fr_connection_id e)))])
     else dget (snd d) sid)"
  by (cases d) (auto simp: filter_entry_def rule_applies_def split: option.split)

lemma filter_entry_dict_ok:
  "dict_ok (fst d) \<Longrightarrow> dict_ok (fst (filter_entry p e d))" "dict_ok (snd d) \<Longrightarrow> dict_ok (snd (filter_entry p e d))"
  by (cases d; auto simp: filter_entry_def split: option.split)+

lemma filter_entries_found:
  "dget (fst (fold (filter_entry p) rules d)) sid =
     (if list_ex (rule_applies p sid) rules then Some True else dget (fst d) sid)"
  by (induction rules arbitrary: d) (simp_all add: filter_entry_found)

lemma filter_entries_expected:
  "dget (snd (fold (filter_entry p) rules d)) sid =
     (if filter (rule_applies p sid) rules = [] then dget (snd d) sid
      else Some ((case dget (snd d) sid of None \<Rightarrow> [] | Some atts \<Rightarrow> atts) @
        map (\<lambda>e. (fr_connection_id e, the (dget (oa_outConnections p) (fr_connection_id e))))
          (filter (rule_applies p sid) rules)))"
  by (induction rules arbitrary: d) (simp_all add: filter_entry_expected)

lemma filter_entries_dict_ok:
  "dict_ok (fst d) \<Longrightarrow> dict_ok (fst (fold (filter_entry p) rules d))"
  "dict_ok (snd d) \<Longrightarrow> dict_ok (snd (fold (filter_entry p) rules d))"
  by (induction rules arbitrary: d) (simp_all add: filter_entry_dict_ok)

context attach_peers
begin

section \<open>Requests keep the books\<close>

lemma books_map:
  assumes "\<And>st. as_attachments (f st) = as_attachments st \<and> as_streamDef (f st) = as_streamDef st \<and>
      as_name (f st) = as_name st \<and> as_streamId (f st) = as_streamId st"
    and "books conns K (sts, r)"
  shows "books conns K (map f sts, r)"
proof -
  have s: "slots (map f sts) = slots sts" "map as_streamId (map f sts) = map as_streamId sts"
    using assms(1) by (induction sts) simp_all
  have "stream_books conns r (f st) = stream_books conns r st" for st
    by (simp add: stream_books_def assms(1))
  then show ?thesis
    using booksD [OF assms(2)] books_exact [OF assms(2)] unfolding s(1) [symmetric] s(2) [symmetric]
    by (intro booksI) auto
qed

lemma sris_ok_fresh:
  "sris_ok conns K d \<Longrightarrow> sris_ok conns K (dput (streamID H) (H, T, []) d)"
  by (auto simp: sris_ok_def)

lemma keeps_pushSRI: "keeps (port_at conns) (OutAttachablePort_pushSRI api H T)"
  unfolding OutAttachablePort_pushSRI_def
proof (rule keeps_with_lock, unfold keeps_def, intro allI impI)
  fix p assume p: "port_at conns p"
  let ?p = "p\<lparr>oa_sriDict := dput (streamID H) (H, T, []) (oa_sriDict p),
         oa_container := StreamContainer_updateStreamSRIAndTime (streamID H) H T (oa_container p)\<rparr>"
  have ok: "port_ok p" "oa_outConnections p = conns" using p by (simp_all add: port_at_def)
  have "port_at conns ?p"
    using port_okD [OF ok(1)] ok(2)
    by (simp add: port_at_def port_ok_def StreamContainer_updateStreamSRIAndTime_def books_map sris_ok_fresh)
  then have q: "on_file conns H T ?p" by (simp add: on_file_def)
  have "keeps (on_file conns H T) (push_or_report api H T t)" if "t \<in> set (stream_targets (streamID H) ?p)" for t
  proof -
    obtain cid ref where t: "t = (cid, ref)" by (cases t)
    have "dget conns cid = Some ref"
      using stream_targets_connected [of ?p] that ok port_okD(2) [OF ok(1)] by (simp add: t)
    then show ?thesis
      unfolding push_or_report_def t prod.case
      by (intro keeps_catch keeps_push_to_peer keeps_update)
        (auto simp: on_file_def port_at_def port_ok_def OutAttachablePort_reportConnectionErrors_def)
  qed
  then have "keeps (on_file conns H T) (act_each (push_or_report api H T) (stream_targets (streamID H) ?p))"
    by (rule keeps_each)
  then show "port_at conns (snd (act_then (act_update (\<lambda>p. p\<lparr>oa_sriDict := dput (streamID H) (H, T, []) (oa_sriDict p),
         oa_container := StreamContainer_updateStreamSRIAndTime (streamID H) H T (oa_container p)\<rparr>))
       (act_bind (act_get (stream_targets (streamID H))) (act_each (push_or_report api H T))) p))"
    using q by (simp add: keeps_def on_file_def)
qed

lemma stream_books_more:
  "stream_books conns r st \<Longrightarrow> dget conns cid = None \<Longrightarrow> stream_books (dput cid ref conns) r st"
  by (fastforce simp: stream_books_def)

lemma books_more_connections:
  "books conns K (sts, r) \<Longrightarrow> dget conns cid = None \<Longrightarrow> books (dput cid ref conns) K (sts, r)"
  unfolding books_def prod.case using stream_books_more by blast

lemma sris_more_connections:
  "sris_ok conns K d \<Longrightarrow> dget conns cid = None \<Longrightarrow> sris_ok (dput cid ref conns) K d"
  unfolding sris_ok_def by (metis dget_dput option.distinct(1))

lemma keeps_connect_base: "keeps port_ok (OutAttachablePort_connect_base obj is_a cid)"
proof -
  have "port_ok (p\<lparr>oa_outConnections := dput cid ref (oa_outConnections p), oa_stats := s\<rparr>)"
    if "port_ok p" "dget (oa_outConnections p) cid = None" for p ref s
    using port_okD [OF that(1)] that(2)
    by (simp add: port_ok_def books_more_connections sris_more_connections)
  then show ?thesis
    unfolding OutAttachablePort_connect_base_def
    by (auto simp: keeps_def with_lock_def act_update_def split: option.split)
qed

lemma keeps_add_to_streams:
  assumes "dget conns cid = Some port"
  shows "keeps (port_at conns) (on_container (StreamContainer_addConnectionToStream api cid port sid))"
    "keeps (port_at conns) (on_container (StreamContainer_addConnectionToAllStreams api cid port))"
  unfolding StreamContainer_addConnectionToStream_def StreamContainer_addConnectionToAllStreams_def
  by (intro keeps_on_container keeps_each_stream keeps_rules assms)+

lemma keeps_connect_by_rule:
  "dget conns cid = Some port \<Longrightarrow> keeps (port_at conns) (connect_by_rule api cid port ft)"
  unfolding connect_by_rule_def by (intro keeps_bind keeps_return keeps_if keeps_add_to_streams)

lemma keeps_connect_streams:
  assumes "dget conns cid = Some port"
  shows "keeps (port_at conns)
     (act_then (act_bind (act_get oa_filterTable) (act_each (connect_by_rule api cid port)))
        (act_then (act_bind (act_get port_listed) (\<lambda>portListed. if portListed then act_return ()
            else on_container (StreamContainer_addConnectionToAllStreams api cid port)))
          (OutAttachablePort_updateSRIForAllConnections api)))"
  by (intro keeps_then keeps_bind keeps_each keeps_return keeps_if keeps_connect_by_rule
      keeps_add_to_streams keeps_updateSRI assms)

lemma keeps_connectPort: "keeps port_ok (OutAttachablePort_connectPort api obj is_a cid)"
  unfolding OutAttachablePort_connectPort_def act_bind_assoc
proof (rule keeps_then [OF keeps_connect_base], rule keeps_port,
    intro keeps_with_lock keeps_catch keeps_return keeps_get_bind keeps_lookup_bind)
  fix conns :: "(string, nat) dict" and p :: "('d, 'r) outattach" and port
  assume "port_at conns p" "dget (oa_outConnections p) cid = Some port"
  then have "dget conns cid = Some port" by (simp add: port_at_def)
  then show "keeps (port_at conns)
     (act_then (act_bind (act_get oa_filterTable) (act_each (connect_by_rule api cid port)))
        (act_then (act_bind (act_get port_listed) (\<lambda>portListed. if portListed then act_return ()
            else on_container (StreamContainer_addConnectionToAllStreams api cid port)))
          (OutAttachablePort_updateSRIForAllConnections api)))"
    by (rule keeps_connect_streams)
qed

lemma keeps_disconnectPort: "keeps port_ok (OutAttachablePort_disconnectPort api cid)"
  unfolding OutAttachablePort_disconnectPort_def
proof (rule keeps_with_lock, unfold keeps_def, intro allI impI)
  fix p assume p: "port_ok p"
  let ?m = "detach_where api (\<lambda>att. at_connectionId att = cid \<and> at_attachId att \<noteq> '''')"
  have "\<exists>st' r'. ?m (st, r) = (Ok (), st', r') \<and> (\<forall>att \<in> set (as_attachments st'). at_connectionId att = cid \<longrightarrow> at_attachId att = '''')"
    for st :: "'d attach_stream" and r
    by (auto simp: detach_where_def)
  then obtain sts' r' where e: "each_stream ?m (oa_container p, oa_peers p) = (Ok (), sts', r')"
      and gone: "\<forall>st \<in> set sts'. \<forall>att \<in> set (as_attachments st). at_connectionId att = cid \<longrightarrow> at_attachId att = ''''"
    using each_stream_all [of ?m "\<lambda>st'. \<forall>att \<in> set (as_attachments st'). at_connectionId att = cid \<longrightarrow> at_attachId att = ''''"]
    by blast
  let ?q = "p\<lparr>oa_container := sts', oa_peers := r'\<rparr>"
  have run: "on_container (StreamContainer_detachByConnectionId api cid) p = (Ok (), ?q)"
    by (simp add: on_container_def StreamContainer_detachByConnectionId_def e)
  have "keeps (port_at (oa_outConnections p)) (on_container (StreamContainer_detachByConnectionId api cid))"
    unfolding StreamContainer_detachByConnectionId_def
    by (intro keeps_on_container keeps_each_stream keeps_detach_where)
  then have q: "port_ok ?q"
    using p run by (auto simp: keeps_def port_at_def)
  note b = port_okD [OF q, simplified]
  have "books (dpop cid (oa_outConnections p)) (known r') (sts', r')"
  proof (rule booksI)
    show "stream_books (dpop cid (oa_outConnections p)) r' st" if "st \<in> set sts'" for st
      using booksD(5) [OF b(1) that] gone that by (auto simp: stream_books_def)
  qed (use booksD [OF b(1)] books_exact [OF b(1)] in blast)+
  moreover have "sris_ok (dpop cid (oa_outConnections p)) (known r')
      (map (\<lambda>(sid, H, T, cs). (sid, H, T, removeAll cid cs)) (oa_sriDict p))"
    using b(3) unfolding sris_ok_def by (fastforce simp: dget_map_entries split: option.splits)
  ultimately show "port_ok (snd (act_then (on_container (StreamContainer_detachByConnectionId api cid))
       (act_update (\<lambda>p. if dget (oa_outConnections p) cid = None then p
          else p\<lparr>oa_outConnections := dpop cid (oa_outConnections p),
                 oa_sriDict := map (\<lambda>(sid, H, T, cs). (sid, H, T, removeAll cid cs)) (oa_sriDict p)\<rparr>)) p))"
    using q b(2) by (simp add: act_then_run(1) [where m = "on_container (StreamContainer_detachByConnectionId api cid)", OF run]
        port_ok_def dict_ok_dpop)
qed

end

context attach_peers
begin

section \<open>Adding and removing streams\<close>

lemma books_drop:
  assumes "books conns K (sts @ [st], r)" "\<not> reliable"
  shows "books conns K (sts, r)"
  using booksD [OF assms(1)] assms(2) by (intro booksI) auto

lemma books_new_stream:
  assumes "books conns K (sts, r)" "\<not> StreamContainer_hasStreamId (as_streamId st) sts"
    "as_attachments st = []" "as_streamId st = sd_id (as_streamDef st)"
  shows "books conns K (sts @ [st], r)"
proof (rule booksI)
  show "distinct (map as_streamId (sts @ [st]))"
    using booksD(4) [OF assms(1)] assms(2) by (auto simp: StreamContainer_hasStreamId_def list_ex_iff)
  show "stream_books conns r st'" if "st' \<in> set (sts @ [st])" for st'
    using that booksD(5) [OF assms(1)] assms(3,4) by (auto simp: stream_books_def)
qed (use booksD [OF assms(1)] books_exact [OF assms(1)] assms(3) in \<open>auto simp: \<close>)

text \<open>
  Attachments for a stream in flight: afterwards the books are right with the stream as it got, and
  when the loop raised, with the attachments that were made and are now forgotten.
\<close>

lemma attach_each_books:
  assumes "attach_each api targets st p = (res, p')"
    "books conns K (oa_container p @ [st], oa_peers p)"
    "\<And>cid ref. (cid, ref) \<in> set targets \<Longrightarrow> dget conns cid = Some ref"
  shows "\<exists>st' s. p' = p\<lparr>oa_peers := oa_peers p', oa_stats := s\<rparr> \<and>
     books conns K (oa_container p @ [st'], oa_peers p') \<and>
     as_streamId st' = as_streamId st \<and> as_streamDef st' = as_streamDef st \<and>
     (res = Ok st' \<and> Stream_getConnectionIds st' = Stream_getConnectionIds st @ map fst targets \<or>
      res = Exn RemoteError \<and> \<not> reliable)"
  using assms
proof (induction targets arbitrary: st p)
  case (Cons t targets)
  obtain cid ref where t: "t = (cid, ref)" by (cases t)
  obtain a r where a: "peer_attach api ref (as_streamDef st) (as_name st) (oa_peers p) = (a, r)"
    by (cases "peer_attach api ref (as_streamDef st) (as_name st) (oa_peers p)")
  obtain res1 st1 r1 where m: "Stream_createNewAttachment api cid ref (st, oa_peers p) = (res1, st1, r1)"
    by (cases "Stream_createNewAttachment api cid ref (st, oa_peers p)")
  have conn: "dget conns cid = Some ref" using Cons.prems(3) t by simp
  have b: "books conns K (oa_container p @ [st1], r1)"
    using keepsD [OF keeps_create [OF conn] _ m, of K "oa_container p" "[]"] Cons.prems(2)
    by (simp add: books_around_def)
  show ?case
  proof (cases a)
    case None
    have "orderly (oa_peers p)" using booksD(1) [OF Cons.prems(2)] .
    from attach_fails [OF this] a None have nr: "\<not> reliable" by blast
    have "r1 = r" "st1 = st" "res1 = Exn RemoteError"
      using m a None by (auto simp: Stream_createNewAttachment_def)
    then have "res = Exn RemoteError" "p' = OutAttachablePort_reportConnectionErrors cid (p\<lparr>oa_peers := r\<rparr>)"
      using Cons.prems(1) m by (simp_all add: t)
    then show ?thesis
      using b nr \<open>st1 = st\<close> \<open>r1 = r\<close>
      by (intro exI [of _ st] exI [of _ "oa_stats p'"])
        (simp only: OutAttachablePort_reportConnectionErrors_def outattach.simps simp_thms, simp)
  next
    case (Some aid)
    then have s: "res1 = Ok ()" "as_streamId st1 = as_streamId st" "as_streamDef st1 = as_streamDef st"
        "Stream_getConnectionIds st1 = Stream_getConnectionIds st @ [cid]"
      using m a by (auto simp: Stream_createNewAttachment_def Stream_getConnectionIds_def)
    have run: "attach_each api targets st1 (p\<lparr>oa_peers := r1\<rparr>) = (res, p')"
      using Cons.prems(1) m s(1) by (simp add: t)
    have c: "books conns K (oa_container (p\<lparr>oa_peers := r1\<rparr>) @ [st1], oa_peers (p\<lparr>oa_peers := r1\<rparr>))"
      using b by simp
    obtain st' st'' where IH: "p' = p\<lparr>oa_peers := r1\<rparr>\<lparr>oa_peers := oa_peers p', oa_stats := st''\<rparr>"
      "books conns K (oa_container (p\<lparr>oa_peers := r1\<rparr>) @ [st'], oa_peers p')"
      "as_streamId st' = as_streamId st1" "as_streamDef st' = as_streamDef st1"
      "res = Ok st' \<and> Stream_getConnectionIds st' = Stream_getConnectionIds st1 @ map fst targets \<or>
       res = Exn RemoteError \<and> \<not> reliable"
      using Cons.IH [OF run c] Cons.prems(3) by (auto simp: t)
    have "p' = p\<lparr>oa_peers := oa_peers p', oa_stats := st''\<rparr>" using IH(1) by simp
    moreover have "books conns K (oa_container p @ [st'], oa_peers p')" using IH(2) by simp
    ultimately show ?thesis using IH(3-5) s t by (intro exI [of _ st'] exI [of _ st'']) auto
  qed
next
  case Nil
  have "p' = p\<lparr>oa_peers := oa_peers p', oa_stats := oa_stats p\<rparr>" "res = Ok st" "p' = p"
    using Nil.prems(1) by simp_all
  then show ?case using Nil.prems(2) by (intro exI [of _ st] exI [of _ "oa_stats p"]) auto
qed

lemma new_stream_simps:
  "as_attachments (new_stream sd p) = []" "as_streamId (new_stream sd p) = sd_id sd"
  "as_streamDef (new_stream sd p) = sd" "as_name (new_stream sd p) = ''''"
  by (auto simp: new_stream_def Let_def Stream_init_def split: option.split)

text \<open>An added stream goes to its targets and to no one else.\<close>

lemma addStream_run:
  assumes "port_ok p" "\<not> oa_locked p" "\<not> StreamContainer_hasStreamId (sd_id sd) (oa_container p)"
    "OutAttachablePort_addStream api sd p = (res, p')"
  shows "port_ok p' \<and> oa_outConnections p' = oa_outConnections p \<and> known (oa_peers p') = known (oa_peers p) \<and>
     ((\<exists>st. res = Ok True \<and> oa_container p' = oa_container p @ [st] \<and> as_streamDef st = sd \<and>
        Stream_getConnectionIds st = map fst (stream_targets (sd_id sd) p)) \<or>
      res = Exn RemoteError \<and> \<not> reliable \<and> oa_container p' = oa_container p)"
proof -
  let ?targets = "stream_targets (sd_id sd) p"
  obtain res1 p1 where run: "attach_each api ?targets (new_stream sd p) p = (res1, p1)"
    by (cases "attach_each api ?targets (new_stream sd p) p")
  note ok = port_okD [OF assms(1)]
  have b: "books (oa_outConnections p) (known (oa_peers p)) (oa_container p @ [new_stream sd p], oa_peers p)"
    using assms(3) by (intro books_new_stream ok(1)) (simp_all add: new_stream_simps)
  obtain st' s where r: "p1 = p\<lparr>oa_peers := oa_peers p1, oa_stats := s\<rparr>"
      "books (oa_outConnections p) (known (oa_peers p)) (oa_container p @ [st'], oa_peers p1)"
      "as_streamDef st' = sd"
      "res1 = Ok st' \<and> Stream_getConnectionIds st' = map fst ?targets \<or> res1 = Exn RemoteError \<and> \<not> reliable"
    using attach_each_books [OF run b] stream_targets_connected [OF ok(2)]
    by (auto simp: new_stream_simps Stream_getConnectionIds_def)
  have k: "known (oa_peers p1) = known (oa_peers p)" using booksD(2) [OF r(2)] .
  have f: "oa_outConnections p1 = oa_outConnections p" "oa_container p1 = oa_container p" "oa_sriDict p1 = oa_sriDict p"
    by (subst r(1), simp)+
  have body: "(res, p') = act_bind (attach_each api ?targets (new_stream sd p)) (\<lambda>st.
         act_then (act_update (\<lambda>p. p\<lparr>oa_container := StreamContainer_addStream st (oa_container p)\<rparr>))
           (act_return True)) p"
    using assms(2-4) by (simp add: OutAttachablePort_addStream_def with_lock_def)
  from r(4) show ?thesis
  proof
    assume o: "res1 = Ok st' \<and> Stream_getConnectionIds st' = map fst ?targets"
    then have "res = Ok True" "p' = p1\<lparr>oa_container := oa_container p1 @ [st']\<rparr>"
      using body run by (simp_all add: act_bind_def StreamContainer_addStream_def)
    then show ?thesis
      using o r(2,3) k f ok by (simp add: port_ok_def)
  next
    assume e: "res1 = Exn RemoteError \<and> \<not> reliable"
    then have "res = Exn RemoteError" "p' = p1" using body run by (simp_all add: act_bind_def)
    moreover have "books (oa_outConnections p) (known (oa_peers p)) (oa_container p, oa_peers p1)"
      using books_drop [OF r(2)] e by blast
    ultimately show ?thesis
      unfolding port_ok_def using e k f ok(2,3) by simp
  qed
qed

lemma keeps_addStream: "keeps port_ok (OutAttachablePort_addStream api sd)"
  unfolding keeps_def
proof (intro allI impI)
  fix p assume p: "port_ok p"
  show "port_ok (snd (OutAttachablePort_addStream api sd p))"
  proof (cases "oa_locked p \<or> StreamContainer_hasStreamId (sd_id sd) (oa_container p)")
    case True
    then show ?thesis using p by (auto simp: OutAttachablePort_addStream_def with_lock_def)
  next
    case False
    then show ?thesis
      using addStream_run [OF p] by (cases "OutAttachablePort_addStream api sd p") auto
  qed
qed

lemma keeps_removeStream: "keeps (port_at conns) (OutAttachablePort_removeStream api sid)"
  unfolding OutAttachablePort_removeStream_def by (intro keeps_on_container keeps_removeStreamByStreamId)

lemma keeps_updateStream: "keeps port_ok (OutAttachablePort_updateStream api sd)"
  unfolding OutAttachablePort_updateStream_def
  by (intro keeps_with_lock keeps_bind keeps_return keeps_if keeps_then keeps_update
      keeps_addStream keeps_port [OF keeps_removeStream]) (simp add: port_ok_def)

lemma keeps_attach: "keeps port_ok (OutAttachablePort_attach api sd)"
  unfolding OutAttachablePort_attach_def
  by (intro keeps_then keeps_bind keeps_return keeps_addStream keeps_port [OF keeps_removeStream])

text \<open>Detaching everything and forgetting the streams.\<close>

lemma keeps_detach_everything:
  "keeps port_ok (act_then (on_container (each_stream (Stream_detachAll api)))
     (act_update (\<lambda>p. p\<lparr>oa_container := []\<rparr>)))"
  unfolding keeps_def
proof (intro allI impI)
  fix p assume p: "port_ok p"
  have "\<exists>st' r'. Stream_detachAll api (st, r) = (Ok (), st', r') \<and> as_attachments st' = []"
    for st :: "'d attach_stream" and r
    by (simp add: Stream_detachAll_def detach_where_def o_def)
  then obtain sts' r' where e: "each_stream (Stream_detachAll api) (oa_container p, oa_peers p) = (Ok (), sts', r')"
      and none: "\<forall>st \<in> set sts'. as_attachments st = []"
    using each_stream_all [of "Stream_detachAll api" "\<lambda>st'. as_attachments st' = []"] by blast
  let ?q = "p\<lparr>oa_container := sts', oa_peers := r'\<rparr>"
  have run: "on_container (each_stream (Stream_detachAll api)) p = (Ok (), ?q)"
    by (simp add: on_container_def e)
  have "keeps (port_at (oa_outConnections p)) (on_container (each_stream (Stream_detachAll api)))"
    by (intro keeps_on_container keeps_each_stream keeps_rules)
  then have q: "port_ok ?q" using p run by (auto simp: keeps_def port_at_def)
  note b = port_okD [OF q, simplified]
  have "slots sts' = []" using none by (induction sts') auto
  then have "books (oa_outConnections p) (known r') ([], r')"
    using booksD(1,2) [OF b(1)] books_exact [OF b(1)] by (intro booksI) auto
  then show "port_ok (snd (act_then (on_container (each_stream (Stream_detachAll api)))
     (act_update (\<lambda>p. p\<lparr>oa_container := []\<rparr>)) p))"
    using b(2,3) by (simp add: act_then_run(1) [where m = "on_container (each_stream (Stream_detachAll api))", OF run]
        port_ok_def)
qed

lemma keeps_detach: "keeps port_ok (OutAttachablePort_detach api aid cid)"
  unfolding OutAttachablePort_detach_def
  by (intro keeps_with_lock keeps_then keeps_when keeps_bind keeps_return keeps_detach_everything
      keeps_port keeps_on_container keeps_each_stream keeps_stream_detach)

section \<open>The filter table\<close>

lemma expected_connected:
  assumes "(sid, expected) \<in> set (snd (fold (filter_entry p) rules (found, [])))" "(cid, ref) \<in> set expected"
  shows "dget (oa_outConnections p) cid = Some ref"
proof -
  let ?d = "fold (filter_entry p) rules (found, [])"
  have "dict_ok (snd ?d)" by (rule filter_entries_dict_ok) simp
  then have "dget (snd ?d) sid = Some expected" using assms(1) by (rule dget_mem)
  then show ?thesis
    using assms(2) by (auto simp: filter_entries_expected rule_applies_def split: if_splits)
qed

lemma keeps_updateConnectionFilter: "keeps port_ok (OutAttachablePort_updateConnectionFilter api table)"
proof (rule keeps_port)
  fix conns
  have dict: "dget conns cid = Some ref" if "port_at conns p" "(cid, ref) \<in> set (oa_outConnections p)" for p cid ref
    using that port_okD(2) by (auto simp: port_at_def intro: dget_mem)
  have filter: "keeps (port_at conns) (act_update (\<lambda>p. p\<lparr>oa_filterTable := t\<rparr>))" for t
    by (rule keeps_update) (auto simp: port_at_def port_ok_def)
  have streams: "keeps (port_at conns) (on_container (with_stream sid (Stream_updateAttachments api expected)))"
    if "port_at conns p" "(sid, expected) \<in> set (snd (fold (filter_entry p) (oa_filterTable p) (found, [])))"
    for p sid expected found
    using expected_connected [OF that(2)] that(1)
    by (intro keeps_on_container keeps_with_stream keeps_updateAttachments) (simp add: port_at_def)
  have detach: "keeps (port_at conns) (on_container (with_stream sid (Stream_detachAll api)))" for sid
    by (intro keeps_on_container keeps_with_stream keeps_stream_detach)
  show "keeps (port_at conns) (OutAttachablePort_updateConnectionFilter api table)"
    unfolding OutAttachablePort_updateConnectionFilter_def
  proof (intro keeps_with_lock keeps_then filter keeps_get_bind, unfold case_prod_beta,
      intro keeps_then keeps_each keeps_get_bind keeps_return keeps_if keeps_when keeps_updateSRI detach, goal_cases)
    case (1 p x) then show ?case by (cases x) (auto intro: streams)
  next
    case (2 p q s x)
    then have "dget conns (fst x) = Some (snd x)" using dict [of s "fst x" "snd x"] by simp
    then show ?case by (rule keeps_add_to_streams)
  qed
qed

lemma keeps_request: "keeps port_ok (serve_request api req)"
  by (cases req) (simp_all add: keeps_connectPort keeps_disconnectPort keeps_addStream
      keeps_port [OF keeps_removeStream] keeps_updateStream keeps_attach keeps_detach
      keeps_port [OF keeps_pushSRI] keeps_updateConnectionFilter keeps_then)

lemma run_keeps: "port_ok p \<Longrightarrow> port_ok (attach_run api reqs p)"
  unfolding attach_run_def using keeps_request by (induction reqs arbitrary: p) (simp_all add: keeps_def)

lemma port_ok_init:
  "orderly r \<Longrightarrow> (\<And>ref aid. held r ref aid = None) \<Longrightarrow> port_ok (OutAttachablePort_init name r)"
  unfolding port_ok_def OutAttachablePort_init_def by (auto simp: sris_ok_def intro!: booksI)

end

end
