(* ===== verification/AttachRouting.thy ===== *)
theory AttachRouting
  imports AttachRequests
begin

text \<open>
  Where the streams of an \<open>OutAttachablePort\<close> go: after an operation that returns, the attachments are
  those the filter table asks for, and the attached receivers know the SRI on file.
\<close>

lemma act_each_monotone:
  assumes "act_each f xs s = (Ok (), s')" "P s"
    and keeps: "\<And>x. x \<in> set xs \<Longrightarrow> keeps P (f x)"
    and establish: "\<And>x s s'. x \<in> set xs \<Longrightarrow> P s \<Longrightarrow> f x s = (Ok (), s') \<Longrightarrow> Q x s'"
    and frame: "\<And>x y s s'. x \<in> set xs \<Longrightarrow> y \<in> set xs \<Longrightarrow> P s \<Longrightarrow> Q x s \<Longrightarrow> f y s = (Ok (), s') \<Longrightarrow> Q x s'"
  shows "P s' \<and> (\<forall>x \<in> set xs. Q x s')"
proof -
  have "P s' \<and> (\<forall>x \<in> done \<union> set ys. Q x s')"
    if "act_each f ys s = (Ok (), s')" "P s" "\<forall>x \<in> done. Q x s" "set ys \<subseteq> set xs" "done \<subseteq> set xs" for ys s "done"
    using that
  proof (induction ys arbitrary: s "done")
    case (Cons y ys)
    obtain t where t: "f y s = (Ok (), t)" "act_each f ys t = (Ok (), s')"
      using Cons.prems(1) by (auto simp: act_then_Ok)
    have "P t" using keepsD [OF keeps] Cons.prems(2,4) t(1) by (meson list.set_intros(1) subsetD)
    moreover have "\<forall>x \<in> insert y done. Q x t"
      using establish [of y s t] frame [of _ y s t] Cons.prems t(1) by (auto simp: subset_eq)
    ultimately have "P s' \<and> (\<forall>x \<in> insert y done \<union> set ys. Q x s')"
      using Cons.IH [of t "insert y done"] t(2) Cons.prems by auto
    then show ?case by auto
  qed simp
  from this [of xs s "{}"] assms(1,2) show ?thesis by simp
qed

section \<open>One stream of the container\<close>

abbreviation cids :: "'d attach_stream \<Rightarrow> string set" where
  "cids st \<equiv> set (Stream_getConnectionIds st)"

lemma with_stream_cases:
  assumes "with_stream sid m (sts, r) = (res, sts', r')"
  obtains (found) pre st post st' where "sts = pre @ st # post" "sts' = pre @ st' # post"
      "as_streamId st = sid" "m (st, r) = (res, st', r')"
  | (unknown) "sid \<notin> as_streamId ` set sts" "sts' = sts" "res = Ok ()" "r' = r"
proof -
  have "(\<exists>pre st post st'. sts = pre @ st # post \<and> sts' = pre @ st' # post \<and> as_streamId st = sid \<and> m (st, r) = (res, st', r'))
      \<or> sid \<notin> as_streamId ` set sts \<and> sts' = sts \<and> res = Ok () \<and> r' = r"
    using assms
  proof (induction sts arbitrary: sts')
    case (Cons st sts)
    show ?case
    proof (cases "as_streamId st = sid")
      case True
      obtain res1 st1 r1 where "m (st, r) = (res1, st1, r1)" by (cases "m (st, r)")
      then show ?thesis using Cons.prems True by (intro disjI1 exI [of _ "[]"]) auto
    next
      case False
      obtain res1 sts1 r1 where w: "with_stream sid m (sts, r) = (res1, sts1, r1)"
        by (cases "with_stream sid m (sts, r)")
      then have eq: "res1 = res" "sts' = st # sts1" "r1 = r'" using Cons.prems False by auto
      from Cons.IH [OF w [unfolded eq(1,3)]] show ?thesis
      proof
        assume "\<exists>pre st post st'. sts = pre @ st # post \<and> sts1 = pre @ st' # post \<and> as_streamId st = sid \<and> m (st, r) = (res, st', r')"
        then obtain pre st2 post st' where "sts = pre @ st2 # post \<and> sts1 = pre @ st' # post \<and>
            as_streamId st2 = sid \<and> m (st2, r) = (res, st', r')" by blast
        then show ?thesis using eq by (intro disjI1 exI [of _ "st # pre"] exI [of _ st2] exI [of _ post] exI [of _ st']) auto
      qed (use False eq in auto)
    qed
  qed simp
  then show thesis using that by blast
qed

lemma add_connection_Ok:
  assumes "add_connection api cid port (st, r) = (Ok (), st', r')"
  shows "cids st' = insert cid (cids st) \<and> as_streamId st' = as_streamId st"
proof (cases "Stream_hasConnectionId cid st")
  case True
  then have "st' = st" "cid \<in> cids st"
    using assms by (auto simp: add_connection_def Stream_hasConnectionId_def Stream_getConnectionIds_def list_ex_iff)
  then show ?thesis by auto
next
  case False
  then have "Stream_createNewAttachment api cid port (st, r) = (Ok (), st', r')"
    using assms by (simp add: add_connection_def)
  then show ?thesis
    by (auto simp: Stream_createNewAttachment_def Stream_getConnectionIds_def split: prod.splits option.splits)
qed

definition ids_given :: "'d attach_stream \<Rightarrow> bool" where
  "ids_given st \<longleftrightarrow> (\<forall>att \<in> set (as_attachments st). at_attachId att \<noteq> '''')"

lemma detach_connections:
  "ids_given st \<Longrightarrow> \<exists>st' r'. act_each (Stream_detachByConnectionId api) cs (st, r) = (Ok (), st', r') \<and>
     cids st' = cids st - set cs \<and> as_streamId st' = as_streamId st \<and> ids_given st'"
proof (induction cs arbitrary: st r)
  case (Cons c cs)
  let ?st = "st\<lparr>as_attachments := filter (Not \<circ> (\<lambda>att. at_connectionId att = c \<and> at_attachId att \<noteq> '''')) (as_attachments st)\<rparr>"
  have st: "ids_given ?st" "cids ?st = cids st - {c}"
    using Cons.prems by (auto simp: ids_given_def Stream_getConnectionIds_def)
  show ?case
  proof -
    note st
    then obtain st' r' where "act_each (Stream_detachByConnectionId api) cs (?st,
          fold (StreamAttachment_detach api) (filter (\<lambda>att. at_connectionId att = c \<and> at_attachId att \<noteq> '''') (as_attachments st)) r) =
        (Ok (), st', r')" "cids st' = cids ?st - set cs" "as_streamId st' = as_streamId ?st" "ids_given st'"
      using Cons.IH [OF st(1)] by blast
    note r = this
    have step: "Stream_detachByConnectionId api c (st, r) = (Ok (), ?st,
        fold (StreamAttachment_detach api) (filter (\<lambda>att. at_connectionId att = c \<and> at_attachId att \<noteq> '''') (as_attachments st)) r)"
      by (simp add: Stream_detachByConnectionId_def detach_where_def)
    have "act_each (Stream_detachByConnectionId api) (c # cs) (st, r) = (Ok (), st', r')"
      unfolding act_each.simps act_then_run(1) [where m = "Stream_detachByConnectionId api c", OF step] by (rule r(1))
    moreover have "cids st' = cids st - set (c # cs)" unfolding r(2) st(2) by auto
    ultimately show ?thesis using r(3,4) by (intro exI conjI) (assumption | simp)+
  qed
qed (simp add: act_return_def)

lemma detachAll_run:
  "\<exists>st' r'. Stream_detachAll api (st, r) = (Ok (), st', r') \<and> cids st' = {} \<and> as_streamId st' = as_streamId st"
  by (simp add: Stream_detachAll_def detach_where_def Stream_getConnectionIds_def o_def)

context attach_peers
begin

lemma ids_given_books: "books_around conns K pre post (st, r) \<Longrightarrow> ids_given st"
  unfolding books_around_def prod.case
  by (drule booksD(5) [where st = st]) (auto simp: stream_books_def ids_given_def)

lemma updateAttachments_Ok:
  assumes run: "Stream_updateAttachments api expected (st, r) = (Ok (), st', r')"
    and b: "books_around conns K pre post (st, r)"
    and conn: "\<And>cid port. (cid, port) \<in> set expected \<Longrightarrow> dget conns cid = Some port"
  shows "cids st' = fst ` set expected \<and> as_streamId st' = as_streamId st"
proof -
  obtain st1 r1 where m: "act_each (\<lambda>(cid, port). add_connection api cid port) expected (st, r) = (Ok (), st1, r1)"
      "act_each (Stream_detachByConnectionId api)
         (filter (\<lambda>cid. cid \<notin> set (map fst expected)) (Stream_getConnectionIds st1)) (st1, r1) = (Ok (), st', r')"
    using run unfolding Stream_updateAttachments_def act_then_Ok by auto
  let ?P = "\<lambda>s. books_around conns K pre post s \<and> as_streamId (fst s) = as_streamId st"
  have keep: "keeps ?P (case x of (cid, port) \<Rightarrow> add_connection api cid port)" if "x \<in> set expected" for x
  proof -
    obtain cid port where x: "x = (cid, port)" by (cases x)
    have "as_streamId (fst (snd (add_connection api cid port s))) = as_streamId (fst s)" for s
      by (cases s) (auto simp: add_connection_def Stream_createNewAttachment_def split: prod.split option.split)
    then show ?thesis
      using keeps_add_connection [OF conn] that unfolding keeps_def x by auto
  qed
  have "?P (st1, r1) \<and> (\<forall>x \<in> set expected. fst x \<in> cids (fst (st1, r1)))"
  proof (rule act_each_monotone [OF m(1), where P = ?P and Q = "\<lambda>x s. fst x \<in> cids (fst s)"])
    show "?P (st, r)" using b by simp
    show "keeps ?P (case x of (cid, port) \<Rightarrow> add_connection api cid port)" if "x \<in> set expected" for x
      by (rule keep [OF that])
    show "fst x \<in> cids (fst s')" if "(case x of (cid, port) \<Rightarrow> add_connection api cid port) s = (Ok (), s')" for x s s'
      using that add_connection_Ok by (cases s; cases s'; cases x) fastforce
    show "fst x \<in> cids (fst s')"
      if "fst x \<in> cids (fst s)" "(case y of (cid, port) \<Rightarrow> add_connection api cid port) s = (Ok (), s')" for x y s s'
      using that add_connection_Ok by (cases s; cases s'; cases y) fastforce
  qed
  then have s: "books_around conns K pre post (st1, r1)" "as_streamId st1 = as_streamId st" "fst ` set expected \<subseteq> cids st1"
    by auto
  show ?thesis
  proof -
    let ?cs = "filter (\<lambda>cid. cid \<notin> set (map fst expected)) (Stream_getConnectionIds st1)"
    obtain st2 r2 where d: "act_each (Stream_detachByConnectionId api) ?cs (st1, r1) = (Ok (), st2, r2)"
        "cids st2 = cids st1 - set ?cs" "as_streamId st2 = as_streamId st1"
      using detach_connections [OF ids_given_books [OF s(1)], of api ?cs r1] by (elim exE conjE) (rule that)
    have st': "st' = st2" using trans [OF d(1) [symmetric] m(2)] by blast
    have "cids st1 - set ?cs = fst ` set expected"
      unfolding set_filter set_map using s(3) by blast
    then show ?thesis unfolding st' d(2,3) s(2) by blast
  qed
qed

section \<open>SRIs reach the attached receivers\<close>

definition informed :: "string \<Rightarrow> string \<Rightarrow> ('d, 'r) outattach \<Rightarrow> bool" where
  "informed sid cid p \<longleftrightarrow> (\<forall>H T cs. dget (oa_sriDict p) sid = Some (H, T, cs) \<longrightarrow> cid \<in> set cs)"

lemma push_known_sri_Ok:
  assumes "push_known_sri api sid cid p = (Ok (), p')"
  shows "oa_container p' = oa_container p \<and> oa_outConnections p' = oa_outConnections p \<and>
     (dget (oa_outConnections p) cid \<noteq> None \<longrightarrow> informed sid cid p') \<and> (informed s c p \<longrightarrow> informed s c p')"
  using assms
  by (auto simp: push_known_sri_def push_to_peer_def informed_def split: option.splits if_splits prod.splits bool.splits)

lemma updateSRI_Ok:
  assumes "OutAttachablePort_updateSRIForAllConnections api p = (Ok (), p')" "port_ok p"
  shows "oa_container p' = oa_container p \<and> oa_outConnections p' = oa_outConnections p \<and>
     (\<forall>st \<in> set (oa_container p'). \<forall>cid \<in> cids st. informed (as_streamId st) cid p')"
proof -
  let ?f = "\<lambda>st. act_each (push_known_sri api (as_streamId st)) (Stream_getConnectionIds st)"
  let ?P = "\<lambda>q. oa_container q = oa_container p \<and> oa_outConnections q = oa_outConnections p"
  have keep1: "keeps ?P (push_known_sri api sid cid)" for sid cid
    by (auto simp: keeps_def push_known_sri_def push_to_peer_def split: option.split prod.split bool.split)
  have keep: "keeps ?P (?f st)" for st by (intro keeps_each keep1)
  have conn: "dget (oa_outConnections p) cid \<noteq> None" if "st \<in> set (oa_container p)" "cid \<in> cids st" for st cid
    using booksD(5) [OF port_okD(1) [OF assms(2)] that(1)] that(2)
    by (auto simp: stream_books_def Stream_getConnectionIds_def)
  have inf: "keeps (informed s c) (push_known_sri api sid cid)" for s c sid cid
    by (auto simp: keeps_def push_known_sri_def push_to_peer_def informed_def split: option.split prod.split bool.split)
  have frame: "informed s c q'" if "informed s c q" "?f st q = (Ok (), q')" for s c st q q'
  proof -
    have "keeps (informed s c) (?f st)" by (intro keeps_each inf)
    from keepsD [OF this that] show ?thesis .
  qed
  have establish: "\<forall>cid \<in> cids st. informed (as_streamId st) cid q'"
    if st: "st \<in> set (oa_container p)" and q: "?P q" "?f st q = (Ok (), q')" for st q q'
  proof -
    have "?P q' \<and> (\<forall>cid \<in> cids st. informed (as_streamId st) cid q')"
    proof (rule act_each_monotone [OF q(2), where P = ?P])
      show "?P q" by (rule q(1))
      show "keeps ?P (push_known_sri api (as_streamId st) x)" for x by (rule keep1)
      show "informed (as_streamId st) x s'"
        if "x \<in> cids st" "?P s" "push_known_sri api (as_streamId st) x s = (Ok (), s')" for x s s'
        using push_known_sri_Ok [OF that(3)] conn [OF st that(1)] that(2) by simp
      show "informed (as_streamId st) x s'"
        if "informed (as_streamId st) x s" "push_known_sri api (as_streamId st) y s = (Ok (), s')" for x y s s'
        using keepsD [OF inf that] .
    qed
    then show ?thesis by blast
  qed
  have run: "act_each ?f (oa_container p) p = (Ok (), p')"
    using assms(1) by (simp add: OutAttachablePort_updateSRIForAllConnections_def)
  have "?P p' \<and> (\<forall>st \<in> set (oa_container p). \<forall>cid \<in> cids st. informed (as_streamId st) cid p')"
  proof (rule act_each_monotone [OF run, where P = ?P])
    show "keeps ?P (?f x)" for x by (rule keep)
    show "\<forall>cid \<in> cids x. informed (as_streamId x) cid s'"
      if "x \<in> set (oa_container p)" "?P s" "?f x s = (Ok (), s')" for x s s'
      by (rule establish [OF that])
    show "\<forall>cid \<in> cids x. informed (as_streamId x) cid s'"
      if "\<forall>cid \<in> cids x. informed (as_streamId x) cid s" "?f y s = (Ok (), s')" for x y s s'
      using frame [OF _ that(2)] that(1) by blast
  qed simp
  then show ?thesis by auto
qed

end

section \<open>Stream IDs and the settings of the port stay\<close>

abbreviation id_is :: "string \<Rightarrow> 'd attach_stream \<times> 'r \<Rightarrow> bool" where
  "id_is sid \<equiv> \<lambda>(st, r). as_streamId st = sid"

lemma keeps_id_add: "keeps (id_is sid) (add_connection api cid port)"
  unfolding add_connection_def
  by (intro keeps_bind keeps_if keeps_return)
    (auto simp: keeps_def Stream_createNewAttachment_def split: prod.split option.split)

lemma keeps_id_detach: "keeps (id_is sid) (detach_where api P)"
  by (auto simp: keeps_def detach_where_def)

lemma keeps_id_update: "keeps (id_is sid) (Stream_updateAttachments api expected)"
  unfolding Stream_updateAttachments_def Stream_detachByConnectionId_def
  by (intro keeps_then keeps_bind keeps_each keeps_return keeps_id_detach) (auto intro: keeps_id_add)

lemma keeps_id_detachAll: "keeps (id_is sid) (Stream_detachAll api)"
  unfolding Stream_detachAll_def by (rule keeps_id_detach)

lemma with_stream_ids:
  assumes "\<And>i. keeps (id_is i) m"
  shows "keeps (\<lambda>(sts, r). map as_streamId sts = ids) (with_stream sid m)"
proof -
  have "map as_streamId sts' = map as_streamId sts" if "with_stream sid m (sts, r) = (res, sts', r')" for sts r res sts' r'
    using that
  proof (cases rule: with_stream_cases)
    case (found pre st post st')
    then show ?thesis using keepsD [OF assms _ found(4), of "as_streamId st"] by simp
  qed simp
  then show ?thesis by (auto simp: keeps_def) (metis prod.collapse)
qed

lemma each_stream_ids:
  assumes "\<And>i. keeps (id_is i) m"
  shows "keeps (\<lambda>(sts, r). map as_streamId sts = ids) (each_stream m)"
proof -
  have "map as_streamId (fst (snd (each_stream m (sts, r)))) = map as_streamId sts" for sts r
  proof (induction sts arbitrary: r)
    case (Cons st sts)
    obtain res st' r' where m: "m (st, r) = (res, st', r')" by (cases "m (st, r)")
    then show ?case
      using keepsD [OF assms _ m, of "as_streamId st"] Cons.IH [of r'] by (cases res) (auto split: prod.split)
  qed simp
  then show ?thesis by (auto simp: keeps_def) (metis fst_conv)
qed

definition settings :: "string list \<Rightarrow> string \<Rightarrow> filter_rule list \<Rightarrow> ('d, 'r) outattach \<Rightarrow> bool" where
  "settings ids name table p \<longleftrightarrow>
     map as_streamId (oa_container p) = ids \<and> oa_name p = name \<and> oa_filterTable p = table"

lemma keeps_settings:
  fixes m :: "('d, 'r) on_streams"
  assumes "keeps (\<lambda>(sts, r). map as_streamId sts = ids) m"
  shows "keeps (settings ids name table) (on_container m)"
  unfolding keeps_def
proof (intro allI impI)
  fix p :: "('d, 'r) outattach" assume p: "settings ids name table p"
  obtain res sts r where m: "m (oa_container p, oa_peers p) = (res, sts, r)"
    by (cases "m (oa_container p, oa_peers p)")
  show "settings ids name table (snd (on_container m p))"
    using keepsD [OF assms _ m] p by (simp add: settings_def on_container_def m)
qed

lemma keeps_conj: "keeps P m \<Longrightarrow> keeps Q m \<Longrightarrow> keeps (\<lambda>s. P s \<and> Q s) m"
  by (simp add: keeps_def)

lemma with_stream_others:
  fixes p :: "('d, 'r) outattach"
  assumes "on_container (with_stream sid m) p = (res, p')" "\<And>i. keeps (id_is i) m"
    "st \<in> set (oa_container p')" "as_streamId st \<noteq> sid"
  shows "st \<in> set (oa_container p)"
proof -
  obtain sts' r' where w: "with_stream sid m (oa_container p, oa_peers p) = (res, sts', r')"
      and p': "p' = p\<lparr>oa_container := sts', oa_peers := r'\<rparr>"
    using assms(1) by (auto simp: on_container_def split: prod.splits)
  from w show ?thesis
  proof (cases rule: with_stream_cases)
    case (found pre st1 post st')
    have "as_streamId st' = sid" using keepsD [OF assms(2) _ found(4), of sid] found(3) by simp
    then show ?thesis using found(1,2) assms(3,4) p' by auto
  qed (use assms(3) p' in auto)
qed

context attach_peers
begin

section \<open>The filter table routes\<close>

lemma update_stream_Ok:
  assumes "on_container (with_stream sid (Stream_updateAttachments api expected)) p = (Ok (), p')"
    "port_at conns p" "\<And>cid port. (cid, port) \<in> set expected \<Longrightarrow> dget conns cid = Some port"
    "st \<in> set (oa_container p')" "as_streamId st = sid"
  shows "cids st = fst ` set expected"
proof -
  obtain sts' r' where w: "with_stream sid (Stream_updateAttachments api expected) (oa_container p, oa_peers p) = (Ok (), sts', r')"
      and p': "p' = p\<lparr>oa_container := sts', oa_peers := r'\<rparr>"
    using assms(1) by (auto simp: on_container_def split: prod.splits)
  have b: "books conns (known (oa_peers p)) (oa_container p, oa_peers p)"
    using assms(2) port_okD(1) by (auto simp: port_at_def)
  from w show ?thesis
  proof (cases rule: with_stream_cases)
    case (found pre st1 post st')
    have u: "cids st' = fst ` set expected \<and> as_streamId st' = as_streamId st1"
      using updateAttachments_Ok [OF found(4) _ assms(3)] b found(1) by (simp add: books_around_def)
    have "st = st'" using assms(4,5) booksD(4) [OF b] found(1-3) p' by auto
    then show ?thesis using u by simp
  next
    case unknown
    then show ?thesis using assms(4,5) p' by auto
  qed
qed

lemma detachAll_Ok:
  assumes "on_container (with_stream sid (Stream_detachAll api)) p = (Ok (), p')" "port_at conns p"
    "st \<in> set (oa_container p')" "as_streamId st = sid"
  shows "cids st = {}"
proof -
  obtain sts' r' where w: "with_stream sid (Stream_detachAll api) (oa_container p, oa_peers p) = (Ok (), sts', r')"
      and p': "p' = p\<lparr>oa_container := sts', oa_peers := r'\<rparr>"
    using assms(1) by (auto simp: on_container_def split: prod.splits)
  have b: "books conns (known (oa_peers p)) (oa_container p, oa_peers p)"
    using assms(2) port_okD(1) by (auto simp: port_at_def)
  from w show ?thesis
  proof (cases rule: with_stream_cases)
    case (found pre st1 post st')
    obtain st2 r2 where "Stream_detachAll api (st1, oa_peers p) = (Ok (), st2, r2)" "cids st2 = {}"
      using detachAll_run [of api st1 "oa_peers p"] by (elim exE conjE) (rule that)
    then have "cids st' = {}" using found(4) by simp
    moreover have "st = st'" using assms(3,4) booksD(4) [OF b] found(1-3) p' by auto
    ultimately show ?thesis by simp
  next
    case unknown
    then show ?thesis using assms(3,4) p' by auto
  qed
qed


end

context attach_peers
begin

text \<open>The loop over the expected attachments, and the loop that detaches the streams without any.\<close>

definition configured :: "(string, nat) dict \<Rightarrow> string list \<Rightarrow> string \<Rightarrow> filter_rule list \<Rightarrow> ('d, 'r) outattach \<Rightarrow> bool" where
  "configured conns ids name table p \<longleftrightarrow> port_at conns p \<and> settings ids name table p"

abbreviation goes_to :: "string \<Rightarrow> string set \<Rightarrow> ('d, 'r) outattach \<Rightarrow> bool" where
  "goes_to sid cs p \<equiv> (\<forall>st \<in> set (oa_container p). as_streamId st = sid \<longrightarrow> cids st = cs)"

lemma expected_loop:
  assumes run: "act_each (\<lambda>(sid, expected). on_container
      (with_stream sid (Stream_updateAttachments api expected))) atts p = (Ok (), p')"
    and p: "configured conns ids name table p" and d: "dict_ok atts"
    and conn: "\<And>sid expected cid port. (sid, expected) \<in> set atts \<Longrightarrow> (cid, port) \<in> set expected \<Longrightarrow>
      dget conns cid = Some port"
  shows "configured conns ids name table p' \<and> (\<forall>x \<in> set atts. goes_to (fst x) (fst ` set (snd x)) p')"
proof (rule act_each_establishes [OF run, where P = "configured conns ids name table"])
  show "distinct atts" using d by (simp add: dict_ok_def dkeys_def distinct_map)
  show "configured conns ids name table p" by (rule p)
  show "keeps (configured conns ids name table) (case x of (sid, expected) \<Rightarrow>
      on_container (with_stream sid (Stream_updateAttachments api expected)))" if "x \<in> set atts" for x
  proof -
    obtain sid expected where x: "x = (sid, expected)" by (cases x)
    have "keeps (port_at conns) (on_container (with_stream sid (Stream_updateAttachments api expected)))"
      using conn that by (intro keeps_on_container keeps_with_stream keeps_updateAttachments) (simp add: x)
    moreover have "keeps (settings ids name table) (on_container (with_stream sid (Stream_updateAttachments api expected)))"
      by (intro keeps_settings with_stream_ids keeps_id_update)
    ultimately show ?thesis unfolding configured_def x prod.case by (rule keeps_conj)
  qed
  show "goes_to (fst x) (fst ` set (snd x)) s'"
    if "x \<in> set atts" "configured conns ids name table s" "(case x of (sid, expected) \<Rightarrow>
      on_container (with_stream sid (Stream_updateAttachments api expected))) s = (Ok (), s')" for x s s'
  proof -
    obtain sid expected where x: "x = (sid, expected)" by (cases x)
    have r: "on_container (with_stream sid (Stream_updateAttachments api expected)) s = (Ok (), s')"
      using that(3) by (simp add: x)
    have q: "port_at conns s" using that(2) by (simp add: configured_def)
    show ?thesis
      using update_stream_Ok [OF r q conn [OF that(1) [unfolded x]]] by (simp add: x)
  qed
  show "goes_to (fst x) (fst ` set (snd x)) s'"
    if "x \<in> set atts" "y \<in> set atts" "x \<noteq> y" "goes_to (fst x) (fst ` set (snd x)) s" "(case y of (sid, expected) \<Rightarrow>
      on_container (with_stream sid (Stream_updateAttachments api expected))) s = (Ok (), s')" for x y s s'
  proof -
    have ne: "fst y \<noteq> fst x" using that(1-3) d by (auto simp: dict_ok_def dkeys_def distinct_map dest: inj_onD)
    have r: "on_container (with_stream (fst y) (Stream_updateAttachments api (snd y))) s = (Ok (), s')"
      using that(5) by (simp add: case_prod_beta)
    show ?thesis using with_stream_others [OF r keeps_id_update] that(4) ne by metis
  qed
qed

lemma unmentioned_loop:
  assumes run: "act_each (\<lambda>(sid, found).
      act_when (\<not> found) (on_container (with_stream sid (Stream_detachAll api)))) streamsFound p = (Ok (), p')"
    and p: "configured conns ids name table p" and d: "dict_ok streamsFound"
  shows "configured conns ids name table p' \<and>
     (\<forall>sid. dget streamsFound sid = Some False \<longrightarrow> goes_to sid {} p') \<and>
     (\<forall>sid cs. dget streamsFound sid = Some True \<and> goes_to sid cs p \<longrightarrow> goes_to sid cs p')"
proof -
  have keep1: "keeps (configured conns ids name table) (on_container (with_stream sid (Stream_detachAll api)))" for sid
    unfolding configured_def
    by (intro keeps_conj keeps_on_container keeps_with_stream keeps_stream_detach keeps_settings
        with_stream_ids keeps_id_detachAll)
  have step: "configured conns ids name table q'" "\<not> found \<Longrightarrow> goes_to sid {} q'"
      "sid' \<noteq> sid \<or> found \<or> cs = {} \<Longrightarrow> goes_to sid' cs q \<Longrightarrow> goes_to sid' cs q'"
    if "act_when (\<not> found) (on_container (with_stream sid (Stream_detachAll api))) q = (Ok (), q')"
      "configured conns ids name table q" for sid sid' found cs q q'
  proof -
    have "found \<and> q' = q \<or> \<not> found \<and> on_container (with_stream sid (Stream_detachAll api)) q = (Ok (), q')"
      using that(1) by (cases found) (auto simp: act_when_def)
    then consider (skip) "found" "q' = q" | (run) "\<not> found" "on_container (with_stream sid (Stream_detachAll api)) q = (Ok (), q')"
      by blast
    then have "configured conns ids name table q' \<and> (\<not> found \<longrightarrow> goes_to sid {} q') \<and>
        (sid' \<noteq> sid \<or> found \<or> cs = {} \<longrightarrow> goes_to sid' cs q \<longrightarrow> goes_to sid' cs q')"
    proof cases
      case run
      have q: "port_at conns q" using that(2) by (simp add: configured_def)
      have a: "configured conns ids name table q'" using keepsD [OF keep1 that(2) run(2)] .
      have b: "goes_to sid {} q'" using detachAll_Ok [OF run(2) q] by blast
      have c: "goes_to sid' cs q'" if "sid' \<noteq> sid" "goes_to sid' cs q"
        using with_stream_others [OF run(2) keeps_id_detachAll] that by metis
      show ?thesis
      proof (intro conjI impI)
        show "goes_to sid' cs q'" if "sid' \<noteq> sid \<or> found \<or> cs = {}" "goes_to sid' cs q"
        proof (cases "sid' = sid")
          case True
          then have "cs = {}" using that(1) run(1) by simp
          then show ?thesis using b True by simp
        qed (use c that(2) in simp)
      qed (use a b in simp_all)
    qed (use that(2) in simp)
    note h = this
    show "configured conns ids name table q'" by (rule conjunct1 [OF h])
    show "goes_to sid {} q'" if "\<not> found" by (rule mp [OF conjunct1 [OF conjunct2 [OF h]] that])
    show "goes_to sid' cs q'" if "sid' \<noteq> sid \<or> found \<or> cs = {}" "goes_to sid' cs q"
      by (rule mp [OF mp [OF conjunct2 [OF conjunct2 [OF h]] that(1)] that(2)])
  qed
  show ?thesis
    using run p d
  proof (induction streamsFound arbitrary: p)
    case (Cons x xs)
    obtain sid found where x: "x = (sid, found)" by (cases x)
    obtain q where q: "act_when (\<not> found) (on_container (with_stream sid (Stream_detachAll api))) p = (Ok (), q)"
        "act_each (\<lambda>(sid, found). act_when (\<not> found) (on_container (with_stream sid (Stream_detachAll api)))) xs q = (Ok (), p')"
      using Cons.prems(1) by (auto simp: act_then_Ok x)
    have d: "dict_ok xs" "dget xs sid = None" using Cons.prems(3) by (auto simp: x dict_ok_Cons)
    note st = step [OF q(1) Cons.prems(2)]
    have IH: "configured conns ids name table p'" "\<And>s. dget xs s = Some False \<Longrightarrow> goes_to s {} p'"
        "\<And>s cs. dget xs s = Some True \<Longrightarrow> goes_to s cs q \<Longrightarrow> goes_to s cs p'"
      using Cons.IH [OF q(2) st(1) d(1)] by blast+
    have last: "goes_to sid cs p'" if "goes_to sid cs q" for cs
    proof -
      have "goes_to sid cs r'" if "act_each (\<lambda>(sid, found). act_when (\<not> found)
          (on_container (with_stream sid (Stream_detachAll api)))) ys r = (Ok (), r')"
        "configured conns ids name table r" "dget ys sid = None" "goes_to sid cs r" for ys r r'
        using that
      proof (induction ys arbitrary: r)
        case (Cons y ys)
        obtain s f where y: "y = (s, f)" by (cases y)
        obtain t where t: "act_when (\<not> f) (on_container (with_stream s (Stream_detachAll api))) r = (Ok (), t)"
            "act_each (\<lambda>(sid, found). act_when (\<not> found) (on_container (with_stream sid (Stream_detachAll api)))) ys t = (Ok (), r')"
          using Cons.prems(1) by (auto simp: act_then_Ok y)
        have ne: "sid \<noteq> s" "dget ys sid = None" using Cons.prems(3) by (auto simp: y split: if_splits)
        show ?case
          by (rule Cons.IH [OF t(2) step(1) [OF t(1) Cons.prems(2)] ne(2) step(3) [OF t(1) Cons.prems(2) _ Cons.prems(4)]])
            (use ne in simp)
      qed simp
      from this [OF q(2) st(1) d(2) that] show ?thesis .
    qed
    show ?case
    proof (intro conjI allI impI)
      show "configured conns ids name table p'" by (rule IH(1))
      show "goes_to s {} p'" if "dget (x # xs) s = Some False" for s
      proof (cases "s = sid")
        case True
        have f: "\<not> found" using that True by (simp add: x)
        show ?thesis unfolding True by (rule last [OF st(2) [OF f]])
      next
        case False
        then have "dget xs s = Some False" using that by (simp add: x)
        then show ?thesis by (rule IH(2))
      qed
      show "goes_to s cs p'" if "dget (x # xs) s = Some True \<and> goes_to s cs p" for s cs
      proof (cases "s = sid")
        case True
        have f: "found" using conjunct1 [OF that] True by (simp add: x)
        have g: "goes_to sid cs p" using conjunct2 [OF that] unfolding True .
        show ?thesis unfolding True by (rule last [OF st(3) [OF disjI2 [OF disjI1 [OF f]] g]])
      next
        case False
        have t: "dget xs s = Some True" using conjunct1 [OF that] False by (simp add: x)
        show ?thesis by (rule IH(3) [OF t st(3) [OF disjI1 [OF False] conjunct2 [OF that]]])
      qed
    qed
  qed simp
qed

end

end
