(* ===== verification/AttachRoutes.thy ===== *)
theory AttachRoutes
  imports AttachRouting
begin

text \<open>
  The routing theorems of an \<open>OutAttachablePort\<close>: what connecting a port, adding a stream and changing the
  filter table make of the attachments.
\<close>

section \<open>Loops that add a connection\<close>

lemma each_stream_rel:
  assumes "\<And>st r st' r'. m (st, r) = (Ok (), st', r') \<Longrightarrow> R st st'"
    and "each_stream m (sts, r) = (Ok (), sts', r')"
  shows "list_all2 R sts sts'"
  using assms(2)
proof (induction sts arbitrary: r sts')
  case (Cons st sts)
  obtain st1 r1 where m: "m (st, r) = (Ok (), st1, r1)"
    using Cons.prems by (cases "m (st, r)"; cases "fst (m (st, r))") auto
  obtain sts1 where e: "each_stream m (sts, r1) = (Ok (), sts1, r')" "sts' = st1 # sts1"
    using Cons.prems m by (auto split: prod.splits)
  show ?case using Cons.IH [OF e(1)] assms(1) [OF m] e(2) by simp
qed simp

text \<open>The streams before and after, when those chosen by \<open>chosen\<close> have got the connection.\<close>

definition gains :: "string \<Rightarrow> (string \<Rightarrow> bool) \<Rightarrow> 'd attach_stream \<Rightarrow> 'd attach_stream \<Rightarrow> bool" where
  "gains cid chosen st st' \<longleftrightarrow> as_streamId st' = as_streamId st \<and>
     cids st' = cids st \<union> (if chosen (as_streamId st) then {cid} else {})"

lemma gains_trans:
  "list_all2 (gains cid A) xs ys \<Longrightarrow> list_all2 (gains cid B) ys zs \<Longrightarrow> list_all2 (gains cid (\<lambda>s. A s \<or> B s)) xs zs"
  by (rule list_all2_trans) (auto simp: gains_def)

lemma gains_refl: "list_all2 (gains cid (\<lambda>s. False)) xs xs"
  by (rule list_all2_refl) (simp add: gains_def)

lemma add_to_all_gains:
  assumes "on_container (StreamContainer_addConnectionToAllStreams api cid port) p = (Ok (), p')"
  shows "list_all2 (gains cid (\<lambda>s. True)) (oa_container p) (oa_container p') \<and>
     oa_name p' = oa_name p \<and> oa_filterTable p' = oa_filterTable p \<and> oa_outConnections p' = oa_outConnections p"
proof -
  obtain sts r where m: "each_stream (add_connection api cid port) (oa_container p, oa_peers p) = (Ok (), sts, r)"
      "p' = p\<lparr>oa_container := sts, oa_peers := r\<rparr>"
    using assms by (auto simp: on_container_def StreamContainer_addConnectionToAllStreams_def split: prod.splits)
  have "list_all2 (gains cid (\<lambda>s. True)) (oa_container p) sts"
    by (rule each_stream_rel [OF _ m(1)]) (use add_connection_Ok in \<open>fastforce simp: gains_def\<close>)
  then show ?thesis using m(2) by simp
qed

lemma add_to_stream_gains:
  assumes "on_container (StreamContainer_addConnectionToStream api cid port sid) p = (Ok (), p')"
  shows "list_all2 (gains cid (\<lambda>s. s = sid)) (oa_container p) (oa_container p') \<and>
     oa_name p' = oa_name p \<and> oa_filterTable p' = oa_filterTable p \<and> oa_outConnections p' = oa_outConnections p"
proof -
  obtain sts r where m: "each_stream (when_id sid (add_connection api cid port)) (oa_container p, oa_peers p) = (Ok (), sts, r)"
      "p' = p\<lparr>oa_container := sts, oa_peers := r\<rparr>"
    using assms by (auto simp: on_container_def StreamContainer_addConnectionToStream_def split: prod.splits)
  have "gains cid (\<lambda>s. s = sid) st st'" if "when_id sid (add_connection api cid port) (st, r) = (Ok (), st', r')" for st r st' r'
    using that add_connection_Ok [of api cid port st r st' r']
    by (cases "as_streamId st = sid") (auto simp: when_id_def act_when_def gains_def)
  then have "list_all2 (gains cid (\<lambda>s. s = sid)) (oa_container p) sts"
    by (rule each_stream_rel [OF _ m(1)])
  then show ?thesis using m(2) by simp
qed

definition rule_names :: "string \<Rightarrow> string \<Rightarrow> string \<Rightarrow> filter_rule \<Rightarrow> bool" where
  "rule_names name cid sid ft \<longleftrightarrow> fr_port_name ft = name \<and> fr_connection_id ft = cid \<and> fr_stream_id ft = sid"

lemma rules_gain:
  assumes "act_each (connect_by_rule api cid port) rules p = (Ok (), p')"
  shows "list_all2 (gains cid (\<lambda>s. list_ex (rule_names (oa_name p) cid s) rules)) (oa_container p) (oa_container p') \<and>
     oa_name p' = oa_name p \<and> oa_filterTable p' = oa_filterTable p \<and> oa_outConnections p' = oa_outConnections p"
  using assms
proof (induction rules arbitrary: p)
  case (Cons ft rules)
  obtain q where q: "connect_by_rule api cid port ft p = (Ok (), q)" "act_each (connect_by_rule api cid port) rules q = (Ok (), p')"
    using Cons.prems by (auto simp: act_then_Ok)
  have one: "list_all2 (gains cid (\<lambda>s. rule_names (oa_name p) cid s ft)) (oa_container p) (oa_container q) \<and>
     oa_name q = oa_name p \<and> oa_filterTable q = oa_filterTable p \<and> oa_outConnections q = oa_outConnections p"
  proof (cases "fr_port_name ft = oa_name p \<and> fr_connection_id ft = cid")
    case True
    then have "(\<lambda>s. rule_names (oa_name p) cid s ft) = (\<lambda>s. s = fr_stream_id ft)"
      by (auto simp: rule_names_def)
    moreover have "on_container (StreamContainer_addConnectionToStream api cid port (fr_stream_id ft)) p = (Ok (), q)"
      using q(1) True by (simp add: connect_by_rule_def)
    ultimately show ?thesis using add_to_stream_gains by simp
  next
    case False
    then have "q = p" using q(1) by (auto simp: connect_by_rule_def)
    moreover have "(\<lambda>s. rule_names (oa_name p) cid s ft) = (\<lambda>s. False)"
      using False by (auto simp: rule_names_def)
    ultimately show ?thesis using gains_refl by simp
  qed
  show ?case
    using gains_trans [of cid _ _ "oa_container q"] one Cons.IH [OF q(2)] by fastforce
qed (simp add: gains_refl)

text \<open>The targets of a stream, as a set.\<close>

lemma target_connections:
  "cid \<in> fst ` set (stream_targets sid p) \<longleftrightarrow> dget (oa_outConnections p) cid \<noteq> None \<and>
     (port_listed p \<longrightarrow> list_ex (rule_names (oa_name p) cid sid) (oa_filterTable p))"
proof -
  have "cid \<in> fst ` set (oa_outConnections p) \<longleftrightarrow> dget (oa_outConnections p) cid \<noteq> None"
    by (simp add: dget_None_iff dkeys_def)
  moreover have "cid \<in> fst ` set (listed_targets sid p) \<longleftrightarrow> cid \<in> fst ` set (oa_outConnections p) \<and>
      list_ex (rule_names (oa_name p) cid sid) (oa_filterTable p)"
    by (force simp: listed_targets_def rule_names_def list_ex_iff image_iff)
  ultimately show ?thesis by (auto simp: stream_targets_def)
qed

lemma keeps_settings_updateSRI:
  "keeps (settings ids name table) (OutAttachablePort_updateSRIForAllConnections api)"
  unfolding OutAttachablePort_updateSRIForAllConnections_def
  by (intro keeps_bind keeps_each keeps_return)
    (auto simp: keeps_def push_known_sri_def push_to_peer_def settings_def split: option.split prod.split bool.split)

context attach_peers
begin

section \<open>Connecting\<close>

lemma connect_routes:
  assumes "OutAttachablePort_connectPort api obj is_a cid p = (Ok (), p')" "port_ok p"
  shows "dget (oa_outConnections p) cid = None \<and> dget (oa_outConnections p') cid = obj \<and> obj \<noteq> None \<and>
     list_all2 (gains cid (\<lambda>sid. cid \<in> fst ` set (stream_targets sid p'))) (oa_container p) (oa_container p') \<and>
     (\<forall>st \<in> set (oa_container p'). \<forall>c \<in> cids st. informed (as_streamId st) c p')"
proof -
  obtain p1 where p1: "OutAttachablePort_connect_base obj is_a cid p = (Ok (), p1)"
      and locked: "with_lock (act_catch
       (act_bind (act_bind (act_get oa_outConnections) (\<lambda>conns. act_lookup conns cid)) (\<lambda>port.
        act_then (act_bind (act_get oa_filterTable) (act_each (connect_by_rule api cid port)))
        (act_then (act_bind (act_get port_listed) (\<lambda>portListed.
            if portListed then act_return ()
            else on_container (StreamContainer_addConnectionToAllStreams api cid port)))
          (OutAttachablePort_updateSRIForAllConnections api))))
       (\<lambda>e. act_raise InvalidPort)) p1 = (Ok (), p')"
    using assms(1) unfolding OutAttachablePort_connectPort_def act_then_Ok
    by (elim exE conjE) (rule that, simp_all)
  obtain ref where base: "obj = Some ref" "dget (oa_outConnections p) cid = None"
      "p1 = p\<lparr>oa_outConnections := dput cid ref (oa_outConnections p), oa_stats := OutStats_add cid (oa_stats p)\<rparr>"
    using p1 by (auto simp: OutAttachablePort_connect_base_def with_lock_def split: option.splits if_splits)
  have ok1: "port_ok p1" using keepsD [OF keeps_connect_base assms(2) p1] .
  have ul: "\<not> oa_locked p1" using locked by (auto simp: with_lock_def)
  have "dget (oa_outConnections p1) cid = Some ref" using base(3) by simp
  then obtain p2 p3 where p2: "act_each (connect_by_rule api cid ref) (oa_filterTable p1) p1 = (Ok (), p2)"
      and p3: "(if port_listed p2 then act_return () else on_container (StreamContainer_addConnectionToAllStreams api cid ref)) p2 = (Ok (), p3)"
      and p4: "OutAttachablePort_updateSRIForAllConnections api p3 = (Ok (), p')"
    using locked ul by (auto simp: with_lock_def act_catch_raise_Ok act_then_Ok act_bind_assoc)
  note g2 = rules_gain [OF p2]
  have l2: "port_listed p2 = port_listed p1" using g2 by (simp add: port_listed_def)
  have g3: "list_all2 (gains cid (\<lambda>s. \<not> port_listed p1)) (oa_container p2) (oa_container p3) \<and>
      oa_name p3 = oa_name p2 \<and> oa_filterTable p3 = oa_filterTable p2 \<and> oa_outConnections p3 = oa_outConnections p2"
    using p3 l2 add_to_all_gains [of api cid ref p2 p3] gains_refl by (cases "port_listed p1") auto
  have conn1: "dget (oa_outConnections p1) cid = Some ref" using base(3) by simp
  have at1: "port_at (oa_outConnections p1) p1" using ok1 by (simp add: port_at_def)
  have "keeps (port_at (oa_outConnections p1)) (act_each (connect_by_rule api cid ref) (oa_filterTable p1))"
    by (intro keeps_each keeps_connect_by_rule [OF conn1])
  from keepsD [OF this at1 p2] have at2: "port_at (oa_outConnections p1) p2" .
  have "keeps (port_at (oa_outConnections p1)) (if port_listed p2 then act_return ()
      else on_container (StreamContainer_addConnectionToAllStreams api cid ref))"
    by (intro keeps_if keeps_return keeps_add_to_streams conn1)
  from keepsD [OF this at2 p3] have "port_at (oa_outConnections p1) p3" .
  then have ok3: "port_ok p3" by (simp add: port_at_def)
  note u = updateSRI_Ok [OF p4 ok3]
  have "settings (map as_streamId (oa_container p3)) (oa_name p3) (oa_filterTable p3) p'"
    by (rule keepsD [OF keeps_settings_updateSRI _ p4]) (simp add: settings_def)
  then have s: "oa_name p' = oa_name p1" "oa_filterTable p' = oa_filterTable p1" "oa_outConnections p' = oa_outConnections p1"
    using g2 g3 u by (simp_all add: settings_def)
  have c: "oa_container p1 = oa_container p" using base(3) by simp
  have "(\<lambda>sid. list_ex (rule_names (oa_name p1) cid sid) (oa_filterTable p1) \<or> \<not> port_listed p1) =
      (\<lambda>sid. cid \<in> fst ` set (stream_targets sid p'))"
    using conn1 by (auto simp: target_connections s port_listed_def)
  then have "list_all2 (gains cid (\<lambda>sid. cid \<in> fst ` set (stream_targets sid p'))) (oa_container p) (oa_container p')"
    using gains_trans [OF conjunct1 [OF g2] conjunct1 [OF g3]] u c by simp
  moreover have "dget (oa_outConnections p') cid = obj" using conn1 base(1) by (simp add: s(3))
  ultimately show ?thesis using base(1,2) u by simp
qed

section \<open>The filter table\<close>

lemma all_connections_loop:
  assumes "act_each (\<lambda>(cid, port). on_container (StreamContainer_addConnectionToAllStreams api cid port)) conns p = (Ok (), p')"
  shows "oa_name p' = oa_name p \<and> oa_filterTable p' = oa_filterTable p \<and> oa_outConnections p' = oa_outConnections p \<and>
     list_all2 (\<lambda>st st'. as_streamId st' = as_streamId st \<and> cids st' = cids st \<union> fst ` set conns)
       (oa_container p) (oa_container p')"
  using assms
proof (induction conns arbitrary: p)
  case (Cons c conns)
  obtain cid port where c: "c = (cid, port)" by (cases c)
  obtain q where q: "on_container (StreamContainer_addConnectionToAllStreams api cid port) p = (Ok (), q)"
      "act_each (\<lambda>(cid, port). on_container (StreamContainer_addConnectionToAllStreams api cid port)) conns q = (Ok (), p')"
    using Cons.prems by (auto simp: act_then_Ok c)
  note g = add_to_all_gains [OF q(1)] and IH = Cons.IH [OF q(2)]
  have "list_all2 (\<lambda>st st'. as_streamId st' = as_streamId st \<and> cids st' = cids st \<union> fst ` set (c # conns))
       (oa_container p) (oa_container p')"
    by (rule list_all2_trans [OF _ conjunct1 [OF g] conjunct2 [OF conjunct2 [OF conjunct2 [OF IH]]]])
      (auto simp: gains_def c)
  then show ?case using g IH by simp
qed (simp add: list_all2_refl)

lemma filter_routes:
  assumes run: "OutAttachablePort_updateConnectionFilter api table p = (Ok (), p')" and ok: "port_ok p"
  shows "oa_outConnections p' = oa_outConnections p \<and> oa_filterTable p' = (case table of None \<Rightarrow> [] | Some rules \<Rightarrow> rules) \<and>
     map as_streamId (oa_container p') = map as_streamId (oa_container p) \<and>
     (\<forall>st \<in> set (oa_container p'). cids st = fst ` set (stream_targets (as_streamId st) p') \<and>
        (\<forall>c \<in> cids st. informed (as_streamId st) c p'))"
proof -
  define rules where "rules = (case table of None \<Rightarrow> [] | Some rules \<Rightarrow> rules)"
  define p1 where "p1 = p\<lparr>oa_filterTable := rules\<rparr>"
  define ids where "ids = map as_streamId (oa_container p)"
  define d where "d = fold (filter_entry p1) rules (fold (\<lambda>sid. dput sid False) ids [], [])"
  let ?conns = "oa_outConnections p"
  have ul: "\<not> oa_locked p" using run by (auto simp: OutAttachablePort_updateConnectionFilter_def with_lock_def)
  obtain p2 p3 where
      p2: "act_each (\<lambda>(sid, expected). on_container (with_stream sid (Stream_updateAttachments api expected))) (snd d) p1 = (Ok (), p2)"
      and p3: "(if port_listed p2 then act_each (\<lambda>(sid, found).
            act_when (\<not> found) (on_container (with_stream sid (Stream_detachAll api)))) (fst d)
          else act_bind (act_get oa_outConnections) (act_each (\<lambda>(cid, port).
            on_container (StreamContainer_addConnectionToAllStreams api cid port)))) p2 = (Ok (), p3)"
      and p4: "OutAttachablePort_updateSRIForAllConnections api p3 = (Ok (), p')"
    unfolding p1_def rules_def d_def ids_def using run ul
    by (auto simp: OutAttachablePort_updateConnectionFilter_def with_lock_def act_then_Ok
        StreamContainer_getStreamIds_def case_prod_beta)
  have c1: "configured ?conns ids (oa_name p) rules p1"
    using ok by (simp add: configured_def settings_def port_at_def port_ok_def p1_def ids_def)
  have d1: "dict_ok (snd d)" unfolding d_def by (rule filter_entries_dict_ok) simp
  have "dict_ok (fold (\<lambda>sid. dput sid False) ids d0)" if "dict_ok d0" for d0 :: "(string, bool) dict"
    using that by (induction ids arbitrary: d0) simp_all
  then have d2: "dict_ok (fst d)" unfolding d_def by (intro filter_entries_dict_ok) simp
  have conn: "dget ?conns cid = Some port" if "(sid, expected) \<in> set (snd d)" "(cid, port) \<in> set expected" for sid expected cid port
    using expected_connected [OF that(1) [unfolded d_def] that(2)] by (simp add: p1_def)
  have e: "configured ?conns ids (oa_name p) rules p2 \<and> (\<forall>x \<in> set (snd d). goes_to (fst x) (fst ` set (snd x)) p2)"
    by (rule expected_loop [OF p2 c1 d1]) (rule conn)
  have c2: "configured ?conns ids (oa_name p) rules p2" using e by blast
  have listed: "port_listed p2 = port_listed p1"
    using c1 c2 by (simp add: port_listed_def configured_def settings_def)
  have exp: "dget (snd d) sid = (if filter (rule_applies p1 sid) rules = [] then None
      else Some (map (\<lambda>e. (fr_connection_id e, the (dget ?conns (fr_connection_id e)))) (filter (rule_applies p1 sid) rules)))" for sid
    by (simp add: d_def filter_entries_expected p1_def)
  have targets: "fst ` set (stream_targets sid p1) = fr_connection_id ` set (filter (rule_applies p1 sid) rules)"
    if "port_listed p1" "sid \<in> set ids" for sid
  proof -
    have "StreamContainer_hasStreamId sid (oa_container p1)"
      using that(2) by (auto simp: StreamContainer_hasStreamId_def list_ex_iff ids_def p1_def)
    then have "cid \<in> fst ` set (stream_targets sid p1) \<longleftrightarrow> cid \<in> fr_connection_id ` set (filter (rule_applies p1 sid) rules)" for cid
      using that(1) unfolding target_connections by (auto simp: rule_names_def rule_applies_def list_ex_iff p1_def)
    then show ?thesis by blast
  qed
  have routed: "configured ?conns ids (oa_name p) rules p3 \<and>
      (\<forall>st \<in> set (oa_container p3). cids st = fst ` set (stream_targets (as_streamId st) p1))"
  proof (cases "port_listed p1")
    case True
    have run3: "act_each (\<lambda>(sid, found). act_when (\<not> found) (on_container (with_stream sid (Stream_detachAll api)))) (fst d) p2 = (Ok (), p3)"
      using p3 True listed by simp
    note u = unmentioned_loop [OF run3 c2 d2]
    have c3: "configured ?conns ids (oa_name p) rules p3" by (rule conjunct1 [OF u])
    have "cids st = fst ` set (stream_targets (as_streamId st) p1)" if "st \<in> set (oa_container p3)" for st
    proof -
      let ?sid = "as_streamId st"
      have sid: "?sid \<in> set ids" using c3 that by (auto simp: configured_def settings_def)
      have found0: "dget (fold (\<lambda>sid. dput sid False) xs d0) ?sid = (if ?sid \<in> set xs then Some False else dget d0 ?sid)" for xs d0
        by (induction xs arbitrary: d0) auto
      have found: "dget (fst d) ?sid = Some (list_ex (rule_applies p1 ?sid) rules)"
        using sid by (simp add: d_def filter_entries_found found0)
      show ?thesis
      proof (cases "filter (rule_applies p1 ?sid) rules = []")
        case True
        then have "\<not> list_ex (rule_applies p1 ?sid) rules" by (auto simp: list_ex_iff filter_empty_conv)
        then have "goes_to ?sid {} p3" using u found by simp
        then show ?thesis using that targets [OF \<open>port_listed p1\<close> sid] True by simp
      next
        case False
        then have "list_ex (rule_applies p1 ?sid) rules" by (auto simp: list_ex_iff filter_empty_conv)
        then have f: "dget (fst d) ?sid = Some True" using found by simp
        let ?exp = "map (\<lambda>e. (fr_connection_id e, the (dget ?conns (fr_connection_id e)))) (filter (rule_applies p1 ?sid) rules)"
        have "dget (snd d) ?sid = Some ?exp" using exp False by simp
        then have "(?sid, ?exp) \<in> set (snd d)" by (rule dget_Some_mem)
        then have "goes_to ?sid (fst ` set ?exp) p2" using e by fastforce
        then have "goes_to ?sid (fst ` set ?exp) p3" using u f by blast
        then have "cids st = fst ` set ?exp" using that by simp
        also have "\<dots> = fst ` set (stream_targets ?sid p1)"
          unfolding targets [OF \<open>port_listed p1\<close> sid] by (auto simp: image_image)
        finally show ?thesis .
      qed
    qed
    then show ?thesis using c3 by blast
  next
    case False
    have "filter (rule_applies p1 sid) rules = []" for sid
      using False by (auto simp: port_listed_def list_ex_iff rule_applies_def filter_empty_conv p1_def)
    then have "dget (snd d) sid = None" for sid using exp by simp
    then have none: "snd d = []" by (cases "snd d") (auto simp: dget_def, metis option.distinct(1))
    then have p2: "p2 = p1" using p2 by simp
    have run3: "act_each (\<lambda>(cid, port). on_container (StreamContainer_addConnectionToAllStreams api cid port)) ?conns p1 = (Ok (), p3)"
      using p3 False listed p2 by (simp add: p1_def)
    note a = all_connections_loop [OF run3]
    have at: "port_at ?conns p1" using c1 by (simp add: configured_def)
    have "keeps (port_at ?conns) (act_each (\<lambda>(cid, port). on_container (StreamContainer_addConnectionToAllStreams api cid port)) ?conns)"
    proof (rule keeps_each)
      fix x assume "x \<in> set ?conns"
      then have "dget ?conns (fst x) = Some (snd x)" using port_okD(2) [OF ok] dget_mem by (metis prod.collapse)
      then show "keeps (port_at ?conns) (case x of (cid, port) \<Rightarrow> on_container (StreamContainer_addConnectionToAllStreams api cid port))"
        unfolding case_prod_beta by (rule keeps_add_to_streams)
    qed
    from keepsD [OF this at run3] have at3: "port_at ?conns p3" .
    have b3: "books ?conns (known (oa_peers p3)) (oa_container p3, oa_peers p3)"
      using at3 port_okD(1) [of p3] by (auto simp: port_at_def)
    have ids3: "map as_streamId (oa_container p3) = ids"
    proof -
      have "list_all2 (\<lambda>a b. as_streamId a = as_streamId b) (oa_container p1) (oa_container p3)"
        by (rule list_all2_mono [OF conjunct2 [OF conjunct2 [OF conjunct2 [OF a]]]]) simp
      then have "map as_streamId (oa_container p1) = map as_streamId (oa_container p3)"
        by (simp add: list_all2_conv_all_nth list_eq_iff_nth_eq)
      then show ?thesis by (simp add: p1_def ids_def)
    qed
    have "cids st = fst ` set ?conns" if st: "st \<in> set (oa_container p3)" for st
    proof
      show "cids st \<subseteq> fst ` set ?conns"
        using booksD(5) [OF b3 that] by (force simp: stream_books_def Stream_getConnectionIds_def dest: dget_Some_mem)
      obtain i where i: "i < length (oa_container p3)" "st = oa_container p3 ! i"
        using st by (auto simp: in_set_conv_nth)
      have "cids st = cids (oa_container p1 ! i) \<union> fst ` set ?conns"
        using list_all2_nthD2 [OF conjunct2 [OF conjunct2 [OF conjunct2 [OF a]]] i(1)] i(2) by simp
      then show "fst ` set ?conns \<subseteq> cids st" by blast
    qed
    moreover have "stream_targets sid p1 = ?conns" for sid using False by (simp add: stream_targets_def p1_def)
    moreover have "configured ?conns ids (oa_name p) rules p3"
      using at3 ids3 a by (simp add: configured_def settings_def p1_def)
    ultimately show ?thesis by simp
  qed
  then have c3: "configured ?conns ids (oa_name p) rules p3" by blast
  have ok3: "port_ok p3" using c3 by (simp add: configured_def port_at_def)
  note u = updateSRI_Ok [OF p4 ok3]
  have "settings ids (oa_name p) rules p'"
    by (rule keepsD [OF keeps_settings_updateSRI _ p4]) (use c3 in \<open>simp add: configured_def\<close>)
  moreover have "oa_outConnections p' = ?conns"
    using u c3 by (simp add: configured_def port_at_def)
  ultimately have s: "stream_targets sid p' = stream_targets sid p1" for sid
    by (simp add: stream_targets_def listed_targets_def port_listed_def settings_def p1_def)
  show ?thesis
    using \<open>settings ids (oa_name p) rules p'\<close> \<open>oa_outConnections p' = ?conns\<close> routed u
    by (simp add: s settings_def rules_def ids_def)
qed

end

end
