(* ===== verification/AttachNetwork.thy ===== *)
theory AttachNetwork
  imports AttachRoutes
begin

text \<open>
  \<open>OutAttachablePort\<close> and \<open>InAttachablePort\<close> together: a network of input ports behind object references,
  some of which may be out of reach, as the receivers of the locale. What the locale proves of the books
  of the output port then speaks of the tables of the input ports.
\<close>

section \<open>The network\<close>

record 'd network =
  nw_ports :: "nat \<Rightarrow> 'd inattach"
  nw_reachable :: "nat \<Rightarrow> bool"

definition nw_update :: "nat \<Rightarrow> 'd inattach \<Rightarrow> 'd network \<Rightarrow> 'd network" where
  "nw_update ref q r = r\<lparr>nw_ports := (nw_ports r)(ref := q)\<rparr>"

definition network_attach :: "nat \<Rightarrow> 'd stream_def \<Rightarrow> string \<Rightarrow> 'd network \<Rightarrow> string option \<times> 'd network" where
  "network_attach ref sd user r =
     (if \<not> nw_reachable r ref then (None, r)
      else case InAttachablePort_attach sd user (nw_ports r ref) of
        (Ok aid, q) \<Rightarrow> (Some aid, nw_update ref q r)
      | (_, q) \<Rightarrow> (None, nw_update ref q r))"

definition network_detach :: "nat \<Rightarrow> string \<Rightarrow> 'd network \<Rightarrow> bool \<times> 'd network" where
  "network_detach ref aid r =
     (if \<not> nw_reachable r ref then (False, r)
      else case InAttachablePort_detach aid (nw_ports r ref) of
        (Ok _, q) \<Rightarrow> (True, nw_update ref q r)
      | (_, q) \<Rightarrow> (False, nw_update ref q r))"

definition network_pushSRI :: "nat \<Rightarrow> sri \<Rightarrow> utctime \<Rightarrow> 'd network \<Rightarrow> bool \<times> 'd network" where
  "network_pushSRI ref H T r =
     (if \<not> nw_reachable r ref then (False, r)
      else (True, nw_update ref (InAttachablePort_pushSRI H T (nw_ports r ref)) r))"

definition network_api :: "('d, 'd network) peer_api" where
  "network_api = \<lparr>peer_attach = network_attach, peer_detach = network_detach, peer_pushSRI = network_pushSRI\<rparr>"

definition network_held :: "'d network \<Rightarrow> nat \<Rightarrow> string \<Rightarrow> ('d stream_def \<times> string) option" where
  "network_held r ref aid = dget (ia_attachedStreams (nw_ports r ref)) aid"

definition network_known :: "'d network \<Rightarrow> nat \<Rightarrow> string \<Rightarrow> (sri \<times> utctime) option" where
  "network_known r ref sid = dget (ia_sriDict (nw_ports r ref)) sid"

text \<open>
  The identifier of the next attachment comes from the callback or from \<open>uuid\<close>. The identifiers still to
  come are new, not empty, and differ from call to call.
\<close>

definition next_id :: "'d inattach \<Rightarrow> nat \<Rightarrow> 'd stream_def \<Rightarrow> string \<Rightarrow> string" where
  "next_id p n sd user = (case ia_attach_cb p of
     None \<Rightarrow> ia_uuid p n
   | Some cb \<Rightarrow> (case cb n sd user of Some (Some a) \<Rightarrow> a | _ \<Rightarrow> ia_uuid p n))"

definition fresh_ids :: "'d inattach \<Rightarrow> bool" where
  "fresh_ids p \<longleftrightarrow> (\<forall>n \<ge> ia_calls p. \<forall>sd user. next_id p n sd user \<noteq> '''' \<and>
     dget (ia_attachedStreams p) (next_id p n sd user) = None \<and>
     (\<forall>m \<ge> ia_calls p. \<forall>sd' user'. m \<noteq> n \<longrightarrow> next_id p m sd' user' \<noteq> next_id p n sd user))"

definition network_orderly :: "'d network \<Rightarrow> bool" where
  "network_orderly r \<longleftrightarrow> (\<forall>ref. fresh_ids (nw_ports r ref))"

definition never_refuses :: "'d inattach \<Rightarrow> bool" where
  "never_refuses p \<longleftrightarrow>
     (\<forall>cb n sd user. ia_attach_cb p = Some cb \<longrightarrow> cb n sd user \<noteq> None) \<and>
     (\<forall>cb n aid. ia_detach_cb p = Some cb \<longrightarrow> cb n aid)"

definition network_reliable :: "'d network \<Rightarrow> bool" where
  "network_reliable r \<longleftrightarrow> network_orderly r \<and> (\<forall>ref. nw_reachable r ref \<and> never_refuses (nw_ports r ref))"

section \<open>The input port\<close>

lemma attach_run_Ok:
  assumes "InAttachablePort_attach sd user p = (Ok aid, q)"
  shows "aid = next_id p (ia_calls p) sd user \<and>
     q = p\<lparr>ia_calls := Suc (ia_calls p), ia_attachedStreams := dput aid (sd, user) (ia_attachedStreams p)\<rparr>"
  using assms
  by (auto simp: InAttachablePort_attach_def call_attach_cb_def act_bind_def act_then_def act_get_def act_update_def
      act_return_def next_id_def Let_def split: option.splits)

lemma attach_run_fails:
  assumes "InAttachablePort_attach sd user p = (res, q)" "\<nexists>aid. res = Ok aid"
  shows "res = Exn AttachError \<and> \<not> never_refuses p \<and> q = p\<lparr>ia_calls := Suc (ia_calls p)\<rparr>"
  using assms
  by (auto simp: InAttachablePort_attach_def call_attach_cb_def act_bind_def act_then_def act_get_def act_update_def
      act_return_def never_refuses_def Let_def split: option.splits)

lemma detach_run:
  assumes "InAttachablePort_detach aid p = (res, q)"
  shows "(res = Ok () \<and> dget (ia_attachedStreams p) aid \<noteq> None \<and>
      (\<exists>n \<ge> ia_calls p. q = p\<lparr>ia_calls := n, ia_attachedStreams := dpop aid (ia_attachedStreams p)\<rparr>)) \<or>
    (res = Exn DetachError \<and> (dget (ia_attachedStreams p) aid = None \<or> \<not> never_refuses p) \<and>
      (\<exists>n \<ge> ia_calls p. q = p\<lparr>ia_calls := n\<rparr>))"
proof (cases "dget (ia_attachedStreams p) aid")
  case None
  then show ?thesis
    using assms by (auto simp: InAttachablePort_detach_def intro: exI [of _ "ia_calls p"])
next
  case (Some e)
  show ?thesis
  proof (cases "ia_detach_cb p")
    case None
    then have "res = Ok ()" "q = p\<lparr>ia_calls := ia_calls p, ia_attachedStreams := dpop aid (ia_attachedStreams p)\<rparr>"
      using assms Some by (auto simp: InAttachablePort_detach_def call_detach_cb_def act_then_def act_bind_def act_get_def act_update_def)
    then show ?thesis using Some by blast
  next
    case cb: (Some cb)
    show ?thesis
    proof (cases "cb (ia_calls p) aid")
      case True
      then have "res = Ok ()" "q = p\<lparr>ia_calls := Suc (ia_calls p), ia_attachedStreams := dpop aid (ia_attachedStreams p)\<rparr>"
        using assms Some cb by (auto simp: InAttachablePort_detach_def call_detach_cb_def act_then_def act_bind_def act_get_def act_update_def)
      then show ?thesis using Some le_SucI [OF order_refl] by blast
    next
      case False
      then have "res = Exn DetachError" "q = p\<lparr>ia_calls := Suc (ia_calls p)\<rparr>" "\<not> never_refuses p"
        using assms Some cb by (auto simp: InAttachablePort_detach_def call_detach_cb_def act_then_def act_bind_def act_get_def
            act_update_def never_refuses_def)
      then show ?thesis using le_SucI [OF order_refl] by blast
    qed
  qed
qed

lemma pushSRI_simps [simp]:
  "ia_attachedStreams (InAttachablePort_pushSRI H T p) = ia_attachedStreams p"
  "ia_sriDict (InAttachablePort_pushSRI H T p) = dput (streamID H) (H, T) (ia_sriDict p)"
  "ia_calls (InAttachablePort_pushSRI H T p) = ia_calls p"
  "ia_attach_cb (InAttachablePort_pushSRI H T p) = ia_attach_cb p"
  "ia_detach_cb (InAttachablePort_pushSRI H T p) = ia_detach_cb p"
  "ia_uuid (InAttachablePort_pushSRI H T p) = ia_uuid p"
  by (auto simp: InAttachablePort_pushSRI_def Let_def ia_add_event_def split: option.split)

text \<open>Fresh identifiers stay fresh when identifiers are used up and attachments removed.\<close>

lemma fresh_ids_later:
  assumes "fresh_ids p" "ia_calls p \<le> ia_calls q" "ia_attach_cb q = ia_attach_cb p" "ia_uuid q = ia_uuid p"
    "\<And>aid. dget (ia_attachedStreams p) aid = None \<Longrightarrow> dget (ia_attachedStreams q) aid = None"
  shows "fresh_ids q"
proof -
  have n: "next_id q n sd user = next_id p n sd user" for n sd user
    by (auto simp: next_id_def assms(3,4) split: option.split)
  show ?thesis
    unfolding fresh_ids_def n
  proof (intro allI impI conjI)
    fix n sd user assume "ia_calls q \<le> n"
    then have le: "ia_calls p \<le> n" using assms(2) by simp
    show "next_id p n sd user \<noteq> ''''" using assms(1) le by (simp add: fresh_ids_def)
    show "dget (ia_attachedStreams q) (next_id p n sd user) = None"
      using assms(1,5) le by (simp add: fresh_ids_def)
    fix m sd' user' assume "ia_calls q \<le> m" "m \<noteq> n"
    then show "next_id p m sd' user' \<noteq> next_id p n sd user"
      using assms(1,2) le unfolding fresh_ids_def by (meson le_trans)
  qed
qed

lemma fresh_ids_attached:
  assumes "fresh_ids p" "aid = next_id p (ia_calls p) sd user"
  shows "fresh_ids (p\<lparr>ia_calls := Suc (ia_calls p), ia_attachedStreams := dput aid (sd, user) (ia_attachedStreams p)\<rparr>)"
proof -
  let ?q = "p\<lparr>ia_calls := Suc (ia_calls p), ia_attachedStreams := dput aid (sd, user) (ia_attachedStreams p)\<rparr>"
  have n: "next_id ?q n sd user = next_id p n sd user" for n sd user
    by (auto simp: next_id_def split: option.split)
  show ?thesis
    unfolding fresh_ids_def n
  proof (intro allI impI conjI)
    fix n sd' user' assume "ia_calls ?q \<le> n"
    then have le: "ia_calls p \<le> n" "n \<noteq> ia_calls p" by simp_all
    show "next_id p n sd' user' \<noteq> ''''" using assms(1) le by (simp add: fresh_ids_def)
    have "next_id p n sd' user' \<noteq> aid"
      using assms le unfolding fresh_ids_def by (metis order_refl)
    moreover have "dget (ia_attachedStreams p) (next_id p n sd' user') = None"
      using assms(1) le by (simp add: fresh_ids_def)
    ultimately show "dget (ia_attachedStreams ?q) (next_id p n sd' user') = None" by simp
    fix m sd'' user'' assume "ia_calls ?q \<le> m" "m \<noteq> n"
    then have "ia_calls p \<le> m" "m \<noteq> n" by simp_all
    then show "next_id p m sd'' user'' \<noteq> next_id p n sd' user'"
      using assms(1) le(1) unfolding fresh_ids_def by blast
  qed
qed

section \<open>The laws of the receivers\<close>

lemma nw_update_simps [simp]:
  "nw_ports (nw_update ref q r) = (nw_ports r)(ref := q)" "nw_reachable (nw_update ref q r) = nw_reachable r"
  by (simp_all add: nw_update_def)

lemma orderly_update: "network_orderly r \<Longrightarrow> fresh_ids q \<Longrightarrow> network_orderly (nw_update ref q r)"
  by (simp add: network_orderly_def)

lemma never_refuses_same:
  "ia_attach_cb q = ia_attach_cb p \<Longrightarrow> ia_detach_cb q = ia_detach_cb p \<Longrightarrow> never_refuses q = never_refuses p"
  by (simp add: never_refuses_def)

text \<open>A port that is replaced by one with the same callbacks and fresh identifiers.\<close>

lemma reliable_update:
  assumes "network_orderly r" "fresh_ids q" "ia_attach_cb q = ia_attach_cb (nw_ports r ref)"
    "ia_detach_cb q = ia_detach_cb (nw_ports r ref)" "network_reliable r"
  shows "network_reliable (nw_update ref q r)"
  using assms orderly_update [OF assms(1,2)] never_refuses_same [OF assms(3,4)]
  by (simp add: network_reliable_def)

lemma network_attach_Some:
  assumes "network_orderly r" "network_attach ref sd user r = (Some aid, r')"
  shows "network_orderly r' \<and> aid \<noteq> '''' \<and> network_held r ref aid = None \<and> network_known r' = network_known r \<and>
      network_held r' = (network_held r)(ref := (network_held r ref)(aid \<mapsto> (sd, user))) \<and>
      (network_reliable r \<longrightarrow> network_reliable r')"
proof -
  let ?p = "nw_ports r ref"
  obtain q where q: "InAttachablePort_attach sd user ?p = (Ok aid, q)" "r' = nw_update ref q r"
    using assms(2) by (auto simp: network_attach_def split: if_splits prod.splits result.splits)
  note a = attach_run_Ok [OF q(1)]
  have f: "fresh_ids ?p" using assms(1) by (simp add: network_orderly_def)
  have q': "fresh_ids q" using a fresh_ids_attached [OF f] by simp
  have "aid \<noteq> '''' \<and> dget (ia_attachedStreams ?p) aid = None" using f a by (simp add: fresh_ids_def)
  moreover have "network_reliable r \<longrightarrow> network_reliable r'"
    unfolding q(2) by (intro impI reliable_update [OF assms(1) q']) (simp_all add: a)
  moreover have "network_known r' = network_known r"
      "network_held r' = (network_held r)(ref := (network_held r ref)(aid \<mapsto> (sd, user)))"
    unfolding q(2) by (auto simp: network_held_def network_known_def fun_eq_iff a)
  ultimately show ?thesis
    using orderly_update [OF assms(1) q'] by (simp add: network_held_def q(2))
qed

lemma network_attach_None:
  assumes "network_orderly r" "network_attach ref sd user r = (None, r')"
  shows "\<not> network_reliable r \<and> network_orderly r' \<and> network_held r' = network_held r \<and> network_known r' = network_known r"
proof (cases "nw_reachable r ref")
  case True
  let ?p = "nw_ports r ref"
  obtain res q where q: "InAttachablePort_attach sd user ?p = (res, q)" "\<nexists>aid. res = Ok aid" "r' = nw_update ref q r"
    using assms(2) True by (cases "InAttachablePort_attach sd user ?p") (auto simp: network_attach_def split: result.splits)
  note a = attach_run_fails [OF q(1,2)]
  have f: "fresh_ids ?p" using assms(1) by (simp add: network_orderly_def)
  have "fresh_ids q" by (rule fresh_ids_later [OF f]) (use a in simp_all)
  then show ?thesis
    using a q(3) orderly_update [OF assms(1)]
    by (auto simp: network_held_def network_known_def network_reliable_def fun_eq_iff)
next
  case False
  then show ?thesis using assms by (auto simp: network_attach_def network_reliable_def)
qed

lemma network_detach_laws:
  assumes "network_orderly r" "network_detach ref aid r = (b, r')"
  shows "network_orderly r' \<and> network_known r' = network_known r \<and>
      (network_reliable r \<and> network_held r ref aid \<noteq> None \<longrightarrow> b) \<and> (network_reliable r \<longrightarrow> network_reliable r') \<and>
      network_held r' = (if b then (network_held r)(ref := (network_held r ref)(aid := None)) else network_held r)"
proof (cases "nw_reachable r ref")
  case True
  let ?p = "nw_ports r ref"
  obtain res q where q: "InAttachablePort_detach aid ?p = (res, q)" by (cases "InAttachablePort_detach aid ?p")
  have f: "fresh_ids ?p" using assms(1) by (simp add: network_orderly_def)
  consider (removed) n where "res = Ok ()" "ia_calls ?p \<le> n"
      "q = ?p\<lparr>ia_calls := n, ia_attachedStreams := dpop aid (ia_attachedStreams ?p)\<rparr>"
    | (refused) n where "res = Exn DetachError" "ia_calls ?p \<le> n" "q = ?p\<lparr>ia_calls := n\<rparr>"
      "dget (ia_attachedStreams ?p) aid = None \<or> \<not> never_refuses ?p"
    using detach_run [OF q] by blast
  then show ?thesis
  proof cases
    case h: (removed n)
    have r': "b" "r' = nw_update ref q r" using assms(2) True q h(1) by (simp_all add: network_detach_def)
    have fr: "fresh_ids q" by (rule fresh_ids_later [OF f]) (use h in simp_all)
    have "network_reliable r \<longrightarrow> network_reliable r'"
      unfolding r'(2) by (intro impI reliable_update [OF assms(1) fr]) (simp_all add: h)
    moreover have "network_known r' = network_known r"
      unfolding r'(2) by (auto simp: network_known_def fun_eq_iff h)
    moreover have "network_held r' = (if b then (network_held r)(ref := (network_held r ref)(aid := None)) else network_held r)"
      using r'(1) unfolding r'(2) by (auto simp: network_held_def fun_eq_iff h(3))
    ultimately show ?thesis
      using r' orderly_update [OF assms(1) fr] h by (auto simp: network_reliable_def network_held_def)
  next
    case h: (refused n)
    have r': "\<not> b" "r' = nw_update ref q r" using assms(2) True q h(1) by (simp_all add: network_detach_def)
    have fr: "fresh_ids q" by (rule fresh_ids_later [OF f]) (use h in simp_all)
    have "network_reliable r \<longrightarrow> network_reliable r'"
      unfolding r'(2) by (intro impI reliable_update [OF assms(1) fr]) (simp_all add: h)
    moreover have "network_known r' = network_known r"
      unfolding r'(2) by (auto simp: network_known_def fun_eq_iff h)
    moreover have "network_held r' = (if b then (network_held r)(ref := (network_held r ref)(aid := None)) else network_held r)"
      using r'(1) unfolding r'(2) by (auto simp: network_held_def fun_eq_iff h(3))
    ultimately show ?thesis
      using r' orderly_update [OF assms(1) fr] h by (auto simp: network_reliable_def network_held_def)
  qed
next
  case False
  then show ?thesis using assms by (auto simp: network_detach_def network_reliable_def)
qed

lemma network_push_laws:
  assumes "network_orderly r" "network_pushSRI ref H T r = (b, r')"
  shows "network_orderly r' \<and> network_held r' = network_held r \<and> (network_reliable r \<longrightarrow> network_reliable r') \<and>
      network_known r' = (if b then (network_known r)(ref := (network_known r ref)(streamID H \<mapsto> (H, T))) else network_known r)"
proof (cases "nw_reachable r ref")
  case True
  then have r': "b" "r' = nw_update ref (InAttachablePort_pushSRI H T (nw_ports r ref)) r"
    using assms(2) by (simp_all add: network_pushSRI_def)
  have f: "fresh_ids (nw_ports r ref)" using assms(1) by (simp add: network_orderly_def)
  have fr: "fresh_ids (InAttachablePort_pushSRI H T (nw_ports r ref))"
    by (rule fresh_ids_later [OF f]) simp_all
  have "network_reliable r \<longrightarrow> network_reliable r'"
    unfolding r'(2) by (intro impI reliable_update [OF assms(1) fr]) simp_all
  then show ?thesis
    using r' orderly_update [OF assms(1) fr]
    by (auto simp: network_held_def network_known_def fun_eq_iff)
next
  case False
  then show ?thesis using assms by (auto simp: network_pushSRI_def)
qed

lemma network_api_simps [simp]:
  "peer_attach network_api = network_attach" "peer_detach network_api = network_detach"
  "peer_pushSRI network_api = network_pushSRI"
  by (simp_all add: network_api_def)

lemma network_reliable_orderly: "network_reliable r \<Longrightarrow> network_orderly r"
  by (simp add: network_reliable_def)

interpretation net: attach_peers "network_api :: ('d, 'd network) peer_api" network_held network_known network_orderly False
proof (unfold_locales, unfold network_api_simps, goal_cases)
  case 1 from network_attach_Some [OF 1] show ?case by simp
next
  case 2 from network_attach_None [OF 2] show ?case by simp
next
  case 3 from network_detach_laws [OF 3] show ?case by simp
next
  case 4 from network_push_laws [OF 4] show ?case by simp
qed

interpretation sure: attach_peers "network_api :: ('d, 'd network) peer_api" network_held network_known network_reliable True
proof (unfold_locales, unfold network_api_simps, goal_cases)
  case 1 from network_attach_Some [OF network_reliable_orderly [OF 1(1)] 1(2)] 1(1) show ?case by simp
next
  case 2 from network_attach_None [OF network_reliable_orderly [OF 2(1)] 2(2)] 2(1) show ?case by simp
next
  case 3 from network_detach_laws [OF network_reliable_orderly [OF 3(1)] 3(2)] 3(1) show ?case by simp
next
  case 4 from network_push_laws [OF network_reliable_orderly [OF 4(1)] 4(2)] 4(1) show ?case by simp
qed

end
