(* ===== verification/AttachDelivery.thy ===== *)
theory AttachDelivery
  imports AttachNetwork
begin

text \<open>
  What an \<open>OutAttachablePort\<close> and the \<open>InAttachablePort\<close>s it is connected to do together, in every run of
  requests, and where the code falls short.
\<close>

section \<open>Attaching and detaching at an input port\<close>

lemma dpop_dput_new: "dget d k = None \<Longrightarrow> dpop k (dput k v d) = d"
  by (induction d) (auto simp: dpop_def delete_conv split: if_splits)

lemma fresh_call_attaches:
  assumes "InAttachablePort_attach sd user p = (Ok aid, q)" "fresh_ids p"
  shows "dget (ia_attachedStreams p) aid = None"
  using attach_run_Ok [OF assms(1)] assms(2) by (simp add: fresh_ids_def)

lemma detach_new:
  assumes "InAttachablePort_attach sd user p = (Ok aid, q)" "fresh_ids p" "never_refuses p"
  shows "\<exists>q'. InAttachablePort_detach aid q = (Ok (), q') \<and> ia_attachedStreams q' = ia_attachedStreams p"
proof -
  note a = attach_run_Ok [OF assms(1)]
  obtain res q' where d: "InAttachablePort_detach aid q = (res, q')" by (cases "InAttachablePort_detach aid q")
  have "never_refuses q \<longleftrightarrow> never_refuses p" by (rule never_refuses_same) (simp_all add: a)
  then have "never_refuses q" using assms(3) by simp
  moreover have "dget (ia_attachedStreams q) aid \<noteq> None" using a by simp
  ultimately show ?thesis
    using detach_run [OF d] d a dpop_dput_new [OF fresh_call_attaches [OF assms(1,2)]] by auto
qed

text \<open>
  Attaching to an input port and detaching again is the identity on its table. When \<open>attach\<close> returns an
  identifier, \<open>getStreamDefinition\<close> and \<open>getUser\<close> answer with what was attached, the answers for all other
  identifiers are as before, the port is no longer idle, and \<open>detach\<close> of the identifier returns and gives the
  old table back. An identifier that is not attached makes \<open>detach\<close> raise a \<open>DetachError\<close>, and the queries
  a \<open>StreamInputError\<close>, without any change.
\<close>

theorem attach_detach_roundtrip:
  "fresh_ids p \<and> never_refuses p \<and> InAttachablePort_attach sd user p = (Ok aid, q) \<longrightarrow>
     InAttachablePort_getStreamDefinition aid q = Returned sd \<and> InAttachablePort_getUser aid q = Returned user \<and>
     (\<forall>a. a \<noteq> aid \<longrightarrow> InAttachablePort_getStreamDefinition a q = InAttachablePort_getStreamDefinition a p \<and>
        InAttachablePort_getUser a q = InAttachablePort_getUser a p) \<and>
     InAttachablePort_get_state q \<noteq> IDLE \<and>
     InAttachablePort_detach aid p = (Exn DetachError, p) \<and>
     InAttachablePort_getStreamDefinition aid p = Raised StreamInputError \<and>
     (\<exists>q'. InAttachablePort_detach aid q = (Ok (), q') \<and> ia_attachedStreams q' = ia_attachedStreams p)"
proof (intro impI, elim conjE)
  assume p: "fresh_ids p" "never_refuses p" "InAttachablePort_attach sd user p = (Ok aid, q)"
  note a = attach_run_Ok [OF p(3)]
  have new: "dget (ia_attachedStreams p) aid = None" by (rule fresh_call_attaches [OF p(3,1)])
  then have "length (dput aid (sd, user) (ia_attachedStreams p)) \<noteq> 0"
    by (cases "ia_attachedStreams p") (auto split: if_splits)
  then have "InAttachablePort_get_state q \<noteq> IDLE"
    using a by (auto simp: InAttachablePort_get_state_def)
  moreover have "InAttachablePort_detach aid p = (Exn DetachError, p)"
    using new by (simp add: InAttachablePort_detach_def)
  ultimately show "InAttachablePort_getStreamDefinition aid q = Returned sd \<and> InAttachablePort_getUser aid q = Returned user \<and>
     (\<forall>a. a \<noteq> aid \<longrightarrow> InAttachablePort_getStreamDefinition a q = InAttachablePort_getStreamDefinition a p \<and>
        InAttachablePort_getUser a q = InAttachablePort_getUser a p) \<and>
     InAttachablePort_get_state q \<noteq> IDLE \<and>
     InAttachablePort_detach aid p = (Exn DetachError, p) \<and>
     InAttachablePort_getStreamDefinition aid p = Raised StreamInputError \<and>
     (\<exists>q'. InAttachablePort_detach aid q = (Ok (), q') \<and> ia_attachedStreams q' = ia_attachedStreams p)"
    using a new detach_new [OF p(3,1,2)]
    by (simp add: InAttachablePort_getStreamDefinition_def InAttachablePort_getUser_def)
qed

text \<open>An input port without callbacks, and a network of such ports: data for the witnesses.\<close>

definition plain_uuid :: "nat \<Rightarrow> string" where
  "plain_uuid n = CHR ''u'' # replicate n CHR ''u''"

definition plain_port :: "'d inattach" where
  "plain_port = InAttachablePort_init ''sdds'' None None None None False False plain_uuid"

definition plain_network :: "'d network" where
  "plain_network = \<lparr>nw_ports = \<lambda>ref. plain_port, nw_reachable = \<lambda>ref. True\<rparr>"

lemma plain_uuid_eq [simp]: "plain_uuid m = plain_uuid n \<longleftrightarrow> m = n"
  by (auto simp: plain_uuid_def replicate_eq_replicate)

lemma plain_port_fresh: "fresh_ids plain_port" "never_refuses plain_port" "ia_attachedStreams plain_port = []"
  by (simp_all add: plain_port_def InAttachablePort_init_def fresh_ids_def next_id_def never_refuses_def plain_uuid_def
      replicate_eq_replicate)

lemma plain_network_ok:
  "network_reliable plain_network" "network_orderly plain_network" "ia_attachedStreams (nw_ports plain_network ref) = []"
  by (simp_all add: plain_network_def network_reliable_def network_orderly_def plain_port_fresh)

theorem attach_detach_roundtrip_witness:
  "\<exists>q q'. InAttachablePort_attach \<lparr>sd_id = ''s'', sd_details = ()\<rparr> ''me'' plain_port = (Ok ''u'', q) \<and>
     InAttachablePort_getUser ''u'' q = Returned ''me'' \<and> InAttachablePort_detach ''u'' q = (Ok (), q') \<and>
     ia_attachedStreams q' = []"
proof -
  obtain q where q: "InAttachablePort_attach \<lparr>sd_id = ''s'', sd_details = ()\<rparr> ''me'' plain_port = (Ok ''u'', q)"
    by (simp add: InAttachablePort_attach_def plain_port_def InAttachablePort_init_def call_attach_cb_def act_bind_def
        act_get_def act_then_def act_update_def act_return_def plain_uuid_def Let_def)
  show ?thesis
    using attach_detach_roundtrip [of plain_port "\<lparr>sd_id = ''s'', sd_details = ()\<rparr>" "''me''" "''u''" q] q
      plain_port_fresh by auto
qed

section \<open>The time of an SRI at an input port\<close>

text \<open>
  With the default comparisons, an input port takes an unchanged time for a change and a changed time
  for none: for a stream on file, \<open>sriChanged\<close> is set, and the listener called, when the SRIs differ or the
  times are the same; an SRI that comes again with another time goes unnoticed. The table gets the new entry
  either way, and the attachments are not touched.
\<close>

theorem sri_time_change_is_inverted:
  assumes "dget (ia_sriDict p) (streamID H) = Some (cur_H, cur_T)"
    and "ia_sri_cmp p = Some default_sri_cmp" "ia_time_cmp p = Some default_time_cmp"
  shows "let q = InAttachablePort_pushSRI H T p;
             changed = (\<not> sri_compare (Some cur_H) (Some H) \<or> (twsec cur_T = twsec T \<and> tfsec cur_T = tfsec T))
         in ia_sriChanged q = changed \<and>
            ia_events q = ia_events p @ (if changed \<and> ia_sriChangeCallback p then [SriChange H] else []) \<and>
            dget (ia_sriDict q) (streamID H) = Some (H, T) \<and> ia_attachedStreams q = ia_attachedStreams p"
proof -
  have "default_time_cmp cur_T T = 0 \<longleftrightarrow> twsec cur_T = twsec T \<and> tfsec cur_T = tfsec T"
    by (auto simp: default_time_cmp_def py_cmp_def)
  then show ?thesis
    using assms by (simp add: InAttachablePort_pushSRI_def Let_def ia_add_event_def default_sri_cmp_def)
qed

definition told_port :: "unit inattach" where
  "told_port = InAttachablePort_pushSRI (sri_default ''s'') (timestamp_create 0 1 0 1)
     (InAttachablePort_init ''vita'' None None (Some default_sri_cmp) (Some default_time_cmp) True True plain_uuid)"

theorem sri_time_change_is_inverted_witness:
  "ia_events (InAttachablePort_pushSRI (sri_default ''s'') (timestamp_create 0 5 0 1) told_port) = ia_events told_port \<and>
   ia_events (InAttachablePort_pushSRI (sri_default ''s'') (timestamp_create 0 1 0 1) told_port) =
     ia_events told_port @ [SriChange (sri_default ''s'')]"
proof -
  have p: "dget (ia_sriDict told_port) (streamID (sri_default ''s'')) = Some (sri_default ''s'', timestamp_create 0 1 0 1)"
    "ia_sri_cmp told_port = Some default_sri_cmp" "ia_time_cmp told_port = Some default_time_cmp"
    "ia_sriChangeCallback told_port"
    by (simp_all add: told_port_def InAttachablePort_pushSRI_def InAttachablePort_init_def Let_def ia_add_event_def)
  have same: "sri_compare (Some (sri_default ''s'')) (Some (sri_default ''s''))" by code_simp
  show ?thesis
    using sri_time_change_is_inverted [OF p(1-3), of "timestamp_create 0 5 0 1"]
      sri_time_change_is_inverted [OF p(1-3), of "timestamp_create 0 1 0 1"] p(4) same
    by (simp add: Let_def timestamp_create_def)
qed

section \<open>Books and tables\<close>

lemma reachable_ok:
  assumes "network_orderly r" "\<And>ref. ia_attachedStreams (nw_ports r ref) = []"
  shows "net.port_ok (attach_run network_api reqs (OutAttachablePort_init name r))"
  using assms by (intro net.run_keeps net.port_ok_init) (simp_all add: network_held_def)

lemma reachable_sure:
  assumes "network_reliable r" "\<And>ref. ia_attachedStreams (nw_ports r ref) = []"
  shows "sure.port_ok (attach_run network_api reqs (OutAttachablePort_init name r))"
  using assms by (intro sure.run_keeps sure.port_ok_init) (simp_all add: network_held_def)

lemma slots_eq: "net.slots sts = map (\<lambda>att. (at_inputPort att, at_attachId att)) (concat (map as_attachments sts))"
  unfolding net.slots_def net.slot_def by (induction sts) simp_all

lemma sure_slots_eq: "sure.slots sts = map (\<lambda>att. (at_inputPort att, at_attachId att)) (concat (map as_attachments sts))"
  unfolding sure.slots_def sure.slot_def by (induction sts) simp_all

text \<open>
  C5: Whatever is requested of an output port, in whatever order, and whatever its receivers refuse, the
  attachments on its books are real: the receiver behind the connection knows the attachment ID and answers
  with the definition and the user of the stream, the connection is still there, no two entries share an
  attachment, and no two streams an ID. Receivers need not be reachable; their identifiers must be fresh.
\<close>

theorem attachments_are_held:
  assumes "network_orderly r" "\<And>ref. ia_attachedStreams (nw_ports r ref) = []"
    and "p = attach_run network_api reqs (OutAttachablePort_init name r)"
  shows "(\<forall>st \<in> set (oa_container p). \<forall>att \<in> set (as_attachments st).
       InAttachablePort_getStreamDefinition (at_attachId att) (nw_ports (oa_peers p) (at_inputPort att)) = Returned (as_streamDef st) \<and>
       InAttachablePort_getUser (at_attachId att) (nw_ports (oa_peers p) (at_inputPort att)) = Returned (as_name st) \<and>
       dget (oa_outConnections p) (at_connectionId att) = Some (at_inputPort att)) \<and>
     distinct (map (\<lambda>att. (at_inputPort att, at_attachId att)) (concat (map as_attachments (oa_container p)))) \<and>
     distinct (map as_streamId (oa_container p))"
proof -
  have "net.port_ok p" unfolding assms(3) by (rule reachable_ok [OF assms(1,2)])
  note b = net.port_okD(1) [OF this]
  show ?thesis
    using net.booksD(3-5) [OF b] unfolding slots_eq
    by (auto simp: net.stream_books_def network_held_def InAttachablePort_getStreamDefinition_def InAttachablePort_getUser_def)
qed

text \<open>A run for the witnesses: two connections, one stream with its SRI, routed to the second of them.\<close>

definition example_stream :: "unit stream_def" where
  "example_stream = \<lparr>sd_id = ''s'', sd_details = ()\<rparr>"

definition example_run :: "(unit, unit network) outattach" where
  "example_run = attach_run network_api
     [ConnectPort (Some 0) (Some True) ''a'', AddStream example_stream, ConnectPort (Some 1) (Some True) ''b'',
      PushSRI (sri_default ''s'') timestamp_notSet] (OutAttachablePort_init ''out'' plain_network)"

lemma example_attachments:
  "map as_attachments (oa_container example_run) =
     [[\<lparr>at_connectionId = ''a'', at_attachId = ''u'', at_inputPort = 0\<rparr>,
       \<lparr>at_connectionId = ''b'', at_attachId = ''u'', at_inputPort = 1\<rparr>]]"
  by code_simp

theorem attachments_are_held_witness:
  "(\<exists>st \<in> set (oa_container example_run). length (as_attachments st) = 2 \<and>
      InAttachablePort_getStreamDefinition ''u'' (nw_ports (oa_peers example_run) 1) = Returned (as_streamDef st))"
proof -
  obtain st where st: "oa_container example_run = [st]" "as_attachments st =
      [\<lparr>at_connectionId = ''a'', at_attachId = ''u'', at_inputPort = 0\<rparr>,
       \<lparr>at_connectionId = ''b'', at_attachId = ''u'', at_inputPort = 1\<rparr>]"
    using example_attachments by (auto simp: map_eq_Cons_conv)
  show ?thesis
    using attachments_are_held [OF plain_network_ok(2,3) example_run_def] st by simp
qed

text \<open>
  C34: When every receiver is reachable and its callbacks accept, the books are also complete: a receiver
  holds an attachment exactly when the output port has it on its books, so that nothing is ever leaked,
  neither by disconnecting, removing or replacing streams nor by changing the filter table.
\<close>

theorem reliable_books_are_complete:
  assumes "network_reliable r" "\<And>ref. ia_attachedStreams (nw_ports r ref) = []"
    and "p = attach_run network_api reqs (OutAttachablePort_init name r)"
  shows "dget (ia_attachedStreams (nw_ports (oa_peers p) ref)) aid \<noteq> None \<longleftrightarrow>
     (\<exists>st \<in> set (oa_container p). \<exists>att \<in> set (as_attachments st). at_inputPort att = ref \<and> at_attachId att = aid)"
proof -
  have ok: "sure.port_ok p" unfolding assms(3) by (rule reachable_sure [OF assms(1,2)])
  note b = sure.port_okD(1) [OF ok]
  show ?thesis
  proof
    assume "dget (ia_attachedStreams (nw_ports (oa_peers p) ref)) aid \<noteq> None"
    then have "(ref, aid) \<in> set (sure.slots (oa_container p))"
      by (intro sure.books_exact [OF b]) (simp_all add: network_held_def)
    then show "\<exists>st \<in> set (oa_container p). \<exists>att \<in> set (as_attachments st). at_inputPort att = ref \<and> at_attachId att = aid"
      unfolding sure_slots_eq by auto
  next
    assume "\<exists>st \<in> set (oa_container p). \<exists>att \<in> set (as_attachments st). at_inputPort att = ref \<and> at_attachId att = aid"
    then show "dget (ia_attachedStreams (nw_ports (oa_peers p) ref)) aid \<noteq> None"
      using sure.booksD(5) [OF b] by (fastforce simp: sure.stream_books_def network_held_def)
  qed
qed

theorem reliable_books_are_complete_witness:
  "dget (ia_attachedStreams (nw_ports (oa_peers example_run) 1)) ''u'' \<noteq> None \<and>
   dget (ia_attachedStreams (nw_ports (oa_peers example_run) 2)) ''u'' = None"
proof -
  obtain st where st: "oa_container example_run = [st]" "as_attachments st =
      [\<lparr>at_connectionId = ''a'', at_attachId = ''u'', at_inputPort = 0\<rparr>,
       \<lparr>at_connectionId = ''b'', at_attachId = ''u'', at_inputPort = 1\<rparr>]"
    using example_attachments by (auto simp: map_eq_Cons_conv)
  show ?thesis
    using reliable_books_are_complete [OF plain_network_ok(1,3) example_run_def, of 1 "''u''"]
      reliable_books_are_complete [OF plain_network_ok(1,3) example_run_def, of 2 "''u''"] st
    by (auto simp del: not_None_eq)
qed

section \<open>Routing\<close>

text \<open>The rule of \<open>OutPort._isStreamRoutedToConnection\<close>, for the settings of this port.\<close>

definition is_routed :: "('d, 'r) outattach \<Rightarrow> string \<Rightarrow> string \<Rightarrow> bool" where
  "is_routed p sid cid \<longleftrightarrow> (let mine = filter (\<lambda>rule. fr_port_name rule = oa_name p) (oa_filterTable p)
     in list_ex (\<lambda>rule. fr_stream_id rule = sid \<and> fr_connection_id rule = cid) mine \<or> mine = [])"

lemma routed_targets:
  "cid \<in> fst ` set (stream_targets sid p) \<longleftrightarrow> dget (oa_outConnections p) cid \<noteq> None \<and> is_routed p sid cid"
proof -
  have "filter (\<lambda>rule. fr_port_name rule = oa_name p) (oa_filterTable p) = [] \<longleftrightarrow> \<not> port_listed p"
    by (auto simp: port_listed_def list_ex_iff filter_empty_conv)
  then show ?thesis
    unfolding target_connections is_routed_def Let_def
    by (auto simp: rule_names_def list_ex_iff port_listed_def)
qed

lemma informed_known:
  assumes "net.port_ok p" "net.informed (as_streamId st) (at_connectionId att) p"
    "st \<in> set (oa_container p)" "att \<in> set (as_attachments st)"
    "dget (oa_sriDict p) (as_streamId st) = Some (H, T, cs)"
  shows "dget (ia_sriDict (nw_ports (oa_peers p) (at_inputPort att))) (as_streamId st) = Some (H, T)"
proof -
  have "at_connectionId att \<in> set cs" using assms(2,5) unfolding net.informed_def by blast
  then obtain ref where "dget (oa_outConnections p) (at_connectionId att) = Some ref"
      "network_known (oa_peers p) ref (as_streamId st) = Some (H, T)"
    using net.port_okD(3) [OF assms(1)] assms(5) unfolding net.sris_ok_def by blast
  moreover have "dget (oa_outConnections p) (at_connectionId att) = Some (at_inputPort att)"
    using net.booksD(5) [OF net.port_okD(1) [OF assms(1)] assms(3)] assms(4) by (simp add: net.stream_books_def)
  ultimately show ?thesis by (simp add: network_known_def)
qed

text \<open>
  C6: When \<open>updateConnectionFilter\<close> returns, the attachments are those the new table asks for, whatever they
  were before: each stream is attached over exactly the connections that the routing rule of the ordinary
  output ports gives for it, and every attached receiver has the SRI and time on file for its stream.
\<close>

theorem filter_table_routes_streams:
  assumes "network_orderly r" "\<And>ref. ia_attachedStreams (nw_ports r ref) = []"
    and "p = attach_run network_api reqs (OutAttachablePort_init name r)"
    and "OutAttachablePort_updateConnectionFilter network_api table p = (Ok (), p')"
  shows "map as_streamId (oa_container p') = map as_streamId (oa_container p) \<and>
     (\<forall>st \<in> set (oa_container p').
        (\<forall>cid. cid \<in> set (Stream_getConnectionIds st) \<longleftrightarrow>
           dget (oa_outConnections p') cid \<noteq> None \<and> is_routed p' (as_streamId st) cid) \<and>
        (\<forall>att \<in> set (as_attachments st). \<forall>H T cs. dget (oa_sriDict p') (as_streamId st) = Some (H, T, cs) \<longrightarrow>
           dget (ia_sriDict (nw_ports (oa_peers p') (at_inputPort att))) (as_streamId st) = Some (H, T)))"
proof -
  have ok: "net.port_ok p" unfolding assms(3) by (rule reachable_ok [OF assms(1,2)])
  have ok': "net.port_ok p'" using keepsD [OF net.keeps_updateConnectionFilter ok assms(4)] .
  note f = net.filter_routes [OF assms(4) ok]
  show ?thesis
  proof (intro conjI ballI allI impI)
    show "map as_streamId (oa_container p') = map as_streamId (oa_container p)" using f by blast
    fix st assume st: "st \<in> set (oa_container p')"
    show "cid \<in> set (Stream_getConnectionIds st) \<longleftrightarrow>
           dget (oa_outConnections p') cid \<noteq> None \<and> is_routed p' (as_streamId st) cid" for cid
      using f st routed_targets [of cid "as_streamId st" p'] by simp
    fix att H T cs
    assume att: "att \<in> set (as_attachments st)" "dget (oa_sriDict p') (as_streamId st) = Some (H, T, cs)"
    have "at_connectionId att \<in> cids st" using att(1) by (simp add: Stream_getConnectionIds_def)
    then have "net.informed (as_streamId st) (at_connectionId att) p'" using f st by blast
    then show "dget (ia_sriDict (nw_ports (oa_peers p') (at_inputPort att))) (as_streamId st) = Some (H, T)"
      using informed_known [OF ok' _ st att] by blast
  qed
qed

definition example_table :: "filter_rule list option" where
  "example_table = Some [\<lparr>fr_port_name = ''out'', fr_stream_id = ''s'', fr_connection_id = ''b''\<rparr>]"

lemma example_filter_returns:
  "fst (OutAttachablePort_updateConnectionFilter network_api example_table example_run) = Ok ()"
  by code_simp

lemma example_not_routed:
  "\<not> is_routed (snd (OutAttachablePort_updateConnectionFilter network_api example_table example_run)) ''s'' ''a''"
  "map as_streamId (oa_container (snd (OutAttachablePort_updateConnectionFilter network_api example_table example_run))) = [''s'']"
  by code_simp+

theorem filter_table_routes_streams_witness:
  "\<exists>st \<in> set (oa_container (snd (OutAttachablePort_updateConnectionFilter network_api example_table example_run))).
     ''a'' \<notin> set (Stream_getConnectionIds st)"
proof -
  obtain p' where p': "OutAttachablePort_updateConnectionFilter network_api example_table example_run = (Ok (), p')"
    using example_filter_returns by (metis prod.collapse)
  then obtain st where "oa_container p' = [st]" "as_streamId st = ''s''" "\<not> is_routed p' ''s'' ''a''"
    using example_not_routed by (auto simp: map_eq_Cons_conv)
  then show ?thesis
    using filter_table_routes_streams [OF plain_network_ok(2,3) example_run_def p'] p' by auto
qed

section \<open>Adding a stream\<close>

text \<open>
  An added stream is attached to every routed connection, but its SRI is not sent. When \<open>addStream\<close>
  returns \<open>True\<close>, the new stream is the last of the container and its attachments go to its targets, one for
  each; no receiver hears of any SRI, even of one that the port has on file for the stream. Such a receiver is
  left without SRI until the next \<open>pushSRI\<close>, connection or filter update.
\<close>

theorem added_stream_gets_no_sri:
  assumes "network_orderly r" "\<And>ref. ia_attachedStreams (nw_ports r ref) = []"
    and "p = attach_run network_api reqs (OutAttachablePort_init name r)"
    and "OutAttachablePort_addStream network_api sd p = (Ok True, p')"
  shows "(\<exists>st. oa_container p' = oa_container p @ [st] \<and> as_streamDef st = sd \<and>
       Stream_getConnectionIds st = map fst (stream_targets (sd_id sd) p) \<and>
       (\<forall>cid. cid \<in> set (Stream_getConnectionIds st) \<longleftrightarrow> dget (oa_outConnections p) cid \<noteq> None \<and> is_routed p (sd_id sd) cid)) \<and>
     (\<forall>ref sid. dget (ia_sriDict (nw_ports (oa_peers p') ref)) sid = dget (ia_sriDict (nw_ports (oa_peers p) ref)) sid)"
proof -
  have ok: "net.port_ok p" unfolding assms(3) by (rule reachable_ok [OF assms(1,2)])
  have new: "\<not> oa_locked p" "\<not> StreamContainer_hasStreamId (sd_id sd) (oa_container p)"
    using assms(4) by (auto simp: OutAttachablePort_addStream_def with_lock_def split: if_splits)
  note a = net.addStream_run [OF ok new assms(4)]
  have "network_known (oa_peers p') = network_known (oa_peers p)" using a by blast
  then have "dget (ia_sriDict (nw_ports (oa_peers p') ref)) sid = dget (ia_sriDict (nw_ports (oa_peers p) ref)) sid" for ref sid
    unfolding network_known_def by metis
  moreover obtain st where st: "oa_container p' = oa_container p @ [st]" "as_streamDef st = sd"
      "Stream_getConnectionIds st = map fst (stream_targets (sd_id sd) p)"
    using a by auto
  moreover have "cid \<in> set (Stream_getConnectionIds st) \<longleftrightarrow> dget (oa_outConnections p) cid \<noteq> None \<and> is_routed p (sd_id sd) cid" for cid
    unfolding st(3) set_map by (rule routed_targets)
  ultimately show ?thesis by blast
qed

definition late_stream :: "(unit, unit network) outattach" where
  "late_stream = attach_run network_api
     [PushSRI (sri_default ''s'') timestamp_notSet, ConnectPort (Some 0) (Some True) ''a'']
     (OutAttachablePort_init ''out'' plain_network)"

lemma late_stream_added:
  "fst (OutAttachablePort_addStream network_api example_stream late_stream) = Ok True"
  "dget (ia_sriDict (nw_ports (oa_peers late_stream) 0)) ''s'' = None"
  "dget (oa_sriDict late_stream) ''s'' \<noteq> None"
  by code_simp+

theorem added_stream_gets_no_sri_witness:
  "dget (oa_sriDict late_stream) ''s'' \<noteq> None \<and>
   dget (ia_sriDict (nw_ports (oa_peers (snd (OutAttachablePort_addStream network_api example_stream late_stream))) 0)) ''s'' = None"
proof -
  obtain p' where p': "OutAttachablePort_addStream network_api example_stream late_stream = (Ok True, p')"
    using late_stream_added(1) by (metis prod.collapse)
  show ?thesis
    using added_stream_gets_no_sri [OF plain_network_ok(2,3) late_stream_def p'] late_stream_added(2,3) p' by simp
qed

section \<open>Operations that fail\<close>

text \<open>The connections and the lock stay as they are while streams are attached and SRIs are pushed.\<close>

definition connections_are :: "(string, nat) dict \<Rightarrow> ('d, 'r) outattach \<Rightarrow> bool" where
  "connections_are conns p \<longleftrightarrow> oa_outConnections p = conns \<and> \<not> oa_locked p"

lemma keeps_connections_container: "keeps (connections_are conns) (on_container m)"
  by (auto simp: keeps_def on_container_def connections_are_def split: prod.split)

lemma keeps_connections_push: "keeps (connections_are conns) (push_known_sri api sid cid)"
  by (auto simp: keeps_def push_known_sri_def push_to_peer_def connections_are_def
      split: option.split prod.split bool.split)

lemma keeps_connections_rest:
  "keeps (connections_are conns) (with_lock (act_catch
     (act_bind (act_bind (act_get oa_outConnections) (\<lambda>conns. act_lookup conns cid)) (\<lambda>port.
      act_then (act_bind (act_get oa_filterTable) (act_each (connect_by_rule api cid port)))
      (act_then (act_bind (act_get port_listed) (\<lambda>portListed.
          if portListed then act_return ()
          else on_container (StreamContainer_addConnectionToAllStreams api cid port)))
        (OutAttachablePort_updateSRIForAllConnections api))))
     (\<lambda>e. act_raise InvalidPort)))"
  unfolding connect_by_rule_def OutAttachablePort_updateSRIForAllConnections_def
  by (intro keeps_with_lock keeps_catch keeps_bind keeps_then keeps_each keeps_return keeps_if keeps_lookup
      keeps_connections_container keeps_connections_push)

text \<open>
  A connection that fails stays. When \<open>connectPort\<close> gets a reachable object of the right type and a
  connection ID that is free, but attaching a stream or pushing an SRI to it fails, the caller gets an
  \<open>InvalidPort\<close>; yet the connection is on file, and connecting it again raises \<open>OccupiedPort\<close>.
\<close>

theorem failed_connection_stays:
  assumes "dget (oa_outConnections p) cid = None" "\<not> oa_locked p"
    and "OutAttachablePort_connectPort api (Some ref) (Some True) cid p = (Exn e, p')"
  shows "e = InvalidPort \<and> dget (oa_outConnections p') cid = Some ref \<and>
     OutAttachablePort_connectPort api (Some ref') (Some True) cid p' = (Exn OccupiedPort, p')"
proof -
  let ?p = "p\<lparr>oa_outConnections := dput cid ref (oa_outConnections p), oa_stats := OutStats_add cid (oa_stats p)\<rparr>"
  let ?rest = "act_bind (act_bind (act_get oa_outConnections) (\<lambda>conns. act_lookup conns cid)) (\<lambda>port.
      act_then (act_bind (act_get oa_filterTable) (act_each (connect_by_rule api cid port)))
      (act_then (act_bind (act_get port_listed) (\<lambda>portListed.
          if portListed then act_return ()
          else on_container (StreamContainer_addConnectionToAllStreams api cid port)))
        (OutAttachablePort_updateSRIForAllConnections api)))"
  have base: "OutAttachablePort_connect_base (Some ref) (Some True) cid p = (Ok (), ?p)"
    using assms(1,2) by (simp add: OutAttachablePort_connect_base_def with_lock_def)
  have rest: "with_lock (act_catch ?rest (\<lambda>e. act_raise InvalidPort)) ?p = (Exn e, p')"
    using assms(3)
    unfolding OutAttachablePort_connectPort_def
      act_then_run(1) [where m = "OutAttachablePort_connect_base (Some ref) (Some True) cid", OF base] .
  then have e: "e = InvalidPort"
    using assms(2) by (auto simp: with_lock_def act_catch_def act_raise_def split: prod.splits result.splits)
  have "connections_are (dput cid ref (oa_outConnections p)) ?p" using assms(2) by (simp add: connections_are_def)
  note mp [OF spec [OF keeps_connections_rest [unfolded keeps_def]] this, of cid api, unfolded rest snd_conv]
  then have c: "oa_outConnections p' = dput cid ref (oa_outConnections p)" "\<not> oa_locked p'"
    by (simp_all add: connections_are_def)
  then have "OutAttachablePort_connect_base (Some ref') (Some True) cid p' = (Exn OccupiedPort, p')"
    by (simp add: OutAttachablePort_connect_base_def with_lock_def)
  from act_then_run(2) [where m = "OutAttachablePort_connect_base (Some ref') (Some True) cid", OF this]
  have "OutAttachablePort_connectPort api (Some ref') (Some True) cid p' = (Exn OccupiedPort, p')"
    unfolding OutAttachablePort_connectPort_def .
  then show ?thesis using e c by simp
qed

text \<open>A network in which the first port cannot be reached, although its object passed the type check.\<close>

definition broken_network :: "unit network" where
  "broken_network = \<lparr>nw_ports = \<lambda>ref. plain_port, nw_reachable = \<lambda>ref. 0 < ref\<rparr>"

definition broken_run :: "(unit, unit network) outattach" where
  "broken_run = attach_run network_api [AddStream example_stream] (OutAttachablePort_init ''out'' broken_network)"

lemma broken_connect:
  "fst (OutAttachablePort_connectPort network_api (Some 0) (Some True) ''a'' broken_run) = Exn InvalidPort"
  "dget (oa_outConnections broken_run) ''a'' = None" "\<not> oa_locked broken_run"
  by code_simp+

theorem failed_connection_stays_witness:
  "dget (oa_outConnections (snd (OutAttachablePort_connectPort network_api (Some 0) (Some True) ''a'' broken_run))) ''a'' = Some 0"
proof -
  obtain p' where p': "OutAttachablePort_connectPort network_api (Some 0) (Some True) ''a'' broken_run = (Exn InvalidPort, p')"
    using broken_connect(1) by (metis prod.collapse)
  show ?thesis
    using failed_connection_stays [OF broken_connect(2,3) p'] p' by simp
qed

section \<open>The lock that is not released\<close>

lemma with_lock_hangs: "oa_locked p \<Longrightarrow> with_lock m p = (Hangs, p)"
  by (simp add: with_lock_def)

lemma locked_request:
  assumes "oa_locked p"
  shows "oa_locked (snd (serve_request api req p)) \<and>
     (fst (serve_request api req p) = Hangs \<or> (\<exists>sid. req = RemoveStream sid) \<or>
      (\<exists>obj is_a cid. req = ConnectPort obj is_a cid \<and> (obj = None \<or> is_a \<noteq> Some True)))"
proof -
  have c: "oa_locked (snd (on_container m p))" for m
    using assms by (auto simp: on_container_def split: prod.split)
  show ?thesis
  proof (cases req)
    case (ConnectPort obj is_a cid)
    then show ?thesis
      using assms by (auto simp: OutAttachablePort_connectPort_def OutAttachablePort_connect_base_def with_lock_def
          act_then_def act_bind_def act_raise_def split: option.split)
  next
    case (RemoveStream sid)
    then show ?thesis using c by (simp add: OutAttachablePort_removeStream_def)
  next
    case (AttachStream sd)
    obtain res q where r: "OutAttachablePort_removeStream api (sd_id sd) p = (res, q)"
      by (cases "OutAttachablePort_removeStream api (sd_id sd) p")
    have q: "oa_locked q" using c r unfolding OutAttachablePort_removeStream_def by (metis snd_conv)
    have "res = Ok ()"
    proof -
      have "\<exists>sts' r'. each_stream (when_id (sd_id sd) (Stream_detachAll api)) (oa_container p, oa_peers p) = (Ok (), sts', r') \<and>
          (\<forall>st \<in> set sts'. True)"
        by (rule each_stream_all) (simp add: when_id_def act_when_def Stream_detachAll_def detach_where_def)
      then show ?thesis
        using r by (auto simp: OutAttachablePort_removeStream_def on_container_def
            StreamContainer_removeStreamByStreamId_def act_then_run)
    qed
    then show ?thesis
      using AttachStream q r
      by (simp add: OutAttachablePort_attach_def act_then_def act_bind_def OutAttachablePort_addStream_def with_lock_def)
  qed (use assms in \<open>simp_all add: with_lock_hangs OutAttachablePort_disconnectPort_def OutAttachablePort_addStream_def
      OutAttachablePort_updateStream_def OutAttachablePort_detach_def OutAttachablePort_pushSRI_def
      OutAttachablePort_updateConnectionFilter_def act_then_def act_bind_def\<close>)
qed

lemma locked_run: "oa_locked p \<Longrightarrow> oa_locked (attach_run api reqs p)"
  unfolding attach_run_def by (induction reqs arbitrary: p) (use locked_request in auto)

text \<open>
  \<open>updateStream\<close> for a stream the port does not have returns \<open>False\<close> and never gives the lock back. From then
  on, whatever is requested, every request but the removal of a stream waits for ever, unless it is a
  connection refused for its object before the lock is asked for.
\<close>

theorem unknown_update_blocks_the_port:
  assumes "\<not> oa_locked p" "\<not> StreamContainer_hasStreamId (sd_id sd) (oa_container p)"
  shows "fst (OutAttachablePort_updateStream api sd p) = Ok False \<and>
     (\<forall>reqs req. let q = attach_run api reqs (snd (OutAttachablePort_updateStream api sd p))
        in fst (serve_request api req q) = Hangs \<or> (\<exists>sid. req = RemoveStream sid) \<or>
           (\<exists>obj is_a cid. req = ConnectPort obj is_a cid \<and> (obj = None \<or> is_a \<noteq> Some True)))"
proof -
  have u: "OutAttachablePort_updateStream api sd p = (Ok False, p\<lparr>oa_locked := True\<rparr>)"
    using assms by (simp add: OutAttachablePort_updateStream_def with_lock_def)
  have "oa_locked (attach_run api reqs (p\<lparr>oa_locked := True\<rparr>))" for reqs
    by (rule locked_run) simp
  from locked_request [OF this] show ?thesis unfolding u Let_def snd_conv fst_conv by blast
qed

theorem unknown_update_blocks_the_port_witness:
  "fst (serve_request network_api (PushSRI (sri_default ''s'') timestamp_notSet) (attach_run network_api
     [AddStream example_stream]
     (snd (OutAttachablePort_updateStream network_api example_stream (OutAttachablePort_init ''out'' plain_network))))) = Hangs"
proof -
  have p: "\<not> oa_locked (OutAttachablePort_init ''out'' plain_network)"
    "\<not> StreamContainer_hasStreamId (sd_id example_stream) (oa_container (OutAttachablePort_init ''out'' plain_network))"
    by (simp_all add: OutAttachablePort_init_def StreamContainer_hasStreamId_def)
  from spec [OF spec [OF conjunct2 [OF unknown_update_blocks_the_port [OF p, of network_api]], of "[AddStream example_stream]"],
      of "PushSRI (sri_default ''s'') timestamp_notSet"]
  show ?thesis unfolding Let_def by blast
qed

end
