(* ===== verification/OutputStreams.thy ===== *)
theory OutputStreams
  imports OutPort
begin

text \<open>
  \<open>bulkio/output_streams.py\<close>: output streams over the port operations they call, and the creation
  of streams by the port (\<open>OutPort.createStream\<close>). The stream object and the port are passed
  through every operation; a plain \<open>OutputStream\<close> is one whose buffer stays empty, so that the
  methods the buffered class overrides agree with the base class on it.
\<close>

section \<open>The port as the stream sees it\<close>

text \<open>
  \<open>sk_alias\<close> is not a call: an assignment to a field of the stream's SRI also changes the port's
  entry while both are the same object.
\<close>

record ('a, 'p) sink_api =
  sk_pushSRI :: "sri \<Rightarrow> 'p \<Rightarrow> 'p outcome"
  sk_pushPacket :: "'a list \<Rightarrow> utctime option \<Rightarrow> bool \<Rightarrow> string \<Rightarrow> 'p \<Rightarrow> 'p outcome"
  sk_alias :: "sri \<Rightarrow> 'p \<Rightarrow> 'p"

type_synonym ('a, 'p) ostate = "'a ostream \<times> 'p"

section \<open>Sending\<close>

definition OutputStream_send ::
    "('a, 'p) sink_api \<Rightarrow> 'a list \<Rightarrow> utctime option \<Rightarrow> bool \<Rightarrow> ('a, 'p) ostate \<Rightarrow> ('a, 'p) ostate outcome" where
  "OutputStream_send A data time eos s =
     obind
       (if os_sriModified (fst s)
        then omap (\<lambda>p. ((fst s)\<lparr>os_sriModified := False, os_shared := False\<rparr>, p))
               (sk_pushSRI A (os_sri (fst s)) (snd s))
        else Returned s)
       (\<lambda>s. omap (Pair (fst s)) (sk_pushPacket A data time eos (os_streamID (fst s)) (snd s)))"

definition OutputStream_close :: "('a, 'p) sink_api \<Rightarrow> ('a, 'p) ostate \<Rightarrow> ('a, 'p) ostate outcome" where
  "OutputStream_close A s = OutputStream_send A [] (Some timestamp_notSet) True s"

section \<open>Buffering\<close>

definition BOS_sendBuffer ::
    "('a, 'p) sink_api \<Rightarrow> bool \<Rightarrow> ('a, 'p) ostate \<Rightarrow> ('a, 'p) ostate outcome" where
  "BOS_sendBuffer A eos s =
     omap (\<lambda>(os, p). (os\<lparr>os_buffer := []\<rparr>, p))
       (OutputStream_send A (os_buffer (fst s)) (os_bufferTime (fst s)) eos s)"

definition BOS_flush :: "('a, 'p) sink_api \<Rightarrow> ('a, 'p) ostate \<Rightarrow> ('a, 'p) ostate outcome" where
  "BOS_flush A s = (if os_buffer (fst s) = [] then Returned s else BOS_sendBuffer A False s)"

definition BOS_close :: "('a, 'p) sink_api \<Rightarrow> ('a, 'p) ostate \<Rightarrow> ('a, 'p) ostate outcome" where
  "BOS_close A s = (if os_buffer (fst s) \<noteq> [] then BOS_sendBuffer A True s else OutputStream_close A s)"

definition BOS_setBufferSize ::
    "('a, 'p) sink_api \<Rightarrow> int \<Rightarrow> ('a, 'p) ostate \<Rightarrow> ('a, 'p) ostate outcome" where
  "BOS_setBufferSize A samples s =
     (if samples < 0 then Raised ValueError
      else
        let s = ((fst s)\<lparr>os_bufferSize := nat samples\<rparr>, snd s)
        in if os_bufferSize (fst s) \<le> length (os_buffer (fst s)) then BOS_flush A s else Returned s)"

text \<open>
  The recursion of \<open>_doBuffer\<close>. Each call but the last fills the buffer, so one call more than
  there are samples is enough fuel; running out of it would be the endless recursion that a
  buffer size of zero causes. Python's own limit on recursion is not modelled: the code raises \<open>RuntimeError\<close>
  for data of more buffers than that (about a thousand). With a full buffer \<open>count\<close> is zero; it would be negative only for a
  buffer longer than its size, which \<open>setBufferSize\<close> never leaves behind.
\<close>

fun BOS_doBuffer ::
    "nat \<Rightarrow> ('a, 'p) sink_api \<Rightarrow> 'a list \<Rightarrow> utctime option \<Rightarrow> ('a, 'p) ostate \<Rightarrow> ('a, 'p) ostate outcome" where
  "BOS_doBuffer 0 A data time s = Blocked"
| "BOS_doBuffer (Suc n) A data time (os, p) =
     (let os = (if os_buffer os = [] then os\<lparr>os_bufferTime := time\<rparr> else os);
          count = min (length data) (os_bufferSize os - length (os_buffer os));
          os = os\<lparr>os_buffer := os_buffer os @ take count data\<rparr>
      in obind (if os_bufferSize os \<le> length (os_buffer os) then BOS_sendBuffer A False (os, p)
                else Returned (os, p))
           (\<lambda>(os, p).
              if count < length data then
                (case time of
                   None \<Rightarrow> Raised TypeError
                 | Some t \<Rightarrow> BOS_doBuffer n A (drop count data)
                     (Some (timestamp_add t (xdelta (os_sri os) * of_nat count))) (os, p))
              else Returned (os, p)))"

declare BOS_doBuffer.simps [simp del]

definition BOS_write ::
    "('a, 'p) sink_api \<Rightarrow> 'a list \<Rightarrow> utctime option \<Rightarrow> ('a, 'p) ostate \<Rightarrow> ('a, 'p) ostate outcome" where
  "BOS_write A data time s =
     (if os_bufferSize (fst s) = 0 \<or> (os_buffer (fst s) = [] \<and> os_bufferSize (fst s) \<le> length data)
      then OutputStream_send A data time False s
      else BOS_doBuffer (Suc (length data)) A data time s)"

section \<open>Metadata\<close>

definition BOS_modifying :: "('a, 'p) sink_api \<Rightarrow> ('a, 'p) ostate \<Rightarrow> ('a, 'p) ostate outcome" where
  "BOS_modifying A s = omap (\<lambda>(os, p). (os\<lparr>os_sriModified := True\<rparr>, p)) (BOS_flush A s)"

text \<open>An assignment to the SRI object of the stream, seen by the port as long as it is shared.\<close>

definition assign_sri :: "('a, 'p) sink_api \<Rightarrow> (sri \<Rightarrow> sri) \<Rightarrow> ('a, 'p) ostate \<Rightarrow> ('a, 'p) ostate" where
  "assign_sri A upd s =
     (let H = upd (os_sri (fst s))
      in ((fst s)\<lparr>os_sri := H\<rparr>, if os_shared (fst s) then sk_alias A H (snd s) else snd s))"

definition OutputStream_set_sri ::
    "('a, 'p) sink_api \<Rightarrow> sri \<Rightarrow> ('a, 'p) ostate \<Rightarrow> ('a, 'p) ostate outcome" where
  "OutputStream_set_sri A H s =
     (if sri_compareFields (os_sri (fst s)) H \<in> {NONE, STREAMID} then Returned s
      else omap (\<lambda>(os, p). (os\<lparr>os_sri := H\<lparr>streamID := os_streamID os\<rparr>, os_shared := False\<rparr>, p))
             (BOS_modifying A s))"

text \<open>\<open>upd\<close> assigns one attribute; the guard compares the attribute with its new value.\<close>

definition OutputStream_setStreamMetadata ::
    "('a, 'p) sink_api \<Rightarrow> (sri \<Rightarrow> sri) \<Rightarrow> ('a, 'p) ostate \<Rightarrow> ('a, 'p) ostate outcome" where
  "OutputStream_setStreamMetadata A upd s =
     (if upd (os_sri (fst s)) \<noteq> os_sri (fst s)
      then omap (assign_sri A upd) (BOS_modifying A s) else Returned s)"

definition OutputStream_set_xstart where
  "OutputStream_set_xstart A x = OutputStream_setStreamMetadata A (\<lambda>H. H\<lparr>xstart := x\<rparr>)"

definition OutputStream_set_xdelta where
  "OutputStream_set_xdelta A x = OutputStream_setStreamMetadata A (\<lambda>H. H\<lparr>xdelta := x\<rparr>)"

definition OutputStream_set_xunits where
  "OutputStream_set_xunits A u = OutputStream_setStreamMetadata A (\<lambda>H. H\<lparr>xunits := u\<rparr>)"

definition OutputStream_set_subsize where
  "OutputStream_set_subsize A n = OutputStream_setStreamMetadata A (\<lambda>H. H\<lparr>subsize := n\<rparr>)"

definition OutputStream_set_ystart where
  "OutputStream_set_ystart A y = OutputStream_setStreamMetadata A (\<lambda>H. H\<lparr>ystart := y\<rparr>)"

definition OutputStream_set_ydelta where
  "OutputStream_set_ydelta A y = OutputStream_setStreamMetadata A (\<lambda>H. H\<lparr>ydelta := y\<rparr>)"

definition OutputStream_set_yunits where
  "OutputStream_set_yunits A u = OutputStream_setStreamMetadata A (\<lambda>H. H\<lparr>yunits := u\<rparr>)"

definition OutputStream_set_complex where
  "OutputStream_set_complex A b = OutputStream_setStreamMetadata A (\<lambda>H. H\<lparr>mode := if b then 1 else 0\<rparr>)"

definition OutputStream_set_blocking where
  "OutputStream_set_blocking A b = OutputStream_setStreamMetadata A (\<lambda>H. H\<lparr>blocking := b\<rparr>)"

definition OutputStream_set_keywords ::
    "('a, 'p) sink_api \<Rightarrow> keyword list \<Rightarrow> ('a, 'p) ostate \<Rightarrow> ('a, 'p) ostate outcome" where
  "OutputStream_set_keywords A ks s =
     (if sri_compareKeywords (kwords (os_sri (fst s))) ks then Returned s
      else omap (assign_sri A (\<lambda>H. H\<lparr>kwords := ks\<rparr>)) (BOS_modifying A s))"

definition OutputStream_setKeyword ::
    "('a, 'p) sink_api \<Rightarrow> (corba_any \<Rightarrow> pyval) \<Rightarrow> (pyval \<Rightarrow> corba_any) \<Rightarrow> string \<Rightarrow> pyval \<Rightarrow>
     ('a, 'p) ostate \<Rightarrow> ('a, 'p) ostate outcome" where
  "OutputStream_setKeyword A from_any to_any name value s =
     obind
       (if sri_hasKeyword (os_sri (fst s)) name
        then omap (\<lambda>v. py_eq v value) (sri_getKeyword from_any (os_sri (fst s)) name)
        else Returned False)
       (\<lambda>same. if same then Returned s
          else omap (assign_sri A (\<lambda>H. sri_setKeyword to_any H name value)) (BOS_modifying A s))"

definition OutputStream_eraseKeyword ::
    "('a, 'p) sink_api \<Rightarrow> string \<Rightarrow> ('a, 'p) ostate \<Rightarrow> ('a, 'p) ostate outcome" where
  "OutputStream_eraseKeyword A name s =
     (if \<not> sri_hasKeyword (os_sri (fst s)) name then Returned s
      else omap (assign_sri A (\<lambda>H. sri_eraseKeyword H name)) (BOS_modifying A s))"

section \<open>The stream classes\<close>

text \<open>Samples as Python numbers: every real number has a real and an imaginary part too.\<close>

datatype 'a sample = RealSample (sample_real: 'a) | ComplexSample (sample_real: 'a) (sample_imag_part: 'a)

fun sample_imag :: "'a::zero sample \<Rightarrow> 'a" where
  "sample_imag (RealSample x) = 0"
| "sample_imag (ComplexSample x y) = y"

definition complex_to_interleaved :: "('a::zero \<Rightarrow> 'a) \<Rightarrow> 'a sample list \<Rightarrow> 'a sample list" where
  "complex_to_interleaved dtype data =
     concat (map (\<lambda>x. [RealSample (dtype (sample_real x)), RealSample (dtype (sample_imag x))]) data)"

definition NumericOutputStream_write ::
    "('a::zero sample, 'p) sink_api \<Rightarrow> ('a \<Rightarrow> 'a) \<Rightarrow> 'a sample list \<Rightarrow> utctime option \<Rightarrow> bool \<Rightarrow>
     ('a sample, 'p) ostate \<Rightarrow> ('a sample, 'p) ostate outcome" where
  "NumericOutputStream_write A dtype data time interleaved s =
     BOS_write A (if \<not> interleaved \<and> sri_complex (os_sri (fst s)) then complex_to_interleaved dtype data
       else data) time s"

definition OutFileStream_write ::
    "('a, 'p) sink_api \<Rightarrow> 'a list \<Rightarrow> utctime option \<Rightarrow> ('a, 'p) ostate \<Rightarrow> ('a, 'p) ostate outcome" where
  "OutFileStream_write A data time s = OutputStream_send A data time False s"

definition OutXMLStream_write ::
    "('a, 'p) sink_api \<Rightarrow> 'a list \<Rightarrow> ('a, 'p) ostate \<Rightarrow> ('a, 'p) ostate outcome" where
  "OutXMLStream_write A data s = OutputStream_send A data None False s"

section \<open>Streams of a port\<close>

definition alias_sri :: "sri \<Rightarrow> 'a outport \<Rightarrow> 'a outport" where
  "alias_sri H p = (case dget (op_sriDict p) (streamID H) of
     None \<Rightarrow> p
   | Some (_, cs) \<Rightarrow> p\<lparr>op_sriDict := dput (streamID H) (H, cs) (op_sriDict p)\<rparr>)"

definition outport_sink :: "rat \<Rightarrow> ('a, 'a outport) sink_api" where
  "outport_sink now = \<lparr>sk_pushSRI = OutPort_pushSRI, sk_pushPacket = OutPort_pushPacket now,
     sk_alias = alias_sri\<rparr>"

text \<open>An operation on the stream object \<open>r\<close> of the port.\<close>

definition on_stream ::
    "nat \<Rightarrow> (('a, 'a outport) ostate \<Rightarrow> ('a, 'a outport) ostate outcome) \<Rightarrow> 'a outport \<Rightarrow> 'a outport outcome" where
  "on_stream r f p =
     omap (\<lambda>(os, q). q\<lparr>op_heap := (op_heap q)[r := os]\<rparr>) (f (op_heap p ! r, p))"

text \<open>\<open>createStream\<close> holds the port lock, which is not reentrant, for all of its body.\<close>

definition OutPort_createStream_named :: "string \<Rightarrow> 'a outport \<Rightarrow> (nat \<times> 'a outport) outcome" where
  "OutPort_createStream_named sid p =
     (if op_locked p then Blocked
      else case dget (op_streams p) sid of
        Some r \<Rightarrow> Returned (r, p)
      | None \<Rightarrow> Returned (OutPort_newStream False (sri_default sid) p))"

definition OutPort_createStream :: "rat \<Rightarrow> sri \<Rightarrow> 'a outport \<Rightarrow> (nat \<times> 'a outport) outcome" where
  "OutPort_createStream now H p =
     (if op_locked p then Blocked
      else case dget (op_streams p) (streamID H) of
        Some r \<Rightarrow> omap (\<lambda>q. (r, q\<lparr>op_locked := False\<rparr>))
          (on_stream r (OutputStream_set_sri (outport_sink now) H) (p\<lparr>op_locked := True\<rparr>))
      | None \<Rightarrow> Returned (OutPort_newStream False H p))"

end
