(* ===== verification/OutPortDelivery.thy ===== *)
theory OutPortDelivery
  imports OutPort
begin

text \<open>
  What an output port promises to the ports it is connected to: data is only sent on streams
  whose SRI the receiver has, to the connections the filter table allows, completely and in
  order, and in pieces that respect the transfer limit.
\<close>

section \<open>The protocol on the wire\<close>

text \<open>
  Whether the receiver behind a connection knows the stream: an SRI opens it, an end-of-stream
  closes it, and so does the end of the connection.
\<close>

fun wire_step :: "string \<Rightarrow> string \<Rightarrow> bool \<Rightarrow> 'a wire_event \<Rightarrow> bool" where
  "wire_step cid sid known (WConnect c) = (if c = cid then False else known)"
| "wire_step cid sid known (WDisconnect c) = (if c = cid then False else known)"
| "wire_step cid sid known (WSri c H) = (if c = cid \<and> streamID H = sid then True else known)"
| "wire_step cid sid known (WPacket c d T e s) = (if c = cid \<and> s = sid \<and> e then False else known)"

definition open_on :: "string \<Rightarrow> string \<Rightarrow> 'a wire_event list \<Rightarrow> bool" where
  "open_on cid sid w = foldl (wire_step cid sid) False w"

lemma open_on_snoc [simp]: "open_on cid sid (w @ [e]) = wire_step cid sid (open_on cid sid w) e"
  by (simp add: open_on_def)

lemma open_on_Nil [simp]: "\<not> open_on cid sid []"
  by (simp add: open_on_def)

text \<open>Every packet with data was sent on a stream that was open at that moment.\<close>

definition data_announced :: "'a wire_event list \<Rightarrow> bool" where
  "data_announced w \<longleftrightarrow> (\<forall>xs ys cid d T e sid.
     w = xs @ WPacket cid d T e sid # ys \<longrightarrow> d \<noteq> [] \<longrightarrow> open_on cid sid xs)"

definition event_fits :: "'a wire_event list \<Rightarrow> 'a wire_event \<Rightarrow> bool" where
  "event_fits w ev \<longleftrightarrow> (case ev of WPacket cid d T e sid \<Rightarrow> d = [] \<or> open_on cid sid w | _ \<Rightarrow> True)"

lemma data_announced_Nil [simp]: "data_announced []"
  by (simp add: data_announced_def)

lemma data_announced_snoc: "data_announced (w @ [ev]) \<longleftrightarrow> data_announced w \<and> event_fits w ev"
proof
  assume a: "data_announced (w @ [ev])"
  have "data_announced w"
    unfolding data_announced_def
  proof (intro allI impI)
    fix xs ys cid d T e sid
    assume "w = xs @ WPacket cid d T e sid # ys" "d \<noteq> []"
    then show "open_on cid sid xs"
      using a [unfolded data_announced_def, rule_format, of xs cid d T e sid "ys @ [ev]"] by simp
  qed
  moreover have "event_fits w ev"
  proof (cases ev)
    case (WPacket cid d T e sid)
    then show ?thesis
      using a [unfolded data_announced_def, rule_format, of w cid d T e sid "[]"]
      by (auto simp: event_fits_def)
  qed (simp_all add: event_fits_def)
  ultimately show "data_announced w \<and> event_fits w ev" ..
next
  assume a: "data_announced w \<and> event_fits w ev"
  show "data_announced (w @ [ev])"
    unfolding data_announced_def
  proof (intro allI impI)
    fix xs ys cid d T e sid
    assume eq: "w @ [ev] = xs @ WPacket cid d T e sid # ys" and d: "d \<noteq> []"
    show "open_on cid sid xs"
    proof (cases ys rule: rev_cases)
      case Nil
      then show ?thesis using eq a d by (auto simp: event_fits_def)
    next
      case (snoc zs z)
      then have "w = xs @ WPacket cid d T e sid # zs" using eq by simp
      then show ?thesis using a d by (auto simp: data_announced_def)
    qed
  qed
qed

section \<open>The books of an output port\<close>

text \<open>
  The connections on file for a stream really know it, and are connected; \<open>X\<close> names the pairs
  of connection and stream for which this is suspended in the middle of an operation.
\<close>

definition wired :: "(string \<times> string) set \<Rightarrow> 'a outport \<Rightarrow> bool" where
  "wired X p \<longleftrightarrow> data_announced (op_wire p) \<and> dict_ok (op_connections p) \<and> dict_ok (op_sriDict p) \<and>
     outstats_ok (op_stats p) \<and>
     (\<forall>sid H cs. dget (op_sriDict p) sid = Some (H, cs) \<longrightarrow>
        streamID H = sid \<and> dget (op_streams p) sid \<noteq> None \<and>
        (\<forall>cid \<in> set cs. (cid, sid) \<notin> X \<longrightarrow>
           open_on cid sid (op_wire p) \<and> dget (op_connections p) cid \<noteq> None))"

definition outport_ok :: "'a outport \<Rightarrow> bool" where
  "outport_ok p \<longleftrightarrow> wired {} p"

lemma wired_stats: "wired X p \<Longrightarrow> outstats_ok s \<Longrightarrow> wired X (p\<lparr>op_stats := s\<rparr>)"
  by (simp add: wired_def)

lemma wired_mono: "wired X p \<Longrightarrow> X \<subseteq> Y \<Longrightarrow> wired Y p"
  by (fastforce simp: wired_def)

lemma wired_faults [simp]: "wired X (p\<lparr>op_faults := f\<rparr>) = wired X p"
  by (simp add: wired_def)

lemma report_state: "snd (OutPort_reportConnectionErrors cid p) =
    p\<lparr>op_stats := snd (OutStats_connectionErrors cid 1 (op_stats p))\<rparr>"
  by (simp add: OutPort_reportConnectionErrors_def split_beta)

lemma wired_report: "wired X p \<Longrightarrow> wired X (snd (OutPort_reportConnectionErrors cid p))"
  by (simp add: report_state wired_def)

lemma wired_event:
  assumes "wired X p" "event_fits (op_wire p) ev"
    "\<And>cid sid. (cid, sid) \<notin> Y \<Longrightarrow> (cid, sid) \<notin> X \<and>
       (open_on cid sid (op_wire p) \<longrightarrow> wire_step cid sid True ev)"
  shows "wired Y (p\<lparr>op_wire := op_wire p @ [ev]\<rparr>)"
  using assms by (auto simp: wired_def data_announced_snoc)

lemma wired_remote:
  assumes "wired X p" "event_fits (op_wire p) ev"
    "\<And>cid sid. (cid, sid) \<notin> Y \<Longrightarrow> (cid, sid) \<notin> X \<and>
       (open_on cid sid (op_wire p) \<longrightarrow> wire_step cid sid True ev)"
    "remote_call ev p = (sent, q)"
  shows "wired Y q"
proof -
  have "wired Y p" using assms(1,3) by (auto simp: wired_def)
  then show ?thesis
    using assms(4) wired_event [OF assms(1-3)]
    by (auto simp: remote_call_def split: list.splits if_splits) (simp add: wired_def)
qed

lemma remote_frame:
  "remote_call ev p = (sent, q) \<Longrightarrow> op_connections q = op_connections p \<and> op_sriDict q = op_sriDict p \<and>
     op_streams q = op_streams p \<and> op_stats q = op_stats p \<and> op_filter q = op_filter p \<and>
     op_name q = op_name p \<and> op_heap q = op_heap p \<and> op_locked q = op_locked p \<and>
     op_maxSamples q = op_maxSamples p \<and> op_numeric q = op_numeric p \<and>
     op_wire q = op_wire p @ (if sent then [ev] else [])"
  by (auto simp: remote_call_def split: list.splits if_splits)

section \<open>Every send keeps the books\<close>

text \<open>What a send never touches.\<close>

definition same_setup :: "'a outport \<Rightarrow> 'a outport \<Rightarrow> bool" where
  "same_setup p q \<longleftrightarrow> op_connections q = op_connections p \<and> op_streams q = op_streams p \<and>
     op_filter q = op_filter p \<and> op_name q = op_name p \<and> op_heap q = op_heap p \<and>
     op_locked q = op_locked p \<and> op_maxSamples q = op_maxSamples p \<and> op_numeric q = op_numeric p"

lemma same_setup_refl [simp]: "same_setup p p"
  by (simp add: same_setup_def)

lemma same_setup_trans: "same_setup p q \<Longrightarrow> same_setup q r \<Longrightarrow> same_setup p r"
  by (simp add: same_setup_def)

lemma same_setup_remote: "remote_call ev p = (sent, q) \<Longrightarrow> same_setup p q"
  using remote_frame [of ev p sent q] by (simp add: same_setup_def)

lemma same_setup_updates [simp]:
  "same_setup p (q\<lparr>op_stats := s\<rparr>) = same_setup p q"
  "same_setup p (q\<lparr>op_sriDict := d\<rparr>) = same_setup p q"
  "same_setup p (q\<lparr>op_wire := w\<rparr>) = same_setup p q"
  by (simp_all add: same_setup_def)

lemma same_setup_report [simp]:
  "same_setup p (snd (OutPort_reportConnectionErrors cid q)) = same_setup p q"
  by (simp add: report_state)

lemma same_setup_add_sri [simp]: "same_setup p (add_sri_connection sid cid q) = same_setup p q"
  by (simp add: add_sri_connection_def split: option.split)

lemma same_setup_fold:
  "(\<And>c q. c \<in> set cs \<Longrightarrow> same_setup q (f c q)) \<Longrightarrow> same_setup p (fold f cs p)"
  by (induction cs arbitrary: p) (auto intro: same_setup_trans)

lemma push_sri_setup [intro]: "same_setup p (push_sri_to H cid p)"
  by (auto simp: push_sri_to_def dest: same_setup_remote split: prod.split)

lemma send_packet_setup [intro]: "same_setup p (send_packet_to now data T EOS sid cid p)"
  by (auto simp: send_packet_to_def dest: same_setup_remote split: prod.split outcome.split)

lemma push_packet_setup [intro]: "same_setup p (push_packet_to now data T EOS sid cid p)"
  by (auto simp: push_packet_to_def split: prod.split option.split dest!: same_setup_remote
      intro: same_setup_trans [OF _ send_packet_setup])

lemma sendAll_setup [intro]: "same_setup p (OutPort_sendAll now data T EOS sid p)"
  using same_setup_fold [of "dkeys (op_connections p)" "push_packet_to now data T EOS sid" p,
      OF push_packet_setup]
  by (cases EOS) (simp_all add: OutPort_sendAll_def Let_def)

lemma wired_add_sri:
  assumes "wired X p" "(cid, sid) \<notin> X \<Longrightarrow> open_on cid sid (op_wire p)" "dget (op_connections p) cid \<noteq> None"
  shows "wired X (add_sri_connection sid cid p)"
  using assms unfolding wired_def add_sri_connection_def
  by (cases "dget (op_sriDict p) sid") (auto split: if_splits)

lemma push_sri_wired:
  assumes "wired X p" "dget (op_connections p) cid \<noteq> None"
  shows "wired X (push_sri_to H cid p)"
proof -
  obtain sent q where q: "remote_call (WSri cid H) p = (sent, q)" by fastforce
  have w: "wired X q" using wired_remote [OF assms(1) _ _ q] by (simp add: event_fits_def)
  then show ?thesis
    using assms remote_frame [OF q]
    by (auto simp: push_sri_to_def q wired_report intro: wired_add_sri)
qed

lemma send_packet_wired:
  assumes "wired X p" "data = [] \<or> open_on cid sid (op_wire p)"
  shows "wired (if EOS then insert (cid, sid) X else X) (send_packet_to now data T EOS sid cid p)"
proof -
  obtain sent q where q: "remote_call (WPacket cid data T EOS sid) p = (sent, q)" by fastforce
  have w: "wired (if EOS then insert (cid, sid) X else X) q"
    by (rule wired_remote [OF assms(1) _ _ q])
      (use assms(2) in \<open>auto simp: event_fits_def split: if_splits\<close>)
  have s: "outstats_ok s" if "OutStats_update now (int (length data)) 0 EOS sid cid (op_stats q) = Returned s" for s
  proof -
    have "outstats_ok (op_stats q)" using w by (simp add: wired_def)
    then show ?thesis
      using OutStats_update_ok [of "op_stats q" now "int (length data)" 0 EOS sid cid] that by auto
  qed
  show ?thesis
    unfolding send_packet_to_def q using wired_report [OF w] wired_stats [OF w] s
    by (auto split: outcome.split)
qed

lemma push_packet_wired:
  assumes "wired X p" "(cid, sid) \<notin> X" "dget (op_connections p) cid \<noteq> None"
  shows "wired (if EOS then insert (cid, sid) X else X) (push_packet_to now data T EOS sid cid p)"
proof (cases "dget (op_sriDict p) sid")
  case None
  then show ?thesis
    using wired_mono [OF wired_report [OF assms(1)]] wired_mono [OF assms(1)]
    by (auto simp: push_packet_to_def subset_insertI)
next
  case (Some e)
  obtain H cs where e: "e = (H, cs)" by (cases e)
  have H: "streamID H = sid" and known: "cid \<in> set cs \<Longrightarrow> open_on cid sid (op_wire p)"
    using assms(1,2) Some e by (auto simp: wired_def)
  obtain sent q where q: "remote_call (WSri cid H) p = (sent, q)" by fastforce
  have wq: "wired X q" using wired_remote [OF assms(1) _ _ q] by (simp add: event_fits_def)
  have fq: "op_connections q = op_connections p" "sent \<Longrightarrow> open_on cid sid (op_wire q)"
    using remote_frame [OF q] H by auto
  have wa: "wired X (add_sri_connection sid cid q)" if sent
    using wired_add_sri [OF wq] fq assms(3) that by simp
  have oa: "op_wire (add_sri_connection sid cid q) = op_wire q"
    by (simp add: add_sri_connection_def split: option.split)
  show ?thesis
    using send_packet_wired [OF assms(1), of data cid sid EOS now T] known
      send_packet_wired [OF wa, of data cid sid EOS now T] fq(2) oa
      wired_mono [OF wired_report [OF wq]] wired_mono [OF assms(1)]
    by (auto simp: push_packet_to_def Some e q subset_insertI)
qed

lemma push_packets_wired:
  assumes "wired X p" "distinct cids" "\<forall>cid\<in>set cids. (cid, sid) \<notin> X \<and> dget (op_connections p) cid \<noteq> None"
  shows "wired (if EOS then X \<union> set cids \<times> {sid} else X)
    (fold (push_packet_to now data T EOS sid) cids p)"
  using assms
proof (induction cids arbitrary: X p)
  case (Cons c cids)
  let ?q = "push_packet_to now data T EOS sid c p"
  have q: "wired (if EOS then insert (c, sid) X else X) ?q"
    using Cons.prems by (intro push_packet_wired) auto
  have "op_connections ?q = op_connections p"
    using push_packet_setup [of p now data T EOS sid c] by (simp add: same_setup_def)
  then have "wired (if EOS then (if EOS then insert (c, sid) X else X) \<union> set cids \<times> {sid}
      else (if EOS then insert (c, sid) X else X)) (fold (push_packet_to now data T EOS sid) cids ?q)"
    using Cons.prems by (intro Cons.IH [OF q]) auto
  then show ?case by (auto simp: insert_commute)
qed simp

lemma sendAll_wired:
  assumes "outport_ok p"
  shows "outport_ok (OutPort_sendAll now data T EOS sid p)"
proof -
  let ?q = "fold (push_packet_to now data T EOS sid) (dkeys (op_connections p)) p"
  have "wired (if EOS then {} \<union> set (dkeys (op_connections p)) \<times> {sid} else {}) ?q"
  proof (rule push_packets_wired)
    show "wired {} p" using assms by (simp add: outport_ok_def)
    then show "distinct (dkeys (op_connections p))" by (simp add: wired_def dict_ok_def)
    show "\<forall>cid\<in>set (dkeys (op_connections p)). (cid, sid) \<notin> {} \<and> dget (op_connections p) cid \<noteq> None"
      by (simp add: dget_None_iff del: not_None_eq)
  qed
  then show ?thesis
    by (cases EOS) (auto simp: OutPort_sendAll_def outport_ok_def wired_def Let_def)
qed


section \<open>The operations\<close>

lemma dkeys_connected: "cid \<in> set (dkeys (op_connections p)) \<Longrightarrow> dget (op_connections p) cid \<noteq> None"
  by (simp add: dget_None_iff del: not_None_eq)

lemma outport_ok_frame [simp]:
  "outport_ok (p\<lparr>op_heap := h\<rparr>) = outport_ok p"
  "outport_ok (p\<lparr>op_filter := t\<rparr>) = outport_ok p"
  by (simp_all add: outport_ok_def wired_def)

lemma outport_ok_init [simp]: "outport_ok (OutPort_init name calcsize bits numeric faults)"
  by (simp add: outport_ok_def wired_def OutPort_init_def Let_def)

lemma push_sris_wired:
  assumes "wired X p" "\<forall>cid\<in>set cids. dget (op_connections p) cid \<noteq> None"
  shows "wired X (fold (push_sri_to H) cids p)"
  using assms
proof (induction cids arbitrary: p)
  case (Cons c cids)
  have "op_connections (push_sri_to H c p) = op_connections p"
    using push_sri_setup [of p H c] by (simp add: same_setup_def)
  then have "\<forall>cid\<in>set cids. dget (op_connections (push_sri_to H c p)) cid \<noteq> None"
    using Cons.prems(2) by simp
  with Cons.IH [OF push_sri_wired, of p c H] Cons.prems show ?case by simp
qed simp

lemma pushSRI_ok:
  assumes "outport_ok p" "OutPort_pushSRI H p = Returned q"
  shows "outport_ok q"
proof -
  let ?p = "put_sri H p"
  let ?p' = "if dget (op_streams ?p) (streamID H) = None then snd (OutPort_newStream True H ?p) else ?p"
  have w: "wired {} ?p'" using assms(1)
    by (auto simp: outport_ok_def wired_def OutPort_newStream_def put_sri_def)
  have "wired {} (fold (push_sri_to H) (dkeys (op_connections ?p')) ?p')"
    using push_sris_wired [OF w] dkeys_connected by blast
  then show ?thesis
    using assms(2) by (simp add: OutPort_pushSRI_def Let_def outport_ok_def split: if_splits)
qed

lemma sendAll_fold_ok:
  "outport_ok p \<Longrightarrow> outport_ok (fold (\<lambda>(d, t, e). OutPort_sendAll now d (Some t) e sid) parts p)"
  by (induction parts arbitrary: p) (auto simp: sendAll_wired)

lemma sendPackets_ok:
  "outport_ok p \<Longrightarrow> OutPort_sendPackets now data T EOS sid p = Returned q \<Longrightarrow> outport_ok q"
  by (auto simp: OutPort_sendPackets_def OutPort_numericPush_def Let_def sendAll_wired sendAll_fold_ok
      split: if_splits option.splits)

text \<open>When everything has been sent with the end-of-stream, the SRI is off the books.\<close>

lemma sendAll_eos_pops: "dget (op_sriDict (OutPort_sendAll now data T True sid p)) sid = None"
  by (simp add: OutPort_sendAll_def Let_def)

lemma subpackets_ne: "0 < n \<Longrightarrow> data \<noteq> [] \<Longrightarrow> subpackets n item xd data T EOS \<noteq> []"
  by (subst subpackets.simps) (simp add: Let_def)

lemma subpackets_last_eos:
  "0 < n \<Longrightarrow> data \<noteq> [] \<Longrightarrow> snd (snd (last (subpackets n item xd data T EOS))) = EOS"
proof (induction n item xd data T EOS rule: subpackets.induct)
  case (1 n item xd data T EOS)
  show ?case
  proof (cases "drop n data = []")
    case True
    then show ?thesis using "1.prems"
      by (subst subpackets.simps) (simp add: subpackets.simps [of n item xd "[]"] Let_def)
  next
    case False
    show ?thesis
      using 1 False
      by (subst subpackets.simps) (auto simp: subpackets_ne Let_def)
  qed
qed

lemma sendPackets_eos_pops:
  assumes "OutPort_sendPackets now data T True sid p = Returned q"
  shows "dget (op_sriDict q) sid = None"
proof -
  have *: "dget (op_sriDict (fold (\<lambda>(d, t, e). OutPort_sendAll now d (Some t) e sid)
      (subpackets n item xd data t True) p)) sid = None" if ne: "n \<noteq> 0" "data \<noteq> []" for n item xd t
  proof -
    let ?xs = "subpackets n item xd data t True"
    obtain ys d t' e where ys: "?xs = ys @ [(d, t', e)]"
      using subpackets_ne [of n data item xd t True] ne by (cases ?xs rule: rev_cases) auto
    moreover have e using subpackets_last_eos [of n data item xd t True] ne ys by simp
    ultimately show ?thesis by (simp add: sendAll_eos_pops)
  qed
  then show ?thesis
    using assms
    by (auto simp: OutPort_sendPackets_def OutPort_numericPush_def Let_def sendAll_eos_pops
        split: if_splits option.splits intro!: *)
qed


definition sri_on_file :: "string \<Rightarrow> 'a outport \<Rightarrow> sri option" where
  "sri_on_file sid p = map_option fst (dget (op_sriDict p) sid)"

lemma sri_on_file_add [simp]: "sri_on_file sid (add_sri_connection s c p) = sri_on_file sid p"
  by (auto simp: sri_on_file_def add_sri_connection_def split: option.split)

lemma sri_on_file_report [simp]:
  "sri_on_file sid (snd (OutPort_reportConnectionErrors c p)) = sri_on_file sid p"
  by (simp add: sri_on_file_def report_state)

lemma sri_on_file_remote: "remote_call ev p = (sent, q) \<Longrightarrow> sri_on_file sid q = sri_on_file sid p"
  using remote_frame [of ev p sent q] by (simp add: sri_on_file_def)

lemma sri_on_file_stats [simp]: "sri_on_file sid (p\<lparr>op_stats := s\<rparr>) = sri_on_file sid p"
  by (simp add: sri_on_file_def)

lemma push_sri_keeps_file [simp]: "sri_on_file sid (push_sri_to H c p) = sri_on_file sid p"
  by (auto simp: push_sri_to_def Let_def sri_on_file_remote split: prod.split)

lemma push_sris_keep_file [simp]: "sri_on_file sid (fold (push_sri_to H) cids p) = sri_on_file sid p"
  by (induction cids arbitrary: p) auto

lemma send_packet_keeps_file [simp]:
  "sri_on_file sid (send_packet_to now data T EOS s c p) = sri_on_file sid p"
  by (auto simp: send_packet_to_def Let_def sri_on_file_remote split: prod.split outcome.split)

lemma push_packet_keeps_file [simp]:
  "sri_on_file sid (push_packet_to now data T EOS s c p) = sri_on_file sid p"
  by (auto simp: push_packet_to_def Let_def sri_on_file_remote split: prod.split option.split)

lemma push_packets_keep_file [simp]:
  "sri_on_file sid (fold (push_packet_to now data T EOS s) cids p) = sri_on_file sid p"
  by (induction cids arbitrary: p) auto

lemma pushSRI_streams:
  assumes "OutPort_pushSRI H p = Returned q"
  shows "dget (op_streams q) (streamID H) \<noteq> None" "op_locked q = op_locked p"
    and "dget (op_sriDict q) (streamID H) \<noteq> None"
proof -
  let ?p = "put_sri H p"
  let ?p' = "if dget (op_streams ?p) (streamID H) = None then snd (OutPort_newStream True H ?p) else ?p"
  have q: "q = fold (push_sri_to H) (dkeys (op_connections ?p')) ?p'"
    using assms by (auto simp: OutPort_pushSRI_def Let_def split: if_splits)
  have s: "same_setup ?p' q" unfolding q by (rule same_setup_fold) (rule push_sri_setup)
  then show "dget (op_streams q) (streamID H) \<noteq> None" "op_locked q = op_locked p"
    by (auto simp: same_setup_def OutPort_newStream_def put_sri_def split: if_splits)
  show "dget (op_sriDict q) (streamID H) \<noteq> None"
    using push_sris_keep_file [of "streamID H" H "dkeys (op_connections ?p')" ?p']
    unfolding q by (auto simp: OutPort_newStream_def put_sri_def sri_on_file_def split: if_splits)
qed

lemma outport_ok_known:
  "outport_ok p \<Longrightarrow> dget (op_sriDict p) sid \<noteq> None \<Longrightarrow> dget (op_streams p) sid \<noteq> None"
  by (auto simp: outport_ok_def wired_def)

lemma outport_ok_pop_stream:
  "outport_ok p \<Longrightarrow> dget (op_sriDict p) sid = None \<Longrightarrow>
   outport_ok (p\<lparr>op_streams := dpop sid (op_streams p)\<rparr>)"
  by (auto simp: outport_ok_def wired_def)

lemma sendAll_folds_setup:
  "same_setup p (fold (\<lambda>(d, t, e). OutPort_sendAll now d (Some t) e sid) parts p)"
  by (rule same_setup_fold) (auto split: prod.split)

lemma sendPackets_setup: "OutPort_sendPackets now data T EOS sid p = Returned q \<Longrightarrow> same_setup p q"
  using sendAll_setup sendAll_folds_setup
  by (auto simp: OutPort_sendPackets_def OutPort_numericPush_def Let_def split: if_splits option.splits)

text \<open>Before anything is sent, \<open>pushPacket\<close> makes sure that the stream has an SRI.\<close>

lemma ensure_sri:
  assumes "outport_ok p" "\<not> op_locked p"
  shows "\<exists>q. (if dget (op_sriDict p) sid = None then OutPort_pushSRI (sri_default sid) p else Returned p)
      = Returned q \<and> outport_ok q \<and> \<not> op_locked q \<and> dget (op_sriDict q) sid \<noteq> None"
proof (cases "dget (op_sriDict p) sid = None")
  case True
  obtain q where q: "OutPort_pushSRI (sri_default sid) p = Returned q"
    using assms(2) by (simp add: OutPort_pushSRI_def Let_def)
  have "streamID (sri_default sid) = sid" by (simp add: sri_default_def)
  with q True pushSRI_ok [OF assms(1) q] pushSRI_streams [OF q] assms(2) show ?thesis by simp
qed (use assms in auto)

lemma pushPacket_ok:
  assumes "outport_ok p" "OutPort_pushPacket now data T EOS sid p = Returned q"
  shows "outport_ok q"
proof -
  obtain p1 where p1: "(if dget (op_sriDict p) sid = None then OutPort_pushSRI (sri_default sid) p
      else Returned p) = Returned p1" "outport_ok p1"
    using assms pushSRI_ok [OF assms(1)]
    by (auto simp: OutPort_pushPacket_def outcome_simps split: if_splits)
  obtain p2 where p2: "OutPort_sendPackets now data T EOS sid p1 = Returned p2"
    and q: "q = p2 \<or> EOS \<and> q = p2\<lparr>op_streams := dpop sid (op_streams p2)\<rparr>"
    using assms(2) p1 by (auto simp: OutPort_pushPacket_def outcome_simps split: if_splits)
  have "outport_ok p2" using sendPackets_ok [OF p1(2) p2] .
  with q p2 show ?thesis using sendPackets_eos_pops outport_ok_pop_stream by fastforce
qed


lemma connectPort_ok:
  assumes "outport_ok p" "OutPort_connectPort obj is_a cid p = Returned q"
  shows "outport_ok q"
proof -
  obtain ref where new: "dget (op_connections p) cid = None"
    and q: "q = p\<lparr>op_connections := dput cid ref (op_connections p),
      op_stats := OutStats_add cid (op_stats p), op_wire := op_wire p @ [WConnect cid]\<rparr>"
    using assms(2) by (auto simp: OutPort_connectPort_def split: option.splits if_splits)
  show ?thesis
    using assms(1) new unfolding outport_ok_def q
    by (fastforce simp: wired_def data_announced_snoc event_fits_def)
qed

lemma dget_forget_connection:
  "dget (map (\<lambda>(s, H, cs). (s, H, removeAll c cs)) d) sid =
   map_option (\<lambda>(H, cs). (H, removeAll c cs)) (dget d sid)"
  by (induction d) auto

lemma dkeys_forget_connection:
  "dkeys (map (\<lambda>(s, H, cs). (s, H, removeAll c cs)) d) = dkeys d"
  by (auto simp: dkeys_def split: prod.split)

lemma send_last_wired:
  assumes "wired ({cid} \<times> UNIV) p"
  shows "wired ({cid} \<times> UNIV) (send_last cid sid p)"
proof -
  obtain sent q where q: "remote_call (WPacket cid [] (Some timestamp_notSet) True sid) p = (sent, q)"
    by fastforce
  have "wired ({cid} \<times> UNIV) q"
    by (rule wired_remote [OF assms _ _ q]) (auto simp: event_fits_def)
  then show ?thesis using assms by (simp add: send_last_def q)
qed

lemma send_lasts_wired:
  "wired ({cid} \<times> UNIV) p \<Longrightarrow> wired ({cid} \<times> UNIV) (fold (send_last cid) sids p)"
  by (induction sids arbitrary: p) (auto intro: send_last_wired)

lemma disconnectPort_ok:
  assumes "outport_ok p" "OutPort_disconnectPort cid p = Returned q"
  shows "outport_ok q"
proof -
  let ?p = "p\<lparr>op_connections := dpop cid (op_connections p)\<rparr>"
  let ?r = "fold (send_last cid) (dkeys (op_sriDict p)) ?p"
  have q: "q = ?r\<lparr>op_stats := OutStats_remove cid (op_stats ?r),
      op_sriDict := map (\<lambda>(sid, H, cs). (sid, H, removeAll cid cs)) (op_sriDict ?r),
      op_wire := op_wire ?r @ [WDisconnect cid]\<rparr>"
    using assms(2) by (auto simp: OutPort_disconnectPort_def Let_def split: if_splits)
  have "wired ({cid} \<times> UNIV) ?p" using assms(1) by (auto simp: outport_ok_def wired_def)
  then have r: "wired ({cid} \<times> UNIV) ?r" by (rule send_lasts_wired)
  then show ?thesis
    unfolding outport_ok_def q
    by (auto simp: wired_def data_announced_snoc event_fits_def dget_forget_connection
        dkeys_forget_connection dict_ok_def)
qed

text \<open>The operations of an output port, in any order and with any pattern of failing calls.\<close>

inductive outport_step :: "'a outport \<Rightarrow> 'a outport \<Rightarrow> bool" where
  st_connect: "OutPort_connectPort obj is_a cid p = Returned q \<Longrightarrow> outport_step p q"
| st_disconnect: "OutPort_disconnectPort cid p = Returned q \<Longrightarrow> outport_step p q"
| st_sri: "OutPort_pushSRI H p = Returned q \<Longrightarrow> outport_step p q"
| st_packet: "OutPort_pushPacket now data T EOS sid p = Returned q \<Longrightarrow> outport_step p q"
| st_filter: "OutPort_updateConnectionFilter t p = Returned q \<Longrightarrow> outport_step p q"
| st_stats: "outport_step p (OutPort_enableStats b p)"
| st_report: "outport_step p (snd (OutPort_reportConnectionErrors cid p))"

lemma outport_step_ok: "outport_step p q \<Longrightarrow> outport_ok p \<Longrightarrow> outport_ok q"
proof (induction rule: outport_step.induct)
  case (st_report p cid)
  then show ?case by (simp add: outport_ok_def wired_report)
next
  case (st_filter t p q)
  then show ?case by (auto simp: OutPort_updateConnectionFilter_def split: if_splits)
next
  case (st_stats p b)
  then show ?case by (simp add: OutPort_enableStats_def outport_ok_def wired_def)
qed (auto intro: connectPort_ok disconnectPort_ok pushSRI_ok pushPacket_ok)

lemma outport_reachable_ok: "outport_step\<^sup>*\<^sup>* p q \<Longrightarrow> outport_ok p \<Longrightarrow> outport_ok q"
  by (induction rule: rtranclp_induct) (auto intro: outport_step_ok)

text \<open>
  C3: an output port never sends data on a stream the receiver does not know. However
  connections come and go, SRIs and packets are pushed, the filter table is changed and remote
  calls fail: in every state reachable from a new port, each packet with data on the wire of a
  connection is preceded there by a pushSRI for its stream with no end-of-stream for it and no
  end of the connection in between; the connections on file for a stream are exactly such; and
  every SRI on file has its own stream ID and a stream object.
\<close>

theorem data_follows_its_sri:
  assumes "outport_step\<^sup>*\<^sup>* (OutPort_init name calcsize bits numeric faults) p"
  shows "(op_wire p = xs @ WPacket cid d T e sid # ys \<longrightarrow> d \<noteq> [] \<longrightarrow> open_on cid sid xs) \<and>
    (dget (op_sriDict p) sid = Some (H, cs) \<longrightarrow> streamID H = sid \<and> dget (op_streams p) sid \<noteq> None \<and>
      (\<forall>c\<in>set cs. open_on c sid (op_wire p) \<and> dget (op_connections p) c \<noteq> None)) \<and>
    dict_ok (op_connections p) \<and> dict_ok (op_sriDict p) \<and> outstats_ok (op_stats p)"
  using outport_reachable_ok [OF assms outport_ok_init]
  by (auto simp: outport_ok_def wired_def data_announced_def)

text \<open>A small run: one connection, whose first call fails.\<close>

definition sample_port :: "int outport" where
  "sample_port = OutPort_init ''out'' 2 0 True [False, True]"

definition sample_connected :: "int outport" where
  "sample_connected = sample_port\<lparr>op_connections := [(''c'', 7)],
     op_stats := OutStats_add ''c'' (op_stats sample_port), op_wire := [WConnect ''c'']\<rparr>"

definition sample_announced :: "int outport" where
  "sample_announced = sample_connected\<lparr>op_sriDict := [(''A'', sri_default ''A'', [''c''])],
     op_streams := [(''A'', 0)], op_heap := [OutputStream_init True (sri_default ''A'')],
     op_faults := [True], op_wire := [WConnect ''c'', WSri ''c'' (sri_default ''A'')]\<rparr>"

lemmas sample_defs = sample_announced_def sample_connected_def sample_port_def OutPort_init_def
  OutStats_init_def OutStats_add_def max_samples_per_push_def MAX_TRANSFER_BYTES_def

lemma sample_connect: "OutPort_connectPort (Some 7) (Some True) ''c'' sample_port = Returned sample_connected"
  by (simp add: OutPort_connectPort_def sample_defs)

lemma sample_announce: "OutPort_pushSRI (sri_default ''A'') sample_connected = Returned sample_announced"
  by (simp add: OutPort_pushSRI_def OutPort_newStream_def put_sri_def push_sri_to_def remote_call_def dkeys_def
      OutPort_isStreamRoutedToConnection_def add_sri_connection_def sri_default_def sample_defs)

lemma sample_reachable: "outport_step\<^sup>*\<^sup>* (OutPort_init ''out'' 2 0 True [False, True]) sample_announced"
  using st_connect [OF sample_connect] st_sri [OF sample_announce]
  unfolding sample_port_def by (meson converse_rtranclp_into_rtranclp rtranclp.rtrancl_refl)

theorem data_follows_its_sri_witness:
  "open_on ''c'' ''A'' (op_wire sample_announced) \<and> dget (op_streams sample_announced) ''A'' \<noteq> None"
proof -
  have "dget (op_sriDict sample_announced) ''A'' = Some (sri_default ''A'', [''c''])"
    by (simp add: sample_announced_def)
  with data_follows_its_sri [OF sample_reachable, of _ _ _ _ _ "''A''"] show ?thesis by simp
qed

section \<open>Who gets what\<close>

definition wire_to :: "string \<Rightarrow> 'a wire_event list \<Rightarrow> 'a wire_event list" where
  "wire_to cid w = filter (\<lambda>e. wire_cid e = cid) w"

lemma wire_to_append [simp]: "wire_to cid (v @ w) = wire_to cid v @ wire_to cid w"
  by (simp add: wire_to_def)

lemma wire_to_Nil [simp]: "wire_to cid [] = []"
  by (simp add: wire_to_def)

abbreviation routed :: "string \<Rightarrow> string \<Rightarrow> 'a outport \<Rightarrow> bool" where
  "routed sid cid p \<equiv> OutPort_isStreamRoutedToConnection sid cid p"

lemma same_setup_routed: "same_setup p q \<Longrightarrow> routed sid cid q = routed sid cid p"
  by (simp add: same_setup_def OutPort_isStreamRoutedToConnection_def Let_def)

text \<open>What one connection gets from one packet when no call fails.\<close>

definition packet_events ::
    "sri \<Rightarrow> string list \<Rightarrow> 'a list \<Rightarrow> utctime option \<Rightarrow> bool \<Rightarrow> string \<Rightarrow> string \<Rightarrow> 'a wire_event list" where
  "packet_events H cs data T EOS sid cid =
     (if cid \<in> set cs then [WPacket cid data T EOS sid]
      else if data = [] then [] else [WSri cid H, WPacket cid data T EOS sid])"

lemma wire_to_packet_events [simp]:
  "wire_to c (packet_events H cs data T EOS sid cid) =
     (if c = cid then packet_events H cs data T EOS sid cid else [])"
  by (auto simp: packet_events_def wire_to_def)

lemma send_packet_clean:
  assumes "outstats_ok (op_stats p)" "op_faults p = []"
  shows "\<exists>s. outstats_ok s \<and> send_packet_to now data T EOS sid cid p =
    p\<lparr>op_wire := op_wire p @ [WPacket cid data T EOS sid], op_stats := s\<rparr>"
  using OutStats_update_ok [OF assms(1), of now "int (length data)" 0 EOS sid cid] assms
  by (auto simp: send_packet_to_def remote_call_def)

definition clean :: "string \<Rightarrow> sri \<Rightarrow> string set \<Rightarrow> 'a outport \<Rightarrow> bool" where
  "clean sid H C p \<longleftrightarrow> outstats_ok (op_stats p) \<and> op_faults p = [] \<and> dict_ok (op_connections p) \<and>
     (\<exists>cs. dget (op_sriDict p) sid = Some (H, cs) \<and> set cs = C)"

lemma push_packet_clean:
  assumes "clean sid H (set cs) p"
  shows "op_wire (push_packet_to now data T EOS sid cid p) =
      op_wire p @ (if routed sid cid p then packet_events H cs data T EOS sid cid else [])"
    and "clean sid H (if routed sid cid p \<and> data \<noteq> [] then insert cid (set cs) else set cs)
      (push_packet_to now data T EOS sid cid p)"
proof -
  obtain cs' where p: "outstats_ok (op_stats p)" "op_faults p = []" "dict_ok (op_connections p)"
    "dget (op_sriDict p) sid = Some (H, cs')" "set cs' = set cs"
    using assms by (auto simp: clean_def)
  let ?w = "p\<lparr>op_wire := op_wire p @ [WSri cid H]\<rparr>"
  have a: "remote_call (WSri cid H) p = (True, ?w)" using p by (simp add: remote_call_def)
  let ?a = "add_sri_connection sid cid ?w"
  have aa: "?a = ?w\<lparr>op_sriDict := dput sid (H, List.insert cid cs') (op_sriDict p)\<rparr>"
    using p by (simp add: add_sri_connection_def)
  have fa: "op_wire ?a = op_wire p @ [WSri cid H]" "op_faults ?a = []" "op_stats ?a = op_stats p"
    "op_connections ?a = op_connections p" "dget (op_sriDict ?a) sid = Some (H, List.insert cid cs')"
    using p by (simp_all add: aa)
  obtain s where s: "outstats_ok s" "send_packet_to now data T EOS sid cid p =
      p\<lparr>op_wire := op_wire p @ [WPacket cid data T EOS sid], op_stats := s\<rparr>"
    using send_packet_clean [OF p(1,2)] by blast
  obtain s' where s': "outstats_ok s'" "send_packet_to now data T EOS sid cid ?a =
      ?a\<lparr>op_wire := op_wire ?a @ [WPacket cid data T EOS sid], op_stats := s'\<rparr>"
    using send_packet_clean [of ?a now data T EOS sid cid] p(1) fa by auto
  show "op_wire (push_packet_to now data T EOS sid cid p) =
      op_wire p @ (if routed sid cid p then packet_events H cs data T EOS sid cid else [])"
    using p by (auto simp: push_packet_to_def packet_events_def a s s' fa)
  show "clean sid H (if routed sid cid p \<and> data \<noteq> [] then insert cid (set cs) else set cs)
      (push_packet_to now data T EOS sid cid p)"
    using p s(1) s'(1) by (auto simp: push_packet_to_def clean_def a s(2) s'(2) fa insert_absorb)
qed


lemma push_packets_clean:
  assumes "clean sid H C p" "distinct cids"
  shows "\<forall>cid. wire_to cid (op_wire (fold (push_packet_to now data T EOS sid) cids p)) =
      wire_to cid (op_wire p) @ (if cid \<in> set cids \<and> routed sid cid p
        then packet_events H (if cid \<in> C then [cid] else []) data T EOS sid cid else [])"
    and "clean sid H (C \<union> {cid \<in> set cids. routed sid cid p \<and> data \<noteq> []})
      (fold (push_packet_to now data T EOS sid) cids p)"
proof -
  have "(\<forall>cid. wire_to cid (op_wire (fold (push_packet_to now data T EOS sid) cids p)) =
      wire_to cid (op_wire p) @ (if cid \<in> set cids \<and> routed sid cid p
        then packet_events H (if cid \<in> C then [cid] else []) data T EOS sid cid else [])) \<and>
    clean sid H (C \<union> {cid \<in> set cids. routed sid cid p \<and> data \<noteq> []})
      (fold (push_packet_to now data T EOS sid) cids p)"
    using assms
  proof (induction cids arbitrary: C p)
    case (Cons c cids)
    obtain cs where cs: "set cs = C" using Cons.prems(1) by (auto simp: clean_def)
    let ?q = "push_packet_to now data T EOS sid c p"
    have w: "op_wire ?q = op_wire p @ (if routed sid c p then packet_events H cs data T EOS sid c else [])"
      using push_packet_clean(1) [of sid H cs p] Cons.prems(1) cs by auto
    have q: "clean sid H (if routed sid c p \<and> data \<noteq> [] then insert c C else C) ?q"
      using push_packet_clean(2) [where cs = cs and p = p and cid = c] Cons.prems(1) unfolding cs by blast
    have r: "routed sid cid ?q = routed sid cid p" for cid
      using same_setup_routed [OF push_packet_setup] .
    have e: "packet_events H cs data T EOS sid c =
        packet_events H (if c \<in> C then [c] else []) data T EOS sid c"
      by (simp add: packet_events_def cs)
    have "(if routed sid c p \<and> data \<noteq> [] then insert c C else C) \<union>
        {cid \<in> set cids. routed sid cid p \<and> data \<noteq> []} =
        C \<union> {cid \<in> set (c # cids). routed sid cid p \<and> data \<noteq> []}" by auto
    then show ?case
      using Cons.IH [OF q] Cons.prems(2) w by (auto simp: r e)
  qed simp
  then show "\<forall>cid. wire_to cid (op_wire (fold (push_packet_to now data T EOS sid) cids p)) =
      wire_to cid (op_wire p) @ (if cid \<in> set cids \<and> routed sid cid p
        then packet_events H (if cid \<in> C then [cid] else []) data T EOS sid cid else [])"
    and "clean sid H (C \<union> {cid \<in> set cids. routed sid cid p \<and> data \<noteq> []})
      (fold (push_packet_to now data T EOS sid) cids p)" by blast+
qed

text \<open>The packets of a run of sends to one connection, the SRI first if it is not known there.\<close>

definition parts_events ::
    "sri \<Rightarrow> bool \<Rightarrow> ('a list \<times> utctime option \<times> bool) list \<Rightarrow> string \<Rightarrow> string \<Rightarrow> 'a wire_event list" where
  "parts_events H known parts sid cid =
     (if parts = [] then [] else if known then [] else [WSri cid H]) @
     map (\<lambda>(d, t, e). WPacket cid d t e sid) parts"

lemma sendAll_wire: "op_wire (OutPort_sendAll now data T EOS sid p) =
    op_wire (fold (push_packet_to now data T EOS sid) (dkeys (op_connections p)) p)"
  by (cases EOS) (simp_all add: OutPort_sendAll_def Let_def)

lemma sendAll_parts:
  assumes "clean sid H C p" "\<forall>(d, t, e)\<in>set parts. d \<noteq> []" "\<forall>(d, t, e)\<in>set (butlast parts). \<not> e"
  shows "wire_to cid (op_wire (fold (\<lambda>(d, t, e). OutPort_sendAll now d t e sid) parts p)) =
    wire_to cid (op_wire p) @ (if cid \<in> set (dkeys (op_connections p)) \<and> routed sid cid p
      then parts_events H (cid \<in> C) parts sid cid else [])"
  using assms
proof (induction parts arbitrary: C p)
  case (Cons part parts)
  obtain d t e where part: "part = (d, t, e)" by (cases part) auto
  let ?f = "fold (push_packet_to now d t e sid) (dkeys (op_connections p)) p"
  have dist: "distinct (dkeys (op_connections p))" and d: "d \<noteq> []"
    using Cons.prems part by (auto simp: clean_def dict_ok_def)
  note one = push_packets_clean [OF Cons.prems(1) dist, where now = now and data = d and T = t and EOS = e]
  have w: "wire_to cid (op_wire (OutPort_sendAll now d t e sid p)) = wire_to cid (op_wire p) @
      (if cid \<in> set (dkeys (op_connections p)) \<and> routed sid cid p
       then packet_events H (if cid \<in> C then [cid] else []) d t e sid cid else [])"
    using one(1) by (simp only: sendAll_wire)
  show ?case
  proof (cases "parts = []")
    case True
    then show ?thesis using w d part by (auto simp: parts_events_def packet_events_def)
  next
    case False
    then have e: "\<not> e" and rest: "\<forall>(d, t, e)\<in>set parts. d \<noteq> []" "\<forall>(d, t, e)\<in>set (butlast parts). \<not> e"
      using Cons.prems part by auto
    let ?q = "OutPort_sendAll now d t e sid p"
    have q: "?q = ?f" using e by (simp add: OutPort_sendAll_def Let_def)
    have s: "same_setup p ?q" by (rule sendAll_setup)
    have "clean sid H (C \<union> {cid \<in> set (dkeys (op_connections p)). routed sid cid p \<and> d \<noteq> []}) ?q"
      using one(2) q by simp
    from Cons.IH [OF this rest] s same_setup_routed [OF s]
    show ?thesis using w d False
      by (auto simp: part parts_events_def packet_events_def same_setup_def)
  qed
qed (simp add: parts_events_def)


section \<open>Splitting by the transfer limit\<close>

lemma frame_size_pos [simp]: "0 < frame_size H"
  by (simp add: frame_size_def)

lemma subpackets_Nil [simp]: "subpackets n item xd [] T EOS = []"
  by (simp add: subpackets.simps)

lemma subpackets_step:
  assumes "0 < n" "data \<noteq> []"
  shows "subpackets n item xd data T EOS = (take n data, T, drop n data = [] \<and> EOS) #
    subpackets n item xd (drop n data) (if tcstatus T = TCS_VALID
      then timestamp_add T (of_nat (length (take n data) div item) * xd) else T) EOS"
  using assms by (subst subpackets.simps) (simp add: Let_def)

lemma subpackets_concat:
  "0 < n \<Longrightarrow> concat (map fst (subpackets n item xd data T EOS)) = data"
proof (induction n item xd data T EOS rule: subpackets.induct)
  case (1 n item xd data T EOS)
  then show ?case by (cases "data = []") (auto simp: subpackets_step)
qed

lemma subpackets_sizes:
  "0 < n \<Longrightarrow> (d, t, e) \<in> set (subpackets n item xd data T EOS) \<Longrightarrow> d \<noteq> [] \<and> length d \<le> n"
proof (induction n item xd data T EOS rule: subpackets.induct)
  case (1 n item xd data T EOS)
  then show ?case by (cases "data = []") (auto simp: subpackets_step)
qed

lemma subpackets_full:
  "0 < n \<Longrightarrow> (d, t, e) \<in> set (butlast (subpackets n item xd data T EOS)) \<Longrightarrow> length d = n \<and> \<not> e"
proof (induction n item xd data T EOS rule: subpackets.induct)
  case (1 n item xd data T EOS)
  show ?case
  proof (cases "data = [] \<or> drop n data = []")
    case True
    then show ?thesis using "1.prems" by (cases "data = []") (auto simp: subpackets_step)
  next
    case False
    then have ne: "data \<noteq> []" "drop n data \<noteq> []" by auto
    have "subpackets n item xd (drop n data) (if tcstatus T = TCS_VALID
        then timestamp_add T (of_nat (length (take n data) div item) * xd) else T) EOS \<noteq> []"
      using subpackets_ne "1.prems"(1) ne(2) by blast
    then show ?thesis using 1 ne by (auto simp: subpackets_step)
  qed
qed

text \<open>Each sub-packet is stamped with the instant of its first sample.\<close>

lemma subpackets_times:
  assumes "0 < n" "tcstatus T = TCS_VALID" "i < length (subpackets n item xd data T EOS)"
  shows "utc_total (fst (snd (subpackets n item xd data T EOS ! i))) =
    utc_total T + of_nat (i * (n div item)) * xd"
  using assms
proof (induction n item xd data T EOS arbitrary: i rule: subpackets.induct)
  case (1 n item xd data T EOS)
  have ne: "data \<noteq> []" using "1.prems" by auto
  show ?case
  proof (cases i)
    case 0
    then show ?thesis using "1.prems"(1) ne by (simp add: subpackets_step)
  next
    case (Suc j)
    let ?T = "timestamp_add T (of_nat (length (take n data) div item) * xd)"
    let ?r = "subpackets n item xd (drop n data) ?T EOS"
    have s: "subpackets n item xd data T EOS = (take n data, T, drop n data = [] \<and> EOS) # ?r"
      using "1.prems" ne by (simp add: subpackets_step)
    then have j: "j < length ?r" using "1.prems"(3) Suc by simp
    then have l: "length (take n data) = n" by (cases "drop n data = []") auto
    have "tcstatus ?T = TCS_VALID" using "1.prems"(2) by simp
    then have "utc_total (fst (snd (?r ! j))) = utc_total ?T + of_nat (j * (n div item)) * xd"
      using "1.IH" "1.prems" ne j by (simp add: Let_def)
    then show ?thesis using s Suc l by (simp add: algebra_simps)
  qed
qed


lemma full_prefix:
  assumes "\<forall>(d, t, e)\<in>set (butlast parts). length d = n \<and> \<not> e" "i < length parts"
  shows "length (concat (map fst (take i parts))) = i * n"
proof -
  have "take i parts = take i (butlast parts)" using assms(2) by (simp add: take_butlast)
  then have "\<forall>x\<in>set (take i parts). length (fst x) = n"
    using assms(1) by (fastforce dest: in_set_takeD)
  moreover have "length (concat (map fst ys)) = length ys * n" if "\<forall>x\<in>set ys. length (fst x) = n"
    for ys :: "('a list \<times> 'b \<times> bool) list"
    using that by (induction ys) auto
  ultimately show ?thesis using assms(2) by simp
qed

lemma pushPacket_known:
  assumes "outport_ok p" "\<not> op_locked p" "dget (op_sriDict p) sid \<noteq> None"
    "OutPort_sendPackets now data T EOS sid p = Returned q"
  shows "\<exists>q'. OutPort_pushPacket now data T EOS sid p = Returned q' \<and> op_wire q' = op_wire q \<and>
    dget (op_streams q') sid = (if EOS then None else dget (op_streams p) sid)"
proof -
  have s: "op_streams q = op_streams p" using sendPackets_setup [OF assms(4)] by (simp add: same_setup_def)
  have k: "dget (op_streams p) sid \<noteq> None" by (rule outport_ok_known [OF assms(1,3)])
  show ?thesis using assms(2,3,4) k s
    by (cases "dget (op_streams p) sid") (auto simp: OutPort_pushPacket_def)
qed

lemma outport_ok_clean:
  "outport_ok p \<Longrightarrow> op_faults p = [] \<Longrightarrow> dget (op_sriDict p) sid = Some (H, cs) \<Longrightarrow> clean sid H (set cs) p"
  by (auto simp: outport_ok_def wired_def clean_def)

lemma fold_Some_times:
  "fold (\<lambda>(d, t, e). OutPort_sendAll now d (Some t) e sid) parts p =
   fold (\<lambda>(d, t, e). OutPort_sendAll now d t e sid) (map (\<lambda>(d, t, e). (d, Some t, e)) parts) p"
  by (induction parts arbitrary: p) auto

lemma small_packet_wire:
  assumes "outport_ok p" "\<not> op_locked p" "op_faults p = []" "dget (op_sriDict p) sid = Some (H, cs)"
    and "\<not> op_numeric p \<or> length data \<le> op_maxSamples p"
  shows "\<exists>q. OutPort_pushPacket now data T EOS sid p = Returned q \<and>
    (\<forall>cid. wire_to cid (op_wire q) = wire_to cid (op_wire p) @
      (if dget (op_connections p) cid = None \<or> \<not> routed sid cid p then []
       else if cid \<in> set cs then [WPacket cid data T EOS sid]
       else if data = [] then [] else [WSri cid H, WPacket cid data T EOS sid])) \<and>
    dget (op_streams q) sid = (if EOS then None else dget (op_streams p) sid)"
proof -
  let ?q = "OutPort_sendAll now data T EOS sid p"
  have c: "clean sid H (set cs) p" by (rule outport_ok_clean [OF assms(1,3,4)])
  then have dist: "distinct (dkeys (op_connections p))" by (simp add: clean_def dict_ok_def)
  have send: "OutPort_sendPackets now data T EOS sid p = Returned ?q"
    using assms(5) by (auto simp: OutPort_sendPackets_def OutPort_numericPush_def)
  have w: "\<forall>cid. wire_to cid (op_wire ?q) = wire_to cid (op_wire p) @
      (if dget (op_connections p) cid = None \<or> \<not> routed sid cid p then []
       else if cid \<in> set cs then [WPacket cid data T EOS sid]
       else if data = [] then [] else [WSri cid H, WPacket cid data T EOS sid])"
    using push_packets_clean(1) [OF c dist, where data = data and now = now and T = T and EOS = EOS]
    unfolding sendAll_wire by (simp add: packet_events_def dget_None_iff)
  obtain q where q: "OutPort_pushPacket now data T EOS sid p = Returned q" "op_wire q = op_wire ?q"
    "dget (op_streams q) sid = (if EOS then None else dget (op_streams p) sid)"
    using pushPacket_known [OF assms(1,2) _ send] assms(4) by auto
  then show ?thesis using w unfolding q(2) [symmetric] by blast
qed

lemma large_packet_wire:
  assumes "outport_ok p" "\<not> op_locked p" "op_faults p = []" "dget (op_sriDict p) sid = Some (H, cs)"
    and "op_numeric p" "op_maxSamples p < length data" "frame_size H \<le> op_maxSamples p"
  shows "\<exists>q parts. OutPort_pushPacket now data (Some T) EOS sid p = Returned q \<and>
    (\<forall>cid. wire_to cid (op_wire q) = wire_to cid (op_wire p) @
      (if dget (op_connections p) cid = None \<or> \<not> routed sid cid p then []
       else (if cid \<in> set cs then [] else [WSri cid H]) @
         map (\<lambda>(d, t, e). WPacket cid d (Some t) e sid) parts)) \<and>
    concat (map fst parts) = data \<and>
    (\<forall>(d, t, e)\<in>set parts. d \<noteq> [] \<and> length d \<le> op_maxSamples p) \<and>
    (\<forall>(d, t, e)\<in>set (butlast parts). frame_size H dvd length d \<and> \<not> e) \<and>
    snd (snd (last parts)) = EOS \<and>
    (tcstatus T = TCS_VALID \<longrightarrow> (\<forall>i<length parts. utc_total (fst (snd (parts ! i))) =
      utc_total T + of_nat (length (concat (map fst (take i parts))) div item_size H) * xdelta H))"
proof -
  define n where "n = op_maxSamples p div frame_size H * frame_size H"
  define parts where "parts = subpackets n (item_size H) (xdelta H) data T EOS"
  have whole: "0 < op_maxSamples p div frame_size H"
    using assms(7) by (simp add: div_greater_zero_iff)
  then have n: "0 < n" "n \<le> op_maxSamples p" "frame_size H dvd n" unfolding n_def by auto
  have "data \<noteq> []" using assms(6) by auto
  then have ne: "data \<noteq> []" "parts \<noteq> []"
    using subpackets_ne [OF n(1)] by (simp_all add: parts_def)
  have dvd: "item_size H dvd n" using n(3) by (auto simp: frame_size_def elim: dvd_mult_left)
  have sizes: "\<forall>(d, t, e)\<in>set parts. d \<noteq> [] \<and> length d \<le> n"
    using subpackets_sizes [OF n(1)] by (fastforce simp: parts_def)
  have full: "\<forall>(d, t, e)\<in>set (butlast parts). length d = n \<and> \<not> e"
    using subpackets_full [OF n(1)] by (fastforce simp: parts_def)
  have off: "length (concat (map fst (take i parts))) = i * n" if "i < length parts" for i
    using full_prefix [OF full that] .
  let ?ps = "map (\<lambda>(d, t, e). (d, Some t, e)) parts"
  let ?q = "fold (\<lambda>(d, t, e). OutPort_sendAll now d t e sid) ?ps p"
  have send: "OutPort_sendPackets now data (Some T) EOS sid p = Returned ?q"
    using assms(4-7) n(1) whole
    by (simp add: OutPort_sendPackets_def OutPort_numericPush_def Let_def n_def [symmetric] parts_def
        fold_Some_times)
  have "wire_to cid (op_wire ?q) = wire_to cid (op_wire p) @
      (if cid \<in> set (dkeys (op_connections p)) \<and> routed sid cid p
       then parts_events H (cid \<in> set cs) ?ps sid cid else [])" for cid
    by (rule sendAll_parts [OF outport_ok_clean [OF assms(1,3,4)]])
      (use sizes full in \<open>auto simp: map_butlast [symmetric]\<close>)
  then have w: "wire_to cid (op_wire ?q) = wire_to cid (op_wire p) @
      (if dget (op_connections p) cid = None \<or> \<not> routed sid cid p then []
       else (if cid \<in> set cs then [] else [WSri cid H]) @
         map (\<lambda>(d, t, e). WPacket cid d (Some t) e sid) parts)" for cid
    using ne(2) by (auto simp: dget_None_iff parts_events_def)
  obtain q where q: "OutPort_pushPacket now data (Some T) EOS sid p = Returned q" "op_wire q = op_wire ?q"
    using pushPacket_known [OF assms(1,2) _ send] assms(4) by auto
  show ?thesis
  proof (rule exI [of _ q], rule exI [of _ parts], intro conjI)
    show "OutPort_pushPacket now data (Some T) EOS sid p = Returned q" by (rule q(1))
    show "\<forall>cid. wire_to cid (op_wire q) = wire_to cid (op_wire p) @
      (if dget (op_connections p) cid = None \<or> \<not> routed sid cid p then []
       else (if cid \<in> set cs then [] else [WSri cid H]) @
         map (\<lambda>(d, t, e). WPacket cid d (Some t) e sid) parts)"
      unfolding q(2) using w by blast
    show "concat (map fst parts) = data" unfolding parts_def by (rule subpackets_concat [OF n(1)])
    show "\<forall>(d, t, e)\<in>set parts. d \<noteq> [] \<and> length d \<le> op_maxSamples p"
      using sizes n(2) by fastforce
    show "\<forall>(d, t, e)\<in>set (butlast parts). frame_size H dvd length d \<and> \<not> e"
      using full n(3) by auto
    show "snd (snd (last parts)) = EOS" unfolding parts_def by (rule subpackets_last_eos [OF n(1) ne(1)])
    show "tcstatus T = TCS_VALID \<longrightarrow> (\<forall>i<length parts. utc_total (fst (snd (parts ! i))) =
      utc_total T + of_nat (length (concat (map fst (take i parts))) div item_size H) * xdelta H)"
      using subpackets_times [OF n(1), of T _ "item_size H" "xdelta H" data EOS] dvd
      by (simp add: parts_def [symmetric] off div_mult_swap)
  qed
qed

text \<open>
  C19: a packet that fits into one transfer reaches exactly the connections the filter table
  routes it to. When no call fails, \<open>pushPacket\<close> returns, and the wire of each connection grows
  by the packet as it was given, preceded by the SRI on file if that connection does not know
  the stream; connections that are not routed get nothing, and a connection that never knew the
  stream gets nothing of a packet without data. The stream object goes with the end-of-stream.
\<close>

theorem packet_reaches_routed_connections:
  assumes "outport_ok p" "\<not> op_locked p" "op_faults p = []" "dget (op_sriDict p) sid = Some (H, cs)"
    and "\<not> op_numeric p \<or> length data \<le> op_maxSamples p"
  shows "\<exists>q. OutPort_pushPacket now data T EOS sid p = Returned q \<and>
    (\<forall>cid. wire_to cid (op_wire q) = wire_to cid (op_wire p) @
      (if dget (op_connections p) cid = None \<or> \<not> routed sid cid p then []
       else if cid \<in> set cs then [WPacket cid data T EOS sid]
       else if data = [] then [] else [WSri cid H, WPacket cid data T EOS sid])) \<and>
    dget (op_streams q) sid = (if EOS then None else dget (op_streams p) sid)"
  by (rule small_packet_wire [OF assms])

text \<open>
  A packet beyond the transfer limit is cut into sub-packets without loss. When no call
  fails, \<open>pushPacket\<close> of a numeric port returns, each routed connection gets the SRI if it does
  not know the stream and then the sub-packets in order, other connections get nothing; the
  sub-packets put together are the data, none is empty or longer than the limit, all but the
  last are whole frames and carry no end-of-stream, the last carries the one given, and each is
  stamped with the instant of its first sample.
\<close>

theorem large_packet_is_split:
  assumes "outport_ok p" "\<not> op_locked p" "op_faults p = []" "dget (op_sriDict p) sid = Some (H, cs)"
    and "op_numeric p" "op_maxSamples p < length data" "frame_size H \<le> op_maxSamples p"
  shows "\<exists>q parts. OutPort_pushPacket now data (Some T) EOS sid p = Returned q \<and>
    (\<forall>cid. wire_to cid (op_wire q) = wire_to cid (op_wire p) @
      (if dget (op_connections p) cid = None \<or> \<not> routed sid cid p then []
       else (if cid \<in> set cs then [] else [WSri cid H]) @
         map (\<lambda>(d, t, e). WPacket cid d (Some t) e sid) parts)) \<and>
    concat (map fst parts) = data \<and>
    (\<forall>(d, t, e)\<in>set parts. d \<noteq> [] \<and> length d \<le> op_maxSamples p) \<and>
    (\<forall>(d, t, e)\<in>set (butlast parts). frame_size H dvd length d \<and> \<not> e) \<and>
    snd (snd (last parts)) = EOS \<and>
    (tcstatus T = TCS_VALID \<longrightarrow> (\<forall>i<length parts. utc_total (fst (snd (parts ! i))) =
      utc_total T + of_nat (length (concat (map fst (take i parts))) div item_size H) * xdelta H))"
  by (rule large_packet_wire [OF assms])

definition sample_busy :: "int outport" where
  "sample_busy = sample_announced\<lparr>op_faults := [], op_maxSamples := 3\<rparr>"

lemma sample_busy_ok: "outport_ok sample_busy"
proof -
  have "outport_ok sample_announced"
    using outport_reachable_ok [OF sample_reachable outport_ok_init] .
  then show ?thesis by (simp add: sample_busy_def outport_ok_def wired_def)
qed

lemma sample_busy_facts:
  "\<not> op_locked sample_busy" "op_faults sample_busy = []"
  "dget (op_sriDict sample_busy) ''A'' = Some (sri_default ''A'', [''c''])"
  "op_numeric sample_busy" "op_maxSamples sample_busy = 3"
  by (simp_all add: sample_busy_def sample_defs)

theorem packet_reaches_routed_connections_witness:
  "\<exists>q. OutPort_pushPacket 9 [4, 5] None True ''A'' sample_busy = Returned q \<and>
     wire_to ''c'' (op_wire q) = wire_to ''c'' (op_wire sample_busy) @ [WPacket ''c'' [4, 5] None True ''A''] \<and>
     dget (op_streams q) ''A'' = None"
proof -
  have c: "routed ''A'' ''c'' sample_busy" "dget (op_connections sample_busy) ''c'' = Some 7"
    by (simp_all add: OutPort_isStreamRoutedToConnection_def sample_busy_def sample_defs)
  show ?thesis
    using packet_reaches_routed_connections [OF sample_busy_ok sample_busy_facts(1-3), of "[4, 5]" 9 None True]
    by (auto simp: sample_busy_facts c)
qed

theorem large_packet_is_split_witness:
  "\<exists>q (parts :: (int list \<times> utctime \<times> bool) list).
     OutPort_pushPacket 9 [1, 2, 3, 4, 5] (Some timestamp_notSet) True ''A'' sample_busy = Returned q \<and>
     concat (map fst parts) = [1, 2, 3, 4, 5::int] \<and> (\<forall>(d, t, e)\<in>set parts. d \<noteq> [] \<and> length d \<le> 3) \<and>
     snd (snd (last parts))"
proof -
  have a: "frame_size (sri_default ''A'') \<le> op_maxSamples sample_busy"
    by (simp add: frame_size_def item_size_def sri_default_def sample_busy_facts)
  have b: "op_maxSamples sample_busy < length [1, 2, 3, 4, 5::int]"
    by (simp add: sample_busy_facts)
  obtain q and parts :: "(int list \<times> utctime \<times> bool) list" where
    "OutPort_pushPacket 9 [1, 2, 3, 4, 5] (Some timestamp_notSet) True ''A'' sample_busy = Returned q"
    "concat (map fst parts) = [1, 2, 3, 4, 5::int]"
    "\<forall>(d, t, e)\<in>set parts. d \<noteq> [] \<and> length d \<le> op_maxSamples sample_busy"
    "snd (snd (last parts)) = True"
    using large_packet_is_split [OF sample_busy_ok sample_busy_facts(1-4) b a,
        where now = 9 and T = timestamp_notSet and EOS = True]
    by (elim exE conjE) (rule that)
  then show ?thesis unfolding sample_busy_facts(5) by blast
qed

end
