(* ===== verification/OutPortFaults.thy ===== *)
theory OutPortFaults
  imports OutPortDelivery
begin

text \<open>
  What an output port does when things go wrong: calls that fail, frames larger than a transfer,
  connections that end, operations that cannot succeed; and the transfer limit over whole runs.
\<close>

section \<open>Failing connections\<close>

text \<open>Only the routed connections of a send appear on the wire, with its SRI or its packet.\<close>

definition sends_only :: "string \<Rightarrow> ('a wire_event \<Rightarrow> bool) \<Rightarrow> 'a outport \<Rightarrow> 'a outport \<Rightarrow> bool" where
  "sends_only sid P p q \<longleftrightarrow> (\<exists>new. op_wire q = op_wire p @ new \<and>
     (\<forall>e\<in>set new. dget (op_connections p) (wire_cid e) \<noteq> None \<and> routed sid (wire_cid e) p \<and> P e))"

lemma sends_only_refl [simp]: "sends_only sid P p p"
  by (simp add: sends_only_def)

lemma sends_only_trans:
  assumes "sends_only sid P p q" "same_setup p q" "sends_only sid P q r"
  shows "sends_only sid P p r"
proof -
  have r: "routed sid c q = routed sid c p" "op_connections q = op_connections p" for c
    using assms(2) same_setup_routed [OF assms(2)] by (auto simp: same_setup_def)
  obtain v w where "op_wire q = op_wire p @ v" "op_wire r = op_wire q @ w"
    "\<forall>e\<in>set v. dget (op_connections p) (wire_cid e) \<noteq> None \<and> routed sid (wire_cid e) p \<and> P e"
    "\<forall>e\<in>set w. dget (op_connections p) (wire_cid e) \<noteq> None \<and> routed sid (wire_cid e) p \<and> P e"
    using assms(1,3) by (auto simp: sends_only_def r)
  then have "op_wire r = op_wire p @ (v @ w) \<and> (\<forall>e\<in>set (v @ w).
      dget (op_connections p) (wire_cid e) \<noteq> None \<and> routed sid (wire_cid e) p \<and> P e)" by auto
  then show ?thesis unfolding sends_only_def by blast
qed

lemma sends_only_mono: "sends_only sid P p q \<Longrightarrow> (\<And>e. P e \<Longrightarrow> Q e) \<Longrightarrow> sends_only sid Q p q"
  unfolding sends_only_def by blast

lemma remote_sends:
  assumes "remote_call ev p = (sent, q)" "dget (op_connections p) (wire_cid ev) \<noteq> None"
    "routed sid (wire_cid ev) p" "P ev"
  shows "sends_only sid P p q"
  using remote_frame [OF assms(1)] assms(2-4) by (auto simp: sends_only_def)

lemma sends_only_wire: "op_wire r = op_wire q \<Longrightarrow> sends_only sid P p r = sends_only sid P p q"
  by (simp add: sends_only_def)

lemma sends_only_same: "op_wire r = op_wire p \<Longrightarrow> sends_only sid P p r"
  by (simp add: sends_only_def)

lemma sends_only_report [simp]:
  "sends_only sid P p (snd (OutPort_reportConnectionErrors c q)) = sends_only sid P p q"
  by (simp add: sends_only_def report_state)

lemma sends_only_add_sri [simp]: "sends_only sid P p (add_sri_connection s c q) = sends_only sid P p q"
  by (simp add: sends_only_def add_sri_connection_def split: option.split)

lemma wire_of_report [simp]: "op_wire (snd (OutPort_reportConnectionErrors c p)) = op_wire p"
  by (simp add: report_state)

lemma wire_of_add_sri [simp]: "op_wire (add_sri_connection sid cid p) = op_wire p"
  by (simp add: add_sri_connection_def split: option.split)

text \<open>The events of one send: the SRI on file, or the packet.\<close>

definition send_event :: "sri option \<Rightarrow> string \<Rightarrow> 'a list \<Rightarrow> utctime option \<Rightarrow> bool \<Rightarrow> 'a wire_event \<Rightarrow> bool" where
  "send_event H sid data T EOS e \<longleftrightarrow>
     (\<exists>c. e = WPacket c data T EOS sid \<or> (\<exists>G. H = Some G \<and> e = WSri c G))"

lemma send_packet_sends:
  assumes "dget (op_connections p) cid \<noteq> None" "routed sid cid p"
  shows "sends_only sid (send_event H sid data T EOS) p (send_packet_to now data T EOS sid cid p)"
proof -
  obtain sent q where q: "remote_call (WPacket cid data T EOS sid) p = (sent, q)" by fastforce
  have "sends_only sid (send_event H sid data T EOS) p q"
    using remote_sends [OF q] assms by (simp add: send_event_def)
  moreover have "op_wire (send_packet_to now data T EOS sid cid p) = op_wire q"
    by (simp add: send_packet_to_def q split: outcome.split)
  ultimately show ?thesis using sends_only_wire by blast
qed

lemma push_packet_sends:
  assumes "dget (op_connections p) cid \<noteq> None"
  shows "sends_only sid (send_event (sri_on_file sid p) sid data T EOS) p
    (push_packet_to now data T EOS sid cid p)"
proof (cases "routed sid cid p \<and> dget (op_sriDict p) sid \<noteq> None")
  case False
  then show ?thesis
    by (cases "dget (op_sriDict p) sid") (auto simp: push_packet_to_def)
next
  case True
  then obtain H cs where H: "dget (op_sriDict p) sid = Some (H, cs)" and r: "routed sid cid p" by auto
  have f: "sri_on_file sid p = Some H" by (simp add: sri_on_file_def H)
  obtain sent q where q: "remote_call (WSri cid H) p = (sent, q)" by fastforce
  have s: "sends_only sid (send_event (Some H) sid data T EOS) p q" "same_setup p q"
    using remote_sends [OF q] same_setup_remote [OF q] assms r by (auto simp: send_event_def)
  let ?a = "add_sri_connection sid cid q"
  have a: "sends_only sid (send_event (Some H) sid data T EOS) p ?a" "same_setup p ?a"
    using s by simp_all
  have "dget (op_connections ?a) cid \<noteq> None" "routed sid cid ?a"
    using a(2) assms r same_setup_routed [OF a(2)] by (auto simp: same_setup_def)
  then have "sends_only sid (send_event (Some H) sid data T EOS) p
      (send_packet_to now data T EOS sid cid ?a)"
    by (intro sends_only_trans [OF a] send_packet_sends)
  then show ?thesis
    using send_packet_sends [OF assms r] s
    by (auto simp: push_packet_to_def H f q)
qed

lemma sendAll_sends:
  "sends_only sid (send_event (sri_on_file sid p) sid data T EOS) p (OutPort_sendAll now data T EOS sid p)"
proof -
  let ?f = "fold (push_packet_to now data T EOS sid) (dkeys (op_connections p)) p"
  have "sends_only sid (send_event (sri_on_file sid p) sid data T EOS) p ?f \<and>
      sri_on_file sid ?f = sri_on_file sid p"
  proof
    have "sends_only sid (send_event (sri_on_file sid p) sid data T EOS) r
        (fold (push_packet_to now data T EOS sid) cs r)"
      if "set cs \<subseteq> set (dkeys (op_connections p))" "same_setup p r" "sri_on_file sid r = sri_on_file sid p"
      for cs r
      using that
    proof (induction cs arbitrary: r)
      case (Cons c cs)
      let ?r = "push_packet_to now data T EOS sid c r"
      have "dget (op_connections r) c \<noteq> None"
        using Cons.prems dkeys_connected [of c p] by (simp add: same_setup_def)
      then have 1: "sends_only sid (send_event (sri_on_file sid p) sid data T EOS) r ?r"
        using push_packet_sends Cons.prems(3) by metis
      have 2: "same_setup r ?r" by (rule push_packet_setup)
      have "sends_only sid (send_event (sri_on_file sid p) sid data T EOS) ?r
          (fold (push_packet_to now data T EOS sid) cs ?r)"
        using Cons.prems 2 same_setup_trans [of p r ?r] by (intro Cons.IH) auto
      then show ?case using sends_only_trans [OF 1 2] by simp
    qed simp
    then show "sends_only sid (send_event (sri_on_file sid p) sid data T EOS) p ?f" by simp
  qed simp
  then show ?thesis using sends_only_wire [OF sendAll_wire] by blast
qed

lemma sendAll_file: "sri_on_file sid (OutPort_sendAll now data T EOS sid p) =
    (if EOS then None else sri_on_file sid p)"
  by (cases EOS) (simp_all add: OutPort_sendAll_def Let_def, simp add: sri_on_file_def)

text \<open>What one push of a stream may put on the wire: its SRI, and packets up to a size.\<close>

definition push_event :: "sri \<Rightarrow> string \<Rightarrow> nat \<Rightarrow> 'a wire_event \<Rightarrow> bool" where
  "push_event H sid n e \<longleftrightarrow>
     e = WSri (wire_cid e) H \<or> (\<exists>d t b. e = WPacket (wire_cid e) d t b sid \<and> length d \<le> n)"

lemma sendAll_pushes:
  assumes "sri_on_file sid p = None \<or> sri_on_file sid p = Some H" "length data \<le> n"
  shows "sends_only sid (push_event H sid n) p (OutPort_sendAll now data T EOS sid p)"
  by (rule sends_only_mono [OF sendAll_sends])
    (use assms in \<open>auto simp: send_event_def push_event_def\<close>)

lemma sendAlls_push:
  assumes "sri_on_file sid p = None \<or> sri_on_file sid p = Some H" "\<forall>(d, t, e)\<in>set parts. length d \<le> n"
  shows "sends_only sid (push_event H sid n) p
    (fold (\<lambda>(d, t, e). OutPort_sendAll now d (Some t) e sid) parts p)"
  using assms
proof (induction parts arbitrary: p)
  case (Cons part parts)
  obtain d t e where part: "part = (d, t, e)" by (cases part) auto
  let ?q = "OutPort_sendAll now d (Some t) e sid p"
  have 1: "sends_only sid (push_event H sid n) p ?q"
    using sendAll_pushes [OF Cons.prems(1)] Cons.prems(2) part by simp
  have "sends_only sid (push_event H sid n) ?q
      (fold (\<lambda>(d, t, e). OutPort_sendAll now d (Some t) e sid) parts ?q)"
    using Cons.prems by (intro Cons.IH) (auto simp: sendAll_file)
  then show ?case using sends_only_trans [OF 1 sendAll_setup] part by simp
qed simp

lemma whole_frames_pos: "frame_size H \<le> n \<Longrightarrow> 0 < n div frame_size H * frame_size H"
  by (simp add: div_greater_zero_iff)

lemma numeric_pushes:
  assumes "dget (op_sriDict p) sid = Some (H, cs)" "frame_size H \<le> op_maxSamples p" "T \<noteq> None"
    "op_numeric p"
  shows "\<exists>q. OutPort_sendPackets now data T EOS sid p = Returned q \<and>
    sends_only sid (push_event H sid (op_maxSamples p)) p q"
proof -
  have f: "sri_on_file sid p = Some H" using assms(1) by (simp add: sri_on_file_def)
  obtain t where t: "T = Some t" using assms(3) by auto
  let ?n = "op_maxSamples p div frame_size H * frame_size H"
  have n: "0 < ?n" by (rule whole_frames_pos [OF assms(2)])
  let ?parts = "subpackets ?n (item_size H) (xdelta H) data t EOS"
  have "\<forall>(d, t, e)\<in>set ?parts. length d \<le> op_maxSamples p"
  proof (intro ballI, clarify)
    fix d t' e assume "(d, t', e) \<in> set ?parts"
    from subpackets_sizes [OF n this] show "length d \<le> op_maxSamples p"
      using div_times_less_eq_dividend [of "op_maxSamples p" "frame_size H"] by linarith
  qed
  then have "sends_only sid (push_event H sid (op_maxSamples p)) p
      (fold (\<lambda>(d, t, e). OutPort_sendAll now d (Some t) e sid) ?parts p)"
    using sendAlls_push f by blast
  moreover have "sends_only sid (push_event H sid (op_maxSamples p)) p (OutPort_sendAll now data T EOS sid p)"
    if "length data \<le> op_maxSamples p"
    using sendAll_pushes f that by blast
  moreover have "OutPort_sendPackets now data T EOS sid p =
      (if length data \<le> op_maxSamples p then Returned (OutPort_sendAll now data T EOS sid p)
       else Returned (fold (\<lambda>(d, t, e). OutPort_sendAll now d (Some t) e sid) ?parts p))"
  proof -
    have "(?n = 0) = False" using n by simp
    then show ?thesis
      by (simp only: OutPort_sendPackets_def OutPort_numericPush_def Let_def t assms(1,4) if_True
          if_False option.case prod.case split: if_split)
  qed
  ultimately show ?thesis by (cases "length data \<le> op_maxSamples p") simp_all
qed

text \<open>
  C23: failing connections never stop a push. Whatever pattern of remote calls fails, a push on
  a stream with an SRI returns and keeps the port's books, provided the port can cut the data
  into whole frames; everything it adds to the wire is the SRI on file or a piece of the packet
  within the size limit, and goes to a connection that exists and that the filter table routes
  the stream to.
\<close>

theorem failures_are_contained:
  assumes "outport_ok p" "\<not> op_locked p" "dget (op_sriDict p) sid = Some (H, cs)"
    and "op_numeric p \<longrightarrow> frame_size H \<le> op_maxSamples p \<and> T \<noteq> None"
  shows "\<exists>q new. OutPort_pushPacket now data T EOS sid p = Returned q \<and> outport_ok q \<and>
    op_wire q = op_wire p @ new \<and>
    (\<forall>e\<in>set new. dget (op_connections p) (wire_cid e) \<noteq> None \<and>
       OutPort_isStreamRoutedToConnection sid (wire_cid e) p \<and>
       (e = WSri (wire_cid e) H \<or> (\<exists>d t b. e = WPacket (wire_cid e) d t b sid \<and>
          length d \<le> (if op_numeric p then op_maxSamples p else length data))))"
proof -
  have f: "sri_on_file sid p = Some H" using assms(3) by (simp add: sri_on_file_def)
  let ?n = "if op_numeric p then op_maxSamples p else length data"
  have "\<exists>q. OutPort_sendPackets now data T EOS sid p = Returned q \<and> sends_only sid (push_event H sid ?n) p q"
  proof (cases "op_numeric p")
    case True
    then show ?thesis using numeric_pushes [OF assms(3)] assms(4) by simp
  next
    case False
    then show ?thesis using sendAll_pushes [of sid p H data "length data"] f
      by (simp add: OutPort_sendPackets_def)
  qed
  then obtain r where r: "OutPort_sendPackets now data T EOS sid p = Returned r"
    "sends_only sid (push_event H sid ?n) p r" by blast
  obtain q where q: "OutPort_pushPacket now data T EOS sid p = Returned q" "op_wire q = op_wire r"
    using pushPacket_known [OF assms(1,2) _ r(1)] assms(3) by auto
  show ?thesis
    using q(1) pushPacket_ok [OF assms(1) q(1)] r(2)
    unfolding sends_only_def push_event_def q(2) [symmetric] by blast
qed

lemma max_samples_value: "max_samples_per_push bits = 15099488 div bits"
proof -
  have "\<lfloor>9437184 / 5 :: rat\<rfloor> = 1887436" by (simp add: floor_unique)
  then show ?thesis by (simp add: max_samples_per_push_def MAX_TRANSFER_BYTES_def py_int_def)
qed

theorem failures_are_contained_witness:
  "\<exists>q new. OutPort_pushPacket 9 [4, 5] (Some timestamp_notSet) False ''A'' sample_announced = Returned q \<and>
     outport_ok q \<and> op_wire q = op_wire sample_announced @ new"
proof -
  have ok: "outport_ok sample_announced" by (rule outport_reachable_ok [OF sample_reachable outport_ok_init])
  have f: "\<not> op_locked sample_announced"
    "dget (op_sriDict sample_announced) ''A'' = Some (sri_default ''A'', [''c''])"
    "op_numeric sample_announced \<longrightarrow> frame_size (sri_default ''A'') \<le> op_maxSamples sample_announced \<and>
      Some timestamp_notSet \<noteq> None"
    by (simp_all add: sample_defs(1-6) max_samples_value frame_size_def item_size_def sri_default_def)
  show ?thesis using failures_are_contained [OF ok f, of 9 "[4, 5]" False] by blast
qed

section \<open>The transfer limit\<close>

lemma same_setup_limit:
  "same_setup p q \<Longrightarrow> op_maxSamples q = op_maxSamples p \<and> op_numeric q = op_numeric p"
  by (simp add: same_setup_def)

lemma pushSRI_setup:
  assumes "OutPort_pushSRI H p = Returned q"
  shows "\<exists>r. op_wire r = op_wire p \<and> op_maxSamples r = op_maxSamples p \<and> op_numeric r = op_numeric p \<and>
    q = fold (push_sri_to H) (dkeys (op_connections r)) r"
proof -
  let ?r = "if dget (op_streams (put_sri H p)) (streamID H) = None
    then snd (OutPort_newStream True H (put_sri H p)) else put_sri H p"
  have "op_wire ?r = op_wire p \<and> op_maxSamples ?r = op_maxSamples p \<and> op_numeric ?r = op_numeric p"
    by (simp add: OutPort_newStream_def put_sri_def)
  moreover have "q = fold (push_sri_to H) (dkeys (op_connections ?r)) ?r"
    using assms by (auto simp: OutPort_pushSRI_def Let_def split: if_splits)
  ultimately show ?thesis by blast
qed

lemma push_sris_setup: "same_setup p (fold (push_sri_to H) cids p)"
  by (rule same_setup_fold) (rule push_sri_setup)

lemma send_lasts_setup: "same_setup p (fold (send_last cid) sids p)"
  by (rule same_setup_fold) (auto simp: send_last_def split: prod.split dest: same_setup_remote
      intro: same_setup_remote [OF surjective_pairing])

lemma pushSRI_limit:
  "OutPort_pushSRI H p = Returned q \<Longrightarrow> op_maxSamples q = op_maxSamples p \<and> op_numeric q = op_numeric p"
  using pushSRI_setup [of H p q] same_setup_limit [OF push_sris_setup] by auto

lemma pushPacket_parts:
  assumes "OutPort_pushPacket now data T EOS sid p = Returned q"
  shows "\<exists>p1 p2. (p1 = p \<or> OutPort_pushSRI (sri_default sid) p = Returned p1) \<and>
    OutPort_sendPackets now data T EOS sid p1 = Returned p2 \<and>
    op_wire q = op_wire p2 \<and> op_maxSamples q = op_maxSamples p2 \<and> op_numeric q = op_numeric p2"
proof -
  from iffD1 [OF obind_Returned_iff assms [unfolded OutPort_pushPacket_def]]
  obtain p1 where "(if dget (op_sriDict p) sid = None then OutPort_pushSRI (sri_default sid) p
      else Returned p) = Returned p1"
    and 2: "(if op_locked p1 then Blocked
      else obind (OutPort_sendPackets now data T EOS sid p1) (\<lambda>p.
        if EOS then
          (if dget (op_streams p) sid = None then Raised KeyError
           else Returned (p\<lparr>op_streams := dpop sid (op_streams p)\<rparr>))
        else Returned p)) = Returned q" by blast
  then have 1: "p1 = p \<or> OutPort_pushSRI (sri_default sid) p = Returned p1" by (auto split: if_splits)
  from 2 obtain p2 where "OutPort_sendPackets now data T EOS sid p1 = Returned p2"
    "op_wire q = op_wire p2 \<and> op_maxSamples q = op_maxSamples p2 \<and> op_numeric q = op_numeric p2"
    by (auto simp: obind_Returned_iff split: if_splits)
  with 1 show ?thesis by blast
qed

lemma outport_step_limit:
  "outport_step p q \<Longrightarrow> op_maxSamples q = op_maxSamples p \<and> op_numeric q = op_numeric p"
proof (induction rule: outport_step.induct)
  case (st_packet now data T EOS sid p q)
  from pushPacket_parts [OF st_packet(1)]
  obtain p1 p2 where p: "p1 = p \<or> OutPort_pushSRI (sri_default sid) p = Returned p1"
    "OutPort_sendPackets now data T EOS sid p1 = Returned p2"
    "op_maxSamples q = op_maxSamples p2" "op_numeric q = op_numeric p2"
    by (elim exE conjE) (rule that)
  show ?case using same_setup_limit [OF sendPackets_setup [OF p(2)]] pushSRI_limit p(1,3,4) by fastforce
next
  case (st_disconnect cid p q)
  then show ?case
    using same_setup_limit [OF send_lasts_setup [where cid = cid and sids = "dkeys (op_sriDict p)" and
        p = "p\<lparr>op_connections := dpop cid (op_connections p)\<rparr>"]]
    by (auto simp: OutPort_disconnectPort_def Let_def split: if_splits)
qed (auto simp: pushSRI_limit OutPort_connectPort_def OutPort_updateConnectionFilter_def
    OutPort_enableStats_def report_state split: if_splits option.splits)

lemma outport_reachable_limit:
  "outport_step\<^sup>*\<^sup>* p q \<Longrightarrow> op_maxSamples q = op_maxSamples p \<and> op_numeric q = op_numeric p"
  by (induction rule: rtranclp_induct) (auto dest: outport_step_limit)

fun packet_length :: "'a wire_event \<Rightarrow> nat" where
  "packet_length (WPacket c d T b s) = length d"
| "packet_length _ = 0"

definition within_limit :: "'a outport \<Rightarrow> bool" where
  "within_limit p \<longleftrightarrow> (\<forall>e\<in>set (op_wire p). packet_length e \<le> op_maxSamples p)"

lemma within_push_sri: "within_limit p \<Longrightarrow> within_limit (push_sri_to H c p)"
proof -
  assume p: "within_limit p"
  obtain sent q where q: "remote_call (WSri c H) p = (sent, q)" by fastforce
  have "op_maxSamples (push_sri_to H c p) = op_maxSamples p"
    using push_sri_setup same_setup_limit by blast
  moreover have "set (op_wire (push_sri_to H c p)) \<subseteq> insert (WSri c H) (set (op_wire p))"
    using remote_frame [OF q] by (auto simp: push_sri_to_def q)
  ultimately show ?thesis using p by (fastforce simp: within_limit_def)
qed

lemma within_push_sris: "within_limit p \<Longrightarrow> within_limit (fold (push_sri_to H) cids p)"
  by (induction cids arbitrary: p) (auto intro: within_push_sri)

lemma within_pushSRI: "OutPort_pushSRI H p = Returned q \<Longrightarrow> within_limit p \<Longrightarrow> within_limit q"
proof -
  assume a: "OutPort_pushSRI H p = Returned q" "within_limit p"
  obtain r where r: "op_wire r = op_wire p" "op_maxSamples r = op_maxSamples p"
    "q = fold (push_sri_to H) (dkeys (op_connections r)) r"
    using pushSRI_setup [OF a(1)] by blast
  then have "within_limit r" using a(2) by (simp add: within_limit_def)
  then show ?thesis unfolding r(3) by (rule within_push_sris)
qed

lemma within_sendAll:
  assumes "within_limit p" "length data \<le> op_maxSamples p"
  shows "within_limit (OutPort_sendAll now data T EOS sid p)"
proof -
  obtain new where "op_wire (OutPort_sendAll now data T EOS sid p) = op_wire p @ new"
    "\<forall>e\<in>set new. send_event (sri_on_file sid p) sid data T EOS e"
    using sendAll_sends [of sid p data T EOS now] by (auto simp: sends_only_def)
  moreover have "op_maxSamples (OutPort_sendAll now data T EOS sid p) = op_maxSamples p"
    using sendAll_setup same_setup_limit by blast
  ultimately show ?thesis
    using assms by (fastforce simp: within_limit_def send_event_def)
qed

lemma within_sendAlls:
  assumes "within_limit p" "\<forall>(d, t, e)\<in>set parts. length d \<le> op_maxSamples p"
  shows "within_limit (fold (\<lambda>(d, t, e). OutPort_sendAll now d (Some t) e sid) parts p)"
  using assms
proof (induction parts arbitrary: p)
  case (Cons part parts)
  obtain d t e where part: "part = (d, t, e)" by (cases part) auto
  have "op_maxSamples (OutPort_sendAll now d (Some t) e sid p) = op_maxSamples p"
    using sendAll_setup same_setup_limit by blast
  then show ?case using Cons within_sendAll [of p d now "Some t" e sid] by (simp add: part)
qed simp

lemma within_sendPackets:
  assumes "OutPort_sendPackets now data T EOS sid p = Returned q" "within_limit p" "op_numeric p"
  shows "within_limit q"
proof (cases "length data \<le> op_maxSamples p")
  case True
  then show ?thesis using assms within_sendAll
    by (auto simp: OutPort_sendPackets_def OutPort_numericPush_def)
next
  case False
  obtain H t n where n: "n \<noteq> 0" "n = op_maxSamples p div frame_size H * frame_size H"
    "q = fold (\<lambda>(d, t, e). OutPort_sendAll now d (Some t) e sid)
       (subpackets n (item_size H) (xdelta H) data t EOS) p"
    using assms(1,3) False
    by (auto simp: OutPort_sendPackets_def OutPort_numericPush_def Let_def split: option.splits if_splits)
  have "n \<le> op_maxSamples p" unfolding n(2) by (rule div_times_less_eq_dividend)
  then have "\<forall>(d, t, e)\<in>set (subpackets n (item_size H) (xdelta H) data t EOS). length d \<le> op_maxSamples p"
    using subpackets_sizes [of n] n(1) by fastforce
  then show ?thesis unfolding n(3) by (rule within_sendAlls [OF assms(2)])
qed

lemma within_send_lasts: "within_limit p \<Longrightarrow> within_limit (fold (send_last cid) sids p)"
proof (induction sids arbitrary: p)
  case (Cons s sids)
  obtain sent q where q: "remote_call (WPacket cid [] (Some timestamp_notSet) True s) p = (sent, q)"
    by fastforce
  have "within_limit (send_last cid s p)"
    using Cons.prems remote_frame [OF q] by (auto simp: send_last_def q within_limit_def)
  then show ?case using Cons.IH by simp
qed simp

lemma outport_step_within:
  "outport_step p q \<Longrightarrow> op_numeric p \<Longrightarrow> within_limit p \<Longrightarrow> within_limit q"
proof (induction rule: outport_step.induct)
  case (st_packet now data T EOS sid p q)
  from pushPacket_parts [OF st_packet(1)]
  obtain p1 p2 where p: "p1 = p \<or> OutPort_pushSRI (sri_default sid) p = Returned p1"
    "OutPort_sendPackets now data T EOS sid p1 = Returned p2" "op_wire q = op_wire p2"
    "op_maxSamples q = op_maxSamples p2" by (elim exE conjE) (rule that)
  have "within_limit p1 \<and> op_numeric p1"
    using p(1) st_packet(2,3) within_pushSRI [of "sri_default sid" p p1] pushSRI_limit [of "sri_default sid" p p1]
    by auto
  then have "within_limit p2" using within_sendPackets [OF p(2)] by blast
  then show ?case using p by (simp add: within_limit_def)
next
  case (st_disconnect cid p q)
  let ?p = "p\<lparr>op_connections := dpop cid (op_connections p)\<rparr>"
  have "within_limit ?p" using st_disconnect by (simp add: within_limit_def)
  from within_send_lasts [OF this, of cid "dkeys (op_sriDict p)"] st_disconnect show ?case
    by (auto simp: OutPort_disconnectPort_def Let_def within_limit_def split: if_splits)
next
  case (st_sri H p q)
  then show ?case by (simp add: within_pushSRI)
qed (auto simp: OutPort_connectPort_def OutPort_updateConnectionFilter_def within_limit_def
    OutPort_enableStats_def report_state split: if_splits option.splits)

lemma outport_reachable_within:
  "outport_step\<^sup>*\<^sup>* p q \<Longrightarrow> op_numeric p \<Longrightarrow> within_limit p \<Longrightarrow> within_limit q"
  by (induction rule: rtranclp_induct)
    (use outport_step_within outport_reachable_limit in blast)+

text \<open>
  A frame larger than a transfer cannot be sent. When a numeric port has to cut a packet
  and one frame of the stream (its subsize, twice for complex data) exceeds the samples of a
  transfer, the sub-packet size becomes zero and \<open>pushPacket\<close> raises a \<open>ValueError\<close>, whatever
  the connections are and even when there is none; no operation of the port changes the limit.
\<close>

theorem oversized_frame_raises:
  assumes "\<not> op_locked p" "op_numeric p" "dget (op_sriDict p) sid = Some (H, cs)"
    and "op_maxSamples p < frame_size H" "op_maxSamples p < length data"
  shows "OutPort_pushPacket now data T EOS sid p = Raised ValueError \<and>
    (outport_step\<^sup>*\<^sup>* p q \<longrightarrow> op_maxSamples q = op_maxSamples p)"
proof -
  have "OutPort_sendPackets now data T EOS sid p = Raised ValueError"
    using assms(2-5) by (simp add: OutPort_sendPackets_def OutPort_numericPush_def Let_def)
  then have "OutPort_pushPacket now data T EOS sid p = Raised ValueError"
    using assms(1,3) by (simp add: OutPort_pushPacket_def)
  then show ?thesis using outport_reachable_limit [of p q] by blast
qed

theorem oversized_frame_raises_witness:
  "OutPort_pushPacket 9 [1, 2, 3, 4, 5] None False ''F''
     (sample_port\<lparr>op_sriDict := [(''F'', (sri_default ''F'')\<lparr>subsize := 4\<rparr>, [])], op_maxSamples := 3\<rparr>)
   = Raised ValueError"
proof -
  let ?p = "sample_port\<lparr>op_sriDict := [(''F'', (sri_default ''F'')\<lparr>subsize := 4\<rparr>, [])], op_maxSamples := 3\<rparr>"
  have "\<not> op_locked ?p" "op_numeric ?p"
    "dget (op_sriDict ?p) ''F'' = Some ((sri_default ''F'')\<lparr>subsize := 4\<rparr>, [])"
    "op_maxSamples ?p < frame_size ((sri_default ''F'')\<lparr>subsize := 4\<rparr>)"
    "op_maxSamples ?p < length [1, 2, 3, 4, 5::int]"
    by (simp_all add: sample_defs frame_size_def item_size_def sri_default_def)
  from oversized_frame_raises [OF this] show ?thesis by blast
qed

text \<open>
  C27: No packet of a numeric port whose samples have 8, 16, 32 or 64 bits ever exceeds the transfer size: in
  every run of the port from its creation, with any connections, failures and stream metadata, each packet on
  the wire holds at most 1,887,436 bytes of samples, nine tenths of the 2 MiB a transfer may carry. (The one
  numeric port that is left out is \<open>OutBitPort\<close>, which overrides \<open>_sendPacket\<close> and does exceed it.)
\<close>

theorem packets_respect_the_transfer_limit:
  assumes "outport_step\<^sup>*\<^sup>* (OutPort_init name calcsize bits True faults) p" "bits \<in> {8, 16, 32, 64}"
    and "WPacket cid d T EOS sid \<in> set (op_wire p)"
  shows "length d * bits \<le> 8 * 1887436 \<and> 8 * 1887436 < 8 * MAX_TRANSFER_BYTES"
proof -
  let ?p = "OutPort_init name calcsize bits True faults :: 'a outport"
  have "within_limit ?p" "op_maxSamples ?p = 15099488 div bits" "op_numeric ?p"
    using assms(2) by (auto simp add: within_limit_def OutPort_init_def max_samples_value)
  then have "within_limit p" "op_maxSamples p = 15099488 div bits"
    using outport_reachable_limit [OF assms(1)] outport_reachable_within [OF assms(1)] by auto
  then have "length d \<le> 15099488 div bits"
    using assms(3) by (fastforce simp: within_limit_def)
  then have "length d * bits \<le> 15099488"
    using div_times_less_eq_dividend [of 15099488 bits] mult_le_mono1 order_trans by blast
  then show ?thesis by (simp add: MAX_TRANSFER_BYTES_def)
qed

text \<open>A port with a connection and a stream, to which three samples are pushed.\<close>

theorem packets_respect_the_transfer_limit_witness:
  "\<exists>p. outport_step\<^sup>*\<^sup>* (OutPort_init ''out'' 2 16 True [] :: int outport) p \<and>
     WPacket ''c'' [1, 2, 3] (Some timestamp_notSet) False ''A'' \<in> set (op_wire p) \<and>
     length [1, 2, 3 :: int] * 16 \<le> 8 * 1887436"
proof -
  let ?p0 = "OutPort_init ''out'' 2 16 True [] :: int outport"
  let ?p1 = "?p0\<lparr>op_connections := [(''c'', 7)], op_stats := OutStats_add ''c'' (op_stats ?p0),
    op_wire := [WConnect ''c'']\<rparr>"
  have 1: "OutPort_connectPort (Some 7) (Some True) ''c'' ?p0 = Returned ?p1"
    by (simp add: OutPort_connectPort_def OutPort_init_def Let_def)
  obtain p2 where 2: "OutPort_pushSRI (sri_default ''A'') ?p1 = Returned p2"
    "op_sriDict p2 = [(''A'', sri_default ''A'', [''c''])]" "op_connections p2 = [(''c'', 7)]" "op_numeric p2"
    "op_locked p2 = False" "op_faults p2 = []" "op_filter p2 = []" "op_maxSamples p2 = 943718"
    by (simp add: OutPort_pushSRI_def OutPort_newStream_def put_sri_def push_sri_to_def remote_call_def
        dkeys_def OutPort_isStreamRoutedToConnection_def add_sri_connection_def sri_default_def
        OutPort_init_def Let_def max_samples_value)
  obtain p3 where 3: "OutPort_pushPacket 5 [1, 2, 3] (Some timestamp_notSet) False ''A'' p2 = Returned p3"
    "WPacket ''c'' [1, 2, 3] (Some timestamp_notSet) False ''A'' \<in> set (op_wire p3)"
    using 2 by (cases "OutStats_update 5 3 0 False ''A'' ''c'' (op_stats p2)")
      (simp_all add: OutPort_pushPacket_def OutPort_sendPackets_def OutPort_numericPush_def OutPort_sendAll_def
        push_packet_to_def send_packet_to_def dkeys_def remote_call_def OutPort_isStreamRoutedToConnection_def Let_def)
  have r: "outport_step\<^sup>*\<^sup>* ?p0 p3"
    using st_connect [OF 1] st_sri [OF 2(1)] st_packet [OF 3(1)]
    by (meson converse_rtranclp_into_rtranclp rtranclp.rtrancl_refl)
  show ?thesis using packets_respect_the_transfer_limit [OF r _ 3(2)] r 3(2) by (intro exI [of _ p3]) auto
qed

section \<open>The end of a connection\<close>

lemma send_last_clean:
  "op_faults p = [] \<Longrightarrow> send_last cid sid p = p\<lparr>op_wire := op_wire p @
     (if routed sid cid p then [WPacket cid [] (Some timestamp_notSet) True sid] else [])\<rparr>"
  by (simp add: send_last_def remote_call_def)

lemma send_lasts_clean:
  "op_faults p = [] \<Longrightarrow> fold (send_last cid) sids p = p\<lparr>op_wire := op_wire p @
     map (WPacket cid [] (Some timestamp_notSet) True) (filter (\<lambda>sid. routed sid cid p) sids)\<rparr>"
proof (induction sids arbitrary: p)
  case (Cons s sids)
  have r: "routed t cid (p\<lparr>op_wire := w\<rparr>) = routed t cid p" for t w
    by (simp add: OutPort_isStreamRoutedToConnection_def)
  show ?case using Cons.prems by (simp add: Cons.IH send_last_clean r)
qed simp

text \<open>
  \<open>disconnectPort\<close> tells the receiver that its streams end. The connection gets an
  end-of-stream packet without data for every SRI on file that the filter table routes to it,
  also for those it never received the SRI of; no other connection gets anything. Afterwards the
  connection is unknown to the port, to every stream and to the statistics, disconnecting it
  again raises \<open>InvalidPort\<close>, and the same identifier can be connected anew.
\<close>

theorem disconnect_ends_streams:
  assumes "outport_ok p" "\<not> op_locked p" "op_faults p = []" "dget (op_connections p) cid = Some ref"
  shows "\<exists>q. OutPort_disconnectPort cid p = Returned q \<and>
    op_wire q = op_wire p @ map (WPacket cid [] (Some timestamp_notSet) True)
      (filter (\<lambda>sid. OutPort_isStreamRoutedToConnection sid cid p) (dkeys (op_sriDict p))) @ [WDisconnect cid] \<and>
    OutPort_disconnectPort cid q = Raised InvalidPort \<and>
    (dget (op_sriDict q) sid = Some (H, cs) \<longrightarrow> cid \<notin> set cs) \<and>
    dget (outs_received (op_stats q)) cid = None \<and>
    (\<exists>r. OutPort_connectPort (Some ref) (Some True) cid q = Returned r)"
proof -
  let ?p = "p\<lparr>op_connections := dpop cid (op_connections p)\<rparr>"
  let ?new = "map (WPacket cid [] (Some timestamp_notSet) True)
      (filter (\<lambda>sid. routed sid cid p) (dkeys (op_sriDict p)))"
  have r: "routed s cid ?p = routed s cid p" for s by (simp add: OutPort_isStreamRoutedToConnection_def)
  let ?q = "?p\<lparr>op_wire := (op_wire p @ ?new) @ [WDisconnect cid],
      op_stats := OutStats_remove cid (op_stats p),
      op_sriDict := map (\<lambda>(sid, H, cs). (sid, H, removeAll cid cs)) (op_sriDict p)\<rparr>"
  have q: "OutPort_disconnectPort cid p = Returned ?q"
    using assms(2-4) by (simp add: OutPort_disconnectPort_def send_lasts_clean r Let_def)
  show ?thesis
  proof (rule exI [of _ ?q], intro conjI)
    show "OutPort_disconnectPort cid p = Returned ?q" by (rule q)
    show "dget (op_sriDict ?q) sid = Some (H, cs) \<longrightarrow> cid \<notin> set cs"
      by (auto simp: dget_forget_connection)
  qed (use assms(2) in \<open>simp_all add: OutPort_disconnectPort_def OutPort_connectPort_def OutStats_remove_def\<close>)
qed

theorem disconnect_ends_streams_witness:
  "\<exists>q. OutPort_disconnectPort ''c'' sample_busy = Returned q \<and>
     op_wire q = op_wire sample_busy @ [WPacket ''c'' [] (Some timestamp_notSet) True ''A'', WDisconnect ''c'']"
proof -
  have c: "dget (op_connections sample_busy) ''c'' = Some 7"
    "routed ''A'' ''c'' sample_busy" "dkeys (op_sriDict sample_busy) = [''A'']"
    by (simp_all add: OutPort_isStreamRoutedToConnection_def sample_busy_def sample_defs dkeys_def)
  from disconnect_ends_streams [OF sample_busy_ok sample_busy_facts(1,2) c(1),
      where sid = "''A''" and H = "sri_default ''A''" and cs = "[]"] show ?thesis
    by (auto simp: c(2,3))
qed

end
