(* ===== verification/StreamWrites.thy ===== *)
theory StreamWrites
  imports OutputStreams OutPortFaults
begin

text \<open>
  What output streams guarantee: every sample that was written reaches each connection in order,
  once, and under the metadata that was current when it was written; the contract with the port
  is a locale, interpreted on the model of the output port.
\<close>

section \<open>Transcripts\<close>

text \<open>What a receiver sees of a stream: its SRIs, its samples and its end, without packet borders.\<close>

datatype 'a item = ISri sri | ISample 'a | IEnd

abbreviation samples :: "'a list \<Rightarrow> 'a item list" where
  "samples \<equiv> map ISample"

text \<open>Each sample with the SRI it is received under.\<close>

fun tagged :: "sri option \<Rightarrow> 'a item list \<Rightarrow> (sri option \<times> 'a) list" where
  "tagged H [] = []"
| "tagged H (ISri G # is) = tagged (Some G) is"
| "tagged H (ISample x # is) = (H, x) # tagged H is"
| "tagged H (IEnd # is) = tagged None is"

fun current :: "sri option \<Rightarrow> 'a item list \<Rightarrow> sri option" where
  "current H [] = H"
| "current H (ISri G # is) = current (Some G) is"
| "current H (ISample x # is) = current H is"
| "current H (IEnd # is) = current None is"

lemma tagged_append: "tagged H (xs @ ys) = tagged H xs @ tagged (current H xs) ys"
  by (induction H xs rule: current.induct) auto

lemma current_append: "current H (xs @ ys) = current (current H xs) ys"
  by (induction H xs rule: current.induct) auto

lemma tagged_samples [simp]: "tagged H (samples xs) = map (Pair H) xs"
  by (induction xs) auto

lemma current_samples [simp]: "current H (samples xs) = H"
  by (induction xs) auto

section \<open>What a program does with a stream\<close>

text \<open>
  The calls between creation and \<open>close\<close>. \<open>OpField\<close> is an assignment to one of the attributes
  \<open>xstart\<close> to \<open>blocking\<close>.
\<close>

datatype 'a stream_op =
    OpWrite "'a list" utctime
  | OpFlush
  | OpBufferSize nat
  | OpSri sri
  | OpField "sri \<Rightarrow> sri"
  | OpKeywords "keyword list"
  | OpSetKeyword "corba_any \<Rightarrow> pyval" "pyval \<Rightarrow> corba_any" string pyval
  | OpEraseKeyword string

fun apply_op :: "('a, 'p) sink_api \<Rightarrow> 'a stream_op \<Rightarrow> ('a, 'p) ostate \<Rightarrow> ('a, 'p) ostate outcome" where
  "apply_op A (OpWrite data t) s = BOS_write A data (Some t) s"
| "apply_op A OpFlush s = BOS_flush A s"
| "apply_op A (OpBufferSize n) s = BOS_setBufferSize A (int n) s"
| "apply_op A (OpSri H) s = OutputStream_set_sri A H s"
| "apply_op A (OpField upd) s = OutputStream_setStreamMetadata A upd s"
| "apply_op A (OpKeywords ks) s = OutputStream_set_keywords A ks s"
| "apply_op A (OpSetKeyword f g name v) s = OutputStream_setKeyword A f g name v s"
| "apply_op A (OpEraseKeyword name) s = OutputStream_eraseKeyword A name s"

fun apply_ops :: "('a, 'p) sink_api \<Rightarrow> 'a stream_op list \<Rightarrow> ('a, 'p) ostate \<Rightarrow> ('a, 'p) ostate outcome" where
  "apply_ops A [] s = Returned s"
| "apply_ops A (op # ops) s = obind (apply_op A op s) (apply_ops A ops)"

text \<open>The specification: the metadata an operation leaves, and the samples it adds.\<close>

fun sri_after :: "'a stream_op \<Rightarrow> sri \<Rightarrow> sri" where
  "sri_after (OpSri G) H = (if sri_compareFields H G \<in> {NONE, STREAMID} then H else G\<lparr>streamID := streamID H\<rparr>)"
| "sri_after (OpField upd) H = upd H"
| "sri_after (OpKeywords ks) H = (if sri_compareKeywords (kwords H) ks then H else H\<lparr>kwords := ks\<rparr>)"
| "sri_after (OpSetKeyword f g name v) H =
     (if sri_hasKeyword H name \<and> (case sri_getKeyword f H name of Returned w \<Rightarrow> py_eq w v | _ \<Rightarrow> False) then H
      else sri_setKeyword g H name v)"
| "sri_after (OpEraseKeyword name) H = (if sri_hasKeyword H name then sri_eraseKeyword H name else H)"
| "sri_after _ H = H"

fun written :: "'a stream_op list \<Rightarrow> sri \<Rightarrow> (sri option \<times> 'a) list" where
  "written [] H = []"
| "written (OpWrite data t # ops) H = map (Pair (Some H)) data @ written ops H"
| "written (op # ops) H = written ops (sri_after op H)"

lemma get_keyword_returns: "has_keyword ks name \<Longrightarrow> \<exists>w. get_keyword f ks name = Returned w"
  by (induction ks) auto

lemma getKeyword_returns: "sri_hasKeyword H name \<Longrightarrow> \<exists>w. sri_getKeyword f H name = Returned w"
  by (simp add: sri_hasKeyword_def sri_getKeyword_def get_keyword_returns)

text \<open>All metadata on the way can be transferred, and the stream ID stays.\<close>

fun ops_fit :: "(sri \<Rightarrow> bool) \<Rightarrow> 'a stream_op list \<Rightarrow> sri \<Rightarrow> bool" where
  "ops_fit fits [] H = True"
| "ops_fit fits (op # ops) H \<longleftrightarrow> fits (sri_after op H) \<and> streamID (sri_after op H) = streamID H \<and>
     ops_fit fits ops (sri_after op H)"

lemma written_Cons: "written (op # ops) H =
    (case op of OpWrite data t \<Rightarrow> map (Pair (Some H)) data | _ \<Rightarrow> []) @ written ops (sri_after op H)"
  by (cases op) auto

text \<open>One step of the recursion of a buffered write.\<close>

lemma doBuffer_step:
  fixes os :: "'a ostream" and data :: "'a list" and t :: utctime
  defines "os0 \<equiv> (if os_buffer os = [] then os\<lparr>os_bufferTime := Some t\<rparr> else os)"
  defines "c \<equiv> min (length data) (os_bufferSize os - length (os_buffer os))"
  defines "os1 \<equiv> os0\<lparr>os_buffer := os_buffer os @ take c data\<rparr>"
  shows "BOS_doBuffer (Suc n) A data (Some t) (os, p) =
    obind (if os_bufferSize os \<le> length (os_buffer os1) then BOS_sendBuffer A False (os1, p)
           else Returned (os1, p))
      (\<lambda>(os, p). if c < length data
         then BOS_doBuffer n A (drop c data) (Some (timestamp_add t (xdelta (os_sri os) * of_nat c))) (os, p)
         else Returned (os, p))"
proof -
  have f: "os_bufferSize os0 = os_bufferSize os" "os_buffer os0 = os_buffer os" by (simp_all add: os0_def)
  have f1: "os_bufferSize os1 = os_bufferSize os" by (simp add: os1_def f)
  show ?thesis
    unfolding BOS_doBuffer.simps(2) Let_def os0_def [symmetric] f c_def [symmetric] os1_def [symmetric] f1
    by simp
qed

section \<open>The contract with the port\<close>

text \<open>
  \<open>view sid p\<close> is what the receiver has seen of the stream, \<open>knows H p\<close> says that it has the
  SRI \<open>H\<close>, and \<open>fits H\<close> that packets of that SRI can be transferred.
\<close>

locale packet_sink =
  fixes A :: "('a, 'p) sink_api"
    and view :: "string \<Rightarrow> 'p \<Rightarrow> 'a item list"
    and ready :: "'p \<Rightarrow> bool"
    and knows :: "sri \<Rightarrow> 'p \<Rightarrow> bool"
    and fits :: "sri \<Rightarrow> bool"
  assumes push_sri: "ready p \<Longrightarrow> fits H \<Longrightarrow> \<exists>q. sk_pushSRI A H p = Returned q \<and> ready q \<and> knows H q \<and>
      view (streamID H) q = view (streamID H) p @ [ISri H]"
    and push_packet: "ready p \<Longrightarrow> knows H p \<Longrightarrow> fits H \<Longrightarrow>
      \<exists>q. sk_pushPacket A d (Some t) e (streamID H) p = Returned q \<and> (\<not> e \<longrightarrow> ready q \<and> knows H q) \<and>
        view (streamID H) q = view (streamID H) p @ samples d @ (if e then [IEnd] else [])"
    and alias_ready: "ready p \<Longrightarrow> ready (sk_alias A H p)"
    and alias_view: "view sid (sk_alias A H p) = view sid p"
begin

text \<open>What the stream still owes the receiver.\<close>

definition owed :: "'a ostream \<Rightarrow> 'a item list" where
  "owed os = (if os_sriModified os then [ISri (os_sri os)] else []) @ samples (os_buffer os)"

definition stream_ok :: "('a, 'p) ostate \<Rightarrow> bool" where
  "stream_ok s \<longleftrightarrow> ready (snd s) \<and> (os_sriModified (fst s) \<or> knows (os_sri (fst s)) (snd s)) \<and>
     (os_shared (fst s) \<longrightarrow> os_sriModified (fst s)) \<and> fits (os_sri (fst s)) \<and>
     (os_buffer (fst s) \<noteq> [] \<longrightarrow> length (os_buffer (fst s)) < os_bufferSize (fst s) \<and>
        os_bufferTime (fst s) \<noteq> None)"

definition story :: "('a, 'p) ostate \<Rightarrow> 'a item list" where
  "story s = view (os_streamID (fst s)) (snd s) @ owed (fst s)"

definition announced :: "'a ostream \<Rightarrow> 'a ostream" where
  "announced os = (if os_sriModified os then os\<lparr>os_sriModified := False, os_shared := False\<rparr> else os)"

lemma announced_fields [simp]:
  "os_sri (announced os) = os_sri os" "os_buffer (announced os) = os_buffer os"
  "os_bufferSize (announced os) = os_bufferSize os" "os_bufferTime (announced os) = os_bufferTime os"
  "\<not> os_sriModified (announced os)" "os_streamID (announced os) = os_streamID os"
  by (simp_all add: announced_def os_streamID_def)

lemma send_story:
  assumes "ready p" "os_sriModified os \<or> knows (os_sri os) p" "fits (os_sri os)"
  shows "\<exists>q. OutputStream_send A d (Some t) e (os, p) = Returned (announced os, q) \<and>
    (\<not> e \<longrightarrow> ready q \<and> knows (os_sri os) q) \<and>
    view (os_streamID os) q = view (os_streamID os) p @
      (if os_sriModified os then [ISri (os_sri os)] else []) @ samples d @ (if e then [IEnd] else [])"
proof -
  obtain r where r: "ready r" "knows (os_sri os) r"
    "view (streamID (os_sri os)) r = view (streamID (os_sri os)) p @
       (if os_sriModified os then [ISri (os_sri os)] else [])"
    "(if os_sriModified os
      then omap (\<lambda>p. (os\<lparr>os_sriModified := False, os_shared := False\<rparr>, p)) (sk_pushSRI A (os_sri os) p)
      else Returned (os, p)) = Returned (announced os, r)"
  proof (cases "os_sriModified os")
    case True
    obtain r where "sk_pushSRI A (os_sri os) p = Returned r" "ready r" "knows (os_sri os) r"
      "view (streamID (os_sri os)) r = view (streamID (os_sri os)) p @ [ISri (os_sri os)]"
      using push_sri [OF assms(1,3)] by blast
    then show ?thesis using True by (intro that [of r]) (simp_all add: announced_def)
  next
    case False
    then show ?thesis using assms(1,2) by (intro that [of p]) (simp_all add: announced_def)
  qed
  obtain q where q: "sk_pushPacket A d (Some t) e (streamID (os_sri os)) r = Returned q"
    "\<not> e \<longrightarrow> ready q \<and> knows (os_sri os) q"
    "view (streamID (os_sri os)) q = view (streamID (os_sri os)) r @ samples d @ (if e then [IEnd] else [])"
    using push_packet [OF r(1,2) assms(3)] by blast
  have "OutputStream_send A d (Some t) e (os, p) = Returned (announced os, q)"
    unfolding OutputStream_send_def fst_conv snd_conv r(4) using q(1) by (simp add: os_streamID_def)
  then show ?thesis using q r(3) by (auto simp: os_streamID_def)
qed

lemma stream_okD:
  assumes "stream_ok (os, p)"
  shows "ready p" "os_sriModified os \<or> knows (os_sri os) p" "fits (os_sri os)"
    and "os_buffer os \<noteq> [] \<Longrightarrow> length (os_buffer os) < os_bufferSize os"
    and "os_buffer os \<noteq> [] \<Longrightarrow> \<exists>t. os_bufferTime os = Some t"
  using assms by (auto simp: stream_ok_def)

lemma announced_ok:
  assumes "stream_ok (os, p)" "ready q" "knows (os_sri os) q"
  shows "stream_ok ((announced os)\<lparr>os_buffer := []\<rparr>, q)"
  using assms by (auto simp: stream_ok_def announced_def)

lemma sendBuffer_story:
  assumes "ready p" "os_sriModified os \<or> knows (os_sri os) p" "fits (os_sri os)" "os_bufferTime os = Some t"
  shows "\<exists>q. BOS_sendBuffer A e (os, p) = Returned ((announced os)\<lparr>os_buffer := []\<rparr>, q) \<and>
    (\<not> e \<longrightarrow> ready q \<and> knows (os_sri os) q) \<and>
    view (os_streamID os) q = view (os_streamID os) p @ owed os @ (if e then [IEnd] else [])"
  using send_story [OF assms(1-3), of "os_buffer os" t e] assms(4)
  by (auto simp: BOS_sendBuffer_def owed_def)

lemma flush_story:
  assumes "stream_ok s"
  shows "\<exists>s'. BOS_flush A s = Returned s' \<and> stream_ok s' \<and> os_buffer (fst s') = [] \<and>
    os_sri (fst s') = os_sri (fst s) \<and> os_bufferSize (fst s') = os_bufferSize (fst s) \<and> story s' = story s"
proof -
  obtain os p where s: "s = (os, p)" by (cases s)
  show ?thesis
  proof (cases "os_buffer os = []")
    case True
    then show ?thesis using assms by (auto simp: BOS_flush_def s)
  next
    case False
    then obtain t where t: "os_bufferTime os = Some t" using stream_okD(5) assms s by blast
    note ok = stream_okD [OF assms [unfolded s]]
    obtain q where q: "BOS_sendBuffer A False (os, p) = Returned ((announced os)\<lparr>os_buffer := []\<rparr>, q)"
      "ready q" "knows (os_sri os) q" "view (os_streamID os) q = view (os_streamID os) p @ owed os"
      using sendBuffer_story [OF ok(1-3) t, of False] by auto
    have "story ((announced os)\<lparr>os_buffer := []\<rparr>, q) = story (os, p)"
      using q(4) by (simp add: story_def owed_def os_streamID_def)
    then show ?thesis
      using q(1) announced_ok [OF assms [unfolded s] q(2,3)] False by (auto simp: BOS_flush_def s)
  qed
qed

text \<open>The recursion ends, keeps the samples and leaves less than a full buffer.\<close>

lemma doBuffer_story:
  assumes "stream_ok (os, p)" "0 < os_bufferSize os" "length data \<le> n"
  shows "\<exists>s'. BOS_doBuffer (Suc n) A data (Some t) (os, p) = Returned s' \<and> stream_ok s' \<and>
    os_sri (fst s') = os_sri os \<and> os_bufferSize (fst s') = os_bufferSize os \<and>
    story s' = story (os, p) @ samples data"
  using assms
proof (induction n arbitrary: data t os p)
  case (0 data t os p)
  then have "data = []" by simp
  moreover have "os_buffer os = [] \<or> length (os_buffer os) < os_bufferSize os" using stream_okD(4) [OF 0(1)] by blast
  ultimately show ?case using 0
    by (auto simp: doBuffer_step stream_ok_def story_def owed_def os_streamID_def)
next
  case (Suc n data t os p)
  note ok = stream_okD [OF Suc.prems(1)]
  have room: "length (os_buffer os) < os_bufferSize os" using ok(4) Suc.prems(2) by (cases "os_buffer os = []") auto
  have sh: "os_shared os \<longrightarrow> os_sriModified os" using Suc.prems(1) by (simp add: stream_ok_def)
  define os0 where "os0 = (if os_buffer os = [] then os\<lparr>os_bufferTime := Some t\<rparr> else os)"
  define c where "c = min (length data) (os_bufferSize os - length (os_buffer os))"
  define os1 where "os1 = os0\<lparr>os_buffer := os_buffer os @ take c data\<rparr>"
  note step = doBuffer_step [where n = "Suc n" and os = os and p = p and data = data and t = t and A = A,
      folded os0_def c_def, folded os1_def]
  have f0: "os_sri os0 = os_sri os" "os_bufferSize os0 = os_bufferSize os" "os_sriModified os0 = os_sriModified os"
    "os_shared os0 = os_shared os" by (simp_all add: os0_def)
  obtain u where "os_bufferTime os0 = Some u" using ok(5) by (fastforce simp: os0_def)
  with f0 have f1: "os_sri os1 = os_sri os" "os_bufferSize os1 = os_bufferSize os" "os_shared os1 = os_shared os"
    "os_sriModified os1 = os_sriModified os" "os_bufferTime os1 = Some u" "os_streamID os1 = os_streamID os"
    "os_buffer os1 = os_buffer os @ take c data"
    by (simp_all add: os1_def os_streamID_def)
  have owed1: "owed os1 = owed os @ samples (take c data)" by (simp add: owed_def f1)
  show ?case
  proof (cases "os_bufferSize os \<le> length (os_buffer os1)")
    case False
    then have c: "c = length data" using room by (simp add: c_def f1)
    then have "BOS_doBuffer (Suc (Suc n)) A data (Some t) (os, p) = Returned (os1, p)"
      using False step by simp
    moreover have "stream_ok (os1, p)" using False ok f1 sh by (simp add: stream_ok_def)
    moreover have "story (os1, p) = story (os, p) @ samples data"
      using c by (simp add: story_def owed1 f1)
    ultimately show ?thesis using f1 by (intro exI [of _ "(os1, p)"]) simp
  next
    case True
    obtain q where q: "BOS_sendBuffer A False (os1, p) = Returned ((announced os1)\<lparr>os_buffer := []\<rparr>, q)"
      "ready q" "knows (os_sri os) q" "view (os_streamID os) q = view (os_streamID os) p @ owed os1"
      using sendBuffer_story [of p os1 u False] ok(1-3) f1 by auto
    define os2 where "os2 = (announced os1)\<lparr>os_buffer := []\<rparr>"
    have f2: "os_sri os2 = os_sri os" "os_bufferSize os2 = os_bufferSize os" "os_buffer os2 = []"
      by (simp_all add: os2_def f1)
    have ok2: "stream_ok (os2, q)"
      using q(2,3) ok(3) sh f1 by (auto simp: stream_ok_def announced_def os2_def)
    have st2: "story (os2, q) = story (os, p) @ samples (take c data)"
      using q(4) by (simp add: story_def os2_def owed_def os_streamID_def f1)
    have b: "BOS_doBuffer (Suc (Suc n)) A data (Some t) (os, p) =
        (if c < length data then BOS_doBuffer (Suc n) A (drop c data)
           (Some (timestamp_add t (xdelta (os_sri os) * of_nat c))) (os2, q)
         else Returned (os2, q))"
      using True q(1) f2(1) unfolding step os2_def by simp
    show ?thesis
    proof (cases "c < length data")
      case False
      then show ?thesis using b ok2 f2 st2 by (intro exI [of _ "(os2, q)"]) auto
    next
      case more: True
      then have "0 < c" using room unfolding c_def by linarith
      then have len: "length (drop c data) \<le> n" using Suc.prems(3) more by simp
      obtain s' where s': "BOS_doBuffer (Suc n) A (drop c data)
           (Some (timestamp_add t (xdelta (os_sri os) * of_nat c))) (os2, q) = Returned s'" "stream_ok s'"
        "os_sri (fst s') = os_sri os" "os_bufferSize (fst s') = os_bufferSize os"
        "story s' = story (os2, q) @ samples (drop c data)"
        using Suc.IH [OF ok2 _ len, of "timestamp_add t (xdelta (os_sri os) * of_nat c)"] Suc.prems(2)
        unfolding f2 by blast
      have "story s' = story (os, p) @ samples data"
        unfolding s'(5) st2 append_assoc map_append [symmetric] append_take_drop_id by (rule refl)
      then show ?thesis using b more s'(1-4) by (intro exI [of _ s']) simp
    qed
  qed
qed

lemma write_story:
  assumes "stream_ok s"
  shows "\<exists>s'. BOS_write A data (Some t) s = Returned s' \<and> stream_ok s' \<and> os_sri (fst s') = os_sri (fst s) \<and>
    os_bufferSize (fst s') = os_bufferSize (fst s) \<and> story s' = story s @ samples data"
proof -
  obtain os p where s: "s = (os, p)" by (cases s)
  note ok = stream_okD [OF assms [unfolded s]]
  show ?thesis
  proof (cases "os_bufferSize os = 0 \<or> (os_buffer os = [] \<and> os_bufferSize os \<le> length data)")
    case True
    then have b: "os_buffer os = []" using ok(4) by fastforce
    obtain q where q: "OutputStream_send A data (Some t) False (os, p) = Returned (announced os, q)" "ready q"
      "knows (os_sri os) q" "view (os_streamID os) q = view (os_streamID os) p @
        (if os_sriModified os then [ISri (os_sri os)] else []) @ samples data"
      using send_story [OF ok(1-3), of data t False] by auto
    have w: "BOS_write A data (Some t) (os, p) = Returned (announced os, q)"
      using True q(1) by (auto simp: BOS_write_def)
    have "os_shared os \<longrightarrow> os_sriModified os" using assms s by (simp add: stream_ok_def)
    then have "stream_ok (announced os, q)" using q(2,3) ok(3) b by (auto simp: stream_ok_def announced_def)
    moreover have "story (announced os, q) = story (os, p) @ samples data"
      using q(4) b by (simp add: story_def owed_def)
    ultimately show ?thesis using w unfolding s by (intro exI [of _ "(announced os, q)"]) simp
  next
    case False
    then have w: "BOS_write A data (Some t) (os, p) = BOS_doBuffer (Suc (length data)) A data (Some t) (os, p)"
      by (auto simp: BOS_write_def)
    show ?thesis unfolding s w using doBuffer_story [OF assms [unfolded s]] False by auto
  qed
qed

text \<open>In sync: the receiver's current SRI, once everything owed is sent, is the stream's.\<close>

definition in_sync :: "('a, 'p) ostate \<Rightarrow> bool" where
  "in_sync s \<longleftrightarrow> stream_ok s \<and> current None (story s) = Some (os_sri (fst s))"

definition delivered :: "('a, 'p) ostate \<Rightarrow> (sri option \<times> 'a) list" where
  "delivered s = tagged None (story s)"

lemma modifying_story:
  assumes "in_sync s"
  shows "\<exists>os p. BOS_modifying A s = Returned (os, p) \<and> os_sri os = os_sri (fst s) \<and> ready p \<and>
    os_sriModified os \<and> os_buffer os = [] \<and>
    tagged None (view (os_streamID os) p) = delivered s"
proof -
  obtain os p where f: "BOS_flush A s = Returned (os, p)" "stream_ok (os, p)" "os_buffer os = []"
    "os_sri os = os_sri (fst s)" "story (os, p) = story s"
    using flush_story [of s] assms by (auto simp: in_sync_def)
  have "tagged None (view (os_streamID os) p) = tagged None (story (os, p))"
    using f(3) by (simp add: story_def owed_def tagged_append)
  then show ?thesis using f stream_okD(1) [OF f(2)]
    by (auto simp: BOS_modifying_def delivered_def os_streamID_def)
qed

lemma assigned_sync:
  assumes "ready p" "os_sriModified os" "os_buffer os = []" "fits (upd (os_sri os))"
    "streamID (upd (os_sri os)) = streamID (os_sri os)" "tagged None (view (os_streamID os) p) = d"
  shows "in_sync (assign_sri A upd (os, p)) \<and> delivered (assign_sri A upd (os, p)) = d \<and>
    os_sri (fst (assign_sri A upd (os, p))) = upd (os_sri os)"
  using assms
  by (auto simp: assign_sri_def Let_def in_sync_def stream_ok_def delivered_def story_def owed_def
      os_streamID_def alias_ready alias_view tagged_append current_append)

lemma modify_sync:
  assumes "in_sync s" "fits (upd (os_sri (fst s)))" "streamID (upd (os_sri (fst s))) = streamID (os_sri (fst s))"
  shows "\<exists>s'. omap (assign_sri A upd) (BOS_modifying A s) = Returned s' \<and> in_sync s' \<and>
    delivered s' = delivered s \<and> os_sri (fst s') = upd (os_sri (fst s))"
proof -
  obtain os p where m: "BOS_modifying A s = Returned (os, p)" "os_sri os = os_sri (fst s)" "ready p"
    "os_sriModified os" "os_buffer os = []" "tagged None (view (os_streamID os) p) = delivered s"
    using modifying_story [OF assms(1)] by blast
  from assigned_sync [OF m(3-5) _ _ m(6)] assms(2,3) m(1,2) show ?thesis by auto
qed

lemma set_sri_sync:
  assumes "in_sync s" "fits (H\<lparr>streamID := os_streamID (fst s)\<rparr>)"
  shows "\<exists>s'. OutputStream_set_sri A H s = Returned s' \<and> in_sync s' \<and> delivered s' = delivered s \<and>
    os_sri (fst s') = (if sri_compareFields (os_sri (fst s)) H \<in> {NONE, STREAMID} then os_sri (fst s)
      else H\<lparr>streamID := os_streamID (fst s)\<rparr>)"
proof (cases "sri_compareFields (os_sri (fst s)) H \<in> {NONE, STREAMID}")
  case True
  then show ?thesis using assms(1) by (auto simp: OutputStream_set_sri_def)
next
  case False
  obtain os p where m: "BOS_modifying A s = Returned (os, p)" "os_sri os = os_sri (fst s)" "ready p"
    "os_sriModified os" "os_buffer os = []" "tagged None (view (os_streamID os) p) = delivered s"
    using modifying_story [OF assms(1)] by blast
  let ?s = "(os\<lparr>os_sri := H\<lparr>streamID := os_streamID os\<rparr>, os_shared := False\<rparr>, p)"
  have "in_sync ?s \<and> delivered ?s = delivered s" using m(2-6) assms(2)
    by (auto simp: in_sync_def stream_ok_def delivered_def story_def owed_def os_streamID_def
        tagged_append current_append)
  then show ?thesis using False m(1,2)
    by (auto simp: OutputStream_set_sri_def os_streamID_def intro!: exI [of _ ?s])
qed

lemma write_sync:
  assumes "in_sync s"
  shows "\<exists>s'. BOS_write A data (Some t) s = Returned s' \<and> in_sync s' \<and> os_sri (fst s') = os_sri (fst s) \<and>
    delivered s' = delivered s @ map (Pair (Some (os_sri (fst s)))) data"
proof -
  obtain s' where s': "BOS_write A data (Some t) s = Returned s'" "stream_ok s'"
    "os_sri (fst s') = os_sri (fst s)" "story s' = story s @ samples data"
    using write_story [of s data t] assms by (auto simp: in_sync_def)
  have c: "current None (story s) = Some (os_sri (fst s))" using assms by (simp add: in_sync_def)
  have "in_sync s'" using s'(2-4) c by (simp add: in_sync_def current_append)
  moreover have "delivered s' = delivered s @ map (Pair (Some (os_sri (fst s)))) data"
    using s'(4) c by (simp add: delivered_def tagged_append)
  ultimately show ?thesis using s'(1,3) by blast
qed

lemma same_story_sync:
  "in_sync s \<Longrightarrow> stream_ok s' \<Longrightarrow> story s' = story s \<Longrightarrow> os_sri (fst s') = os_sri (fst s) \<Longrightarrow>
   in_sync s' \<and> delivered s' = delivered s"
  by (simp add: in_sync_def delivered_def)

lemma flush_sync:
  assumes "in_sync s"
  shows "\<exists>s'. BOS_flush A s = Returned s' \<and> in_sync s' \<and> delivered s' = delivered s \<and>
    os_sri (fst s') = os_sri (fst s) \<and> os_buffer (fst s') = []"
  using flush_story [of s] assms same_story_sync [OF assms] by (fastforce simp: in_sync_def)

lemma setBufferSize_sync:
  assumes "in_sync s" "0 \<le> n"
  shows "\<exists>s'. BOS_setBufferSize A n s = Returned s' \<and> in_sync s' \<and> delivered s' = delivered s \<and>
    os_sri (fst s') = os_sri (fst s) \<and> os_bufferSize (fst s') = nat n"
proof -
  obtain os p where s: "s = (os, p)" by (cases s)
  let ?s = "(os\<lparr>os_bufferSize := nat n\<rparr>, p)"
  show ?thesis
  proof (cases "nat n \<le> length (os_buffer os)")
    case False
    then have "in_sync ?s \<and> delivered ?s = delivered s"
      using assms(1) by (auto simp: s in_sync_def stream_ok_def delivered_def story_def owed_def os_streamID_def)
    then show ?thesis using False assms(2) by (auto simp: BOS_setBufferSize_def s Let_def)
  next
    case True
    show ?thesis
    proof (cases "os_buffer os = []")
      case True
      then have "in_sync ?s \<and> delivered ?s = delivered s"
        using assms(1) by (auto simp: s in_sync_def stream_ok_def delivered_def story_def owed_def os_streamID_def)
      then show ?thesis using True assms(2) by (auto simp: BOS_setBufferSize_def s Let_def BOS_flush_def)
    next
      case False
      note ok = stream_okD [of os p] 
      have so: "stream_ok (os, p)" using assms(1) s by (simp add: in_sync_def)
      obtain t where t: "os_bufferTime os = Some t" using ok(5) [OF so False] by blast
      let ?os = "os\<lparr>os_bufferSize := nat n\<rparr>"
      obtain q where q: "BOS_sendBuffer A False (?os, p) = Returned ((announced ?os)\<lparr>os_buffer := []\<rparr>, q)"
        "ready q" "knows (os_sri os) q" "view (os_streamID os) q = view (os_streamID os) p @ owed os"
        using sendBuffer_story [of p ?os t False] ok(1-3) [OF so] t by (auto simp: owed_def os_streamID_def)
      let ?s' = "((announced ?os)\<lparr>os_buffer := []\<rparr>, q)"
      have "stream_ok ?s'" using q(2,3) so by (auto simp: stream_ok_def announced_def)
      moreover have "story ?s' = story (os, p)" using q(4) by (simp add: story_def owed_def os_streamID_def)
      ultimately have "in_sync ?s' \<and> delivered ?s' = delivered s"
        using same_story_sync [OF assms(1)] s by simp
      then show ?thesis using True False assms(2) q(1)
        by (auto simp: BOS_setBufferSize_def s Let_def BOS_flush_def)
    qed
  qed
qed

lemma close_story:
  assumes "in_sync s"
  shows "\<exists>s'. BOS_close A s = Returned s' \<and> os_buffer (fst s') = [] \<and>
    view (os_streamID (fst s)) (snd s') = story s @ [IEnd]"
proof -
  obtain os p where s: "s = (os, p)" by (cases s)
  have so: "stream_ok (os, p)" using assms s by (simp add: in_sync_def)
  note ok = stream_okD [OF so]
  show ?thesis
  proof (cases "os_buffer os = []")
    case True
    then show ?thesis using send_story [OF ok(1-3), of "[]" timestamp_notSet True]
      by (auto simp: BOS_close_def OutputStream_close_def s story_def owed_def)
  next
    case False
    then obtain t where t: "os_bufferTime os = Some t" using ok(5) by blast
    show ?thesis using sendBuffer_story [OF ok(1-3) t, of True] False
      by (auto simp: BOS_close_def s story_def)
  qed
qed


lemma apply_op_sync:
  assumes "in_sync s" "fits (sri_after op (os_sri (fst s)))"
    "streamID (sri_after op (os_sri (fst s))) = streamID (os_sri (fst s))"
  shows "\<exists>s'. apply_op A op s = Returned s' \<and> in_sync s' \<and> os_sri (fst s') = sri_after op (os_sri (fst s)) \<and>
    delivered s' = delivered s @
      (case op of OpWrite data t \<Rightarrow> map (Pair (Some (os_sri (fst s)))) data | _ \<Rightarrow> [])"
proof (cases op)
  case (OpWrite data t)
  then show ?thesis using write_sync [OF assms(1)] by fastforce
next
  case OpFlush
  then show ?thesis using flush_sync [OF assms(1)] by fastforce
next
  case (OpBufferSize n)
  then show ?thesis using setBufferSize_sync [OF assms(1), of "int n"] by fastforce
next
  case (OpSri H)
  show ?thesis
  proof (cases "sri_compareFields (os_sri (fst s)) H \<in> {NONE, STREAMID}")
    case True
    then show ?thesis using OpSri assms(1) by (simp add: OutputStream_set_sri_def)
  next
    case False
    then have "fits (H\<lparr>streamID := os_streamID (fst s)\<rparr>)"
      using assms(2) OpSri by (simp add: os_streamID_def split: if_splits)
    from set_sri_sync [OF assms(1) this] False OpSri show ?thesis by (auto simp: os_streamID_def)
  qed
next
  case (OpField upd)
  then show ?thesis using modify_sync [OF assms(1), of upd] assms
    by (cases "upd (os_sri (fst s)) = os_sri (fst s)") (auto simp: OutputStream_setStreamMetadata_def)
next
  case (OpKeywords ks)
  then show ?thesis using modify_sync [OF assms(1), of "\<lambda>H. H\<lparr>kwords := ks\<rparr>"] assms
    by (cases "sri_compareKeywords (kwords (os_sri (fst s))) ks") (auto simp: OutputStream_set_keywords_def)
next
  case (OpSetKeyword f g name v)
  let ?H = "os_sri (fst s)"
  show ?thesis
  proof (cases "sri_hasKeyword ?H name")
    case True
    then obtain w where w: "sri_getKeyword f ?H name = Returned w" using getKeyword_returns by blast
    then show ?thesis using True OpSetKeyword modify_sync [OF assms(1), of "\<lambda>H. sri_setKeyword g H name v"] assms
      by (cases "py_eq w v") (auto simp: OutputStream_setKeyword_def)
  next
    case False
    then show ?thesis using OpSetKeyword modify_sync [OF assms(1), of "\<lambda>H. sri_setKeyword g H name v"] assms
      by (auto simp: OutputStream_setKeyword_def)
  qed
next
  case (OpEraseKeyword name)
  then show ?thesis using modify_sync [OF assms(1), of "\<lambda>H. sri_eraseKeyword H name"] assms
    by (cases "sri_hasKeyword (os_sri (fst s)) name") (auto simp: OutputStream_eraseKeyword_def)
qed

lemma apply_ops_sync:
  assumes "in_sync s" "ops_fit fits ops (os_sri (fst s))"
  shows "\<exists>s'. apply_ops A ops s = Returned s' \<and> in_sync s' \<and>
    streamID (os_sri (fst s')) = streamID (os_sri (fst s)) \<and>
    delivered s' = delivered s @ written ops (os_sri (fst s))"
  using assms
proof (induction ops arbitrary: s)
  case (Cons op ops)
  obtain s1 where s1: "apply_op A op s = Returned s1" "in_sync s1" "os_sri (fst s1) = sri_after op (os_sri (fst s))"
    "delivered s1 = delivered s @
      (case op of OpWrite data t \<Rightarrow> map (Pair (Some (os_sri (fst s)))) data | _ \<Rightarrow> [])"
    using apply_op_sync [of s op] Cons.prems by auto
  obtain s2 where s2: "apply_ops A ops s1 = Returned s2" "in_sync s2"
    "streamID (os_sri (fst s2)) = streamID (os_sri (fst s1))"
    "delivered s2 = delivered s1 @ written ops (os_sri (fst s1))"
    using Cons.IH [OF s1(2)] Cons.prems s1(3) by auto
  show ?case
    using s1 s2 Cons.prems(2) by (intro exI [of _ s2]) (simp add: written_Cons del: written.simps)
qed simp

lemma fresh_in_sync:
  "ready p \<Longrightarrow> fits H \<Longrightarrow> in_sync (OutputStream_init b H, p) \<and>
     delivered (OutputStream_init b H, p) = tagged None (view (streamID H) p)"
  by (simp add: in_sync_def stream_ok_def story_def owed_def delivered_def OutputStream_init_def os_streamID_def
      tagged_append current_append)

text \<open>From creation to close.\<close>

lemma stream_life:
  assumes "ready p" "fits H" "ops_fit fits ops H"
  shows "\<exists>os q. obind (apply_ops A ops (OutputStream_init b H, p)) (BOS_close A) = Returned (os, q) \<and>
    os_buffer os = [] \<and> last (view (streamID H) q) = IEnd \<and>
    tagged None (view (streamID H) q) = tagged None (view (streamID H) p) @ written ops H"
proof -
  note f = fresh_in_sync [OF assms(1,2), of b]
  have s0: "os_sri (fst (OutputStream_init b H, p)) = H" by (simp add: OutputStream_init_def)
  obtain s where s: "apply_ops A ops (OutputStream_init b H, p) = Returned s" "in_sync s"
    "streamID (os_sri (fst s)) = streamID H"
    "delivered s = tagged None (view (streamID H) p) @ written ops H"
    using apply_ops_sync [of "(OutputStream_init b H, p)" ops] f assms(3) unfolding s0 by auto
  obtain os q where q: "BOS_close A s = Returned (os, q)" "os_buffer os = []"
    "view (os_streamID (fst s)) q = story s @ [IEnd]"
    using close_story [OF s(2)] by auto
  have v: "view (streamID H) q = story s @ [IEnd]" using q(3) s(3) by (simp add: os_streamID_def)
  show ?thesis
    using s q(1,2) v by (auto simp: tagged_append delivered_def)
qed

end

end
