(* ===== verification/StreamDelivery.thy ===== *)
theory StreamDelivery
  imports StreamWrites
begin

text \<open>
  The output port implements the contract of \<open>StreamWrites\<close>, so that what the locale proves of
  streams holds of the receivers behind every connection of the port.
\<close>

section \<open>Pushing metadata without faults\<close>

lemma push_sri_clean:
  assumes "clean (streamID H) H C p"
  shows "op_wire (push_sri_to H c p) = op_wire p @ (if routed (streamID H) c p then [WSri c H] else []) \<and>
    clean (streamID H) H (if routed (streamID H) c p then insert c C else C) (push_sri_to H c p)"
proof -
  have f: "op_faults p = []" using assms by (simp add: clean_def)
  show ?thesis
    using assms by (auto simp: push_sri_to_def remote_call_def f add_sri_connection_def clean_def insert_absorb)
qed

lemma push_sris_clean:
  assumes "clean (streamID H) H C p" "distinct cids"
  shows "wire_to cid (op_wire (fold (push_sri_to H) cids p)) = wire_to cid (op_wire p) @
      (if cid \<in> set cids \<and> routed (streamID H) cid p then [WSri cid H] else []) \<and>
    clean (streamID H) H (C \<union> {c \<in> set cids. routed (streamID H) c p}) (fold (push_sri_to H) cids p)"
  using assms
proof (induction cids arbitrary: C p)
  case (Cons c cids)
  let ?q = "push_sri_to H c p"
  have q: "op_wire ?q = op_wire p @ (if routed (streamID H) c p then [WSri c H] else [])"
    "clean (streamID H) H (if routed (streamID H) c p then insert c C else C) ?q"
    using push_sri_clean [OF Cons.prems(1)] by blast+
  have r: "routed s d ?q = routed s d p" for s d using same_setup_routed [OF push_sri_setup] .
  have e: "(if routed (streamID H) c p then insert c C else C) \<union> {d \<in> set cids. routed (streamID H) d p} =
      C \<union> {d \<in> set (c # cids). routed (streamID H) d p}" by auto
  from Cons.IH [OF q(2)] Cons.prems(2) show ?case
    by (simp only: r e) (auto simp: q(1) wire_to_def)
qed (simp add: wire_to_def)

lemma pushSRI_clean:
  assumes "outport_ok p" "\<not> op_locked p" "op_faults p = []"
  shows "\<exists>q. OutPort_pushSRI H p = Returned q \<and> outport_ok q \<and> op_connections q = op_connections p \<and>
    op_locked q = op_locked p \<and> op_maxSamples q = op_maxSamples p \<and> op_numeric q = op_numeric p \<and>
    (\<forall>s c. routed s c q = routed s c p) \<and>
    clean (streamID H) H {c. dget (op_connections p) c \<noteq> None \<and> routed (streamID H) c p} q \<and>
    (\<forall>cid. wire_to cid (op_wire q) = wire_to cid (op_wire p) @
      (if dget (op_connections p) cid \<noteq> None \<and> routed (streamID H) cid p then [WSri cid H] else []))"
proof -
  let ?p = "put_sri H p"
  define r where "r = (if dget (op_streams ?p) (streamID H) = None then snd (OutPort_newStream True H ?p) else ?p)"
  have fr: "op_connections r = op_connections p" "op_locked r = op_locked p" "op_maxSamples r = op_maxSamples p"
    "op_numeric r = op_numeric p" "op_wire r = op_wire p" "op_faults r = op_faults p" "op_stats r = op_stats p"
    "op_filter r = op_filter p" "op_name r = op_name p" "dget (op_sriDict r) (streamID H) = Some (H, [])"
    by (simp_all add: r_def OutPort_newStream_def put_sri_def)
  have rt: "routed s c r = routed s c p" for s c by (simp add: OutPort_isStreamRoutedToConnection_def fr)
  let ?q = "fold (push_sri_to H) (dkeys (op_connections r)) r"
  have ret: "OutPort_pushSRI H p = Returned ?q"
    using assms(2) by (auto simp: OutPort_pushSRI_def Let_def r_def)
  have c0: "clean (streamID H) H {} r"
    using assms(1,3) by (simp add: clean_def fr outport_ok_def wired_def)
  then have "distinct (dkeys (op_connections r))" by (simp add: clean_def dict_ok_def)
  note q = push_sris_clean [OF c0 this]
  have s: "same_setup r ?q" by (rule push_sris_setup)
  have set: "{} \<union> {c \<in> set (dkeys (op_connections r)). routed (streamID H) c r} =
      {c. dget (op_connections p) c \<noteq> None \<and> routed (streamID H) c p}"
    by (auto simp: fr(1) rt dget_None_iff simp del: not_None_eq)
  have 1: "clean (streamID H) H {c. dget (op_connections p) c \<noteq> None \<and> routed (streamID H) c p} ?q"
    using q unfolding set by blast
  have 2: "\<forall>cid. wire_to cid (op_wire ?q) = wire_to cid (op_wire p) @
      (if dget (op_connections p) cid \<noteq> None \<and> routed (streamID H) cid p then [WSri cid H] else [])"
    using q by (simp add: fr rt dget_None_iff del: not_None_eq)
  have 3: "op_connections ?q = op_connections p" "op_locked ?q = op_locked p"
    "op_maxSamples ?q = op_maxSamples p" "op_numeric ?q = op_numeric p" "\<forall>s c. routed s c ?q = routed s c p"
    using s fr rt same_setup_routed [OF s] by (auto simp: same_setup_def)
  show ?thesis using ret pushSRI_ok [OF assms(1) ret] 1 2 3 by blast
qed

section \<open>Pushing data without faults\<close>

lemma sendAll_keeps_clean:
  assumes "clean sid H C p"
  shows "\<exists>C'. C \<subseteq> C' \<and> clean sid H C' (OutPort_sendAll now d T False sid p)"
proof -
  have "distinct (dkeys (op_connections p))" using assms by (simp add: clean_def dict_ok_def)
  from push_packets_clean(2) [OF assms this, where data = d and now = now and T = T and EOS = False]
  show ?thesis by (intro exI conjI) (auto simp: OutPort_sendAll_def Let_def)
qed

lemma sendAlls_keep_clean:
  "clean sid H C p \<Longrightarrow> \<forall>(d, t, e)\<in>set parts. \<not> e \<Longrightarrow>
   \<exists>C'. C \<subseteq> C' \<and> clean sid H C' (fold (\<lambda>(d, t, e). OutPort_sendAll now d (Some t) e sid) parts p)"
proof (induction parts arbitrary: C p)
  case (Cons part parts)
  obtain d t where part: "part = (d, t, False)" using Cons.prems(2) by (cases part) auto
  obtain C1 where C1: "C \<subseteq> C1" "clean sid H C1 (OutPort_sendAll now d (Some t) False sid p)"
    using sendAll_keeps_clean [OF Cons.prems(1)] by blast
  show ?case using Cons.IH [OF C1(2)] Cons.prems(2) C1(1) by (auto simp: part intro: order_trans)
qed auto

lemma subpackets_no_eos: "0 < n \<Longrightarrow> (d, t, e) \<in> set (subpackets n item xd data T False) \<Longrightarrow> \<not> e"
proof (induction n item xd data T False rule: subpackets.induct)
  case (1 n item xd data T)
  then show ?case by (cases "data = []") (auto simp: subpackets_step)
qed

lemma sendPackets_keep_clean:
  assumes "clean sid H C p" "OutPort_sendPackets now d T False sid p = Returned q"
  shows "\<exists>C'. C \<subseteq> C' \<and> clean sid H C' q"
proof -
  have *: "\<exists>C'. C \<subseteq> C' \<and> clean sid H C' (fold (\<lambda>(d, t, e). OutPort_sendAll now d (Some t) e sid)
      (subpackets n item xd d t False) p)" if "n \<noteq> 0" for n item xd t
    by (rule sendAlls_keep_clean [OF assms(1)]) (use subpackets_no_eos [of n] that in fastforce)
  show ?thesis
    using assms(2) sendAll_keeps_clean [OF assms(1)] *
    by (auto simp: OutPort_sendPackets_def OutPort_numericPush_def Let_def split: if_splits option.splits)
qed

section \<open>The contract\<close>

fun items_of :: "string \<Rightarrow> string \<Rightarrow> 'a wire_event \<Rightarrow> 'a item list" where
  "items_of cid sid (WSri c H) = (if c = cid \<and> streamID H = sid then [ISri H] else [])"
| "items_of cid sid (WPacket c d T e s) = (if c = cid \<and> s = sid then samples d @ (if e then [IEnd] else []) else [])"
| "items_of cid sid _ = []"

definition transcript :: "string \<Rightarrow> string \<Rightarrow> 'a wire_event list \<Rightarrow> 'a item list" where
  "transcript cid sid w = concat (map (items_of cid sid) w)"

lemma transcript_append [simp]: "transcript cid sid (v @ w) = transcript cid sid v @ transcript cid sid w"
  by (simp add: transcript_def)

lemma transcript_wire_to: "transcript cid sid (wire_to cid w) = transcript cid sid w"
proof (induction w)
  case (Cons e w)
  then show ?case by (cases e) (auto simp: transcript_def wire_to_def)
qed (simp add: transcript_def wire_to_def)

lemma transcript_grows:
  "wire_to cid v = wire_to cid w @ new \<Longrightarrow> transcript cid sid v = transcript cid sid w @ transcript cid sid new"
  by (metis transcript_append transcript_wire_to)

lemma transcript_parts:
  assumes "\<forall>(d, t, e)\<in>set (butlast parts). \<not> e" "parts \<noteq> []"
  shows "transcript cid sid (map (\<lambda>(d, t, e). WPacket cid d (Some t) e sid) parts) =
    samples (concat (map fst parts)) @ (if snd (snd (last parts)) then [IEnd] else [])"
  using assms
proof (induction parts)
  case (Cons part parts)
  obtain d t e where part: "part = (d, t, e)" by (cases part) auto
  show ?case
  proof (cases "parts = []")
    case True
    then show ?thesis by (simp add: part transcript_def)
  next
    case False
    then show ?thesis using Cons by (auto simp: part transcript_def)
  qed
qed simp

text \<open>A port without faults that routes the stream to a live connection.\<close>

definition sink_ready :: "string \<Rightarrow> string \<Rightarrow> nat \<Rightarrow> 'a outport \<Rightarrow> bool" where
  "sink_ready cid sid L p \<longleftrightarrow> outport_ok p \<and> \<not> op_locked p \<and> op_faults p = [] \<and> op_numeric p \<and>
     op_maxSamples p = L \<and> dget (op_connections p) cid \<noteq> None \<and> routed sid cid p"

definition sink_knows :: "string \<Rightarrow> sri \<Rightarrow> 'a outport \<Rightarrow> bool" where
  "sink_knows cid H p \<longleftrightarrow> (\<exists>cs. dget (op_sriDict p) (streamID H) = Some (H, cs) \<and> cid \<in> set cs)"

lemma sink_push_sri:
  assumes "sink_ready cid sid L p" "streamID H = sid"
  shows "\<exists>q. OutPort_pushSRI H p = Returned q \<and> sink_ready cid sid L q \<and> sink_knows cid H q \<and>
    transcript cid sid (op_wire q) = transcript cid sid (op_wire p) @ [ISri H]"
proof -
  obtain q where q: "OutPort_pushSRI H p = Returned q" "outport_ok q" "op_connections q = op_connections p"
    "op_locked q = op_locked p" "op_maxSamples q = op_maxSamples p" "op_numeric q = op_numeric p"
    "\<forall>s c. routed s c q = routed s c p"
    "clean (streamID H) H {c. dget (op_connections p) c \<noteq> None \<and> routed (streamID H) c p} q"
    "wire_to cid (op_wire q) = wire_to cid (op_wire p) @
      (if dget (op_connections p) cid \<noteq> None \<and> routed (streamID H) cid p then [WSri cid H] else [])"
    using pushSRI_clean [of p H] assms(1) unfolding sink_ready_def by blast
  have live: "dget (op_connections p) cid \<noteq> None" "routed (streamID H) cid p"
    using assms by (auto simp: sink_ready_def)
  have "wire_to cid (op_wire q) = wire_to cid (op_wire p) @ [WSri cid H]" using q(9) live by simp
  then have "transcript cid sid (op_wire q) = transcript cid sid (op_wire p) @ [ISri H]"
    using transcript_grows assms(2) by (fastforce simp: transcript_def)
  moreover have "sink_ready cid sid L q" "sink_knows cid H q"
    using q assms live by (auto simp: sink_ready_def sink_knows_def clean_def)
  ultimately show ?thesis using q(1) by blast
qed

lemma sink_push_packet:
  assumes "sink_ready cid sid L p" "sink_knows cid H p" "streamID H = sid" "frame_size H \<le> L"
  shows "\<exists>q. OutPort_pushPacket now d (Some t) e sid p = Returned q \<and>
    (\<not> e \<longrightarrow> sink_ready cid sid L q \<and> sink_knows cid H q) \<and>
    transcript cid sid (op_wire q) = transcript cid sid (op_wire p) @ samples d @ (if e then [IEnd] else [])"
proof -
  have p: "outport_ok p" "\<not> op_locked p" "op_faults p = []" "op_numeric p" "op_maxSamples p = L"
    "dget (op_connections p) cid \<noteq> None" "routed sid cid p" using assms(1) by (auto simp: sink_ready_def)
  obtain cs where cs: "dget (op_sriDict p) sid = Some (H, cs)" "cid \<in> set cs"
    using assms(2,3) by (auto simp: sink_knows_def)
  have "\<exists>q. OutPort_pushPacket now d (Some t) e sid p = Returned q \<and>
    transcript cid sid (op_wire q) = transcript cid sid (op_wire p) @ samples d @ (if e then [IEnd] else [])"
  proof (cases "length d \<le> op_maxSamples p")
    case True
    obtain q where q: "OutPort_pushPacket now d (Some t) e sid p = Returned q"
      "wire_to cid (op_wire q) = wire_to cid (op_wire p) @ [WPacket cid d (Some t) e sid]"
      using small_packet_wire [OF p(1-3) cs(1), of d now "Some t" e] True p(6,7) cs(2) by force
    show ?thesis using q(1) transcript_grows [OF q(2), of sid] by (simp add: transcript_def)
  next
    case False
    have big: "op_maxSamples p < length d" using False by simp
    have fits: "frame_size H \<le> op_maxSamples p" using assms(4) p(5) by simp
    obtain q and parts :: "('a list \<times> utctime \<times> bool) list" where
      q: "OutPort_pushPacket now d (Some t) e sid p = Returned q"
      "\<forall>cid. wire_to cid (op_wire q) = wire_to cid (op_wire p) @
        (if dget (op_connections p) cid = None \<or> \<not> routed sid cid p then []
         else (if cid \<in> set cs then [] else [WSri cid H]) @
           map (\<lambda>(d, t, e). WPacket cid d (Some t) e sid) parts)"
      "concat (map fst parts) = d" "\<forall>(d, t, e)\<in>set (butlast parts). frame_size H dvd length d \<and> \<not> e"
      "snd (snd (last parts)) = e"
      using large_packet_wire [OF p(1-3) cs(1) p(4) big fits, of now t e]
      by (elim exE conjE) (rule that)
    have w: "wire_to cid (op_wire q) = wire_to cid (op_wire p) @
        map (\<lambda>(d, t, e). WPacket cid d (Some t) e sid) parts"
      using q(2) [rule_format, of cid] p(6,7) cs(2) by auto
    have ne: "parts \<noteq> []" using q(3) False by auto
    have "\<forall>(d, t, e)\<in>set (butlast parts). \<not> e" using q(4) by auto
    from transcript_grows [OF w, of sid] transcript_parts [OF this ne, of cid sid] q(1,3,5)
    show ?thesis by simp
  qed
  then obtain q where q: "OutPort_pushPacket now d (Some t) e sid p = Returned q"
    "transcript cid sid (op_wire q) = transcript cid sid (op_wire p) @ samples d @ (if e then [IEnd] else [])"
    by blast
  have "sink_ready cid sid L q \<and> sink_knows cid H q" if "\<not> e"
  proof -
    have send: "OutPort_sendPackets now d (Some t) False sid p = Returned q"
      using q(1) that p(2) cs(1) by (auto simp: OutPort_pushPacket_def outcome_simps)
    obtain C where C: "set cs \<subseteq> C" "clean sid H C q"
      using sendPackets_keep_clean [OF outport_ok_clean [OF p(1,3) cs(1)] send] by blast
    have s: "same_setup p q" by (rule sendPackets_setup [OF send])
    show ?thesis
      using pushPacket_ok [OF p(1) q(1)] s same_setup_routed [OF s] p C cs(2) assms(3)
      by (auto simp: sink_ready_def sink_knows_def clean_def same_setup_def)
  qed
  then show ?thesis using q by blast
qed

lemma alias_frame: "op_connections (alias_sri H p) = op_connections p" "op_locked (alias_sri H p) = op_locked p"
  "op_faults (alias_sri H p) = op_faults p" "op_numeric (alias_sri H p) = op_numeric p"
  "op_maxSamples (alias_sri H p) = op_maxSamples p" "op_wire (alias_sri H p) = op_wire p"
  "op_filter (alias_sri H p) = op_filter p" "op_name (alias_sri H p) = op_name p"
  by (simp_all add: alias_sri_def split: option.split)

lemma alias_ok: "outport_ok p \<Longrightarrow> outport_ok (alias_sri H p)"
  by (auto simp: outport_ok_def wired_def alias_sri_def split: option.splits if_splits)

interpretation sink: packet_sink "outport_sink now" "\<lambda>sid p. transcript cid sid (op_wire p)"
  "sink_ready cid sid L" "sink_knows cid" "\<lambda>H. streamID H = sid \<and> frame_size H \<le> L"
  for now cid sid L
proof unfold_locales
  fix p :: "'a outport" and H
  assume "sink_ready cid sid L p" "streamID H = sid \<and> frame_size H \<le> L"
  then show "\<exists>q. sk_pushSRI (outport_sink now) H p = Returned q \<and> sink_ready cid sid L q \<and> sink_knows cid H q \<and>
      transcript cid (streamID H) (op_wire q) = transcript cid (streamID H) (op_wire p) @ [ISri H]"
    using sink_push_sri [of cid sid L p H] by (simp add: outport_sink_def)
next
  fix p :: "'a outport" and H d t e
  assume "sink_ready cid sid L p" "sink_knows cid H p" "streamID H = sid \<and> frame_size H \<le> L"
  then show "\<exists>q. sk_pushPacket (outport_sink now) d (Some t) e (streamID H) p = Returned q \<and>
      (\<not> e \<longrightarrow> sink_ready cid sid L q \<and> sink_knows cid H q) \<and>
      transcript cid (streamID H) (op_wire q) =
        transcript cid (streamID H) (op_wire p) @ samples d @ (if e then [IEnd] else [])"
    using sink_push_packet [of cid sid L p H now d t e] by (simp add: outport_sink_def)
next
  fix p :: "'a outport" and H
  assume "sink_ready cid sid L p"
  then show "sink_ready cid sid L (sk_alias (outport_sink now) H p)"
    by (simp add: outport_sink_def sink_ready_def alias_frame alias_ok OutPort_isStreamRoutedToConnection_def)
next
  fix s and p :: "'a outport" and H
  show "transcript cid s (op_wire (sk_alias (outport_sink now) H p)) = transcript cid s (op_wire p)"
    by (simp add: outport_sink_def alias_frame)
qed

section \<open>What was written is what arrives\<close>

text \<open>
  C1: an output stream delivers what was written, under the metadata it was written with. Take
  a numeric port without faults and a live connection the stream is routed to, create a stream,
  and call \<open>write\<close>, \<open>flush\<close>, \<open>setBufferSize\<close> and the metadata setters in any order with any
  sizes, then \<open>close\<close>: no call raises or blocks, nothing stays in the buffer, and the receiver
  sees exactly the samples written, once and in order, each under the SRI the stream had when
  it was written, however buffering, metadata changes and the transfer limit cut them into
  packets; then the end of the stream.
\<close>

theorem streams_deliver_what_was_written:
  assumes "sink_ready cid sid L p" "streamID H = sid" "frame_size H \<le> L"
    and "ops_fit (\<lambda>H. streamID H = sid \<and> frame_size H \<le> L) ops H"
  shows "\<exists>os q. obind (apply_ops (outport_sink now) ops (OutputStream_init b H, p)) (BOS_close (outport_sink now))
      = Returned (os, q) \<and>
    os_buffer os = [] \<and> last (transcript cid sid (op_wire q)) = IEnd \<and>
    tagged None (transcript cid sid (op_wire q)) = tagged None (transcript cid sid (op_wire p)) @ written ops H"
  using sink.stream_life [OF assms(1) _ assms(4), where now = now and b = b] assms(2,3) by blast

lemma sample_busy_ready: "sink_ready ''c'' ''A'' 3 sample_busy"
proof -
  have "routed ''A'' ''c'' sample_busy" "dget (op_connections sample_busy) ''c'' = Some 7"
    by (simp_all add: OutPort_isStreamRoutedToConnection_def sample_busy_def sample_defs)
  then show ?thesis by (simp add: sink_ready_def sample_busy_ok sample_busy_facts)
qed

theorem streams_deliver_what_was_written_witness:
  "\<exists>os q. obind (apply_ops (outport_sink 9) [OpBufferSize 3, OpWrite [1, 2] timestamp_notSet,
        OpField (\<lambda>H. H\<lparr>xdelta := 5\<rparr>), OpWrite [3, 4, 5, 6] timestamp_notSet]
      (OutputStream_init False (sri_default ''A''), sample_busy)) (BOS_close (outport_sink 9)) = Returned (os, q) \<and>
    map snd (tagged None (transcript ''c'' ''A'' (op_wire q))) = [1, 2, 3, 4, 5, 6]"
proof -
  let ?ops = "[OpBufferSize 3, OpWrite [1, 2] timestamp_notSet, OpField (\<lambda>H. H\<lparr>xdelta := 5\<rparr>),
    OpWrite [3, 4, 5, 6] timestamp_notSet] :: int stream_op list"
  have f: "frame_size (sri_default ''A'') \<le> 3"
    "ops_fit (\<lambda>H. streamID H = ''A'' \<and> frame_size H \<le> 3) ?ops (sri_default ''A'')"
    by (simp_all add: frame_size_def item_size_def sri_default_def)
  have t: "transcript ''c'' ''A'' (op_wire sample_busy) = [ISri (sri_default ''A'')]"
    by (simp add: sample_busy_def sample_announced_def transcript_def sri_default_def)
  show ?thesis
    using streams_deliver_what_was_written [OF sample_busy_ready _ f, of 9 False] unfolding t by auto
qed

lemma send_shape:
  assumes "OutputStream_send A d T e (os, p) = Returned (os', q)"
  shows "os_buffer os' = os_buffer os \<and> os_bufferSize os' = os_bufferSize os"
  using assms by (cases "os_sriModified os") (auto simp: OutputStream_send_def outcome_simps)

lemma send_not_blocked:
  assumes "\<And>H p. sk_pushSRI A H p \<noteq> Blocked" "\<And>d T e s p. sk_pushPacket A d T e s p \<noteq> Blocked"
  shows "OutputStream_send A d T e s \<noteq> Blocked"
  using assms by (auto simp: OutputStream_send_def obind_Blocked_iff omap_Blocked_iff split: if_splits)

lemma sendBuffer_shape:
  assumes "BOS_sendBuffer A e (os, p) = Returned (os', q)"
  shows "os_buffer os' = [] \<and> os_bufferSize os' = os_bufferSize os"
  using assms send_shape by (fastforce simp: BOS_sendBuffer_def outcome_simps)

lemma sendBuffer_sri:
  assumes "BOS_sendBuffer A e (os, p) = Returned (os', q)"
  shows "os_sri os' = os_sri os"
  using assms by (cases "os_sriModified os") (auto simp: BOS_sendBuffer_def OutputStream_send_def outcome_simps)

lemma sendBuffer_not_blocked:
  assumes "\<And>H p. sk_pushSRI A H p \<noteq> Blocked" "\<And>d T e s p. sk_pushPacket A d T e s p \<noteq> Blocked"
  shows "BOS_sendBuffer A e s \<noteq> Blocked"
  using send_not_blocked [OF assms]
  by (cases "OutputStream_send A (os_buffer (fst s)) (os_bufferTime (fst s)) e s") (auto simp: BOS_sendBuffer_def)

lemma doBuffer_ends:
  assumes "\<And>H p. sk_pushSRI A H p \<noteq> Blocked" "\<And>d T e s p. sk_pushPacket A d T e s p \<noteq> Blocked"
    and "0 < os_bufferSize os" "os_buffer os = [] \<or> length (os_buffer os) < os_bufferSize os" "length data < n"
  shows "BOS_doBuffer n A data (Some t) (os, p) \<noteq> Blocked \<and>
    (\<forall>s'. BOS_doBuffer n A data (Some t) (os, p) = Returned s' \<longrightarrow>
       length (os_buffer (fst s')) < os_bufferSize (fst s'))"
  using assms(3-5)
proof (induction n arbitrary: os p data t)
  case (Suc n)
  define os0 where "os0 = (if os_buffer os = [] then os\<lparr>os_bufferTime := Some t\<rparr> else os)"
  define c where "c = min (length data) (os_bufferSize os - length (os_buffer os))"
  define os1 where "os1 = os0\<lparr>os_buffer := os_buffer os @ take c data\<rparr>"
  note step = doBuffer_step [where n = n and os = os and p = p and data = data and t = t and A = A,
      folded os0_def c_def, folded os1_def]
  have f1: "os_bufferSize os1 = os_bufferSize os" "os_buffer os1 = os_buffer os @ take c data"
    by (simp_all add: os1_def os0_def)
  have room: "length (os_buffer os) < os_bufferSize os" using Suc.prems(1,2) by auto
  show ?case
  proof (cases "os_bufferSize os \<le> length (os_buffer os1)")
    case False
    then have "c = length data" using room by (simp add: c_def f1)
    then show ?thesis using False step f1 by auto
  next
    case True
    show ?thesis
    proof (cases "BOS_sendBuffer A False (os1, p)")
      case (Returned s2)
      obtain os2 q where s2: "s2 = (os2, q)" by (cases s2)
      have e: "os_buffer os2 = []" "os_bufferSize os2 = os_bufferSize os"
        using sendBuffer_shape [OF Returned [unfolded s2]] f1 by simp_all
      have "length (drop c data) < n" if "c < length data"
        using Suc.prems(3) that room by (simp add: c_def)
      then show ?thesis
        using Suc.IH [of os2 "drop c data" "timestamp_add t (xdelta (os_sri os2) * of_nat c)" q]
          Suc.prems(1) True step Returned s2 e by (cases "c < length data") simp_all
    next
      case (Raised x)
      then show ?thesis using True step by simp
    next
      case Blocked
      then show ?thesis using sendBuffer_not_blocked [OF assms(1,2)] by blast
    qed
  qed
qed simp

text \<open>
  C26: a buffered write always ends. Whatever the port does short of blocking, a write to a stream
  with a positive buffer size returns or raises after at most one recursion per sample, and it
  never leaves a full buffer behind.
\<close>

theorem buffered_writes_end:
  assumes "\<And>H p. sk_pushSRI A H p \<noteq> Blocked" "\<And>d T e s p. sk_pushPacket A d T e s p \<noteq> Blocked"
    and "0 < os_bufferSize os" "length (os_buffer os) < os_bufferSize os"
  shows "BOS_write A data (Some t) (os, p) \<noteq> Blocked \<and>
    (\<forall>s'. BOS_write A data (Some t) (os, p) = Returned s' \<longrightarrow>
       length (os_buffer (fst s')) < os_bufferSize (fst s'))"
proof (cases "os_buffer os = [] \<and> os_bufferSize os \<le> length data")
  case True
  then have w: "BOS_write A data (Some t) (os, p) = OutputStream_send A data (Some t) False (os, p)"
    by (simp add: BOS_write_def)
  show ?thesis
    unfolding w using send_not_blocked [OF assms(1,2)] send_shape [of A data "Some t" False os p] assms(4)
    by force
next
  case False
  then have w: "BOS_write A data (Some t) (os, p) = BOS_doBuffer (Suc (length data)) A data (Some t) (os, p)"
    using assms(3) by (auto simp: BOS_write_def)
  show ?thesis unfolding w using assms(3,4) by (intro doBuffer_ends [OF assms(1,2)]) auto
qed

theorem buffered_writes_end_witness:
  "BOS_write \<lparr>sk_pushSRI = \<lambda>H p. Returned (p + 1), sk_pushPacket = \<lambda>d T e s p. Returned (p + length d),
       sk_alias = \<lambda>H p. p\<rparr> [7, 8, 9::int] (Some timestamp_notSet)
     ((OutputStream_init False (sri_default ''A''))\<lparr>os_bufferSize := 2\<rparr>, 0) \<noteq> Blocked"
  using buffered_writes_end [where A = "\<lparr>sk_pushSRI = \<lambda>H p. Returned (p + 1),
      sk_pushPacket = \<lambda>d T e s p. Returned (p + length d), sk_alias = \<lambda>H p. p\<rparr>" and
      os = "(OutputStream_init False (sri_default ''A''))\<lparr>os_bufferSize := 2\<rparr>" and data = "[7, 8, 9::int]" and
      t = timestamp_notSet and p = 0]
  by (simp add: OutputStream_init_def)


section \<open>Where the code deviates\<close>

text \<open>
  Samples that overflow the buffer get a time stamp that counts scalars. When a write fills
  the buffer and leaves a rest, the rest is stamped \<open>count * xdelta\<close> after the time of the write,
  with \<open>count\<close> the scalars that went out. For complex data a sample is two scalars, so the stamp is
  ahead by twice the time that the samples span; \<open>OutNumericPort\<close> divides by the sample size in the
  same situation.
\<close>

theorem rest_is_stamped_by_scalars:
  assumes "BOS_write A data (Some t) (os, p) = Returned (os', q)"
    and "os_buffer os \<noteq> []" "length (os_buffer os) + n = os_bufferSize os" "0 < n"
    and "n < length data" "length data < n + os_bufferSize os"
  shows "os_buffer os' = drop n data \<and>
    (\<exists>u. os_bufferTime os' = Some u \<and> utc_total u = utc_total t + xdelta (os_sri os) * of_nat n \<and>
      (sri_complex (os_sri os) \<and> n = item_size (os_sri os) * k \<longrightarrow>
        utc_total u - utc_total t = 2 * (of_nat k * xdelta (os_sri os))))"
proof -
  have w: "BOS_write A data (Some t) (os, p) = BOS_doBuffer (Suc (length data)) A data (Some t) (os, p)"
    using assms(2-4) by (auto simp: BOS_write_def)
  have c: "min (length data) (os_bufferSize os - length (os_buffer os)) = n" using assms(3,5) by auto
  let ?os1 = "os\<lparr>os_buffer := os_buffer os @ take n data\<rparr>"
  have step: "BOS_doBuffer (Suc (length data)) A data (Some t) (os, p) =
    obind (BOS_sendBuffer A False (?os1, p)) (\<lambda>(os, p). BOS_doBuffer (length data) A (drop n data)
      (Some (timestamp_add t (xdelta (os_sri os) * of_nat n))) (os, p))"
    using assms(2,3,5) doBuffer_step [of "length data" A data t os p] unfolding c by simp
  obtain os2 r where s2: "BOS_sendBuffer A False (?os1, p) = Returned (os2, r)"
    "BOS_doBuffer (length data) A (drop n data) (Some (timestamp_add t (xdelta (os_sri os2) * of_nat n))) (os2, r)
      = Returned (os', q)"
    using assms(1) unfolding w step by (auto simp: outcome_simps)
  have f2: "os_buffer os2 = []" "os_bufferSize os2 = os_bufferSize os" "os_sri os2 = os_sri os"
    using sendBuffer_shape [OF s2(1)] sendBuffer_sri [OF s2(1)] by simp_all
  obtain m where m: "length data = Suc m" using assms(5) by (cases "length data") auto
  have "\<not> os_bufferSize os \<le> length (drop n data)" "length (drop n data) \<le> os_bufferSize os"
    using assms(5,6) unfolding length_drop by linarith+
  then have "os' = os2\<lparr>os_bufferTime := Some (timestamp_add t (xdelta (os_sri os) * of_nat n)),
      os_buffer := drop n data\<rparr>"
    using s2(2) f2 unfolding m doBuffer_step by (simp add: min_absorb1)
  then show ?thesis by (simp add: item_size_def sri_complex_def)
qed


theorem rest_is_stamped_by_scalars_witness:
  "\<exists>os' q. BOS_write \<lparr>sk_pushSRI = \<lambda>H p. Returned (p + 1), sk_pushPacket = \<lambda>d T e s p. Returned (p + length d),
       sk_alias = \<lambda>H p. p\<rparr> [7, 8, 9::int] (Some timestamp_notSet)
     ((OutputStream_init False ((sri_default ''A'')\<lparr>mode := 1\<rparr>))\<lparr>os_bufferSize := 4, os_buffer := [5, 6]\<rparr>, 0) =
     Returned (os', q) \<and> os_buffer os' = [9] \<and>
     (\<exists>u. os_bufferTime os' = Some u \<and> utc_total u = 2)"
proof -
  let ?A = "\<lparr>sk_pushSRI = \<lambda>H p. Returned (p + 1), sk_pushPacket = \<lambda>d T e s p. Returned (p + length d),
       sk_alias = \<lambda>H p. p\<rparr> :: (int, nat) sink_api"
  let ?os = "(OutputStream_init False ((sri_default ''A'')\<lparr>mode := 1\<rparr>))\<lparr>os_bufferSize := 4, os_buffer := [5, 6]\<rparr>
    :: int ostream"
  obtain os' q where r: "BOS_write ?A [7, 8, 9] (Some timestamp_notSet) (?os, 0) = Returned (os', q)"
    by (simp add: BOS_write_def OutputStream_init_def doBuffer_step BOS_sendBuffer_def OutputStream_send_def
        numeral_eq_Suc)
  have "xdelta (os_sri ?os) = 1" "utc_total timestamp_notSet = 0"
    by (simp_all add: OutputStream_init_def sri_default_def timestamp_notSet_def utc_total_def)
  with rest_is_stamped_by_scalars [OF r, of 2 1] r show ?thesis
    by (auto simp: OutputStream_init_def)
qed

text \<open>
  \<open>createStream\<close> with an SRI creates a stream for a new ID, leaves a stream whose SRI
  already agrees as it is, and updates the SRI of an existing stream without buffered data; but
  it calls the setter with the port lock held, so that for a stream with buffered data the flush
  calls back into the port and the call never returns.
\<close>

theorem createStream_by_sri:
  assumes "\<not> op_locked p"
  shows "(dget (op_streams p) (streamID H) = None \<longrightarrow>
      (\<exists>q. OutPort_createStream now H p = Returned (length (op_heap p), q) \<and>
        op_heap q = op_heap p @ [OutputStream_init False H] \<and>
        op_streams q = dput (streamID H) (length (op_heap p)) (op_streams p))) \<and>
    (dget (op_streams p) (streamID H) = Some r \<longrightarrow> r < length (op_heap p) \<longrightarrow>
      (if sri_compareFields (os_sri (op_heap p ! r)) H \<in> {NONE, STREAMID}
       then OutPort_createStream now H p = Returned (r, p)
       else if os_buffer (op_heap p ! r) \<noteq> [] then OutPort_createStream now H p = Blocked
       else OutPort_createStream now H p = Returned (r, p\<lparr>op_heap := (op_heap p)[r := (op_heap p ! r)\<lparr>
              os_sriModified := True, os_sri := H\<lparr>streamID := os_streamID (op_heap p ! r)\<rparr>,
              os_shared := False\<rparr>]\<rparr>)))"
proof -
  let ?os = "op_heap p ! r" and ?l = "p\<lparr>op_locked := True\<rparr>"
  have unlock: "p\<lparr>op_heap := h, op_locked := False\<rparr> = p\<lparr>op_heap := h\<rparr>" for h
    using assms by simp
  have send: "OutputStream_send (outport_sink now) d T e (os, ?l) = Blocked" for d T e and os :: "'a ostream"
    by (cases "os_sriModified os")
      (auto simp: OutputStream_send_def outport_sink_def OutPort_pushSRI_def OutPort_pushPacket_def)
  have flush: "BOS_flush (outport_sink now) (?os, ?l) = (if os_buffer ?os = [] then Returned (?os, ?l) else Blocked)"
    by (simp add: BOS_flush_def BOS_sendBuffer_def send)
  show ?thesis
    using assms
    by (auto simp: OutPort_createStream_def OutPort_newStream_def on_stream_def OutputStream_set_sri_def
        BOS_modifying_def flush unlock os_streamID_def)
qed

theorem createStream_by_sri_witness:
  "OutPort_createStream 9 ((sri_default ''A'')\<lparr>xdelta := 4\<rparr>)
     (sample_busy\<lparr>op_heap := [(OutputStream_init True (sri_default ''A''))\<lparr>os_buffer := [3]\<rparr>]\<rparr>) = Blocked"
proof -
  let ?p = "sample_busy\<lparr>op_heap := [(OutputStream_init True (sri_default ''A''))\<lparr>os_buffer := [3]\<rparr>]\<rparr>"
  let ?H = "(sri_default ''A'')\<lparr>xdelta := 4\<rparr>"
  have l: "\<not> op_locked ?p" by (simp add: sample_busy_facts)
  have s: "dget (op_streams ?p) (streamID ?H) = Some 0" "(0::nat) < length (op_heap ?p)"
    by (simp_all add: sample_busy_def sample_announced_def sri_default_def)
  have c: "sri_compareFields (sri_default ''A'') ?H = XDELTA"
    by (simp add: sri_compareFields_def Let_def or_flag_def sri_default_def sri_flag_defs
        sri_compareKeywords_def NONE_def)
  have "XDELTA \<notin> {NONE, STREAMID}" by (simp add: sri_flag_defs NONE_def)
  with createStream_by_sri [OF l, of ?H 9 0] s c show ?thesis
    by (simp add: OutputStream_init_def)
qed

text \<open>
  Renaming keywords through a stream is silently dropped. Both setters, \<open>stream.sri = H\<close> and
  \<open>stream.keywords = ks\<close>, compare before they assign, and the comparison ignores keyword names, so
  that the stream keeps the old names and nothing is ever sent; assigning a different value is
  announced with the next write.
\<close>

theorem keyword_renames_are_dropped:
  "OutputStream_set_sri A (rename_keywords f (os_sri (fst s))) s = Returned s \<and>
   OutputStream_set_keywords A (kwords (rename_keywords f (os_sri (fst s)))) s = Returned s \<and>
   (os_buffer (fst s) = [] \<and> \<not> sri_compareKeywords (kwords (os_sri (fst s))) ks \<longrightarrow>
     (\<exists>s'. OutputStream_set_keywords A ks s = Returned s' \<and> os_sriModified (fst s') \<and>
        kwords (os_sri (fst s')) = ks))"
proof -
  have k: "sri_compareKeywords (kwords (os_sri (fst s))) (kwords (rename_keywords f (os_sri (fst s))))"
    by (simp add: sri_compareKeywords_def rename_keywords_def keyword_values_eq_rename)
  moreover have "sri_compareFields (os_sri (fst s)) (rename_keywords f (os_sri (fst s))) = NONE"
    using k by (simp add: compareFields_zero_iff no_field_differs_iff sri_same_fields_def rename_keywords_def NONE_def)
  ultimately show ?thesis
    by (auto simp: OutputStream_set_sri_def OutputStream_set_keywords_def BOS_modifying_def BOS_flush_def
        assign_sri_def Let_def split: prod.split)
qed

theorem keyword_renames_are_dropped_witness:
  "OutputStream_set_keywords (outport_sink 9)
      [\<lparr>kw_id = ''NEW'', kw_value = \<lparr>any_t = ''double'', any_v = PFloat 3\<rparr>\<rparr>]
      ((OutputStream_init True ((sri_default ''A'')\<lparr>kwords := [\<lparr>kw_id = ''OLD'',
         kw_value = \<lparr>any_t = ''double'', any_v = PFloat 3\<rparr>\<rparr>]\<rparr>)), sample_busy) =
   Returned ((OutputStream_init True ((sri_default ''A'')\<lparr>kwords := [\<lparr>kw_id = ''OLD'',
         kw_value = \<lparr>any_t = ''double'', any_v = PFloat 3\<rparr>\<rparr>]\<rparr>)), sample_busy)"
  using keyword_renames_are_dropped [of "outport_sink 9" "\<lambda>_. ''NEW''"
      "(OutputStream_init True ((sri_default ''A'')\<lparr>kwords := [\<lparr>kw_id = ''OLD'',
         kw_value = \<lparr>any_t = ''double'', any_v = PFloat 3\<rparr>\<rparr>]\<rparr>), sample_busy)"]
  by (simp add: OutputStream_init_def rename_keywords_def)

end
