(* ===== verification/BitBuffer.thy ===== *)
theory BitBuffer
  imports Prelude "HOL-Library.Word"
begin

text \<open>
  \<open>redhawk/bitbuffer.py\<close>: bit strings over shared byte arrays. Byte arrays live in a store, because
  slices of a bit buffer are views of the same array; a byte is a Python integer between 0 and 255
  and the bit operations are those on unbounded integers.
\<close>

unbundle bit_operations_syntax

section \<open>Helpers\<close>

definition bits_to_bytes :: "int \<Rightarrow> int" where
  "bits_to_bytes bits = (bits + 7) div 8"

text \<open>\<open>'01'.find(ch)\<close> for one character.\<close>

definition char_to_bit :: "char \<Rightarrow> int outcome" where
  "char_to_bit ch = (if ch = CHR ''0'' then Returned 0 else if ch = CHR ''1'' then Returned 1
     else Raised ValueError)"

definition bitmask :: "nat \<Rightarrow> int" where
  "bitmask bits = push_bit bits 1 - 1"

definition split_index :: "nat \<Rightarrow> nat \<times> nat" where
  "split_index pos = (pos div 8, pos mod 8)"

text \<open>Reading an element of a byte array; negative indices count from the end.\<close>

definition byte_at :: "int list \<Rightarrow> int \<Rightarrow> int outcome" where
  "byte_at src i =
     (let i = (if i < 0 then i + int (length src) else i)
      in if 0 \<le> i \<and> i < int (length src) then Returned (src ! nat i) else Raised IndexError)"

definition write_bits :: "int list \<Rightarrow> nat \<Rightarrow> nat \<Rightarrow> int \<Rightarrow> nat \<Rightarrow> int list outcome" where
  "write_bits dest dbyte dbit value bits =
     (let shift = 8 - (dbit + bits); mask = push_bit shift (bitmask bits)
      in omap (\<lambda>old. dest[dbyte := (old AND NOT mask) OR (push_bit shift value AND mask)])
           (byte_at dest (int dbyte)))"

definition read_split_byte :: "int list \<Rightarrow> nat \<Rightarrow> nat \<Rightarrow> int outcome" where
  "read_split_byte src sbyte offset =
     obind (byte_at src (int sbyte)) (\<lambda>a. omap (\<lambda>b. drop_bit (8 - offset) (push_bit 8 a OR b) AND 255)
       (byte_at src (int sbyte + 1)))"

definition read_split_bits :: "int list \<Rightarrow> nat \<Rightarrow> nat \<Rightarrow> nat \<Rightarrow> int outcome" where
  "read_split_bits src sbyte offset bits =
     (let last = int offset + int bits - 1
      in obind (byte_at src (int sbyte)) (\<lambda>a. omap (\<lambda>b.
           drop_bit (nat (15 - last)) (push_bit 8 a OR b) AND (push_bit bits 1 - 1))
           (byte_at src (int sbyte + last div 8))))"

section \<open>Copying bits\<close>

type_synonym store = "int list list"

definition copy_part ::
    "nat \<Rightarrow> nat \<Rightarrow> nat \<Rightarrow> nat \<Rightarrow> nat \<Rightarrow> nat \<Rightarrow> nat \<Rightarrow> store \<Rightarrow> store outcome" where
  "copy_part d dbyte dbit s sbyte sbit nbits st =
     obind (read_split_bits (st ! s) sbyte sbit nbits) (\<lambda>value.
       omap (\<lambda>dest. st[d := dest]) (write_bits (st ! d) dbyte dbit value nbits))"

text \<open>The loop over whole bytes when the two sides are not aligned.\<close>

fun copy_loop :: "nat \<Rightarrow> nat \<Rightarrow> nat \<Rightarrow> nat \<Rightarrow> nat \<Rightarrow> nat \<Rightarrow> store \<Rightarrow> store outcome" where
  "copy_loop 0 d dbyte s sbyte sbit st = Returned st"
| "copy_loop (Suc n) d dbyte s sbyte sbit st =
     obind (read_split_byte (st ! s) sbyte sbit) (\<lambda>value.
       if dbyte < length (st ! d)
       then copy_loop n d (Suc dbyte) s (Suc sbyte) sbit (st[d := (st ! d)[dbyte := value]])
       else Raised IndexError)"

text \<open>\<open>dest[dbyte:dbyte+n] = src[sbyte:sbyte+n]\<close>, with Python's clamping of slices.\<close>

definition copy_slice :: "nat \<Rightarrow> nat \<Rightarrow> nat \<Rightarrow> nat \<Rightarrow> nat \<Rightarrow> store \<Rightarrow> store" where
  "copy_slice n d dbyte s sbyte st =
     st[d := take dbyte (st ! d) @ take n (drop sbyte (st ! s)) @ drop (dbyte + n) (st ! d)]"

definition copy_bits :: "nat \<Rightarrow> nat \<Rightarrow> nat \<Rightarrow> nat \<Rightarrow> nat \<Rightarrow> store \<Rightarrow> store outcome" where
  "copy_bits d dstart s sstart count st =
     (let (dbyte, dbit) = split_index dstart; (sbyte, sbit) = split_index sstart;
          nbits = (if 0 < dbit then min (8 - dbit) count else 0)
      in obind (if 0 < dbit then copy_part d dbyte dbit s sbyte sbit nbits st else Returned st) (\<lambda>st.
           let dbyte = (if 0 < dbit then dbyte + 1 else dbyte);
               sbyte = sbyte + (sbit + nbits) div 8; sbit = (sbit + nbits) mod 8;
               count = count - nbits; n = count div 8
           in obind (if sbit = 0 then Returned (copy_slice n d dbyte s sbyte st)
                     else copy_loop n d dbyte s sbyte sbit st) (\<lambda>st.
                let remain = count mod 8
                in if 0 < remain then copy_part d (dbyte + n) 0 s (sbyte + n) sbit remain st
                   else Returned st)))"

section \<open>Bits as values\<close>

text \<open>The table \<open>_exploded\<close> and the second definition of \<open>_unpack\<close>, which replaces the first.\<close>

definition exploded :: "int \<Rightarrow> int list" where
  "exploded x = map (\<lambda>shift. drop_bit shift x AND 1) (rev [0..<8])"

definition py_slice :: "int \<Rightarrow> int \<Rightarrow> 'a list \<Rightarrow> 'a list" where
  "py_slice a b xs =
     (let n = int (length xs);
          a = (if a < 0 then max 0 (a + n) else min a n); b = (if b < 0 then max 0 (b + n) else min b n)
      in take (nat (b - a)) (drop (nat a) xs))"

text \<open>The whole bytes and the rest after them, from a byte boundary on.\<close>

definition unpack_tail :: "int list \<Rightarrow> int \<Rightarrow> int \<Rightarrow> int list outcome" where
  "unpack_tail src byte count =
     (let n = count div 8; body = concat (map exploded (py_slice byte (byte + n) src)); remain = count mod 8
      in if 0 < remain
         then omap (\<lambda>v. body @ py_slice 0 remain (exploded v)) (byte_at src (byte + n))
         else Returned body)"

definition unpack :: "int list \<Rightarrow> nat \<Rightarrow> int \<Rightarrow> int list outcome" where
  "unpack src start count =
     (let (byte, bit) = split_index start; nbits = min (8 - int bit) count
      in if 0 < bit
         then obind (byte_at src (int byte)) (\<lambda>v.
           omap (\<lambda>tail. py_slice (int bit) (int bit + nbits) (exploded v) @ tail)
             (unpack_tail src (int byte + 1) (count - nbits)))
         else unpack_tail src (int byte) count)"

text \<open>\<open>_iterable_to_bytes\<close>, after the items have been converted; \<open>shift\<close> counts down from 7.\<close>

fun iterable_to_bytes :: "int \<Rightarrow> nat \<Rightarrow> bool list \<Rightarrow> int list" where
  "iterable_to_bytes value shift [] = (if shift \<noteq> 7 then [value] else [])"
| "iterable_to_bytes value shift (item # items) =
     (let value = value OR push_bit shift (if item then 1 else 0)
      in if shift = 0 then value # iterable_to_bytes 0 7 items
         else iterable_to_bytes value (shift - 1) items)"

text \<open>\<open>biterator\<close>: the bits of an integer, the most significant first.\<close>

definition biterator :: "int \<Rightarrow> nat \<Rightarrow> int list" where
  "biterator value bits = map (\<lambda>shift. drop_bit shift value AND 1) (rev [0..<bits])"

text \<open>
  \<open>takeskip\<close> ends with the \<open>StopIteration\<close> of the iterator; with nothing to take and nothing to
  skip it never asks the iterator, and never ends.
\<close>

function takeskip :: "nat \<Rightarrow> nat \<Rightarrow> 'a list \<Rightarrow> 'a list outcome" where
  "takeskip tk sk xs =
     (if tk = 0 \<and> sk = 0 then Blocked
      else if length xs < tk + sk then Returned (take tk xs)
      else omap (\<lambda>ys. take tk xs @ ys) (takeskip tk sk (drop (tk + sk) xs)))"
  by pat_completeness auto

termination by (relation "measure (\<lambda>(tk, sk, xs). length xs)") auto

declare takeskip.simps [simp del]

section \<open>The class\<close>

record bitbuffer =
  bb_data :: nat
  bb_bits :: int
  bb_start :: nat

text \<open>The kinds of argument the constructor tells apart.\<close>

datatype bitsource =
    SNone | SBuffer bitbuffer | SBytes nat | SInt int | SStr string | SItems "int list"

fun map_outcome :: "('a \<Rightarrow> 'b outcome) \<Rightarrow> 'a list \<Rightarrow> 'b list outcome" where
  "map_outcome f [] = Returned []"
| "map_outcome f (x # xs) = obind (f x) (\<lambda>y. omap (\<lambda>ys. y # ys) (map_outcome f xs))"

text \<open>\<open>len\<close> of an object whose length is negative raises a \<open>ValueError\<close>.\<close>

definition bb_len :: "bitbuffer \<Rightarrow> int outcome" where
  "bb_len b = (if bb_bits b < 0 then Raised ValueError else Returned (bb_bits b))"

definition from_items :: "int list \<Rightarrow> int option \<Rightarrow> nat \<Rightarrow> store \<Rightarrow> bitbuffer \<times> store" where
  "from_items items bits start st =
     (\<lparr>bb_data = length st, bb_bits = (case bits of None \<Rightarrow> int (length items) | Some n \<Rightarrow> n), bb_start = start\<rparr>,
      st @ [iterable_to_bytes 0 7 (map (\<lambda>x. x \<noteq> 0) items)])"

definition bitbuffer_init ::
    "bitsource \<Rightarrow> int option \<Rightarrow> nat option \<Rightarrow> store \<Rightarrow> (bitbuffer \<times> store) outcome" where
  "bitbuffer_init data bits start st =
     (let start0 = (case start of None \<Rightarrow> 0 | Some n \<Rightarrow> n)
      in case data of
        SNone \<Rightarrow>
          (let n = (case bits of None \<Rightarrow> 0 | Some n \<Rightarrow> n)
           in if bits_to_bytes n < 0 then Raised ValueError
              else Returned (\<lparr>bb_data = length st, bb_bits = n, bb_start = start0\<rparr>,
                st @ [replicate (nat (bits_to_bytes n)) 0]))
      | SBuffer b \<Rightarrow>
          omap (\<lambda>n. (\<lparr>bb_data = bb_data b, bb_bits = n,
              bb_start = (case start of None \<Rightarrow> bb_start b | Some k \<Rightarrow> k)\<rparr>, st))
            (case bits of None \<Rightarrow> bb_len b | Some n \<Rightarrow> Returned n)
      | SBytes a \<Rightarrow> Returned (\<lparr>bb_data = a, bb_bits = (case bits of None \<Rightarrow> int (length (st ! a)) * 8 | Some n \<Rightarrow> n),
            bb_start = start0\<rparr>, st)
      | SInt v \<Rightarrow> (case bits of None \<Rightarrow> Raised TypeError
          | Some n \<Rightarrow> Returned (from_items (biterator v (nat n)) bits start0 st))
      | SStr s \<Rightarrow> omap (\<lambda>items. from_items items bits start0 st) (map_outcome char_to_bit s)
      | SItems items \<Rightarrow> Returned (from_items items bits start0 st))"


section \<open>Element access\<close>

definition bb_check_index :: "bitbuffer \<Rightarrow> int \<Rightarrow> int outcome" where
  "bb_check_index b pos =
     (let pos = (if pos < 0 then bb_bits b + pos else pos)
      in if bb_bits b \<le> pos \<or> pos < 0 then Raised IndexError else Returned pos)"

definition bb_split_index :: "bitbuffer \<Rightarrow> int \<Rightarrow> nat \<times> nat" where
  "bb_split_index b pos = split_index (nat pos + bb_start b)"

definition bb_getbit :: "bitbuffer \<Rightarrow> int \<Rightarrow> store \<Rightarrow> int outcome" where
  "bb_getbit b pos st =
     obind (bb_check_index b pos) (\<lambda>pos.
       let (byte, bit) = bb_split_index b pos
       in omap (\<lambda>v. drop_bit (7 - bit) v AND 1) (byte_at (st ! bb_data b) (int byte)))"

definition bb_setbit :: "bitbuffer \<Rightarrow> int \<Rightarrow> int \<Rightarrow> store \<Rightarrow> store outcome" where
  "bb_setbit b pos value st =
     obind (bb_check_index b pos) (\<lambda>pos.
       let (byte, bit) = bb_split_index b pos; mask = push_bit (7 - bit) 1;
           value = (if value \<noteq> 0 then mask else 0)
       in omap (\<lambda>v. st[bb_data b := (st ! bb_data b)[byte := (v AND NOT mask) OR value]])
            (byte_at (st ! bb_data b) (int byte)))"

text \<open>Python's \<open>slice.indices\<close>; a step of zero is an error.\<close>

definition slice_bound :: "int \<Rightarrow> int \<Rightarrow> int \<Rightarrow> int \<Rightarrow> int" where
  "slice_bound len lower upper x = (if x < 0 then max (x + len) lower else min x upper)"

definition slice_indices ::
    "int option \<Rightarrow> int option \<Rightarrow> int option \<Rightarrow> int \<Rightarrow> (int \<times> int \<times> int) outcome" where
  "slice_indices start stop step len =
     (let step = (case step of None \<Rightarrow> 1 | Some k \<Rightarrow> k);
          lower = (if step < 0 then - 1 else 0); upper = (if step < 0 then len - 1 else len);
          first = (case start of None \<Rightarrow> (if step < 0 then upper else lower)
             | Some x \<Rightarrow> slice_bound len lower upper x);
          last = (case stop of None \<Rightarrow> (if step < 0 then lower else upper)
             | Some x \<Rightarrow> slice_bound len lower upper x)
      in if step = 0 then Raised ValueError else Returned (first, last, step))"

definition bb_indices ::
    "bitbuffer \<Rightarrow> int option \<Rightarrow> int option \<Rightarrow> int option \<Rightarrow> (int \<times> int \<times> int) outcome" where
  "bb_indices b start stop step = obind (bb_len b) (slice_indices start stop step)"

definition xrange :: "int \<Rightarrow> int \<Rightarrow> int \<Rightarrow> int list" where
  "xrange start stop step =
     (let n = (if 0 < step then (stop - start + step - 1) div step else (start - stop - step - 1) div (- step))
      in map (\<lambda>i. start + int i * step) [0..<nat n])"

text \<open>With step 1 the slice is a view; its length is not clamped at zero.\<close>

definition bb_view :: "bitbuffer \<Rightarrow> int \<Rightarrow> int \<Rightarrow> bitbuffer" where
  "bb_view b start stop =
     \<lparr>bb_data = bb_data b, bb_bits = stop - start, bb_start = bb_start b + nat start\<rparr>"

definition bb_getslice ::
    "bitbuffer \<Rightarrow> int option \<Rightarrow> int option \<Rightarrow> int option \<Rightarrow> store \<Rightarrow> (bitbuffer \<times> store) outcome" where
  "bb_getslice b start stop step st =
     obind (bb_indices b start stop step) (\<lambda>(start, stop, step).
       if step = 1 then Returned (bb_view b start stop, st)
       else obind (map_outcome (\<lambda>pos. bb_getbit b pos st) (xrange start stop step)) (\<lambda>items.
         bitbuffer_init (SItems items) None None st))"

definition bb_assign :: "bitbuffer \<Rightarrow> int \<Rightarrow> int \<Rightarrow> bitbuffer \<Rightarrow> store \<Rightarrow> store outcome" where
  "bb_assign b start stop other st =
     obind (bb_len other) (\<lambda>n.
       if stop - start \<noteq> n then Raised ValueError
       else copy_bits (bb_data b) (bb_start b + nat start) (bb_data other) (bb_start other) (nat n) st)"

text \<open>The right-hand side of a slice assignment: a bit buffer, a sequence, or a single value.\<close>

datatype bitvalue = VBuffer bitbuffer | VItems "int list" | VScalar int

fun set_all :: "bitbuffer \<Rightarrow> (int \<times> int) list \<Rightarrow> store \<Rightarrow> store outcome" where
  "set_all b [] st = Returned st"
| "set_all b ((index, val) # rest) st = obind (bb_setbit b index val st) (set_all b rest)"

definition bb_iter :: "bitbuffer \<Rightarrow> store \<Rightarrow> int list outcome" where
  "bb_iter b st = unpack (st ! bb_data b) (bb_start b) (bb_bits b)"

definition bb_setslice ::
    "bitbuffer \<Rightarrow> int option \<Rightarrow> int option \<Rightarrow> int option \<Rightarrow> bitvalue \<Rightarrow> store \<Rightarrow> store outcome" where
  "bb_setslice b start stop step value st =
     obind (bb_indices b start stop step) (\<lambda>(start, stop, step).
       let indices = xrange start stop step
       in case value of
         VBuffer other \<Rightarrow>
           if step = 1 then bb_assign b start stop other st
           else obind (bb_len other) (\<lambda>n. if n \<noteq> int (length indices) then Raised ValueError
             else obind (bb_iter other st) (\<lambda>items. set_all b (zip indices items) st))
       | VItems items \<Rightarrow> if length items \<noteq> length indices then Raised ValueError
             else set_all b (zip indices items) st
       | VScalar v \<Rightarrow> set_all b (zip indices (replicate (length indices) v)) st)"

section \<open>Conversions and searches\<close>

definition bb_str :: "bitbuffer \<Rightarrow> store \<Rightarrow> string outcome" where
  "bb_str b st = omap (map (\<lambda>x. if x = 0 then CHR ''0'' else CHR ''1'')) (bb_iter b st)"

definition bb_int :: "bitbuffer \<Rightarrow> store \<Rightarrow> int outcome" where
  "bb_int b st = omap (foldl (\<lambda>value bit. push_bit 1 value OR bit) 0) (bb_iter b st)"

definition bb_copy :: "bitbuffer \<Rightarrow> store \<Rightarrow> bitbuffer \<times> store" where
  "bb_copy b st = (b\<lparr>bb_data := length st\<rparr>, st @ [st ! bb_data b])"

definition bb_add :: "bitbuffer \<Rightarrow> bitbuffer \<Rightarrow> store \<Rightarrow> (bitbuffer \<times> store) outcome" where
  "bb_add b other st =
     obind (bb_len b) (\<lambda>m. obind (bb_len other) (\<lambda>n.
       obind (bitbuffer_init SNone (Some (m + n)) None st) (\<lambda>(result, st).
         obind (bb_setslice result None (Some m) None (VBuffer b) st) (\<lambda>st.
           omap (Pair result) (bb_setslice result (Some m) None None (VBuffer other) st)))))"

text \<open>
  \<open>bytes\<close>: the rest of the backing array when the first bit is byte-aligned, otherwise a copy into
  a new, aligned buffer.
\<close>

definition bb_bytes :: "bitbuffer \<Rightarrow> store \<Rightarrow> (int list \<times> store) outcome" where
  "bb_bytes b st =
     (let (byte, bit) = bb_split_index b 0
      in if bit = 0 then Returned (drop byte (st ! bb_data b), st)
         else obind (bb_len b) (\<lambda>n. obind (bitbuffer_init SNone (Some n) None st) (\<lambda>(temp, st).
           omap (\<lambda>st. (st ! bb_data temp, st)) (bb_setslice temp None None None (VBuffer b) st))))"

definition bb_unpack :: "bitbuffer \<Rightarrow> store \<Rightarrow> int list outcome" where
  "bb_unpack b st = bb_iter b st"

definition bb_popcount :: "bitbuffer \<Rightarrow> store \<Rightarrow> int outcome" where
  "bb_popcount b st = omap sum_list (bb_iter b st)"

definition bits_distance :: "int list \<Rightarrow> int list \<Rightarrow> int" where
  "bits_distance xs ys = sum_list (map (\<lambda>(x, y). x XOR (if y \<noteq> 0 then 1 else 0)) (zip xs ys))"

definition bb_distance :: "bitbuffer \<Rightarrow> bitbuffer \<Rightarrow> store \<Rightarrow> int outcome" where
  "bb_distance b other st =
     obind (bb_iter b st) (\<lambda>xs. omap (bits_distance xs) (bb_iter other st))"

definition bb_eq :: "bitbuffer \<Rightarrow> bitbuffer \<Rightarrow> store \<Rightarrow> bool outcome" where
  "bb_eq b other st =
     obind (bb_len b) (\<lambda>m. obind (bb_len other) (\<lambda>n.
       if m \<noteq> n then Returned False
       else obind (bb_iter b st) (\<lambda>xs. omap (\<lambda>ys.
         list_all (\<lambda>(x, y). x = (if y \<noteq> 0 then 1 else 0)) (zip xs ys)) (bb_iter other st))))"

fun find_loop :: "bitbuffer \<Rightarrow> bitbuffer \<Rightarrow> int \<Rightarrow> int \<Rightarrow> int list \<Rightarrow> store \<Rightarrow> int outcome" where
  "find_loop b pattern n maxDistance [] st = Returned (- 1)"
| "find_loop b pattern n maxDistance (pos # rest) st =
     obind (bb_getslice b (Some pos) (Some (pos + n)) None st) (\<lambda>(part, st).
       obind (bb_distance pattern part st) (\<lambda>dist.
         if dist \<le> maxDistance then Returned pos else find_loop b pattern n maxDistance rest st))"

definition bb_find ::
    "bitbuffer \<Rightarrow> bitbuffer \<Rightarrow> int option \<Rightarrow> int option \<Rightarrow> int \<Rightarrow> store \<Rightarrow> int outcome" where
  "bb_find b pattern start stop maxDistance st =
     obind (bb_len pattern) (\<lambda>n. obind (bb_indices b start stop None) (\<lambda>(start, stop, step).
       obind (bb_len b) (\<lambda>len.
         find_loop b pattern n maxDistance (xrange start (min stop (len - n)) 1) st)))"

definition bb_takeskip ::
    "bitbuffer \<Rightarrow> nat \<Rightarrow> nat \<Rightarrow> int option \<Rightarrow> int option \<Rightarrow> store \<Rightarrow> (bitbuffer \<times> store) outcome" where
  "bb_takeskip b tk sk start stop st =
     obind (bb_indices b start stop None) (\<lambda>(start, stop, step).
       obind (bb_getslice b (Some start) (Some stop) None st) (\<lambda>(part, st).
         obind (bb_iter part st) (\<lambda>items. obind (takeskip tk sk items) (\<lambda>kept.
           bitbuffer_init (SItems kept) None None st))))"

end
