(* ===== verification/BitStrings.thy ===== *)
theory BitStrings
  imports BitBuffer
begin

text \<open>
  The bit buffer as a string of bits: packing and unpacking are inverse, the copy by bytes does
  what a copy bit by bit would do, integers survive the round trip, and searching finds what the
  definition of the Hamming distance says, short of the last position.
\<close>

section \<open>The bits of a byte array\<close>

definition get_bit :: "int list \<Rightarrow> nat \<Rightarrow> bool" where
  "get_bit xs i = bit (xs ! (i div 8)) (7 - i mod 8)"

definition bits_of :: "int list \<Rightarrow> nat \<Rightarrow> nat \<Rightarrow> bool list" where
  "bits_of xs start n = map (get_bit xs) [start..<start + n]"

definition bytes_ok :: "int list \<Rightarrow> bool" where
  "bytes_ok xs \<longleftrightarrow> (\<forall>x\<in>set xs. 0 \<le> x \<and> x < 256)"

lemma length_bits_of [simp]: "length (bits_of xs start n) = n"
  by (simp add: bits_of_def)

lemma drop_and_one: "drop_bit k x AND 1 = of_bool (bit (x :: int) k)"
  by (simp add: and_one_eq bit_iff_odd_drop_bit mod2_eq_if)

lemma exploded_bits: "exploded x = map (\<lambda>j. of_bool (bit x (7 - j))) [0..<8]"
  by (rule nth_equalityI) (auto simp: exploded_def drop_and_one rev_nth)

lemma byte_at_in [simp]: "i < length xs \<Longrightarrow> byte_at xs (int i) = Returned (xs ! i)"
  by (simp add: byte_at_def)

lemma get_bit_byte: "j < 8 \<Longrightarrow> get_bit xs (8 * i + j) = bit (xs ! i) (7 - j)"
  by (simp add: get_bit_def)

lemma exploded_nth: "exploded (xs ! i) = map (\<lambda>k. of_bool (get_bit xs k)) [8 * i..<8 * Suc i]"
  by (rule nth_equalityI) (auto simp: exploded_bits get_bit_byte)

lemma exploded_run:
  "concat (map exploded (take n (drop i xs))) = map (\<lambda>k. of_bool (get_bit xs k)) [8 * i..<8 * (i + n)]"
  if "i + n \<le> length xs"
  using that
proof (induction n)
  case (Suc n)
  then have "take (Suc n) (drop i xs) = take n (drop i xs) @ [xs ! (i + n)]"
    by (simp add: take_Suc_conv_app_nth)
  moreover have "[8 * i..<8 * (i + Suc n)] = [8 * i..<8 * (i + n)] @ [8 * (i + n)..<8 * Suc (i + n)]"
    using upt_add_eq_append [of "8 * i" "8 * (i + n)" 8] by (simp add: add.commute del: upt_Suc)
  ultimately show ?case using Suc by (simp add: exploded_nth del: upt_Suc)
qed simp

lemma py_slice_nat: "py_slice (int a) (int b) xs = take (b - a) (drop a xs)"
proof -
  have "nat (min (int b) (int (length xs)) - min (int a) (int (length xs))) = min b (length xs) - min a (length xs)"
    by linarith
  then show ?thesis
    by (simp add: py_slice_def Let_def min_def)
qed

lemma exploded_part:
  "j + m \<le> 8 \<Longrightarrow> py_slice (int j) (int j + int m) (exploded (xs ! i)) = map of_bool (bits_of xs (8 * i + j) m)"
proof -
  assume jm: "j + m \<le> 8"
  have "py_slice (int j) (int j + int m) (exploded (xs ! i)) = take m (drop j (exploded (xs ! i)))"
    using py_slice_nat [of j "j + m" "exploded (xs ! i)"] by simp
  also have "\<dots> = map of_bool (bits_of xs (8 * i + j) m)"
  proof (rule nth_equalityI)
    fix k assume "k < length (take m (drop j (exploded (xs ! i))))"
    then have k: "k < m" "j + k < 8" using jm by (auto simp: exploded_bits)
    then show "take m (drop j (exploded (xs ! i))) ! k = map of_bool (bits_of xs (8 * i + j) m) ! k"
      using get_bit_byte [OF k(2), of xs i] by (simp add: exploded_bits bits_of_def add.assoc)
  qed (use jm in \<open>simp add: exploded_bits\<close>)
  finally show ?thesis .
qed

lemma bits_of_append: "bits_of xs start (m + n) = bits_of xs start m @ bits_of xs (start + m) n"
  using upt_add_eq_append [of start "start + m" n] by (simp add: bits_of_def add.assoc)

lemma unpack_tail_bits:
  assumes "8 * byte + count \<le> 8 * length src"
  shows "unpack_tail src (int byte) (int count) = Returned (map of_bool (bits_of src (8 * byte) count))"
proof -
  let ?n = "count div 8" and ?r = "count mod 8"
  have c: "count = 8 * ?n + ?r" by simp
  have n: "byte + ?n \<le> length src" using assms c by linarith
  have i: "int count div 8 = int ?n" "int count mod 8 = int ?r" "int byte + int ?n = int (byte + ?n)"
    by (simp_all add: zdiv_int zmod_int)
  have body: "concat (map exploded (py_slice (int byte) (int (byte + ?n)) src)) =
      map of_bool (bits_of src (8 * byte) (8 * ?n))"
    unfolding py_slice_nat using exploded_run [OF n] by (simp add: bits_of_def algebra_simps)
  have all: "bits_of src (8 * byte) count = bits_of src (8 * byte) (8 * ?n) @ bits_of src (8 * (byte + ?n)) ?r"
    using bits_of_append [of src "8 * byte" "8 * ?n" ?r] c by (simp add: algebra_simps)
  show ?thesis
  proof (cases "0 < ?r")
    case True
    then have in_range: "byte + ?n < length src" using assms c by linarith
    have "py_slice 0 (int ?r) (exploded (src ! (byte + ?n))) = map of_bool (bits_of src (8 * (byte + ?n)) ?r)"
      using exploded_part [of 0 ?r src "byte + ?n"] by simp
    then show ?thesis
      unfolding unpack_tail_def Let_def i body all byte_at_in [OF in_range] using True by simp
  next
    case False
    then show ?thesis
      unfolding unpack_tail_def Let_def i body all by (simp add: bits_of_def)
  qed
qed

lemma next_byte: "j < 8 \<Longrightarrow> 8 * b + j = (s::nat) \<Longrightarrow> s + (8 - j) = 8 * (b + 1)"
  by simp

lemma unpack_bits:
  assumes "start + count \<le> 8 * length src"
  shows "unpack src start (int count) = Returned (map of_bool (bits_of src start count))"
proof -
  let ?b = "start div 8" and ?j = "start mod 8"
  have s: "8 * ?b + ?j = start" by simp
  show ?thesis
  proof (cases "0 < ?j")
    case False
    then show ?thesis
      using unpack_tail_bits [of ?b count src] assms s by (simp add: unpack_def split_index_def)
  next
    case True
    let ?m = "min (8 - ?j) count"
    have m: "min (8 - int ?j) (int count) = int ?m" "int count - int ?m = int (count - ?m)"
      "int ?b + 1 = int (?b + 1)"
      by linarith+
    have byte: "?b < length src" using assms s True by linarith
    have head: "py_slice (int ?j) (int ?j + int ?m) (exploded (src ! ?b)) = map of_bool (bits_of src start ?m)"
      using exploded_part [of ?j ?m src ?b] s by simp
    have tail: "unpack_tail src (int (?b + 1)) (int (count - ?m)) =
        Returned (map of_bool (bits_of src (start + ?m) (count - ?m)))"
    proof (cases "count \<le> 8 - ?j")
      case True
      then show ?thesis using unpack_tail_bits [of "?b + 1" 0 src] byte by (simp add: bits_of_def)
    next
      case False
      then have "?m = 8 - ?j" by simp
      then have "start + ?m = 8 * (?b + 1)" using next_byte [OF _ s] by simp
      then show ?thesis
        using unpack_tail_bits [of "?b + 1" "count - ?m" src] assms False by simp
    qed
    have all: "bits_of src start count = bits_of src start ?m @ bits_of src (start + ?m) (count - ?m)"
      using bits_of_append [of src start ?m "count - ?m"] by simp
    show ?thesis
      unfolding unpack_def split_index_def Let_def prod.case m byte_at_in [OF byte] obind.simps head tail all
      using True by simp
  qed
qed

section \<open>Packing\<close>

text \<open>The bits collected so far of the byte that is being filled.\<close>

definition partial_byte :: "bool list \<Rightarrow> int \<Rightarrow> bool" where
  "partial_byte ps v \<longleftrightarrow> 0 \<le> v \<and> v < 256 \<and> length ps \<le> 8 \<and>
     (\<forall>k<8. bit v k = (7 - k < length ps \<and> ps ! (7 - k)))"

lemma or_lt_256: "0 \<le> (a::int) \<Longrightarrow> a < 256 \<Longrightarrow> 0 \<le> b \<Longrightarrow> b < 256 \<Longrightarrow> a OR b < 256"
  using OR_upper [of a 8 b] by simp

lemma partial_byte_Nil [simp]: "partial_byte [] 0"
  by (simp add: partial_byte_def)

lemma partial_byte_snoc:
  assumes "partial_byte ps v" "length ps + shift = 7"
  shows "partial_byte (ps @ [item]) (v OR push_bit shift (if item then 1 else 0))"
proof -
  have p: "push_bit shift (1::int) < 256" "0 \<le> push_bit shift (1::int)"
  proof -
    have "(2::int) ^ shift \<le> 2 ^ 7" using assms(2) by (intro power_increasing) auto
    then show "push_bit shift (1::int) < 256" by (simp add: push_bit_eq_mult)
  qed (simp add: push_bit_eq_mult)
  have "v OR push_bit shift (if item then 1 else 0) < 256"
    using assms(1) p by (intro or_lt_256) (auto simp: partial_byte_def)
  moreover have "0 \<le> v OR push_bit shift (if item then 1 else 0)"
    using assms(1) p by (auto simp: partial_byte_def)
  moreover have "bit (v OR push_bit shift (if item then 1 else 0)) k =
      (7 - k < length (ps @ [item]) \<and> (ps @ [item]) ! (7 - k))" if "k < 8" for k
  proof -
    have "bit v k = (7 - k < length ps \<and> ps ! (7 - k))" using assms(1) that by (simp add: partial_byte_def)
    moreover have "bit (push_bit shift (if item then 1 else (0::int))) k = (item \<and> k = shift)"
      by (auto simp: bit_push_bit_iff bit_1_iff)
    moreover have "k = shift \<longleftrightarrow> 7 - k = length ps" using assms(2) that by linarith
    ultimately show ?thesis by (auto simp: bit_or_iff nth_append)
  qed
  ultimately show ?thesis using assms(2) by (simp add: partial_byte_def)
qed

text \<open>What the generator returns: the items, padded with zero bits to whole bytes.\<close>

definition packs :: "int list \<Rightarrow> bool list \<Rightarrow> bool" where
  "packs ys bs \<longleftrightarrow> bytes_ok ys \<and> length ys = (length bs + 7) div 8 \<and>
     (\<forall>i < 8 * length ys. get_bit ys i = (i < length bs \<and> bs ! i))"

lemma packs_Cons:
  assumes "partial_byte ps v" "length ps = 8" "packs ys bs"
  shows "packs (v # ys) (ps @ bs)"
proof -
  have "get_bit (v # ys) i = (i < length (ps @ bs) \<and> (ps @ bs) ! i)" if "i < 8 * length (v # ys)" for i
  proof (cases "i < 8")
    case True
    then show ?thesis using assms(1,2) by (auto simp: get_bit_def partial_byte_def nth_append)
  next
    case False
    then have "i = 8 + (i - 8)" by simp
    then obtain j where j: "i = 8 + j" by blast
    have "get_bit (v # ys) i = get_bit ys j" by (simp add: get_bit_def j)
    also have "\<dots> = (j < length bs \<and> bs ! j)" using assms(3) that j by (simp add: packs_def)
    finally show ?thesis using assms(2) by (simp add: j nth_append)
  qed
  then show ?thesis using assms by (auto simp: packs_def bytes_ok_def partial_byte_def)
qed

lemma iterable_to_bytes_packs:
  assumes "partial_byte ps v" "length ps + shift = 7"
  shows "packs (iterable_to_bytes v shift items) (ps @ items)"
  using assms
proof (induction v shift items arbitrary: ps rule: iterable_to_bytes.induct)
  case (1 v shift)
  show ?case
  proof (cases "ps = []")
    case True
    then show ?thesis using 1 by (simp add: packs_def bytes_ok_def)
  next
    case False
    then have l: "0 < length ps" "length ps \<le> 7" using 1 by auto
    from l have "(length ps + 7) div 8 = 1" by presburger
    moreover have "shift \<noteq> 7" using 1 l by auto
    ultimately show ?thesis using 1
      by (auto simp: packs_def bytes_ok_def partial_byte_def get_bit_def)
  qed
next
  case (2 v shift item items)
  let ?v = "v OR push_bit shift (if item then 1 else 0)"
  have p: "partial_byte (ps @ [item]) ?v" by (rule partial_byte_snoc [OF "2.prems"])
  show ?case
  proof (cases "shift = 0")
    case True
    then have "packs (iterable_to_bytes 0 7 items) ([] @ items)" using "2.IH"(1) by simp
    from packs_Cons [OF p _ this] show ?thesis using True "2.prems"(2) by (simp add: Let_def)
  next
    case False
    then show ?thesis using "2.IH"(2) [OF refl _ p] "2.prems"(2) by (simp add: Let_def)
  qed
qed

lemma pack_bits: "packs (iterable_to_bytes 0 7 items) items"
  using iterable_to_bytes_packs [of "[]" 0 7 items] by simp

lemma packs_bits_of: "packs ys bs \<Longrightarrow> bits_of ys 0 (length bs) = bs"
proof (rule nth_equalityI)
  fix i assume p: "packs ys bs" "i < length (bits_of ys 0 (length bs))"
  then have "i < 8 * length ys" by (simp add: packs_def)
  then show "bits_of ys 0 (length bs) ! i = bs ! i" using p by (simp add: packs_def bits_of_def)
qed simp


section \<open>The copy by bytes is a copy by bits\<close>

lemma bit_byte: "0 \<le> (x::int) \<Longrightarrow> x < 256 \<Longrightarrow> 8 \<le> k \<Longrightarrow> \<not> bit x k"
proof -
  assume x: "0 \<le> x" "x < 256" "8 \<le> k"
  then have "x = take_bit 8 x" by (simp add: take_bit_int_eq_self)
  then show ?thesis using x(3) by (metis bit_take_bit_iff not_less)
qed

lemma bytes_ok_nth: "bytes_ok xs \<Longrightarrow> i < length xs \<Longrightarrow> 0 \<le> xs ! i \<and> xs ! i < 256"
  by (simp add: bytes_ok_def)

lemma bit_bitmask [simp]: "bit (push_bit n 1 - 1 :: int) k = (k < n)"
  by (simp add: mask_eq_exp_minus_1 [symmetric] push_bit_eq_mult bit_mask_iff)

lemma bit_bitmask' [simp]: "bit (bitmask n) k = (k < n)"
  by (simp only: bitmask_def bit_bitmask)

lemma take_bit_256: "take_bit 8 (x::int) < 256"
  using take_bit_int_less_exp [of 8 x] by simp

lemma read_split_byte_bits:
  assumes "bytes_ok src" "sbyte + 1 < length src" "0 < off" "off < 8"
  shows "\<exists>v. read_split_byte src sbyte off = Returned v \<and> 0 \<le> v \<and> v < 256 \<and>
    (\<forall>k<8. bit v k = get_bit src (8 * sbyte + off + (7 - k)))"
proof -
  let ?a = "src ! sbyte" and ?b = "src ! (sbyte + 1)"
  let ?v = "drop_bit (8 - off) (push_bit 8 ?a OR ?b) AND 255"
  have in1: "byte_at src (int sbyte) = Returned ?a" using assms(2) by simp
  have in2: "byte_at src (int sbyte + 1) = Returned ?b"
    using byte_at_in [of "sbyte + 1" src] assms(2) by (simp add: add.commute)
  have r: "read_split_byte src sbyte off = Returned ?v"
    by (simp add: read_split_byte_def in1 in2)
  have m: "(255::int) = mask 8" by (simp add: mask_eq_exp_minus_1)
  have range: "0 \<le> ?v" "?v < 256"
    unfolding m take_bit_eq_mask [symmetric]
    by (rule take_bit_nonnegative) (rule take_bit_256)
  have "bit ?v k = get_bit src (8 * sbyte + off + (7 - k))" if k: "k < 8" for k
  proof -
    have "bit ?v k = (bit ?a (k + (8 - off) - 8) \<and> 8 \<le> k + (8 - off) \<or> bit ?b (k + (8 - off)))"
      using k by (auto simp: m bit_and_iff bit_or_iff bit_drop_bit_eq bit_push_bit_iff bit_mask_iff add.commute)
    also have "\<dots> = get_bit src (8 * sbyte + off + (7 - k))"
    proof (cases "8 \<le> k + (8 - off)")
      case True
      then have "8 * sbyte + off + (7 - k) = 8 * sbyte + (7 - (k - off))" "k + (8 - off) - 8 = k - off" "off \<le> k"
        using k assms(4) by linarith+
      moreover have "\<not> bit ?b (k + (8 - off))"
        using bit_byte bytes_ok_nth [OF assms(1), of "sbyte + 1"] assms(2) True by blast
      ultimately show ?thesis using get_bit_byte [of "7 - (k - off)" src sbyte] True k by simp
    next
      case False
      then have "k + 1 \<le> off" by linarith
      then obtain d where "off = k + 1 + d" by (auto simp: le_iff_add)
      then have "8 * sbyte + off + (7 - k) = 8 * (sbyte + 1) + (off - 1 - k)" "7 - (off - 1 - k) = k + (8 - off)"
        using k assms(4) by auto
      then show ?thesis using get_bit_byte [of "off - 1 - k" src "sbyte + 1"] False assms(4) by simp
    qed
    finally show ?thesis .
  qed
  then show ?thesis using r range by blast
qed

lemma read_split_bits_bits:
  assumes "bytes_ok src" "8 * sbyte + off + n \<le> 8 * length src" "0 < n" "n \<le> 8" "off < 8"
  shows "\<exists>v. read_split_bits src sbyte off n = Returned v \<and>
    (\<forall>k. bit v k = (k < n \<and> get_bit src (8 * sbyte + off + (n - 1 - k))))"
proof -
  define l where "l = off + n - 1"
  have l: "int off + int n - 1 = int l" "l < 16" using assms by (auto simp: l_def)
  have lb: "sbyte + l div 8 < length src" using assms(2,3) l(1) by (simp add: l_def)
  let ?a = "src ! sbyte" and ?b = "src ! (sbyte + l div 8)"
  have in1: "byte_at src (int sbyte) = Returned ?a" using lb by simp
  have in2: "byte_at src (int sbyte + int l div 8) = Returned ?b"
    using byte_at_in [OF lb] by (simp add: zdiv_int)
  let ?v = "drop_bit (15 - l) (push_bit 8 ?a OR ?b) AND bitmask n"
  have n15: "nat (15 - int l) = 15 - l" using l(2) by simp
  have r: "read_split_bits src sbyte off n = Returned ?v"
    unfolding read_split_bits_def Let_def l(1) in1 in2 obind.simps omap.simps n15 bitmask_def by (rule refl)
  have "bit ?v k = (k < n \<and> get_bit src (8 * sbyte + off + (n - 1 - k)))" for k
  proof (cases "k < n")
    case False
    then show ?thesis by (simp add: bit_and_iff)
  next
    case k: True
    have "bit ?v k = (bit ?a (k + (15 - l) - 8) \<and> 8 \<le> k + (15 - l) \<or> bit ?b (k + (15 - l)))"
      using k by (auto simp: bit_and_iff bit_or_iff bit_drop_bit_eq bit_push_bit_iff add.commute)
    also have "\<dots> = get_bit src (8 * sbyte + (l - k))"
    proof (cases "8 \<le> k + (15 - l)")
      case True
      then have e: "k + (15 - l) - 8 = 7 - (l - k)" "l - k < 8" using l(2) k by (auto simp: l_def)
      moreover have "\<not> bit ?b (k + (15 - l))"
        using bit_byte bytes_ok_nth [OF assms(1) lb] True by blast
      ultimately show ?thesis using get_bit_byte [of "l - k" src sbyte] True by simp
    next
      case False
      then have d: "l div 8 = 1" "8 \<le> l - k" "l - k - 8 < 8" "7 - (l - k - 8) = k + (15 - l)"
        using l(2) k by (auto simp: l_def)
      then have "8 * sbyte + (l - k) = 8 * (sbyte + 1) + (l - k - 8)" by simp
      then show ?thesis using get_bit_byte [OF d(3), of src "sbyte + 1"] d(1,4) False by simp
    qed
    also have "8 * sbyte + (l - k) = 8 * sbyte + off + (n - 1 - k)" using k assms(3) by (simp add: l_def)
    finally show ?thesis using k by simp
  qed
  then show ?thesis using r by blast
qed

lemma write_bits_bits:
  assumes "bytes_ok dest" "dbyte < length dest" "dbit + n \<le> 8"
  shows "\<exists>ys. write_bits dest dbyte dbit v n = Returned ys \<and> length ys = length dest \<and> bytes_ok ys \<and>
    (\<forall>i. get_bit ys i = (if 8 * dbyte + dbit \<le> i \<and> i < 8 * dbyte + dbit + n
      then bit v (8 * dbyte + dbit + n - 1 - i) else get_bit dest i))"
proof -
  let ?s = "8 - (dbit + n)" and ?old = "dest ! dbyte"
  let ?m = "push_bit ?s (bitmask n)"
  let ?new = "(?old AND NOT ?m) OR (push_bit ?s v AND ?m)"
  have w: "write_bits dest dbyte dbit v n = Returned (dest[dbyte := ?new])"
    unfolding write_bits_def Let_def byte_at_in [OF assms(2)] omap.simps by (rule refl)
  have bm: "bit ?m k = (?s \<le> k \<and> k < ?s + n)" for k
    by (auto simp: bit_push_bit_iff)
  have old: "0 \<le> ?old" "?old < 256" using bytes_ok_nth [OF assms(1,2)] by auto
  have bn: "bit ?new k = (if ?s \<le> k \<and> k < ?s + n then bit v (k - ?s) else bit ?old k)" for k
    by (auto simp: bit_or_iff bit_and_iff bit_not_iff bm bit_push_bit_iff)
  have new: "?new = take_bit 8 ?new"
  proof (rule bit_eqI)
    fix k show "bit ?new k = bit (take_bit 8 ?new) k"
      unfolding bit_take_bit_iff bn using bit_byte [OF old, of k] assms(3) by (cases "8 \<le> k") auto
  qed
  have range: "0 \<le> ?new" "?new < 256"
    by (subst new, rule take_bit_nonnegative) (subst new, rule take_bit_256)
  have "get_bit (dest[dbyte := ?new]) i = (if 8 * dbyte + dbit \<le> i \<and> i < 8 * dbyte + dbit + n
      then bit v (8 * dbyte + dbit + n - 1 - i) else get_bit dest i)" for i
  proof (cases "i div 8 = dbyte")
    case True
    then obtain j where j: "i = 8 * dbyte + j" "j < 8" by (metis mult_div_mod_eq mod_less_divisor zero_less_numeral)
    have "get_bit (dest[dbyte := ?new]) i = bit ?new (7 - j)"
      using get_bit_byte [OF j(2)] assms(2) j(1) by simp
    also have "\<dots> = (if dbit \<le> j \<and> j < dbit + n then bit v (dbit + n - 1 - j) else bit ?old (7 - j))"
    proof -
      have "(?s \<le> 7 - j \<and> 7 - j < ?s + n) = (dbit \<le> j \<and> j < dbit + n)" using assms(3) j(2) by auto
      moreover have "7 - j - ?s = dbit + n - 1 - j" if "dbit \<le> j \<and> j < dbit + n" using assms(3) that by auto
      ultimately show ?thesis unfolding bn by presburger
    qed
    also have "bit ?old (7 - j) = get_bit dest i" using get_bit_byte [OF j(2)] j(1) by simp
    finally show ?thesis using j(1) by auto
  next
    case False
    then have "\<not> (8 * dbyte + dbit \<le> i \<and> i < 8 * dbyte + dbit + n)" using assms(3) by auto
    moreover have "get_bit (dest[dbyte := ?new]) i = get_bit dest i" using False by (simp add: get_bit_def)
    ultimately show ?thesis by auto
  qed
  moreover have "bytes_ok (dest[dbyte := ?new])"
    using assms(1) range by (auto simp: bytes_ok_def dest: set_update_subset_insert [THEN subsetD])
  ultimately show ?thesis using w by auto
qed


definition copied :: "int list \<Rightarrow> nat \<Rightarrow> nat \<Rightarrow> nat \<Rightarrow> int list \<Rightarrow> int list \<Rightarrow> bool" where
  "copied S a b n D D' \<longleftrightarrow> length D' = length D \<and> bytes_ok D' \<and>
     (\<forall>i < 8 * length D. get_bit D' i = (if a \<le> i \<and> i < a + n then get_bit S (b + (i - a)) else get_bit D i))"

lemma copied_trans:
  assumes "copied S a b m D E" "copied S (a + m) (b + m) n E F"
  shows "copied S a b (m + n) D F"
  unfolding copied_def
proof (intro conjI allI impI)
  fix i assume i: "i < 8 * length D"
  have E: "get_bit E i = (if a \<le> i \<and> i < a + m then get_bit S (b + (i - a)) else get_bit D i)"
    using assms(1) i by (simp add: copied_def)
  have F: "get_bit F i = (if a + m \<le> i \<and> i < a + m + n then get_bit S (b + m + (i - (a + m))) else get_bit E i)"
    using assms i by (simp add: copied_def)
  have "b + m + (i - (a + m)) = b + (i - a)" if "a + m \<le> i" using that by simp
  then show "get_bit F i = (if a \<le> i \<and> i < a + (m + n) then get_bit S (b + (i - a)) else get_bit D i)"
    unfolding F E by auto
qed (use assms in \<open>auto simp: copied_def\<close>)

lemma copied_refl: "bytes_ok D \<Longrightarrow> copied S a b 0 D D"
  by (auto simp: copied_def)

lemma copy_part_copied:
  assumes "bytes_ok S" "bytes_ok D" "st ! s = S" "st ! d = D" "0 < n" "dbit + n \<le> 8" "sbit < 8"
    "8 * sbyte + sbit + n \<le> 8 * length S" "dbyte < length D"
  shows "\<exists>E. copy_part d dbyte dbit s sbyte sbit n st = Returned (st[d := E]) \<and>
    copied S (8 * dbyte + dbit) (8 * sbyte + sbit) n D E"
proof -
  obtain v where v: "read_split_bits S sbyte sbit n = Returned v"
    "\<forall>k. bit v k = (k < n \<and> get_bit S (8 * sbyte + sbit + (n - 1 - k)))"
    using read_split_bits_bits [OF assms(1,8,5) _ assms(7)] assms(6) by auto
  obtain E where E: "write_bits D dbyte dbit v n = Returned E" "length E = length D" "bytes_ok E"
    "\<forall>i. get_bit E i = (if 8 * dbyte + dbit \<le> i \<and> i < 8 * dbyte + dbit + n
      then bit v (8 * dbyte + dbit + n - 1 - i) else get_bit D i)"
    using write_bits_bits [OF assms(2,9,6)] by blast
  have "get_bit E i = (if 8 * dbyte + dbit \<le> i \<and> i < 8 * dbyte + dbit + n
      then get_bit S (8 * sbyte + sbit + (i - (8 * dbyte + dbit))) else get_bit D i)" for i
  proof -
    have "n - 1 - (8 * dbyte + dbit + n - 1 - i) = i - (8 * dbyte + dbit)" "8 * dbyte + dbit + n - 1 - i < n"
      if "8 * dbyte + dbit \<le> i \<and> i < 8 * dbyte + dbit + n" using that by auto
    then show ?thesis using E(4) v(2) by simp
  qed
  then show ?thesis using v(1) E(1-3) assms(3,4) by (auto simp: copy_part_def copied_def)
qed

lemma copy_slice_copied:
  assumes "bytes_ok S" "bytes_ok D" "st ! s = S" "st ! d = D" "dbyte + n \<le> length D" "sbyte + n \<le> length S"
  shows "\<exists>E. copy_slice n d dbyte s sbyte st = st[d := E] \<and> copied S (8 * dbyte) (8 * sbyte) (8 * n) D E"
proof -
  let ?E = "take dbyte D @ take n (drop sbyte S) @ drop (dbyte + n) D"
  have l: "length ?E = length D" using assms(5,6) by simp
  have nth: "?E ! q = (if dbyte \<le> q \<and> q < dbyte + n then S ! (sbyte + (q - dbyte)) else D ! q)" if "q < length D" for q
    using assms(5,6) that by (auto simp: nth_append)
  have "get_bit ?E i = (if 8 * dbyte \<le> i \<and> i < 8 * dbyte + 8 * n then get_bit S (8 * sbyte + (i - 8 * dbyte))
      else get_bit D i)" if i: "i < 8 * length D" for i
  proof -
    obtain q j where q: "i = 8 * q + j" "j < 8" by (metis mult_div_mod_eq mod_less_divisor zero_less_numeral)
    then have "q < length D" "(8 * dbyte \<le> i \<and> i < 8 * dbyte + 8 * n) = (dbyte \<le> q \<and> q < dbyte + n)"
      using i by auto
    moreover have "8 * sbyte + (i - 8 * dbyte) = 8 * (sbyte + (q - dbyte)) + j" if "dbyte \<le> q"
      using that q(1) by simp
    ultimately show ?thesis using nth [of q] q get_bit_byte [OF q(2)] by auto
  qed
  moreover have "bytes_ok ?E" using assms(1,2)
    by (auto simp: bytes_ok_def dest: in_set_takeD in_set_dropD)
  ultimately show ?thesis using l assms(3,4) by (auto simp: copy_slice_def copied_def)
qed

lemma copy_loop_copied:
  assumes "bytes_ok S" "bytes_ok D" "st ! s = S" "st ! d = D" "d \<noteq> s" "d < length st" "0 < sbit" "sbit < 8"
    "dbyte + n \<le> length D" "8 * sbyte + sbit + 8 * n \<le> 8 * length S"
  shows "\<exists>E. copy_loop n d dbyte s sbyte sbit st = Returned (st[d := E]) \<and>
    copied S (8 * dbyte) (8 * sbyte + sbit) (8 * n) D E"
  using assms(2,3,4,6,9,10)
proof (induction n arbitrary: dbyte sbyte st D)
  case 0
  then show ?case using copied_refl [of D S "8 * dbyte" "8 * sbyte + sbit"] by (auto intro!: exI [of _ D])
next
  case (Suc n)
  have "8 * sbyte + 8 < 8 * length S" using Suc.prems(6) assms(7) by simp
  then have in_s: "sbyte + 1 < length S" by simp
  obtain v where v: "read_split_byte S sbyte sbit = Returned v" "0 \<le> v" "v < 256"
    "\<forall>k<8. bit v k = get_bit S (8 * sbyte + sbit + (7 - k))"
    using read_split_byte_bits [OF assms(1) in_s assms(7,8)] by blast
  let ?D = "D[dbyte := v]" and ?st = "st[d := D[dbyte := v]]"
  have in_d: "dbyte < length D" using Suc.prems(5) by simp
  have ok: "bytes_ok ?D" using Suc.prems(1) v(2,3)
    by (auto simp: bytes_ok_def dest: set_update_subset_insert [THEN subsetD])
  have first: "copied S (8 * dbyte) (8 * sbyte + sbit) 8 D ?D"
    unfolding copied_def
  proof (intro conjI allI impI)
    fix i assume "i < 8 * length D"
    obtain q j where q: "i = 8 * q + j" "j < 8" by (metis mult_div_mod_eq mod_less_divisor zero_less_numeral)
    show "get_bit ?D i = (if 8 * dbyte \<le> i \<and> i < 8 * dbyte + 8 then get_bit S (8 * sbyte + sbit + (i - 8 * dbyte))
        else get_bit D i)"
    proof (cases "q = dbyte")
      case True
      have "7 - (7 - j) = j" using q(2) by simp
      then show ?thesis using True q in_d v(4) get_bit_byte [OF q(2), of ?D dbyte] by (simp add: add.assoc)
    next
      case False
      then have out: "\<not> (8 * dbyte \<le> i \<and> i < 8 * dbyte + 8)" using q by auto
      show ?thesis unfolding if_not_P [OF out] unfolding q(1) get_bit_byte [OF q(2)] using False by simp
    qed
  qed (use ok in auto)
  obtain E where E: "copy_loop n d (Suc dbyte) s (Suc sbyte) sbit ?st = Returned (?st[d := E])"
    "copied S (8 * Suc dbyte) (8 * Suc sbyte + sbit) (8 * n) ?D E"
    using Suc.IH [OF ok, of ?st "Suc dbyte" "Suc sbyte"] Suc.prems assms(5) by auto
  have shift: "8 * Suc dbyte = 8 * dbyte + 8" "8 * Suc sbyte + sbit = 8 * sbyte + sbit + 8" "8 * Suc n = 8 + 8 * n"
    by simp_all
  have "copied S (8 * dbyte) (8 * sbyte + sbit) (8 * Suc n) D E"
    using copied_trans [OF first, of "8 * n" E] E(2) unfolding shift by blast
  then show ?case using v(1) E(1) Suc.prems(2,3) in_d by (intro exI [of _ E]) simp
qed


text \<open>From a byte boundary of the destination on: whole bytes, then the rest.\<close>

definition copy_aligned :: "nat \<Rightarrow> nat \<Rightarrow> nat \<Rightarrow> nat \<Rightarrow> nat \<Rightarrow> nat \<Rightarrow> store \<Rightarrow> store outcome" where
  "copy_aligned d dbyte s sbyte sbit count st =
     (let n = count div 8
      in obind (if sbit = 0 then Returned (copy_slice n d dbyte s sbyte st)
                else copy_loop n d dbyte s sbyte sbit st) (\<lambda>st.
           let remain = count mod 8
           in if 0 < remain then copy_part d (dbyte + n) 0 s (sbyte + n) sbit remain st
              else Returned st))"

lemma copy_aligned_copied:
  assumes "bytes_ok S" "bytes_ok D" "st ! s = S" "st ! d = D" "d \<noteq> s" "d < length st" "sbit < 8"
    "8 * dbyte + count \<le> 8 * length D" "8 * sbyte + sbit + count \<le> 8 * length S"
  shows "\<exists>E. copy_aligned d dbyte s sbyte sbit count st = Returned (st[d := E]) \<and>
    copied S (8 * dbyte) (8 * sbyte + sbit) count D E"
proof -
  define n r where "n = count div 8" and "r = count mod 8"
  have c: "count = 8 * n + r" "r < 8" by (simp_all add: n_def r_def)
  have dn: "dbyte + n \<le> length D" and sn: "8 * sbyte + sbit + 8 * n \<le> 8 * length S"
    using assms(8,9) c by linarith+
  obtain E where E: "(if sbit = 0 then Returned (copy_slice n d dbyte s sbyte st)
      else copy_loop n d dbyte s sbyte sbit st) = Returned (st[d := E])"
    "copied S (8 * dbyte) (8 * sbyte + sbit) (8 * n) D E"
  proof (cases "sbit = 0")
    case True
    then have "sbyte + n \<le> length S" using sn by simp
    from copy_slice_copied [OF assms(1-4) dn this] True that show ?thesis by auto
  next
    case False
    from copy_loop_copied [OF assms(1-6) _ assms(7) dn sn] False that show ?thesis by auto
  qed
  show ?thesis
  proof (cases "0 < r")
    case False
    then show ?thesis using E c by (simp add: copy_aligned_def Let_def n_def [symmetric] r_def [symmetric]) blast
  next
    case True
    have "st[d := E] ! s = S" "st[d := E] ! d = E" using assms(3,5,6) by simp_all
    moreover have "bytes_ok E" "length E = length D" using E(2) by (simp_all add: copied_def)
    moreover have "8 * (sbyte + n) + sbit + r \<le> 8 * length S" using assms(9) c by simp
    moreover have "dbyte + n < length D" using assms(8) c True by simp
    ultimately obtain F where F: "copy_part d (dbyte + n) 0 s (sbyte + n) sbit r (st[d := E]) = Returned (st[d := E, d := F])"
      "copied S (8 * (dbyte + n) + 0) (8 * (sbyte + n) + sbit) r E F"
      using copy_part_copied [of S E "st[d := E]" s d r 0 sbit "sbyte + n" "dbyte + n"] assms(1,7) True c(2) by auto
    have "copied S (8 * dbyte) (8 * sbyte + sbit) (8 * n + r) D F"
      using copied_trans [OF E(2), of r F] F(2) by (simp add: algebra_simps)
    then show ?thesis using E(1) F(1) c True
      by (simp add: copy_aligned_def Let_def n_def [symmetric] r_def [symmetric]) blast
  qed
qed

lemma copy_bits_copied:
  assumes "bytes_ok S" "bytes_ok D" "st ! s = S" "st ! d = D" "d \<noteq> s" "d < length st" "0 < count"
    "dstart + count \<le> 8 * length D" "sstart + count \<le> 8 * length S"
  shows "\<exists>E. copy_bits d dstart s sstart count st = Returned (st[d := E]) \<and> copied S dstart sstart count D E"
proof -
  define db dj sb sj where "db = dstart div 8" and "dj = dstart mod 8" and "sb = sstart div 8" and "sj = sstart mod 8"
  have idx: "dstart = 8 * db + dj" "dj < 8" "sstart = 8 * sb + sj" "sj < 8"
    by (simp_all add: db_def dj_def sb_def sj_def)
  show ?thesis
  proof (cases "dj = 0")
    case True
    have "copy_bits d dstart s sstart count st = copy_aligned d db s sb sj count st"
      using True idx(4) by (simp add: copy_bits_def copy_aligned_def split_index_def Let_def db_def [symmetric]
          dj_def [symmetric] sb_def [symmetric] sj_def [symmetric])
    then show ?thesis
      using copy_aligned_copied [OF assms(1-6) idx(4), of db count sb] assms(8,9) idx(1,3) True by simp
  next
    case False
    define m where "m = min (8 - dj) count"
    have m: "0 < m" "dj + m \<le> 8" "m \<le> count" using False idx(2) assms(7) by (auto simp: m_def)
    have "8 * sb + sj + m \<le> 8 * length S" "db < length D" using assms(8,9) idx m by linarith+
    then obtain E where E: "copy_part d db dj s sb sj m st = Returned (st[d := E])"
      "copied S (8 * db + dj) (8 * sb + sj) m D E"
      using copy_part_copied [OF assms(1-4) m(1,2) idx(4)] by blast
    define sb' sj' where "sb' = sb + (sj + m) div 8" and "sj' = (sj + m) mod 8"
    have src: "8 * sb' + sj' = sstart + m" "sj' < 8" by (simp_all add: sb'_def sj'_def idx(3))
    have step: "copy_bits d dstart s sstart count st = copy_aligned d (db + 1) s sb' sj' (count - m) (st[d := E])"
      using False E(1) by (simp add: copy_bits_def copy_aligned_def split_index_def Let_def db_def [symmetric]
          dj_def [symmetric] sb_def [symmetric] sj_def [symmetric] m_def [symmetric] sb'_def sj'_def)
    have st: "st[d := E] ! s = S" "st[d := E] ! d = E" "bytes_ok E" "length E = length D"
      using assms(3,5,6) E(2) by (simp_all add: copied_def)
    show ?thesis
    proof (cases "count = m")
      case True
      have "copy_aligned d (db + 1) s sb' sj' 0 (st[d := E]) = Returned (st[d := E])"
        using st \<open>db < length D\<close> by (simp add: copy_aligned_def copy_slice_def)
      then show ?thesis using step True E(2) idx by auto
    next
      case False
      then have "m = 8 - dj" by (auto simp: m_def)
      then have next_d: "8 * (db + 1) = dstart + m" using idx(1,2) by simp
      obtain F where F: "copy_aligned d (db + 1) s sb' sj' (count - m) (st[d := E]) = Returned (st[d := E, d := F])"
        "copied S (8 * (db + 1)) (8 * sb' + sj') (count - m) E F"
        using copy_aligned_copied [OF assms(1) st(3,1,2) assms(5) _ src(2), of "db + 1" "count - m" sb']
          assms(6,8,9) next_d src(1) st(4) m(3) by auto
      have "copied S (dstart + m) (sstart + m) (count - m) E F" using F(2) unfolding next_d src(1) .
      then have "copied S dstart sstart (m + (count - m)) D F"
        using copied_trans [of S dstart sstart m D E "count - m" F] E(2) unfolding idx(1,3) by blast
      then show ?thesis using step F(1) m(3) by auto
    qed
  qed
qed

end
