(* ===== verification/BitOps.thy ===== *)
theory BitOps
  imports BitStrings
begin

text \<open>
  The bit buffer class against strings of bits: its operations on views are operations on
  lists of booleans, with the errors and the corner cases of the code.
\<close>

section \<open>The bits of a buffer\<close>

definition bb_valid :: "bitbuffer \<Rightarrow> store \<Rightarrow> bool" where
  "bb_valid b st \<longleftrightarrow> bb_data b < length st \<and> 0 \<le> bb_bits b \<and> bytes_ok (st ! bb_data b) \<and>
     int (bb_start b) + bb_bits b \<le> 8 * int (length (st ! bb_data b))"

definition bb_bools :: "bitbuffer \<Rightarrow> store \<Rightarrow> bool list" where
  "bb_bools b st = bits_of (st ! bb_data b) (bb_start b) (nat (bb_bits b))"

lemma length_bb_bools [simp]: "length (bb_bools b st) = nat (bb_bits b)"
  by (simp add: bb_bools_def)

lemma bb_len_valid [simp]: "bb_valid b st \<Longrightarrow> bb_len b = Returned (bb_bits b)"
  by (simp add: bb_len_def bb_valid_def)

lemma bb_iter_bools: "bb_valid b st \<Longrightarrow> bb_iter b st = Returned (map of_bool (bb_bools b st))"
  using unpack_bits [of "bb_start b" "nat (bb_bits b)" "st ! bb_data b"]
  by (auto simp: bb_valid_def bb_iter_def bb_bools_def)

lemma nth_bits_of [simp]: "i < n \<Longrightarrow> bits_of xs a n ! i = get_bit xs (a + i)"
  by (simp add: bits_of_def)

lemma bits_of_take_drop: "i + n \<le> m \<Longrightarrow> take n (drop i (bits_of xs a m)) = bits_of xs (a + i) n"
  by (rule nth_equalityI) (simp_all add: add.assoc)

lemma bb_view_valid:
  "bb_valid b st \<Longrightarrow> 0 \<le> i \<Longrightarrow> i \<le> j \<Longrightarrow> j \<le> bb_bits b \<Longrightarrow> bb_valid (bb_view b i j) st"
  by (simp add: bb_valid_def bb_view_def)

lemma bb_view_bools:
  "bb_valid b st \<Longrightarrow> 0 \<le> i \<Longrightarrow> i \<le> j \<Longrightarrow> j \<le> bb_bits b \<Longrightarrow>
    bb_bools (bb_view b i j) st = take (nat (j - i)) (drop (nat i) (bb_bools b st))"
  by (simp add: bb_bools_def bb_view_def bits_of_take_drop)

lemma slice_indices_inside [simp]:
  "0 \<le> i \<Longrightarrow> 0 \<le> j \<Longrightarrow> slice_indices (Some i) (Some j) None n = Returned (min i n, min j n, 1)"
  "0 \<le> i \<Longrightarrow> slice_indices (Some i) None None n = Returned (min i n, n, 1)"
  "0 \<le> j \<Longrightarrow> slice_indices None (Some j) None n = Returned (0, min j n, 1)"
  "slice_indices None None None n = Returned (0, n, 1)"
  by (simp_all add: slice_indices_def slice_bound_def)

section \<open>Packing integers\<close>

lemma from_items_valid:
  assumes "from_items items None 0 st = (b, st')"
  shows "bb_valid b st'" "bb_bools b st' = map (\<lambda>x. x \<noteq> 0) items" "take (length st) st' = st"
    "bb_bits b = int (length items)"
proof -
  let ?bs = "map (\<lambda>x. x \<noteq> 0) items"
  let ?ys = "iterable_to_bytes 0 7 ?bs"
  have p: "packs ?ys ?bs" by (rule pack_bits)
  have b: "b = \<lparr>bb_data = length st, bb_bits = int (length items), bb_start = 0\<rparr>" "st' = st @ [?ys]"
    using assms by (auto simp: from_items_def)
  have "length items \<le> 8 * length ?ys" using p by (simp add: packs_def)
  then show "bb_valid b st'" using p by (simp add: bb_valid_def b packs_def)
  show "bb_bools b st' = ?bs" using packs_bits_of [OF p] by (simp add: bb_bools_def b)
  show "take (length st) st' = st" "bb_bits b = int (length items)" by (simp_all add: b)
qed

lemma biterator_bits: "biterator v n = map (\<lambda>i. of_bool (bit v (n - 1 - i))) [0..<n]"
  by (rule nth_equalityI) (simp_all add: biterator_def drop_and_one rev_nth)


lemma or_bit: "push_bit 1 (x::int) OR of_bool c = 2 * x + of_bool c"
  by (cases c) (simp_all add: push_bit_eq_mult or_one_eq)

lemma horner_split: "foldl (\<lambda>x c. push_bit 1 x OR c) (a :: int) (map of_bool cs) =
    a * 2 ^ length cs + foldl (\<lambda>x c. push_bit 1 x OR c) 0 (map of_bool cs)"
proof (induction cs arbitrary: a)
  case (Cons c cs)
  show ?case
    using Cons.IH [of "2 * a + of_bool c"] Cons.IH [of "2 * 0 + of_bool c"]
    by (simp only: list.map foldl.simps or_bit) (simp add: algebra_simps)
qed simp

lemma horner_biterator:
  "foldl (\<lambda>x c. push_bit 1 x OR c) 0 (map of_bool (map (\<lambda>i. bit v (n - 1 - i)) [0..<n])) = take_bit n (v::int)"
proof (induction n)
  case (Suc n)
  have l: "map (\<lambda>i. bit v (Suc n - 1 - i)) [0..<Suc n] = bit v n # map (\<lambda>i. bit v (n - 1 - i)) [0..<n]"
    by (rule nth_equalityI) (auto simp: nth_Cons simp del: upt_Suc split: nat.split)
  let ?cs = "map (\<lambda>i. bit v (n - 1 - i)) [0..<n]" and ?f = "\<lambda>x c. push_bit 1 (x::int) OR c"
  have "foldl ?f 0 (map of_bool (bit v n # ?cs)) = foldl ?f (2 * 0 + of_bool (bit v n)) (map of_bool ?cs)"
    by (simp only: list.map foldl.simps or_bit)
  also have "\<dots> = (2 * 0 + of_bool (bit v n)) * 2 ^ length ?cs + foldl ?f 0 (map of_bool ?cs)"
    by (rule horner_split)
  also have "\<dots> = take_bit (Suc n) v" unfolding Suc.IH by (simp add: take_bit_Suc_from_most)
  finally show ?case unfolding l .
qed simp

lemma foldl_bools_take_bit:
  "bb_valid b st \<Longrightarrow> bb_bools b st = map (\<lambda>i. bit v (n - 1 - i)) [0..<n] \<Longrightarrow> bb_int b st = Returned (take_bit n v)"
  using horner_biterator [of v n] by (simp add: bb_int_def bb_iter_bools del: map_map)

lemma init_integer:
  assumes "bitbuffer_init (SInt v) (Some (int n)) None st = Returned (b, st')"
  shows "bb_bits b = int n" "bb_int b st' = Returned (v mod 2 ^ n)" "take (length st) st' = st"
proof -
  have "from_items (biterator v n) None 0 st = (b, st')"
    using assms by (simp add: bitbuffer_init_def from_items_def biterator_def)
  note f = from_items_valid [OF this]
  show "bb_bits b = int n" "take (length st) st' = st" using f(3,4) by (simp_all add: biterator_def)
  have "bb_bools b st' = map (\<lambda>i. bit v (n - 1 - i)) [0..<n]" using f(2) by (simp add: biterator_bits)
  from foldl_bools_take_bit [OF f(1) this] show "bb_int b st' = Returned (v mod 2 ^ n)"
    by (simp add: take_bit_eq_mod)
qed

definition binary_digit :: "char \<Rightarrow> bool" where
  "binary_digit c \<longleftrightarrow> c = CHR ''0'' \<or> c = CHR ''1''"

lemma chars_to_bits:
  "map_outcome char_to_bit s = (if list_all binary_digit s
    then Returned (map (\<lambda>c. if c = CHR ''1'' then 1 else 0) s) else Raised ValueError)"
  by (induction s) (auto simp: char_to_bit_def binary_digit_def)

lemma init_string:
  assumes "list_all binary_digit s" "bitbuffer_init (SStr s) None None st = Returned (b, st')"
  shows "bb_bits b = int (length s)" "bb_str b st' = Returned s" "take (length st) st' = st"
proof -
  let ?items = "map (\<lambda>c. if c = CHR ''1'' then 1 else 0 :: int) s"
  have "from_items ?items None 0 st = (b, st')"
    using assms by (simp add: bitbuffer_init_def chars_to_bits)
  note f = from_items_valid [OF this]
  show "bb_bits b = int (length s)" "take (length st) st' = st" using f(3,4) by simp_all
  have "map (\<lambda>x. if x = 0 then CHR ''0'' else CHR ''1'') (map (of_bool :: bool \<Rightarrow> int) (map (\<lambda>x. x \<noteq> 0) ?items)) = s"
    using assms(1) by (induction s) (auto simp: binary_digit_def)
  then show "bb_str b st' = Returned s" using f(1,2) by (simp add: bb_str_def bb_iter_bools del: map_map)
qed

text \<open>
  C29: constructing and reading back. A buffer made from an integer and a bit count reads back as
  the integer modulo that power of two, negative integers included; a buffer made from a string of
  binary digits prints as that string, and any other character in the string raises a \<open>ValueError\<close>.
  Neither construction touches an existing byte array.
\<close>

theorem values_survive_packing:
  "(\<exists>b st'. bitbuffer_init (SInt v) (Some (int n)) None st = Returned (b, st') \<and> bb_bits b = int n \<and>
      bb_int b st' = Returned (v mod 2 ^ n) \<and> take (length st) st' = st) \<and>
   (if list_all (\<lambda>c. c = CHR ''0'' \<or> c = CHR ''1'') s
    then \<exists>b st'. bitbuffer_init (SStr s) None None st = Returned (b, st') \<and> bb_bits b = int (length s) \<and>
      bb_str b st' = Returned s \<and> take (length st) st' = st
    else bitbuffer_init (SStr s) None None st = Raised ValueError)"
proof -
  obtain b st' where i: "bitbuffer_init (SInt v) (Some (int n)) None st = Returned (b, st')"
    by (simp add: bitbuffer_init_def from_items_def)
  have d: "list_all (\<lambda>c. c = CHR ''0'' \<or> c = CHR ''1'') s = list_all binary_digit s"
    by (simp add: binary_digit_def [abs_def])
  show ?thesis
  proof (cases "list_all binary_digit s")
    case True
    then obtain c st2 where "bitbuffer_init (SStr s) None None st = Returned (c, st2)"
      by (auto simp: bitbuffer_init_def chars_to_bits from_items_def)
    with i True init_integer [OF i] init_string [OF True this] show ?thesis unfolding d by simp
  next
    case False
    then have "bitbuffer_init (SStr s) None None st = Raised ValueError"
      by (simp add: bitbuffer_init_def chars_to_bits)
    with i False init_integer [OF i] show ?thesis unfolding d by simp
  qed
qed

section \<open>Assigning to slices\<close>

lemma bools_after_copy:
  assumes c: "copied (st ! bb_data x) (bb_start b + i) (bb_start x) n (st ! bb_data b) E"
    and v: "bb_valid b st" and le: "int (i + n) \<le> bb_bits b"
  shows "bb_bools b (st[bb_data b := E]) =
    take i (bb_bools b st) @ bits_of (st ! bb_data x) (bb_start x) n @ drop (i + n) (bb_bools b st)"
    "bb_valid b (st[bb_data b := E])"
proof -
  have l: "int (bb_start b) + bb_bits b \<le> 8 * int (length (st ! bb_data b))" "bb_data b < length st" "0 \<le> bb_bits b"
    using v by (simp_all add: bb_valid_def)
  have "bb_start b + j < 8 * length (st ! bb_data b)" if "int j < bb_bits b" for j using that l by linarith
  then show "bb_bools b (st[bb_data b := E]) =
    take i (bb_bools b st) @ bits_of (st ! bb_data x) (bb_start x) n @ drop (i + n) (bb_bools b st)"
    using c le l by (intro nth_equalityI) (auto simp: bb_bools_def copied_def nth_append)
  show "bb_valid b (st[bb_data b := E])" using c v by (simp add: bb_valid_def copied_def)
qed

lemma assign_bools:
  assumes v: "bb_valid b st" "bb_valid x st" "bb_data x \<noteq> bb_data b"
    and r: "bb_bits x = int n" "0 < n" "int (i + n) \<le> bb_bits b"
  obtains E where "bb_assign b (int i) (int (i + n)) x st = Returned (st[bb_data b := E])"
    "bb_bools b (st[bb_data b := E]) = take i (bb_bools b st) @ bb_bools x st @ drop (i + n) (bb_bools b st)"
    "bb_valid b (st[bb_data b := E])"
proof -
  have a: "bb_start b + i + n \<le> 8 * length (st ! bb_data b)" "bb_start x + n \<le> 8 * length (st ! bb_data x)"
    using v r by (auto simp: bb_valid_def)
  obtain E where E: "copy_bits (bb_data b) (bb_start b + i) (bb_data x) (bb_start x) n st = Returned (st[bb_data b := E])"
    "copied (st ! bb_data x) (bb_start b + i) (bb_start x) n (st ! bb_data b) E"
    using copy_bits_copied [OF _ _ refl refl v(3) [symmetric] _ r(2) a] v by (auto simp: bb_valid_def)
  have "bb_assign b (int i) (int (i + n)) x st = Returned (st[bb_data b := E])"
    using E(1) v(2) r(1) by (simp add: bb_assign_def)
  moreover note bools_after_copy [OF E(2) v(1) r(3)]
  ultimately show thesis using that r(1) by (simp add: bb_bools_def)
qed


section \<open>Concatenation\<close>

lemma bb_valid_append [simp]: "bb_valid b st \<Longrightarrow> bb_valid b (st @ ys)"
  "bb_valid b st \<Longrightarrow> bb_bools b (st @ ys) = bb_bools b st"
  by (simp_all add: bb_valid_def bb_bools_def nth_append)

lemma bb_valid_other [simp]:
  "bb_valid b st \<Longrightarrow> bb_data b \<noteq> d \<Longrightarrow> bb_valid b (st[d := E])"
  "bb_data b \<noteq> d \<Longrightarrow> bb_bools b (st[d := E]) = bb_bools b st"
  by (simp_all add: bb_valid_def bb_bools_def)

definition zeroed :: "nat \<Rightarrow> store \<Rightarrow> bitbuffer" where
  "zeroed n st = \<lparr>bb_data = length st, bb_bits = int n, bb_start = 0\<rparr>"

lemma init_zeroed:
  "bitbuffer_init SNone (Some (int n)) None st = Returned (zeroed n st, st @ [replicate ((n + 7) div 8) 0])"
proof -
  have "nat (bits_to_bytes (int n)) = (n + 7) div 8" "0 \<le> bits_to_bytes (int n)"
    by (simp_all add: bits_to_bytes_def nat_add_distrib zdiv_int [symmetric] nat_div_distrib)
  then show ?thesis by (simp add: bitbuffer_init_def zeroed_def)
qed

lemma zeroed_valid: "bb_valid (zeroed n st) (st @ [replicate ((n + 7) div 8) 0])"
proof -
  have "n \<le> 8 * ((n + 7) div 8)" by linarith
  then show ?thesis by (simp add: bb_valid_def zeroed_def bytes_ok_def)
qed

lemma add_first_part:
  assumes v: "bb_valid b st" "bb_bits b = int m" "0 < m"
  obtains E where "bb_setslice (zeroed (m + n) st) None (Some (int m)) None (VBuffer b)
      (st @ [replicate ((m + n + 7) div 8) 0]) = Returned (st @ [E])"
    "bb_valid (zeroed (m + n) st) (st @ [E])" "take m (bb_bools (zeroed (m + n) st) (st @ [E])) = bb_bools b st"
proof -
  let ?r = "zeroed (m + n) st" and ?st = "st @ [replicate ((m + n + 7) div 8) 0]"
  have d: "bb_data b \<noteq> bb_data ?r" "bb_valid b ?st" using v(1) by (auto simp: bb_valid_def zeroed_def nth_append)
  obtain E where E: "bb_assign ?r (int 0) (int (0 + m)) b ?st = Returned (?st[bb_data ?r := E])"
    "bb_bools ?r (?st[bb_data ?r := E]) = take 0 (bb_bools ?r ?st) @ bb_bools b ?st @ drop (0 + m) (bb_bools ?r ?st)"
    "bb_valid ?r (?st[bb_data ?r := E])"
    using assign_bools [OF zeroed_valid d(2,1) v(2,3), of 0] by (auto simp: zeroed_def)
  have u: "?st[bb_data ?r := E] = st @ [E]" by (simp add: zeroed_def)
  have i: "bb_indices ?r None (Some (int m)) None = Returned (0, int m, 1)"
    by (simp add: bb_indices_def bb_len_def zeroed_def)
  show thesis
    using that [of E] E d v unfolding u by (simp add: bb_setslice_def i)
qed

lemma bb_add_unfold:
  assumes "bb_valid b st" "bb_valid c st" "bb_bits b = int m" "bb_bits c = int n"
    and "bb_setslice (zeroed (m + n) st) None (Some (int m)) None (VBuffer b)
      (st @ [replicate ((m + n + 7) div 8) 0]) = Returned st1"
  shows "bb_add b c st = omap (Pair (zeroed (m + n) st)) (bb_assign (zeroed (m + n) st) (int m) (int (m + n)) c st1)"
proof -
  have i: "bb_indices (zeroed (m + n) st) (Some (int m)) None None = Returned (int m, int (m + n), 1)"
    by (simp add: bb_indices_def bb_len_def zeroed_def)
  show ?thesis
    using assms init_zeroed [of "m + n" st] i by (simp add: bb_add_def bb_setslice_def)
qed

lemma add_bools:
  assumes v: "bb_valid b st" "bb_valid c st" "0 < bb_bits b" "0 < bb_bits c"
  obtains r st' where "bb_add b c st = Returned (r, st')" "bb_bits r = bb_bits b + bb_bits c"
    "bb_bools r st' = bb_bools b st @ bb_bools c st" "bb_valid r st'" "take (length st) st' = st"
proof -
  obtain m n where mn: "bb_bits b = int m" "bb_bits c = int n" "0 < m" "0 < n"
    using v(3,4) by (metis nonneg_int_cases of_nat_0_less_iff order_less_imp_le)
  let ?r = "zeroed (m + n) st"
  obtain E where E: "bb_setslice ?r None (Some (int m)) None (VBuffer b)
      (st @ [replicate ((m + n + 7) div 8) 0]) = Returned (st @ [E])"
    "bb_valid ?r (st @ [E])" "take m (bb_bools ?r (st @ [E])) = bb_bools b st"
    using add_first_part [OF v(1) mn(1,3)] .
  have d: "bb_data c \<noteq> bb_data ?r" using v(2) by (auto simp: bb_valid_def zeroed_def)
  obtain F where F: "bb_assign ?r (int m) (int (m + n)) c (st @ [E]) = Returned ((st @ [E])[bb_data ?r := F])"
    "bb_bools ?r ((st @ [E])[bb_data ?r := F]) =
      take m (bb_bools ?r (st @ [E])) @ bb_bools c (st @ [E]) @ drop (m + n) (bb_bools ?r (st @ [E]))"
    "bb_valid ?r ((st @ [E])[bb_data ?r := F])"
    using assign_bools [OF E(2) bb_valid_append(1) [OF v(2)] d mn(2,4), of m] by (auto simp: zeroed_def)
  show thesis
    using that [of ?r "st @ [F]"] bb_add_unfold [OF v(1,2) mn(1,2) E(1)] F E(3) v(2) mn(1,2)
    by (simp add: zeroed_def)
qed

lemma add_empty_copy:
  assumes "st ! c = []" "bb_start x = 0" "bb_data x = c" "bb_bits x = 0" "c < length st"
  shows "bb_assign (zeroed m st') (int m) (int m) x st =
    (if m mod 8 = 0 then Returned st else Raised IndexError)"
proof -
  have "copy_slice 0 d k s 0 st = st" for d k s by (simp add: copy_slice_def)
  then show ?thesis using assms
    by (simp add: bb_assign_def bb_len_def copy_bits_def split_index_def zeroed_def copy_part_def
        read_split_bits_def byte_at_def Let_def)
qed

text \<open>
  Concatenation. Two non-empty buffers add to a new buffer with the bits of the first followed
  by the bits of the second, in an array of its own, whatever the alignments; no existing array
  changes. Adding a buffer with an empty array, such as the one built from an empty string, gives
  back the bits of the first when their number is a multiple of eight and raises an
  \<open>IndexError\<close> otherwise, since the sub-byte copy reads the source before it looks at the count.
\<close>

theorem concatenation_of_buffers:
  assumes "bb_valid b st" "bb_valid c st" "0 < bb_bits b"
  shows "(0 < bb_bits c \<longrightarrow> (\<exists>r st'. bb_add b c st = Returned (r, st') \<and> bb_bits r = bb_bits b + bb_bits c \<and>
      bb_bools r st' = bb_bools b st @ bb_bools c st \<and> take (length st) st' = st)) \<and>
    (st ! bb_data c = [] \<longrightarrow> (if bb_bits b mod 8 = 0
      then \<exists>r st'. bb_add b c st = Returned (r, st') \<and> bb_bools r st' = bb_bools b st
      else bb_add b c st = Raised IndexError))"
proof (intro conjI impI)
  show "\<exists>r st'. bb_add b c st = Returned (r, st') \<and> bb_bits r = bb_bits b + bb_bits c \<and>
      bb_bools r st' = bb_bools b st @ bb_bools c st \<and> take (length st) st' = st" if "0 < bb_bits c"
    using add_bools [OF assms that] by metis
  assume e: "st ! bb_data c = []"
  obtain m where m: "bb_bits b = int m" "0 < m"
    using assms(3) by (metis nonneg_int_cases of_nat_0_less_iff order_less_imp_le)
  have c: "bb_bits c = int 0" "bb_start c = 0" "bb_data c < length st" using assms(2) e by (auto simp: bb_valid_def)
  obtain E where E: "bb_setslice (zeroed (m + 0) st) None (Some (int m)) None (VBuffer b)
      (st @ [replicate ((m + 0 + 7) div 8) 0]) = Returned (st @ [E])"
    "take m (bb_bools (zeroed (m + 0) st) (st @ [E])) = bb_bools b st"
    using add_first_part [OF assms(1) m, of 0] by metis
  have "(st @ [E]) ! bb_data c = []" using c(3) e by (simp add: nth_append)
  from add_empty_copy [OF this c(2) refl, of m st] c
  have "bb_add b c st = omap (Pair (zeroed m st)) (if m mod 8 = 0 then Returned (st @ [E]) else Raised IndexError)"
    using bb_add_unfold [OF assms(1,2) m(1) c(1) E(1)] by simp
  moreover have whole: "(int m mod 8 = 0) = (m mod 8 = 0)" by presburger
  moreover have "take m (bb_bools (zeroed m st) (st @ [E])) = bb_bools (zeroed m st) (st @ [E])"
    by (simp add: zeroed_def)
  ultimately show "if bb_bits b mod 8 = 0
      then \<exists>r st'. bb_add b c st = Returned (r, st') \<and> bb_bools r st' = bb_bools b st
      else bb_add b c st = Raised IndexError" using E(2) m(1) whole by simp
qed


section \<open>Searching\<close>

definition hamming :: "bool list \<Rightarrow> bool list \<Rightarrow> nat" where
  "hamming xs ys = length (filter (\<lambda>(x, y). x \<noteq> y) (zip xs ys))"

lemma bits_distance_hamming: "bits_distance (map of_bool xs) (map of_bool ys) = int (hamming xs ys)"
proof (induction xs arbitrary: ys)
  case (Cons x xs)
  then show ?case by (cases ys) (auto simp: bits_distance_def hamming_def split: if_splits)
qed (simp add: bits_distance_def hamming_def)

definition clamped :: "int \<Rightarrow> int \<Rightarrow> nat" where
  "clamped len x = nat (if x < 0 then max (x + len) 0 else min x len)"

lemma clamped_le: "0 \<le> len \<Longrightarrow> int (clamped len x) \<le> len"
  by (simp add: clamped_def)

lemma slice_indices_clamped:
  "0 \<le> len \<Longrightarrow> slice_indices start stop None len =
     Returned (int (case start of None \<Rightarrow> 0 | Some x \<Rightarrow> clamped len x),
       int (case stop of None \<Rightarrow> nat len | Some x \<Rightarrow> clamped len x), 1)"
  by (auto simp: slice_indices_def slice_bound_def clamped_def split: option.split)

lemma xrange_nat: "xrange (int a) (int b) 1 = map int [a..<b]"
  by (rule nth_equalityI) (auto simp: xrange_def nat_diff_distrib')

lemma find_loop_find:
  assumes "bb_valid b st" "bb_valid p st" "bb_bits p = int n" "\<forall>k\<in>set ks. int (k + n) \<le> bb_bits b"
  shows "find_loop b p (int n) maxd (map int ks) st =
    Returned (case List.find (\<lambda>k. int (hamming (bb_bools p st) (take n (drop k (bb_bools b st)))) \<le> maxd) ks of
      None \<Rightarrow> - 1 | Some k \<Rightarrow> int k)"
  using assms(4)
proof (induction ks)
  case (Cons k ks)
  then have k: "int (k + n) \<le> bb_bits b" by simp
  then have view: "bb_getslice b (Some (int k)) (Some (int k + int n)) None st = Returned (bb_view b (int k) (int (k + n)), st)"
    using assms(1) by (simp add: bb_getslice_def bb_indices_def)
  have "bb_iter (bb_view b (int k) (int (k + n))) st = Returned (map of_bool (take n (drop k (bb_bools b st))))"
    using bb_iter_bools [OF bb_view_valid [OF assms(1) _ _ k, of "int k"]] bb_view_bools [OF assms(1) _ _ k, of "int k"]
    by simp
  then show ?case
    using Cons view assms(2) bits_distance_hamming by (simp add: bb_distance_def bb_iter_bools)
qed simp

text \<open>
  Searching. The search returns the first position in the range at which the pattern is within
  the Hamming distance, or -1. The range excludes its clamped end, so the last position at which the
  whole pattern fits is never looked at: a buffer is not found in itself.
\<close>

theorem find_is_first_match:
  assumes "bb_valid b st" "bb_valid p st"
  shows "bb_find b p start stop maxd st =
      Returned (case List.find (\<lambda>k. int (hamming (bb_bools p st)
            (take (length (bb_bools p st)) (drop k (bb_bools b st)))) \<le> maxd)
          [case start of None \<Rightarrow> 0 | Some x \<Rightarrow> clamped (bb_bits b) x..<
           min (case stop of None \<Rightarrow> length (bb_bools b st) | Some x \<Rightarrow> clamped (bb_bits b) x)
             (length (bb_bools b st) - length (bb_bools p st))]
        of None \<Rightarrow> - 1 | Some k \<Rightarrow> int k) \<and>
    bb_find b b start stop maxd st = Returned (- 1)"
proof -
  define i j where "i = (case start of None \<Rightarrow> 0 | Some x \<Rightarrow> clamped (bb_bits b) x)"
    and "j = (case stop of None \<Rightarrow> nat (bb_bits b) | Some x \<Rightarrow> clamped (bb_bits b) x)"
  have len: "0 \<le> bb_bits b" "0 \<le> bb_bits p" using assms by (simp_all add: bb_valid_def)
  have main: "bb_find b q start stop maxd st =
      Returned (case List.find (\<lambda>k. int (hamming (bb_bools q st) (take n (drop k (bb_bools b st)))) \<le> maxd)
          [i..<min j (nat (bb_bits b) - n)] of None \<Rightarrow> - 1 | Some k \<Rightarrow> int k)"
    if q: "bb_valid q st" "bb_bits q = int n" for q n
  proof -
    have "xrange (int i) (min (int j) (bb_bits b - int n)) 1 = map int [i..<min j (nat (bb_bits b) - n)]"
    proof (cases "int n \<le> bb_bits b")
      case True
      then have "min (int j) (bb_bits b - int n) = int (min j (nat (bb_bits b) - n))" by linarith
      then show ?thesis by (simp add: xrange_nat del: of_nat_min)
    next
      case False
      then show ?thesis by (simp add: xrange_def)
    qed
    moreover have "\<forall>k\<in>set [i..<min j (nat (bb_bits b) - n)]. int (k + n) \<le> bb_bits b" by auto
    ultimately show ?thesis
      using q assms(1) len slice_indices_clamped [of "bb_bits b" start stop]
        find_loop_find [OF assms(1) q, of "[i..<min j (nat (bb_bits b) - n)]" maxd]
      by (simp add: bb_find_def bb_indices_def i_def [symmetric] j_def [symmetric])
  qed
  have "bb_find b b start stop maxd st = Returned (- 1)"
    using main [OF assms(1), of "nat (bb_bits b)"] len by simp
  then show ?thesis unfolding length_bb_bools
    using main [OF assms(2), of "nat (bb_bits p)"] len by (simp add: i_def j_def)
qed

section \<open>Take and skip\<close>

lemma nths_cong_index: "(\<And>i. i < length xs \<Longrightarrow> (i \<in> A) = (i \<in> B)) \<Longrightarrow> nths xs A = nths xs B"
  unfolding nths_def by (rule arg_cong [where f = "map fst"], rule filter_cong) (auto simp: set_zip)

lemma takeskip_nths:
  "0 < tk + sk \<Longrightarrow> takeskip tk sk xs = Returned (nths xs {i. i mod (tk + sk) < tk})"
proof (induction tk sk xs rule: takeskip.induct)
  case (1 tk sk xs)
  let ?A = "{i. i mod (tk + sk) < tk}"
  have short: "nths ys ?A = take tk ys" if "length ys \<le> tk + sk" for ys :: "'a list"
    using nths_cong_index [of ys ?A "{..<tk}"] that by simp
  show ?case
  proof (cases "length xs < tk + sk")
    case True
    then show ?thesis using 1(2) short [of xs] by (simp add: takeskip.simps)
  next
    case False
    have "nths xs ?A = nths (take (tk + sk) xs @ drop (tk + sk) xs) ?A" by simp
    also have "\<dots> = take tk xs @ nths (drop (tk + sk) xs) ?A"
      unfolding nths_append using False short [of "take (tk + sk) xs"] by simp
    finally show ?thesis using 1 False by (simp add: takeskip.simps [of tk sk xs])
  qed
qed

text \<open>
  Take and skip. Taking \<open>take\<close> and skipping \<open>skip\<close> bits keeps exactly the bits of the range
  whose index modulo the period is below \<open>take\<close>, the unfinished last period included, in a new
  buffer; with both counts zero the call does not return.
\<close>

theorem takeskip_keeps_by_index:
  assumes "bb_valid b st" "i \<le> j" "int j \<le> bb_bits b"
  shows "if tk + sk = 0 then bb_takeskip b tk sk (Some (int i)) (Some (int j)) st = Blocked
    else \<exists>r st'. bb_takeskip b tk sk (Some (int i)) (Some (int j)) st = Returned (r, st') \<and>
      bb_bools r st' = nths (take (j - i) (drop i (bb_bools b st))) {k. k mod (tk + sk) < tk} \<and>
      take (length st) st' = st"
proof -
  let ?xs = "take (j - i) (drop i (bb_bools b st))"
  have "bb_iter (bb_view b (int i) (int j)) st = Returned (map of_bool ?xs)"
    using bb_iter_bools [OF bb_view_valid [OF assms(1) _ _ assms(3), of "int i"]]
      bb_view_bools [OF assms(1) _ _ assms(3), of "int i"] assms(2) by (simp add: nat_diff_distrib)
  then have call: "bb_takeskip b tk sk (Some (int i)) (Some (int j)) st =
      obind (takeskip tk sk (map of_bool ?xs)) (\<lambda>kept. bitbuffer_init (SItems kept) None None st)"
    using assms by (simp add: bb_takeskip_def bb_indices_def bb_getslice_def)
  show ?thesis
  proof (cases "tk + sk = 0")
    case True
    then show ?thesis unfolding call by (simp add: takeskip.simps)
  next
    case False
    let ?kept = "nths ?xs {k. k mod (tk + sk) < tk}"
    obtain r st' where r: "from_items (map of_bool ?kept) None 0 st = (r, st')" by (cases rule: prod.exhaust)
    have "bb_takeskip b tk sk (Some (int i)) (Some (int j)) st = Returned (r, st')"
      unfolding call using False r by (simp add: takeskip_nths nths_map bitbuffer_init_def)
    moreover have "bb_bools r st' = ?kept" using from_items_valid(2) [OF r] by (simp add: comp_def)
    ultimately show ?thesis unfolding if_not_P [OF False] using from_items_valid(3) [OF r] by blast
  qed
qed


section \<open>The copy, stated for the whole routine\<close>

text \<open>
  C11: copying bits by bytes is copying bits. For a non-empty range inside each of two different
  byte arrays, \<open>_copy_bits\<close> raises nothing, changes no other array, keeps the destination a byte
  array of the same length, and gives the bits of the destination range the values of the source
  range and leaves all its other bits, for every alignment of the two sides.
\<close>

theorem copy_bits_is_bitwise:
  assumes "bytes_ok (st ! s)" "bytes_ok (st ! d)" "d \<noteq> s" "d < length st" "0 < count"
    "dstart + count \<le> 8 * length (st ! d)" "sstart + count \<le> 8 * length (st ! s)"
  shows "\<exists>E. copy_bits d dstart s sstart count st = Returned (st[d := E]) \<and> length E = length (st ! d) \<and>
    bytes_ok E \<and> (\<forall>i < 8 * length (st ! d). get_bit E i =
      (if dstart \<le> i \<and> i < dstart + count then get_bit (st ! s) (sstart + (i - dstart)) else get_bit (st ! d) i))"
  using copy_bits_copied [OF assms(1,2) refl refl assms(3-7)] unfolding copied_def by blast

lemma copy_bits_is_bitwise_witness:
  "\<exists>E. copy_bits 0 3 1 5 9 [[0, 255], [170, 15]] = Returned ([[0, 255], [170, 15]][0 := E]) \<and> get_bit E 4"
proof -
  have "\<exists>E. copy_bits 0 3 1 5 9 [[0, 255], [170, 15]] = Returned ([[0, 255], [170, 15]][0 := E]) \<and>
    length E = length ([[0, 255], [170, 15 :: int]] ! 0) \<and>
    bytes_ok E \<and> (\<forall>i < 8 * length ([[0, 255], [170, 15 :: int]] ! 0). get_bit E i =
      (if 3 \<le> i \<and> i < 3 + 9 then get_bit ([[0, 255], [170, 15]] ! 1) (5 + (i - 3)) else get_bit ([[0, 255], [170, 15]] ! 0) i))"
    by (rule copy_bits_is_bitwise) (simp_all add: bytes_ok_def)
  then obtain E where "copy_bits 0 3 1 5 9 [[0, 255], [170, 15]] = Returned ([[0, 255], [170, 15]][0 := E])"
    "get_bit E 4 = get_bit ([[0, 255], [170, 15]] ! 1) 6" by auto
  moreover have "get_bit ([[0, 255], [170, 15]] ! 1) 6" by (simp add: get_bit_def bit_iff_odd)
  ultimately show ?thesis by blast
qed

definition example_store :: store where
  "example_store = [[182, 1], [255, 224], []]"

definition example_buffer :: bitbuffer where
  "example_buffer = \<lparr>bb_data = 0, bb_bits = 10, bb_start = 3\<rparr>"

definition example_pattern :: bitbuffer where
  "example_pattern = \<lparr>bb_data = 1, bb_bits = 3, bb_start = 6\<rparr>"

definition example_empty :: bitbuffer where
  "example_empty = \<lparr>bb_data = 2, bb_bits = 0, bb_start = 0\<rparr>"

lemmas example_defs = example_store_def example_buffer_def example_pattern_def example_empty_def

lemma example_valid: "bb_valid example_buffer example_store" "bb_valid example_pattern example_store"
  "bb_valid example_empty example_store"
  by (simp_all add: bb_valid_def bytes_ok_def example_defs)

lemma concatenation_of_buffers_witness:
  "(\<exists>r st'. bb_add example_buffer example_pattern example_store = Returned (r, st') \<and> bb_bits r = 13) \<and>
    bb_add example_buffer example_empty example_store = Raised IndexError"
  using concatenation_of_buffers [OF example_valid(1,2)] concatenation_of_buffers [OF example_valid(1,3)]
  by (auto simp: example_defs)

lemma find_is_first_match_witness:
  "bb_find example_buffer example_pattern (Some (- 10)) None 0 example_store =
      Returned (case List.find (\<lambda>k. int (hamming (bb_bools example_pattern example_store)
            (take 3 (drop k (bb_bools example_buffer example_store)))) \<le> 0) [0..<7]
        of None \<Rightarrow> - 1 | Some k \<Rightarrow> int k) \<and>
    bb_find example_buffer example_buffer None None 0 example_store = Returned (- 1)"
  using find_is_first_match [OF example_valid(1,2), of "Some (- 10)" None 0]
    find_is_first_match [OF example_valid(1,1), of None None 0]
  by (simp add: clamped_def example_defs)

lemma takeskip_keeps_by_index_witness:
  "(\<exists>r st'. bb_takeskip example_buffer 2 1 (Some 1) (Some 9) example_store = Returned (r, st')) \<and>
    bb_takeskip example_buffer 0 0 (Some 1) (Some 9) example_store = Blocked"
  using takeskip_keeps_by_index [OF example_valid(1), of 1 9 2 1] takeskip_keeps_by_index [OF example_valid(1), of 1 9 0 0]
  by (auto simp: example_buffer_def)

end
