(* ===== verification/Device.thy ===== *)
theory Device
  imports Actions
begin

text \<open>
  \<open>ossie/device.py\<close>: the states of a device and the generic allocation of capacities. The
  property definitions and the callbacks of a concrete device are parameters (\<open>device_class\<close>).
\<close>

datatype usage = IDLE | ACTIVE | BUSY

datatype admin = UNLOCKED | SHUTTING_DOWN | LOCKED

datatype operational = ENABLED | DISABLED

datatype device_event = UsageEvent usage usage | AdminEvent admin admin

record device =
  d_usageState :: usage
  d_adminState :: admin
  d_operationalState :: operational
  idm_publisher :: bool
  idm_events :: "device_event list"

section \<open>States\<close>

definition device_initialize :: "'x device_scheme \<Rightarrow> 'x device_scheme" where
  "device_initialize d = d\<lparr>d_usageState := IDLE, d_adminState := UNLOCKED, d_operationalState := ENABLED\<rparr>"

definition sendStateChangeEvent :: "device_event \<Rightarrow> 'x device_scheme \<Rightarrow> 'x device_scheme" where
  "sendStateChangeEvent e d = (if idm_publisher d then d\<lparr>idm_events := idm_events d @ [e]\<rparr> else d)"

text \<open>Assigning to \<open>_usageState\<close> or \<open>_adminState\<close> sends an event when the value changes.\<close>

definition set_usageState :: "usage \<Rightarrow> 'x device_scheme \<Rightarrow> 'x device_scheme" where
  "set_usageState u d =
     (let d = (if u \<noteq> d_usageState d then sendStateChangeEvent (UsageEvent (d_usageState d) u) d else d)
      in d\<lparr>d_usageState := u\<rparr>)"

definition assign_adminState :: "admin \<Rightarrow> 'x device_scheme \<Rightarrow> 'x device_scheme" where
  "assign_adminState a d =
     (let d = (if a \<noteq> d_adminState d then sendStateChangeEvent (AdminEvent (d_adminState d) a) d else d)
      in d\<lparr>d_adminState := a\<rparr>)"

definition adminStateTransitions :: "(admin \<times> admin) list" where
  "adminStateTransitions = [(LOCKED, UNLOCKED), (UNLOCKED, LOCKED)]"

definition set_adminState :: "admin \<Rightarrow> 'x device_scheme \<Rightarrow> 'x device_scheme" where
  "set_adminState a d =
     (if (d_adminState d, a) \<in> set adminStateTransitions then assign_adminState a d else d)"

definition isLocked :: "'x device_scheme \<Rightarrow> bool" where "isLocked d = (d_adminState d = LOCKED)"
definition isUnLocked :: "'x device_scheme \<Rightarrow> bool" where "isUnLocked d = (d_adminState d = UNLOCKED)"
definition isEnabled :: "'x device_scheme \<Rightarrow> bool" where "isEnabled d = (d_operationalState d = ENABLED)"
definition isDisabled :: "'x device_scheme \<Rightarrow> bool" where "isDisabled d = (d_operationalState d = DISABLED)"
definition isBusy :: "'x device_scheme \<Rightarrow> bool" where "isBusy d = (d_usageState d = BUSY)"
definition isIdle :: "'x device_scheme \<Rightarrow> bool" where "isIdle d = (d_usageState d = IDLE)"

section \<open>Allocation\<close>

text \<open>
  What a concrete device brings: which property ids exist and are allocatable and their names, the
  registered callbacks by name, the methods found by name, and the override of the usage state.
\<close>

record ('v, 's) device_class =
  prop_allocatable :: "string \<Rightarrow> bool option"
  prop_name :: "string \<Rightarrow> string"
  allocationCallbacks :: "(string, ('v \<Rightarrow> ('s, bool) action) \<times> ('v \<Rightarrow> ('s, unit) action)) dict"
  allocate_method :: "string \<Rightarrow> ('v \<Rightarrow> ('s, bool) action) option"
  deallocate_method :: "string \<Rightarrow> ('v \<Rightarrow> ('s, unit) action) option"
  allocateCapacities_method :: "((string, 'v) dict \<Rightarrow> ('s, bool) action) option"
  deallocateCapacities_method :: "((string, 'v) dict \<Rightarrow> ('s, unit) action) option"
  updateUsageState_method :: "('s, unit) action"

definition setAllocationImpl ::
    "string \<Rightarrow> ('v \<Rightarrow> ('s, bool) action) \<Rightarrow> ('v \<Rightarrow> ('s, unit) action) \<Rightarrow>
     ('v, 's) device_class \<Rightarrow> ('v, 's) device_class" where
  "setAllocationImpl name alloc dealloc c =
     c\<lparr>allocationCallbacks := dput name (alloc, dealloc) (allocationCallbacks c)\<rparr>"

definition validateAllocProps :: "('v, 's) device_class \<Rightarrow> (string \<times> 'v) list \<Rightarrow> ('s, unit) action" where
  "validateAllocProps c props =
     act_each (\<lambda>(pid, v). if prop_allocatable c pid = Some True then act_return () else act_raise InvalidCapacity) props"

text \<open>The dictionary of converted values; an id without definition is a \<open>KeyError\<close>.\<close>

fun propdict :: "('v, 's) device_class \<Rightarrow> (string \<times> 'v) list \<Rightarrow> (string, 'v) dict \<Rightarrow> ('s, (string, 'v) dict) action" where
  "propdict c [] d = act_return d"
| "propdict c ((pid, v) # props) d =
     (case prop_allocatable c pid of None \<Rightarrow> act_raise KeyError | Some b \<Rightarrow> propdict c props (dput pid v d))"

definition is_alnum :: "char \<Rightarrow> bool" where
  "is_alnum ch = (let n = of_char ch :: nat
     in (48 \<le> n \<and> n \<le> 57) \<or> (65 \<le> n \<and> n \<le> 90) \<or> (97 \<le> n \<and> n \<le> 122))"

definition allocateCapacity_one :: "('v, 's) device_class \<Rightarrow> string \<Rightarrow> 'v \<Rightarrow> ('s, bool) action" where
  "allocateCapacity_one c propname v =
     (case dget (allocationCallbacks c) propname of
       Some (alloc, dealloc) \<Rightarrow> alloc v
     | None \<Rightarrow>
         (case allocate_method c (''allocate_'' @ map (\<lambda>ch. if is_alnum ch then ch else CHR ''_'') propname) of
           Some m \<Rightarrow> m v
         | None \<Rightarrow> act_return False))"

definition deallocateCapacity_one :: "('v, 's) device_class \<Rightarrow> string \<Rightarrow> 'v \<Rightarrow> ('s, unit) action" where
  "deallocateCapacity_one c propname v =
     (case dget (allocationCallbacks c) propname of
       Some (alloc, dealloc) \<Rightarrow> dealloc v
     | None \<Rightarrow>
         (case deallocate_method c (''deallocate_'' @ map (\<lambda>ch. if ch = CHR '' '' then CHR ''_'' else ch) propname) of
           Some m \<Rightarrow> m v
         | None \<Rightarrow> act_return ()))"

definition deallocateCapacities ::
    "('v, 'x device_scheme) device_class \<Rightarrow> (string, 'v) dict \<Rightarrow> ('x device_scheme, unit) action" where
  "deallocateCapacities c pd =
     act_bind (act_get (\<lambda>d. isEnabled d \<and> isUnLocked d)) (\<lambda>ok.
       if ok then
         (case deallocateCapacities_method c of
           Some m \<Rightarrow> m pd
         | None \<Rightarrow> act_each (\<lambda>(pid, v). deallocateCapacity_one c (prop_name c pid) v) pd)
       else act_raise InvalidState)"

text \<open>The loop over the properties, which stops at the first refusal; it returns what succeeded.\<close>

fun allocate_loop ::
    "('v, 's) device_class \<Rightarrow> (string, 'v) dict \<Rightarrow> (string, 'v) dict \<Rightarrow> ('s, (string, 'v) dict) action" where
  "allocate_loop c [] successful = act_return successful"
| "allocate_loop c ((key, val) # rest) successful =
     act_bind (allocateCapacity_one c (prop_name c key) val) (\<lambda>success.
       if success then allocate_loop c rest (dput key val successful) else act_return successful)"

definition allocateCapacities ::
    "('v, 'x device_scheme) device_class \<Rightarrow> (string, 'v) dict \<Rightarrow> ('x device_scheme, bool) action" where
  "allocateCapacities c pd =
     act_bind (act_get (\<lambda>d. isEnabled d \<and> isUnLocked d)) (\<lambda>ok.
       if ok then
         act_bind
           (case allocateCapacities_method c of
             Some m \<Rightarrow> m pd
           | None \<Rightarrow> act_bind (allocate_loop c pd []) (\<lambda>successful.
               let success = (length successful = length pd)
               in act_then (act_when (\<not> success) (deallocateCapacities c successful)) (act_return success)))
           (\<lambda>success. act_then (updateUsageState_method c) (act_return success))
       else act_raise InvalidState)"

definition allocateCapacity ::
    "('v, 'x device_scheme) device_class \<Rightarrow> (string \<times> 'v) list \<Rightarrow> ('x device_scheme, bool) action" where
  "allocateCapacity c props =
     act_bind (act_get d_usageState) (\<lambda>u.
       if u = BUSY then act_return False
       else act_then (validateAllocProps c props) (act_bind (propdict c props []) (\<lambda>pd.
         act_catch (allocateCapacities c pd) (\<lambda>e.
           if e = InvalidCapacity \<or> e = InvalidState then act_raise e else act_return False))))"

definition deallocateCapacity ::
    "('v, 'x device_scheme) device_class \<Rightarrow> (string \<times> 'v) list \<Rightarrow> ('x device_scheme, unit) action" where
  "deallocateCapacity c props =
     act_then (validateAllocProps c props) (act_bind (propdict c props []) (\<lambda>pd.
       act_then (deallocateCapacities c pd) (updateUsageState_method c)))"

end
