(* ===== verification/DeviceCapacity.thy ===== *)
theory DeviceCapacity
  imports Device
begin

text \<open>
  What the generic allocation of a device promises: all properties or none, as long as the
  callbacks of the device answer with a value; and what an exception from a callback leaves behind.
\<close>

section \<open>Callbacks that keep accounts\<close>

definition usable :: "'x device_scheme \<Rightarrow> bool" where
  "usable d \<longleftrightarrow> isEnabled d \<and> isUnLocked d"

text \<open>
  \<open>free d id\<close> is what is left of a capacity. A successful callback takes its amount, a refusing one
  takes nothing, a deallocation gives the amount back, and none of them raises or touches the
  administrative and operational states.
\<close>

definition accounts ::
    "('v, 'x device_scheme) device_class \<Rightarrow> ('x device_scheme \<Rightarrow> string \<Rightarrow> rat) \<Rightarrow> ('v \<Rightarrow> rat) \<Rightarrow> bool" where
  "accounts c free amount \<longleftrightarrow>
     allocateCapacities_method c = None \<and> deallocateCapacities_method c = None \<and>
     (\<forall>key v d. prop_allocatable c key = Some True \<longrightarrow> (\<exists>b d'. allocateCapacity_one c (prop_name c key) v d = (Ok b, d') \<and> usable d' = usable d \<and>
        free d' = (if b then (free d)(key := free d key - amount v) else free d))) \<and>
     (\<forall>key v d. prop_allocatable c key = Some True \<longrightarrow> (\<exists>d'. deallocateCapacity_one c (prop_name c key) v d = (Ok (), d') \<and> usable d' = usable d \<and>
        free d' = (free d)(key := free d key + amount v))) \<and>
     (\<forall>d. \<exists>d'. updateUsageState_method c d = (Ok (), d') \<and> free d' = free d)"

definition taken :: "('v \<Rightarrow> rat) \<Rightarrow> (string, 'v) dict \<Rightarrow> string \<Rightarrow> rat" where
  "taken amount pd k = (case dget pd k of None \<Rightarrow> 0 | Some v \<Rightarrow> amount v)"

lemma taken_simps [simp]: "taken amount [] k = 0"
  "taken amount (dput key v pd) k = (if k = key then amount v else taken amount pd k)"
  "taken amount ((key, v) # pd) k = (if k = key then amount v else taken amount pd k)"
  by (simp_all add: taken_def)

lemma accounts_alloc:
  assumes "accounts c free amount" "prop_allocatable c key = Some True"
  obtains b d' where "allocateCapacity_one c (prop_name c key) v d = (Ok b, d')" "usable d' = usable d"
    "free d' = (if b then (free d)(key := free d key - amount v) else free d)"
  using assms unfolding accounts_def by metis

lemma accounts_dealloc:
  assumes "accounts c free amount" "prop_allocatable c key = Some True"
  obtains d' where "deallocateCapacity_one c (prop_name c key) v d = (Ok (), d')" "usable d' = usable d"
    "free d' = (free d)(key := free d key + amount v)"
  using assms unfolding accounts_def by metis

lemma accounts_usage:
  assumes "accounts c free amount"
  obtains d' where "updateUsageState_method c d = (Ok (), d')" "free d' = free d"
  using assms unfolding accounts_def by metis

lemma length_dput: "dget d k = None \<Longrightarrow> length (dput k v d) = Suc (length d)"
  by (induction d) (auto split: if_splits)

definition all_allocatable :: "('v, 's) device_class \<Rightarrow> (string, 'v) dict \<Rightarrow> bool" where
  "all_allocatable c pd \<longleftrightarrow> list_all (\<lambda>(pid, v). prop_allocatable c pid = Some True) pd"

lemma all_allocatable_simps [simp]: "all_allocatable c []"
  "all_allocatable c ((k, v) # pd) \<longleftrightarrow> prop_allocatable c k = Some True \<and> all_allocatable c pd"
  by (simp_all add: all_allocatable_def)

lemma all_allocatable_dput:
  "all_allocatable c pd \<Longrightarrow> prop_allocatable c k = Some True \<Longrightarrow> all_allocatable c (dput k v pd)"
  by (induction pd) auto

lemma allocate_loop_accounts:
  assumes "accounts c free amount" "dict_ok pd" "\<And>k. k \<in> set (dkeys pd) \<Longrightarrow> dget acc k = None" "dict_ok acc"
    "all_allocatable c pd" "all_allocatable c acc"
  obtains succ d' where "allocate_loop c pd acc d = (Ok succ, d')" "usable d' = usable d"
    "dict_ok succ \<and> all_allocatable c succ"
    "\<forall>k. free d' k = free d k - taken amount succ k + taken amount acc k"
    "length succ \<le> length acc + length pd"
    "length succ = length acc + length pd \<longrightarrow> (\<forall>k. taken amount succ k = taken amount acc k + taken amount pd k)"
  using assms(2-6)
proof (induction pd arbitrary: acc d thesis)
  case Nil
  show ?case by (rule Nil.prems(1) [of acc d]) (use Nil.prems(4,6) in simp_all)
next
  case (Cons entry pd)
  obtain key v where e: "entry = (key, v)" by (cases entry)
  have pd: "dict_ok pd" "dget pd key = None" "dget acc key = None"
    using Cons.prems(2,3) e by (simp_all add: dict_ok_Cons dkeys_def)
  have key: "prop_allocatable c key = Some True" using Cons.prems(5) e by simp
  obtain b d1 where b: "allocateCapacity_one c (prop_name c key) v d = (Ok b, d1)" "usable d1 = usable d"
    "free d1 = (if b then (free d)(key := free d key - amount v) else free d)"
    by (rule accounts_alloc [OF assms(1) key])
  have zero: "taken amount acc key = 0" "taken amount pd key = 0" using pd by (simp_all add: taken_def)
  show ?case
  proof (cases b)
    case False
    show ?thesis
      by (rule Cons.prems(1) [of acc d1]) (use False b e Cons.prems(4,6) in \<open>simp_all add: act_bind_def\<close>)
  next
    case True
    have "dget (dput key v acc) k = None" if "k \<in> set (dkeys pd)" for k
      using that Cons.prems(3) [of k] pd(2) e by (auto simp: dget_None_iff dkeys_def)
    note fresh = this
    have alloc: "all_allocatable c pd" using Cons.prems(5) e by simp
    obtain succ d' where s: "allocate_loop c pd (dput key v acc) d1 = (Ok succ, d')" "usable d' = usable d1"
      "dict_ok succ \<and> all_allocatable c succ"
      "\<forall>k. free d' k = free d1 k - taken amount succ k + taken amount (dput key v acc) k"
      "length succ \<le> length (dput key v acc) + length pd"
      "length succ = length (dput key v acc) + length pd \<longrightarrow>
        (\<forall>k. taken amount succ k = taken amount (dput key v acc) k + taken amount pd k)"
      by (rule Cons.IH [of "dput key v acc" d1, OF _ pd(1) fresh dict_ok_dput [OF Cons.prems(4)] alloc
            all_allocatable_dput [OF Cons.prems(6) key]])
    show ?thesis
    proof (rule Cons.prems(1) [of succ d'])
      show "allocate_loop c (entry # pd) acc d = (Ok succ, d')" using True b(1) s(1) e by (simp add: act_bind_def)
      show "\<forall>k. free d' k = free d k - taken amount succ k + taken amount acc k"
        using s(4) b(3) True zero(1) by simp
    qed (use s b pd(3) e zero in \<open>simp_all add: length_dput\<close>)
  qed
qed

lemma deallocate_each_accounts:
  assumes "accounts c free amount" "dict_ok pd \<and> all_allocatable c pd"
  obtains d' where "act_each (\<lambda>(pid, v). deallocateCapacity_one c (prop_name c pid) v) pd d = (Ok (), d')"
    "\<And>k. free d' k = free d k + taken amount pd k" "usable d' = usable d"
  using assms(2)
proof (induction pd arbitrary: d thesis)
  case Nil
  show ?case by (rule Nil(1)) simp_all
next
  case (Cons entry pd)
  obtain key v where e: "entry = (key, v)" by (cases entry)
  have pd: "dict_ok pd \<and> all_allocatable c pd" "taken amount pd key = 0" using Cons.prems(2) e by (simp_all add: dict_ok_Cons taken_def)
  have key: "prop_allocatable c key = Some True" using Cons.prems(2) e by simp
  obtain d1 where d1: "deallocateCapacity_one c (prop_name c key) v d = (Ok (), d1)" "usable d1 = usable d"
    "free d1 = (free d)(key := free d key + amount v)"
    by (rule accounts_dealloc [OF assms(1) key])
  obtain d' where d': "act_each (\<lambda>(pid, v). deallocateCapacity_one c (prop_name c pid) v) pd d1 = (Ok (), d')"
    "\<And>k. free d' k = free d1 k + taken amount pd k" "usable d' = usable d1"
    using Cons.IH [OF _ pd(1), of d1] by metis
  show ?case
    by (rule Cons.prems(1) [of d']) (use d1 d' e pd(2) in \<open>simp_all add: act_simps\<close>)
qed


lemma propdict_run:
  "list_all (\<lambda>(pid, v). prop_allocatable c pid = Some True) props \<Longrightarrow>
    validateAllocProps c props d = (Ok (), d) \<and> propdict c props acc d = (Ok (foldl (\<lambda>pd (pid, v). dput pid v pd) acc props), d)"
proof (induction props arbitrary: acc)
  case (Cons entry props)
  then show ?case by (cases entry) (auto simp: validateAllocProps_def)
qed (simp add: validateAllocProps_def)

lemma dict_ok_collected: "dict_ok acc \<Longrightarrow> dict_ok (foldl (\<lambda>pd (pid, v). dput pid v pd) acc props)"
  by (induction props arbitrary: acc) auto

lemma all_allocatable_collected:
  "list_all (\<lambda>(pid, v). prop_allocatable c pid = Some True) props \<Longrightarrow> all_allocatable c acc \<Longrightarrow>
    all_allocatable c (foldl (\<lambda>pd (pid, v). dput pid v pd) acc props)"
  by (induction props arbitrary: acc) (auto simp: all_allocatable_dput)

lemma propdict_fails:
  assumes "\<not> list_all (\<lambda>(pid, v). prop_allocatable c pid = Some True) props"
  shows "validateAllocProps c props d = (Exn InvalidCapacity, d)"
  using assms by (induction props) (auto simp: validateAllocProps_def)

lemma allocateCapacities_accounts:
  assumes "accounts c free amount" "dict_ok pd" "usable d" "all_allocatable c pd"
  obtains b d' where "allocateCapacities c pd d = (Ok b, d')"
    "free d' = (if b then \<lambda>k. free d k - taken amount pd k else free d)"
proof -
  have none: "allocateCapacities_method c = None" "deallocateCapacities_method c = None"
    using assms(1) by (simp_all add: accounts_def)
  obtain succ d1 where s: "allocate_loop c pd [] d = (Ok succ, d1)" "usable d1 = usable d"
    "dict_ok succ \<and> all_allocatable c succ"
    "\<And>k. free d1 k = free d k - taken amount succ k"
    "length succ = length pd \<Longrightarrow> \<forall>k. taken amount succ k = taken amount pd k"
  proof (rule allocate_loop_accounts [OF assms(1,2), of "[]" d])
    fix succ d1
    assume a: "allocate_loop c pd [] d = (Ok succ, d1)" "usable d1 = usable d" "dict_ok succ \<and> all_allocatable c succ"
      "\<forall>k. free d1 k = free d k - taken amount succ k + taken amount [] k"
      "length succ \<le> length [] + length pd"
      "length succ = length [] + length pd \<longrightarrow> (\<forall>k. taken amount succ k = taken amount [] k + taken amount pd k)"
    show thesis by (rule that [OF a(1-3)]) (use a(4,6) in simp_all)
  qed (use assms(4) in simp_all)
  have ok: "isEnabled d \<and> isUnLocked d" using assms(3) by (simp add: usable_def)
  show thesis
  proof (cases "length succ = length pd")
    case True
    obtain d2 where u: "updateUsageState_method c d1 = (Ok (), d2)" "free d2 = free d1"
      by (rule accounts_usage [OF assms(1)])
    show thesis
      by (rule that [of True d2])
        (use True u s none ok in \<open>simp_all add: allocateCapacities_def act_simps act_when_def fun_eq_iff\<close>)
  next
    case False
    have ok1: "isEnabled d1 \<and> isUnLocked d1" using s(2) assms(3) by (simp add: usable_def)
    obtain d2 where r: "act_each (\<lambda>(pid, v). deallocateCapacity_one c (prop_name c pid) v) succ d1 = (Ok (), d2)"
      "\<And>k. free d2 k = free d1 k + taken amount succ k"
      using deallocate_each_accounts [OF assms(1) s(3), of d1] by metis
    then have "deallocateCapacities c succ d1 = (Ok (), d2)"
      using none ok1 by (simp add: deallocateCapacities_def)
    moreover obtain d3 where "updateUsageState_method c d2 = (Ok (), d3)" "free d3 = free d2"
      by (rule accounts_usage [OF assms(1)])
    ultimately show thesis
      by (intro that [of False d3])
        (use False r s none ok in \<open>simp_all add: allocateCapacities_def act_simps act_when_def fun_eq_iff\<close>)
  qed
qed

text \<open>
  C25: allocation is all or nothing. For a device whose callbacks keep accounts,
  \<open>allocateCapacity\<close> either takes the amounts of every property of the request (the last one when an
  id is repeated), or takes nothing: when it is busy, when a property is not allocatable, when the
  device is locked or disabled, and when some callback refuses after others have succeeded.
\<close>

theorem allocation_is_all_or_nothing:
  assumes "accounts c free amount" "allocateCapacity c props d = (r, d')"
  shows "(r = Ok True \<and> free d' = (\<lambda>k. free d k - taken amount (foldl (\<lambda>pd (pid, v). dput pid v pd) [] props) k)) \<or>
    (r \<noteq> Ok True \<and> free d' = free d)"
proof (cases "d_usageState d = BUSY")
  case True
  then show ?thesis using assms(2) by (auto simp: allocateCapacity_def)
next
  case busy: False
  show ?thesis
  proof (cases "list_all (\<lambda>(pid, v). prop_allocatable c pid = Some True) props")
    case False
    then show ?thesis using busy assms(2) by (auto simp: allocateCapacity_def act_simps propdict_fails)
  next
    case alloc: True
    let ?pd = "foldl (\<lambda>pd (pid, v). dput pid v pd) [] props"
    have call: "(r, d') = act_catch (allocateCapacities c ?pd)
        (\<lambda>e. if e = InvalidCapacity \<or> e = InvalidState then act_raise e else act_return False) d"
      using busy assms(2) propdict_run [OF alloc] by (simp add: allocateCapacity_def act_simps)
    show ?thesis
    proof (cases "usable d")
      case True
      obtain b d1 where "allocateCapacities c ?pd d = (Ok b, d1)"
        "free d1 = (if b then \<lambda>k. free d k - taken amount ?pd k else free d)"
        by (rule allocateCapacities_accounts [OF assms(1) dict_ok_collected [OF dict_ok_Nil, of props] True
          all_allocatable_collected [OF alloc all_allocatable_simps(1)]])
      then show ?thesis using call by (simp add: act_simps)
    next
      case False
      then have "allocateCapacities c ?pd d = (Exn InvalidState, d)"
        by (auto simp: allocateCapacities_def usable_def)
      then show ?thesis using call by (simp add: act_simps)
    qed
  qed
qed


section \<open>A device with two capacities\<close>

record bank = device +
  left :: "string \<Rightarrow> rat"

definition bank_alloc :: "string \<Rightarrow> rat \<Rightarrow> (bank, bool) action" where
  "bank_alloc key v = act_bind (act_get (\<lambda>d. v \<le> left d key)) (\<lambda>enough.
     if enough then act_then (act_update (\<lambda>d. d\<lparr>left := (left d)(key := left d key - v)\<rparr>)) (act_return True)
     else act_return False)"

definition bank_dealloc :: "string \<Rightarrow> rat \<Rightarrow> (bank, unit) action" where
  "bank_dealloc key v = act_update (\<lambda>d. d\<lparr>left := (left d)(key := left d key + v)\<rparr>)"

definition bank_class :: "(rat, bank) device_class" where
  "bank_class = \<lparr>prop_allocatable = (\<lambda>pid. if pid = ''ram'' \<or> pid = ''cpu'' then Some True else None),
     prop_name = (\<lambda>pid. pid), allocationCallbacks = [],
     allocate_method = (\<lambda>m. Some (bank_alloc (drop 9 m))), deallocate_method = (\<lambda>m. Some (bank_dealloc (drop 11 m))),
     allocateCapacities_method = None, deallocateCapacities_method = None,
     updateUsageState_method = act_return ()\<rparr>"

definition bank_state :: bank where
  "bank_state = \<lparr>d_usageState = IDLE, d_adminState = UNLOCKED, d_operationalState = ENABLED,
     idm_publisher = False, idm_events = [], left = (\<lambda>_. 4)\<rparr>"

lemma bank_accounts: "accounts bank_class left (\<lambda>v. v)"
  unfolding accounts_def
proof (intro conjI allI impI)
  fix key v and d :: bank
  assume "prop_allocatable bank_class key = Some True"
  then have k: "key = ''ram'' \<or> key = ''cpu''" by (auto simp: bank_class_def split: if_splits)
  have n: "deallocateCapacity_one bank_class (prop_name bank_class key) v = bank_dealloc key v"
    "allocateCapacity_one bank_class (prop_name bank_class key) v = bank_alloc key v"
    using k by (auto simp: deallocateCapacity_one_def allocateCapacity_one_def bank_class_def is_alnum_def)
  show "\<exists>d'. deallocateCapacity_one bank_class (prop_name bank_class key) v d = (Ok (), d') \<and> usable d' = usable d \<and>
      left d' = (left d)(key := left d key + v)"
    unfolding n by (simp add: bank_dealloc_def usable_def isEnabled_def isUnLocked_def)
  show "\<exists>b d'. allocateCapacity_one bank_class (prop_name bank_class key) v d = (Ok b, d') \<and> usable d' = usable d \<and>
      left d' = (if b then (left d)(key := left d key - v) else left d)"
    unfolding n by (cases "v \<le> left d key") (auto simp: bank_alloc_def usable_def isEnabled_def isUnLocked_def)
qed (simp_all add: bank_class_def)

lemma allocation_is_all_or_nothing_witness:
  "(\<exists>d'. allocateCapacity bank_class [(''ram'', 2), (''cpu'', 5)] bank_state = (Ok False, d') \<and> left d' = left bank_state) \<and>
    (\<exists>d'. allocateCapacity bank_class [(''ram'', 2), (''cpu'', 3)] bank_state = (Ok True, d') \<and> left d' ''cpu'' = 1)"
proof -
  have r: "fst (allocateCapacity bank_class [(''ram'', 2), (''cpu'', 5)] bank_state) = Ok False"
    "fst (allocateCapacity bank_class [(''ram'', 2), (''cpu'', 3)] bank_state) = Ok True"
    by code_simp+
  obtain d1 d2 where d: "allocateCapacity bank_class [(''ram'', 2), (''cpu'', 5)] bank_state = (Ok False, d1)"
    "allocateCapacity bank_class [(''ram'', 2), (''cpu'', 3)] bank_state = (Ok True, d2)"
    using r by (metis prod.collapse)
  show ?thesis
    using allocation_is_all_or_nothing [OF bank_accounts d(1)] allocation_is_all_or_nothing [OF bank_accounts d(2)] d
    by (simp add: bank_state_def taken_def)
qed

text \<open>
  An exception breaks the promise. When a callback raises, what earlier callbacks of the
  same request took is never given back, whether the exception is passed on or turned into
  a refusal.
\<close>

theorem exception_keeps_earlier_allocations:
  assumes "usable d" "d_usageState d \<noteq> BUSY" "k \<noteq> key"
    "prop_allocatable c key = Some True" "prop_allocatable c k = Some True" "allocateCapacities_method c = None"
    "allocateCapacity_one c (prop_name c key) v d = (Ok True, d')"
    "allocateCapacity_one c (prop_name c k) w d' = (Exn e, d'')"
  shows "allocateCapacity c [(key, v), (k, w)] d =
    (if e = InvalidCapacity \<or> e = InvalidState then Exn e else Ok False, d'')"
proof -
  have "allocateCapacities c [(key, v), (k, w)] d = (Exn e, d'')"
    using assms(1,6-8) by (simp add: allocateCapacities_def usable_def act_simps)
  then show ?thesis
    using assms(2-5) by (simp add: allocateCapacity_def act_simps propdict_run)
qed

end
