(* ===== verification/TunerDevice.thy ===== *)
theory TunerDevice
  imports Device
begin

text \<open>
  \<open>frontendInterfaces/libsrc/python/tuner_device.py\<close>: a device with a list of tuners, each under the
  control of at most one allocation and shared by listeners. The hooks that a concrete device
  implements (\<open>tuner_class\<close>) are parameters; the hook that tunes may refuse or raise, the others
  are taken to return. Frequencies and rates are rational numbers.
\<close>

section \<open>Numbers and strings\<close>

text \<open>Python 2 rounds halves away from zero.\<close>

definition py_round :: "rat \<Rightarrow> int" where
  "py_round x = (if x < 0 then - \<lfloor>- x + 1 / 2\<rfloor> else \<lfloor>x + 1 / 2\<rfloor>)"

definition floatingPointCompare :: "rat \<Rightarrow> rat \<Rightarrow> int" where
  "floatingPointCompare lhs rhs = py_round ((lhs - rhs) * 10)"

text \<open>\<open>s.split(',')\<close> and \<open>','.join(words)\<close>.\<close>

fun split_commas :: "string \<Rightarrow> string list" where
  "split_commas [] = [[]]"
| "split_commas (c # s) =
     (if c = CHR '','' then [] # split_commas s
      else (c # hd (split_commas s)) # tl (split_commas s))"

fun join_commas :: "string list \<Rightarrow> string" where
  "join_commas [] = []"
| "join_commas [w] = w"
| "join_commas (w # v # ws) = w @ '','' @ join_commas (v # ws)"

section \<open>Data\<close>

record tuner_allocation =
  ta_tuner_type :: string
  ta_allocation_id :: string
  ta_center_frequency :: rat
  ta_bandwidth :: rat
  ta_bandwidth_tolerance :: rat
  ta_sample_rate :: rat
  ta_sample_rate_tolerance :: rat
  ta_device_control :: bool
  ta_group_id :: string
  ta_rf_flow_id :: string

record listener_allocation =
  la_existing_allocation_id :: string
  la_listener_allocation_id :: string

record scanner_allocation =
  sa_min_freq :: rat
  sa_max_freq :: rat
  sa_mode :: string
  sa_control_mode :: string
  sa_control_limit :: rat

text \<open>One allocation property of a request, by its id.\<close>

datatype fei_prop =
    TunerProp tuner_allocation | ListenerProp listener_allocation | ScannerProp scanner_allocation
  | OtherProp string

fun prop_id :: "fei_prop \<Rightarrow> string" where
  "prop_id (TunerProp a) = ''FRONTEND::tuner_allocation''"
| "prop_id (ListenerProp a) = ''FRONTEND::listener_allocation''"
| "prop_id (ScannerProp a) = ''FRONTEND::scanner_allocation''"
| "prop_id (OtherProp pid) = pid"

text \<open>The fields of a status entry that the device code uses.\<close>

record tuner_status =
  ts_tuner_type :: string
  ts_allocation_id_csv :: string
  ts_center_frequency :: rat
  ts_bandwidth :: rat
  ts_sample_rate :: rat
  ts_group_id :: string
  ts_rf_flow_id :: string
  ts_enabled :: bool

record tuner_allocation_ids_struct =
  control_allocation_id :: string
  listener_allocation_ids :: "string list"

definition no_allocation_ids :: tuner_allocation_ids_struct where
  "no_allocation_ids = \<lparr>control_allocation_id = '''', listener_allocation_ids = []\<rparr>"

text \<open>The state; \<open>fei_user\<close> is what the hooks keep, \<open>eos_sent\<close> the calls of \<open>sendEOS\<close>.\<close>

record 'u fei = device +
  frontend_tuner_status :: "tuner_status list"
  tuner_allocation_ids :: "tuner_allocation_ids_struct list"
  allocation_id_to_tuner_id :: "(string, nat) dict"
  fei_user :: 'u
  eos_sent :: "string list"

record 'u tuner_class =
  fei_allocatable :: "string \<Rightarrow> bool option"
  supports_scan :: bool
  new_tuner_status :: tuner_status
  deviceSetTuning :: "tuner_allocation \<Rightarrow> nat \<Rightarrow> tuner_status \<Rightarrow> 'u \<Rightarrow> bool result \<times> tuner_status \<times> 'u"
  deviceSetTuningScan ::
    "tuner_allocation \<Rightarrow> scanner_allocation \<Rightarrow> nat \<Rightarrow> tuner_status \<Rightarrow> 'u \<Rightarrow> bool result \<times> tuner_status \<times> 'u"
  deviceEnable :: "nat \<Rightarrow> tuner_status \<Rightarrow> 'u \<Rightarrow> tuner_status \<times> 'u"
  deviceDisable :: "nat \<Rightarrow> tuner_status \<Rightarrow> 'u \<Rightarrow> tuner_status \<times> 'u"
  deviceDeleteTuning :: "nat \<Rightarrow> tuner_status \<Rightarrow> 'u \<Rightarrow> tuner_status \<times> 'u"
  assignListener :: "string \<Rightarrow> string \<Rightarrow> 'u \<Rightarrow> 'u"
  removeListener :: "string \<Rightarrow> 'u \<Rightarrow> 'u"

section \<open>Reading and writing the tables\<close>

definition status_at :: "nat \<Rightarrow> ('u fei, tuner_status) action" where
  "status_at t = act_bind (act_get frontend_tuner_status) (\<lambda>l. act_nth l t)"

definition ids_at :: "nat \<Rightarrow> ('u fei, tuner_allocation_ids_struct) action" where
  "ids_at t = act_bind (act_get tuner_allocation_ids) (\<lambda>l. act_nth l t)"

definition mapped_tuner :: "string \<Rightarrow> ('u fei, nat) action" where
  "mapped_tuner i = act_bind (act_get allocation_id_to_tuner_id) (\<lambda>m. act_lookup m i)"

definition put_status :: "nat \<Rightarrow> (tuner_status \<Rightarrow> tuner_status) \<Rightarrow> 'u fei \<Rightarrow> 'u fei" where
  "put_status t f d = d\<lparr>frontend_tuner_status := (frontend_tuner_status d)[t := f (frontend_tuner_status d ! t)]\<rparr>"

definition put_ids ::
    "nat \<Rightarrow> (tuner_allocation_ids_struct \<Rightarrow> tuner_allocation_ids_struct) \<Rightarrow> 'u fei \<Rightarrow> 'u fei" where
  "put_ids t f d = d\<lparr>tuner_allocation_ids := (tuner_allocation_ids d)[t := f (tuner_allocation_ids d ! t)]\<rparr>"

definition update_status :: "nat \<Rightarrow> (tuner_status \<Rightarrow> tuner_status) \<Rightarrow> ('u fei, unit) action" where
  "update_status t f = act_bind (status_at t) (\<lambda>_. act_update (put_status t f))"

definition update_ids ::
    "nat \<Rightarrow> (tuner_allocation_ids_struct \<Rightarrow> tuner_allocation_ids_struct) \<Rightarrow> ('u fei, unit) action" where
  "update_ids t f = act_bind (ids_at t) (\<lambda>_. act_update (put_ids t f))"

definition put_user :: "('u \<Rightarrow> 'u) \<Rightarrow> 'u fei \<Rightarrow> 'u fei" where
  "put_user f d = d\<lparr>fei_user := f (fei_user d)\<rparr>"

definition put_mapping :: "((string, nat) dict \<Rightarrow> (string, nat) dict) \<Rightarrow> 'u fei \<Rightarrow> 'u fei" where
  "put_mapping f d = d\<lparr>allocation_id_to_tuner_id := f (allocation_id_to_tuner_id d)\<rparr>"

text \<open>A hook gets the status entry of the tuner, which it may change, and the tuner's number.\<close>

definition tuning_hook ::
    "(nat \<Rightarrow> tuner_status \<Rightarrow> 'u \<Rightarrow> 'a result \<times> tuner_status \<times> 'u) \<Rightarrow> nat \<Rightarrow> ('u fei, 'a) action" where
  "tuning_hook h t = act_bind (status_at t) (\<lambda>st d.
     let (r, st', u') = h t st (fei_user d) in (r, put_user (\<lambda>_. u') (put_status t (\<lambda>_. st') d)))"

definition plain_hook ::
    "(nat \<Rightarrow> tuner_status \<Rightarrow> 'u \<Rightarrow> tuner_status \<times> 'u) \<Rightarrow> nat \<Rightarrow> ('u fei, unit) action" where
  "plain_hook h = tuning_hook (\<lambda>t st u. (Ok (), h t st u))"


section \<open>Mapping, states and channels\<close>

definition getControlAllocationId :: "nat \<Rightarrow> ('u fei, string) action" where
  "getControlAllocationId idx = act_bind (ids_at idx) (\<lambda>ids. act_return (control_allocation_id ids))"

text \<open>\<open>None\<close> stands for the result -1.\<close>

definition getTunerMapping :: "string \<Rightarrow> ('u fei, nat option) action" where
  "getTunerMapping i = act_get (\<lambda>d. dget (allocation_id_to_tuner_id d) i)"

definition csv_ids :: "string \<Rightarrow> nat \<Rightarrow> (string, nat) dict \<Rightarrow> string list" where
  "csv_ids control t m =
     (let first = (if control \<noteq> '''' then [control] else [])
      in first @ map fst (filter (\<lambda>(i, t'). t' = t \<and> i \<notin> set first) m))"

definition createAllocationIdCsv :: "nat \<Rightarrow> ('u fei, string) action" where
  "createAllocationIdCsv t = act_bind (ids_at t) (\<lambda>ids.
     act_get (\<lambda>d. join_commas (csv_ids (control_allocation_id ids) t (allocation_id_to_tuner_id d))))"

definition refresh_csv :: "nat \<Rightarrow> ('u fei, unit) action" where
  "refresh_csv t = act_bind (createAllocationIdCsv t) (\<lambda>csv. update_status t (\<lambda>st. st\<lparr>ts_allocation_id_csv := csv\<rparr>))"

definition usage_of :: "tuner_allocation_ids_struct list \<Rightarrow> usage" where
  "usage_of l =
     (let tunerAllocated = length (filter (\<lambda>ids. control_allocation_id ids \<noteq> '''') l)
      in if tunerAllocated = 0 then IDLE else if tunerAllocated = length l then BUSY else ACTIVE)"

definition update_usage :: "('u fei, unit) action" where
  "update_usage = act_update (\<lambda>d. set_usageState (usage_of (tuner_allocation_ids d)) d)"

definition addChannels :: "'u tuner_class \<Rightarrow> nat \<Rightarrow> string \<Rightarrow> 'u fei \<Rightarrow> 'u fei" where
  "addChannels c num tuner_type d =
     d\<lparr>frontend_tuner_status := frontend_tuner_status d @
         replicate num ((new_tuner_status c)\<lparr>ts_tuner_type := tuner_type, ts_enabled := False\<rparr>),
       tuner_allocation_ids := []\<rparr>"

definition setNumChannels :: "'u tuner_class \<Rightarrow> nat \<Rightarrow> string \<Rightarrow> 'u fei \<Rightarrow> 'u fei" where
  "setNumChannels c num tuner_type d = addChannels c num tuner_type (d\<lparr>frontend_tuner_status := []\<rparr>)"

definition enableTuner :: "'u tuner_class \<Rightarrow> nat \<Rightarrow> bool \<Rightarrow> ('u fei, unit) action" where
  "enableTuner c t enable = (if enable then plain_hook (deviceEnable c) t else plain_hook (deviceDisable c) t)"

definition sendEOS :: "string \<Rightarrow> 'u fei \<Rightarrow> 'u fei" where
  "sendEOS i d = d\<lparr>eos_sent := eos_sent d @ [i]\<rparr>"

definition removeTunerMappingByAllocationId :: "'u tuner_class \<Rightarrow> string \<Rightarrow> ('u fei, unit) action" where
  "removeTunerMappingByAllocationId c i =
     act_bind (mapped_tuner i) (\<lambda>t. act_bind (status_at t) (\<lambda>st.
       act_then (act_when (hd (split_commas (ts_allocation_id_csv st)) = i) (plain_hook (deviceDeleteTuning c) t))
         (act_update (\<lambda>d. put_mapping (dpop i) (sendEOS i (put_user (removeListener c i) d))))))"

definition removeListenerId :: "nat \<Rightarrow> string \<Rightarrow> ('u fei, unit) action" where
  "removeListenerId t i = update_status t (\<lambda>st.
     st\<lparr>ts_allocation_id_csv := join_commas (remove1 i (split_commas (ts_allocation_id_csv st)))\<rparr>)"

definition clear_csv :: "nat \<Rightarrow> ('u fei, unit) action" where
  "clear_csv t = update_status t (\<lambda>st. st\<lparr>ts_allocation_id_csv := ''''\<rparr>)"

definition removeTuner :: "'u tuner_class \<Rightarrow> nat \<Rightarrow> ('u fei, unit) action" where
  "removeTuner c t = act_then (enableTuner c t False) (update_ids t (\<lambda>_. no_allocation_ids))"

section \<open>Deallocation\<close>

text \<open>The last part of a deallocation, once the other ids of the tuner are gone.\<close>

definition release_tuner :: "'u tuner_class \<Rightarrow> nat \<Rightarrow> string \<Rightarrow> ('u fei, unit) action" where
  "release_tuner c t i =
     act_then
       (act_bind (ids_at t) (\<lambda>ids.
         if control_allocation_id ids = i
         then act_then (enableTuner c t False) (act_then (removeTunerMappingByAllocationId c i)
                (act_then (clear_csv t) (removeTuner c t)))
         else act_then (removeTunerMappingByAllocationId c i) (clear_csv t)))
       (clear_csv t)"

definition remove_listener_of :: "'u tuner_class \<Rightarrow> nat \<Rightarrow> string \<Rightarrow> ('u fei, unit) action" where
  "remove_listener_of c t j = act_then (removeTunerMappingByAllocationId c j) (removeListenerId t j)"

text \<open>
  The \<open>while\<close> loop of the deallocation of a controller: each round removes the first id of the list
  that is not the controller, and a list without such an id is never left. A round shortens the list
  by one, so one more round than its length is always enough.
\<close>

fun remove_other_ids :: "'u tuner_class \<Rightarrow> nat \<Rightarrow> nat \<Rightarrow> string \<Rightarrow> ('u fei, unit) action" where
  "remove_other_ids c 0 t i = act_hang"
| "remove_other_ids c (Suc n) t i =
     act_bind (mapped_tuner i) (\<lambda>t'. act_bind (status_at t') (\<lambda>st.
       if ts_allocation_id_csv st = i then act_return ()
       else (case filter (\<lambda>j. j \<noteq> i) (split_commas (ts_allocation_id_csv st)) of
           [] \<Rightarrow> act_hang
         | j # js \<Rightarrow> act_then (remove_listener_of c t j) (remove_other_ids c n t i))))"

definition deallocate_frontend_tuner_allocation :: "'u tuner_class \<Rightarrow> string \<Rightarrow> ('u fei, unit) action" where
  "deallocate_frontend_tuner_allocation c i =
     act_bind (getTunerMapping i) (\<lambda>m. case m of
       None \<Rightarrow> act_raise InvalidCapacity
     | Some t \<Rightarrow> act_bind (status_at t) (\<lambda>st.
         let split_id = split_commas (ts_allocation_id_csv st)
         in if hd split_id = i
            then act_then (remove_other_ids c (Suc (length split_id)) t i) (release_tuner c t i)
            else if i \<in> set split_id then remove_listener_of c t i
            else release_tuner c t i))"

definition deallocate_frontend_listener_allocation :: "'u tuner_class \<Rightarrow> string \<Rightarrow> ('u fei, unit) action" where
  "deallocate_frontend_listener_allocation c i =
     act_bind (getTunerMapping i) (\<lambda>m. case m of
       None \<Rightarrow> act_raise InvalidCapacity
     | Some t \<Rightarrow> act_bind (ids_at t) (\<lambda>ids.
         if control_allocation_id ids = i then act_raise InvalidCapacity else remove_listener_of c t i))"

section \<open>Allocation of a tuner\<close>

definition listenerRequestValidation :: "tuner_allocation \<Rightarrow> tuner_status \<Rightarrow> bool" where
  "listenerRequestValidation req st =
     (if floatingPointCompare (ta_center_frequency req) 0 < 0 \<or> floatingPointCompare (ta_bandwidth req) 0 < 0 \<or>
         floatingPointCompare (ta_sample_rate req) 0 < 0 \<or> floatingPointCompare (ta_bandwidth_tolerance req) 0 < 0 \<or>
         floatingPointCompare (ta_sample_rate_tolerance req) 0 < 0 then False
      else if floatingPointCompare (ta_center_frequency req - ta_bandwidth req * (1 / 2))
           (ts_center_frequency st - ts_bandwidth st * (1 / 2)) < 0 then False
      else if floatingPointCompare (ta_center_frequency req + ta_bandwidth req * (1 / 2))
           (ts_center_frequency st + ts_bandwidth st * (1 / 2)) > 0 then False
      else if floatingPointCompare (ta_bandwidth req) (ts_bandwidth st) > 0 then False
      else if floatingPointCompare (ta_bandwidth req) 0 \<noteq> 0 \<and>
         floatingPointCompare (ta_bandwidth req + ta_bandwidth req * ta_bandwidth_tolerance req / 100) (ts_bandwidth st) < 0
         then False
      else if floatingPointCompare (ta_sample_rate req) (ts_sample_rate st) > 0 then False
      else if floatingPointCompare (ta_sample_rate req) 0 \<noteq> 0 \<and>
         floatingPointCompare (ta_sample_rate req + ta_sample_rate req * ta_sample_rate_tolerance req / 100)
           (ts_sample_rate st) < 0 then False
      else True)"

definition outside_tolerance :: "rat \<Rightarrow> rat \<Rightarrow> rat \<Rightarrow> bool" where
  "outside_tolerance requested got tolerance \<longleftrightarrow>
     floatingPointCompare requested 0 \<noteq> 0 \<and>
     (floatingPointCompare got requested < 0 \<or>
      floatingPointCompare got (requested + requested * tolerance / 100) > 0)"

definition check_tolerances :: "tuner_allocation \<Rightarrow> nat \<Rightarrow> ('u fei, unit) action" where
  "check_tolerances req t = act_bind (status_at t) (\<lambda>st.
     if outside_tolerance (ta_sample_rate req) (ts_sample_rate st) (ta_sample_rate_tolerance req)
       then act_raise AllocationException
     else if outside_tolerance (ta_bandwidth req) (ts_bandwidth st) (ta_bandwidth_tolerance req)
       then act_raise AllocationException
     else act_return ())"

definition tuner_matches :: "tuner_allocation \<Rightarrow> tuner_status \<Rightarrow> bool" where
  "tuner_matches req st \<longleftrightarrow>
     ts_tuner_type st = ta_tuner_type req \<and>
     (ta_group_id req = '''' \<or> ta_group_id req = ts_group_id st) \<and>
     (ta_rf_flow_id req = '''' \<or> ta_rf_flow_id req = ts_rf_flow_id st \<or> ta_tuner_type req = ''CHANNELIZER'')"


definition request_tuning :: "tuner_allocation \<Rightarrow> tuner_status \<Rightarrow> tuner_status" where
  "request_tuning req st = st\<lparr>ts_center_frequency := ta_center_frequency req, ts_bandwidth := ta_bandwidth req,
     ts_sample_rate := ta_sample_rate req\<rparr>"

definition same_tuning :: "tuner_status \<Rightarrow> tuner_status \<Rightarrow> bool" where
  "same_tuning old st \<longleftrightarrow> ts_center_frequency old = ts_center_frequency st \<and>
     ts_bandwidth old = ts_bandwidth st \<and> ts_sample_rate old = ts_sample_rate st"

definition run_tuning ::
    "'u tuner_class \<Rightarrow> tuner_allocation \<Rightarrow> scanner_allocation option \<Rightarrow> nat \<Rightarrow> ('u fei, bool) action" where
  "run_tuning c req scan t =
     (case scan of
       Some s \<Rightarrow> if supports_scan c then tuning_hook (deviceSetTuningScan c req s) t
                 else tuning_hook (deviceSetTuning c req) t
     | None \<Rightarrow> tuning_hook (deviceSetTuning c req) t)"

definition take_control :: "tuner_allocation \<Rightarrow> nat \<Rightarrow> ('u fei, unit) action" where
  "take_control req t =
     act_then (update_ids t (\<lambda>ids. ids\<lparr>control_allocation_id := ta_allocation_id req\<rparr>))
       (act_then (act_update (put_mapping (dput (ta_allocation_id req) t))) (refresh_csv t))"

definition add_listener :: "'u tuner_class \<Rightarrow> string \<Rightarrow> string \<Rightarrow> nat \<Rightarrow> ('u fei, unit) action" where
  "add_listener c i existing t =
     act_then (update_ids t (\<lambda>ids. ids\<lparr>listener_allocation_ids := listener_allocation_ids ids @ [i]\<rparr>))
       (act_then (act_update (put_mapping (dput i t))) (act_then (refresh_csv t)
         (act_update (put_user (assignListener c i existing)))))"

text \<open>One round of the search: whether this tuner is the one. Controlling it first.\<close>

definition control_tuner ::
    "'u tuner_class \<Rightarrow> tuner_allocation \<Rightarrow> scanner_allocation option \<Rightarrow> nat \<Rightarrow> ('u fei, bool) action" where
  "control_tuner c req scan t =
     act_bind (ids_at t) (\<lambda>ids.
       if control_allocation_id ids \<noteq> '''' then act_return False
       else act_bind (status_at t) (\<lambda>old.
         act_then (update_status t (request_tuning req)) (act_bind (run_tuning c req scan t) (\<lambda>ok.
           if \<not> ok then act_return False
           else act_bind (status_at t) (\<lambda>st.
             act_then (act_when (same_tuning old st) (update_status t (request_tuning req)))
             (act_then (take_control req t)
             (act_then (check_tolerances req t)
             (act_then (enableTuner c t True)
             (act_then update_usage (act_return True))))))))))"

definition listen_tuner :: "'u tuner_class \<Rightarrow> tuner_allocation \<Rightarrow> nat \<Rightarrow> ('u fei, bool) action" where
  "listen_tuner c req t =
     (if ta_tuner_type req = ''CHANNELIZER'' \<or> ta_tuner_type req = ''TX'' then act_raise InvalidCapacity
      else act_bind (ids_at t) (\<lambda>ids.
        if control_allocation_id ids = '''' then act_return False
        else act_bind (status_at t) (\<lambda>st.
          if \<not> listenerRequestValidation req st then act_return False
          else act_then (add_listener c (ta_allocation_id req) (control_allocation_id ids) t)
            (act_then (check_tolerances req t) (act_then update_usage (act_return True))))))"

fun try_tuners ::
    "'u tuner_class \<Rightarrow> tuner_allocation \<Rightarrow> scanner_allocation option \<Rightarrow> nat list \<Rightarrow> ('u fei, bool) action" where
  "try_tuners c req scan [] = act_return False"
| "try_tuners c req scan (t # ts) =
     act_bind (status_at t) (\<lambda>st.
       if \<not> tuner_matches req st then try_tuners c req scan ts
       else act_bind (if ta_device_control req then control_tuner c req scan t else listen_tuner c req t)
         (\<lambda>found. if found then act_return True else try_tuners c req scan ts))"

text \<open>The list of allocation ids is filled up when it has not the length of the status list.\<close>

definition fill_ids :: "'u fei \<Rightarrow> 'u fei" where
  "fill_ids d = d\<lparr>tuner_allocation_ids := tuner_allocation_ids d @
     replicate (length (frontend_tuner_status d) - length (tuner_allocation_ids d)) no_allocation_ids\<rparr>"

definition search_tuner ::
    "'u tuner_class \<Rightarrow> tuner_allocation \<Rightarrow> scanner_allocation option \<Rightarrow> ('u fei, bool) action" where
  "search_tuner c req scan =
     act_then (act_update fill_ids) (act_bind (act_get (\<lambda>d. length (tuner_allocation_ids d))) (\<lambda>n.
       try_tuners c req scan [0..<n]))"

text \<open>
  Every exception of the search becomes an allocation exception, which undoes the allocation
  if it got as far as the mapping, and the result is \<open>False\<close>.
\<close>

definition allocate_frontend_tuner_allocation ::
    "'u tuner_class \<Rightarrow> tuner_allocation \<Rightarrow> scanner_allocation option \<Rightarrow> ('u fei, bool) action" where
  "allocate_frontend_tuner_allocation c req scan =
     (if ta_allocation_id req = '''' then act_raise InvalidCapacity
      else act_bind (getTunerMapping (ta_allocation_id req)) (\<lambda>used. case used of
        Some t \<Rightarrow> act_raise InvalidCapacity
      | None \<Rightarrow> act_catch (search_tuner c req scan) (\<lambda>e.
          act_bind (getTunerMapping (ta_allocation_id req)) (\<lambda>m.
            act_then (act_when (m \<noteq> None) (deallocate_frontend_tuner_allocation c (ta_allocation_id req)))
              (act_return False)))))"

definition allocate_frontend_listener_allocation ::
    "'u tuner_class \<Rightarrow> listener_allocation \<Rightarrow> ('u fei, bool) action" where
  "allocate_frontend_listener_allocation c la =
     (if la_existing_allocation_id la = '''' then act_raise InvalidCapacity
      else if la_listener_allocation_id la = '''' then act_raise InvalidCapacity
      else act_bind (getTunerMapping (la_listener_allocation_id la)) (\<lambda>used.
        if used \<noteq> None then act_raise InvalidCapacity
        else act_bind (getTunerMapping (la_existing_allocation_id la)) (\<lambda>m. case m of
          None \<Rightarrow> act_return False
        | Some t \<Rightarrow> act_bind (status_at t) (\<lambda>st.
            if ts_tuner_type st = ''CHANNELIZER'' \<or> ts_tuner_type st = ''TX'' then act_raise InvalidCapacity
            else act_then (add_listener c (la_listener_allocation_id la) (la_existing_allocation_id la) t)
              (act_return True)))))"

section \<open>Requests\<close>

definition fei_device_class :: "'u tuner_class \<Rightarrow> (fei_prop, 'u fei) device_class" where
  "fei_device_class c = \<lparr>prop_allocatable = fei_allocatable c,
     prop_name = (\<lambda>pid. if pid = ''FRONTEND::tuner_allocation'' then ''frontend_tuner_allocation''
       else if pid = ''FRONTEND::listener_allocation'' then ''frontend_listener_allocation'' else pid),
     allocationCallbacks = [], allocate_method = (\<lambda>m. None),
     deallocate_method = (\<lambda>m. if m = ''deallocate_frontend_tuner_allocation'' then Some (\<lambda>p. case p of
           TunerProp a \<Rightarrow> deallocate_frontend_tuner_allocation c (ta_allocation_id a) | _ \<Rightarrow> act_return ())
       else if m = ''deallocate_frontend_listener_allocation'' then Some (\<lambda>p. case p of
           ListenerProp la \<Rightarrow> deallocate_frontend_listener_allocation c (la_listener_allocation_id la) | _ \<Rightarrow> act_return ())
       else None),
     allocateCapacities_method = None, deallocateCapacities_method = None, updateUsageState_method = update_usage\<rparr>"

definition tuner_request :: "(string, fei_prop) dict \<Rightarrow> tuner_allocation option" where
  "tuner_request pd = (case dget pd ''FRONTEND::tuner_allocation'' of Some (TunerProp a) \<Rightarrow> Some a | _ \<Rightarrow> None)"

definition listener_request :: "(string, fei_prop) dict \<Rightarrow> listener_allocation option" where
  "listener_request pd = (case dget pd ''FRONTEND::listener_allocation'' of Some (ListenerProp a) \<Rightarrow> Some a | _ \<Rightarrow> None)"

definition scanner_request :: "(string, fei_prop) dict \<Rightarrow> scanner_allocation option" where
  "scanner_request pd = (case dget pd ''FRONTEND::scanner_allocation'' of Some (ScannerProp a) \<Rightarrow> Some a | _ \<Rightarrow> None)"

definition checkValidIds :: "'u tuner_class \<Rightarrow> (string, fei_prop) dict \<Rightarrow> ('u fei, unit) action" where
  "checkValidIds c pd =
     (let known = [''FRONTEND::tuner_allocation'', ''FRONTEND::listener_allocation''] @
            (if supports_scan c then [''FRONTEND::scanner_allocation''] else [])
      in if list_all (\<lambda>k. k \<in> set known) (dkeys pd) then act_return () else act_raise InvalidCapacity)"

definition fei_allocateCapacity :: "'u tuner_class \<Rightarrow> fei_prop list \<Rightarrow> ('u fei, bool) action" where
  "fei_allocateCapacity c props =
     (let keyed = map (\<lambda>p. (prop_id p, p)) props
      in act_bind (propdict (fei_device_class c) keyed []) (\<lambda>pd.
        let listener_alloc = (case tuner_request pd of Some a \<Rightarrow> \<not> ta_device_control a | None \<Rightarrow> False)
        in act_bind (act_get d_usageState) (\<lambda>u.
          if \<not> (listener_request pd \<noteq> None \<or> listener_alloc) \<and> u = BUSY then act_return False
          else act_then (validateAllocProps (fei_device_class c) keyed) (act_then (checkValidIds c pd)
            (case tuner_request pd of
              Some a \<Rightarrow> allocate_frontend_tuner_allocation c a (scanner_request pd)
            | None \<Rightarrow> (case listener_request pd of
                Some la \<Rightarrow> allocate_frontend_listener_allocation c la
              | None \<Rightarrow> act_raise InvalidCapacity))))))"

definition fei_deallocateCapacity :: "'u tuner_class \<Rightarrow> fei_prop list \<Rightarrow> ('u fei, unit) action" where
  "fei_deallocateCapacity c props =
     (let keyed = map (\<lambda>p. (prop_id p, p)) props
      in act_then (validateAllocProps (fei_device_class c) keyed)
        (act_bind (propdict (fei_device_class c) keyed []) (\<lambda>pd.
          act_then (deallocateCapacities (fei_device_class c) pd) update_usage)))"

end
