(* ===== verification/TunerControl.thy ===== *)
theory TunerControl
  imports TunerDevice
begin

text \<open>
  The three tables of a tuner device (the mapping from allocation ids to tuners, the control ids and
  the comma-separated id lists of the status) always agree, and allocation and deallocation do to
  them what their abstract specification says.
\<close>

section \<open>Splitting and joining\<close>

lemma split_commas_plain: "CHR '','' \<notin> set w \<Longrightarrow> split_commas w = [w]"
  by (induction w) auto

lemma split_commas_append: "CHR '','' \<notin> set w \<Longrightarrow> split_commas (w @ CHR '','' # s) = w # split_commas s"
  by (induction w) auto

lemma split_join:
  "ws \<noteq> [] \<Longrightarrow> (\<And>w. w \<in> set ws \<Longrightarrow> CHR '','' \<notin> set w) \<Longrightarrow> split_commas (join_commas ws) = ws"
  by (induction ws rule: join_commas.induct) (simp_all add: split_commas_plain split_commas_append)

section \<open>The tables\<close>

definition owner :: "'u fei \<Rightarrow> string \<Rightarrow> nat option" where
  "owner d i = dget (allocation_id_to_tuner_id d) i"

definition control :: "'u fei \<Rightarrow> nat \<Rightarrow> string" where
  "control d t = (if t < length (tuner_allocation_ids d) then control_allocation_id (tuner_allocation_ids d ! t) else '''')"

definition csv :: "'u fei \<Rightarrow> nat \<Rightarrow> string" where
  "csv d t = ts_allocation_id_csv (frontend_tuner_status d ! t)"

definition good_id :: "string \<Rightarrow> bool" where
  "good_id i \<longleftrightarrow> i \<noteq> '''' \<and> CHR '','' \<notin> set i"

definition csv_ok :: "'u fei \<Rightarrow> nat \<Rightarrow> bool" where
  "csv_ok d t \<longleftrightarrow> (if control d t = '''' then csv d t = ''''
     else \<exists>L. csv d t = join_commas (control d t # L) \<and> distinct (control d t # L) \<and>
       set (control d t # L) = {i. owner d i = Some t})"

definition fei_ok :: "'u fei \<Rightarrow> bool" where
  "fei_ok d \<longleftrightarrow> dict_ok (allocation_id_to_tuner_id d) \<and>
     length (tuner_allocation_ids d) \<le> length (frontend_tuner_status d) \<and>
     (\<forall>i t. owner d i = Some t \<longrightarrow> t < length (tuner_allocation_ids d) \<and> good_id i \<and> control d t \<noteq> '''') \<and>
     (\<forall>t. control d t \<noteq> '''' \<longrightarrow> owner d (control d t) = Some t) \<and>
     (\<forall>t < length (frontend_tuner_status d). csv_ok d t)"

text \<open>Steps that change nothing in the tables but may extend the list of control ids by free ones.\<close>

definition same_tables :: "'u fei \<Rightarrow> 'u fei \<Rightarrow> bool" where
  "same_tables d d' \<longleftrightarrow> allocation_id_to_tuner_id d' = allocation_id_to_tuner_id d \<and>
     length (tuner_allocation_ids d) \<le> length (tuner_allocation_ids d') \<and> control d' = control d \<and>
     length (frontend_tuner_status d') = length (frontend_tuner_status d) \<and>
     (length (tuner_allocation_ids d) \<le> length (frontend_tuner_status d) \<longrightarrow>
       length (tuner_allocation_ids d') \<le> length (frontend_tuner_status d)) \<and>
     (\<forall>t < length (frontend_tuner_status d). csv d' t = csv d t)"

lemma same_tables_refl [simp]: "same_tables d d"
  by (simp add: same_tables_def)

lemma same_tables_trans: "same_tables d e \<Longrightarrow> same_tables e f \<Longrightarrow> same_tables d f"
  by (auto simp: same_tables_def)

lemma same_tables_owner: "same_tables d d' \<Longrightarrow> owner d' = owner d"
  by (auto simp: same_tables_def owner_def)

lemma same_tables_control: "same_tables d d' \<Longrightarrow> control d' = control d"
  by (simp add: same_tables_def)

lemma same_tables_ok:
  assumes "same_tables d d'" "fei_ok d"
  shows "fei_ok d'"
proof -
  have "owner d' = owner d" "control d' = control d" using assms(1) same_tables_owner same_tables_control by auto
  moreover have "csv_ok d' t = csv_ok d t" if "t < length (frontend_tuner_status d)" for t
    using assms(1) that calculation by (simp add: csv_ok_def same_tables_def)
  ultimately show ?thesis using assms by (auto simp: same_tables_def fei_ok_def dest: order.strict_trans2)
qed

section \<open>What the small steps do to the tables\<close>

lemma put_user_tables [simp]: "same_tables d (put_user f d)" "same_tables d (sendEOS i d)"
  by (simp_all add: same_tables_def put_user_def sendEOS_def control_def csv_def fun_eq_iff)

lemma set_usageState_tables [simp]: "same_tables d (set_usageState u d)"
  by (simp add: same_tables_def set_usageState_def sendStateChangeEvent_def control_def csv_def fun_eq_iff Let_def)

lemma put_status_tables:
  "ts_allocation_id_csv (f (frontend_tuner_status d ! t)) = ts_allocation_id_csv (frontend_tuner_status d ! t) \<Longrightarrow>
    same_tables d (put_status t f d)"
  by (simp add: same_tables_def put_status_def control_def csv_def fun_eq_iff) (metis nth_list_update nth_list_update_neq)

lemma fill_ids_tables [simp]: "same_tables d (fill_ids d)"
  by (auto simp: same_tables_def fill_ids_def control_def csv_def fun_eq_iff nth_append no_allocation_ids_def)

definition hook_keeps :: "(nat \<Rightarrow> tuner_status \<Rightarrow> 'u \<Rightarrow> tuner_status \<times> 'u) \<Rightarrow> bool" where
  "hook_keeps h \<longleftrightarrow> (\<forall>t st u. ts_allocation_id_csv (fst (h t st u)) = ts_allocation_id_csv st)"

definition tuning_keeps :: "(nat \<Rightarrow> tuner_status \<Rightarrow> 'u \<Rightarrow> 'a result \<times> tuner_status \<times> 'u) \<Rightarrow> bool" where
  "tuning_keeps h \<longleftrightarrow> (\<forall>t st u. ts_allocation_id_csv (fst (snd (h t st u))) = ts_allocation_id_csv st \<and> fst (h t st u) \<noteq> Hangs)"

text \<open>
  The hooks leave the list of ids of a status entry to the base class, and tuning returns or raises.
\<close>

definition class_keeps :: "'u tuner_class \<Rightarrow> bool" where
  "class_keeps c \<longleftrightarrow> (\<forall>req. tuning_keeps (deviceSetTuning c req)) \<and> (\<forall>req s. tuning_keeps (deviceSetTuningScan c req s)) \<and>
     hook_keeps (deviceEnable c) \<and> hook_keeps (deviceDisable c) \<and> hook_keeps (deviceDeleteTuning c)"

lemma status_at_run [simp]: "t < length (frontend_tuner_status d) \<Longrightarrow> status_at t d = (Ok (frontend_tuner_status d ! t), d)"
  by (simp add: status_at_def)

lemma ids_at_run [simp]: "t < length (tuner_allocation_ids d) \<Longrightarrow> ids_at t d = (Ok (tuner_allocation_ids d ! t), d)"
  by (simp add: ids_at_def)

lemma status_at_out: "\<not> t < length (frontend_tuner_status d) \<Longrightarrow> status_at t d = (Exn IndexError, d)"
  by (simp add: status_at_def act_nth_def)

lemma tuning_hook_tables:
  assumes "tuning_keeps h" "tuning_hook h t d = (r, d')"
  shows "same_tables d d'"
proof (cases "t < length (frontend_tuner_status d)")
  case True
  obtain x st u where h: "h t (frontend_tuner_status d ! t) (fei_user d) = (x, st, u)" by (metis surj_pair)
  then have "ts_allocation_id_csv st = ts_allocation_id_csv (frontend_tuner_status d ! t)"
    using assms(1) by (metis fst_conv snd_conv tuning_keeps_def)
  then have "same_tables d (put_status t (\<lambda>_. st) d)" by (rule put_status_tables)
  then have "same_tables d (put_user (\<lambda>_. u) (put_status t (\<lambda>_. st) d))" by (rule same_tables_trans) simp
  then show ?thesis using assms(2) h True by (simp add: tuning_hook_def act_simps)
next
  case False
  then have "tuning_hook h t d = (Exn IndexError, d)"
    unfolding tuning_hook_def by (rule act_bind_run(2) [OF status_at_out])
  then show ?thesis using assms(2) by simp
qed

lemma tuning_hook_returns:
  assumes "tuning_keeps h" "tuning_hook h t d = (r, d')"
  shows "r \<noteq> Hangs"
proof (cases "t < length (frontend_tuner_status d)")
  case True
  obtain x st u where h: "h t (frontend_tuner_status d ! t) (fei_user d) = (x, st, u)" by (metis surj_pair)
  then have "x \<noteq> Hangs" using assms(1) by (metis fst_conv tuning_keeps_def)
  then show ?thesis using assms(2) h True by (simp add: tuning_hook_def act_simps)
next
  case False
  then have "tuning_hook h t d = (Exn IndexError, d)"
    unfolding tuning_hook_def by (rule act_bind_run(2) [OF status_at_out])
  then show ?thesis using assms(2) by simp
qed

lemma plain_hook_runs:
  assumes "hook_keeps h" "t < length (frontend_tuner_status d)"
  obtains d' where "plain_hook h t d = (Ok (), d')" "same_tables d d'"
proof -
  obtain d' where "plain_hook h t d = (Ok (), d')"
    using assms(2) by (simp add: plain_hook_def tuning_hook_def act_simps split_beta)
  moreover have "tuning_keeps (\<lambda>t st u. (Ok (), h t st u))" using assms(1) by (simp add: tuning_keeps_def hook_keeps_def)
  ultimately show thesis using that tuning_hook_tables unfolding plain_hook_def by blast
qed

lemma update_status_run [simp]:
  "t < length (frontend_tuner_status d) \<Longrightarrow> update_status t f d = (Ok (), put_status t f d)"
  by (simp add: update_status_def act_simps)

lemma update_ids_run [simp]: "t < length (tuner_allocation_ids d) \<Longrightarrow> update_ids t f d = (Ok (), put_ids t f d)"
  by (simp add: update_ids_def act_simps)

lemma mapped_tuner_run: "owner d i = Some t \<Longrightarrow> mapped_tuner i d = (Ok t, d)"
  by (simp add: mapped_tuner_def owner_def)

lemma table_updates [simp]:
  "owner (put_status t f d) = owner d" "control (put_status t f d) = control d"
  "owner (put_ids t g d) = owner d" "csv (put_ids t g d) = csv d" "csv (put_mapping m d) = csv d"
  "control (put_mapping m d) = control d"
  "length (frontend_tuner_status (put_status t f d)) = length (frontend_tuner_status d)"
  "frontend_tuner_status (put_ids t g d) = frontend_tuner_status d"
  "frontend_tuner_status (put_mapping m d) = frontend_tuner_status d"
  "tuner_allocation_ids (put_status t f d) = tuner_allocation_ids d"
  "tuner_allocation_ids (put_mapping m d) = tuner_allocation_ids d"
  "length (tuner_allocation_ids (put_ids t g d)) = length (tuner_allocation_ids d)"
  "allocation_id_to_tuner_id (put_status t f d) = allocation_id_to_tuner_id d"
  "allocation_id_to_tuner_id (put_ids t g d) = allocation_id_to_tuner_id d"
  "allocation_id_to_tuner_id (put_mapping m d) = m (allocation_id_to_tuner_id d)"
  by (simp_all add: put_status_def put_ids_def put_mapping_def owner_def control_def csv_def fun_eq_iff)

lemma control_put_ids:
  "t < length (tuner_allocation_ids d) \<Longrightarrow>
    control (put_ids t g d) = (control d)(t := control_allocation_id (g (tuner_allocation_ids d ! t)))"
  by (auto simp: control_def put_ids_def fun_eq_iff)

lemma csv_put_status:
  "t < length (frontend_tuner_status d) \<Longrightarrow>
    csv (put_status t f d) s = (if s = t then ts_allocation_id_csv (f (frontend_tuner_status d ! t)) else csv d s)"
  by (simp add: csv_def put_status_def)

lemma owner_put_mapping [simp]:
  "owner (put_mapping (dput i t) d) = (owner d)(i \<mapsto> t)" "owner (put_mapping (dpop i) d) = (owner d)(i := None)"
  by (auto simp: owner_def put_mapping_def)


section \<open>Giving and taking ids\<close>

lemma fei_ok_owner:
  assumes "fei_ok d" "owner d i = Some t"
  shows "t < length (tuner_allocation_ids d)" "t < length (frontend_tuner_status d)" "good_id i" "control d t \<noteq> ''''"
  using assms by (auto simp: fei_ok_def dest: order.strict_trans2)

lemma fei_ok_control:
  "fei_ok d \<Longrightarrow> control d t \<noteq> '''' \<Longrightarrow> owner d (control d t) = Some t"
  by (simp add: fei_ok_def)

lemma fei_ok_csv:
  assumes "fei_ok d" "owner d i = Some t"
  obtains L where "csv d t = join_commas (control d t # L)" "split_commas (csv d t) = control d t # L"
    "distinct (control d t # L)" "set (control d t # L) = {j. owner d j = Some t}"
proof -
  note o = fei_ok_owner [OF assms]
  then have "csv_ok d t" using assms(1) by (simp add: fei_ok_def)
  then obtain L where L: "csv d t = join_commas (control d t # L)"
    "distinct (control d t # L)" "set (control d t # L) = {j. owner d j = Some t}"
    using o(4) by (auto simp: csv_ok_def)
  have "good_id w" if "w \<in> set (control d t # L)" for w using that L(3) fei_ok_owner(3) [OF assms(1)] by auto
  then have "split_commas (csv d t) = control d t # L"
    unfolding L(1) by (intro split_join) (auto simp: good_id_def)
  then show thesis using that L by blast
qed

lemma csv_ids_spec:
  assumes "dict_ok m" "i \<noteq> ''''" "dget m i = Some t"
  obtains L where "csv_ids i t m = i # L" "distinct (i # L)" "set (i # L) = {j. dget m j = Some t}"
proof -
  let ?L = "map fst (filter (\<lambda>(j, t'). t' = t \<and> j \<notin> set [i]) m)"
  have "distinct (map fst m)" using assms(1) by (simp add: dict_ok_def dkeys_def)
  then have "distinct ?L" by (simp add: distinct_map_filter)
  moreover have "set ?L = {j. dget m j = Some t \<and> j \<noteq> i}"
    using assms(1) dget_mem dget_Some_mem by (force simp: image_iff)
  ultimately have "distinct (i # ?L)" "set (i # ?L) = {j. dget m j = Some t}" using assms(3) by auto
  then show thesis using that [of ?L] assms(2) by (simp add: csv_ids_def)
qed

lemma csv_okI:
  "control d s \<noteq> '''' \<Longrightarrow> csv d s = join_commas (control d s # L) \<Longrightarrow> distinct (control d s # L) \<Longrightarrow>
    set (control d s # L) = {j. owner d j = Some s} \<Longrightarrow> csv_ok d s"
  unfolding csv_ok_def by (simp only: if_False) blast

lemma csv_ok_cong:
  "control d' s = control d s \<Longrightarrow> csv d' s = csv d s \<Longrightarrow>
    {j. owner d' j = Some s} = {j. owner d j = Some s} \<Longrightarrow> csv_ok d' s = csv_ok d s"
  by (simp only: csv_ok_def)

text \<open>The tables after an id has been given to a tuner; \<open>i\<close> controls the tuner unless it has a controller.\<close>

lemma give_id_ok:
  assumes ok: "fei_ok d" and fresh: "owner d i = None" "good_id i"
    and t: "t < length (tuner_allocation_ids d)" "t < length (frontend_tuner_status d)"
    and len: "length (tuner_allocation_ids d') = length (tuner_allocation_ids d)"
      "length (frontend_tuner_status d') = length (frontend_tuner_status d)"
    and m: "allocation_id_to_tuner_id d' = dput i t (allocation_id_to_tuner_id d)"
    and c: "control d' = (if control d t = '''' then (control d)(t := i) else control d)"
    and v: "\<And>s. s < length (frontend_tuner_status d) \<Longrightarrow>
      csv d' s = (if s = t then join_commas (csv_ids (control d' t) t (allocation_id_to_tuner_id d')) else csv d s)"
  shows "fei_ok d'" "owner d' = (owner d)(i \<mapsto> t)"
proof -
  show o: "owner d' = (owner d)(i \<mapsto> t)" by (auto simp: owner_def m)
  have ne: "control d' t \<noteq> ''''" using c fresh(2) by (auto simp: good_id_def)
  have own: "owner d' (control d' s) = Some s" if "control d' s \<noteq> ''''" for s
    using that c o fresh fei_ok_control [OF ok, of s] by (auto split: if_splits)
  have "csv_ok d' s" if s: "s < length (frontend_tuner_status d)" for s
  proof (cases "s = t")
    case True
    obtain L where "csv_ids (control d' t) t (allocation_id_to_tuner_id d') = control d' t # L" "distinct (control d' t # L)"
      "set (control d' t # L) = {j. dget (allocation_id_to_tuner_id d') j = Some t}"
      by (rule csv_ids_spec [of "allocation_id_to_tuner_id d'" "control d' t" t])
        (use ok ne own in \<open>auto simp: fei_ok_def m owner_def\<close>)
    then show ?thesis using v [OF s] True ne by (auto simp: csv_ok_def owner_def)
  next
    case False
    have "{j. owner d' j = Some s} = {j. owner d j = Some s}" using False o fresh(1) by auto
    moreover have "control d' s = control d s" using c False by simp
    moreover have "csv_ok d s" using ok s by (simp add: fei_ok_def)
    moreover have "csv d' s = csv d s" using v [OF s] False by simp
    ultimately show ?thesis using csv_ok_cong by blast
  qed
  moreover have "s < length (tuner_allocation_ids d') \<and> good_id j \<and> control d' s \<noteq> ''''" if "owner d' j = Some s" for j s
    using that o t(1) fresh(2) ne len fei_ok_owner [OF ok, of j s] c by (auto split: if_splits)
  ultimately show "fei_ok d'" using ok own len m by (auto simp: fei_ok_def)
qed

text \<open>The tables after a listener has been taken away.\<close>

lemma take_listener_ok:
  assumes ok: "fei_ok d" and i: "owner d i = Some t" "i \<noteq> control d t"
    and len: "length (tuner_allocation_ids d') = length (tuner_allocation_ids d)"
      "length (frontend_tuner_status d') = length (frontend_tuner_status d)"
    and m: "allocation_id_to_tuner_id d' = dpop i (allocation_id_to_tuner_id d)"
    and c: "control d' = control d"
    and v: "\<And>s. s < length (frontend_tuner_status d) \<Longrightarrow>
      csv d' s = (if s = t then join_commas (remove1 i (split_commas (csv d t))) else csv d s)"
  shows "fei_ok d'" "owner d' = (owner d)(i := None)"
proof -
  show o: "owner d' = (owner d)(i := None)" by (auto simp: owner_def m)
  have "csv_ok d' s" if s: "s < length (frontend_tuner_status d)" for s
  proof (cases "s = t")
    case True
    obtain L where L: "split_commas (csv d t) = control d t # L" "distinct (control d t # L)"
      "set (control d t # L) = {j. owner d j = Some t}"
      by (rule fei_ok_csv [OF ok i(1)])
    have "csv d' t = join_commas (control d t # remove1 i L)" using v [OF s] True L(1) i(2) by simp
    moreover have "set (control d t # remove1 i L) = {j. owner d' j = Some t}"
      using L(2,3) i(2) o by auto
    moreover have "control d t \<noteq> ''''" using fei_ok_owner(4) [OF ok i(1)] .
    moreover have "distinct (control d t # remove1 i L)" using L(2) by (auto dest: notin_set_remove1)
    ultimately show ?thesis using csv_okI [of d' t "remove1 i L"] unfolding True c by blast
  next
    case False
    have "{j. owner d' j = Some s} = {j. owner d j = Some s}" using False o i(1) by auto
    moreover have "csv_ok d s" using ok s by (simp add: fei_ok_def)
    moreover have "csv d' s = csv d s" "control d' s = control d s" using v [OF s] False c by simp_all
    ultimately show ?thesis using csv_ok_cong by blast
  qed
  moreover have "owner d' (control d s) = Some s" if "control d s \<noteq> ''''" for s
    using that o i fei_ok_control [OF ok that] by auto
  moreover have "s < length (tuner_allocation_ids d') \<and> good_id j \<and> control d' s \<noteq> ''''" if "owner d' j = Some s" for j s
    using that o c len fei_ok_owner [OF ok, of j s] by (auto split: if_splits)
  ultimately show "fei_ok d'" using ok len m c unfolding fei_ok_def by simp
qed

text \<open>The tables after a tuner has been released.\<close>

lemma release_ok:
  assumes ok: "fei_ok d" and i: "owner d i = Some t"
    and len: "length (tuner_allocation_ids d') = length (tuner_allocation_ids d)"
      "length (frontend_tuner_status d') = length (frontend_tuner_status d)"
    and m: "dict_ok (allocation_id_to_tuner_id d')" "owner d' = (\<lambda>j. if owner d j = Some t then None else owner d j)"
    and c: "control d' = (control d)(t := '''')"
    and v: "\<And>s. s < length (frontend_tuner_status d) \<Longrightarrow> csv d' s = (if s = t then '''' else csv d s)"
  shows "fei_ok d'"
proof -
  have "csv_ok d' s" if s: "s < length (frontend_tuner_status d)" for s
  proof (cases "s = t")
    case False
    have "{j. owner d' j = Some s} = {j. owner d j = Some s}" using False m(2) by auto
    moreover have "csv_ok d s" using ok s by (simp add: fei_ok_def)
    moreover have "csv d' s = csv d s" "control d' s = control d s" using v [OF s] False c by simp_all
    ultimately show ?thesis using csv_ok_cong by blast
  qed (use v [OF s] c in \<open>simp add: csv_ok_def\<close>)
  moreover have "owner d' (control d' s) = Some s" if "control d' s \<noteq> ''''" for s
    using that c m(2) fei_ok_control [OF ok, of s] by (auto split: if_splits)
  moreover have "s < length (tuner_allocation_ids d') \<and> good_id j \<and> control d' s \<noteq> ''''" if "owner d' j = Some s" for j s
    using that m(2) c len fei_ok_owner [OF ok, of j s] by (auto split: if_splits)
  ultimately show ?thesis using ok len m(1) by (auto simp: fei_ok_def)
qed


section \<open>Running a deallocation\<close>

lemma same_tables_put_mapping: "same_tables d e \<Longrightarrow> same_tables (put_mapping m d) (put_mapping m e)"
  by (simp add: same_tables_def)

lemma same_tables_put_csv:
  assumes "same_tables d e" "t < length (frontend_tuner_status d)"
  shows "same_tables (put_status t (\<lambda>st. st\<lparr>ts_allocation_id_csv := F (ts_allocation_id_csv st)\<rparr>) d)
    (put_status t (\<lambda>st. st\<lparr>ts_allocation_id_csv := F (ts_allocation_id_csv st)\<rparr>) e)"
  using assms by (simp add: same_tables_def csv_put_status) (simp add: csv_def)

lemma same_tables_put_ids:
  assumes "same_tables d e" "t < length (tuner_allocation_ids d)"
  shows "same_tables (put_ids t (\<lambda>_. x) d) (put_ids t (\<lambda>_. x) e)"
proof -
  have "t < length (tuner_allocation_ids e)" using assms by (simp add: same_tables_def)
  then show ?thesis using assms by (simp add: same_tables_def control_put_ids)
qed

lemma same_tables_range:
  assumes "same_tables d e"
  shows "t < length (frontend_tuner_status d) \<Longrightarrow> t < length (frontend_tuner_status e)"
    "t < length (tuner_allocation_ids d) \<Longrightarrow> t < length (tuner_allocation_ids e)"
  using assms by (simp_all add: same_tables_def)

lemma removeTunerMapping_runs:
  assumes "class_keeps c" "owner d i = Some t" "t < length (frontend_tuner_status d)"
  obtains d' where "removeTunerMappingByAllocationId c i d = (Ok (), d')" "same_tables (put_mapping (dpop i) d) d'"
proof -
  obtain e where e: "act_when (hd (split_commas (csv d t)) = i) (plain_hook (deviceDeleteTuning c) t) d = (Ok (), e)"
    "same_tables d e"
  proof (cases "hd (split_commas (csv d t)) = i")
    case True
    then show thesis
      using plain_hook_runs [of "deviceDeleteTuning c" t d] assms(1,3) that by (auto simp: act_when_def class_keeps_def)
  next
    case False
    then show thesis using that [of d] by (simp add: act_when_def)
  qed
  let ?u = "sendEOS i (put_user (removeListener c i) e)"
  have "same_tables d ?u"
    using e(2) put_user_tables(1) put_user_tables(2) same_tables_trans by metis
  then have "same_tables (put_mapping (dpop i) d) (put_mapping (dpop i) ?u)" by (rule same_tables_put_mapping)
  moreover have "removeTunerMappingByAllocationId c i d = (Ok (), put_mapping (dpop i) ?u)"
    using e(1) assms(2,3) mapped_tuner_run [OF assms(2)]
    by (simp add: removeTunerMappingByAllocationId_def act_simps csv_def)
  ultimately show thesis using that by blast
qed

lemma remove_listener_runs:
  assumes "class_keeps c" "fei_ok d" "owner d j = Some t" "j \<noteq> control d t"
  obtains d' where "remove_listener_of c t j d = (Ok (), d')" "fei_ok d'" "owner d' = (owner d)(j := None)"
    "control d' = control d"
proof -
  let ?F = "\<lambda>s. join_commas (remove1 j (split_commas s))"
  let ?K = "\<lambda>st :: tuner_status. st\<lparr>ts_allocation_id_csv := ?F (ts_allocation_id_csv st)\<rparr>"
  note t = fei_ok_owner(1,2) [OF assms(2,3)]
  obtain d1 where d1: "removeTunerMappingByAllocationId c j d = (Ok (), d1)" "same_tables (put_mapping (dpop j) d) d1"
    by (rule removeTunerMapping_runs [OF assms(1,3) t(2)])
  let ?e = "put_status t ?K (put_mapping (dpop j) d)"
  have same: "same_tables ?e (put_status t ?K d1)"
    by (rule same_tables_put_csv [OF d1(2)]) (use t(2) in simp)
  have r: "t < length (frontend_tuner_status d1)" using same_tables_range(1) [OF d1(2)] t(2) by simp
  have v: "csv ?e s = (if s = t then join_commas (remove1 j (split_commas (csv d t))) else csv d s)" for s
    using t(2) by (simp add: csv_put_status) (simp add: csv_def)
  have ok: "fei_ok ?e" "owner ?e = (owner d)(j := None)"
    by (rule take_listener_ok [OF assms(2-4)]; (simp add: v)?)+
  have "remove_listener_of c t j d = (Ok (), put_status t ?K d1)"
    using d1(1) r by (simp add: remove_listener_of_def removeListenerId_def act_simps)
  then show thesis
    using that same_tables_ok [OF same ok(1)] same_tables_owner [OF same] same_tables_control [OF same] ok(2) by simp
qed

lemma remove_others_run:
  assumes "class_keeps c" "fei_ok d" "owner d i = Some t" "control d t = i"
    "finite {j. owner d j = Some t}" "card {j. owner d j = Some t} \<le> n"
  obtains d' where "remove_other_ids c n t i d = (Ok (), d')" "fei_ok d'"
    "owner d' = (\<lambda>j. if owner d j = Some t \<and> j \<noteq> i then None else owner d j)" "control d' = control d"
  using assms(2-6)
proof (induction n arbitrary: d thesis)
  case 0
  then show ?case by auto
next
  case (Suc n)
  note t = fei_ok_owner [OF Suc.prems(2,3)]
  obtain L where L: "csv d t = join_commas (i # L)" "split_commas (csv d t) = i # L" "distinct (i # L)"
    "set (i # L) = {j. owner d j = Some t}"
    by (rule fei_ok_csv [OF Suc.prems(2,3)]) (use Suc.prems(4) in simp)
  have run: "remove_other_ids c (Suc n) t i d = (if csv d t = i then (Ok (), d)
      else (case filter (\<lambda>j. j \<noteq> i) (i # L) of [] \<Rightarrow> (Hangs, d)
        | j # js \<Rightarrow> act_then (remove_listener_of c t j) (remove_other_ids c n t i) d))"
    using t(2) L(2) by (auto simp: act_simps mapped_tuner_run [OF Suc.prems(3)] csv_def split: list.split)
  show ?case
  proof (cases L)
    case Nil
    then have "{j. owner d j = Some t} = {i}" using L(4) by simp
    then have "owner d = (\<lambda>j. if owner d j = Some t \<and> j \<noteq> i then None else owner d j)" by (auto simp: fun_eq_iff)
    moreover have "csv d t = i" using L(1) Nil by simp
    ultimately show ?thesis using Suc.prems(1) [of d] Suc.prems(2) run by simp
  next
    case (Cons j js)
    have j: "owner d j = Some t" "j \<noteq> i" using L(3,4) Cons by auto
    have more: "csv d t \<noteq> i" using L(2) Cons t(3) split_commas_plain [of i] by (auto simp: good_id_def)
    obtain d1 where d1: "remove_listener_of c t j d = (Ok (), d1)" "fei_ok d1" "owner d1 = (owner d)(j := None)"
      "control d1 = control d"
      using remove_listener_runs [OF assms(1) Suc.prems(2) j(1)] j(2) Suc.prems(4) by blast
    have ids: "{k. owner d1 k = Some t} = {k. owner d k = Some t} - {j}" using d1(3) by auto
    then have "finite {k. owner d1 k = Some t}" "card {k. owner d1 k = Some t} \<le> n"
      using Suc.prems(5,6) j(1) by (simp_all add: card_Diff_singleton)
    moreover have "owner d1 i = Some t" "control d1 t = i" using d1(3,4) Suc.prems(3,4) j(2) by simp_all
    ultimately obtain d' where d': "remove_other_ids c n t i d1 = (Ok (), d')" "fei_ok d'"
      "owner d' = (\<lambda>k. if owner d1 k = Some t \<and> k \<noteq> i then None else owner d1 k)" "control d' = control d1"
      using Suc.IH [OF _ d1(2)] by blast
    have "remove_other_ids c (Suc n) t i d = (Ok (), d')"
      using run more Cons j(2) d1(1) d'(1) by (simp add: act_simps)
    moreover have "owner d' = (\<lambda>k. if owner d k = Some t \<and> k \<noteq> i then None else owner d k)"
      unfolding d'(3) d1(3) using j by (auto simp: fun_eq_iff)
    ultimately show ?thesis using Suc.prems(1) [of d'] d'(2,4) d1(4) by simp
  qed
qed

lemma release_runs:
  assumes "class_keeps c" "fei_ok d" "owner d i = Some t" "control d t = i" "\<And>j. owner d j = Some t \<Longrightarrow> j = i"
  obtains d' where "release_tuner c t i d = (Ok (), d')" "fei_ok d'" "owner d' = (owner d)(i := None)"
    "control d' = (control d)(t := '''')"
proof -
  let ?K = "\<lambda>st :: tuner_status. st\<lparr>ts_allocation_id_csv := ''''\<rparr>"
  let ?e1 = "put_mapping (dpop i) d" let ?e2 = "put_status t ?K ?e1"
  let ?e3 = "put_ids t (\<lambda>_. no_allocation_ids) ?e2" let ?e4 = "put_status t ?K ?e3"
  note t = fei_ok_owner(1,2) [OF assms(2,3)]
  have hook: "hook_keeps (deviceDisable c)" using assms(1) by (simp add: class_keeps_def)
  obtain d1 where d1: "enableTuner c t False d = (Ok (), d1)" "same_tables d d1"
    using plain_hook_runs [OF hook t(2)] by (auto simp: enableTuner_def)
  have "owner d1 i = Some t" "t < length (frontend_tuner_status d1)"
    using same_tables_owner [OF d1(2)] same_tables_range(1) [OF d1(2) t(2)] assms(3) by simp_all
  then obtain d2 where d2: "removeTunerMappingByAllocationId c i d1 = (Ok (), d2)" "same_tables (put_mapping (dpop i) d1) d2"
    by (rule removeTunerMapping_runs [OF assms(1)])
  have s2: "same_tables ?e1 d2" using same_tables_put_mapping [OF d1(2)] d2(2) by (rule same_tables_trans)
  have r2: "t < length (frontend_tuner_status d2)" using same_tables_range(1) [OF s2] t(2) by simp
  have s3: "same_tables ?e2 (put_status t ?K d2)" by (rule same_tables_put_csv [OF s2]) (use t(2) in simp)
  obtain d4 where d4: "enableTuner c t False (put_status t ?K d2) = (Ok (), d4)" "same_tables (put_status t ?K d2) d4"
    using plain_hook_runs [OF hook, of t "put_status t ?K d2"] r2 by (auto simp: enableTuner_def)
  have s4: "same_tables ?e2 d4" using s3 d4(2) by (rule same_tables_trans)
  have s5: "same_tables ?e3 (put_ids t (\<lambda>_. no_allocation_ids) d4)"
    by (rule same_tables_put_ids [OF s4]) (use t(1) in simp)
  have s6: "same_tables ?e4 (put_status t ?K (put_ids t (\<lambda>_. no_allocation_ids) d4))"
    by (rule same_tables_put_csv [OF s5]) (use t(2) in simp)
  have r: "t < length (tuner_allocation_ids d4)" "t < length (frontend_tuner_status d4)"
    using same_tables_range [OF s4] t by simp_all
  have c: "control_allocation_id (tuner_allocation_ids d ! t) = i" using assms(4) t(1) by (simp add: control_def)
  have run: "release_tuner c t i d = (Ok (), put_status t ?K (put_ids t (\<lambda>_. no_allocation_ids) d4))"
    using d1(1) d2(1) d4(1) r r2 t c
    by (simp add: release_tuner_def act_simps clear_csv_def removeTuner_def)
  have ctl: "control ?e4 = (control d)(t := '''')"
    using t(1) by (simp add: control_put_ids no_allocation_ids_def)
  have own: "owner ?e4 = (owner d)(i := None)" by simp
  have v: "csv ?e4 s = (if s = t then '''' else csv d s)" for s
    using t(2) by (simp add: csv_put_status)
  have ok: "fei_ok ?e4"
  proof (rule release_ok [OF assms(2,3)])
    show "owner ?e4 = (\<lambda>j. if owner d j = Some t then None else owner d j)"
    proof
      fix j
      show "owner ?e4 j = (if owner d j = Some t then None else owner d j)"
        unfolding own using assms(3) assms(5) [of j] by (cases "j = i") auto
    qed
    show "dict_ok (allocation_id_to_tuner_id ?e4)" using assms(2) by (simp add: fei_ok_def)
    show "control ?e4 = (control d)(t := '''')" by (rule ctl)
  qed (simp_all add: v)
  show thesis
    by (rule that [OF run same_tables_ok [OF s6 ok]])
      (simp_all only: same_tables_owner [OF s6] same_tables_control [OF s6] ctl own)
qed


lemma deallocate_tuner_runs:
  assumes "class_keeps c" "fei_ok d" "owner d i = Some t"
  obtains d' where "deallocate_frontend_tuner_allocation c i d = (Ok (), d')" "fei_ok d'"
    "owner d' = (\<lambda>j. if j = i \<or> control d t = i \<and> owner d j = Some t then None else owner d j)"
    "control d' = (if control d t = i then (control d)(t := '''') else control d)"
proof -
  note t = fei_ok_owner [OF assms(2,3)]
  obtain L where L: "csv d t = join_commas (control d t # L)" "split_commas (csv d t) = control d t # L"
    "distinct (control d t # L)" "set (control d t # L) = {j. owner d j = Some t}"
    by (rule fei_ok_csv [OF assms(2,3)])
  have enter: "deallocate_frontend_tuner_allocation c i d =
      (if control d t = i then act_then (remove_other_ids c (Suc (length (i # L))) t i) (release_tuner c t i)
       else if i \<in> set (control d t # L) then remove_listener_of c t i else release_tuner c t i) d"
    using t(2) assms(3) L(2) by (simp add: deallocate_frontend_tuner_allocation_def getTunerMapping_def owner_def [symmetric]
        act_simps csv_def Let_def)
  show thesis
  proof (cases "control d t = i")
    case True
    have "finite {j. owner d j = Some t}" "card {j. owner d j = Some t} \<le> Suc (length (i # L))"
      using L(3) distinct_card [OF L(3)] unfolding L(4) [symmetric] True by simp_all
    then obtain d1 where d1: "remove_other_ids c (Suc (length (i # L))) t i d = (Ok (), d1)" "fei_ok d1"
      "owner d1 = (\<lambda>j. if owner d j = Some t \<and> j \<noteq> i then None else owner d j)" "control d1 = control d"
      using remove_others_run [OF assms True] by blast
    have only: "j = i" if "owner d1 j = Some t" for j
      using that d1(3) by (auto split: if_splits)
    have "owner d1 i = Some t" using d1(3) assms(3) by simp
    then obtain d' where d': "release_tuner c t i d1 = (Ok (), d')" "fei_ok d'" "owner d' = (owner d1)(i := None)"
      "control d' = (control d1)(t := '''')"
      using release_runs [OF assms(1) d1(2) _ _ only] d1(4) True by auto
    have "owner d' = (\<lambda>j. if j = i \<or> control d t = i \<and> owner d j = Some t then None else owner d j)"
      using d'(3) d1(3) True by (auto simp: fun_eq_iff)
    then show thesis using that [of d'] enter d1(1,4) d' True by (simp add: act_simps del: remove_other_ids.simps)
  next
    case False
    then have i: "i \<in> set (control d t # L)" using L(4) assms(3) by simp
    obtain d' where "remove_listener_of c t i d = (Ok (), d')" "fei_ok d'" "owner d' = (owner d)(i := None)"
      "control d' = control d"
      using remove_listener_runs [OF assms(1-3)] False by auto
    then show thesis using that [of d'] enter i False by (auto simp: fun_eq_iff)
  qed
qed

lemma deallocate_tuner_unknown:
  "owner d i = None \<Longrightarrow> deallocate_frontend_tuner_allocation c i d = (Exn InvalidCapacity, d)"
  by (simp add: deallocate_frontend_tuner_allocation_def getTunerMapping_def owner_def)

lemma deallocate_listener_runs:
  assumes "class_keeps c" "fei_ok d"
  shows "\<exists>r d'. deallocate_frontend_listener_allocation c i d = (r, d') \<and> fei_ok d' \<and> control d' = control d \<and>
    (case owner d i of None \<Rightarrow> r = Exn InvalidCapacity \<and> d' = d
     | Some t \<Rightarrow> if control d t = i then r = Exn InvalidCapacity \<and> d' = d
         else r = Ok () \<and> owner d' = (owner d)(i := None))"
proof (cases "owner d i")
  case None
  then show ?thesis using assms(2)
    by (simp add: deallocate_frontend_listener_allocation_def getTunerMapping_def owner_def)
next
  case (Some t)
  note t = fei_ok_owner [OF assms(2) Some]
  have c: "control_allocation_id (tuner_allocation_ids d ! t) = control d t" using t(1) by (simp add: control_def)
  show ?thesis
  proof (cases "control d t = i")
    case True
    then show ?thesis using Some assms(2) t(1) c
      by (simp add: deallocate_frontend_listener_allocation_def getTunerMapping_def owner_def [symmetric] act_simps)
  next
    case False
    then obtain d' where "remove_listener_of c t i d = (Ok (), d')" "fei_ok d'" "owner d' = (owner d)(i := None)"
      "control d' = control d"
      using remove_listener_runs [OF assms Some] by auto
    then show ?thesis using Some False t(1) c
      by (simp add: deallocate_frontend_listener_allocation_def getTunerMapping_def owner_def [symmetric] act_simps)
  qed
qed


section \<open>Running an allocation\<close>

text \<open>The tuner \<open>t\<close> has been given the id \<open>i\<close>, as its controller or as a listener.\<close>

definition granted :: "bool \<Rightarrow> string \<Rightarrow> nat \<Rightarrow> 'u fei \<Rightarrow> 'u fei \<Rightarrow> bool" where
  "granted ctrl i t d d' \<longleftrightarrow> fei_ok d' \<and> owner d' = (owner d)(i \<mapsto> t) \<and>
     (if ctrl then control d t = '''' \<and> control d' = (control d)(t := i) else control d t \<noteq> '''' \<and> control d' = control d)"

lemma granted_same_left: "same_tables d e \<Longrightarrow> granted ctrl i t e d' \<Longrightarrow> granted ctrl i t d d'"
  using same_tables_owner [of d e] same_tables_control [of d e] by (cases ctrl) (simp_all add: granted_def)

lemma granted_same_right: "granted ctrl i t d e \<Longrightarrow> same_tables e d' \<Longrightarrow> granted ctrl i t d d'"
  using same_tables_ok by (auto simp: granted_def same_tables_owner same_tables_control)

lemma granted_range: "granted ctrl i t d d' \<Longrightarrow> t < length (frontend_tuner_status d') \<and> t < length (tuner_allocation_ids d')"
  using fei_ok_owner(1,2) [of d' i t] by (simp add: granted_def)

lemma createAllocationIdCsv_run:
  "t < length (tuner_allocation_ids d) \<Longrightarrow>
    createAllocationIdCsv t d = (Ok (join_commas (csv_ids (control d t) t (allocation_id_to_tuner_id d))), d)"
  by (simp add: createAllocationIdCsv_def act_simps control_def)

lemma give_id_runs:
  assumes ok: "fei_ok d" "owner d i = None" "good_id i" "t < length (tuner_allocation_ids d)"
    and g: "control_allocation_id (g (tuner_allocation_ids d ! t)) = (if ctrl then i else control d t)"
    and c: "(control d t = '''') = ctrl"
  obtains d' where "act_then (update_ids t g) (act_then (act_update (put_mapping (dput i t))) (refresh_csv t)) d = (Ok (), d')"
    "granted ctrl i t d d'"
proof -
  have t: "t < length (frontend_tuner_status d)" using ok(1,4) by (simp add: fei_ok_def)
  let ?e = "put_mapping (dput i t) (put_ids t g d)"
  let ?s = "join_commas (csv_ids (control ?e t) t (allocation_id_to_tuner_id ?e))"
  let ?f = "put_status t (\<lambda>st. st\<lparr>ts_allocation_id_csv := ?s\<rparr>) ?e"
  have ctl: "control ?f = (if control d t = '''' then (control d)(t := i) else control d)"
    using g c ok(4) by (auto simp: control_put_ids fun_eq_iff)
  have e: "t < length (tuner_allocation_ids ?e)" using ok(4) by simp
  from createAllocationIdCsv_run [OF e] have "createAllocationIdCsv t ?e = (Ok ?s, ?e)" .
  then have run: "act_then (update_ids t g) (act_then (act_update (put_mapping (dput i t))) (refresh_csv t)) d = (Ok (), ?f)"
    using t ok(4) by (simp add: refresh_csv_def act_simps)
  have v: "csv ?f s = (if s = t then join_commas (csv_ids (control ?f t) t (allocation_id_to_tuner_id ?f)) else csv d s)" for s
    using t by (simp add: csv_put_status)
  have "fei_ok ?f" "owner ?f = (owner d)(i \<mapsto> t)"
    by (rule give_id_ok [OF ok(1-4) t _ _ _ ctl v]; simp)+
  then have "granted ctrl i t d ?f" using ctl c by (auto simp: granted_def)
  then show thesis using that run by blast
qed

lemma take_control_runs:
  assumes "fei_ok d" "owner d (ta_allocation_id req) = None" "good_id (ta_allocation_id req)"
    "t < length (tuner_allocation_ids d)" "control d t = ''''"
  obtains d' where "take_control req t d = (Ok (), d')" "granted True (ta_allocation_id req) t d d'"
  using give_id_runs [OF assms(1-4), of "\<lambda>ids. ids\<lparr>control_allocation_id := ta_allocation_id req\<rparr>" True] assms(5)
  by (auto simp: take_control_def)

lemma add_listener_runs:
  assumes "fei_ok d" "owner d i = None" "good_id i" "t < length (tuner_allocation_ids d)" "control d t \<noteq> ''''"
  obtains d' where "add_listener c i existing t d = (Ok (), d')" "granted False i t d d'"
proof -
  have c: "control_allocation_id (tuner_allocation_ids d ! t) = control d t" using assms(4) by (simp add: control_def)
  obtain e where e: "act_then (update_ids t (\<lambda>ids. ids\<lparr>listener_allocation_ids := listener_allocation_ids ids @ [i]\<rparr>))
      (act_then (act_update (put_mapping (dput i t))) (refresh_csv t)) d = (Ok (), e)" "granted False i t d e"
    using give_id_runs [OF assms(1-4), of "\<lambda>ids. ids\<lparr>listener_allocation_ids := listener_allocation_ids ids @ [i]\<rparr>" False]
      assms(5) c by auto
  have "act_then m (act_then n (act_then k l)) = act_then (act_then m (act_then n k)) l"
    for m n k l :: "('a fei, unit) action"
    by (auto simp: act_then_def act_bind_def fun_eq_iff split: prod.splits result.splits)
  then have "add_listener c i existing t d = (Ok (), put_user (assignListener c i existing) e)"
    using e(1) by (simp add: add_listener_def act_simps)
  then show thesis using that granted_same_right [OF e(2) put_user_tables(1)] by blast
qed

text \<open>What a round of the search may do.\<close>

definition search_outcome :: "bool \<Rightarrow> string \<Rightarrow> 'u fei \<Rightarrow> bool result \<Rightarrow> 'u fei \<Rightarrow> bool" where
  "search_outcome ctrl i d r d' \<longleftrightarrow> (same_tables d d' \<and> r \<noteq> Ok True \<and> r \<noteq> Hangs) \<or>
     (\<exists>t. granted ctrl i t d d' \<and> r \<in> {Ok True, Exn AllocationException})"

lemma search_outcome_same: "same_tables d e \<Longrightarrow> search_outcome ctrl i e r d' \<Longrightarrow> search_outcome ctrl i d r d'"
  unfolding search_outcome_def using same_tables_trans granted_same_left by blast

lemma check_tolerances_cases:
  assumes "t < length (frontend_tuner_status d)"
  obtains "check_tolerances req t d = (Ok (), d)" | "check_tolerances req t d = (Exn AllocationException, d)"
  using assms by (cases "fst (check_tolerances req t d)") (auto simp: check_tolerances_def act_simps split: if_splits)

lemma update_usage_run [simp]: "update_usage d = (Ok (), set_usageState (usage_of (tuner_allocation_ids d)) d)"
  by (simp add: update_usage_def)

lemma request_tuning_tables:
  "same_tables d (put_status t (request_tuning req) d)"
  by (rule put_status_tables) (simp add: request_tuning_def)

lemma control_tuner_outcome:
  assumes c: "class_keeps c" and ok: "fei_ok d" and i: "owner d (ta_allocation_id req) = None" "good_id (ta_allocation_id req)"
    and t: "t < length (tuner_allocation_ids d)" and run: "control_tuner c req scan t d = (r, d')"
  shows "search_outcome True (ta_allocation_id req) d r d'"
proof (cases "control d t = ''''")
  case False
  then show ?thesis using run t by (auto simp: control_tuner_def act_simps control_def search_outcome_def)
next
  case True
  then have ctl: "control_allocation_id (tuner_allocation_ids d ! t) = ''''" using t by (simp add: control_def)
  have ts: "t < length (frontend_tuner_status d)" using ok t by (simp add: fei_ok_def)
  let ?d1 = "put_status t (request_tuning req) d"
  obtain x d2 where hook: "run_tuning c req scan t ?d1 = (x, d2)" by fastforce
  have "\<exists>h. tuning_keeps h \<and> run_tuning c req scan t = tuning_hook h t"
    using c by (cases scan) (auto simp: run_tuning_def class_keeps_def)
  then obtain h where h: "tuning_keeps h" "tuning_hook h t ?d1 = (x, d2)" using hook by auto
  have s2: "same_tables d d2"
    by (rule same_tables_trans [OF request_tuning_tables tuning_hook_tables [OF h]])
  have answers: "x \<noteq> Hangs" by (rule tuning_hook_returns [OF h])
  have r2: "t < length (frontend_tuner_status d2)" "t < length (tuner_allocation_ids d2)"
    using same_tables_range [OF s2] ts t by simp_all
  show ?thesis
  proof (cases "x = Ok True")
    case False
    have "control_tuner c req scan t d = (x, d2) \<or> control_tuner c req scan t d = (Ok False, d2)"
      using hook False t ts ctl by (cases x) (simp_all add: control_tuner_def act_simps)
    then show ?thesis using run s2 False answers by (auto simp: search_outcome_def)
  next
    case True
    let ?old = "frontend_tuner_status d ! t"
    obtain d3 where d3: "act_when (same_tuning ?old (frontend_tuner_status d2 ! t)) (update_status t (request_tuning req)) d2
        = (Ok (), d3)" "same_tables d2 d3"
      using r2(1) request_tuning_tables [of d2 t req]
      by (cases "same_tuning ?old (frontend_tuner_status d2 ! t)") (auto simp: act_when_def)
    have s3: "same_tables d d3" using s2 d3(2) by (rule same_tables_trans)
    have r3: "t < length (tuner_allocation_ids d3)" using same_tables_range(2) [OF s3 t] .
    obtain d4 where d4: "take_control req t d3 = (Ok (), d4)" "granted True (ta_allocation_id req) t d3 d4"
      by (rule take_control_runs [OF same_tables_ok [OF s3 ok] _ i(2) r3])
        (use i(1) \<open>control d t = ''''\<close> in \<open>simp_all add: same_tables_owner [OF s3] same_tables_control [OF s3]\<close>)
    have g4: "granted True (ta_allocation_id req) t d d4" by (rule granted_same_left [OF s3 d4(2)])
    have r4: "t < length (frontend_tuner_status d4)" using granted_range [OF g4] by simp
    have step: "control_tuner c req scan t d = act_then (check_tolerances req t)
        (act_then (enableTuner c t True) (act_then update_usage (act_return True))) d4"
      using hook True t ts ctl r2 d3(1) d4(1) by (simp add: control_tuner_def act_simps)
    obtain d5 where d5: "enableTuner c t True d4 = (Ok (), d5)" "same_tables d4 d5"
      using plain_hook_runs [of "deviceEnable c" t d4] c r4 by (auto simp: enableTuner_def class_keeps_def)
    from check_tolerances_cases [OF r4, of req] show ?thesis
    proof cases
      case 1
      then have "r = Ok True" "d' = set_usageState (usage_of (tuner_allocation_ids d5)) d5"
        using run step d5(1) by (auto simp: act_simps)
      moreover have "granted True (ta_allocation_id req) t d (set_usageState u d5)" for u
        by (rule granted_same_right [OF granted_same_right [OF g4 d5(2)]]) simp
      ultimately show ?thesis by (auto simp: search_outcome_def)
    next
      case 2
      then have "r = Exn AllocationException" "d' = d4" using run step by (auto simp: act_simps)
      then show ?thesis using g4 by (auto simp: search_outcome_def)
    qed
  qed
qed


lemma listen_tuner_outcome:
  assumes ok: "fei_ok d" and i: "owner d (ta_allocation_id req) = None" "good_id (ta_allocation_id req)"
    and t: "t < length (tuner_allocation_ids d)" and run: "listen_tuner c req t d = (r, d')"
  shows "search_outcome False (ta_allocation_id req) d r d'"
proof -
  let ?st = "frontend_tuner_status d ! t"
  have ctl: "control_allocation_id (tuner_allocation_ids d ! t) = control d t" using t by (simp add: control_def)
  have ts: "t < length (frontend_tuner_status d)" using ok t by (simp add: fei_ok_def)
  show ?thesis
  proof (cases "ta_tuner_type req \<noteq> ''CHANNELIZER'' \<and> ta_tuner_type req \<noteq> ''TX'' \<and> control d t \<noteq> '''' \<and>
      listenerRequestValidation req ?st")
    case False
    then have "d' = d \<and> r \<noteq> Ok True \<and> r \<noteq> Hangs"
      using run t ts ctl by (auto simp: listen_tuner_def act_simps split: if_splits)
    then show ?thesis by (simp add: search_outcome_def)
  next
    case True
    obtain d1 where d1: "add_listener c (ta_allocation_id req) (control d t) t d = (Ok (), d1)"
      "granted False (ta_allocation_id req) t d d1"
      using add_listener_runs [OF ok i t] True by blast
    have step: "listen_tuner c req t d = act_then (check_tolerances req t) (act_then update_usage (act_return True)) d1"
      using True d1(1) t ts ctl by (simp add: listen_tuner_def act_simps)
    have r1: "t < length (frontend_tuner_status d1)" using granted_range [OF d1(2)] by simp
    from check_tolerances_cases [OF r1, of req] show ?thesis
    proof cases
      case 1
      then have "r = Ok True" "d' = set_usageState (usage_of (tuner_allocation_ids d1)) d1"
        using run step by (auto simp: act_simps)
      then show ?thesis using granted_same_right [OF d1(2) set_usageState_tables] by (auto simp: search_outcome_def)
    next
      case 2
      then have "r = Exn AllocationException" "d' = d1" using run step by (auto simp: act_simps)
      then show ?thesis using d1(2) by (auto simp: search_outcome_def)
    qed
  qed
qed

lemma try_tuners_outcome:
  assumes "class_keeps c" "fei_ok d" "owner d (ta_allocation_id req) = None" "good_id (ta_allocation_id req)"
    "\<forall>t\<in>set ts. t < length (tuner_allocation_ids d)" "try_tuners c req scan ts d = (r, d')"
  shows "search_outcome (ta_device_control req) (ta_allocation_id req) d r d'"
  using assms(2-6)
proof (induction ts arbitrary: d)
  case Nil
  then show ?case by (auto simp: search_outcome_def)
next
  case (Cons t ts)
  let ?m = "if ta_device_control req then control_tuner c req scan t else listen_tuner c req t"
  have t: "t < length (tuner_allocation_ids d)" "t < length (frontend_tuner_status d)"
    using Cons.prems(1,4) by (auto simp: fei_ok_def)
  show ?case
  proof (cases "tuner_matches req (frontend_tuner_status d ! t)")
    case False
    then show ?thesis using Cons t(2) by (simp add: act_simps)
  next
    case True
    obtain x d1 where m: "?m d = (x, d1)" by fastforce
    have o: "search_outcome (ta_device_control req) (ta_allocation_id req) d x d1"
      using control_tuner_outcome [OF assms(1) Cons.prems(1-3) t(1), of scan x d1]
        listen_tuner_outcome [OF Cons.prems(1-3) t(1), of c x d1] m by (auto split: if_splits)
    have step: "try_tuners c req scan (t # ts) d =
        (case x of Ok found \<Rightarrow> if found then (Ok True, d1) else try_tuners c req scan ts d1 | Exn e \<Rightarrow> (Exn e, d1) | Hangs \<Rightarrow> (Hangs, d1))"
      using True t(2) m by (simp add: act_simps act_bind_def split: result.split)
    show ?thesis
    proof (cases "x = Ok False")
      case False
      then have "r = x" "d' = d1" using step Cons.prems(5) by (auto split: result.splits if_splits)
      then show ?thesis using o by simp
    next
      case True
      then have s: "same_tables d d1" using o by (auto simp: search_outcome_def)
      have "try_tuners c req scan ts d1 = (r, d')" using step Cons.prems(5) True by simp
      then have "search_outcome (ta_device_control req) (ta_allocation_id req) d1 r d'"
        using Cons.IH [OF same_tables_ok [OF s Cons.prems(1)]] Cons.prems(2-4) same_tables_owner [OF s]
          same_tables_range(2) [OF s] by auto
      then show ?thesis by (rule search_outcome_same [OF s])
    qed
  qed
qed

lemma search_tuner_outcome:
  assumes "class_keeps c" "fei_ok d" "owner d (ta_allocation_id req) = None" "good_id (ta_allocation_id req)"
    "search_tuner c req scan d = (r, d')"
  shows "search_outcome (ta_device_control req) (ta_allocation_id req) d r d'"
proof -
  let ?d = "fill_ids d"
  have s: "same_tables d ?d" by simp
  have "try_tuners c req scan [0..<length (tuner_allocation_ids ?d)] ?d = (r, d')"
    using assms(5) by (simp add: search_tuner_def)
  then have "search_outcome (ta_device_control req) (ta_allocation_id req) ?d r d'"
    using assms(3,4) same_tables_owner [OF s]
    by (intro try_tuners_outcome [OF assms(1) same_tables_ok [OF s assms(2)]]) simp_all
  then show ?thesis by (rule search_outcome_same [OF s])
qed

lemma undo_grant:
  assumes c: "class_keeps c" and ok: "fei_ok d" and new: "owner d i = None" and g: "granted ctrl i t d e"
  obtains d' where "deallocate_frontend_tuner_allocation c i e = (Ok (), d')" "fei_ok d'" "owner d' = owner d"
    "control d' = control d"
proof -
  have e: "fei_ok e" "owner e i = Some t" "owner e = (owner d)(i \<mapsto> t)" using g by (auto simp: granted_def)
  obtain d' where d': "deallocate_frontend_tuner_allocation c i e = (Ok (), d')" "fei_ok d'"
    "owner d' = (\<lambda>j. if j = i \<or> control e t = i \<and> owner e j = Some t then None else owner e j)"
    "control d' = (if control e t = i then (control e)(t := '''') else control e)"
    by (rule deallocate_tuner_runs [OF c e(1,2)])
  show thesis
  proof (cases ctrl)
    case True
    then have "control d t = ''''" "control e = (control d)(t := i)" using g by (auto simp: granted_def)
    moreover have "owner d j \<noteq> Some t" for j using fei_ok_owner(4) [OF ok, of j t] calculation(1) by auto
    ultimately show thesis using that [OF d'(1,2)] d'(3,4) e(3) new by (auto simp: fun_eq_iff)
  next
    case False
    then have "control e = control d" "control d t \<noteq> ''''" using g by (auto simp: granted_def)
    moreover have "control d t \<noteq> i" using fei_ok_control [OF ok calculation(2)] new by auto
    ultimately show thesis using that [OF d'(1,2)] d'(3,4) e(3) new by (auto simp: fun_eq_iff)
  qed
qed

lemma allocate_tuner_outcome:
  assumes "class_keeps c" "fei_ok d" "CHR '','' \<notin> set (ta_allocation_id req)"
    "allocate_frontend_tuner_allocation c req scan d = (r, d')"
  shows "fei_ok d' \<and>
    (if r = Ok True then owner d (ta_allocation_id req) = None \<and>
         (\<exists>t. granted (ta_device_control req) (ta_allocation_id req) t d d')
     else owner d' = owner d \<and> control d' = control d) \<and>
    (ta_allocation_id req = '''' \<or> owner d (ta_allocation_id req) \<noteq> None \<longrightarrow> r = Exn InvalidCapacity) \<and>
    (ta_allocation_id req \<noteq> '''' \<and> owner d (ta_allocation_id req) = None \<longrightarrow> r = Ok True \<or> r = Ok False)"
proof (cases "ta_allocation_id req \<noteq> '''' \<and> owner d (ta_allocation_id req) = None")
  case False
  have "allocate_frontend_tuner_allocation c req scan d = (Exn InvalidCapacity, d)"
  proof (cases "ta_allocation_id req = ''''")
    case True
    then show ?thesis by (simp add: allocate_frontend_tuner_allocation_def)
  next
    case known: False
    then obtain t where "dget (allocation_id_to_tuner_id d) (ta_allocation_id req) = Some t"
      using False by (auto simp: owner_def)
    then show ?thesis using known by (simp add: allocate_frontend_tuner_allocation_def getTunerMapping_def)
  qed
  then have "r = Exn InvalidCapacity" "d' = d" using assms(4) by simp_all
  then show ?thesis using assms(2) False by simp
next
  case True
  then have new: "owner d (ta_allocation_id req) = None" and id: "good_id (ta_allocation_id req)"
    using assms(3) by (simp_all add: good_id_def)
  obtain x e where s: "search_tuner c req scan d = (x, e)" by fastforce
  have o: "search_outcome (ta_device_control req) (ta_allocation_id req) d x e"
    by (rule search_tuner_outcome [OF assms(1,2) new id s])
  have step: "allocate_frontend_tuner_allocation c req scan d =
      (case x of Ok b \<Rightarrow> (Ok b, e) | Hangs \<Rightarrow> (Hangs, e) | Exn ex \<Rightarrow>
        act_then (act_when (owner e (ta_allocation_id req) \<noteq> None) (deallocate_frontend_tuner_allocation c (ta_allocation_id req)))
          (act_return False) e)"
    using True s by (simp add: allocate_frontend_tuner_allocation_def getTunerMapping_def owner_def act_catch_def
        split: result.split)
  from o consider (same) "same_tables d e" "x \<noteq> Ok True" "x \<noteq> Hangs"
    | (grant) t where "granted (ta_device_control req) (ta_allocation_id req) t d e" "x = Ok True \<or> x = Exn AllocationException"
    by (auto simp: search_outcome_def)
  then show ?thesis
  proof cases
    case same
    then have "r = Ok False" "d' = e"
      using step assms(4) new same_tables_owner [OF same(1)] by (auto simp: act_when_def split: result.splits)
    then show ?thesis
      using same_tables_ok [OF same(1) assms(2)] same_tables_owner [OF same(1)] same_tables_control [OF same(1)] new id
      by (simp add: good_id_def)
  next
    case grant
    show ?thesis
    proof (cases "x = Ok True")
      case True
      then have "r = Ok True" "d' = e" using step assms(4) by auto
      then show ?thesis using grant(1) new id by (auto simp: granted_def good_id_def)
    next
      case False
      obtain f where f: "deallocate_frontend_tuner_allocation c (ta_allocation_id req) e = (Ok (), f)" "fei_ok f"
        "owner f = owner d" "control f = control d"
        by (rule undo_grant [OF assms(1,2) new grant(1)])
      have "owner e (ta_allocation_id req) \<noteq> None" using grant(1) by (simp add: granted_def)
      then have "r = Ok False" "d' = f" using step assms(4) f(1) False grant(2) by (auto simp: act_when_def act_simps)
      then show ?thesis using f new id by (simp add: good_id_def)
    qed
  qed
qed

end
