(* ===== verification/TunerRequests.thy ===== *)
theory TunerRequests
  imports TunerControl
begin

text \<open>
  The properties of a tuner device at the level of its requests: the tables agree after every
  request, an allocation gives one id to one tuner or changes nothing in the tables, and
  deallocating a controller gives everything back.
\<close>

section \<open>Requests keep the tables consistent\<close>

lemma allocate_listener_outcome:
  assumes "fei_ok d" "CHR '','' \<notin> set (la_listener_allocation_id la)"
    "allocate_frontend_listener_allocation c la d = (r, d')"
  shows "fei_ok d' \<and>
    (if r = Ok True then owner d (la_listener_allocation_id la) = None \<and>
        (\<exists>t. owner d (la_existing_allocation_id la) = Some t \<and> granted False (la_listener_allocation_id la) t d d')
     else d' = d)"
proof (cases "la_existing_allocation_id la \<noteq> '''' \<and> la_listener_allocation_id la \<noteq> '''' \<and>
    owner d (la_listener_allocation_id la) = None \<and> owner d (la_existing_allocation_id la) \<noteq> None")
  case False
  then have "d' = d \<and> r \<noteq> Ok True"
    using assms(3) by (auto simp: allocate_frontend_listener_allocation_def getTunerMapping_def owner_def
        split: if_splits option.splits)
  then show ?thesis using assms(1) by simp
next
  case True
  then obtain t where t: "owner d (la_existing_allocation_id la) = Some t" by blast
  note o = fei_ok_owner [OF assms(1) t]
  have id: "good_id (la_listener_allocation_id la)" using True assms(2) by (simp add: good_id_def)
  obtain e where e: "add_listener c (la_listener_allocation_id la) (la_existing_allocation_id la) t d = (Ok (), e)"
    "granted False (la_listener_allocation_id la) t d e"
    using add_listener_runs [OF assms(1) _ id o(1,4)] True by blast
  let ?tt = "ts_tuner_type (frontend_tuner_status d ! t)"
  have "allocate_frontend_listener_allocation c la d =
      (if ?tt = ''CHANNELIZER'' \<or> ?tt = ''TX'' then (Exn InvalidCapacity, d) else (Ok True, e))"
    using True t o(2) e(1) by (simp add: allocate_frontend_listener_allocation_def getTunerMapping_def
        owner_def act_simps)
  then show ?thesis using assms(1,3) True t e(2) by (auto simp: granted_def split: if_splits)
qed

lemma keeps_deallocate_tuner:
  assumes "class_keeps c"
  shows "keeps fei_ok (deallocate_frontend_tuner_allocation c i)"
  unfolding keeps_def
proof (intro allI impI)
  fix d :: "'a fei" assume ok: "fei_ok d"
  show "fei_ok (snd (deallocate_frontend_tuner_allocation c i d))"
  proof (cases "owner d i")
    case None
    then show ?thesis using ok by (simp add: deallocate_tuner_unknown)
  next
    case (Some t)
    then obtain d' where "deallocate_frontend_tuner_allocation c i d = (Ok (), d')" "fei_ok d'"
      using deallocate_tuner_runs [OF assms ok] by blast
    then show ?thesis by simp
  qed
qed

lemma keeps_deallocate_listener:
  "class_keeps c \<Longrightarrow> keeps fei_ok (deallocate_frontend_listener_allocation c i)"
  unfolding keeps_def using deallocate_listener_runs by (metis snd_conv)

lemma keeps_tables: "(\<And>d. same_tables d (f d)) \<Longrightarrow> keeps fei_ok (act_update f)"
  using same_tables_ok by (intro keeps_update) blast

lemma keeps_deallocate_one:
  "class_keeps c \<Longrightarrow> keeps fei_ok (deallocateCapacity_one (fei_device_class c) name v)"
  by (cases v) (auto simp: deallocateCapacity_one_def fei_device_class_def keeps_deallocate_tuner keeps_deallocate_listener)

lemma keeps_propdict [simp]: "keeps P (propdict c props pd)"
  by (induction c props pd rule: propdict.induct) (simp_all add: keeps_def act_return_def act_raise_def split: option.split)

lemma keeps_validate [simp]: "keeps P (validateAllocProps c props)"
  unfolding validateAllocProps_def by (rule keeps_each) (simp split: prod.split)

lemma keeps_deallocateCapacity:
  assumes "class_keeps c"
  shows "keeps fei_ok (fei_deallocateCapacity c props)"
proof -
  have "keeps fei_ok (deallocateCapacities (fei_device_class c) pd)" for pd
    unfolding deallocateCapacities_def
    by (rule keeps_bind, simp, rule keeps_if)
      (auto simp: fei_device_class_def intro!: keeps_each keeps_deallocate_one [OF assms, unfolded fei_device_class_def])
  then show ?thesis unfolding fei_deallocateCapacity_def Let_def update_usage_def
    by (intro keeps_then keeps_bind keeps_tables) simp_all
qed

definition comma_free :: "fei_prop list \<Rightarrow> bool" where
  "comma_free props \<longleftrightarrow> list_all (\<lambda>p. case p of TunerProp a \<Rightarrow> CHR '','' \<notin> set (ta_allocation_id a)
     | ListenerProp la \<Rightarrow> CHR '','' \<notin> set (la_listener_allocation_id la) | _ \<Rightarrow> True) props"

lemma propdict_mem:
  "propdict c props pd d = (Ok pd', d') \<Longrightarrow> dget pd' k = Some p \<Longrightarrow> d' = d \<and> (p \<in> set (map snd props) \<or> dget pd k = Some p)"
  by (induction c props pd rule: propdict.induct) (auto split: option.splits if_splits)

lemma propdict_state: "propdict c props pd d = (r, d') \<Longrightarrow> d' = d \<and> r \<noteq> Hangs"
  by (induction c props pd rule: propdict.induct) (auto split: option.splits)

lemma validate_state: "validateAllocProps c props d = (r, d') \<Longrightarrow> d' = d \<and> r \<noteq> Hangs"
  unfolding validateAllocProps_def
  by (induction props) (auto simp: act_then_def act_bind_def split: prod.splits result.splits if_splits)

text \<open>What a request comes down to when it is not refused beforehand.\<close>

lemma allocateCapacity_cases:
  assumes "fei_allocateCapacity c props d = (r, d')"
  obtains (refused) "r \<noteq> Ok True" "d' = d"
    | (tuner) a scan where "TunerProp a \<in> set props" "allocate_frontend_tuner_allocation c a scan d = (r, d')"
    | (listener) la where "ListenerProp la \<in> set props" "allocate_frontend_listener_allocation c la d = (r, d')"
proof -
  let ?c = "fei_device_class c" and ?keyed = "map (\<lambda>p. (prop_id p, p)) props"
  obtain x e where pd: "propdict ?c ?keyed [] d = (x, e)" by fastforce
  have e: "e = d" and x: "x \<noteq> Hangs" using propdict_state [OF pd] by simp_all
  show thesis
  proof (cases x)
    case (Exn ex)
    then have "r = Exn ex" "d' = d" using assms pd e by (simp_all add: fei_allocateCapacity_def Let_def act_simps)
    then show thesis using refused by simp
  next
    case Hangs
    then show thesis using x by simp
  next
    case (Ok m)
    obtain y f where v: "validateAllocProps ?c ?keyed d = (y, f)" by fastforce
    have f: "f = d" and y: "y \<noteq> Hangs" using validate_state [OF v] by simp_all
    have chk: "checkValidIds c m d = (Ok (), d) \<or> checkValidIds c m d = (Exn InvalidCapacity, d)"
      by (simp add: checkValidIds_def Let_def)
    have t: "TunerProp a \<in> set props" if "tuner_request m = Some a" for a
      using that pd Ok by (auto simp: tuner_request_def split: option.splits fei_prop.splits dest!: propdict_mem)
    have l: "ListenerProp la \<in> set props" if "listener_request m = Some la" for la
      using that pd Ok by (auto simp: listener_request_def split: option.splits fei_prop.splits dest!: propdict_mem)
    have run: "(r, d') = (Ok False, d) \<or> (r, d') = act_then (validateAllocProps ?c ?keyed) (act_then (checkValidIds c m)
        (case tuner_request m of Some a \<Rightarrow> allocate_frontend_tuner_allocation c a (scanner_request m)
         | None \<Rightarrow> (case listener_request m of Some la \<Rightarrow> allocate_frontend_listener_allocation c la
           | None \<Rightarrow> act_raise InvalidCapacity))) d"
      using assms pd e Ok by (auto simp: fei_allocateCapacity_def Let_def act_simps split: if_splits)
    show thesis
    proof (cases "y = Ok () \<and> checkValidIds c m d = (Ok (), d) \<and> (r, d') \<noteq> (Ok False, d)")
      case False
      then have "(\<exists>ex. (r, d') = (Exn ex, d)) \<or> (r, d') = (Ok False, d)"
        using run v f y chk by (cases y) (auto simp: act_simps)
      then show thesis using refused by auto
    next
      case True
      then have "(r, d') = (case tuner_request m of Some a \<Rightarrow> allocate_frontend_tuner_allocation c a (scanner_request m)
         | None \<Rightarrow> (case listener_request m of Some la \<Rightarrow> allocate_frontend_listener_allocation c la
           | None \<Rightarrow> act_raise InvalidCapacity)) d"
        using run v f by (auto simp: act_simps)
      then show thesis
        using refused tuner [OF t] listener [OF l] by (auto split: option.splits)
    qed
  qed
qed

text \<open>
  C2: the tables agree. After any allocation or deallocation request, whether it succeeds, is refused
  or raises, the mapping of allocation ids, the control ids and the comma-separated lists in the status
  describe the same allocations: every mapped id belongs to a tuner that has a controller, the
  controller is mapped to its tuner, and the list of a tuner starts with its controller and holds
  exactly the ids mapped to it, once. New allocation ids must not contain a comma.
\<close>

theorem requests_keep_tables_consistent:
  assumes "class_keeps c" "fei_ok d" "comma_free props"
  shows "fei_ok (snd (fei_allocateCapacity c props d)) \<and> fei_ok (snd (fei_deallocateCapacity c props d))"
proof
  obtain r d' where run: "fei_allocateCapacity c props d = (r, d')" by fastforce
  then show "fei_ok (snd (fei_allocateCapacity c props d))"
  proof (cases rule: allocateCapacity_cases)
    case refused
    then show ?thesis using assms(2) run by simp
  next
    case (tuner a scan)
    then have "CHR '','' \<notin> set (ta_allocation_id a)" using assms(3) by (auto simp: comma_free_def list_all_iff)
    then show ?thesis using allocate_tuner_outcome [OF assms(1,2) _ tuner(2)] run by simp
  next
    case (listener la)
    then have "CHR '','' \<notin> set (la_listener_allocation_id la)" using assms(3) by (auto simp: comma_free_def list_all_iff)
    then show ?thesis using allocate_listener_outcome [OF assms(2) _ listener(2)] run by simp
  qed
  show "fei_ok (snd (fei_deallocateCapacity c props d))"
    using keeps_deallocateCapacity [OF assms(1)] assms(2) by (simp add: keeps_def)
qed


section \<open>One id for one tuner\<close>

text \<open>
  C12: an allocation is exclusive or does nothing. \<open>allocate_frontend_tuner_allocation\<close> raises
  \<open>InvalidCapacity\<close> exactly for an empty id or one in use, and answers True or False otherwise, even
  for the channelizer and transmitter listeners that it means to reject with an exception. On True the
  id, and no other, has been mapped, for a control allocation to a tuner that had no controller
  and has the id as its controller now, for a listener to a tuner under control; no other tuner changes
  hands. In every other case the mapping and the controllers are what they were, also when the
  tuning was out of tolerance and had to be undone.
\<close>

theorem allocation_is_exclusive:
  assumes "class_keeps c" "fei_ok d" "CHR '','' \<notin> set (ta_allocation_id req)"
    "allocate_frontend_tuner_allocation c req scan d = (r, d')"
  shows "(if ta_allocation_id req = '''' \<or> owner d (ta_allocation_id req) \<noteq> None then r = Exn InvalidCapacity
      else r = Ok True \<or> r = Ok False) \<and>
    (r = Ok True \<longrightarrow> (\<exists>t. owner d' = (owner d)(ta_allocation_id req \<mapsto> t) \<and>
      (if ta_device_control req
       then control d t = '''' \<and> control d' = (control d)(t := ta_allocation_id req)
       else control d t \<noteq> '''' \<and> control d' = control d))) \<and>
    (r \<noteq> Ok True \<longrightarrow> owner d' = owner d \<and> control d' = control d)"
proof -
  note o = allocate_tuner_outcome [OF assms]
  show ?thesis
  proof (cases "r = Ok True")
    case True
    then obtain t where "granted (ta_device_control req) (ta_allocation_id req) t d d'" using o by auto
    then show ?thesis using True o unfolding granted_def by auto
  next
    case False
    then show ?thesis using o by auto
  qed
qed

text \<open>
  C22: releasing gives everything back. After a control allocation and a listener on it, deallocating
  the controller succeeds and leaves the mapping and the controllers of all tuners as they were before
  the first of the two requests: the listener goes with its controller.
\<close>

theorem release_undoes_allocation:
  assumes "class_keeps c" "fei_ok d" "CHR '','' \<notin> set (ta_allocation_id req)" "CHR '','' \<notin> set (la_listener_allocation_id la)"
    "ta_device_control req" "allocate_frontend_tuner_allocation c req scan d = (Ok True, d1)"
    "la_existing_allocation_id la = ta_allocation_id req"
    "allocate_frontend_listener_allocation c la d1 = (Ok True, d2)"
  shows "\<exists>d3. deallocate_frontend_tuner_allocation c (ta_allocation_id req) d2 = (Ok (), d3) \<and>
    owner d3 = owner d \<and> control d3 = control d \<and> fei_ok d3"
proof -
  let ?i = "ta_allocation_id req" and ?l = "la_listener_allocation_id la"
  have "owner d ?i = None \<and> (\<exists>t. granted True ?i t d d1)"
    using allocate_tuner_outcome [OF assms(1-3,6)] by (simp add: assms(5))
  then obtain t where g: "granted True ?i t d d1" and new: "owner d ?i = None" by blast
  have d1: "fei_ok d1" "owner d1 = (owner d)(?i \<mapsto> t)" "control d t = ''''" "control d1 = (control d)(t := ?i)"
    using g by (simp_all add: granted_def)
  have old: "owner d1 (la_existing_allocation_id la) = Some t" unfolding assms(7) d1(2) by simp
  have l: "owner d1 ?l = None" "granted False ?l t d1 d2"
    using allocate_listener_outcome [OF d1(1) assms(4,8)] old by auto
  have d2: "fei_ok d2" "owner d2 = (owner d1)(?l \<mapsto> t)" "control d2 = control d1"
    using l(2) by (simp_all add: granted_def)
  have ne: "?l \<noteq> ?i" using l(1) d1(2) by auto
  have free: "owner d j \<noteq> Some t" for j using fei_ok_owner(4) [OF assms(2), of j t] d1(3) by auto
  have i: "owner d2 ?i = Some t" using d2(2) d1(2) ne by simp
  obtain d3 where d3: "deallocate_frontend_tuner_allocation c ?i d2 = (Ok (), d3)" "fei_ok d3"
    "owner d3 = (\<lambda>j. if j = ?i \<or> control d2 t = ?i \<and> owner d2 j = Some t then None else owner d2 j)"
    "control d3 = (if control d2 t = ?i then (control d2)(t := '''') else control d2)"
    by (rule deallocate_tuner_runs [OF assms(1) d2(1) i])
  have c: "control d2 t = ?i" using d2(3) d1(4) by simp
  have "control d3 = (control d2)(t := '''')" using d3(4) c by simp
  then have "control d3 = control d" unfolding d2(3) d1(4) using d1(3) by (simp add: fun_eq_iff)
  moreover have "owner d3 j = owner d j" for j
    using d3(3) c d2(2) d1(2) new free [of j] l(1) ne by (auto split: if_splits)
  ultimately show ?thesis using d3(1,2) by auto
qed

section \<open>Adding channels to a device in use\<close>

lemma addChannels_tables:
  "owner (addChannels c n ty d) = owner d" "control (addChannels c n ty d) = (\<lambda>t. '''')"
  "t < length (frontend_tuner_status d) \<Longrightarrow> csv (addChannels c n ty d) t = csv d t"
  by (simp_all add: addChannels_def owner_def control_def csv_def fun_eq_iff nth_append)

text \<open>
  \<open>addChannels\<close> forgets who is in control. It empties the list of control ids but keeps the
  mapping: afterwards no tuner counts as controlled, the tables no longer agree if anything was
  allocated, and deallocating a controller without listeners raises an \<open>IndexError\<close> and leaves it
  allocated.
\<close>

theorem addChannels_forgets_control:
  assumes "fei_ok d" "owner d i = Some t" "control d t = i" "csv d t = i"
  shows "control (addChannels c n ty d) = (\<lambda>t. '''') \<and> owner (addChannels c n ty d) i = Some t \<and>
    \<not> fei_ok (addChannels c n ty d) \<and>
    deallocate_frontend_tuner_allocation c i (addChannels c n ty d) = (Exn IndexError, addChannels c n ty d)"
proof -
  let ?d = "addChannels c n ty d"
  note t = fei_ok_owner [OF assms(1,2)]
  have own: "owner ?d i = Some t" using assms(2) addChannels_tables(1) [of c n ty d] by simp
  have broken: "\<not> fei_ok ?d" using fei_ok_owner(4) [OF _ own] addChannels_tables(2) [of c n ty d] by auto
  have len: "t < length (frontend_tuner_status ?d)" "tuner_allocation_ids ?d = []"
    using t(2) by (simp_all add: addChannels_def)
  have split: "split_commas (csv ?d t) = [i]" "csv ?d t = i"
    using addChannels_tables(3) [OF t(2), of c n ty] assms(4) t(3) split_commas_plain [of i] by (simp_all add: good_id_def)
  have "ids_at t ?d = (Exn IndexError, ?d)" using len(2) by (simp add: ids_at_def act_nth_def)
  then have "release_tuner c t i ?d = (Exn IndexError, ?d)"
    unfolding release_tuner_def by (intro act_then_run(2) act_bind_run(2))
  moreover have "remove_other_ids c (Suc (Suc 0)) t i ?d = (Ok (), ?d)"
    using own split(2) len(1) by (simp add: mapped_tuner_run act_simps csv_def)
  ultimately have "deallocate_frontend_tuner_allocation c i ?d = (Exn IndexError, ?d)"
    using own split len(1) by (simp del: remove_other_ids.simps add: deallocate_frontend_tuner_allocation_def getTunerMapping_def owner_def
        act_simps csv_def Let_def act_when_def)
  then show ?thesis using own broken addChannels_tables(2) [of c n ty d] by blast
qed


section \<open>A device with two tuners\<close>

definition example_class :: "unit tuner_class" where
  "example_class = \<lparr>fei_allocatable = (\<lambda>pid. Some True), supports_scan = False,
     new_tuner_status = \<lparr>ts_tuner_type = ''RX_DIGITIZER'', ts_allocation_id_csv = '''', ts_center_frequency = 0,
       ts_bandwidth = 0, ts_sample_rate = 0, ts_group_id = '''', ts_rf_flow_id = '''', ts_enabled = False\<rparr>,
     deviceSetTuning = (\<lambda>req t st u. (Ok (ta_center_frequency req \<le> 100), st, u)),
     deviceSetTuningScan = (\<lambda>req s t st u. (Exn AttributeError, st, u)),
     deviceEnable = (\<lambda>t st u. (st\<lparr>ts_enabled := True\<rparr>, u)), deviceDisable = (\<lambda>t st u. (st\<lparr>ts_enabled := False\<rparr>, u)),
     deviceDeleteTuning = (\<lambda>t st u. (st, u)), assignListener = (\<lambda>l i u. u), removeListener = (\<lambda>l u. u)\<rparr>"

definition example_device :: "unit fei" where
  "example_device = addChannels example_class 2 ''RX_DIGITIZER''
     \<lparr>d_usageState = IDLE, d_adminState = UNLOCKED, d_operationalState = ENABLED, idm_publisher = False, idm_events = [],
      frontend_tuner_status = [], tuner_allocation_ids = [], allocation_id_to_tuner_id = [], fei_user = (), eos_sent = []\<rparr>"

definition example_request :: "tuner_allocation" where
  "example_request = \<lparr>ta_tuner_type = ''RX_DIGITIZER'', ta_allocation_id = ''one'', ta_center_frequency = 50,
     ta_bandwidth = 10, ta_bandwidth_tolerance = 0, ta_sample_rate = 20, ta_sample_rate_tolerance = 0,
     ta_device_control = True, ta_group_id = '''', ta_rf_flow_id = ''''\<rparr>"

definition example_listener :: listener_allocation where
  "example_listener = \<lparr>la_existing_allocation_id = ''one'', la_listener_allocation_id = ''ear''\<rparr>"

definition example_allocated :: "unit fei" where
  "example_allocated = snd (allocate_frontend_tuner_allocation example_class example_request None example_device)"

lemma example_class_keeps: "class_keeps example_class"
  by (simp add: class_keeps_def tuning_keeps_def hook_keeps_def example_class_def)

lemma example_device_ok: "fei_ok example_device"
  by (simp add: fei_ok_def csv_ok_def owner_def control_def csv_def example_device_def addChannels_def example_class_def
      less_Suc_eq numeral_2_eq_2)

lemma example_plain: "CHR '','' \<notin> set (ta_allocation_id example_request)"
  "CHR '','' \<notin> set (la_listener_allocation_id example_listener)"
  by (simp_all add: example_request_def example_listener_def)

lemma example_runs: "allocate_frontend_tuner_allocation example_class example_request None example_device =
    (Ok True, example_allocated)"
  "fst (allocate_frontend_listener_allocation example_class example_listener example_allocated) = Ok True"
proof -
  have "fst (allocate_frontend_tuner_allocation example_class example_request None example_device) = Ok True" by code_simp
  then show "allocate_frontend_tuner_allocation example_class example_request None example_device =
    (Ok True, example_allocated)" by (simp add: example_allocated_def prod_eq_iff)
  show "fst (allocate_frontend_listener_allocation example_class example_listener example_allocated) = Ok True" by code_simp
qed

lemma requests_keep_tables_consistent_witness:
  "fei_ok (snd (fei_allocateCapacity example_class [TunerProp example_request] example_device)) \<and>
    fst (fei_allocateCapacity example_class [TunerProp example_request] example_device) = Ok True"
proof
  have "comma_free [TunerProp example_request]" using example_plain by (simp add: comma_free_def)
  then show "fei_ok (snd (fei_allocateCapacity example_class [TunerProp example_request] example_device))"
    using requests_keep_tables_consistent [OF example_class_keeps example_device_ok] by blast
  show "fst (fei_allocateCapacity example_class [TunerProp example_request] example_device) = Ok True" by code_simp
qed

lemma allocation_is_exclusive_witness:
  "\<exists>t. owner example_allocated = (owner example_device)(''one'' \<mapsto> t) \<and> control example_allocated t = ''one''"
proof -
  have "ta_device_control example_request" "ta_allocation_id example_request = ''one''" by (simp_all add: example_request_def)
  then show ?thesis
    using allocation_is_exclusive [OF example_class_keeps example_device_ok example_plain(1) example_runs(1)] by auto
qed

lemma release_undoes_allocation_witness:
  "\<exists>d3. deallocate_frontend_tuner_allocation example_class ''one''
      (snd (allocate_frontend_listener_allocation example_class example_listener example_allocated)) = (Ok (), d3) \<and>
    owner d3 = owner example_device \<and> control d3 = control example_device \<and> fei_ok d3"
proof -
  have l: "allocate_frontend_listener_allocation example_class example_listener example_allocated =
    (Ok True, snd (allocate_frontend_listener_allocation example_class example_listener example_allocated))"
    using example_runs(2) by (simp add: prod_eq_iff)
  have i: "ta_device_control example_request" "la_existing_allocation_id example_listener = ta_allocation_id example_request"
    "ta_allocation_id example_request = ''one''"
    by (simp_all add: example_request_def example_listener_def)
  show ?thesis
    using release_undoes_allocation [OF example_class_keeps example_device_ok example_plain i(1) example_runs(1) i(2) l]
    unfolding i(3) .
qed

lemma addChannels_forgets_control_witness:
  "deallocate_frontend_tuner_allocation example_class ''one'' (addChannels example_class 1 ''TX'' example_allocated) =
    (Exn IndexError, addChannels example_class 1 ''TX'' example_allocated)"
proof -
  have "fei_ok example_allocated"
    using allocate_tuner_outcome [OF example_class_keeps example_device_ok example_plain(1) example_runs(1)] by blast
  moreover have "owner example_allocated ''one'' = Some 0" "control example_allocated 0 = ''one''" "csv example_allocated 0 = ''one''"
    by code_simp+
  ultimately show ?thesis using addChannels_forgets_control by blast
qed

end
