(* ===== verification/TunerValidation.thy ===== *)
theory TunerValidation
  imports TunerDevice Sri
begin

text \<open>
  The helpers of \<open>tuner_device.py\<close> that check a request against an input stream, the analog input and
  the limits of the device, and what the comparison with one decimal place really accepts.
\<close>

definition validateRequestSingle :: "rat \<Rightarrow> rat \<Rightarrow> rat \<Rightarrow> bool" where
  "validateRequestSingle available_min available_max requested_val =
     (if floatingPointCompare requested_val available_min < 0 then False
      else if floatingPointCompare requested_val available_max > 0 then False
      else if floatingPointCompare available_min available_max > 0 then False
      else True)"

definition validateRequest :: "rat \<Rightarrow> rat \<Rightarrow> rat \<Rightarrow> rat \<Rightarrow> bool" where
  "validateRequest available_min available_max requested_min requested_max =
     (let center_request = (requested_max + requested_min) / 2
      in if floatingPointCompare center_request available_min < 0 then False
         else if floatingPointCompare center_request available_max > 0 then False
         else if floatingPointCompare available_min available_max > 0 then False
         else if floatingPointCompare requested_min requested_max > 0 then False
         else True)"

text \<open>A failed check raises; in Python 2 halving an integer keyword value rounds down.\<close>

definition require :: "bool \<Rightarrow> 'a outcome \<Rightarrow> 'a outcome" where
  "require ok rest = (if ok then rest else Raised BadParameter)"

fun py_half :: "pyval \<Rightarrow> rat option" where
  "py_half (PBool b) = Some 0"
| "py_half (PInt n) = Some (of_int (n div 2))"
| "py_half (PFloat x) = Some (x / 2)"
| "py_half _ = None"

text \<open>The last keyword with one of the two ids counts.\<close>

fun scan_keywords :: "keyword list \<Rightarrow> pyval option \<Rightarrow> pyval option \<Rightarrow> pyval option \<times> pyval option" where
  "scan_keywords [] cf bw = (cf, bw)"
| "scan_keywords (k # ks) cf bw =
     (if kw_id k = ''CHAN_RF'' then scan_keywords ks (Some (any_v (kw_value k))) bw
      else if kw_id k = ''FRONTEND::BANDWIDTH'' then scan_keywords ks cf (Some (any_v (kw_value k)))
      else scan_keywords ks cf bw)"

definition validateRequestVsSRI :: "tuner_allocation \<Rightarrow> sri \<Rightarrow> int \<Rightarrow> bool outcome" where
  "validateRequestVsSRI request upstream_sri output_mode =
     (case scan_keywords (kwords upstream_sri) None None of
       (Some cf, Some bw) \<Rightarrow>
         (case (py_num cf, py_half bw) of
           (Some upstream_cf, Some half_bw) \<Rightarrow>
             require (validateRequest (upstream_cf - half_bw) (upstream_cf + half_bw)
                 (ta_center_frequency request - ta_bandwidth request / 2)
                 (ta_center_frequency request + ta_bandwidth request / 2))
             (if xdelta upstream_sri = 0 then Raised ZeroDivisionError
              else let upstream_sr = 1 / xdelta upstream_sri;
                       input_scaling_factor = (if mode upstream_sri = 1 then 4 else 2);
                       output_scaling_factor = (if output_mode = 1 then 4 else 2)
                   in require (validateRequest (upstream_cf - upstream_sr / input_scaling_factor)
                         (upstream_cf + upstream_sr / input_scaling_factor)
                         (ta_center_frequency request - ta_sample_rate request / output_scaling_factor)
                         (ta_center_frequency request + ta_sample_rate request / output_scaling_factor))
                      (Returned True))
         | _ \<Rightarrow> Raised TypeError)
     | _ \<Rightarrow> Raised BadParameter)"

text \<open>
  The checks against the limits of the device, which the two validations share: \<open>center\<close> is the
  requested or the intermediate frequency.
\<close>

definition validateLimits :: "tuner_allocation \<Rightarrow> rat \<Rightarrow> int \<Rightarrow> rat \<Rightarrow> rat \<Rightarrow> rat \<Rightarrow> rat \<Rightarrow> bool outcome" where
  "validateLimits request center md min_center max_center max_bandwidth max_sample_rate =
     require (validateRequestSingle min_center max_center center)
     (require (validateRequestSingle 0 max_bandwidth (ta_bandwidth request))
     (require (validateRequestSingle 0 max_sample_rate (ta_sample_rate request))
       (let scaling_factor = (if md = 1 then 4 else 2);
            min_freq = min_center - max_sample_rate / scaling_factor;
            max_freq = max_center + max_sample_rate / scaling_factor
        in require (validateRequest min_freq max_freq (center - ta_bandwidth request / 2) (center + ta_bandwidth request / 2))
           (require (validateRequest min_freq max_freq (center - ta_sample_rate request / scaling_factor)
               (center + ta_sample_rate request / scaling_factor))
             (Returned True)))))"

definition validateRequestVsDeviceStream ::
    "tuner_allocation \<Rightarrow> sri \<Rightarrow> int \<Rightarrow> rat \<Rightarrow> rat \<Rightarrow> rat \<Rightarrow> rat \<Rightarrow> bool outcome" where
  "validateRequestVsDeviceStream request upstream_sri output_mode min_center max_center max_bandwidth max_sample_rate =
     obind (validateRequestVsSRI request upstream_sri output_mode) (\<lambda>ok. require ok
       (validateLimits request (ta_center_frequency request) output_mode min_center max_center max_bandwidth max_sample_rate))"

record rfinfo =
  rf_center_freq :: rat
  rf_bandwidth :: rat
  if_center_freq :: rat
  spectrum_inverted :: bool

definition validateRequestVsRFInfo :: "tuner_allocation \<Rightarrow> rfinfo \<Rightarrow> int \<Rightarrow> bool outcome" where
  "validateRequestVsRFInfo request rf md =
     (let min_analog_freq = rf_center_freq rf - rf_bandwidth rf / 2;
          max_analog_freq = rf_center_freq rf + rf_bandwidth rf / 2;
          scaling_factor = (if md \<noteq> 0 then 2 else 4)
      in require (validateRequest min_analog_freq max_analog_freq (ta_center_frequency request - ta_bandwidth request / 2)
           (ta_center_frequency request + ta_bandwidth request / 2))
         (require (validateRequest min_analog_freq max_analog_freq
             (ta_center_frequency request - ta_sample_rate request / scaling_factor)
             (ta_center_frequency request + ta_sample_rate request / scaling_factor))
           (Returned True)))"

definition intermediate_freq :: "tuner_allocation \<Rightarrow> rfinfo \<Rightarrow> rat" where
  "intermediate_freq request rf =
     (if ta_tuner_type request \<noteq> ''TX'' \<and> floatingPointCompare (if_center_freq rf) 0 > 0 \<and>
         floatingPointCompare (rf_center_freq rf) (if_center_freq rf) > 0
      then if spectrum_inverted rf then if_center_freq rf - (ta_center_frequency request - rf_center_freq rf)
           else if_center_freq rf + (ta_center_frequency request - rf_center_freq rf)
      else ta_center_frequency request)"

definition validateRequestVsDevice ::
    "tuner_allocation \<Rightarrow> rfinfo \<Rightarrow> int \<Rightarrow> rat \<Rightarrow> rat \<Rightarrow> rat \<Rightarrow> rat \<Rightarrow> bool outcome" where
  "validateRequestVsDevice request rf md min_center max_center max_bandwidth max_sample_rate =
     obind (if ta_tuner_type request \<noteq> ''TX'' then validateRequestVsRFInfo request rf md else Returned True)
       (\<lambda>ok. require ok
         (validateLimits request (intermediate_freq request rf) md min_center max_center max_bandwidth max_sample_rate))"

section \<open>What the comparisons accept\<close>

lemma py_round_neg: "py_round x < 0 \<longleftrightarrow> x \<le> - (1 / 2)"
proof (cases "x < 0")
  case True
  have "0 < \<lfloor>- x + 1 / 2\<rfloor> \<longleftrightarrow> 1 \<le> - x + 1 / 2" by (rule zero_less_floor)
  moreover have "py_round x < 0 \<longleftrightarrow> 0 < \<lfloor>- x + 1 / 2\<rfloor>" using True unfolding py_round_def by simp
  moreover have "1 \<le> - x + 1 / 2 \<longleftrightarrow> x \<le> - (1 / 2)" by linarith
  ultimately show ?thesis by blast
next
  case False
  have "\<lfloor>x + 1 / 2\<rfloor> < 0 \<longleftrightarrow> x + 1 / 2 < 0" by (rule floor_less_zero)
  moreover have "py_round x < 0 \<longleftrightarrow> \<lfloor>x + 1 / 2\<rfloor> < 0" using False unfolding py_round_def by simp
  ultimately show ?thesis using False by linarith
qed

lemma py_round_pos: "0 < py_round x \<longleftrightarrow> 1 / 2 \<le> x"
proof (cases "x < 0")
  case True
  have "\<lfloor>- x + 1 / 2\<rfloor> < 0 \<longleftrightarrow> - x + 1 / 2 < 0" by (rule floor_less_zero)
  moreover have "0 < py_round x \<longleftrightarrow> \<lfloor>- x + 1 / 2\<rfloor> < 0" using True unfolding py_round_def by simp
  ultimately show ?thesis using True by linarith
next
  case False
  have "0 < \<lfloor>x + 1 / 2\<rfloor> \<longleftrightarrow> 1 \<le> x + 1 / 2" by (rule zero_less_floor)
  moreover have "0 < py_round x \<longleftrightarrow> 0 < \<lfloor>x + 1 / 2\<rfloor>" using False unfolding py_round_def by simp
  moreover have "1 \<le> x + 1 / 2 \<longleftrightarrow> 1 / 2 \<le> x" by linarith
  ultimately show ?thesis by blast
qed

lemma compare_less: "floatingPointCompare a b < 0 \<longleftrightarrow> a \<le> b - 1 / 20"
  unfolding floatingPointCompare_def py_round_neg by auto

lemma compare_greater: "0 < floatingPointCompare a b \<longleftrightarrow> b + 1 / 20 \<le> a"
  unfolding floatingPointCompare_def py_round_pos by auto

lemma validateRequestSingle_iff:
  "validateRequestSingle lo hi x \<longleftrightarrow> lo - 1 / 20 < x \<and> x < hi + 1 / 20 \<and> lo < hi + 1 / 20"
  by (auto simp: validateRequestSingle_def compare_less compare_greater not_le)

lemma validateRequest_iff:
  "validateRequest lo hi a b \<longleftrightarrow>
    lo - 1 / 20 < (a + b) / 2 \<and> (a + b) / 2 < hi + 1 / 20 \<and> lo < hi + 1 / 20 \<and> a < b + 1 / 20"
  by (auto simp: validateRequest_def compare_less compare_greater not_le Let_def add.commute)


lemma validateRequest_symmetric:
  "validateRequest lo hi (x - w) (x + w) \<longleftrightarrow>
    lo - 1 / 20 < x \<and> x < hi + 1 / 20 \<and> lo < hi + 1 / 20 \<and> - (1 / 40) < w"
proof -
  have "(x - w + (x + w)) / 2 = x" "x - w < x + w + 1 / 20 \<longleftrightarrow> - (1 / 40) < w" by (simp, linarith)
  then show ?thesis unfolding validateRequest_iff by (simp only:)
qed

lemma require_Returned [simp]: "require ok rest = Returned x \<longleftrightarrow> ok \<and> rest = Returned x"
  by (simp add: require_def)

text \<open>
  C33: what a validated request has been checked for. \<open>validateRequestVsDevice\<close> accepts a receiver
  request without intermediate frequency as soon as its centre lies in the analog range and in the range
  of the device, and its bandwidth and sample rate between 0 and the maxima of the device: the width of
  the requested band plays no further role, however far it sticks out of the analog range. Conversely an
  accepted request is within a twentieth of a hertz of these bounds.
\<close>

theorem validated_request_bounds:
  assumes "ta_tuner_type request \<noteq> ''TX''" "if_center_freq rf = 0"
  shows "(\<bar>ta_center_frequency request - rf_center_freq rf\<bar> \<le> rf_bandwidth rf / 2 \<and>
      min_center \<le> ta_center_frequency request \<and> ta_center_frequency request \<le> max_center \<and>
      0 \<le> ta_bandwidth request \<and> ta_bandwidth request \<le> max_bandwidth \<and>
      0 \<le> ta_sample_rate request \<and> ta_sample_rate request \<le> max_sample_rate \<longrightarrow>
      validateRequestVsDevice request rf md min_center max_center max_bandwidth max_sample_rate = Returned True) \<and>
    (validateRequestVsDevice request rf md min_center max_center max_bandwidth max_sample_rate = Returned True \<longrightarrow>
      \<bar>ta_center_frequency request - rf_center_freq rf\<bar> < rf_bandwidth rf / 2 + 1 / 20 \<and>
      min_center - 1 / 20 < ta_center_frequency request \<and> ta_center_frequency request < max_center + 1 / 20 \<and>
      - (1 / 20) < ta_bandwidth request \<and> ta_bandwidth request < max_bandwidth + 1 / 20 \<and>
      - (1 / 20) < ta_sample_rate request \<and> ta_sample_rate request < max_sample_rate + 1 / 20)"
proof -
  let ?x = "ta_center_frequency request" and ?b = "ta_bandwidth request" and ?s = "ta_sample_rate request"
  let ?k = "if md = 1 then 4 else 2 :: rat" and ?j = "if md \<noteq> 0 then 2 else 4 :: rat"
  have "intermediate_freq request rf = ?x"
    using assms(2) compare_greater [of 0 0] by (simp add: intermediate_freq_def)
  then have accept: "validateRequestVsDevice request rf md min_center max_center max_bandwidth max_sample_rate = Returned True \<longleftrightarrow>
      validateRequest (rf_center_freq rf - rf_bandwidth rf / 2) (rf_center_freq rf + rf_bandwidth rf / 2) (?x - ?b / 2) (?x + ?b / 2) \<and>
      validateRequest (rf_center_freq rf - rf_bandwidth rf / 2) (rf_center_freq rf + rf_bandwidth rf / 2) (?x - ?s / ?j) (?x + ?s / ?j) \<and>
      validateRequestSingle min_center max_center ?x \<and> validateRequestSingle 0 max_bandwidth ?b \<and>
      validateRequestSingle 0 max_sample_rate ?s \<and>
      validateRequest (min_center - max_sample_rate / ?k) (max_center + max_sample_rate / ?k) (?x - ?b / 2) (?x + ?b / 2) \<and>
      validateRequest (min_center - max_sample_rate / ?k) (max_center + max_sample_rate / ?k) (?x - ?s / ?k) (?x + ?s / ?k)"
    using assms(1) unfolding validateRequestVsDevice_def validateRequestVsRFInfo_def validateLimits_def Let_def obind_Returned_iff
    by auto
  define mk sk sj where "mk = max_sample_rate / ?k" and "sk = ?s / ?k" and "sj = ?s / ?j"
  have pos: "0 \<le> mk \<and> 0 \<le> sk \<and> 0 \<le> sj" if "0 \<le> ?s" "?s \<le> max_sample_rate"
    using that by (simp add: mk_def sk_def sj_def)
  show ?thesis
    unfolding accept validateRequest_symmetric validateRequestSingle_iff mk_def [symmetric] sk_def [symmetric]
      sj_def [symmetric]
  proof (rule conjI; rule impI)
    assume a: "\<bar>?x - rf_center_freq rf\<bar> \<le> rf_bandwidth rf / 2 \<and> min_center \<le> ?x \<and> ?x \<le> max_center \<and>
      0 \<le> ?b \<and> ?b \<le> max_bandwidth \<and> 0 \<le> ?s \<and> ?s \<le> max_sample_rate"
    then have "0 \<le> mk" "0 \<le> sk" "0 \<le> sj" using pos by auto
    then show "(rf_center_freq rf - rf_bandwidth rf / 2 - 1 / 20 < ?x \<and> ?x < rf_center_freq rf + rf_bandwidth rf / 2 + 1 / 20 \<and>
        rf_center_freq rf - rf_bandwidth rf / 2 < rf_center_freq rf + rf_bandwidth rf / 2 + 1 / 20 \<and> - (1 / 40) < ?b / 2) \<and>
      (rf_center_freq rf - rf_bandwidth rf / 2 - 1 / 20 < ?x \<and> ?x < rf_center_freq rf + rf_bandwidth rf / 2 + 1 / 20 \<and>
        rf_center_freq rf - rf_bandwidth rf / 2 < rf_center_freq rf + rf_bandwidth rf / 2 + 1 / 20 \<and> - (1 / 40) < sj) \<and>
      (min_center - 1 / 20 < ?x \<and> ?x < max_center + 1 / 20 \<and> min_center < max_center + 1 / 20) \<and>
      (0 - 1 / 20 < ?b \<and> ?b < max_bandwidth + 1 / 20 \<and> 0 < max_bandwidth + 1 / 20) \<and>
      (0 - 1 / 20 < ?s \<and> ?s < max_sample_rate + 1 / 20 \<and> 0 < max_sample_rate + 1 / 20) \<and>
      (min_center - mk - 1 / 20 < ?x \<and> ?x < max_center + mk + 1 / 20 \<and> min_center - mk < max_center + mk + 1 / 20 \<and>
        - (1 / 40) < ?b / 2) \<and>
      min_center - mk - 1 / 20 < ?x \<and> ?x < max_center + mk + 1 / 20 \<and> min_center - mk < max_center + mk + 1 / 20 \<and>
        - (1 / 40) < sk"
      using a by (intro conjI; linarith)
  qed (intro conjI; linarith)
qed


definition wide_request :: tuner_allocation where
  "wide_request = \<lparr>ta_tuner_type = ''RX_DIGITIZER'', ta_allocation_id = ''w'', ta_center_frequency = 100,
     ta_bandwidth = 900, ta_bandwidth_tolerance = 0, ta_sample_rate = 900, ta_sample_rate_tolerance = 0,
     ta_device_control = True, ta_group_id = '''', ta_rf_flow_id = ''''\<rparr>"

definition narrow_input :: rfinfo where
  "narrow_input = \<lparr>rf_center_freq = 100, rf_bandwidth = 20, if_center_freq = 0, spectrum_inverted = False\<rparr>"

lemma validated_request_bounds_witness:
  "validateRequestVsDevice wide_request narrow_input 1 0 200 1000 1000 = Returned True \<and>
    rf_center_freq narrow_input + rf_bandwidth narrow_input / 2 <
      ta_center_frequency wide_request + ta_bandwidth wide_request / 2"
proof
  have "ta_tuner_type wide_request \<noteq> ''TX''" "if_center_freq narrow_input = 0"
    by (simp_all add: wide_request_def narrow_input_def)
  note bounds = validated_request_bounds [OF this, of 0 200 1000 1000 1]
  show "validateRequestVsDevice wide_request narrow_input 1 0 200 1000 1000 = Returned True"
    by (rule bounds [THEN conjunct1, rule_format]) (simp add: wide_request_def narrow_input_def)
qed (simp add: wide_request_def narrow_input_def)

end
