(* ===== verification/PyStrings.thy ===== *)
theory PyStrings
  imports Prelude
begin

text \<open>
  The string functions of Python 2 that the property code uses: \<open>strip\<close>, \<open>split\<close>, \<open>rindex\<close>,
  \<open>find\<close> for one character, \<open>str\<close> of an integer, and \<open>int\<close> of a string with base 10 or with the
  base given by a prefix (\<open>int(s, 0)\<close>). Reading back what \<open>str\<close> printed gives the number again.
\<close>

definition is_space :: "char \<Rightarrow> bool" where
  "is_space c \<longleftrightarrow> (let n = of_char c :: nat in n = 32 \<or> (9 \<le> n \<and> n \<le> 13))"

definition strip :: "string \<Rightarrow> string" where
  "strip s = rev (dropWhile is_space (rev (dropWhile is_space s)))"

fun split_on :: "char \<Rightarrow> string \<Rightarrow> string list" where
  "split_on c [] = [[]]"
| "split_on c (x # xs) = (if x = c then [] # split_on c xs
    else case split_on c xs of [] \<Rightarrow> [[x]] | w # ws \<Rightarrow> (x # w) # ws)"

fun join_on :: "char \<Rightarrow> string list \<Rightarrow> string" where
  "join_on c [] = []"
| "join_on c [w] = w"
| "join_on c (w # ws) = w @ c # join_on c ws"

text \<open>\<open>s.split(c, 1)\<close> of a string that contains \<open>c\<close>.\<close>

definition split_once :: "char \<Rightarrow> string \<Rightarrow> string \<times> string" where
  "split_once c s = (takeWhile (\<lambda>x. x \<noteq> c) s, tl (dropWhile (\<lambda>x. x \<noteq> c) s))"

text \<open>\<open>s.rindex(c)\<close>; \<open>None\<close> is the \<open>ValueError\<close>.\<close>

fun rindex :: "char \<Rightarrow> string \<Rightarrow> nat option" where
  "rindex c [] = None"
| "rindex c (x # xs) = (case rindex c xs of Some i \<Rightarrow> Some (Suc i) | None \<Rightarrow> if x = c then Some 0 else None)"

lemma rindex_None: "c \<notin> set s \<Longrightarrow> rindex c s = None"
  by (induction s) auto

lemma rindex_last: "c \<notin> set s \<Longrightarrow> rindex c (base @ c # s) = Some (length base)"
  by (induction base) (auto simp: rindex_None)

lemma rindex_absent: "rindex c s = None \<longleftrightarrow> c \<notin> set s"
  by (induction s) (auto split: option.split)

lemma split_on_free: "c \<notin> set w \<Longrightarrow> split_on c w = [w]"
  by (induction w) auto

lemma split_on_append: "c \<notin> set w \<Longrightarrow> split_on c (w @ c # s) = w # split_on c s"
  by (induction w) auto

lemma split_on_join: "ws \<noteq> [] \<Longrightarrow> (\<And>w. w \<in> set ws \<Longrightarrow> c \<notin> set w) \<Longrightarrow> split_on c (join_on c ws) = ws"
  by (induction c ws rule: join_on.induct) (simp_all add: split_on_free split_on_append)

lemma strip_plain: "s \<noteq> [] \<Longrightarrow> \<not> is_space (hd s) \<Longrightarrow> \<not> is_space (last s) \<Longrightarrow> strip s = s"
proof -
  assume s: "s \<noteq> []" "\<not> is_space (hd s)" "\<not> is_space (last s)"
  then have "dropWhile is_space s = s" by (cases s) auto
  moreover have "dropWhile is_space (rev s) = rev s" using s by (cases "rev s") (auto simp: hd_rev[symmetric])
  ultimately show ?thesis by (simp add: strip_def)
qed

section \<open>Numbers\<close>

definition digit_value :: "char \<Rightarrow> nat option" where
  "digit_value c = (let n = of_char c :: nat in
     if 48 \<le> n \<and> n \<le> 57 then Some (n - 48)
     else if 97 \<le> n \<and> n \<le> 102 then Some (n - 87)
     else if 65 \<le> n \<and> n \<le> 70 then Some (n - 55) else None)"

fun read_digits :: "nat \<Rightarrow> nat \<Rightarrow> string \<Rightarrow> nat option" where
  "read_digits b acc [] = Some acc"
| "read_digits b acc (c # cs) = (case digit_value c of
      Some d \<Rightarrow> if d < b then read_digits b (b * acc + d) cs else None
    | None \<Rightarrow> None)"

definition read_nat :: "nat \<Rightarrow> string \<Rightarrow> nat option" where
  "read_nat b s = (if s = [] then None else read_digits b 0 s)"

text \<open>The base that a prefix announces: \<open>0x\<close>, \<open>0o\<close>, \<open>0b\<close>, or a leading \<open>0\<close> for octal.\<close>

definition read_prefixed :: "string \<Rightarrow> nat option" where
  "read_prefixed s = (if s = [] \<or> hd s \<noteq> CHR ''0'' then read_nat 10 s
     else if tl s = [] then Some 0
     else if hd (tl s) \<in> {CHR ''x'', CHR ''X''} then read_nat 16 (tl (tl s))
     else if hd (tl s) \<in> {CHR ''o'', CHR ''O''} then read_nat 8 (tl (tl s))
     else if hd (tl s) \<in> {CHR ''b'', CHR ''B''} then read_nat 2 (tl (tl s))
     else read_nat 8 (tl s))"

definition read_signed :: "(string \<Rightarrow> nat option) \<Rightarrow> string \<Rightarrow> int option" where
  "read_signed f s = (if s \<noteq> [] \<and> hd s = CHR ''-'' then map_option (\<lambda>n. - int n) (f (tl s))
     else if s \<noteq> [] \<and> hd s = CHR ''+'' then map_option int (f (tl s))
     else map_option int (f s))"

text \<open>\<open>int(s)\<close> and \<open>int(s, 0)\<close>; \<open>None\<close> is the \<open>ValueError\<close>.\<close>

definition int_of_string :: "string \<Rightarrow> int option" where
  "int_of_string s = read_signed (read_nat 10) (strip s)"

definition int_of_literal :: "string \<Rightarrow> int option" where
  "int_of_literal s = read_signed read_prefixed (strip s)"

definition digit_char :: "nat \<Rightarrow> char" where
  "digit_char d = char_of (48 + d)"

fun show_nat :: "nat \<Rightarrow> string" where
  "show_nat n = (if n < 10 then [digit_char n] else show_nat (n div 10) @ [digit_char (n mod 10)])"

declare show_nat.simps [simp del]

definition show_int :: "int \<Rightarrow> string" where
  "show_int n = (if n < 0 then CHR ''-'' # show_nat (nat (- n)) else show_nat (nat n))"

lemma digit_value_char [simp]: "d < 10 \<Longrightarrow> digit_value (digit_char d) = Some d"
  by (simp add: digit_value_def digit_char_def Let_def)

lemma digit_char_plain:
  "d < 10 \<Longrightarrow> \<not> is_space (digit_char d)" "d < 10 \<Longrightarrow> digit_char d \<notin> {CHR ''-'', CHR ''+'', CHR '','', CHR '':''}"
proof -
  assume d: "d < 10"
  then have c: "of_char (digit_char d) = 48 + d" by (simp add: digit_char_def)
  have "of_char (digit_char d) \<noteq> (of_char x :: nat)" if "x \<in> {CHR ''-'', CHR ''+'', CHR '','', CHR '':''}" for x
    using d that by (auto simp: c)
  then show "digit_char d \<notin> {CHR ''-'', CHR ''+'', CHR '','', CHR '':''}" by metis
  show "\<not> is_space (digit_char d)" using d by (simp add: is_space_def c)
qed

lemma show_nat_digits: "c \<in> set (show_nat n) \<Longrightarrow> \<exists>d < 10. c = digit_char d"
proof (induction n rule: show_nat.induct)
  case (1 n)
  show ?case
  proof (cases "n < 10")
    case True then show ?thesis using 1(2) by (auto simp: show_nat.simps [of n])
  next
    case False
    then have "c \<in> set (show_nat (n div 10)) \<or> c = digit_char (n mod 10)"
      using 1(2) by (auto simp: show_nat.simps [of n])
    then show ?thesis using 1(1) [OF False] by (auto intro: exI [of _ "n mod 10"])
  qed
qed

lemma show_nat_not_Nil [simp]: "show_nat n \<noteq> []"
  by (simp add: show_nat.simps [of n])

lemma read_digits_append:
  "read_digits b a (xs @ ys) = (case read_digits b a xs of Some v \<Rightarrow> read_digits b v ys | None \<Rightarrow> None)"
  by (induction b a xs rule: read_digits.induct) (auto split: option.split)

lemma read_show_digits: "read_digits 10 0 (show_nat n) = Some n"
proof (induction n rule: show_nat.induct)
  case (1 n)
  show ?case
    using 1 by (cases "n < 10") (simp_all add: show_nat.simps [of n] read_digits_append)
qed

lemma show_nat_plain:
  assumes "c \<in> set (show_nat n)"
  shows "\<not> is_space c" "c \<notin> {CHR ''-'', CHR ''+'', CHR '','', CHR '':''}"
proof -
  obtain d where d: "d < 10" "c = digit_char d" using show_nat_digits [OF assms] by auto
  show "\<not> is_space c" using digit_char_plain(1) [OF d(1)] by (simp only: d(2) not_False_eq_True)
  show "c \<notin> {CHR ''-'', CHR ''+'', CHR '','', CHR '':''}"
    unfolding d(2) by (rule digit_char_plain(2) [OF d(1)])
qed

lemma show_nat_ends: "\<not> is_space (hd (show_nat n))" "\<not> is_space (last (show_nat n))"
  by (rule show_nat_plain(1) [OF hd_in_set [OF show_nat_not_Nil]], rule show_nat_plain(1) [OF last_in_set [OF show_nat_not_Nil]])

lemma strip_show: "strip (show_nat n) = show_nat n"
  by (rule strip_plain) (simp_all add: show_nat_ends)

lemma int_of_show_nat [simp]: "int_of_string (show_nat n) = Some (int n)"
proof -
  have "hd (show_nat n) \<noteq> CHR ''-''" "hd (show_nat n) \<noteq> CHR ''+''"
    using show_nat_plain(2) [of "hd (show_nat n)" n] by auto
  then show ?thesis by (simp add: int_of_string_def strip_show read_signed_def read_nat_def read_show_digits)
qed

lemma int_of_show_int: "int_of_string (show_int n) = Some n"
proof (cases "n < 0")
  case True
  have "strip (CHR ''-'' # show_nat (nat (- n))) = CHR ''-'' # show_nat (nat (- n))"
    by (rule strip_plain) (simp_all add: show_nat_ends is_space_def [of "CHR ''-''"])
  then show ?thesis using True
    by (simp add: show_int_def int_of_string_def read_signed_def read_nat_def read_show_digits)
qed (simp add: show_int_def)

end
