(* ===== verification/PropertyTypes.thy ===== *)
theory PropertyTypes
  imports PyStrings "HOL-Library.Word"
begin

text \<open>
  The types of the properties of a component (\<open>ossie/properties.py\<close>): the tables that name the
  Python type of each SCA type, the conversions \<open>to_pyvalue\<close>, \<open>_toPyComplex\<close> and \<open>to_tc_value\<close>, the
  definition of a property (\<open>_property.__init__\<close>) with the predicates over its kinds and its mode,
  and the check of the bounds of a simple value.

  A CORBA \<open>Any\<close> is represented by the Python value that it carries. Reading and printing floats as
  text is a parameter (\<open>text_format\<close>); everything else about values is written out.
\<close>

section \<open>Values\<close>

text \<open>\<open>VCF\<close> is a CF complex structure, an object with the attributes \<open>real\<close> and \<open>imag\<close>.\<close>

datatype pvalue = VNone | VBool bool | VInt int | VFloat rat | VStr string | VComplex rat rat | VCF pvalue pvalue

record text_format =
  read_float :: "string \<Rightarrow> rat option"
  show_value :: "pvalue \<Rightarrow> string"

datatype pytype = TInt | TLong | TFloat | TStr | TComplex | TObject

text \<open>\<open>getPyType\<close>: the first column of the type table; \<open>TObject\<close> stands for object references and time stamps.\<close>

definition getPyType :: "string \<Rightarrow> pytype option" where
  "getPyType t = (if t \<in> {''boolean'', ''long'', ''octet'', ''short'', ''ushort''} then Some TInt
     else if t \<in> {''longlong'', ''ulong'', ''ulonglong''} then Some TLong
     else if t \<in> {''double'', ''float'', ''longdouble''} then Some TFloat
     else if t \<in> {''char'', ''string'', ''wchar'', ''wstring''} then Some TStr
     else if t \<in> {''complexFloat'', ''complexBoolean'', ''complexULong'', ''complexShort'', ''complexOctet'',
       ''complexChar'', ''complexUShort'', ''complexDouble'', ''complexLong'', ''complexLongLong'', ''complexULongLong''}
     then Some TComplex
     else if t \<in> {''objref'', ''utctime''} then Some TObject
     else None)"

text \<open>\<open>getMemberType\<close>: the type of the two parts of a complex type.\<close>

definition getMemberType :: "string \<Rightarrow> pytype" where
  "getMemberType t = (if t \<in> {''complexFloat'', ''complexDouble''} then TFloat
     else if t = ''complexChar'' then TStr
     else if t \<in> {''complexBoolean'', ''complexShort'', ''complexOctet'', ''complexUShort''} then TInt
     else TLong)"

definition SCA_TYPES :: "string list" where
  "SCA_TYPES = [''boolean'', ''char'', ''double'', ''float'', ''short'', ''long'', ''longlong'',
     ''objref'', ''octet'', ''string'', ''ulong'', ''ushort'', ''longlong'', ''ulonglong'',
     ''complexFloat'', ''complexBoolean'', ''complexULong'', ''complexShort'',
     ''complexOctet'', ''complexChar'', ''complexUShort'', ''complexDouble'',
     ''complexLong'', ''complexLongLong'', ''complexULongLong'', ''utctime'']"

definition starts_complex :: "string \<Rightarrow> bool" where
  "starts_complex t \<longleftrightarrow> take 7 t = ''complex''"

definition mapComplexType :: "string \<Rightarrow> string outcome" where
  "mapComplexType t = (if starts_complex t then Returned t
     else case map_of [(''float'', ''complexFloat''), (''double'', ''complexDouble''), (''boolean'', ''complexBoolean''),
       (''char'', ''complexChar''), (''octet'', ''complexOctet''), (''short'', ''complexShort''),
       (''ushort'', ''complexUShort''), (''long'', ''complexLong''), (''ulong'', ''complexULong''),
       (''longlong'', ''complexLongLong''), (''ulonglong'', ''complexULongLong'')] t of
         Some c \<Rightarrow> Returned c
       | None \<Rightarrow> Raised ValueError)"

fun is_instance :: "pvalue \<Rightarrow> pytype \<Rightarrow> bool" where
  "is_instance (VBool b) TInt = True"
| "is_instance (VInt n) TInt = True"
| "is_instance (VInt n) TLong = True"
| "is_instance (VFloat x) TFloat = True"
| "is_instance (VStr s) TStr = True"
| "is_instance (VComplex x y) TComplex = True"
| "is_instance _ _ = False"

fun number_of :: "pvalue \<Rightarrow> rat option" where
  "number_of (VBool b) = Some (if b then 1 else 0)"
| "number_of (VInt n) = Some (of_int n)"
| "number_of (VFloat x) = Some x"
| "number_of _ = None"

definition make_complex :: "pvalue \<Rightarrow> pvalue \<Rightarrow> pvalue outcome" where
  "make_complex a b = (case (number_of a, number_of b) of
      (Some x, Some y) \<Rightarrow> Returned (VComplex x y)
    | _ \<Rightarrow> Raised TypeError)"

text \<open>Every Python number has the attributes \<open>real\<close> and \<open>imag\<close>.\<close>

definition parts_of :: "pvalue \<Rightarrow> (pvalue \<times> pvalue) outcome" where
  "parts_of v = (case v of
      VCF a b \<Rightarrow> Returned (a, b)
    | VComplex x y \<Rightarrow> Returned (VFloat x, VFloat y)
    | VFloat x \<Rightarrow> Returned (VFloat x, VFloat 0)
    | VInt n \<Rightarrow> Returned (VInt n, VInt 0)
    | VBool b \<Rightarrow> Returned (VInt (if b then 1 else 0), VInt 0)
    | _ \<Rightarrow> Raised AttributeError)"

definition toPyComplex :: "pvalue \<Rightarrow> pvalue outcome" where
  "toPyComplex v = (case v of
      VComplex x y \<Rightarrow> Returned (VComplex x y)
    | _ \<Rightarrow> obind (parts_of v) (\<lambda>(a, b). make_complex a b))"

text \<open>Calling a built-in type: \<open>int(v)\<close>, \<open>float(v)\<close>, \<open>str(v)\<close>.\<close>

definition upper_ascii :: "string \<Rightarrow> string" where
  "upper_ascii s = map (\<lambda>c. let n = of_char c :: nat in if 97 \<le> n \<and> n \<le> 122 then char_of (n - 32) else c) s"

definition boolean_of_text :: "string \<Rightarrow> pvalue" where
  "boolean_of_text s = (if upper_ascii (strip s) = ''TRUE'' then VInt 1
     else if upper_ascii (strip s) = ''FALSE'' then VInt 0 else VStr s)"

definition call_int :: "pvalue \<Rightarrow> pvalue outcome" where
  "call_int v = (case v of
      VStr s \<Rightarrow> (case int_of_string s of Some n \<Rightarrow> Returned (VInt n) | None \<Rightarrow> Raised ValueError)
    | _ \<Rightarrow> (case number_of v of Some x \<Rightarrow> Returned (VInt (py_int x)) | None \<Rightarrow> Raised TypeError))"

definition call_float :: "text_format \<Rightarrow> pvalue \<Rightarrow> pvalue outcome" where
  "call_float F v = (case v of
      VStr s \<Rightarrow> (case read_float F s of Some x \<Rightarrow> Returned (VFloat x) | None \<Rightarrow> Raised ValueError)
    | _ \<Rightarrow> (case number_of v of Some x \<Rightarrow> Returned (VFloat x) | None \<Rightarrow> Raised TypeError))"

definition call_str :: "text_format \<Rightarrow> pvalue \<Rightarrow> pvalue outcome" where
  "call_str F v = Returned (case v of
      VStr s \<Rightarrow> VStr s
    | VInt n \<Rightarrow> VStr (show_int n)
    | VBool b \<Rightarrow> VStr (if b then ''True'' else ''False'')
    | VNone \<Rightarrow> VStr ''None''
    | _ \<Rightarrow> VStr (show_value F v))"

definition to_pyvalue :: "text_format \<Rightarrow> string \<Rightarrow> pvalue \<Rightarrow> pvalue outcome" where
  "to_pyvalue F t v = (if v = VNone then Returned VNone else
     case getPyType t of
       None \<Rightarrow> Raised TypeError
     | Some p \<Rightarrow>
       if is_instance v p then Returned v
       else case (t = ''boolean'', v) of
         (True, VStr s) \<Rightarrow> Returned (boolean_of_text s)
       | _ \<Rightarrow>
         if starts_complex t then toPyComplex v
         else case p of
           TStr \<Rightarrow> call_str F v
         | TFloat \<Rightarrow> call_float F v
         | TObject \<Rightarrow> Raised TypeError
         | _ \<Rightarrow> (case v of
             VStr s \<Rightarrow> (case int_of_literal s of Some n \<Rightarrow> Returned (VInt n) | None \<Rightarrow> Raised ValueError)
           | _ \<Rightarrow> call_int v))"

definition call_type :: "text_format \<Rightarrow> pytype \<Rightarrow> pvalue \<Rightarrow> pvalue outcome" where
  "call_type F p v = (case p of TFloat \<Rightarrow> call_float F v | TStr \<Rightarrow> call_str F v | _ \<Rightarrow> call_int v)"

definition convertComplexToCFComplex :: "text_format \<Rightarrow> string \<Rightarrow> pvalue \<Rightarrow> pvalue outcome" where
  "convertComplexToCFComplex F t v = (if getPyType t \<noteq> Some TComplex then Raised KeyError
     else obind (parts_of v) (\<lambda>(a, b).
       obind (call_type F (getMemberType t) a) (\<lambda>x.
       obind (call_type F (getMemberType t) b) (\<lambda>y. Returned (VCF x y)))))"

text \<open>\<open>to_tc_value\<close> without an alternative type map, for the value that it puts into the \<open>Any\<close>.\<close>

definition to_tc_value :: "text_format \<Rightarrow> string \<Rightarrow> pvalue \<Rightarrow> pvalue outcome" where
  "to_tc_value F t v = (if v = VNone then Returned VNone
     else if starts_complex t then convertComplexToCFComplex F t v
     else if t = ''utctime'' then Returned v
     else case getPyType t of
       None \<Rightarrow> Returned v
     | Some p \<Rightarrow> if is_instance v p then Returned v else to_pyvalue F t v)"

end
