(* ===== verification/PropertyBounds.thy ===== *)
theory PropertyBounds
  imports PropertyTypes
begin

text \<open>
  The definition of a property: its attributes and the predicates over its kinds and mode, and
  \<open>_checkBoundsOfSimpleProperty\<close>. The bounds of the integer types are those of machine words: a
  value passes exactly when the word of that width and signedness holds it. For \<open>complexULong\<close> the
  table has a mistyped key, so that no value of that type is ever checked.
\<close>

section \<open>Property definitions\<close>

datatype property_class = SimpleProperty | SimpleSeqProperty

record property_def =
  propid :: string
  class_of :: property_class
  typename :: string
  propname :: string
  mode :: string
  action :: string
  kinds :: "string list"
  is_complex :: bool

definition property_init ::
    "property_class \<Rightarrow> string \<Rightarrow> string \<Rightarrow> string option \<Rightarrow> string \<Rightarrow> string \<Rightarrow> string list \<Rightarrow> bool \<Rightarrow> property_def outcome" where
  "property_init cls i t n m a ks cx = (if t \<notin> set SCA_TYPES then Raised ValueError
     else obind (if cx then mapComplexType t else Returned t) (\<lambda>t'.
       Returned \<lparr>propid = i, class_of = cls, typename = t', propname = (case n of None \<Rightarrow> i | Some x \<Rightarrow> x), mode = m,
         action = a, kinds = ks, is_complex = cx\<rparr>))"

definition isWritable :: "property_def \<Rightarrow> bool" where
  "isWritable p \<longleftrightarrow> mode p \<in> {''writeonly'', ''readwrite''}"

definition isReadable :: "property_def \<Rightarrow> bool" where
  "isReadable p \<longleftrightarrow> mode p \<in> {''readonly'', ''readwrite''}"

definition isProperty :: "property_def \<Rightarrow> bool" where
  "isProperty p \<longleftrightarrow> ''property'' \<in> set (kinds p)"

definition isConfigurable :: "property_def \<Rightarrow> bool" where
  "isConfigurable p \<longleftrightarrow> (''configure'' \<in> set (kinds p) \<or> isProperty p) \<and> isWritable p"

definition isAllocatable :: "property_def \<Rightarrow> bool" where
  "isAllocatable p \<longleftrightarrow> ''allocation'' \<in> set (kinds p) \<and> action p = ''external''"

definition isQueryable :: "property_def \<Rightarrow> bool" where
  "isQueryable p \<longleftrightarrow>
     (''configure'' \<in> set (kinds p) \<or> ''property'' \<in> set (kinds p) \<or> ''execparam'' \<in> set (kinds p)
      \<or> (''allocation'' \<in> set (kinds p) \<and> action p = ''external'')) \<and> isReadable p"

definition isSendEventChange :: "property_def \<Rightarrow> bool" where
  "isSendEventChange p \<longleftrightarrow> ''event'' \<in> set (kinds p) \<and>
     (''configure'' \<in> set (kinds p) \<or> ''property'' \<in> set (kinds p)
      \<or> (''allocation'' \<in> set (kinds p) \<and> action p = ''external''))"

section \<open>Bounds\<close>

definition realBounds :: "(string \<times> (int \<times> int)) list" where
  "realBounds = [(''octet'', (0, 256)), (''short'', (-32768, 32768)), (''ushort'', (0, 65536)),
     (''long'', (-2147483648, 2147483648)), (''ulong'', (0, 4294967296)),
     (''longlong'', (-9223372036854775808, 9223372036854775808)), (''ulonglong'', (0, 18446744073709551616))]"

definition complexBounds :: "(string \<times> string) list" where
  "complexBounds = [(''complexOctet'', ''octet''), (''complexShort'', ''short''), (''complexUShort'', ''ushort''),
     (''complexLong'', ''long''), (''complexULong:'', ''ulong''), (''complexLongLong'', ''longlong''),
     (''complexULongLong'', ''ulonglong'')]"

text \<open>
  \<open>Bounds.inBounds\<close>. Python 2 orders values of different types too: \<open>None\<close> is below every number and
  every string above it; complex numbers cannot be compared.
\<close>

definition inBounds :: "int \<times> int \<Rightarrow> pvalue \<Rightarrow> bool outcome" where
  "inBounds b v = (case v of
      VNone \<Rightarrow> Returned False
    | VStr s \<Rightarrow> Returned False
    | _ \<Rightarrow> (case number_of v of
        Some x \<Rightarrow> Returned (of_int (fst b) \<le> x \<and> x < of_int (snd b))
      | None \<Rightarrow> Raised TypeError))"

definition checkBoundsOfSimpleProperty :: "string \<Rightarrow> pvalue \<Rightarrow> bool outcome" where
  "checkBoundsOfSimpleProperty t v =
     (case map_of complexBounds t of
        Some r \<Rightarrow> obind (parts_of v) (\<lambda>(a, b).
          (case map_of realBounds r of
             Some bs \<Rightarrow> obind (inBounds bs a) (\<lambda>ok. if ok then inBounds bs b else Returned False)
           | None \<Rightarrow> Raised KeyError))
      | None \<Rightarrow> (case map_of realBounds t of Some bs \<Rightarrow> inBounds bs v | None \<Rightarrow> Returned True))"

text \<open>The value of a property: one value or a sequence of values; octet and char sequences are strings.\<close>

datatype pobj = Single pvalue | PyList "pvalue list" | PyTuple "pvalue list" | PyDict "(string, pvalue) dict"

definition checkSimple :: "string \<Rightarrow> pvalue \<Rightarrow> unit outcome" where
  "checkSimple t v = (if v = VNone then Returned ()
     else obind (checkBoundsOfSimpleProperty t v) (\<lambda>ok. if ok then Returned () else Raised ValueError))"

fun check_items :: "string \<Rightarrow> pvalue list \<Rightarrow> unit outcome" where
  "check_items t [] = Returned ()"
| "check_items t (v # vs) = obind (checkSimple t v) (\<lambda>_. check_items t vs)"

text \<open>\<open>for val in value\<close>: the values of a list, the keys of a dictionary, the characters of a string.\<close>

definition items_in :: "pobj \<Rightarrow> pvalue list outcome" where
  "items_in v = (case v of
      PyList vs \<Rightarrow> Returned vs
    | PyTuple vs \<Rightarrow> Returned vs
    | PyDict d \<Rightarrow> Returned (map (VStr \<circ> fst) d)
    | Single (VStr s) \<Rightarrow> Returned (map (\<lambda>c. VStr [c]) s)
    | Single _ \<Rightarrow> Raised TypeError)"

definition checkValue :: "property_def \<Rightarrow> pobj \<Rightarrow> unit outcome" where
  "checkValue p v = (if v = Single VNone then Returned ()
     else case class_of p of
       SimpleProperty \<Rightarrow> (case v of
           Single x \<Rightarrow> checkSimple (typename p) x
         | _ \<Rightarrow> Raised TypeError)
     | SimpleSeqProperty \<Rightarrow> (case (typename p = ''octet'', v) of
           (True, Single (VStr s)) \<Rightarrow> check_items (typename p) (map (\<lambda>c. VInt (int (of_char c))) s)
         | _ \<Rightarrow> obind (items_in v) (check_items (typename p))))"

section \<open>The bounds are those of machine words\<close>

lemma inBounds_int: "inBounds b (VInt n) = Returned (fst b \<le> n \<and> n < snd b)"
  by (simp add: inBounds_def)

lemma bounds_table:
  "map_of complexBounds t = None \<Longrightarrow> map_of realBounds t = Some b \<Longrightarrow>
   checkBoundsOfSimpleProperty t (VInt n) = Returned (fst b \<le> n \<and> n < snd b)"
  by (simp add: checkBoundsOfSimpleProperty_def inBounds_int)

lemma fits_unsigned: "uint (word_of_int n :: 'a :: len word) = n \<longleftrightarrow> 0 \<le> n \<and> n < 2 ^ LENGTH('a)"
  by (simp add: take_bit_int_eq_self_iff unsigned_of_int)

lemma fits_signed:
  "sint (word_of_int n :: 'a :: len word) = n \<longleftrightarrow> - (2 ^ (LENGTH('a) - 1)) \<le> n \<and> n < 2 ^ (LENGTH('a) - 1)"
  by (simp add: signed_of_int signed_take_bit_int_eq_self_iff)

definition verdict :: "bool \<Rightarrow> unit outcome" where
  "verdict b = (if b then Returned () else Raised ValueError)"

lemma checkSimple_verdict: "v \<noteq> VNone \<Longrightarrow> checkBoundsOfSimpleProperty t v = Returned b \<Longrightarrow> checkSimple t v = verdict b"
  by (simp add: checkSimple_def verdict_def)

text \<open>
  C35: An integer passes the bounds check of an integer type exactly when the machine word of that
  width and signedness holds it; otherwise the check raises \<open>ValueError\<close>. A complex value passes when
  both parts lie within the bounds of the type of the parts, except that for \<open>complexULong\<close>, whose key
  in the table is misspelt, every value passes.
\<close>

theorem bounds_are_word_ranges:
  "checkSimple ''octet'' (VInt n) = verdict (uint (word_of_int n :: 8 word) = n) \<and>
   checkSimple ''ushort'' (VInt n) = verdict (uint (word_of_int n :: 16 word) = n) \<and>
   checkSimple ''ulong'' (VInt n) = verdict (uint (word_of_int n :: 32 word) = n) \<and>
   checkSimple ''ulonglong'' (VInt n) = verdict (uint (word_of_int n :: 64 word) = n) \<and>
   checkSimple ''short'' (VInt n) = verdict (sint (word_of_int n :: 16 word) = n) \<and>
   checkSimple ''long'' (VInt n) = verdict (sint (word_of_int n :: 32 word) = n) \<and>
   checkSimple ''longlong'' (VInt n) = verdict (sint (word_of_int n :: 64 word) = n) \<and>
   checkSimple ''complexOctet'' (VComplex x y) = verdict (0 \<le> x \<and> x < 256 \<and> 0 \<le> y \<and> y < 256) \<and>
   checkSimple ''complexULong'' (VComplex x y) = verdict True"
proof -
  note tables = checkSimple_verdict bounds_table fits_unsigned fits_signed complexBounds_def realBounds_def
  have cx: "checkBoundsOfSimpleProperty ''complexOctet'' (VComplex x y) = Returned (0 \<le> x \<and> x < 256 \<and> 0 \<le> y \<and> y < 256)"
    by (auto simp: checkBoundsOfSimpleProperty_def complexBounds_def realBounds_def parts_of_def inBounds_def)
  have ul: "checkBoundsOfSimpleProperty ''complexULong'' (VComplex x y) = Returned True"
    by (simp add: checkBoundsOfSimpleProperty_def complexBounds_def realBounds_def)
  show ?thesis by (simp add: tables checkSimple_verdict [OF _ cx] checkSimple_verdict [OF _ ul])
qed

text \<open>A sequence passes when each of its items does, and the first that fails raises.\<close>

lemma check_items_all: "check_items t vs = Returned () \<longleftrightarrow> (\<forall>v \<in> set vs. checkSimple t v = Returned ())"
  by (induction t vs rule: check_items.induct) (auto simp: obind_Returned_iff)

lemma kinds_laws:
  "isProperty p \<and> isWritable p \<Longrightarrow> isConfigurable p"
  "isConfigurable p \<and> isReadable p \<Longrightarrow> isQueryable p"
  "isAllocatable p \<and> isReadable p \<Longrightarrow> isQueryable p"
  by (auto simp: isConfigurable_def isQueryable_def isAllocatable_def isProperty_def)

end
