(* ===== verification/PropertyIds.thy ===== *)
theory PropertyIds
  imports PropertyBounds Actions
begin

text \<open>
  The directory part of \<open>PropertyStorage\<close>: splitting an identifier into a property ID and a sequence
  operator, registering properties under their ID and their name, and looking them up. \<open>splitId\<close> is
  characterised completely; the directory built by \<open>_addProperty\<close> keeps both maps consistent, so that
  an ID and the name of the same property lead to the same definition.
\<close>

section \<open>Identifiers and operators\<close>

definition splitId :: "string \<Rightarrow> (string \<times> string option) outcome" where
  "splitId p = (if p = [] then Raised IndexError
     else if last p = CHR '']'' then
       (case rindex (CHR ''['') p of
          Some i \<Rightarrow> Returned (take i p @ ''[]'', Some (drop i p))
        | None \<Rightarrow> Returned (p, None))
     else Returned (p, None))"

definition bare_id :: "string \<Rightarrow> string outcome" where
  "bare_id p = omap fst (splitId p)"

lemma splitId_operator:
  "CHR ''['' \<notin> set body \<Longrightarrow>
   splitId (base @ ''['' @ body @ '']'') = Returned (base @ ''[]'', Some (''['' @ body @ '']''))"
  using rindex_last [of "CHR ''[''" "body @ '']''" base] by (simp add: splitId_def)

lemma splitId_plain: "p \<noteq> [] \<Longrightarrow> last p \<noteq> CHR '']'' \<or> CHR ''['' \<notin> set p \<Longrightarrow> splitId p = Returned (p, None)"
  by (auto simp: splitId_def rindex_None)

lemma last_split: "x \<in> set xs \<Longrightarrow> \<exists>ys zs. xs = ys @ x # zs \<and> x \<notin> set zs"
  by (rule split_list_last) 

lemma splitId_cases:
  assumes "p \<noteq> []"
  obtains "last p \<noteq> CHR '']'' \<or> CHR ''['' \<notin> set p" "splitId p = Returned (p, None)"
  | base body where "CHR ''['' \<notin> set body" "p = base @ ''['' @ body @ '']''"
      "splitId p = Returned (base @ ''[]'', Some (''['' @ body @ '']''))"
proof (cases "last p = CHR '']'' \<and> CHR ''['' \<in> set p")
  case False then show ?thesis using that(1) splitId_plain [OF assms] by blast
next
  case True
  then obtain base rest where p: "p = base @ CHR ''['' # rest" "CHR ''['' \<notin> set rest" using last_split by metis
  then have "rest \<noteq> []" "last rest = CHR '']''" using True by (auto split: if_splits)
  then obtain body where "rest = body @ '']''" by (metis append_butlast_last_id)
  then show ?thesis using p that(2) [of body base] splitId_operator [of body base] by simp
qed

text \<open>
  An identifier is split at its last opening bracket when it ends in a closing one: the operator is
  the text from that bracket on, the ID is what stands before it with an empty pair of brackets. The
  result has no operator exactly when the identifier does not end in a closing bracket or has no
  opening one, and is then the identifier itself. The empty identifier raises \<open>IndexError\<close>.
  Splitting the resulting ID again gives the same ID.
\<close>

theorem splitId_specification:
  "splitId [] = Raised IndexError \<and>
   (splitId p = Returned (i, Some op) \<longleftrightarrow>
      (\<exists>base body. CHR ''['' \<notin> set body \<and> p = base @ ''['' @ body @ '']'' \<and> i = base @ ''[]'' \<and> op = ''['' @ body @ '']'')) \<and>
   (splitId p = Returned (i, None) \<longleftrightarrow>
      p \<noteq> [] \<and> i = p \<and> (last p \<noteq> CHR '']'' \<or> CHR ''['' \<notin> set p)) \<and>
   (bare_id p = Returned i \<longrightarrow> bare_id i = Returned i)"
proof (intro conjI)
  show "splitId [] = Raised IndexError" by (simp add: splitId_def)
  show "splitId p = Returned (i, Some op) \<longleftrightarrow>
      (\<exists>base body. CHR ''['' \<notin> set body \<and> p = base @ ''['' @ body @ '']'' \<and> i = base @ ''[]'' \<and> op = ''['' @ body @ '']'')"
    (is "?L = ?R")
  proof
    assume L: ?L
    then have "p \<noteq> []" by (auto simp: splitId_def)
    then show ?R
    proof (cases rule: splitId_cases)
      case (2 base body)
      have "i = base @ ''[]''" "op = ''['' @ body @ '']''" using L unfolding 2(3) by simp_all
      then show ?R using 2(1,2) by blast
    qed (use L in simp)
  next
    assume ?R then show ?L using splitId_operator by blast
  qed
  show "splitId p = Returned (i, None) \<longleftrightarrow> p \<noteq> [] \<and> i = p \<and> (last p \<noteq> CHR '']'' \<or> CHR ''['' \<notin> set p)" (is "?L = ?R")
  proof
    assume L: ?L
    then have p: "p \<noteq> []" by (auto simp: splitId_def)
    then show ?R by (cases rule: splitId_cases) (use L p in simp_all)
  next
    assume ?R then show ?L using splitId_plain by blast
  qed
  show "bare_id p = Returned i \<longrightarrow> bare_id i = Returned i"
  proof
    assume b: "bare_id p = Returned i"
    then have "p \<noteq> []" by (auto simp: bare_id_def splitId_def)
    then show "bare_id i = Returned i"
    proof (cases rule: splitId_cases)
      case (2 base body)
      have "i = base @ ''[]''" using b unfolding bare_id_def 2(3) by simp
      then show ?thesis using splitId_operator [of "[]" base] by (simp add: bare_id_def)
    qed (use b in \<open>simp add: bare_id_def\<close>)
  qed
qed

theorem splitId_specification_witness:
  "splitId ''taps[3]'' = Returned (''taps[]'', Some ''[3]'') \<and> bare_id ''taps[]'' = Returned ''taps[]'' \<and>
   splitId ''gain'' = Returned (''gain'', None)"
proof -
  have "splitId ''taps[3]'' = Returned (''taps[]'', Some ''[3]'')" by code_simp
  moreover from this have "bare_id ''taps[3]'' = Returned ''taps[]''" by (simp add: bare_id_def)
  then have "bare_id ''taps[]'' = Returned ''taps[]''" using splitId_specification [of "''taps[3]''" "''taps[]''"] by blast
  moreover have "splitId ''gain'' = Returned (''gain'', None)"
    using splitId_specification [of "''gain''" "''gain''"] by simp
  ultimately show ?thesis by blast
qed

section \<open>The directory of properties\<close>

record storage =
  properties :: "(string, property_def) dict"
  name_map :: "(string, string) dict"

definition PropertyStorage_empty :: storage where
  "PropertyStorage_empty = \<lparr>properties = [], name_map = []\<rparr>"

definition addProperty :: "property_def \<Rightarrow> storage \<Rightarrow> storage outcome" where
  "addProperty p st = (if dget (properties st) (propid p) \<noteq> None then Raised KeyError
     else if dget (name_map st) (propname p) \<noteq> None then Raised KeyError
     else Returned (st\<lparr>properties := dput (propid p) p (properties st),
                       name_map := dput (propname p) (propid p) (name_map st)\<rparr>))"

text \<open>\<open>_loadProperties\<close>, over the property attributes of the class of the component.\<close>

fun loadProperties :: "property_def list \<Rightarrow> storage \<Rightarrow> storage outcome" where
  "loadProperties [] st = Returned st"
| "loadProperties (p # ps) st = obind (addProperty p st) (loadProperties ps)"

definition lookup_id :: "storage \<Rightarrow> string \<Rightarrow> property_def outcome" where
  "lookup_id st i = (case dget (properties st) i of Some p \<Rightarrow> Returned p | None \<Rightarrow> Raised KeyError)"

definition getPropId :: "storage \<Rightarrow> string \<Rightarrow> string outcome" where
  "getPropId st n = (case dget (name_map st) n of Some i \<Rightarrow> Returned i | None \<Rightarrow> Raised KeyError)"

definition getPropDef :: "storage \<Rightarrow> string \<Rightarrow> property_def outcome" where
  "getPropDef st i = obind (bare_id i) (lookup_id st)"

definition getPropName :: "storage \<Rightarrow> string \<Rightarrow> string outcome" where
  "getPropName st i = omap propname (getPropDef st i)"

definition has_id :: "storage \<Rightarrow> string \<Rightarrow> bool outcome" where
  "has_id st i = omap (\<lambda>j. dget (properties st) j \<noteq> None) (bare_id i)"

definition has_key :: "storage \<Rightarrow> string \<Rightarrow> bool outcome" where
  "has_key st k = obind (bare_id k) (\<lambda>j. if dget (properties st) j \<noteq> None then Returned True
     else case dget (name_map st) k of
       None \<Rightarrow> Returned False
     | Some i \<Rightarrow> Returned (dget (properties st) i \<noteq> None))"

definition storage_isQueryable :: "storage \<Rightarrow> string \<Rightarrow> bool outcome" where
  "storage_isQueryable st i = omap isQueryable (getPropDef st i)"

definition storage_isConfigurable :: "storage \<Rightarrow> string \<Rightarrow> bool outcome" where
  "storage_isConfigurable st i = omap isConfigurable (getPropDef st i)"

definition storage_isProperty :: "storage \<Rightarrow> string \<Rightarrow> bool outcome" where
  "storage_isProperty st i = omap isProperty (getPropDef st i)"

definition storage_isAllocatable :: "storage \<Rightarrow> string \<Rightarrow> bool outcome" where
  "storage_isAllocatable st i = omap isAllocatable (getPropDef st i)"

definition storage_isWritable :: "storage \<Rightarrow> string \<Rightarrow> bool outcome" where
  "storage_isWritable st i = omap isWritable (getPropDef st i)"

definition storage_isReadable :: "storage \<Rightarrow> string \<Rightarrow> bool outcome" where
  "storage_isReadable st i = omap isReadable (getPropDef st i)"

definition storage_isSendEventChange :: "storage \<Rightarrow> string \<Rightarrow> bool outcome" where
  "storage_isSendEventChange st i = obind (bare_id i) (\<lambda>j.
     Returned (case dget (properties st) j of Some p \<Rightarrow> isSendEventChange p | None \<Rightarrow> False))"

text \<open>\<open>__getitem__\<close> and \<open>__setitem__\<close> look a key up as an ID first, then as a name.\<close>

definition resolve_key :: "storage \<Rightarrow> string \<Rightarrow> property_def outcome" where
  "resolve_key st k = (case dget (properties st) k of
      Some p \<Rightarrow> Returned p
    | None \<Rightarrow> obind (getPropId st k) (lookup_id st))"

definition storage_ok :: "storage \<Rightarrow> bool" where
  "storage_ok st \<longleftrightarrow> dict_ok (properties st) \<and> dict_ok (name_map st) \<and>
     (\<forall>i p. dget (properties st) i = Some p \<longrightarrow> propid p = i \<and> dget (name_map st) (propname p) = Some i) \<and>
     (\<forall>n i. dget (name_map st) n = Some i \<longrightarrow> (\<exists>p. dget (properties st) i = Some p \<and> propname p = n))"

lemma storage_empty_ok [simp]: "storage_ok PropertyStorage_empty"
  by (simp add: storage_ok_def PropertyStorage_empty_def)

lemma addProperty_ok: "storage_ok st \<Longrightarrow> addProperty p st = Returned st' \<Longrightarrow> storage_ok st'"
  by (auto simp: storage_ok_def addProperty_def split: if_splits) force+

lemma addProperty_fresh:
  "addProperty p st = Returned st' \<longleftrightarrow>
   dget (properties st) (propid p) = None \<and> dget (name_map st) (propname p) = None \<and>
   st' = st\<lparr>properties := dput (propid p) p (properties st), name_map := dput (propname p) (propid p) (name_map st)\<rparr>"
  by (auto simp: addProperty_def)

lemma loadProperties_ok: "storage_ok st \<Longrightarrow> loadProperties ps st = Returned st' \<Longrightarrow> storage_ok st'"
  by (induction ps st rule: loadProperties.induct) (auto simp: obind_Returned_iff intro: addProperty_ok)

lemma loadProperties_step:
  obtains (taken) e where "dget (properties st) (propid p) \<noteq> None \<or> dget (name_map st) (propname p) \<noteq> None"
      "loadProperties (p # ps) st = Raised e"
  | (fresh) s where "dget (properties st) (propid p) = None" "dget (name_map st) (propname p) = None"
      "loadProperties (p # ps) st = loadProperties ps s"
      "\<And>i. dget (properties s) i = (if i = propid p then Some p else dget (properties st) i)"
      "\<And>n. dget (name_map s) n = (if n = propname p then Some (propid p) else dget (name_map st) n)"
proof (cases "dget (properties st) (propid p) = None \<and> dget (name_map st) (propname p) = None")
  case True
  then show ?thesis by (intro fresh) (auto simp: addProperty_def)
next
  case False
  then show ?thesis by (intro taken [of KeyError]) (auto simp: addProperty_def)
qed

lemma loadProperties_entries:
  "loadProperties ps st = Returned st' \<Longrightarrow>
   dget (properties st') i = Some p \<longleftrightarrow> p \<in> set ps \<and> propid p = i \<or> dget (properties st) i = Some p"
proof (induction ps arbitrary: st)
  case (Cons q ps)
  show ?case
  proof (cases rule: loadProperties_step [of st q ps])
    case (fresh s)
    have l: "loadProperties ps s = Returned st'" using Cons.prems unfolding fresh(3) .
    show ?thesis unfolding Cons.IH [OF l] fresh(4) using fresh(1) by auto
  qed (use Cons.prems in simp)
qed simp

lemma loadProperties_succeeds:
  "(\<exists>st'. loadProperties ps st = Returned st') \<longleftrightarrow> distinct (map propid ps) \<and> distinct (map propname ps) \<and>
   (\<forall>p \<in> set ps. dget (properties st) (propid p) = None \<and> dget (name_map st) (propname p) = None)"
proof (induction ps arbitrary: st)
  case (Cons q ps)
  show ?case
  proof (cases rule: loadProperties_step [of st q ps])
    case (fresh s)
    show ?thesis unfolding fresh(3) Cons.IH fresh(4,5) using fresh(1,2) by (auto simp: image_iff)
  next
    case (taken e)
    then show ?thesis by auto
  qed
qed simp

lemma storage_lookup:
  assumes "storage_ok st" "dget (properties st) (propid p) = Some p"
  shows "resolve_key st (propid p) = Returned p"
    "dget (properties st) (propname p) = None \<Longrightarrow> resolve_key st (propname p) = Returned p"
    "getPropId st (propname p) = Returned (propid p)"
proof -
  have n: "dget (name_map st) (propname p) = Some (propid p)"
    using assms(1) [unfolded storage_ok_def, THEN conjunct2, THEN conjunct2, THEN conjunct1, rule_format, OF assms(2)] by simp
  show "resolve_key st (propid p) = Returned p" "getPropId st (propname p) = Returned (propid p)"
    "dget (properties st) (propname p) = None \<Longrightarrow> resolve_key st (propname p) = Returned p"
    by (simp_all add: resolve_key_def getPropId_def lookup_id_def assms(2) n)
qed

text \<open>
  The class attributes of a component load exactly when their IDs are distinct and their names are
  distinct. Every loaded property is then found under its ID, under its name (unless the name is also an
  ID) and in the map of names, nothing else is stored, and its definition is found through \<open>splitId\<close>
  exactly when splitting leaves its ID alone.
\<close>

theorem properties_load:
  "(\<exists>st. loadProperties ps PropertyStorage_empty = Returned st) \<longleftrightarrow> distinct (map propid ps) \<and> distinct (map propname ps)"
  "loadProperties ps PropertyStorage_empty = Returned st \<Longrightarrow>
     storage_ok st \<and> (\<forall>i p. dget (properties st) i = Some p \<longleftrightarrow> p \<in> set ps \<and> propid p = i) \<and>
     (\<forall>p \<in> set ps. resolve_key st (propid p) = Returned p \<and> getPropId st (propname p) = Returned (propid p) \<and>
        (propname p \<notin> propid ` set ps \<longrightarrow> resolve_key st (propname p) = Returned p) \<and>
        (bare_id (propid p) = Returned (propid p) \<longrightarrow> getPropDef st (propid p) = Returned p))"
proof -
  show "(\<exists>st. loadProperties ps PropertyStorage_empty = Returned st) \<longleftrightarrow> distinct (map propid ps) \<and> distinct (map propname ps)"
    by (simp add: loadProperties_succeeds) (simp add: PropertyStorage_empty_def)
  assume l: "loadProperties ps PropertyStorage_empty = Returned st"
  have ok: "storage_ok st" by (rule loadProperties_ok [OF _ l]) simp
  have e: "dget (properties st) i = Some p \<longleftrightarrow> p \<in> set ps \<and> propid p = i" for i p
    unfolding loadProperties_entries [OF l] by (simp add: PropertyStorage_empty_def)
  have n: "dget (properties st) i = None" if "i \<notin> propid ` set ps" for i
  proof (cases "dget (properties st) i")
    case (Some p)
    then have "p \<in> set ps \<and> propid p = i" by (simp only: e)
    then show ?thesis using that by blast
  qed simp
  show "storage_ok st \<and> (\<forall>i p. dget (properties st) i = Some p \<longleftrightarrow> p \<in> set ps \<and> propid p = i) \<and>
     (\<forall>p \<in> set ps. resolve_key st (propid p) = Returned p \<and> getPropId st (propname p) = Returned (propid p) \<and>
        (propname p \<notin> propid ` set ps \<longrightarrow> resolve_key st (propname p) = Returned p) \<and>
        (bare_id (propid p) = Returned (propid p) \<longrightarrow> getPropDef st (propid p) = Returned p))"
  proof (intro conjI ballI)
    fix p assume "p \<in> set ps"
    then have p: "dget (properties st) (propid p) = Some p" by (simp add: e)
    note l = storage_lookup [OF ok p]
    show "resolve_key st (propid p) = Returned p" "getPropId st (propname p) = Returned (propid p)"
      "propname p \<notin> propid ` set ps \<longrightarrow> resolve_key st (propname p) = Returned p"
      using l n by simp_all
    show "bare_id (propid p) = Returned (propid p) \<longrightarrow> getPropDef st (propid p) = Returned p"
      by (simp add: getPropDef_def lookup_id_def p)
  qed (use ok e in simp_all)
qed

end
