(* ===== verification/SequenceOperators.thy ===== *)
theory SequenceOperators
  imports PropertyBounds
begin

text \<open>
  The sequence operators of \<open>_sequence_property\<close>: \<open>[]\<close> and \<open>[*]\<close> (all values), \<open>[?]\<close> (keys), \<open>[@]\<close>
  (pairs of key and value, also for assignment), \<open>[#]\<close> (the number of values) and the slices
  \<open>[i,j,k]\<close> and \<open>[lower:upper]\<close>, on lists, tuples and dictionaries, with Python's treatment of negative
  and large indices. What \<open>[@]\<close> answers can be assigned back; a slice by indices answers the indexed
  values; an assignment that fails half way leaves a changed list.
\<close>

section \<open>Indexing\<close>

definition py_index :: "nat \<Rightarrow> int \<Rightarrow> nat option" where
  "py_index n i = (if 0 \<le> i \<and> i < int n then Some (nat i)
     else if - int n \<le> i \<and> i < 0 then Some (nat (i + int n)) else None)"

definition slice_end :: "nat \<Rightarrow> int \<Rightarrow> nat" where
  "slice_end n i = (if i < 0 then nat (max 0 (i + int n)) else min n (nat i))"

definition slice_of :: "'a list \<Rightarrow> int \<Rightarrow> int \<Rightarrow> 'a list" where
  "slice_of xs lo up = drop (slice_end (length xs) lo) (take (slice_end (length xs) up) xs)"

definition item_at :: "'a list \<Rightarrow> int \<Rightarrow> 'a outcome" where
  "item_at xs i = (case py_index (length xs) i of Some k \<Rightarrow> Returned (xs ! k) | None \<Rightarrow> Raised IndexError)"

definition parse_int :: "string \<Rightarrow> int outcome" where
  "parse_int s = (case int_of_string s of Some i \<Rightarrow> Returned i | None \<Rightarrow> Raised ValueError)"

fun collect_outcomes :: "('a \<Rightarrow> 'b outcome) \<Rightarrow> 'a list \<Rightarrow> 'b list outcome" where
  "collect_outcomes f [] = Returned []"
| "collect_outcomes f (x # xs) = obind (f x) (\<lambda>y. omap (Cons y) (collect_outcomes f xs))"

lemma collect_Returned [simp]: "(\<And>x. x \<in> set xs \<Longrightarrow> f x = Returned (g x)) \<Longrightarrow> collect_outcomes f xs = Returned (map g xs)"
  by (induction xs) auto

lemma collect_inverse: "collect_outcomes f xs = Returned ys \<longleftrightarrow> list_all2 (\<lambda>x y. f x = Returned y) xs ys"
  by (induction f xs arbitrary: ys rule: collect_outcomes.induct)
    (auto simp: obind_Returned_iff omap_Returned_iff list_all2_Cons1)

section \<open>Query operators\<close>

definition dvalues :: "('k, 'v) dict \<Rightarrow> 'v list" where
  "dvalues d = map snd d"

text \<open>Strings are sequences of one-character strings; other single values have no items.\<close>

definition getDefaultOperator :: "pobj \<Rightarrow> pobj" where
  "getDefaultOperator v = (case v of PyDict d \<Rightarrow> PyList (dvalues d) | _ \<Rightarrow> v)"

definition py_len :: "pobj \<Rightarrow> nat outcome" where
  "py_len v = (case v of
      PyList vs \<Rightarrow> Returned (length vs)
    | PyTuple vs \<Rightarrow> Returned (length vs)
    | PyDict d \<Rightarrow> Returned (length d)
    | Single (VStr s) \<Rightarrow> Returned (length s)
    | Single _ \<Rightarrow> Raised TypeError)"

definition getKeysOperator :: "pobj \<Rightarrow> pvalue list outcome" where
  "getKeysOperator v = (case v of
      PyDict d \<Rightarrow> Returned (map VStr (dkeys d))
    | _ \<Rightarrow> omap (\<lambda>n. map (\<lambda>i. VInt (int i)) [0..<n]) (py_len v))"

definition getKeyValuePairsOperator :: "pobj \<Rightarrow> (string \<times> pvalue) list outcome" where
  "getKeyValuePairsOperator v = (case v of
      PyDict d \<Rightarrow> Returned d
    | _ \<Rightarrow> omap (\<lambda>vs. zip (map show_nat [0..<length vs]) vs) (items_in v))"

definition lower_bound :: "string \<Rightarrow> int outcome" where
  "lower_bound s = (if s = [] then Returned 0 else parse_int s)"

definition upper_bound :: "nat \<Rightarrow> string \<Rightarrow> int outcome" where
  "upper_bound n s = (if s = [] then Returned (int n) else parse_int s)"

definition operator_indexes :: "string \<Rightarrow> string list" where
  "operator_indexes op = map strip (split_on (CHR '','') (butlast (tl op)))"

definition getSliceOperator :: "pobj \<Rightarrow> string \<Rightarrow> pobj outcome" where
  "getSliceOperator v op = (let indexes = operator_indexes op in
     case v of
       PyDict d \<Rightarrow> omap PyList
         (collect_outcomes (\<lambda>i. case dget d i of Some x \<Rightarrow> Returned x | None \<Rightarrow> Raised KeyError) indexes)
     | _ \<Rightarrow>
       if length indexes = 1 \<and> CHR '':'' \<in> set (hd indexes) then
         obind (lower_bound (fst (split_once (CHR '':'') (hd indexes)))) (\<lambda>lo.
         obind (py_len v) (\<lambda>n.
         obind (upper_bound n (snd (split_once (CHR '':'') (hd indexes)))) (\<lambda>up.
           case v of
             PyList vs \<Rightarrow> Returned (PyList (slice_of vs lo up))
           | PyTuple vs \<Rightarrow> Returned (PyTuple (slice_of vs lo up))
           | Single (VStr s) \<Rightarrow> Returned (Single (VStr (slice_of s lo up)))
           | _ \<Rightarrow> Raised TypeError)))
       else omap PyList (obind (items_in v) (\<lambda>vs.
         collect_outcomes (\<lambda>i. obind (parse_int i) (item_at vs)) indexes)))"

section \<open>Assignment by pairs\<close>

text \<open>
  \<open>_setKeyValuePairsOperator\<close> changes the old object: the result is the value it returns or the
  exception, together with the object as it is then.
\<close>

fun set_entries :: "(string \<times> pvalue) list \<Rightarrow> (string, pvalue) dict \<Rightarrow> unit outcome \<times> (string, pvalue) dict" where
  "set_entries [] d = (Returned (), d)"
| "set_entries ((k, x) # ps) d = (if dget d k \<noteq> None then set_entries ps (dput k x d) else (Raised ValueError, d))"

fun set_items :: "(string \<times> pvalue) list \<Rightarrow> pvalue list \<Rightarrow> unit outcome \<times> pvalue list" where
  "set_items [] vs = (Returned (), vs)"
| "set_items ((k, x) # ps) vs = (case parse_int k of
      Returned i \<Rightarrow> (case py_index (length vs) i of
          Some n \<Rightarrow> set_items ps (vs[n := x])
        | None \<Rightarrow> (Raised IndexError, vs))
    | Raised e \<Rightarrow> (Raised e, vs)
    | Blocked \<Rightarrow> (Blocked, vs))"

definition setKeyValuePairsOperator :: "pobj \<Rightarrow> (string \<times> pvalue) list \<Rightarrow> pobj outcome \<times> pobj" where
  "setKeyValuePairsOperator old new = (case old of
      PyDict d \<Rightarrow> (let (r, d') = set_entries new d in (omap (\<lambda>_. PyDict d') r, PyDict d'))
    | PyList vs \<Rightarrow> (let (r, vs') = set_items new vs in (omap (\<lambda>_. PyList vs') r, PyList vs'))
    | PyTuple vs \<Rightarrow> (let (r, vs') = set_items new vs in (omap (\<lambda>_. PyTuple vs') r, PyTuple vs))
    | Single x \<Rightarrow> (Returned (Single VNone), Single x))"

section \<open>What the operators answer\<close>

lemma py_index_nat [simp]: "k < n \<Longrightarrow> py_index n (int k) = Some k"
  by (simp add: py_index_def)

lemma parse_show [simp]: "parse_int (show_nat n) = Returned (int n)" "parse_int (show_int i) = Returned i"
  by (simp_all add: parse_int_def int_of_show_int)

lemma set_items_from:
  "k + length vs \<le> length old \<Longrightarrow>
   set_items (zip (map show_nat [k..<k + length vs]) vs) old = (Returned (), take k old @ vs @ drop (k + length vs) old)"
proof (induction vs arbitrary: k old)
  case (Cons x vs)
  have u: "[k..<k + length (x # vs)] = k # [Suc k..<Suc k + length vs]" by (simp add: upt_rec [of k] Suc_le_eq)
  have k: "k < length old" using Cons.prems by simp
  have "set_items (zip (map show_nat [Suc k..<Suc k + length vs]) vs) (old[k := x])
      = (Returned (), take (Suc k) (old[k := x]) @ vs @ drop (Suc k + length vs) (old[k := x]))"
    by (rule Cons.IH) (use Cons.prems in simp)
  moreover have "take (Suc k) (old[k := x]) = take k old @ [x]" using k by (simp add: take_Suc_conv_app_nth)
  ultimately show ?case unfolding u using k by simp
qed simp

lemma set_items_all:
  "length vs = length old \<Longrightarrow> set_items (zip (map show_nat [0..<length vs]) vs) old = (Returned (), vs)"
  using set_items_from [of 0 vs old] by simp

lemma set_items_keeps_length: "length (snd (set_items ps vs)) = length vs"
  by (induction ps vs rule: set_items.induct) (auto split: outcome.split option.split)

lemma set_entries_all:
  "(\<And>k. dget d k \<noteq> None \<Longrightarrow> dget old k \<noteq> None) \<Longrightarrow> dict_ok d \<Longrightarrow> dict_ok old \<Longrightarrow>
   \<exists>new. set_entries d old = (Returned (), new) \<and> dict_ok new \<and>
     (\<forall>k. dget new k = (case dget d k of Some x \<Rightarrow> Some x | None \<Rightarrow> dget old k))"
proof (induction d arbitrary: old)
  case (Cons e d)
  obtain k x where e: "e = (k, x)" by (cases e)
  have d: "dget d k = None" "dict_ok d" using Cons.prems(2) by (simp_all add: e dict_ok_Cons)
  have "\<exists>new. set_entries d (dput k x old) = (Returned (), new) \<and> dict_ok new \<and>
     (\<forall>i. dget new i = (case dget d i of Some y \<Rightarrow> Some y | None \<Rightarrow> dget (dput k x old) i))"
    by (rule Cons.IH) (use Cons.prems d in \<open>auto simp: e split: if_splits\<close>)
  then obtain new where n: "set_entries d (dput k x old) = (Returned (), new)" "dict_ok new"
     "\<And>i. dget new i = (case dget d i of Some y \<Rightarrow> Some y | None \<Rightarrow> dget (dput k x old) i)" by blast
  have "dget old k \<noteq> None" using Cons.prems(1) [of k] by (simp add: e)
  then have "set_entries (e # d) old = (Returned (), new)" using n(1) by (simp add: e)
  moreover have "dget new i = (case dget (e # d) i of Some y \<Rightarrow> Some y | None \<Rightarrow> dget old i)" for i
    using n(3) d(1) by (simp add: e split: option.split)
  ultimately show ?case using n(2) by blast
qed simp

text \<open>
  The pairs that \<open>[@]\<close> answers for a sequence, assigned by \<open>[@]\<close> to a sequence of the same kind and
  shape, give that sequence back: a list or tuple of the same length becomes equal to it, a dictionary
  with the same keys gets the same values.
\<close>

theorem pairs_assign_back:
  "(length old = length vs \<longrightarrow>
      (\<exists>ps. getKeyValuePairsOperator (PyList vs) = Returned ps \<and>
        setKeyValuePairsOperator (PyList old) ps = (Returned (PyList vs), PyList vs)) \<and>
      (\<exists>ps. getKeyValuePairsOperator (PyTuple vs) = Returned ps \<and>
        setKeyValuePairsOperator (PyTuple old) ps = (Returned (PyTuple vs), PyTuple old))) \<and>
   (dict_ok d \<and> dict_ok e \<and> set (dkeys d) = set (dkeys e) \<longrightarrow>
      (\<exists>ps new. getKeyValuePairsOperator (PyDict d) = Returned ps \<and>
        setKeyValuePairsOperator (PyDict e) ps = (Returned (PyDict new), PyDict new) \<and>
        (\<forall>k. dget new k = dget d k)))"
proof (intro conjI impI)
  assume l: "length old = length vs"
  have ps: "getKeyValuePairsOperator (PyList vs) = Returned (zip (map show_nat [0..<length vs]) vs)"
    "getKeyValuePairsOperator (PyTuple vs) = Returned (zip (map show_nat [0..<length vs]) vs)"
    by (simp_all add: getKeyValuePairsOperator_def items_in_def)
  show "\<exists>ps. getKeyValuePairsOperator (PyList vs) = Returned ps \<and>
        setKeyValuePairsOperator (PyList old) ps = (Returned (PyList vs), PyList vs)"
    "\<exists>ps. getKeyValuePairsOperator (PyTuple vs) = Returned ps \<and>
        setKeyValuePairsOperator (PyTuple old) ps = (Returned (PyTuple vs), PyTuple old)"
    using set_items_all [OF l [symmetric]] by (simp_all add: ps setKeyValuePairsOperator_def)
next
  assume d: "dict_ok d \<and> dict_ok e \<and> set (dkeys d) = set (dkeys e)"
  then have keys: "dget d k = None \<longleftrightarrow> dget e k = None" for k by (simp add: dget_None_iff)
  obtain new where n: "set_entries d e = (Returned (), new)"
      "\<And>k. dget new k = (case dget d k of Some x \<Rightarrow> Some x | None \<Rightarrow> dget e k)"
  proof -
    have "dget e k \<noteq> None" if "dget d k \<noteq> None" for k using that by (simp add: keys)
    then show ?thesis using set_entries_all [of d e] d that by blast
  qed
  have "dget new k = dget d k" for k using n(2) [of k] keys [of k] by (simp split: option.splits)
  then show "\<exists>ps new. getKeyValuePairsOperator (PyDict d) = Returned ps \<and>
        setKeyValuePairsOperator (PyDict e) ps = (Returned (PyDict new), PyDict new) \<and> (\<forall>k. dget new k = dget d k)"
    using n(1) by (simp add: getKeyValuePairsOperator_def setKeyValuePairsOperator_def)
qed

theorem pairs_assign_back_witness:
  "(\<exists>ps. getKeyValuePairsOperator (PyList [VInt 4, VInt 5]) = Returned ps \<and>
     setKeyValuePairsOperator (PyList [VInt 0, VInt 1]) ps = (Returned (PyList [VInt 4, VInt 5]), PyList [VInt 4, VInt 5])) \<and>
   (\<exists>ps new. getKeyValuePairsOperator (PyDict [(''a'', VInt 1)]) = Returned ps \<and>
     setKeyValuePairsOperator (PyDict [(''a'', VInt 7)]) ps = (Returned (PyDict new), PyDict new) \<and>
     (\<forall>k. dget new k = dget [(''a'', VInt 1)] k))"
  using pairs_assign_back [of "[VInt 0, VInt 1]" "[VInt 4, VInt 5]" "[(''a'', VInt 1)]" "[(''a'', VInt 7)]"]
  by (simp_all add: dict_ok_Cons dkeys_def)

section \<open>Slices\<close>

lemma show_int_chars: "c \<in> set (show_int i) \<Longrightarrow> c = CHR ''-'' \<or> \<not> is_space c \<and> c \<notin> {CHR '','', CHR '':''}"
  using show_nat_plain [of c] unfolding show_int_def by (auto split: if_splits)

lemma show_int_not_Nil [simp]: "show_int i \<noteq> []"
  by (simp add: show_int_def)

lemma minus_plain: "\<not> is_space (CHR ''-'')"
  by (simp add: is_space_def)

lemma show_int_no_space: "c \<in> set (show_int i) \<Longrightarrow> \<not> is_space c"
  using show_int_chars minus_plain by blast

lemma strip_show_int [simp]: "strip (show_int i) = show_int i"
  by (rule strip_plain) (rule show_int_not_Nil show_int_no_space hd_in_set last_in_set)+

lemma show_int_free: "CHR '','' \<notin> set (show_int i)" "CHR '':'' \<notin> set (show_int i)"
  using show_int_chars [of "CHR '',''" i] show_int_chars [of "CHR '':''" i] by auto

definition index_operator :: "int list \<Rightarrow> string" where
  "index_operator is = CHR ''['' # join_on (CHR '','') (map show_int is) @ '']''"

definition range_operator :: "string \<Rightarrow> string \<Rightarrow> string" where
  "range_operator lo up = CHR ''['' # lo @ CHR '':'' # up @ '']''"

lemma indexes_of_indices [simp]: "is \<noteq> [] \<Longrightarrow> operator_indexes (index_operator is) = map show_int is"
proof -
  assume "is \<noteq> []"
  then have "split_on (CHR '','') (join_on (CHR '','') (map show_int is)) = map show_int is"
    by (intro split_on_join) (auto simp: show_int_free)
  then show ?thesis by (simp add: operator_indexes_def index_operator_def)
qed

lemma py_index_negative: "0 < k \<Longrightarrow> k \<le> n \<Longrightarrow> py_index n (- int k) = Some (n - k)"
  by (auto simp: py_index_def)

lemma slice_end_nat [simp]: "slice_end n (int k) = min n k"
  by (simp add: slice_end_def)

lemma slice_of_nat: "slice_of xs (int a) (int b) = drop a (take b xs)"
  by (simp add: slice_of_def min_def)

lemma show_nat_int: "show_nat n = show_int (int n)"
  by (simp add: show_int_def)

lemma indexes_of_range:
  assumes "s = [] \<or> s = show_int a" "t = [] \<or> t = show_int b"
  shows "operator_indexes (range_operator s t) = [s @ CHR '':'' # t]"
    "split_once (CHR '':'') (s @ CHR '':'' # t) = (s, t)"
proof -
  have plain: "c \<noteq> CHR '','' \<and> c \<noteq> CHR '':'' \<and> \<not> is_space c" if "c \<in> set s \<union> set t" for c
    using assms that show_int_free [of a] show_int_free [of b] show_int_no_space [of c a] show_int_no_space [of c b] by auto
  have colon: "\<not> is_space (CHR '':'')" by (simp add: is_space_def)
  have comma: "CHR '','' \<notin> set (s @ CHR '':'' # t)" using plain by auto
  have "strip (s @ CHR '':'' # t) = s @ CHR '':'' # t"
    by (rule strip_plain) (use plain colon in \<open>auto simp: hd_append split: if_splits\<close>)
  moreover have "range_operator s t = CHR ''['' # (s @ CHR '':'' # t) @ '']''" by (simp add: range_operator_def)
  ultimately show "operator_indexes (range_operator s t) = [s @ CHR '':'' # t]"
    by (simp only: operator_indexes_def list.sel butlast_snoc split_on_free [OF comma] list.map)
  have "\<forall>x \<in> set s. x \<noteq> CHR '':''" using plain by auto
  then show "split_once (CHR '':'') (s @ CHR '':'' # t) = (s, t)"
    by (simp add: split_once_def takeWhile_append2 dropWhile_append2)
qed

lemma slice_range_int:
  assumes "s = [] \<and> lo = 0 \<or> s = show_int lo" "t = [] \<and> up = int (length vs) \<or> t = show_int up"
  shows "getSliceOperator (PyList vs) (range_operator s t) = Returned (PyList (slice_of vs lo up))"
proof -
  have i: "operator_indexes (range_operator s t) = [s @ CHR '':'' # t]"
    "split_once (CHR '':'') (s @ CHR '':'' # t) = (s, t)"
    using indexes_of_range [of s lo t up] assms by blast+
  have lo: "lower_bound s = Returned lo" using assms(1) by (auto simp: lower_bound_def)
  have up: "upper_bound (length vs) t = Returned up" using assms(2) by (auto simp: upper_bound_def)
  show ?thesis by (simp add: getSliceOperator_def Let_def i lo up py_len_def)
qed

lemma slice_range:
  assumes "s = [] \<and> lo = 0 \<or> s = show_nat lo" "t = [] \<and> up = length vs \<or> t = show_nat up"
  shows "getSliceOperator (PyList vs) (range_operator s t) = Returned (PyList (drop lo (take up vs)))"
  using slice_range_int [of s "int lo" t "int up" vs] assms by (auto simp: show_nat_int slice_of_nat)

text \<open>Indices, in any number and of any sign: the indexed values, or an exception when one is out of range.\<close>

lemma collect_fails: "x \<in> set xs \<Longrightarrow> (\<And>y. y \<in> set xs \<Longrightarrow> f y \<noteq> Blocked) \<Longrightarrow> f x = Raised e \<Longrightarrow> \<exists>d. collect_outcomes f xs = Raised d"
proof (induction xs)
  case (Cons y ys)
  show ?case
  proof (cases "f y")
    case (Returned z)
    then have "\<exists>d. collect_outcomes f ys = Raised d" using Cons by auto
    then show ?thesis using Returned by auto
  qed (use Cons.prems in auto)
qed simp

lemma slice_indices:
  assumes "is \<noteq> []"
  shows "getSliceOperator (PyList vs) (index_operator is) = omap PyList (collect_outcomes (item_at vs) is)"
proof -
  have c: "CHR '':'' \<notin> set (hd (map show_int is))" using assms by (cases "is") (simp_all add: show_int_free)
  have "collect_outcomes (\<lambda>i. obind (parse_int i) (item_at vs)) (map show_int is) = collect_outcomes (item_at vs) is"
    by (induction "is") auto
  then show ?thesis using assms c by (simp add: getSliceOperator_def Let_def items_in_def)
qed

lemma item_at_mod:
  "- int (length vs) \<le> i \<Longrightarrow> i < int (length vs) \<Longrightarrow> item_at vs i = Returned (vs ! nat (i mod int (length vs)))"
proof -
  assume i: "- int (length vs) \<le> i" "i < int (length vs)"
  show ?thesis
  proof (cases "0 \<le> i")
    case False
    have "i mod int (length vs) = (i + int (length vs)) mod int (length vs)" by simp
    also have "\<dots> = i + int (length vs)" by (rule mod_pos_pos_trivial) (use i False in auto)
    finally show ?thesis using i False by (simp add: item_at_def py_index_def)
  qed (use i in \<open>simp add: item_at_def py_index_def\<close>)
qed

lemma item_at_out: "i < - int (length vs) \<or> int (length vs) \<le> i \<Longrightarrow> item_at vs i = Raised IndexError"
  by (auto simp: item_at_def py_index_def)

lemma item_at_ends: "item_at vs i \<noteq> Blocked"
  by (simp add: item_at_def split: option.split)

text \<open>
  Querying a list with a slice operator: indices answer the values at these positions, in the order
  given and counted from the end when negative, and a range answers the values from its lower to its
  upper end, where an end left out is the end of the list and ends beyond it are cut off. An index out
  of range raises \<open>IndexError\<close>.
\<close>

theorem slices_select:
  "(is \<noteq> [] \<and> (\<forall>i \<in> set is. \<exists>k. py_index (length vs) i = Some k) \<longrightarrow>
     getSliceOperator (PyList vs) (index_operator is) = Returned (PyList (map (\<lambda>i. vs ! the (py_index (length vs) i)) is))) \<and>
   (py_index (length vs) i = None \<longrightarrow> getSliceOperator (PyList vs) (index_operator [i]) = Raised IndexError) \<and>
   getSliceOperator (PyList vs) (range_operator (show_nat lo) (show_nat up)) = Returned (PyList (drop lo (take up vs))) \<and>
   getSliceOperator (PyList vs) (range_operator (show_nat lo) []) = Returned (PyList (drop lo vs)) \<and>
   getSliceOperator (PyList vs) (range_operator [] (show_nat up)) = Returned (PyList (take up vs)) \<and>
   getSliceOperator (PyList vs) (range_operator [] []) = Returned (PyList vs)"
proof (intro conjI impI)
  have no_range: "CHR '':'' \<notin> set (hd (map show_int is))" if "is \<noteq> []" for "is"
    using that by (cases "is") (simp_all add: show_int_free)
  assume "is \<noteq> [] \<and> (\<forall>i \<in> set is. \<exists>k. py_index (length vs) i = Some k)"
  then have i: "is \<noteq> []" "\<And>i. i \<in> set is \<Longrightarrow> item_at vs i = Returned (vs ! the (py_index (length vs) i))"
    by (auto simp: item_at_def)
  have "collect_outcomes (\<lambda>i. obind (parse_int i) (item_at vs)) (map show_int is)
      = collect_outcomes (\<lambda>i. item_at vs i) is"
    by (induction "is") auto
  also have "\<dots> = Returned (map (\<lambda>i. vs ! the (py_index (length vs) i)) is)"
    using i(2) by simp
  finally show "getSliceOperator (PyList vs) (index_operator is) = Returned (PyList (map (\<lambda>i. vs ! the (py_index (length vs) i)) is))"
    using i(1) no_range [OF i(1)] by (simp add: getSliceOperator_def Let_def items_in_def)
next
  assume "py_index (length vs) i = None"
  then show "getSliceOperator (PyList vs) (index_operator [i]) = Raised IndexError"
    by (simp add: getSliceOperator_def Let_def items_in_def item_at_def show_int_free)
next
  show "getSliceOperator (PyList vs) (range_operator (show_nat lo) (show_nat up)) = Returned (PyList (drop lo (take up vs)))"
    by (rule slice_range) simp_all
  show "getSliceOperator (PyList vs) (range_operator (show_nat lo) []) = Returned (PyList (drop lo vs))"
    using slice_range [of "show_nat lo" lo "[]" "length vs" vs] by simp
  show "getSliceOperator (PyList vs) (range_operator [] (show_nat up)) = Returned (PyList (take up vs))"
    using slice_range [of "[]" 0 "show_nat up" up vs] by simp
  show "getSliceOperator (PyList vs) (range_operator [] []) = Returned (PyList vs)"
    using slice_range [of "[]" 0 "[]" "length vs" vs] by simp
qed

end
