(* ===== verification/PropertyState.thy ===== *)
theory PropertyState
  imports PropertyIds SequenceOperators
begin

text \<open>
  Getting, setting, querying and configuring one property (\<open>_property\<close>, \<open>simple_property\<close>,
  \<open>simpleseq_property\<close>). The value of a property is an object: lists and dictionaries live in a store
  and are shared by everybody who holds a reference, so that an assignment by pairs, which changes
  the list in place, also changes what a caller had fetched before as the old value.

  User code is a parameter: the functions given to the property (\<open>fget\<close>, \<open>fset\<close>, \<open>fval\<close>) and the
  methods found by name (\<open>query_prop_\<close>, \<open>validate_prop_\<close>, \<open>onconfigure_prop_\<close>) are arbitrary actions on the
  state of the component.
\<close>

section \<open>The component as its properties see it\<close>

datatype pyref = Value pobj | Object nat

text \<open>
  A listener is known by the function that it calls; \<open>argcount\<close> is the number of its parameters. What
  listeners keep of the changes they hear of is the \<open>registry\<close>.
\<close>

record listener =
  callback_id :: nat
  argcount :: nat

record 'r component =
  heap :: "nat \<Rightarrow> pobj"
  fresh :: nat
  attrs :: "(string, pyref) dict"
  event_supplier :: bool
  events_sent :: "string list"
  changeListeners :: "(string, listener) dict"
  genericListeners :: "listener list"
  propertiesInitialized :: bool
  property_lock :: bool
  registry :: 'r

type_synonym ('r, 'a) component_action = "('r component, 'a) action"

definition content :: "'r component \<Rightarrow> pyref \<Rightarrow> pobj" where
  "content c r = (case r of Value v \<Rightarrow> v | Object a \<Rightarrow> heap c a)"

definition store_object :: "pyref \<Rightarrow> pobj \<Rightarrow> 'r component \<Rightarrow> 'r component" where
  "store_object r v c = (case r of Value _ \<Rightarrow> c | Object a \<Rightarrow> c\<lparr>heap := (heap c)(a := v)\<rparr>)"

definition is_mutable :: "pobj \<Rightarrow> bool" where
  "is_mutable v = (case v of PyList _ \<Rightarrow> True | PyDict _ \<Rightarrow> True | _ \<Rightarrow> False)"

definition new_object :: "pobj \<Rightarrow> ('r, pyref) component_action" where
  "new_object v = (if is_mutable v
     then act_bind (act_get fresh) (\<lambda>a.
       act_then (act_update (\<lambda>c. c\<lparr>heap := (heap c)(a := v), fresh := Suc a\<rparr>)) (act_return (Object a)))
     else act_return (Value v))"

definition NoneRef :: pyref where
  "NoneRef = Value (Single VNone)"

text \<open>The equality of Python values: numbers of all types compare by value, dictionaries without order.\<close>

definition same_value :: "pvalue \<Rightarrow> pvalue \<Rightarrow> bool" where
  "same_value a b = (case (number_of a, number_of b) of
      (Some x, Some y) \<Rightarrow> x = y
    | (Some x, None) \<Rightarrow> b = VComplex x 0
    | (None, Some y) \<Rightarrow> a = VComplex y 0
    | (None, None) \<Rightarrow> a = b)"

definition same_entries :: "(string, pvalue) dict \<Rightarrow> (string, pvalue) dict \<Rightarrow> bool" where
  "same_entries d e \<longleftrightarrow> length d = length e \<and>
     list_all (\<lambda>(k, x). case dget e k of Some y \<Rightarrow> same_value x y | None \<Rightarrow> False) d"

definition same_object :: "pobj \<Rightarrow> pobj \<Rightarrow> bool" where
  "same_object v w = (case (v, w) of
      (Single a, Single b) \<Rightarrow> same_value a b
    | (PyList xs, PyList ys) \<Rightarrow> list_all2 same_value xs ys
    | (PyTuple xs, PyTuple ys) \<Rightarrow> list_all2 same_value xs ys
    | (PyDict d, PyDict e) \<Rightarrow> same_entries d e
    | _ \<Rightarrow> False)"

lemma same_value_refl [simp]: "same_value a a"
  by (simp add: same_value_def split: option.split)

lemma same_object_refl [simp]: "(\<And>d. v = PyDict d \<Longrightarrow> dict_ok d) \<Longrightarrow> same_object v v"
  by (cases v) (auto simp: same_object_def same_entries_def list.rel_refl list_all_iff dget_mem)

section \<open>User code\<close>

record 'r user_code =
  fget :: "('r, pyref) component_action option"
  fset :: "(pyref \<Rightarrow> ('r, unit) component_action) option"
  fval :: "(pyref \<Rightarrow> ('r, bool) component_action) option"
  query_method :: "('r, pyref) component_action option"
  validate_method :: "(pyref \<Rightarrow> ('r, bool) component_action) option"
  onconfigure_method :: "(pyref \<Rightarrow> pyref \<Rightarrow> ('r, unit) component_action) option"

definition no_user_code :: "'r user_code" where
  "no_user_code = \<lparr>fget = None, fset = None, fval = None, query_method = None, validate_method = None,
     onconfigure_method = None\<rparr>"

section \<open>Operations of a property\<close>

definition property_set :: "'r user_code \<Rightarrow> property_def \<Rightarrow> pyref \<Rightarrow> ('r, unit) component_action" where
  "property_set u p r = (case fset u of
      Some f \<Rightarrow> f r
    | None \<Rightarrow> act_update (\<lambda>c. c\<lparr>attrs := dput (propid p) r (attrs c)\<rparr>))"

definition read_attribute :: "string \<Rightarrow> ('r, pyref) component_action" where
  "read_attribute i = act_bind (act_get (\<lambda>c. dget (attrs c) i)) (\<lambda>o'.
     case o' of Some r \<Rightarrow> act_return r | None \<Rightarrow> act_raise AttributeError)"

text \<open>An attribute that was never set, and any \<open>AttributeError\<close> of a getter, count as \<open>None\<close>.\<close>

definition property_get :: "'r user_code \<Rightarrow> property_def \<Rightarrow> ('r, pyref) component_action" where
  "property_get u p = act_catch (case fget u of Some f \<Rightarrow> f | None \<Rightarrow> read_attribute (propid p))
     (\<lambda>e. if e = AttributeError then act_return NoneRef else act_raise e)"

definition property_query_value :: "'r user_code \<Rightarrow> property_def \<Rightarrow> ('r, pyref) component_action" where
  "property_query_value u p = (case query_method u of Some f \<Rightarrow> f | None \<Rightarrow> property_get u p)"

text \<open>
  \<open>_toPyComplex\<close> over a value. A list is converted item by item in place, and stays half converted when
  an item fails.
\<close>

fun convert_items :: "pvalue list \<Rightarrow> unit outcome \<times> pvalue list" where
  "convert_items [] = (Returned (), [])"
| "convert_items (v # vs) = (case toPyComplex v of
      Returned x \<Rightarrow> (let (r, ys) = convert_items vs in (r, x # ys))
    | Raised e \<Rightarrow> (Raised e, v # vs)
    | Blocked \<Rightarrow> (Blocked, v # vs))"

definition complex_ref :: "pyref \<Rightarrow> ('r, pyref) component_action" where
  "complex_ref r = act_bind (act_get (\<lambda>c. content c r)) (\<lambda>v. case v of
      PyList vs \<Rightarrow> (let (out, ys) = convert_items vs in
        act_then (act_update (store_object r (PyList ys))) (act_then (lift_outcome out) (act_return r)))
    | PyDict d \<Rightarrow> (case (dget d ''real'', dget d ''imag'') of
          (Some a, Some b) \<Rightarrow> act_bind (lift_outcome (make_complex a b)) (\<lambda>x. act_return (Value (Single x)))
        | _ \<Rightarrow> act_raise KeyError)
    | PyTuple vs \<Rightarrow> act_raise AttributeError
    | Single x \<Rightarrow> act_bind (lift_outcome (toPyComplex x)) (\<lambda>y. act_return (Value (Single y))))"

text \<open>
  A refused value raises \<open>ValueError\<close>; that formatting its message fails for a tuple, and raises \<open>TypeError\<close>
  instead, is left out.
\<close>

definition approved :: "(pyref \<Rightarrow> ('r, bool) component_action) option \<Rightarrow> pyref \<Rightarrow> ('r, unit) component_action" where
  "approved f r = (case f of
      None \<Rightarrow> act_return ()
    | Some g \<Rightarrow> act_bind (g r) (\<lambda>ok. if ok then act_return () else act_raise ValueError))"

definition send_change_event :: "string \<Rightarrow> ('r, unit) component_action" where
  "send_change_event i = act_update (\<lambda>c. if event_supplier c then c\<lparr>events_sent := events_sent c @ [i]\<rparr> else c)"

text \<open>\<open>_configure\<close>.\<close>

definition assign_value :: "'r user_code \<Rightarrow> property_def \<Rightarrow> bool \<Rightarrow> pyref \<Rightarrow> ('r, unit) component_action" where
  "assign_value u p disableCallbacks r0 =
     act_bind (if is_complex p then complex_ref r0 else act_return r0) (\<lambda>r.
     act_then (approved (fval u) r)
     (act_then (approved (validate_method u) r)
     (act_bind (property_get u p) (\<lambda>old.
      act_bind (act_get (\<lambda>c. \<not> same_object (content c old) (content c r))) (\<lambda>changed.
      act_then
        (case onconfigure_method u of
           Some f \<Rightarrow> if changed then f old r else property_set u p r
         | None \<Rightarrow> property_set u p r)
        (act_when (\<not> disableCallbacks \<and> changed \<and> isSendEventChange p) (send_change_event (propid p))))))))"

section \<open>Configuring and querying\<close>

text \<open>
  What an \<open>Any\<close> holds after \<open>any.from_any\<close>: one value, a list of values, or a list of pairs of an ID and a
  value, as the operator \<open>[@]\<close> expects.
\<close>

datatype wire_value = WireSingle pvalue | WireList "pvalue list" | WirePairs "(string \<times> pvalue) list"

record sequence_text =
  text_format +
  show_list :: "pvalue list \<Rightarrow> string"
  show_pairs :: "(string \<times> pvalue) list \<Rightarrow> string"

text \<open>\<open>to_pyvalue\<close> of a list and of a dictionary with the keys \<open>id\<close> and \<open>value\<close>.\<close>

definition list_to_pyvalue :: "string \<Rightarrow> string \<Rightarrow> pvalue outcome" where
  "list_to_pyvalue t shown = (case getPyType t of
      None \<Rightarrow> Raised TypeError
    | Some TStr \<Rightarrow> Returned (VStr shown)
    | Some TComplex \<Rightarrow> Raised AttributeError
    | Some _ \<Rightarrow> Raised TypeError)"

definition pair_to_pyvalue :: "string \<Rightarrow> string \<Rightarrow> pvalue outcome" where
  "pair_to_pyvalue t shown = (case getPyType t of
      None \<Rightarrow> Raised TypeError
    | Some TStr \<Rightarrow> Returned (VStr shown)
    | Some TComplex \<Rightarrow> Raised KeyError
    | Some TObject \<Rightarrow> Raised KeyError
    | Some _ \<Rightarrow> Raised TypeError)"

definition simple_fromAny :: "sequence_text \<Rightarrow> string \<Rightarrow> wire_value \<Rightarrow> pobj outcome" where
  "simple_fromAny F t w = omap Single (case w of
      WireSingle v \<Rightarrow> to_pyvalue (text_format.truncate F) t v
    | WireList vs \<Rightarrow> list_to_pyvalue t (show_list F vs)
    | WirePairs ps \<Rightarrow> list_to_pyvalue t (show_pairs F ps))"

definition simpleseq_fromAny :: "sequence_text \<Rightarrow> string \<Rightarrow> wire_value \<Rightarrow> pobj outcome" where
  "simpleseq_fromAny F t w = (case w of
      WireSingle v \<Rightarrow> if v = VNone \<or> t \<in> {''char'', ''octet''} then Returned (Single v) else Raised ValueError
    | WireList vs \<Rightarrow> if t \<in> {''char'', ''octet''} then Returned (PyList vs)
        else omap PyList (collect_outcomes (to_pyvalue (text_format.truncate F) t) vs)
    | WirePairs ps \<Rightarrow> omap PyList (collect_outcomes (\<lambda>p. pair_to_pyvalue t (show_pairs F [p])) ps))"

definition fromAny :: "sequence_text \<Rightarrow> property_def \<Rightarrow> wire_value \<Rightarrow> pobj outcome" where
  "fromAny F p w = (case class_of p of
      SimpleProperty \<Rightarrow> simple_fromAny F (typename p) w
    | SimpleSeqProperty \<Rightarrow> simpleseq_fromAny F (typename p) w)"

definition pairs_in :: "wire_value \<Rightarrow> (string \<times> pvalue) list outcome" where
  "pairs_in w = (case w of
      WirePairs ps \<Rightarrow> Returned ps
    | WireList [] \<Rightarrow> Returned []
    | WireSingle (VStr []) \<Rightarrow> Returned []
    | _ \<Rightarrow> Raised TypeError)"

text \<open>The assignment by pairs of a sequence property: the old object is changed, and is the new value unless it is a tuple.\<close>

definition assign_pairs :: "'r user_code \<Rightarrow> property_def \<Rightarrow> wire_value \<Rightarrow> ('r, pyref) component_action" where
  "assign_pairs u p w = act_bind (property_get u p) (\<lambda>r.
     act_bind (act_get (\<lambda>c. content c r)) (\<lambda>old. case old of
       Single _ \<Rightarrow> act_return NoneRef
     | _ \<Rightarrow> act_bind (lift_outcome (pairs_in w)) (\<lambda>ps.
         (let (out, now) = setKeyValuePairsOperator old ps in
          act_then (act_update (store_object r now))
            (act_bind (lift_outcome out) (\<lambda>v. act_return (if is_mutable v then r else Value v)))))))"

definition checked_value :: "sequence_text \<Rightarrow> property_def \<Rightarrow> wire_value \<Rightarrow> pobj outcome" where
  "checked_value F p w = obind (fromAny F p w) (\<lambda>v. omap (\<lambda>_. v) (checkValue p v))"

definition property_configure ::
    "sequence_text \<Rightarrow> 'r user_code \<Rightarrow> property_def \<Rightarrow> wire_value \<Rightarrow> string option \<Rightarrow> bool \<Rightarrow> ('r, unit) component_action" where
  "property_configure F u p w op disableCallbacks =
     (case class_of p of
        SimpleProperty \<Rightarrow> if op \<noteq> None then act_raise AttributeError
          else act_bind (lift_outcome (checked_value F p w)) (\<lambda>v.
            act_bind (new_object v) (assign_value u p disableCallbacks))
      | SimpleSeqProperty \<Rightarrow> act_bind
          (if op = Some ''[@]'' then assign_pairs u p w
           else act_bind (lift_outcome (checked_value F p w)) new_object)
          (assign_value u p disableCallbacks))"

text \<open>Queries. The answer is what the \<open>Any\<close> holds.\<close>

datatype any_answer = AnswerNone | AnswerSingle pvalue | AnswerList "pvalue list" | AnswerText string | AnswerPairs "(string \<times> pvalue) list"

definition text_of_values :: "sequence_text \<Rightarrow> pobj \<Rightarrow> string" where
  "text_of_values F v = (case v of Single (VStr s) \<Rightarrow> s | PyList vs \<Rightarrow> show_list F vs | PyTuple vs \<Rightarrow> show_list F vs
     | PyDict d \<Rightarrow> show_pairs F d | Single x \<Rightarrow> show_value F x)"

definition simpleseq_toAny :: "sequence_text \<Rightarrow> property_def \<Rightarrow> pobj \<Rightarrow> any_answer outcome" where
  "simpleseq_toAny F p v = (if v = Single VNone then Returned AnswerNone
     else if typename p \<in> {''char'', ''octet''} then Returned (AnswerText (text_of_values F v))
     else obind (items_in v) (\<lambda>vs. omap AnswerList
       (collect_outcomes (if is_complex p then convertComplexToCFComplex (text_format.truncate F) (typename p)
          else to_pyvalue (text_format.truncate F) (typename p)) vs)))"

definition simple_toAny :: "sequence_text \<Rightarrow> property_def \<Rightarrow> pobj \<Rightarrow> any_answer outcome" where
  "simple_toAny F p v = (case v of
      Single x \<Rightarrow> omap AnswerSingle (to_tc_value (text_format.truncate F) (typename p) x)
    | _ \<Rightarrow> omap AnswerSingle (list_to_pyvalue (typename p) (text_of_values F v)))"

text \<open>Every exception of an operator is turned into \<open>AttributeError\<close>.\<close>

definition operator_error :: "'a outcome \<Rightarrow> 'a outcome" where
  "operator_error m = (case m of Raised e \<Rightarrow> Raised AttributeError | _ \<Rightarrow> m)"

definition apply_operator :: "sequence_text \<Rightarrow> property_def \<Rightarrow> pobj \<Rightarrow> string option \<Rightarrow> any_answer outcome" where
  "apply_operator F p v op = (if v = Single VNone then Returned AnswerNone
     else case op of
       None \<Rightarrow> simpleseq_toAny F p v
     | Some o' \<Rightarrow>
       if o' \<in> {''[]'', ''[*]''} then simpleseq_toAny F p (getDefaultOperator v)
       else if o' = ''[?]'' then operator_error (omap AnswerList (getKeysOperator v))
       else if o' = ''[@]'' then operator_error (omap AnswerPairs (getKeyValuePairsOperator v))
       else if o' = ''[#]'' then operator_error (omap (\<lambda>n. AnswerSingle (VInt (int n))) (py_len (getDefaultOperator v)))
       else obind (operator_error (getSliceOperator v o')) (simpleseq_toAny F p))"

definition property_query ::
    "sequence_text \<Rightarrow> 'r user_code \<Rightarrow> property_def \<Rightarrow> string option \<Rightarrow> ('r, any_answer) component_action" where
  "property_query F u p op = (case class_of p of
      SimpleProperty \<Rightarrow> if op \<noteq> None then act_raise AttributeError
        else act_bind (property_query_value u p) (\<lambda>r. act_bind (act_get (\<lambda>c. content c r)) (\<lambda>v.
          lift_outcome (simple_toAny F p v)))
    | SimpleSeqProperty \<Rightarrow> act_bind (property_query_value u p) (\<lambda>r. act_bind (act_get (\<lambda>c. content c r)) (\<lambda>v.
        lift_outcome (apply_operator F p v op))))"

end
