(* ===== verification/PropertyAssignments.thy ===== *)
theory PropertyAssignments
  imports PropertyState
begin

text \<open>
  What configuring one property does to its value. A value that passes conversion and bounds is what a
  query answers afterwards, and reaches the handler and the event channel exactly when it differs from
  the old one. An assignment by pairs changes the list that the property holds: the comparison
  with the old value then compares the list with itself, so that neither handler nor event channel hears of the
  change, and a validator that rejects it comes too late.
\<close>

section \<open>Components without getters, setters and query methods\<close>

definition plain_access :: "'r user_code \<Rightarrow> bool" where
  "plain_access u \<longleftrightarrow> fget u = None \<and> fset u = None \<and> query_method u = None"

definition unvalidated :: "'r user_code \<Rightarrow> bool" where
  "unvalidated u \<longleftrightarrow> plain_access u \<and> fval u = None \<and> validate_method u = None"

definition current_ref :: "'r component \<Rightarrow> property_def \<Rightarrow> pyref" where
  "current_ref c p = (case dget (attrs c) (propid p) of Some r \<Rightarrow> r | None \<Rightarrow> NoneRef)"

definition current_value :: "'r component \<Rightarrow> property_def \<Rightarrow> pobj" where
  "current_value c p = content c (current_ref c p)"

lemma property_get_run [act_simps]: "fget u = None \<Longrightarrow> property_get u p c = (Ok (current_ref c p), c)"
  by (simp add: property_get_def read_attribute_def current_ref_def act_catch_def act_bind_def split: option.split)

lemma property_query_value_run: "plain_access u \<Longrightarrow> property_query_value u p c = (Ok (current_ref c p), c)"
  by (simp add: plain_access_def property_query_value_def property_get_run)

definition set_ref :: "property_def \<Rightarrow> pyref \<Rightarrow> 'r component \<Rightarrow> 'r component" where
  "set_ref p r c = c\<lparr>attrs := dput (propid p) r (attrs c)\<rparr>"

lemma property_set_run: "fset u = None \<Longrightarrow> property_set u p r c = (Ok (), set_ref p r c)"
  by (simp add: property_set_def set_ref_def)

lemma approved_None [simp]: "approved None r = act_return ()"
  by (simp add: approved_def)

definition note_event :: "property_def \<Rightarrow> 'r component \<Rightarrow> 'r component" where
  "note_event p c = (if event_supplier c then c\<lparr>events_sent := events_sent c @ [propid p]\<rparr> else c)"

lemma send_change_event_run: "send_change_event (propid p) c = (Ok (), note_event p c)"
  by (simp add: send_change_event_def note_event_def)

text \<open>Whether the new value differs from the old one, and what is done with it.\<close>

definition value_differs :: "'r component \<Rightarrow> property_def \<Rightarrow> pyref \<Rightarrow> bool" where
  "value_differs c p r \<longleftrightarrow> \<not> same_object (current_value c p) (content c r)"

lemma assign_value_run:
  assumes "unvalidated u" "\<not> is_complex p"
  shows "assign_value u p quiet r c =
    act_then
      (case onconfigure_method u of
         Some f \<Rightarrow> if value_differs c p r then f (current_ref c p) r else property_set u p r
       | None \<Rightarrow> property_set u p r)
      (act_when (\<not> quiet \<and> value_differs c p r \<and> isSendEventChange p) (send_change_event (propid p))) c"
  using assms
  by (simp add: assign_value_def unvalidated_def plain_access_def act_bind_run(1) [OF property_get_run]
      current_value_def value_differs_def split: option.split)

lemma assign_value_quiet:
  assumes "unvalidated u" "\<not> is_complex p" "\<not> value_differs c p r"
  shows "assign_value u p quiet r c = (Ok (), set_ref p r c)"
proof -
  have s: "property_set u p r c = (Ok (), set_ref p r c)"
    by (rule property_set_run) (use assms(1) in \<open>simp add: unvalidated_def plain_access_def\<close>)
  show ?thesis
    using assms by (simp add: assign_value_run act_when_def act_then_run(1) [where m = "property_set u p r", OF s] split: option.split)
qed

lemma assign_value_changed:
  assumes "unvalidated u" "\<not> is_complex p" "value_differs c p r" "onconfigure_method u = None"
  shows "assign_value u p quiet r c =
    (Ok (), if \<not> quiet \<and> isSendEventChange p then note_event p (set_ref p r c) else set_ref p r c)"
proof -
  have s: "property_set u p r c = (Ok (), set_ref p r c)"
    by (rule property_set_run) (use assms(1) in \<open>simp add: unvalidated_def plain_access_def\<close>)
  show ?thesis
    using assms by (simp add: assign_value_run act_when_def act_then_run(1) [where m = "property_set u p r", OF s] send_change_event_run)
qed

section \<open>Assignment by pairs\<close>

lemma set_entries_outcome: "fst (set_entries ps d) \<noteq> Blocked"
  by (induction ps d rule: set_entries.induct) auto

lemma same_list [simp]: "same_object (PyList vs) (PyList vs)"
  by (rule same_object_refl) simp

lemma assign_pairs_run:
  assumes "fget u = None" "dget (attrs c) (propid p) = Some (Object a)" "heap c a = PyList old"
  shows "assign_pairs u p (WirePairs ps) c =
    act_then (act_update (store_object (Object a) (PyList (snd (set_items ps old)))))
      (act_bind (lift_outcome (fst (set_items ps old))) (\<lambda>_. act_return (Object a))) c"
proof -
  have r: "current_ref c p = Object a" using assms(2) by (simp add: current_ref_def)
  have lift: "act_bind (lift_outcome (omap g m)) f = act_bind (lift_outcome m) (\<lambda>x. f (g x))"
    for g :: "unit \<Rightarrow> pobj" and m and f :: "pobj \<Rightarrow> ('r, pyref) component_action"
    by (cases m) (auto simp: act_bind_def act_hang_def)
  show ?thesis
    by (simp add: assign_pairs_def act_bind_run(1) [OF property_get_run [OF assms(1)]] r content_def assms(3)
        pairs_in_def setKeyValuePairsOperator_def split_beta Let_def lift is_mutable_def)
qed

lemma pairs_configure_run:
  assumes "unvalidated u" "\<not> is_complex p" "class_of p = SimpleSeqProperty"
    and "dget (attrs c) (propid p) = Some (Object a)" "heap c a = PyList old"
    and "set_items ps old = (Returned (), new)"
  shows "property_configure F u p (WirePairs ps) (Some ''[@]'') quiet c =
    (Ok (), set_ref p (Object a) (store_object (Object a) (PyList new) c))"
proof -
  let ?c = "store_object (Object a) (PyList new) c"
  have g: "fget u = None" using assms(1) by (simp add: unvalidated_def plain_access_def)
  have pairs: "assign_pairs u p (WirePairs ps) c = (Ok (Object a), ?c)"
    by (simp add: assign_pairs_run [OF g assms(4,5)] assms(6))
  have same: "\<not> value_differs ?c p (Object a)"
    using assms(4) by (simp add: value_differs_def current_value_def current_ref_def content_def store_object_def)
  show ?thesis
    by (simp add: property_configure_def assms(3) act_bind_run(1) [where m = "assign_pairs u p (WirePairs ps)", OF pairs]
        assign_value_quiet [OF assms(1,2) same])
qed

text \<open>
  C36: Assigning single items of a list by \<open>[@]\<close> changes the list, but no one is told: the handler of the
  component is not called and no property change event is sent, since the old value that the new one is
  compared with is the same list, already changed. The same new list, assigned as a whole, is announced.
\<close>

theorem pair_assignments_are_silent:
  assumes "unvalidated u" "\<not> is_complex p" "class_of p = SimpleSeqProperty"
    and "dget (attrs c) (propid p) = Some (Object a)" "heap c a = PyList old"
    and "set_items ps old = (Returned (), new)" "\<not> same_object (PyList old) (PyList new)"
    and "checked_value F p (WireList ws) = Returned (PyList new)" "onconfigure_method u = None"
    and "isSendEventChange p" "event_supplier c" "a < fresh c"
  shows "(\<exists>c'. property_configure F (u\<lparr>onconfigure_method := h\<rparr>) p (WirePairs ps) (Some ''[@]'') False c = (Ok (), c') \<and>
           current_value c' p = PyList new \<and> events_sent c' = events_sent c) \<and>
         (\<exists>c'. property_configure F u p (WireList ws) None False c = (Ok (), c') \<and>
           current_value c' p = PyList new \<and> events_sent c' = events_sent c @ [propid p])"
proof (intro conjI)
  have u: "unvalidated (u\<lparr>onconfigure_method := h\<rparr>)" using assms(1) by (simp add: unvalidated_def plain_access_def)
  show "\<exists>c'. property_configure F (u\<lparr>onconfigure_method := h\<rparr>) p (WirePairs ps) (Some ''[@]'') False c = (Ok (), c') \<and>
           current_value c' p = PyList new \<and> events_sent c' = events_sent c"
    by (simp add: pairs_configure_run [OF u assms(2-6)])
      (simp add: set_ref_def current_value_def current_ref_def content_def store_object_def)
next
  let ?c = "c\<lparr>heap := (heap c)(fresh c := PyList new), fresh := Suc (fresh c)\<rparr>"
  have new: "act_bind (lift_outcome (checked_value F p (WireList ws))) new_object c = (Ok (Object (fresh c)), ?c)"
    by (simp add: assms(8) new_object_def is_mutable_def)
  have differs: "value_differs ?c p (Object (fresh c))"
    using assms(4,5,7,12) by (simp add: value_differs_def current_value_def current_ref_def content_def)
  show "\<exists>c'. property_configure F u p (WireList ws) None False c = (Ok (), c') \<and>
           current_value c' p = PyList new \<and> events_sent c' = events_sent c @ [propid p]"
    using assms(10,11)
    by (simp add: property_configure_def assms(3) act_bind_run(1) [where m = "act_bind (lift_outcome (checked_value F p (WireList ws))) new_object", OF new] assign_value_changed [OF assms(1,2) differs assms(9)])
      (simp add: note_event_def set_ref_def current_value_def current_ref_def content_def)
qed

text \<open>
  A validator that rejects an assignment by pairs comes too late. The request raises \<open>ValueError\<close>, but
  the list that the property holds has been changed already; a list assigned as a whole is dropped.
\<close>

theorem rejected_pairs_stay:
  assumes "plain_access u" "fval u = Some (\<lambda>r. act_return False)" "\<not> is_complex p" "class_of p = SimpleSeqProperty"
    and "dget (attrs c) (propid p) = Some (Object a)" "heap c a = PyList old"
    and "set_items ps old = (Returned (), new)"
    and "checked_value F p (WireList ws) = Returned (PyList vs)" "a < fresh c"
  shows "(\<exists>c'. property_configure F u p (WirePairs ps) (Some ''[@]'') False c = (Exn ValueError, c') \<and>
           current_value c' p = PyList new) \<and>
         (\<exists>c'. property_configure F u p (WireList ws) None False c = (Exn ValueError, c') \<and>
           current_value c' p = PyList old)"
proof (intro conjI)
  let ?c = "store_object (Object a) (PyList new) c"
  have g: "fget u = None" using assms(1) by (simp add: plain_access_def)
  have "approved (fval u) r = act_raise ValueError" for r
    by (rule ext) (simp add: assms(2) approved_def)
  then have refused: "assign_value u p quiet r s = (Exn ValueError, s)" for quiet r s
    by (simp add: assign_value_def assms(3) del: act_run) (simp add: act_then_def)
  have pairs: "assign_pairs u p (WirePairs ps) c = (Ok (Object a), ?c)"
    by (simp add: assign_pairs_run [OF g assms(5,6)] assms(7))
  show "\<exists>c'. property_configure F u p (WirePairs ps) (Some ''[@]'') False c = (Exn ValueError, c') \<and>
           current_value c' p = PyList new"
    using assms(5)
    by (simp add: property_configure_def assms(4) act_bind_run(1) [where m = "assign_pairs u p (WirePairs ps)", OF pairs] refused)
      (simp add: current_value_def current_ref_def content_def store_object_def)
  let ?d = "c\<lparr>heap := (heap c)(fresh c := PyList vs), fresh := Suc (fresh c)\<rparr>"
  have new: "act_bind (lift_outcome (checked_value F p (WireList ws))) new_object c = (Ok (Object (fresh c)), ?d)"
    by (simp add: assms(8) new_object_def is_mutable_def)
  show "\<exists>c'. property_configure F u p (WireList ws) None False c = (Exn ValueError, c') \<and>
           current_value c' p = PyList old"
    using assms(5,6,9) by (simp add: property_configure_def assms(4) act_bind_run(1) [where m = "act_bind (lift_outcome (checked_value F p (WireList ws))) new_object", OF new] refused)
      (simp add: current_value_def current_ref_def content_def)
qed

end
