(* ===== verification/PropertyChanges.thy ===== *)
theory PropertyChanges
  imports PropertyAssignments
begin

text \<open>
  \<open>PropertyStorage.query\<close>, \<open>construct\<close> and \<open>configure\<close> with the change listeners, and the registration
  of listeners. A listener is told the ID, the old and the new value, and changes only what it keeps
  for itself (\<open>registry\<close>); a listener for one property of kind \<open>property\<close> is only told of changed values, and
  must be a method (four parameters).
\<close>

section \<open>Operations\<close>

type_synonym 'r listening = "listener \<Rightarrow> string \<Rightarrow> pobj \<Rightarrow> pobj \<Rightarrow> 'r \<Rightarrow> 'r"

definition call_listener :: "'r listening \<Rightarrow> string \<Rightarrow> pyref \<Rightarrow> pyref \<Rightarrow> listener \<Rightarrow> ('r, unit) component_action" where
  "call_listener hear i old new l =
     act_update (\<lambda>c. c\<lparr>registry := hear l i (content c old) (content c new) (registry c)\<rparr>)"

definition complex_or_None :: "property_def \<Rightarrow> pyref \<Rightarrow> ('r, pyref) component_action" where
  "complex_or_None p r = (if \<not> is_complex p then act_return r
     else act_bind (act_get (\<lambda>c. content c r)) (\<lambda>v. if v = Single VNone then act_return r else complex_ref r))"

definition tell_by_id :: "'r listening \<Rightarrow> property_def \<Rightarrow> string \<Rightarrow> pyref \<Rightarrow> pyref \<Rightarrow> ('r, unit) component_action" where
  "tell_by_id hear p i old new = act_bind (act_get (\<lambda>c. dget (changeListeners c) i)) (\<lambda>found. case found of
      None \<Rightarrow> act_return ()
    | Some l \<Rightarrow>
      if ''configure'' \<in> set (kinds p) \<or> ''execparam'' \<in> set (kinds p) then call_listener hear i old new l
      else act_bind (act_get (\<lambda>c. \<not> same_object (content c old) (content c new))) (\<lambda>differs.
        if differs then (if argcount l \<noteq> 4 then act_raise InvalidConfigurationError else call_listener hear i old new l)
        else act_return ()))"

definition tell_generic :: "'r listening \<Rightarrow> string \<Rightarrow> pyref \<Rightarrow> pyref \<Rightarrow> ('r, unit) component_action" where
  "tell_generic hear i old new = act_bind (act_get genericListeners) (act_each (call_listener hear i old new))"

definition storage_configure ::
    "sequence_text \<Rightarrow> (string \<Rightarrow> 'r user_code) \<Rightarrow> 'r listening \<Rightarrow> storage \<Rightarrow> string \<Rightarrow> wire_value \<Rightarrow> bool
       \<Rightarrow> ('r, unit) component_action" where
  "storage_configure F us hear st i w disableCallbacks =
     act_bind (lift_outcome (splitId i)) (\<lambda>(j, op).
     act_bind (lift_outcome (lookup_id st j)) (\<lambda>p.
     act_bind (property_get (us j) p) (\<lambda>old.
     act_then (property_configure F (us j) p w op disableCallbacks)
     (act_bind (property_get (us j) p) (\<lambda>new.
     act_bind (complex_or_None p old) (\<lambda>old.
     act_bind (complex_or_None p new) (\<lambda>new.
       if disableCallbacks then act_return ()
       else act_then (tell_by_id hear p j old new) (tell_generic hear j old new))))))))"

definition storage_construct ::
    "sequence_text \<Rightarrow> (string \<Rightarrow> 'r user_code) \<Rightarrow> storage \<Rightarrow> string \<Rightarrow> wire_value \<Rightarrow> ('r, unit) component_action" where
  "storage_construct F us st i w =
     act_bind (lift_outcome (splitId i)) (\<lambda>(j, op).
     act_bind (lift_outcome (lookup_id st j)) (\<lambda>p.
     act_bind (property_get (us j) p) (\<lambda>old.
     act_then (property_configure F (us j) p w op True)
     (act_bind (property_get (us j) p) (\<lambda>new. act_return ())))))"

definition storage_query ::
    "sequence_text \<Rightarrow> (string \<Rightarrow> 'r user_code) \<Rightarrow> storage \<Rightarrow> string \<Rightarrow> ('r, any_answer) component_action" where
  "storage_query F us st i =
     act_bind (lift_outcome (splitId i)) (\<lambda>(j, op).
     act_bind (lift_outcome (lookup_id st j)) (\<lambda>p. property_query F (us j) p op))"

definition addChangeListener :: "listener \<Rightarrow> string list option \<Rightarrow> ('r, unit) component_action" where
  "addChangeListener l ids = (case ids of
      None \<Rightarrow> act_update (\<lambda>c. c\<lparr>genericListeners := genericListeners c @ [l]\<rparr>)
    | Some is \<Rightarrow> act_each (\<lambda>i. act_update (\<lambda>c. c\<lparr>changeListeners := dput i l (changeListeners c)\<rparr>)) is)"

definition removeChangeListener_id :: "string \<Rightarrow> ('r, unit) component_action" where
  "removeChangeListener_id i = act_bind (act_get (\<lambda>c. dget (changeListeners c) i)) (\<lambda>found.
     if found = None then act_raise KeyError
     else act_update (\<lambda>c. c\<lparr>changeListeners := dpop i (changeListeners c)\<rparr>))"

definition removeChangeListener :: "listener \<Rightarrow> ('r, unit) component_action" where
  "removeChangeListener l =
     act_update (\<lambda>c. c\<lparr>changeListeners := filter (\<lambda>(i, m). m \<noteq> l) (changeListeners c),
       genericListeners := filter (\<lambda>m. m \<noteq> l) (genericListeners c)\<rparr>)"

section \<open>Telling listeners\<close>

lemma call_listener_run:
  "call_listener hear i old new l c = (Ok (), c\<lparr>registry := hear l i (content c old) (content c new) (registry c)\<rparr>)"
  by (simp add: call_listener_def)

lemma content_registry [simp]: "content (c\<lparr>registry := g\<rparr>) r = content c r"
  by (simp add: content_def split: pyref.split)

lemma call_each_run:
  "act_each (call_listener hear i old new) ls c =
   (Ok (), c\<lparr>registry := fold (\<lambda>l. hear l i (content c old) (content c new)) ls (registry c)\<rparr>)"
  by (induction ls arbitrary: c) (simp_all add: act_then_run(1) [OF call_listener_run])

lemma tell_generic_run [act_simps]:
  "tell_generic hear i old new c =
   (Ok (), c\<lparr>registry := fold (\<lambda>l. hear l i (content c old) (content c new)) (genericListeners c) (registry c)\<rparr>)"
  by (simp add: tell_generic_def call_each_run)

lemma tell_by_id_None: "dget (changeListeners c) i = None \<Longrightarrow> tell_by_id hear p i old new c = (Ok (), c)"
  by (simp add: tell_by_id_def)

lemma tell_by_id_None_then: "dget (changeListeners c) i = None \<Longrightarrow> act_then (tell_by_id hear p i old new) n c = n c"
  by (rule act_then_run(1) [where m = "tell_by_id hear p i old new", OF tell_by_id_None])

text \<open>Listeners that are methods are always called without an exception, and touch only the registry.\<close>

lemma tell_by_id_run:
  "\<forall>l. dget (changeListeners c) i = Some l \<longrightarrow> argcount l = 4 \<Longrightarrow>
   \<exists>g. tell_by_id hear p i old new c = (Ok (), c\<lparr>registry := g\<rparr>)"
  by (cases "dget (changeListeners c) i")
    (auto simp: tell_by_id_def call_listener_def intro: exI [of _ "registry c"])

section \<open>Start values\<close>

text \<open>
  \<open>initialize\<close> and \<open>reset\<close> set every property to its default, an object that belongs to the class, and
  then the execution parameters, whose values are text. The defaults are a parameter, since they are
  given with the property attributes of the component class.
\<close>

definition convertType :: "text_format \<Rightarrow> storage \<Rightarrow> string \<Rightarrow> string option \<Rightarrow> pvalue outcome" where
  "convertType F st i value = (case dget (properties st) i of
      None \<Rightarrow> Raised KeyError
    | Some p \<Rightarrow> (case value of
        None \<Rightarrow> Returned VNone
      | Some s \<Rightarrow>
        let t = typename p in
        if t = ''boolean'' then Returned
          (if upper_ascii (strip s) \<in> {''TRUE'', ''1''} then VBool True
           else if upper_ascii (strip s) \<in> {''FALSE'', ''0''} then VBool False else VNone)
        else if t \<in> {''short'', ''long'', ''ulong'', ''ushort''} then omap VInt (parse_int s)
        else if t \<in> {''double'', ''float''} then
          (case read_float F s of Some x \<Rightarrow> Returned (VFloat x) | None \<Rightarrow> Raised ValueError)
        else Returned (VStr s)))"

definition storage_setitem :: "(string \<Rightarrow> 'r user_code) \<Rightarrow> storage \<Rightarrow> string \<Rightarrow> pyref \<Rightarrow> ('r, unit) component_action" where
  "storage_setitem us st k r = act_bind (lift_outcome (resolve_key st k)) (\<lambda>p. property_set (us (propid p)) p r)"

definition storage_getitem :: "(string \<Rightarrow> 'r user_code) \<Rightarrow> storage \<Rightarrow> string \<Rightarrow> ('r, pyref) component_action" where
  "storage_getitem us st k = act_bind (lift_outcome (resolve_key st k)) (\<lambda>p. property_get (us (propid p)) p)"

definition set_execparam ::
    "text_format \<Rightarrow> (string \<Rightarrow> 'r user_code) \<Rightarrow> storage \<Rightarrow> string \<times> string option \<Rightarrow> ('r, unit) component_action" where
  "set_execparam F us st kv = act_bind (lift_outcome (has_key st (fst kv))) (\<lambda>known.
     if known then act_bind (lift_outcome (convertType F st (fst kv) (snd kv))) (\<lambda>v.
       storage_setitem us st (fst kv) (Value (Single v)))
     else act_return ())"

definition storage_initialize ::
    "text_format \<Rightarrow> (string \<Rightarrow> 'r user_code) \<Rightarrow> (string \<Rightarrow> pyref) \<Rightarrow> storage \<Rightarrow> (string, string option) dict
       \<Rightarrow> ('r, unit) component_action" where
  "storage_initialize F us defaults st execparams =
     act_then (act_each (\<lambda>(i, p). property_set (us i) p (defaults i)) (properties st))
       (act_each (set_execparam F us st) execparams)"

section \<open>Resetting\<close>

lemma set_defaults_run:
  assumes "\<And>i. fset (us i) = None" "\<And>i p. (i, p) \<in> set ps \<Longrightarrow> propid p = i" "distinct (map fst ps)"
  shows "\<exists>d. act_each (\<lambda>(i, p). property_set (us i) p (defaults i)) ps c = (Ok (), c\<lparr>attrs := d\<rparr>) \<and>
    (\<forall>i. dget d i = (if i \<in> fst ` set ps then Some (defaults i) else dget (attrs c) i))"
  using assms(2,3)
proof (induction ps arbitrary: c)
  case Nil
  show ?case by (auto intro: exI [of _ "attrs c"])
next
  case (Cons e ps)
  obtain i p where e: "e = (i, p)" by (cases e)
  have i: "propid p = i" using Cons.prems(1) [of i p] by (simp add: e)
  let ?c = "set_ref p (defaults i) c"
  have "\<exists>d. act_each (\<lambda>(i, p). property_set (us i) p (defaults i)) ps ?c = (Ok (), ?c\<lparr>attrs := d\<rparr>) \<and>
    (\<forall>i. dget d i = (if i \<in> fst ` set ps then Some (defaults i) else dget (attrs ?c) i))"
    by (rule Cons.IH) (use Cons.prems in auto)
  then obtain d where d: "act_each (\<lambda>(i, p). property_set (us i) p (defaults i)) ps ?c = (Ok (), ?c\<lparr>attrs := d\<rparr>)"
    "\<And>i. dget d i = (if i \<in> fst ` set ps then Some (defaults i) else dget (attrs ?c) i)" by blast
  have "act_each (\<lambda>(i, p). property_set (us i) p (defaults i)) (e # ps) c = (Ok (), c\<lparr>attrs := d\<rparr>)"
    using d(1) by (simp add: e act_then_run(1) [OF property_set_run [OF assms(1)]] set_ref_def)
  then show ?case using d(2) by (intro exI [of _ d]) (auto simp: e set_ref_def i)
qed

text \<open>
  \<open>reset\<close> gives every property the default object of its class back, not a copy of it. A list default
  that was changed through an assignment by pairs therefore survives the reset, in this component and
  in every other component of the class.
\<close>

theorem reset_keeps_changed_default:
  assumes "storage_ok st" "\<And>i. unvalidated (us i)" "dget (properties st) i = Some p"
    and "class_of p = SimpleSeqProperty" "\<not> is_complex p" "splitId k = Returned (i, Some ''[@]'')"
    and "dget (attrs c) i = Some (defaults i)" "defaults i = Object a" "heap c a = PyList old"
    and "set_items ps old = (Returned (), new)" "dget (changeListeners c) i = None" "genericListeners c = []"
  shows "\<exists>c1 c2. storage_configure F us hear st k (WirePairs ps) False c = (Ok (), c1) \<and>
     storage_initialize G us defaults st [] c1 = (Ok (), c2) \<and> current_value c2 p = PyList new \<and>
     (\<forall>j q. dget (properties st) j = Some q \<longrightarrow> current_ref c2 q = defaults j)"
proof -
  let ?c = "set_ref p (Object a) (store_object (Object a) (PyList new) c)"
  have p: "propid p = i" using assms(1,3) by (simp add: storage_ok_def)
  have g: "fget (us i) = None" "fset (us j) = None" for j
    using assms(2) [of i] assms(2) [of j] by (simp_all add: unvalidated_def plain_access_def)
  have attr: "dget (attrs c) (propid p) = Some (Object a)" using assms(7,8) by (simp add: p)
  have pc: "property_configure F (us i) p (WirePairs ps) (Some ''[@]'') False c = (Ok (), ?c)"
    by (rule pairs_configure_run [OF assms(2) assms(5,4) attr]) (use assms(8,9,10) in simp_all)
  have quiet: "dget (changeListeners ?c) i = None" using assms(11) by (simp add: set_ref_def store_object_def)
  have one: "storage_configure F us hear st k (WirePairs ps) False c = (Ok (), ?c)"
    by (simp add: storage_configure_def assms(6) lookup_id_def assms(3,5) act_bind_run(1) [OF property_get_run [OF g(1)]]
        act_then_run(1) [where m = "property_configure F (us i) p (WirePairs ps) (Some ''[@]'') False", OF pc] complex_or_None_def
        tell_by_id_None_then [OF quiet])
      (use assms(12) in \<open>simp add: tell_generic_run set_ref_def store_object_def\<close>)
  have "distinct (map fst (properties st))" "\<And>i q. (i, q) \<in> set (properties st) \<Longrightarrow> propid q = i"
    using assms(1) by (auto simp: storage_ok_def dict_ok_def dkeys_def dget_mem)
  then obtain d where d: "act_each (\<lambda>(i, p). property_set (us i) p (defaults i)) (properties st) ?c = (Ok (), ?c\<lparr>attrs := d\<rparr>)"
    "\<And>i. dget d i = (if i \<in> fst ` set (properties st) then Some (defaults i) else dget (attrs ?c) i)"
    using set_defaults_run [of us "properties st" defaults ?c] g(2) by blast
  have "storage_initialize G us defaults st [] ?c = (Ok (), ?c\<lparr>attrs := d\<rparr>)"
    by (simp add: storage_initialize_def act_then_run(1) [where m = "act_each (\<lambda>(i, p). property_set (us i) p (defaults i)) (properties st)", OF d(1)])
  moreover have "current_ref (?c\<lparr>attrs := d\<rparr>) q = defaults j" if "dget (properties st) j = Some q" for j q
  proof -
    have "propid q = j" using assms(1) that by (simp add: storage_ok_def)
    moreover have "j \<in> fst ` set (properties st)" using dget_Some_mem [OF that] by force
    ultimately show ?thesis by (simp add: current_ref_def d(2))
  qed
  ultimately show ?thesis
    using one assms(3,8) by (auto simp: current_value_def content_def set_ref_def store_object_def)
qed

end
