(* ===== verification/PropertyRequests.thy ===== *)
theory PropertyRequests
  imports Actions
begin

text \<open>
  The contract between a component and the storage of its properties, and what follows from it for a
  request with several properties. The storage promises that a property is either set to a value that
  the request alone determines, with all other properties as they were, or refused with no property
  changed; a request then settles all its properties one by one, and reports exactly the refused ones.
\<close>

fun act_reject :: "('q \<Rightarrow> ('s, bool) action) \<Rightarrow> 'q list \<Rightarrow> ('s, 'q list) action" where
  "act_reject f [] = act_return []"
| "act_reject f (q # qs) = act_bind (f q) (\<lambda>ok.
     act_bind (act_reject f qs) (\<lambda>rejected. act_return (if ok then rejected else q # rejected)))"

datatype 'q set_answer = AllSet | PartialConfiguration "'q list" | InvalidConfiguration "'q list" | AlreadyInitialized

definition configuration_answer :: "'q list \<Rightarrow> 'q list \<Rightarrow> 'q set_answer" where
  "configuration_answer reqs notSet =
     (if 0 < length notSet \<and> length notSet < length reqs then PartialConfiguration notSet
      else if 0 < length notSet then InvalidConfiguration notSet
      else AllSet)"

lemma configuration_answer_filter:
  "configuration_answer reqs (filter P reqs) =
     (if \<forall>q \<in> set reqs. \<not> P q then AllSet
      else if \<forall>q \<in> set reqs. P q then InvalidConfiguration reqs
      else PartialConfiguration (filter P reqs))"
proof -
  have all: "length (filter P reqs) < length reqs \<longleftrightarrow> \<not> (\<forall>q \<in> set reqs. P q)"
    by (metis filter_True length_filter_le length_filter_less linorder_not_less nat_less_le)
  have none: "0 < length (filter P reqs) \<longleftrightarrow> \<not> (\<forall>q \<in> set reqs. \<not> P q)"
    by (simp add: filter_empty_conv)
  have "filter P reqs = reqs" if "\<forall>q \<in> set reqs. P q" using that by simp
  then show ?thesis unfolding configuration_answer_def all none by auto
qed

text \<open>The values that a list of requests gives for one property, and the value that they leave it.\<close>

definition given_values :: "('q \<Rightarrow> ('i \<times> 'v) option) \<Rightarrow> 'i \<Rightarrow> 'q list \<Rightarrow> 'v list" where
  "given_values acc i qs = concat (map (\<lambda>q. case acc q of Some (j, v) \<Rightarrow> if j = i then [v] else [] | None \<Rightarrow> []) qs)"

definition settled_value :: "('q \<Rightarrow> ('i \<times> 'v) option) \<Rightarrow> 'v \<Rightarrow> 'i \<Rightarrow> 'q list \<Rightarrow> 'v" where
  "settled_value acc old i qs = (if given_values acc i qs = [] then old else last (given_values acc i qs))"

lemma settled_Nil [simp]: "settled_value acc old i [] = old"
  by (simp add: settled_value_def given_values_def)

lemma settled_Cons [simp]:
  "settled_value acc old i (q # qs) =
     settled_value acc (case acc q of Some (j, v) \<Rightarrow> if j = i then v else old | None \<Rightarrow> old) i qs"
  by (auto simp: settled_value_def given_values_def split: option.split)

locale property_store =
  fixes attempt :: "'q \<Rightarrow> ('s, bool) action"
    and acc :: "'q \<Rightarrow> ('i \<times> 'v) option"
    and in_scope :: "'q \<Rightarrow> bool"
    and value_of :: "'s \<Rightarrow> 'i \<Rightarrow> 'v"
    and sound :: "'s \<Rightarrow> bool"
  assumes attempt_accepted: "sound s \<Longrightarrow> in_scope q \<Longrightarrow> acc q = Some (i, v) \<Longrightarrow>
      \<exists>t. attempt q s = (Ok True, t) \<and> sound t \<and> value_of t = (value_of s)(i := v)"
    and attempt_refused: "sound s \<Longrightarrow> in_scope q \<Longrightarrow> acc q = None \<Longrightarrow>
      \<exists>t. attempt q s = (Ok False, t) \<and> sound t \<and> value_of t = value_of s"
begin

lemma attempt_settles:
  assumes "sound s" "in_scope q"
  shows "\<exists>t. attempt q s = (Ok (acc q \<noteq> None), t) \<and> sound t \<and>
    (\<forall>i. value_of t i = settled_value acc (value_of s i) i [q])"
proof (cases "acc q")
  case None
  then show ?thesis using attempt_refused [OF assms None] by auto
next
  case (Some iv)
  obtain i v where iv: "iv = (i, v)" by (cases iv)
  then show ?thesis using attempt_accepted [OF assms, of i v] Some by auto
qed

lemma requests_settle:
  assumes "sound s" "\<And>q. q \<in> set qs \<Longrightarrow> in_scope q"
  shows "\<exists>t. act_reject attempt qs s = (Ok (filter (\<lambda>q. acc q = None) qs), t) \<and> sound t \<and>
    (\<forall>i. value_of t i = settled_value acc (value_of s i) i qs)"
  using assms
proof (induction qs arbitrary: s)
  case (Cons q qs)
  obtain t where t: "attempt q s = (Ok (acc q \<noteq> None), t)" "sound t"
      "\<And>i. value_of t i = settled_value acc (value_of s i) i [q]"
    using attempt_settles [OF Cons.prems(1), of q] Cons.prems(2) [of q] by (auto simp del: settled_Cons)
  obtain z where z: "act_reject attempt qs t = (Ok (filter (\<lambda>q. acc q = None) qs), z)" "sound z"
      "\<And>i. value_of z i = settled_value acc (value_of t i) i qs"
    using Cons.IH [OF t(2)] Cons.prems(2) by auto
  have run: "act_reject attempt (q # qs) s = (Ok (filter (\<lambda>q. acc q = None) (q # qs)), z)"
    by (simp add: act_bind_run(1) [where m = "attempt q", OF t(1)] act_bind_run(1) [where m = "act_reject attempt qs", OF z(1)])
  show ?case by (intro exI [of _ z] conjI run z(2)) (simp add: z(3) t(3))
qed simp

lemma requests_preserve:
  assumes "sound s" "\<And>q. q \<in> set qs \<Longrightarrow> in_scope q" "\<And>q i v. acc q = Some (i, v) \<Longrightarrow> G i v" "\<And>i. G i (value_of s i)"
  shows "\<exists>t. act_reject attempt qs s = (Ok (filter (\<lambda>q. acc q = None) qs), t) \<and> sound t \<and> (\<forall>i. G i (value_of t i))"
proof -
  obtain t where t: "act_reject attempt qs s = (Ok (filter (\<lambda>q. acc q = None) qs), t)" "sound t"
      "\<And>i. value_of t i = settled_value acc (value_of s i) i qs"
    using requests_settle [OF assms(1,2)] by auto
  have "G i (settled_value acc x i qs)" if "G i x" for i x
    using that by (induction qs arbitrary: x) (auto split: option.split dest: assms(3))
  then show ?thesis using t assms(4) by auto
qed

end

end
