(* ===== verification/PropertySet.thy ===== *)
theory PropertySet
  imports PropertyChanges PropertyRequests
begin

text \<open>
  The property interface of a component (\<open>Resource.configure\<close>, \<open>initializeProperties\<close> and \<open>query\<close> in
  \<open>ossie/resource.py\<close>): the storage of the properties keeps the contract of \<open>property_store\<close>, so
  that a request sets exactly the valid properties and reports exactly the others.
\<close>

section \<open>Operations\<close>

type_synonym property_request = "string \<times> wire_value"

definition guarded ::
    "(storage \<Rightarrow> string \<Rightarrow> bool outcome) \<Rightarrow> storage \<Rightarrow> string \<Rightarrow> ('r, unit) component_action \<Rightarrow> ('r, bool) component_action" where
  "guarded allowed st i m = act_catch
     (act_bind (lift_outcome (has_id st i)) (\<lambda>known.
        if \<not> known then act_return False
        else act_bind (lift_outcome (allowed st i)) (\<lambda>ok.
          if \<not> ok then act_return False
          else act_catch (act_then m (act_return True)) (\<lambda>e. act_return False))))
     (\<lambda>e. act_return False)"

definition try_configure ::
    "sequence_text \<Rightarrow> (string \<Rightarrow> 'r user_code) \<Rightarrow> 'r listening \<Rightarrow> storage \<Rightarrow> property_request \<Rightarrow> ('r, bool) component_action" where
  "try_configure F us hear st q =
     guarded storage_isConfigurable st (fst q) (storage_configure F us hear st (fst q) (snd q) False)"

definition try_construct ::
    "sequence_text \<Rightarrow> (string \<Rightarrow> 'r user_code) \<Rightarrow> storage \<Rightarrow> property_request \<Rightarrow> ('r, bool) component_action" where
  "try_construct F us st q = guarded storage_isProperty st (fst q) (storage_construct F us st (fst q) (snd q))"

text \<open>
  \<open>propertySetAccess\<close>, a lock that is not reentrant. \<open>locked\<close> releases it on every way out, by \<open>with\<close>, by
  \<open>except\<close> clauses, or because all exceptions are caught before.
\<close>

definition acquire_lock :: "('r, unit) component_action" where
  "acquire_lock = act_bind (act_get property_lock) (\<lambda>held.
     if held then act_hang else act_update (\<lambda>c. c\<lparr>property_lock := True\<rparr>))"

definition release_lock :: "('r, unit) component_action" where
  "release_lock = act_update (\<lambda>c. c\<lparr>property_lock := False\<rparr>)"

definition locked :: "('r, 'a) component_action \<Rightarrow> ('r, 'a) component_action" where
  "locked m = act_then acquire_lock
     (act_bind (act_catch m (\<lambda>e. act_then release_lock (act_raise e))) (\<lambda>x. act_then release_lock (act_return x)))"

definition configure_properties ::
    "sequence_text \<Rightarrow> (string \<Rightarrow> 'r user_code) \<Rightarrow> 'r listening \<Rightarrow> storage \<Rightarrow> property_request list
       \<Rightarrow> ('r, property_request set_answer) component_action" where
  "configure_properties F us hear st reqs =
     act_bind (act_reject (try_configure F us hear st) reqs) (\<lambda>notSet. act_return (configuration_answer reqs notSet))"

definition Resource_configure ::
    "sequence_text \<Rightarrow> (string \<Rightarrow> 'r user_code) \<Rightarrow> 'r listening \<Rightarrow> storage \<Rightarrow> property_request list
       \<Rightarrow> ('r, property_request set_answer) component_action" where
  "Resource_configure F us hear st reqs = locked (configure_properties F us hear st reqs)"

definition Resource_initializeProperties ::
    "sequence_text \<Rightarrow> (string \<Rightarrow> 'r user_code) \<Rightarrow> storage \<Rightarrow> property_request list
       \<Rightarrow> ('r, property_request set_answer) component_action" where
  "Resource_initializeProperties F us st reqs = locked (
     act_bind (act_get propertiesInitialized) (\<lambda>done_before.
       if done_before then act_return AlreadyInitialized
       else act_then (act_update (\<lambda>c. c\<lparr>propertiesInitialized := True\<rparr>))
         (act_bind (act_reject (try_construct F us st) reqs) (\<lambda>notSet. act_return (configuration_answer reqs notSet)))))"

text \<open>
  Queries. An ID whose query fails keeps the value that came with the request, or \<open>None\<close> when all
  properties are asked for; \<open>QueryTime\<close> is the answer to the reserved ID of the query time stamp.
\<close>

datatype query_result = Answer any_answer | Unchanged | QueryTime
datatype query_answer = QueryResults "(string \<times> query_result) list" | UnknownProperties "string list"

definition QUERY_TIMESTAMP :: string where
  "QUERY_TIMESTAMP = ''QUERY_TIMESTAMP''"

definition queryable_id :: "storage \<Rightarrow> string \<Rightarrow> bool outcome" where
  "queryable_id st i = obind (has_id st i) (\<lambda>known. if known then storage_isQueryable st i else Returned False)"

definition query_or ::
    "query_result \<Rightarrow> sequence_text \<Rightarrow> (string \<Rightarrow> 'r user_code) \<Rightarrow> storage \<Rightarrow> string \<Rightarrow> ('r, query_result) component_action" where
  "query_or otherwise F us st i = act_catch (act_bind (storage_query F us st i) (\<lambda>a. act_return (Answer a)))
     (\<lambda>e. act_return otherwise)"

fun query_all ::
    "sequence_text \<Rightarrow> (string \<Rightarrow> 'r user_code) \<Rightarrow> storage \<Rightarrow> string list \<Rightarrow> ('r, (string \<times> query_result) list) component_action" where
  "query_all F us st [] = act_return []"
| "query_all F us st (i # is) = act_bind (lift_outcome (queryable_id st i)) (\<lambda>ok.
     if ok then act_bind (query_or (Answer AnswerNone) F us st i) (\<lambda>a.
       act_bind (query_all F us st is) (\<lambda>as. act_return ((i, a) # as)))
     else query_all F us st is)"

text \<open>The results for the known IDs and the unknown IDs of a request.\<close>

fun query_listed ::
    "sequence_text \<Rightarrow> (string \<Rightarrow> 'r user_code) \<Rightarrow> storage \<Rightarrow> string list
       \<Rightarrow> ('r, (string \<times> query_result) list \<times> string list) component_action" where
  "query_listed F us st [] = act_return ([], [])"
| "query_listed F us st (i # is) =
     (if i = QUERY_TIMESTAMP then
        act_bind (query_listed F us st is) (\<lambda>(as, bad). act_return ((i, QueryTime) # as, bad))
      else act_bind (lift_outcome (queryable_id st i)) (\<lambda>ok.
        if ok then act_bind (query_or Unchanged F us st i) (\<lambda>a.
          act_bind (query_listed F us st is) (\<lambda>(as, bad). act_return ((i, a) # as, bad)))
        else act_bind (query_listed F us st is) (\<lambda>(as, bad). act_return (as, i # bad))))"

definition Resource_query ::
    "sequence_text \<Rightarrow> (string \<Rightarrow> 'r user_code) \<Rightarrow> storage \<Rightarrow> string list \<Rightarrow> ('r, query_answer) component_action" where
  "Resource_query F us st is = locked (if is = []
     then act_bind (query_all F us st (dkeys (properties st))) (\<lambda>as. act_return (QueryResults as))
     else act_bind (query_listed F us st is) (\<lambda>(as, bad).
       act_return (if bad \<noteq> [] then UnknownProperties bad else QueryResults as)))"

lemma acquire_run:
  "\<not> property_lock c \<Longrightarrow> acquire_lock c = (Ok (), c\<lparr>property_lock := True\<rparr>)"
  "property_lock c \<Longrightarrow> acquire_lock c = (Hangs, c)"
  by (simp_all add: acquire_lock_def)

lemma property_locked_run:
  "\<not> property_lock c \<Longrightarrow> m (c\<lparr>property_lock := True\<rparr>) = (Ok x, t) \<Longrightarrow> locked m c = (Ok x, t\<lparr>property_lock := False\<rparr>)"
  "property_lock c \<Longrightarrow> locked m c = (Hangs, c)"
  by (simp_all add: locked_def release_lock_def acquire_run act_then_def act_bind_def act_catch_def)

lemma locked_return:
  assumes "\<not> property_lock c" "m (c\<lparr>property_lock := True\<rparr>) = (Ok x, c\<lparr>property_lock := True\<rparr>)"
  shows "locked m c = (Ok x, c)"
proof -
  have "c\<lparr>property_lock := False\<rparr> = c" using assms(1) by (cases c) simp
  then show ?thesis using property_locked_run(1) [of c m, OF assms] by simp
qed

section \<open>The storage keeps the contract\<close>

text \<open>
  Values are determined by the request alone for properties that are not complex and for requests that
  are not assignments by pairs; user code is a check of the new value.
\<close>

definition checking_code :: "(string \<Rightarrow> pobj \<Rightarrow> bool) \<Rightarrow> string \<Rightarrow> 'r user_code" where
  "checking_code V i = no_user_code\<lparr>fval := Some (\<lambda>r. act_get (\<lambda>c. V i (content c r)))\<rparr>"

definition accepted_value ::
    "sequence_text \<Rightarrow> (string \<Rightarrow> pobj \<Rightarrow> bool) \<Rightarrow> (property_def \<Rightarrow> bool) \<Rightarrow> storage \<Rightarrow> property_request \<Rightarrow> (string \<times> pobj) option" where
  "accepted_value F V allowed st q = (case splitId (fst q) of
      Returned (j, op) \<Rightarrow> (case dget (properties st) j of
          Some p \<Rightarrow> (if allowed p \<and> (class_of p = SimpleSeqProperty \<or> op = None) then
              (case checked_value F p (snd q) of
                 Returned v \<Rightarrow> if V j v then Some (j, v) else None
               | _ \<Rightarrow> None)
            else None)
        | None \<Rightarrow> None)
    | _ \<Rightarrow> None)"

definition plain_request :: "storage \<Rightarrow> property_request \<Rightarrow> bool" where
  "plain_request st q \<longleftrightarrow> (\<forall>j op p. splitId (fst q) = Returned (j, op) \<longrightarrow> dget (properties st) j = Some p \<longrightarrow>
     propid p = j \<and> \<not> is_complex p \<and> op \<noteq> Some ''[@]'')"

definition held_value :: "'r component \<Rightarrow> string \<Rightarrow> pobj" where
  "held_value c i = content c (case dget (attrs c) i of Some r \<Rightarrow> r | None \<Rightarrow> NoneRef)"

definition component_ok :: "'r component \<Rightarrow> bool" where
  "component_ok c \<longleftrightarrow> (\<forall>i a. dget (attrs c) i = Some (Object a) \<longrightarrow> a < fresh c) \<and>
     (\<forall>i l. dget (changeListeners c) i = Some l \<longrightarrow> argcount l = 4)"

subsection \<open>Conversions end\<close>

lemma omap_Blocked [simp]: "omap f m = Blocked \<longleftrightarrow> m = Blocked"
  by (rule omap_Blocked_iff)

lemma make_complex_ends [simp]: "make_complex a b \<noteq> Blocked"
  by (simp add: make_complex_def split: option.split)

lemma parts_end [simp]: "parts_of v \<noteq> Blocked"
  by (cases v) (simp_all add: parts_of_def)

lemma toPyComplex_ends [simp]: "toPyComplex v \<noteq> Blocked"
  by (cases v) (auto simp: toPyComplex_def obind_Blocked_iff)

lemma calls_end [simp]: "call_int v \<noteq> Blocked" "call_float F v \<noteq> Blocked" "call_str F v \<noteq> Blocked"
  by (cases v; simp add: call_int_def call_float_def call_str_def split: option.split)+

lemma to_pyvalue_ends [simp]: "to_pyvalue F t v \<noteq> Blocked"
  by (cases v) (simp_all add: to_pyvalue_def split: option.split pytype.split bool.split)

lemma collect_ends: "(\<And>x. f x \<noteq> Blocked) \<Longrightarrow> collect_outcomes f xs \<noteq> Blocked"
  by (induction xs) (auto simp: obind_Blocked_iff)

lemma text_conversions_end [simp]: "list_to_pyvalue t s \<noteq> Blocked" "pair_to_pyvalue t s \<noteq> Blocked"
  by (auto simp: list_to_pyvalue_def pair_to_pyvalue_def split: option.split pytype.split)

lemma fromAny_ends [simp]: "fromAny F p w \<noteq> Blocked"
  by (cases w)
    (auto simp: fromAny_def simple_fromAny_def simpleseq_fromAny_def collect_ends split: property_class.split)

lemma inBounds_ends [simp]: "inBounds b v \<noteq> Blocked"
  by (cases v) (simp_all add: inBounds_def)

lemma checkBounds_ends [simp]: "checkBoundsOfSimpleProperty t v \<noteq> Blocked"
  by (auto simp: checkBoundsOfSimpleProperty_def obind_Blocked_iff split: option.split)

lemma checkSimple_ends [simp]: "checkSimple t v \<noteq> Blocked"
  by (auto simp: checkSimple_def obind_Blocked_iff)

lemma check_items_end [simp]: "check_items t vs \<noteq> Blocked"
  by (induction t vs rule: check_items.induct) (auto simp: obind_Blocked_iff)

lemma items_in_ends [simp]: "items_in v \<noteq> Blocked"
  by (auto simp: items_in_def split: pobj.split pvalue.split)

lemma checkValue_ends [simp]: "checkValue p v \<noteq> Blocked"
  by (auto simp: checkValue_def obind_Blocked_iff split: property_class.split pobj.split bool.split pvalue.split)

lemma checked_value_ends [simp]: "checked_value F p w \<noteq> Blocked"
  by (auto simp: checked_value_def obind_Blocked_iff)

subsection \<open>Effects\<close>

definition sets_value :: "string \<Rightarrow> pobj \<Rightarrow> 'r component \<Rightarrow> 'r component \<Rightarrow> bool" where
  "sets_value i v c d \<longleftrightarrow> component_ok d \<and> held_value d = (held_value c)(i := v)"

definition keeps_values :: "'r component \<Rightarrow> 'r component \<Rightarrow> bool" where
  "keeps_values c d \<longleftrightarrow> component_ok d \<and> held_value d = held_value c"

definition ref_ok :: "'r component \<Rightarrow> pyref \<Rightarrow> bool" where
  "ref_ok c r \<longleftrightarrow> (case r of Value _ \<Rightarrow> True | Object a \<Rightarrow> a < fresh c)"

lemma lock_fields [simp]:
  "held_value (c\<lparr>property_lock := b\<rparr>) = held_value c" "component_ok (c\<lparr>property_lock := b\<rparr>) = component_ok c"
  "content (c\<lparr>property_lock := b\<rparr>) r = content c r"
  by (auto simp: held_value_def component_ok_def content_def fun_eq_iff split: pyref.split option.split)

lemma keeps_refl [simp]: "component_ok c \<Longrightarrow> keeps_values c c"
  by (simp add: keeps_values_def)

lemma keeps_sets: "keeps_values c d \<Longrightarrow> sets_value i v d e \<Longrightarrow> sets_value i v c e"
  by (simp add: keeps_values_def sets_value_def)

lemma keeps_keeps: "keeps_values c d \<Longrightarrow> keeps_values d e \<Longrightarrow> keeps_values c e"
  by (simp add: keeps_values_def)

lemma sets_keeps: "sets_value i v c d \<Longrightarrow> keeps_values d e \<Longrightarrow> sets_value i v c e"
  by (simp add: keeps_values_def sets_value_def)

lemma new_object_effect:
  assumes "component_ok c"
  obtains r d where "new_object v c = (Ok r, d)" "keeps_values c d" "content d r = v" "ref_ok d r" "component_ok d"
proof (cases "is_mutable v")
  case True
  let ?d = "c\<lparr>heap := (heap c)(fresh c := v), fresh := Suc (fresh c)\<rparr>"
  have h: "held_value ?d i = held_value c i" for i
    using assms by (auto simp: held_value_def content_def component_ok_def NoneRef_def split: option.split pyref.split)
  have ok: "component_ok ?d" using assms by (auto simp: component_ok_def less_SucI)
  show ?thesis
    by (rule that [of "Object (fresh c)" ?d])
      (use True ok h in \<open>auto simp: new_object_def keeps_values_def content_def ref_ok_def\<close>)
next
  case False
  then show ?thesis using assms by (intro that [of "Value v" c]) (simp_all add: new_object_def content_def ref_ok_def)
qed

lemma set_ref_effect: "component_ok c \<Longrightarrow> ref_ok c r \<Longrightarrow> sets_value (propid p) (content c r) c (set_ref p r c)"
  by (auto simp: sets_value_def component_ok_def held_value_def set_ref_def ref_ok_def content_def fun_eq_iff
      split: pyref.splits if_splits option.split)

lemma bookkeeping_effect:
  "component_ok c \<Longrightarrow> keeps_values c (note_event p c)"
  "component_ok c \<Longrightarrow> keeps_values c (c\<lparr>registry := g\<rparr>)"
  by (auto simp: keeps_values_def component_ok_def held_value_def note_event_def content_def fun_eq_iff
      split: pyref.splits option.split)

subsection \<open>One property\<close>

lemma checking_code_fields [simp]:
  "fget (checking_code V j) = None" "fset (checking_code V j) = None" "query_method (checking_code V j) = None"
  "validate_method (checking_code V j) = None" "onconfigure_method (checking_code V j) = None"
  "fval (checking_code V j) = Some (\<lambda>r. act_get (\<lambda>c. V j (content c r)))"
  by (simp_all add: checking_code_def no_user_code_def)

lemma assign_checked:
  assumes "component_ok c" "ref_ok c r" "\<not> is_complex p"
  shows "if V j (content c r)
    then \<exists>d. assign_value (checking_code V j) p quiet r c = (Ok (), d) \<and> sets_value (propid p) (content c r) c d
    else assign_value (checking_code V j) p quiet r c = (Exn ValueError, c)"
proof -
  let ?u = "checking_code V j"
  have a: "approved (fval ?u) r c = (if V j (content c r) then (Ok (), c) else (Exn ValueError, c))"
    by (simp add: approved_def)
  show ?thesis
  proof (cases "V j (content c r)")
    case False
    then have "approved (fval ?u) r c = (Exn ValueError, c)" using a by simp
    then show ?thesis using False assms(3)
      by (simp add: assign_value_def act_then_run(2) [where m = "approved (Some (\<lambda>r. act_get (\<lambda>c. V j (content c r)))) r"])
  next
    case True
    then have ok: "approved (fval ?u) r c = (Ok (), c)" using a by simp
    have set: "property_set ?u p r c = (Ok (), set_ref p r c)" by (rule property_set_run) simp
    have get: "property_get ?u p c = (Ok (current_ref c p), c)" by (rule property_get_run) simp
    have "\<exists>e. assign_value ?u p quiet r c = (Ok (), e) \<and> (e = set_ref p r c \<or> e = note_event p (set_ref p r c))"
      using assms(3) ok
      by (simp add: assign_value_def act_then_run(1) [where m = "approved (Some (\<lambda>r. act_get (\<lambda>c. V j (content c r)))) r"]
          act_bind_run(1) [where m = "property_get ?u p", OF get] act_then_run(1) [where m = "property_set ?u p r", OF set]
          act_when_def send_change_event_run)
    moreover have s: "sets_value (propid p) (content c r) c (set_ref p r c)" by (rule set_ref_effect [OF assms(1,2)])
    moreover from s have "sets_value (propid p) (content c r) c (note_event p (set_ref p r c))"
      by (rule sets_keeps) (use s in \<open>simp add: bookkeeping_effect sets_value_def\<close>)
    ultimately show ?thesis using True by auto
  qed
qed

lemma property_configure_checked:
  assumes "component_ok c" "\<not> is_complex p" "op \<noteq> Some ''[@]''" "class_of p = SimpleSeqProperty \<or> op = None"
  shows "case checked_value F p w of
      Returned v \<Rightarrow> (if V j v
        then \<exists>d. property_configure F (checking_code V j) p w op quiet c = (Ok (), d) \<and> sets_value (propid p) v c d
        else \<exists>d. property_configure F (checking_code V j) p w op quiet c = (Exn ValueError, d) \<and> keeps_values c d)
    | Raised e \<Rightarrow> property_configure F (checking_code V j) p w op quiet c = (Exn e, c)
    | Blocked \<Rightarrow> True"
proof -
  let ?u = "checking_code V j"
  have unfold: "property_configure F ?u p w op quiet =
      act_bind (lift_outcome (checked_value F p w)) (\<lambda>v. act_bind (new_object v) (assign_value ?u p quiet))"
    using assms(3,4) by (cases "class_of p"; cases "checked_value F p w")
      (auto simp: property_configure_def act_bind_def fun_eq_iff act_hang_def)
  show ?thesis
  proof (cases "checked_value F p w")
    case (Returned v)
    obtain r d where d: "new_object v c = (Ok r, d)" "keeps_values c d" "content d r = v" "ref_ok d r" "component_ok d"
      by (rule new_object_effect [OF assms(1)])
    have run: "property_configure F ?u p w op quiet c = assign_value ?u p quiet r d"
      by (simp add: unfold Returned act_bind_run(1) [where m = "new_object v", OF d(1)])
    show ?thesis
    proof (cases "V j v")
      case True
      then obtain e where "assign_value ?u p quiet r d = (Ok (), e)" "sets_value (propid p) v d e"
        using assign_checked [OF d(5,4) assms(2), of V j quiet] by (auto simp: d(3))
      then show ?thesis using True keeps_sets [OF d(2)] by (auto simp: Returned run)
    next
      case False
      then have "assign_value ?u p quiet r d = (Exn ValueError, d)"
        using assign_checked [OF d(5,4) assms(2), of V j quiet] by (simp add: d(3))
      then show ?thesis using False d(2) by (auto simp: Returned run)
    qed
  qed (simp_all add: unfold)
qed

text \<open>The storage: a listener changes no value, and the whole operation succeeds when setting does.\<close>

lemma tell_effect:
  assumes "component_ok c"
  shows "\<exists>g. act_then (tell_by_id hear p j old new) (tell_generic hear j old new) c = (Ok (), c\<lparr>registry := g\<rparr>)"
proof -
  obtain g where g: "tell_by_id hear p j old new c = (Ok (), c\<lparr>registry := g\<rparr>)"
    using tell_by_id_run [of c j hear p old new] assms by (auto simp: component_ok_def)
  show ?thesis
    by (rule exI) (simp add: act_then_run(1) [where m = "tell_by_id hear p j old new", OF g] tell_generic_run)
qed

lemma storage_operations:
  assumes "splitId i = Returned (j, op)" "dget (properties st) j = Some p" "\<not> is_complex p"
    and "property_configure F (us j) p w op quiet c = (r, d)" "fget (us j) = None"
  shows "r = Exn e \<Longrightarrow> storage_configure F us hear st i w quiet c = (Exn e, d)"
    and "r = Ok () \<Longrightarrow> component_ok d \<Longrightarrow> \<exists>z. storage_configure F us hear st i w quiet c = (Ok (), z) \<and> keeps_values d z"
    and "r = Exn e \<Longrightarrow> quiet \<Longrightarrow> storage_construct F us st i w c = (Exn e, d)"
    and "r = Ok () \<Longrightarrow> quiet \<Longrightarrow> storage_construct F us st i w c = (Ok (), d)"
proof -
  note get = act_bind_run(1) [where m = "property_get (us j) p", OF property_get_run [OF assms(5)]]
  let ?conf = "property_configure F (us j) p w op quiet"
  let ?cons = "property_configure F (us j) p w op True"
  note fail = act_then_run(2) [where m = ?conf] and succeed = act_then_run(1) [where m = ?conf]
  note fail' = act_then_run(2) [where m = ?cons] and succeed' = act_then_run(1) [where m = ?cons]
  show "storage_configure F us hear st i w quiet c = (Exn e, d)" if "r = Exn e"
    using assms(4) that by (simp add: storage_configure_def assms(1,2) lookup_id_def get fail)
  show "storage_construct F us st i w c = (Exn e, d)" if "r = Exn e" quiet
    using assms(4) that by (simp add: storage_construct_def assms(1,2) lookup_id_def get fail')
  show "storage_construct F us st i w c = (Ok (), d)" if "r = Ok ()" quiet
    using assms(4) that by (simp add: storage_construct_def assms(1,2) lookup_id_def get succeed')
  assume r: "r = Ok ()" and ok: "component_ok d"
  obtain g where g: "act_then (tell_by_id hear p j (current_ref c p) (current_ref d p))
      (tell_generic hear j (current_ref c p) (current_ref d p)) d = (Ok (), d\<lparr>registry := g\<rparr>)"
    using tell_effect [OF ok] by blast
  show "\<exists>z. storage_configure F us hear st i w quiet c = (Ok (), z) \<and> keeps_values d z"
    using assms(3,4) r g bookkeeping_effect(2) [OF ok] ok
    by (cases quiet) (auto simp: storage_configure_def assms(1,2) lookup_id_def get complex_or_None_def
        act_then_run(1) [where m = "property_configure F (us j) p w op True"]
        act_then_run(1) [where m = "property_configure F (us j) p w op False"])
qed

subsection \<open>The contract\<close>

lemma guarded_run:
  assumes "splitId i = Returned (j, op)"
  shows "dget (properties st) j = None \<Longrightarrow> guarded allowed st i m c = (Ok False, c)"
    and "dget (properties st) j = Some p \<Longrightarrow> allowed st i = Returned False \<Longrightarrow> guarded allowed st i m c = (Ok False, c)"
    and "dget (properties st) j = Some p \<Longrightarrow> allowed st i = Returned True \<Longrightarrow> m c = (Exn e, d) \<Longrightarrow>
      guarded allowed st i m c = (Ok False, d)"
    and "dget (properties st) j = Some p \<Longrightarrow> allowed st i = Returned True \<Longrightarrow> m c = (Ok (), d) \<Longrightarrow>
      guarded allowed st i m c = (Ok True, d)"
  by (simp_all add: guarded_def has_id_def bare_id_def assms act_catch_def act_then_def act_bind_def)

lemma guarded_without_id: "splitId i = Raised e \<Longrightarrow> guarded allowed st i m c = (Ok False, c)"
  by (simp add: guarded_def has_id_def bare_id_def act_catch_def)

lemma splitId_ends: "splitId i \<noteq> Blocked"
  by (simp add: splitId_def split: option.split)

text \<open>
  One law for both operations: \<open>allowed\<close> is the predicate of the property that the guard asks for, and
  \<open>attempt\<close> the guarded operation.
\<close>

lemma guarded_attempt:
  assumes "component_ok c" "plain_request st (i, w)"
    and allowed: "\<And>j op p. splitId i = Returned (j, op) \<Longrightarrow> dget (properties st) j = Some p \<Longrightarrow>
      guard st i = Returned (allow p)"
    and run: "\<And>j op p r d. splitId i = Returned (j, op) \<Longrightarrow> dget (properties st) j = Some p \<Longrightarrow> \<not> is_complex p \<Longrightarrow>
      property_configure F (checking_code V j) p w op quiet c = (r, d) \<Longrightarrow>
      (\<forall>e. r = Exn e \<longrightarrow> m c = (Exn e, d)) \<and>
      (r = Ok () \<longrightarrow> component_ok d \<longrightarrow> (\<exists>z. m c = (Ok (), z) \<and> keeps_values d z))"
  shows "case accepted_value F V allow st (i, w) of
      Some (j, v) \<Rightarrow> \<exists>t. guarded guard st i m c = (Ok True, t) \<and> sets_value j v c t
    | None \<Rightarrow> \<exists>t. guarded guard st i m c = (Ok False, t) \<and> keeps_values c t"
proof (cases "splitId i")
  case Blocked then show ?thesis using splitId_ends by blast
next
  case (Raised e)
  then show ?thesis using assms(1) by (simp add: accepted_value_def guarded_without_id)
next
  case (Returned jop)
  then obtain j op where s: "splitId i = Returned (j, op)" by (cases jop) simp
  show ?thesis
  proof (cases "dget (properties st) j")
    case None
    then show ?thesis using assms(1) by (simp add: accepted_value_def s guarded_run(1) [OF s])
  next
    case p: (Some p)
    have plain: "propid p = j" "\<not> is_complex p" "op \<noteq> Some ''[@]''"
      using assms(2) s p by (auto simp: plain_request_def)
    note g = allowed [OF s p]
    consider "\<not> allow p" | (op) "allow p" "class_of p = SimpleProperty" "op \<noteq> None"
      | (fine) "allow p" "class_of p = SimpleSeqProperty \<or> op = None"
      by (cases "class_of p") auto
    then show ?thesis
    proof cases
      case 1
      then show ?thesis using assms(1) g by (simp add: accepted_value_def s p guarded_run(2) [OF s p])
    next
      case op
      have "property_configure F (checking_code V j) p w op quiet c = (Exn AttributeError, c)"
        using op by (simp add: property_configure_def)
      then have "m c = (Exn AttributeError, c)" using run [OF s p plain(2)] by blast
      then show ?thesis using op g assms(1) by (auto simp: accepted_value_def s p guarded_run(3) [OF s p])
    next
      case fine
      obtain r d where rd: "property_configure F (checking_code V j) p w op quiet c = (r, d)"
        by (cases "property_configure F (checking_code V j) p w op quiet c")
      note conf = property_configure_checked [OF assms(1) plain(2,3) fine(2), where F = F and w = w and V = V and j = j and quiet = quiet]
      show ?thesis
      proof (cases "accepted_value F V allow st (i, w)")
        case None
        then obtain e where "r = Exn e" "keeps_values c d"
          using conf rd fine assms(1) by (auto simp: accepted_value_def s p split: outcome.splits if_splits)
        then show ?thesis using None run [OF s p plain(2) rd] g fine by (auto simp: guarded_run(3) [OF s p])
      next
        case (Some jv)
        then have "r = Ok () \<and> sets_value (fst jv) (snd jv) c d"
          using conf rd fine plain(1) by (auto simp: accepted_value_def s p split: outcome.splits if_splits)
        moreover then obtain z where "m c = (Ok (), z)" "keeps_values d z"
          using run [OF s p plain(2) rd] by (auto simp: sets_value_def)
        ultimately show ?thesis using Some g fine sets_keeps by (auto simp: guarded_run(4) [OF s p])
      qed
    qed
  qed
qed

lemma storage_guards:
  assumes "splitId i = Returned (j, op)" "dget (properties st) j = Some p"
  shows "storage_isConfigurable st i = Returned (isConfigurable p)" "storage_isProperty st i = Returned (isProperty p)"
  by (simp_all add: storage_isConfigurable_def storage_isProperty_def getPropDef_def bare_id_def lookup_id_def assms)

lemma try_configure_settles:
  assumes "component_ok c" "plain_request st q"
  shows "case accepted_value F V isConfigurable st q of
      Some (j, v) \<Rightarrow> \<exists>t. try_configure F (checking_code V) hear st q c = (Ok True, t) \<and> sets_value j v c t
    | None \<Rightarrow> \<exists>t. try_configure F (checking_code V) hear st q c = (Ok False, t) \<and> keeps_values c t"
proof -
  obtain i w where q: "q = (i, w)" by (cases q)
  show ?thesis unfolding q try_configure_def fst_conv snd_conv
  proof (rule guarded_attempt [where quiet = False, OF assms(1) assms(2) [unfolded q]])
    fix j op p r d
    assume p: "splitId i = Returned (j, op)" "dget (properties st) j = Some p"
    then show "storage_isConfigurable st i = Returned (isConfigurable p)" by (rule storage_guards)
    assume c: "\<not> is_complex p" "property_configure F (checking_code V j) p w op False c = (r, d)"
    show "(\<forall>e. r = Exn e \<longrightarrow> storage_configure F (checking_code V) hear st i w False c = (Exn e, d)) \<and>
      (r = Ok () \<longrightarrow> component_ok d \<longrightarrow>
        (\<exists>z. storage_configure F (checking_code V) hear st i w False c = (Ok (), z) \<and> keeps_values d z))"
      using storage_operations(1,2) [OF p c(1), of F "checking_code V" w False c r d] c(2) by simp
  qed
qed

lemma try_construct_settles:
  assumes "component_ok c" "plain_request st q"
  shows "case accepted_value F V isProperty st q of
      Some (j, v) \<Rightarrow> \<exists>t. try_construct F (checking_code V) st q c = (Ok True, t) \<and> sets_value j v c t
    | None \<Rightarrow> \<exists>t. try_construct F (checking_code V) st q c = (Ok False, t) \<and> keeps_values c t"
proof -
  obtain i w where q: "q = (i, w)" by (cases q)
  show ?thesis unfolding q try_construct_def fst_conv snd_conv
  proof (rule guarded_attempt [where quiet = True, OF assms(1) assms(2) [unfolded q]])
    fix j op p r d
    assume p: "splitId i = Returned (j, op)" "dget (properties st) j = Some p"
    then show "storage_isProperty st i = Returned (isProperty p)" by (rule storage_guards)
    assume c: "\<not> is_complex p" "property_configure F (checking_code V j) p w op True c = (r, d)"
    show "(\<forall>e. r = Exn e \<longrightarrow> storage_construct F (checking_code V) st i w c = (Exn e, d)) \<and>
      (r = Ok () \<longrightarrow> component_ok d \<longrightarrow>
        (\<exists>z. storage_construct F (checking_code V) st i w c = (Ok (), z) \<and> keeps_values d z))"
      using storage_operations(3,4) [OF p c(1), of F "checking_code V" w True c r d] c(2) by auto
  qed
qed

interpretation configuring: property_store
  "try_configure F (checking_code V) hear st :: property_request \<Rightarrow> ('r, bool) component_action"
  "accepted_value F V isConfigurable st" "plain_request st" held_value component_ok
proof (unfold_locales, goal_cases)
  case (1 s q i v)
  then show ?case using try_configure_settles [of s st q F V hear] by (simp add: sets_value_def)
next
  case (2 s q)
  then show ?case using try_configure_settles [of s st q F V hear] by (auto simp: keeps_values_def)
qed

interpretation constructing: property_store
  "try_construct F (checking_code V) st :: property_request \<Rightarrow> ('r, bool) component_action"
  "accepted_value F V isProperty st" "plain_request st" held_value component_ok
proof (unfold_locales, goal_cases)
  case (1 s q i v)
  then show ?case using try_construct_settles [of s st q F V] by (simp add: sets_value_def)
next
  case (2 s q)
  then show ?case using try_construct_settles [of s st q F V] by (auto simp: keeps_values_def)
qed

section \<open>Requests\<close>

definition valid_request ::
    "sequence_text \<Rightarrow> (string \<Rightarrow> pobj \<Rightarrow> bool) \<Rightarrow> (property_def \<Rightarrow> bool) \<Rightarrow> storage \<Rightarrow> property_request \<Rightarrow> bool" where
  "valid_request F V allowed st q \<longleftrightarrow> accepted_value F V allowed st q \<noteq> None"

text \<open>
  C7: A request to configure simple properties and simple sequences that are not complex, without assignments
  by pairs (\<open>plain_request\<close>), always returns, for a component whose own code for its properties only checks
  new values (\<open>checking_code\<close>: an \<open>fval\<close>, but no \<open>fget\<close>, \<open>fset\<close>, \<open>validate\<close>, \<open>onconfigure\<close> or \<open>query\<close> method), whose
  change listeners for single properties are all methods (\<open>component_ok\<close>), and whose lock is free. It sets each
  valid property to the last value given for it and changes no other; a property is valid when it is known,
  configurable, its value converts, lies within the bounds and passes the check of the component. The request
  succeeds when all its properties are valid, raises \<open>InvalidConfiguration\<close> with all of them when none is, and
  otherwise \<open>PartialConfiguration\<close> with exactly the invalid ones. (Without these conditions it does not hold:
  \<open>wrong_listener_hides_change\<close> shows a property that is set and reported as not set.)
\<close>

theorem configure_sets_valid_properties:
  assumes "component_ok c" "\<not> property_lock c" "\<forall>q \<in> set reqs. plain_request st q"
  shows "\<exists>t. Resource_configure F (checking_code V) hear st reqs c =
      (Ok (if \<forall>q \<in> set reqs. valid_request F V isConfigurable st q then AllSet
           else if \<forall>q \<in> set reqs. \<not> valid_request F V isConfigurable st q then InvalidConfiguration reqs
           else PartialConfiguration (filter (\<lambda>q. \<not> valid_request F V isConfigurable st q) reqs)), t) \<and>
    component_ok t \<and> \<not> property_lock t \<and>
    (\<forall>i. held_value t i = settled_value (accepted_value F V isConfigurable st) (held_value c i) i reqs)"
proof -
  let ?acc = "accepted_value F V isConfigurable st"
  let ?c = "c\<lparr>property_lock := True\<rparr>"
  have ok: "component_ok ?c" using assms(1) by simp
  obtain t where t: "act_reject (try_configure F (checking_code V) hear st) reqs ?c = (Ok (filter (\<lambda>q. ?acc q = None) reqs), t)"
      "component_ok t" "\<forall>i. held_value t i = settled_value ?acc (held_value ?c i) i reqs"
    using configuring.requests_settle [OF ok, of reqs st F V hear] assms(3) by blast
  have "configure_properties F (checking_code V) hear st reqs ?c
      = (Ok (configuration_answer reqs (filter (\<lambda>q. ?acc q = None) reqs)), t)"
    by (simp add: configure_properties_def
        act_bind_run(1) [where m = "act_reject (try_configure F (checking_code V) hear st) reqs", OF t(1)])
  then have "Resource_configure F (checking_code V) hear st reqs c
      = (Ok (configuration_answer reqs (filter (\<lambda>q. ?acc q = None) reqs)), t\<lparr>property_lock := False\<rparr>)"
    unfolding Resource_configure_def by (rule property_locked_run(1) [OF assms(2)])
  then show ?thesis unfolding valid_request_def not_not configuration_answer_filter using t(2,3)
    by (intro exI [of _ "t\<lparr>property_lock := False\<rparr>"]) simp
qed

text \<open>Construction neither sends events nor tells listeners.\<close>

definition told_nobody :: "'r \<Rightarrow> string list \<Rightarrow> 'r component \<Rightarrow> bool" where
  "told_nobody g es c \<longleftrightarrow> propertiesInitialized c \<and> registry c = g \<and> events_sent c = es"

lemma told_nobody_updates [keeps_rules]:
  "keeps (told_nobody g es) (property_set (checking_code V j) p r)"
  "keeps (told_nobody g es) (property_get (checking_code V j) p)"
  "keeps (told_nobody g es) (new_object v)"
  "keeps (told_nobody g es) (act_update (store_object r v))"
  "keeps P (lift_outcome m)"
proof -
  show "keeps P (lift_outcome m)" by (cases m) simp_all
  show "keeps (told_nobody g es) (property_set (checking_code V j) p r)"
    by (simp add: property_set_def) (rule keeps_update, simp add: told_nobody_def)
  show "keeps (told_nobody g es) (property_get (checking_code V j) p)"
    by (simp add: keeps_def property_get_run)
  show "keeps (told_nobody g es) (new_object v)"
    unfolding new_object_def
    by (intro keeps_rules keeps_update) (simp_all add: told_nobody_def)
  show "keeps (told_nobody g es) (act_update (store_object r v))"
    by (rule keeps_update) (simp add: told_nobody_def store_object_def split: pyref.split)
qed

lemma complex_ref_tells_nobody [keeps_rules]: "keeps (told_nobody g es) (complex_ref r)"
  unfolding complex_ref_def
  by (intro keeps_bind keeps_rules) (auto split: pobj.split option.split intro!: keeps_rules simp: split_beta Let_def)

lemma assign_quietly [keeps_rules]: "keeps (told_nobody g es) (assign_value (checking_code V j) p True r)"
  unfolding assign_value_def approved_def by (auto simp: act_when_def intro!: keeps_rules)

lemma assign_pairs_quietly [keeps_rules]: "keeps (told_nobody g es) (assign_pairs (checking_code V j) p w)"
  unfolding assign_pairs_def
  by (intro keeps_bind keeps_rules) (auto split: pobj.split intro!: keeps_rules simp: split_beta Let_def)

lemma construct_quietly: "keeps (told_nobody g es) (try_construct F (checking_code V) st q)"
proof -
  have "keeps (told_nobody g es) (property_configure F (checking_code V j) p w op True)" for j p w op
    unfolding property_configure_def by (auto split: property_class.split intro!: keeps_rules)
  then have "keeps (told_nobody g es) (storage_construct F (checking_code V) st i w)" for i w
    unfolding storage_construct_def by (auto intro!: keeps_rules)
  then show ?thesis unfolding try_construct_def guarded_def by (auto intro!: keeps_rules)
qed

lemma keeps_reject: "(\<And>q. keeps P (f q)) \<Longrightarrow> keeps P (act_reject f qs)"
  by (induction qs) (auto intro!: keeps_rules)

text \<open>
  The properties of a component are initialised once. The first call sets the valid properties,
  also those that are not writable, and answers as \<open>configure\<close> does; it tells no listener and sends no
  event. Every later call raises \<open>AlreadyInitialized\<close> and changes nothing, even when the first one failed.
\<close>

theorem initializeProperties_once:
  assumes "component_ok c" "\<not> property_lock c" "\<not> propertiesInitialized c" "\<forall>q \<in> set reqs. plain_request st q"
  shows "\<exists>t. Resource_initializeProperties F (checking_code V) st reqs c =
      (Ok (if \<forall>q \<in> set reqs. valid_request F V isProperty st q then AllSet
           else if \<forall>q \<in> set reqs. \<not> valid_request F V isProperty st q then InvalidConfiguration reqs
           else PartialConfiguration (filter (\<lambda>q. \<not> valid_request F V isProperty st q) reqs)), t) \<and>
    (\<forall>i. held_value t i = settled_value (accepted_value F V isProperty st) (held_value c i) i reqs) \<and>
    registry t = registry c \<and> events_sent t = events_sent c \<and>
    Resource_initializeProperties F (checking_code V) st later t = (Ok AlreadyInitialized, t)"
proof -
  let ?acc = "accepted_value F V isProperty st"
  let ?c = "c\<lparr>property_lock := True, propertiesInitialized := True\<rparr>"
  have ok: "component_ok ?c" using assms(1) by (simp add: component_ok_def)
  have same: "held_value ?c = held_value c" by (simp add: held_value_def content_def fun_eq_iff split: pyref.split option.split)
  obtain t where t: "act_reject (try_construct F (checking_code V) st) reqs ?c = (Ok (filter (\<lambda>q. ?acc q = None) reqs), t)"
      "component_ok t" "\<forall>i. held_value t i = settled_value ?acc (held_value ?c i) i reqs"
    using constructing.requests_settle [OF ok, of reqs st F V] assms(4) by blast
  have "keeps (told_nobody (registry c) (events_sent c)) (act_reject (try_construct F (checking_code V) st) reqs)"
    by (rule keeps_reject) (rule construct_quietly)
  from keepsD [OF this _ t(1)] have told: "told_nobody (registry c) (events_sent c) t"
    by (simp add: told_nobody_def)
  let ?t = "t\<lparr>property_lock := False\<rparr>"
  have "Resource_initializeProperties F (checking_code V) st reqs c
      = (Ok (configuration_answer reqs (filter (\<lambda>q. ?acc q = None) reqs)), ?t)"
    unfolding Resource_initializeProperties_def
    by (rule property_locked_run(1) [OF assms(2)]) (simp add: assms(3)
        act_bind_run(1) [where m = "act_reject (try_construct F (checking_code V) st) reqs", OF t(1)])
  moreover have "Resource_initializeProperties F (checking_code V) st later ?t = (Ok AlreadyInitialized, ?t)"
    unfolding Resource_initializeProperties_def
    by (rule locked_return) (use told in \<open>simp_all add: told_nobody_def\<close>)
  moreover have "registry ?t = registry c \<and> events_sent ?t = events_sent c" using told by (simp add: told_nobody_def)
  ultimately show ?thesis unfolding valid_request_def not_not configuration_answer_filter using t(3) same
    by (intro exI [of _ ?t]) simp
qed

end
