(* ===== verification/PropertyAnswers.thy ===== *)
theory PropertyAnswers
  imports PropertySet
begin

text \<open>
  What queries answer, what happens with a change listener of the wrong kind, and a small component with
  two properties on which the theorems about requests are tried.
\<close>

section \<open>Queries\<close>

definition value_answer :: "sequence_text \<Rightarrow> property_def \<Rightarrow> pobj \<Rightarrow> string option \<Rightarrow> any_answer outcome" where
  "value_answer F p v op = (case class_of p of
      SimpleProperty \<Rightarrow> if op \<noteq> None then Raised AttributeError else simple_toAny F p v
    | SimpleSeqProperty \<Rightarrow> apply_operator F p v op)"

lemma property_query_run: "plain_access u \<Longrightarrow> property_query F u p op c = lift_outcome (value_answer F p (current_value c p) op) c"
  by (cases "class_of p")
    (simp_all add: property_query_def value_answer_def act_bind_run(1) [OF property_query_value_run] current_value_def)

definition id_answer :: "sequence_text \<Rightarrow> storage \<Rightarrow> 'r component \<Rightarrow> string \<Rightarrow> any_answer outcome" where
  "id_answer F st c i = obind (splitId i) (\<lambda>(j, op). obind (lookup_id st j) (\<lambda>p. value_answer F p (current_value c p) op))"

lemma storage_query_run: "(\<And>j. plain_access (us j)) \<Longrightarrow> storage_query F us st i c = lift_outcome (id_answer F st c i) c"
  by (cases "splitId i"; cases "lookup_id st (fst (case splitId i of Returned x \<Rightarrow> x))")
    (auto simp: storage_query_def id_answer_def property_query_run act_bind_def)

lemma value_answer_ends: "value_answer F p v op \<noteq> Blocked"
proof -
  have ct: "call_type G q x \<noteq> Blocked" for G q x by (simp add: call_type_def split: pytype.split)
  have cf: "convertComplexToCFComplex G t x \<noteq> Blocked" for G t x
    by (auto simp: convertComplexToCFComplex_def obind_Blocked_iff ct)
  have s: "simpleseq_toAny F p v \<noteq> Blocked" for v
    by (auto simp: simpleseq_toAny_def obind_Blocked_iff cf collect_ends)
  have len: "py_len v \<noteq> Blocked" for v by (cases v) (auto simp: py_len_def split: pvalue.split)
  have keys: "getKeysOperator v \<noteq> Blocked" "getKeyValuePairsOperator v \<noteq> Blocked" for v
    by (cases v; simp add: getKeysOperator_def getKeyValuePairsOperator_def len)+
  have parse: "parse_int s \<noteq> Blocked" "item_at xs n \<noteq> Blocked" for s n and xs :: "pvalue list"
    by (simp_all add: parse_int_def item_at_def split: option.split)
  have slice: "getSliceOperator v s \<noteq> Blocked" for v s
    by (cases v) (auto simp: getSliceOperator_def Let_def obind_Blocked_iff lower_bound_def upper_bound_def parse len
        split: option.splits pvalue.splits intro!: collect_ends)
  have err: "operator_error m \<noteq> Blocked" if "m \<noteq> Blocked" for m :: "'x outcome"
    using that by (cases m) (simp_all add: operator_error_def)
  have tc: "to_tc_value G t x \<noteq> Blocked" for G t x
    by (auto simp: to_tc_value_def cf split: option.split)
  show ?thesis
    by (cases v; cases "class_of p")
      (auto simp: value_answer_def simple_toAny_def apply_operator_def s tc obind_Blocked_iff err keys len slice
        split: option.split)
qed

text \<open>Each ID of a query: the time stamp, an unknown ID, or a property with its answer.\<close>

definition is_known :: "storage \<Rightarrow> string \<Rightarrow> bool" where
  "is_known st i \<longleftrightarrow> i = QUERY_TIMESTAMP \<or>
     (\<exists>j op p. splitId i = Returned (j, op) \<and> dget (properties st) j = Some p \<and> isQueryable p)"

definition result_of :: "query_result \<Rightarrow> any_answer outcome \<Rightarrow> query_result" where
  "result_of otherwise m = (case m of Returned a \<Rightarrow> Answer a | _ \<Rightarrow> otherwise)"

definition listed_result :: "sequence_text \<Rightarrow> storage \<Rightarrow> 'r component \<Rightarrow> string \<Rightarrow> query_result" where
  "listed_result F st c i = (if i = QUERY_TIMESTAMP then QueryTime else result_of Unchanged (id_answer F st c i))"

lemma queryable_id_known:
  assumes "i \<noteq> []" "i \<noteq> QUERY_TIMESTAMP"
  shows "queryable_id st i = Returned (is_known st i)"
proof -
  obtain j op where s: "splitId i = Returned (j, op)" using assms(1) by (cases rule: splitId_cases) auto
  show ?thesis using assms(2)
    by (cases "dget (properties st) j")
      (simp_all add: queryable_id_def has_id_def bare_id_def s storage_isQueryable_def getPropDef_def lookup_id_def is_known_def)
qed

lemma id_answer_ends: "id_answer F st c i \<noteq> Blocked"
  by (auto simp: id_answer_def obind_Blocked_iff splitId_ends lookup_id_def value_answer_ends split: option.split)

lemma query_or_run: "(\<And>j. plain_access (us j)) \<Longrightarrow> query_or e F us st i c = (Ok (result_of e (id_answer F st c i)), c)"
  using id_answer_ends [of F st c i]
  by (cases "id_answer F st c i") (simp_all add: query_or_def act_catch_def act_bind_def storage_query_run result_of_def)

lemma query_listed_run:
  assumes "\<And>j. plain_access (us j)" "\<And>i. i \<in> set is \<Longrightarrow> i \<noteq> []"
  shows "query_listed F us st is c =
    (Ok (map (\<lambda>i. (i, listed_result F st c i)) (filter (is_known st) is), filter (\<lambda>i. \<not> is_known st i) is), c)"
  using assms(2)
proof (induction "is")
  case (Cons i "is")
  have IH: "query_listed F us st is c =
    (Ok (map (\<lambda>i. (i, listed_result F st c i)) (filter (is_known st) is), filter (\<lambda>i. \<not> is_known st i) is), c)"
    using Cons by simp
  note rest = act_bind_run(1) [where m = "query_listed F us st is", OF IH]
  show ?case
  proof (cases "i = QUERY_TIMESTAMP")
    case True
    then have "is_known st i" by (simp add: is_known_def)
    then show ?thesis using True by (simp add: rest listed_result_def)
  next
    case False
    then have q: "queryable_id st i = Returned (is_known st i)" using Cons.prems queryable_id_known by simp
    show ?thesis using False
      by (simp add: q rest listed_result_def act_bind_run(1) [where m = "query_or Unchanged F us st i", OF query_or_run [OF assms(1)]])
  qed
qed simp

section \<open>What a query should answer\<close>

text \<open>
  The answers, stated without the code's operators: which property and operator an ID names, what each
  operator means for a list of values, and what is answered for a property that holds a value.
\<close>

inductive id_names :: "storage \<Rightarrow> string \<Rightarrow> property_def \<Rightarrow> string option \<Rightarrow> bool" for st where
  plain_id: "i \<noteq> [] \<Longrightarrow> last i \<noteq> CHR '']'' \<or> CHR ''['' \<notin> set i \<Longrightarrow> dget (properties st) i = Some p \<Longrightarrow> id_names st i p None"
| operator_id: "CHR ''['' \<notin> set body \<Longrightarrow> dget (properties st) (base @ ''[]'') = Some p \<Longrightarrow>
    id_names st (base @ ''['' @ body @ '']'') p (Some (''['' @ body @ '']''))"

text \<open>A position of a slice, counted from the end when it is negative; one before the start is the start.\<close>

definition position_in :: "'a list \<Rightarrow> int \<Rightarrow> nat" where
  "position_in vs i = nat (if i < 0 then i + int (length vs) else i)"

text \<open>The operators on a list of values; \<open>None\<close> stands for an operator that fails.\<close>

inductive list_answer :: "pvalue list \<Rightarrow> string option \<Rightarrow> any_answer option \<Rightarrow> bool" for vs where
  no_operator: "list_answer vs None (Some (AnswerList vs))"
| all_values: "op \<in> {''[]'', ''[*]''} \<Longrightarrow> list_answer vs (Some op) (Some (AnswerList vs))"
| all_keys: "list_answer vs (Some ''[?]'') (Some (AnswerList (map (\<lambda>k. VInt (int k)) [0..<length vs])))"
| all_pairs: "list_answer vs (Some ''[@]'') (Some (AnswerPairs (map (\<lambda>k. (show_nat k, vs ! k)) [0..<length vs])))"
| how_many: "list_answer vs (Some ''[#]'') (Some (AnswerSingle (VInt (int (length vs)))))"
| indices: "is \<noteq> [] \<Longrightarrow> \<forall>i \<in> set is. - int (length vs) \<le> i \<and> i < int (length vs) \<Longrightarrow>
    list_answer vs (Some (index_operator is)) (Some (AnswerList (map (\<lambda>i. vs ! nat (i mod int (length vs))) is)))"
| bad_index: "i \<in> set is \<Longrightarrow> i < - int (length vs) \<or> int (length vs) \<le> i \<Longrightarrow>
    list_answer vs (Some (index_operator is)) None"
| range: "s = [] \<and> lo = 0 \<or> s = show_int lo \<Longrightarrow> t = [] \<and> up = int (length vs) \<or> t = show_int up \<Longrightarrow>
    list_answer vs (Some (range_operator s t)) (Some (AnswerList (drop (position_in vs lo) (take (position_in vs up) vs))))"

definition right_type :: "property_def \<Rightarrow> pvalue \<Rightarrow> bool" where
  "right_type p x \<longleftrightarrow> x = VNone \<or> (case getPyType (typename p) of Some t \<Rightarrow> is_instance x t | None \<Rightarrow> False)"

inductive answered :: "storage \<Rightarrow> 'r component \<Rightarrow> string \<Rightarrow> query_result \<Rightarrow> bool" for st c where
  the_time: "answered st c QUERY_TIMESTAMP QueryTime"
| simple_value: "i \<noteq> QUERY_TIMESTAMP \<Longrightarrow> id_names st i p None \<Longrightarrow> isQueryable p \<Longrightarrow> class_of p = SimpleProperty \<Longrightarrow>
    held_value c (propid p) = Single x \<Longrightarrow> right_type p x \<Longrightarrow> \<not> starts_complex (typename p) \<Longrightarrow>
    answered st c i (Answer (AnswerSingle x))"
| simple_operator: "i \<noteq> QUERY_TIMESTAMP \<Longrightarrow> id_names st i p (Some op) \<Longrightarrow> isQueryable p \<Longrightarrow> class_of p = SimpleProperty \<Longrightarrow>
    answered st c i Unchanged"
| unset_sequence: "i \<noteq> QUERY_TIMESTAMP \<Longrightarrow> id_names st i p op \<Longrightarrow> isQueryable p \<Longrightarrow> class_of p = SimpleSeqProperty \<Longrightarrow>
    held_value c (propid p) = Single VNone \<Longrightarrow> answered st c i (Answer AnswerNone)"
| sequence_values: "i \<noteq> QUERY_TIMESTAMP \<Longrightarrow> id_names st i p op \<Longrightarrow> isQueryable p \<Longrightarrow> class_of p = SimpleSeqProperty \<Longrightarrow>
    held_value c (propid p) = PyList vs \<Longrightarrow> \<forall>x \<in> set vs. right_type p x \<Longrightarrow> \<not> is_complex p \<Longrightarrow>
    typename p \<notin> {''char'', ''octet''} \<Longrightarrow> list_answer vs op a \<Longrightarrow>
    answered st c i (case a of Some r \<Rightarrow> Answer r | None \<Rightarrow> Unchanged)"

subsection \<open>The code answers so\<close>

lemma id_names_iff: "id_names st i p op \<longleftrightarrow> (\<exists>j. splitId i = Returned (j, op) \<and> dget (properties st) j = Some p)"
proof
  assume "id_names st i p op"
  then show "\<exists>j. splitId i = Returned (j, op) \<and> dget (properties st) j = Some p"
  proof cases
    case plain_id
    then show ?thesis using splitId_plain by blast
  next
    case (operator_id body base)
    then show ?thesis using splitId_operator [OF operator_id(3), of base] by blast
  qed
next
  assume "\<exists>j. splitId i = Returned (j, op) \<and> dget (properties st) j = Some p"
  then obtain j where j: "splitId i = Returned (j, op)" "dget (properties st) j = Some p" by blast
  then have "i \<noteq> []" by (auto simp: splitId_def)
  then show "id_names st i p op"
  proof (cases rule: splitId_cases)
    case 1
    then have "op = None" "j = i" using j(1) by simp_all
    then show ?thesis using plain_id [OF \<open>i \<noteq> []\<close> 1(1)] j(2) by simp
  next
    case (2 base body)
    then have o: "op = Some (''['' @ body @ '']'')" "j = base @ ''[]''" using j(1) by simp_all
    show ?thesis unfolding 2(2) o(1) using operator_id [OF 2(1)] j(2) o(2) by blast
  qed
qed

lemma is_known_names: "is_known st i \<longleftrightarrow> i = QUERY_TIMESTAMP \<or> (\<exists>p op. id_names st i p op \<and> isQueryable p)"
  by (auto simp: is_known_def id_names_iff)

lemma id_names_answer: "id_names st i p op \<Longrightarrow> id_answer F st c i = value_answer F p (current_value c p) op"
  by (auto simp: id_names_iff id_answer_def lookup_id_def)

lemma current_held: "storage_ok st \<Longrightarrow> id_names st i p op \<Longrightarrow> current_value c p = held_value c (propid p)"
  by (simp add: held_value_def current_value_def current_ref_def)

lemma right_type_kept: "right_type p x \<Longrightarrow> to_pyvalue F (typename p) x = Returned x"
  by (auto simp: right_type_def to_pyvalue_def split: option.splits)

lemma right_type_wire: "right_type p x \<Longrightarrow> \<not> starts_complex (typename p) \<Longrightarrow> to_tc_value F (typename p) x = Returned x"
  by (auto simp: right_type_def to_tc_value_def split: option.splits)

lemma whole_list:
  assumes "\<forall>x \<in> set vs. right_type p x" "\<not> is_complex p" "typename p \<notin> {''char'', ''octet''}"
  shows "simpleseq_toAny F p (PyList vs) = Returned (AnswerList vs)"
  using assms by (simp add: simpleseq_toAny_def items_in_def right_type_kept)

text \<open>The operators with a fixed text are told from slices by what stands between their brackets.\<close>

lemma fixed_operators:
  "operator_indexes ''[]'' = [[]]" "operator_indexes ''[*]'' = [''*'']" "operator_indexes ''[?]'' = [''?'']"
  "operator_indexes ''[@]'' = [''@'']" "operator_indexes ''[#]'' = [''#'']"
  by code_simp+

lemma slice_applied:
  assumes "operator_indexes op \<notin> {[[]], [''*''], [''?''], [''@''], [''#'']}"
  shows "apply_operator F p (PyList vs) (Some op) = obind (operator_error (getSliceOperator (PyList vs) op)) (simpleseq_toAny F p)"
proof -
  have "op \<notin> {''[]'', ''[*]'', ''[?]'', ''[@]'', ''[#]''}" using assms fixed_operators by auto
  then show ?thesis by (simp add: apply_operator_def)
qed

lemma not_numbers: "int_of_string ''*'' = None" "int_of_string ''?'' = None" "int_of_string ''@'' = None" "int_of_string ''#'' = None"
  by code_simp+

lemma index_not_fixed:
  assumes "is \<noteq> []"
  shows "operator_indexes (index_operator is) \<notin> {[[]], [''*''], [''?''], [''@''], [''#'']}"
proof -
  obtain i r where r: "is = i # r" using assms by (cases "is") simp_all
  have "show_int i \<noteq> [] \<and> show_int i \<notin> {''*'', ''?'', ''@'', ''#''}"
    using int_of_show_int [of i] not_numbers show_int_not_Nil [of i] by force
  then show ?thesis by (simp add: r)
qed

lemma range_not_fixed:
  assumes "s = [] \<or> s = show_int a" "t = [] \<or> t = show_int b"
  shows "operator_indexes (range_operator s t) \<notin> {[[]], [''*''], [''?''], [''@''], [''#'']}"
  using indexes_of_range(1) [OF assms] by (cases s) auto

lemma slice_positions: "slice_of vs lo up = drop (position_in vs lo) (take (position_in vs up) vs)"
  by (auto simp: slice_of_def slice_end_def position_in_def max_def min_def)

lemma list_answer_applied:
  assumes "list_answer vs op a" "\<forall>x \<in> set vs. right_type p x" "\<not> is_complex p" "typename p \<notin> {''char'', ''octet''}"
  shows "\<exists>e. apply_operator F p (PyList vs) op = (case a of Some r \<Rightarrow> Returned r | None \<Rightarrow> Raised e)"
  using assms(1)
proof cases
  case no_operator
  then show ?thesis by (simp add: apply_operator_def whole_list [OF assms(2-4)])
next
  case (all_values op)
  then show ?thesis by (simp add: apply_operator_def getDefaultOperator_def whole_list [OF assms(2-4)])
next
  case all_keys
  then show ?thesis by (simp add: apply_operator_def getKeysOperator_def py_len_def operator_error_def)
next
  case all_pairs
  have "zip (map show_nat [0..<length vs]) vs = map (\<lambda>k. (show_nat k, vs ! k)) [0..<length vs]"
    by (rule nth_equalityI) simp_all
  then show ?thesis using all_pairs by (simp add: apply_operator_def getKeyValuePairsOperator_def items_in_def operator_error_def)
next
  case how_many
  then show ?thesis by (simp add: apply_operator_def getDefaultOperator_def py_len_def operator_error_def)
next
  case (indices "is")
  let ?n = "int (length vs)"
  let ?at = "\<lambda>i. vs ! nat (i mod ?n)"
  have at: "\<forall>i \<in> set is. item_at vs i = Returned (?at i)" using indices(4) item_at_mod by blast
  have "vs \<noteq> []" using indices(3,4) by (cases "is") auto
  then have m: "0 \<le> i mod ?n \<and> i mod ?n < ?n" for i by simp
  have "\<forall>i \<in> set is. ?at i \<in> set vs"
  proof
    fix i
    have "nat (i mod ?n) < length vs" using m [of i] by linarith
    then show "?at i \<in> set vs" by simp
  qed
  then have w: "simpleseq_toAny F p (PyList (map ?at is)) = Returned (AnswerList (map ?at is))"
    using assms(2) by (intro whole_list [OF _ assms(3,4)]) auto
  have "getSliceOperator (PyList vs) (index_operator is) = Returned (PyList (map ?at is))"
    unfolding slice_indices [OF indices(3)] using at by simp
  then show ?thesis using indices(1,2) w by (simp add: slice_applied [OF index_not_fixed [OF indices(3)]] operator_error_def)
next
  case (bad_index i "is")
  then have ne: "is \<noteq> []" by auto
  obtain e where "collect_outcomes (item_at vs) is = Raised e"
    using collect_fails [where f = "item_at vs", OF bad_index(3) item_at_ends item_at_out [OF bad_index(4)]] by blast
  then show ?thesis using bad_index(1,2)
    by (simp add: slice_applied [OF index_not_fixed [OF ne]] slice_indices [OF ne] operator_error_def)
next
  case (range s lo t up)
  have f: "operator_indexes (range_operator s t) \<notin> {[[]], [''*''], [''?''], [''@''], [''#'']}"
    using range(3,4) by (intro range_not_fixed [of s lo t up]) auto
  have "\<forall>x \<in> set (drop (position_in vs lo) (take (position_in vs up) vs)). right_type p x"
    using assms(2) by (auto dest: in_set_dropD in_set_takeD)
  then have "simpleseq_toAny F p (PyList (slice_of vs lo up)) = Returned (AnswerList (slice_of vs lo up))"
    unfolding slice_positions by (rule whole_list [OF _ assms(3,4)])
  then show ?thesis using range(1,2)
    by (simp add: slice_applied [OF f] slice_range_int [OF range(3,4)] operator_error_def slice_positions)
qed

lemma answered_known: "answered st c i r \<Longrightarrow> is_known st i \<and> i \<noteq> []"
proof -
  assume "answered st c i r"
  then have "i = QUERY_TIMESTAMP \<or> (\<exists>p op. id_names st i p op \<and> isQueryable p)" by cases blast+
  moreover have "i \<noteq> []" if "id_names st i p op" for p op using that by cases simp_all
  ultimately show ?thesis unfolding is_known_names by (auto simp: QUERY_TIMESTAMP_def)
qed

lemma answered_result:
  assumes "storage_ok st" "answered st c i r"
  shows "listed_result F st c i = r"
  using assms(2)
proof cases
  case the_time
  then show ?thesis by (simp add: listed_result_def)
next
  case (simple_value p x)
  then show ?thesis
    by (simp add: listed_result_def id_names_answer value_answer_def simple_toAny_def current_held [OF assms(1)]
        right_type_wire result_of_def)
next
  case (simple_operator p op)
  then show ?thesis by (simp add: listed_result_def id_names_answer value_answer_def result_of_def)
next
  case (unset_sequence p op)
  then show ?thesis
    by (simp add: listed_result_def id_names_answer value_answer_def apply_operator_def current_held [OF assms(1)] result_of_def)
next
  case (sequence_values p op vs a)
  obtain e where "apply_operator F p (PyList vs) op = (case a of Some r \<Rightarrow> Returned r | None \<Rightarrow> Raised e)"
    using list_answer_applied [OF sequence_values(10,7,8,9)] by blast
  then show ?thesis using sequence_values
    by (simp add: listed_result_def id_names_answer value_answer_def current_held [OF assms(1)] result_of_def split: option.split)
qed

lemma query_listed_ids:
  assumes "\<not> property_lock c" "\<forall>j. plain_access (us j)" "is \<noteq> []" "[] \<notin> set is"
  shows "Resource_query F us st is c =
    (Ok (if \<forall>i \<in> set is. is_known st i
         then QueryResults (map (\<lambda>i. (i, listed_result F st c i)) is)
         else UnknownProperties (filter (\<lambda>i. \<not> is_known st i) is)), c)"
proof -
  let ?c = "c\<lparr>property_lock := True\<rparr>"
  have same: "listed_result F st ?c i = listed_result F st c i" for i
    by (simp add: listed_result_def id_answer_def current_value_def current_ref_def)
  have r: "query_listed F us st is ?c =
    (Ok (map (\<lambda>i. (i, listed_result F st c i)) (filter (is_known st) is), filter (\<lambda>i. \<not> is_known st i) is), ?c)"
    unfolding same [symmetric] by (rule query_listed_run) (use assms in auto)
  have n: "filter (\<lambda>i. \<not> is_known st i) is = [] \<longleftrightarrow> (\<forall>i \<in> set is. is_known st i)" by (simp add: filter_empty_conv)
  show ?thesis unfolding Resource_query_def
    by (rule locked_return [OF assms(1)])
      (simp add: assms(3) act_bind_run(1) [where m = "query_listed F us st is", OF r] n)
qed


section \<open>Listeners of the wrong kind\<close>

text \<open>
  A change listener for a property of kind \<open>property\<close> that is a plain function, with three parameters,
  is accepted when it is registered. When the property then changes, the new value is set first, and
  only then the number of parameters is found to be wrong: \<open>configure\<close> reports the property as not set
  although it is, and no listener hears of the change, not even the generic ones.
\<close>

theorem wrong_listener_hides_change:
  assumes "plain_access (us j)" "fval (us j) = None" "validate_method (us j) = None" "onconfigure_method (us j) = None"
    and "splitId i = Returned (j, None)" "dget (properties st) j = Some p" "propid p = j"
    and "class_of p = SimpleProperty" "\<not> is_complex p" "isConfigurable p"
    and "''configure'' \<notin> set (kinds p)" "''execparam'' \<notin> set (kinds p)"
    and "dget (changeListeners c) j = Some l" "argcount l = 3"
    and "checked_value F p w = Returned (Single x)" "\<not> same_object (held_value c j) (Single x)" "\<not> property_lock c"
  shows "\<exists>t. Resource_configure F us hear st [(i, w)] c = (Ok (InvalidConfiguration [(i, w)]), t) \<and>
    held_value t j = Single x \<and> registry t = registry c"
proof -
  let ?b = "c\<lparr>property_lock := True\<rparr>"
  let ?r = "Value (Single x)"
  let ?d = "if isSendEventChange p then note_event p (set_ref p ?r ?b) else set_ref p ?r ?b"
  have u: "unvalidated (us j)" using assms(1-3) by (simp add: unvalidated_def)
  have cur: "current_value s p = held_value s j" for s :: "'a component"
    by (simp add: current_value_def current_ref_def held_value_def assms(7))
  have differs: "value_differs ?b p ?r"
    using assms(16) by (simp add: value_differs_def cur lock_fields(1)) (simp add: content_def)
  have conf: "property_configure F (us j) p w None False ?b = (Ok (), ?d)"
    by (simp add: property_configure_def assms(8,15) new_object_def is_mutable_def assign_value_changed [OF u assms(9) differs assms(4)])
  have get: "property_get (us j) p s = (Ok (current_ref s p), s)" for s
    by (rule property_get_run) (use assms(1) in \<open>simp add: plain_access_def\<close>)
  have same: "current_ref ?d p = ?r" "dget (changeListeners ?d) j = Some l" "registry ?d = registry ?b"
    using assms(13) by (auto simp: current_ref_def set_ref_def note_event_def assms(7))
  have held: "held_value ?d j = Single x" "content ?d (current_ref ?b p) = held_value ?b j" "content ?d ?r = Single x"
    by (auto simp: held_value_def set_ref_def note_event_def content_def current_ref_def assms(7) split: pyref.split option.split)
  have tell: "tell_by_id hear p j (current_ref ?b p) ?r ?d = (Exn InvalidConfigurationError, ?d)"
    using assms(11,12,14,16) by (simp add: tell_by_id_def same(2) held(2,3))
  have "storage_configure F us hear st i w False ?b = (Exn InvalidConfigurationError, ?d)"
    by (simp add: storage_configure_def assms(5,6,9) lookup_id_def act_bind_run(1) [where m = "property_get (us j) p", OF get]
        act_then_run(1) [where m = "property_configure F (us j) p w None False", OF conf] complex_or_None_def same(1)
        act_then_run(2) [where m = "tell_by_id hear p j (current_ref ?b p) ?r", OF tell] del: if_split)
  then have "try_configure F us hear st (i, w) ?b = (Ok False, ?d)"
    unfolding try_configure_def fst_conv snd_conv
    by (intro guarded_run(3) [OF assms(5,6)]) (simp_all add: assms(10) storage_guards [OF assms(5,6)])
  then have "configure_properties F us hear st [(i, w)] ?b = (Ok (InvalidConfiguration [(i, w)]), ?d)"
    by (simp add: configure_properties_def configuration_answer_def act_bind_def del: if_split)
  then have "Resource_configure F us hear st [(i, w)] c = (Ok (InvalidConfiguration [(i, w)]), ?d\<lparr>property_lock := False\<rparr>)"
    unfolding Resource_configure_def by (rule property_locked_run(1) [OF assms(17)])
  then show ?thesis using held(1) same(3)
    by (intro exI [of _ "?d\<lparr>property_lock := False\<rparr>"]) (simp del: if_split)
qed

section \<open>A small component\<close>

definition example_text :: sequence_text where
  "example_text = \<lparr>read_float = \<lambda>s. None, show_value = \<lambda>v. [], show_list = \<lambda>vs. [], show_pairs = \<lambda>ps. []\<rparr>"

definition gain_property :: property_def where
  "gain_property = \<lparr>propid = ''gain'', class_of = SimpleProperty, typename = ''short'', propname = ''gain'',
     mode = ''readwrite'', action = ''external'', kinds = [''property''], is_complex = False\<rparr>"

definition taps_property :: property_def where
  "taps_property = \<lparr>propid = ''taps[]'', class_of = SimpleSeqProperty, typename = ''long'', propname = ''taps'',
     mode = ''readwrite'', action = ''external'', kinds = [''property'', ''event''], is_complex = False\<rparr>"

definition example_storage :: storage where
  "example_storage = \<lparr>properties = [(''gain'', gain_property), (''taps[]'', taps_property)],
     name_map = [(''gain'', ''gain''), (''taps'', ''taps[]'')]\<rparr>"

definition example_component :: "unit component" where
  "example_component = \<lparr>heap = \<lambda>a. PyList [VInt 1, VInt 2], fresh = 1,
     attrs = [(''gain'', Value (Single (VInt 3))), (''taps[]'', Object 0)], event_supplier = True, events_sent = [],
     changeListeners = [], genericListeners = [], propertiesInitialized = False, property_lock = False, registry = ()\<rparr>"

definition deaf_component :: "unit component" where
  "deaf_component = example_component\<lparr>changeListeners := [(''gain'', \<lparr>callback_id = 1, argcount = 3\<rparr>)]\<rparr>"

definition nothing_heard :: "unit listening" where
  "nothing_heard l i old new g = ()"

definition anything_goes :: "string \<Rightarrow> pobj \<Rightarrow> bool" where
  "anything_goes i v = True"

definition strict_code :: "'r user_code" where
  "strict_code = no_user_code\<lparr>fval := Some (\<lambda>r. act_return False)\<rparr>"

lemmas example_defs = example_storage_def gain_property_def taps_property_def example_component_def deaf_component_def

lemma plain_codes: "unvalidated no_user_code" "plain_access no_user_code" "plain_access strict_code" "plain_access (checking_code V j)"
  by (simp_all add: unvalidated_def plain_access_def no_user_code_def strict_code_def checking_code_def)

lemma example_items: "set_items [(''1'', VInt 7)] [VInt 1, VInt 2] = (Returned (), [VInt 1, VInt 7])"
  by code_simp

lemma example_checks:
  "checked_value example_text taps_property (WireList [VInt 1, VInt 7]) = Returned (PyList [VInt 1, VInt 7])"
  "checked_value example_text gain_property (WireSingle (VInt 5)) = Returned (Single (VInt 5))"
  by code_simp+

lemma example_differs: "\<not> same_object (PyList [VInt 1, VInt 2]) (PyList [VInt 1, VInt 7])"
  by code_simp

lemma example_ids:
  "splitId ''gain'' = Returned (''gain'', None)" "splitId ''taps[@]'' = Returned (''taps[]'', Some ''[@]'')"
  "splitId ''taps[]'' = Returned (''taps[]'', Some ''[]'')" "splitId ''loss'' = Returned (''loss'', None)"
  by code_simp+

lemma example_fields:
  "\<not> is_complex taps_property" "class_of taps_property = SimpleSeqProperty"
  "dget (attrs example_component) (propid taps_property) = Some (Object 0)"
  "heap example_component 0 = PyList [VInt 1, VInt 2]" "isSendEventChange taps_property"
  "event_supplier example_component" "0 < fresh example_component" "events_sent example_component = []"
  "propid taps_property = ''taps[]''" "fval strict_code = Some (\<lambda>r. act_return False)"
  "onconfigure_method no_user_code = None" "no_user_code\<lparr>onconfigure_method := None\<rparr> = no_user_code"
  by (simp_all add: example_defs isSendEventChange_def strict_code_def no_user_code_def)

theorem pair_assignments_are_silent_witness:
  "(\<exists>c'. property_configure example_text no_user_code taps_property (WirePairs [(''1'', VInt 7)]) (Some ''[@]'') False
       example_component = (Ok (), c') \<and>
     current_value c' taps_property = PyList [VInt 1, VInt 7] \<and> events_sent c' = []) \<and>
   (\<exists>c'. property_configure example_text no_user_code taps_property (WireList [VInt 1, VInt 7]) None False
       example_component = (Ok (), c') \<and>
     current_value c' taps_property = PyList [VInt 1, VInt 7] \<and> events_sent c' = [''taps[]''])"
  using pair_assignments_are_silent [of no_user_code taps_property example_component 0, where h = None,
    OF plain_codes(1) example_fields(1-4) example_items example_differs example_checks(1) example_fields(11,5,6,7)]
  by (simp only: example_fields(8,9,12) append_Nil)

theorem rejected_pairs_stay_witness:
  "(\<exists>c'. property_configure example_text strict_code taps_property (WirePairs [(''1'', VInt 7)]) (Some ''[@]'') False
       example_component = (Exn ValueError, c') \<and> current_value c' taps_property = PyList [VInt 1, VInt 7]) \<and>
   (\<exists>c'. property_configure example_text strict_code taps_property (WireList [VInt 1, VInt 7]) None False
       example_component = (Exn ValueError, c') \<and> current_value c' taps_property = PyList [VInt 1, VInt 2])"
  by (rule rejected_pairs_stay [OF plain_codes(3) example_fields(10,1-4) example_items example_checks(1) example_fields(7)])

lemma example_storage_ok: "storage_ok example_storage"
  by (auto simp: storage_ok_def example_defs dict_ok_Cons split: if_splits)

theorem reset_keeps_changed_default_witness:
  "\<exists>c1 c2. storage_configure example_text (\<lambda>i. no_user_code) nothing_heard example_storage ''taps[@]''
       (WirePairs [(''1'', VInt 7)]) False example_component = (Ok (), c1) \<and>
     storage_initialize (text_format.truncate example_text) (\<lambda>i. no_user_code) (\<lambda>i. Object 0) example_storage [] c1 = (Ok (), c2) \<and>
     current_value c2 taps_property = PyList [VInt 1, VInt 7]"
proof -
  have "dget (properties example_storage) ''taps[]'' = Some taps_property" "class_of taps_property = SimpleSeqProperty"
    "\<not> is_complex taps_property" "dget (attrs example_component) ''taps[]'' = Some (Object 0)"
    "heap example_component 0 = PyList [VInt 1, VInt 2]" "dget (changeListeners example_component) ''taps[]'' = None"
    "genericListeners example_component = []"
    by (simp_all add: example_defs)
  from reset_keeps_changed_default [of example_storage "\<lambda>i. no_user_code" "''taps[]''" taps_property "''taps[@]''"
    example_component "\<lambda>i. Object 0", OF example_storage_ok plain_codes(1) this(1,2,3) example_ids(2) this(4) refl this(5)
    example_items this(6,7)]
  show ?thesis by blast
qed

definition example_request :: "property_request list" where
  "example_request = [(''gain'', WireSingle (VInt 70000)), (''taps[]'', WireList [VInt 9]), (''loss'', WireSingle VNone)]"

lemma example_accepted:
  "accepted_value example_text anything_goes isConfigurable example_storage (''gain'', WireSingle (VInt 70000)) = None"
  "accepted_value example_text anything_goes isConfigurable example_storage (''taps[]'', WireList [VInt 9])
     = Some (''taps[]'', PyList [VInt 9])"
  "accepted_value example_text anything_goes isConfigurable example_storage (''loss'', WireSingle VNone) = None"
  by code_simp+

lemma example_accepted_first:
  "accepted_value example_text anything_goes isProperty example_storage (''gain'', WireSingle (VInt 70000)) = None"
  "accepted_value example_text anything_goes isProperty example_storage (''taps[]'', WireList [VInt 9])
     = Some (''taps[]'', PyList [VInt 9])"
  "accepted_value example_text anything_goes isProperty example_storage (''loss'', WireSingle VNone) = None"
  by code_simp+

lemma example_component_ok: "component_ok example_component"
  by (auto simp: component_ok_def example_component_def split: if_splits)

lemma example_unlocked: "\<not> property_lock example_component" "\<not> property_lock deaf_component"
  by (simp_all add: example_defs)

lemma example_request_plain: "\<forall>q \<in> set example_request. plain_request example_storage q"
  by (auto simp: example_request_def plain_request_def example_defs example_ids split: if_splits)

lemma example_held:
  "held_value example_component ''gain'' = Single (VInt 3)"
  by (simp add: held_value_def content_def example_component_def)

theorem configure_sets_valid_properties_witness:
  "\<exists>t. Resource_configure example_text (checking_code anything_goes) nothing_heard example_storage example_request example_component =
     (Ok (PartialConfiguration [(''gain'', WireSingle (VInt 70000)), (''loss'', WireSingle VNone)]), t) \<and>
     held_value t ''gain'' = Single (VInt 3) \<and> held_value t ''taps[]'' = PyList [VInt 9]"
proof -
  obtain t where t: "Resource_configure example_text (checking_code anything_goes) nothing_heard example_storage example_request example_component
      = (Ok (if \<forall>q \<in> set example_request. valid_request example_text anything_goes isConfigurable example_storage q then AllSet
           else if \<forall>q \<in> set example_request. \<not> valid_request example_text anything_goes isConfigurable example_storage q
             then InvalidConfiguration example_request
           else PartialConfiguration (filter (\<lambda>q. \<not> valid_request example_text anything_goes isConfigurable example_storage q) example_request)), t)"
    "\<forall>i. held_value t i = settled_value (accepted_value example_text anything_goes isConfigurable example_storage)
       (held_value example_component i) i example_request"
    using configure_sets_valid_properties [OF example_component_ok example_unlocked(1) example_request_plain, of example_text anything_goes nothing_heard]
    by blast
  show ?thesis using t by (auto simp: example_request_def valid_request_def example_accepted example_held)
qed

theorem initializeProperties_once_witness:
  "\<exists>t. Resource_initializeProperties example_text (checking_code anything_goes) example_storage example_request example_component =
     (Ok (PartialConfiguration [(''gain'', WireSingle (VInt 70000)), (''loss'', WireSingle VNone)]), t) \<and>
     held_value t ''taps[]'' = PyList [VInt 9] \<and>
     Resource_initializeProperties example_text (checking_code anything_goes) example_storage [] t = (Ok AlreadyInitialized, t)"
proof -
  have n: "\<not> propertiesInitialized example_component" by (simp add: example_component_def)
  obtain t where t: "Resource_initializeProperties example_text (checking_code anything_goes) example_storage example_request example_component
      = (Ok (if \<forall>q \<in> set example_request. valid_request example_text anything_goes isProperty example_storage q then AllSet
           else if \<forall>q \<in> set example_request. \<not> valid_request example_text anything_goes isProperty example_storage q
             then InvalidConfiguration example_request
           else PartialConfiguration (filter (\<lambda>q. \<not> valid_request example_text anything_goes isProperty example_storage q) example_request)), t)"
    "\<forall>i. held_value t i = settled_value (accepted_value example_text anything_goes isProperty example_storage)
       (held_value example_component i) i example_request"
    "Resource_initializeProperties example_text (checking_code anything_goes) example_storage [] t = (Ok AlreadyInitialized, t)"
    using initializeProperties_once [OF example_component_ok example_unlocked(1) n example_request_plain, of example_text anything_goes "[]"] by blast
  show ?thesis using t by (auto simp: example_request_def valid_request_def example_accepted_first)
qed

lemma example_id_names:
  "id_names example_storage ''gain'' gain_property None" "id_names example_storage ''taps[]'' taps_property (Some ''[]'')"
  "id_names example_storage ''taps[#]'' taps_property (Some ''[#]'')" "id_names example_storage ''taps[-1,0]'' taps_property (Some ''[-1,0]'')"
  "id_names example_storage ''taps[1:]'' taps_property (Some ''[1:]'')" "id_names example_storage ''taps[2]'' taps_property (Some ''[2]'')"
proof -
  have "splitId ''gain'' = Returned (''gain'', None)" "splitId ''taps[]'' = Returned (''taps[]'', Some ''[]'')"
    "splitId ''taps[#]'' = Returned (''taps[]'', Some ''[#]'')" "splitId ''taps[-1,0]'' = Returned (''taps[]'', Some ''[-1,0]'')"
    "splitId ''taps[1:]'' = Returned (''taps[]'', Some ''[1:]'')" "splitId ''taps[2]'' = Returned (''taps[]'', Some ''[2]'')"
    by code_simp+
  moreover have "dget (properties example_storage) ''gain'' = Some gain_property"
    "dget (properties example_storage) ''taps[]'' = Some taps_property" by (simp_all add: example_storage_def)
  ultimately show "id_names example_storage ''gain'' gain_property None"
    "id_names example_storage ''taps[]'' taps_property (Some ''[]'')"
    "id_names example_storage ''taps[#]'' taps_property (Some ''[#]'')"
    "id_names example_storage ''taps[-1,0]'' taps_property (Some ''[-1,0]'')"
    "id_names example_storage ''taps[1:]'' taps_property (Some ''[1:]'')"
    "id_names example_storage ''taps[2]'' taps_property (Some ''[2]'')"
    unfolding id_names_iff by blast+
qed


theorem wrong_listener_hides_change_witness:
  "\<exists>t. Resource_configure example_text (\<lambda>i. no_user_code) nothing_heard example_storage [(''gain'', WireSingle (VInt 5))]
       deaf_component = (Ok (InvalidConfiguration [(''gain'', WireSingle (VInt 5))]), t) \<and>
     held_value t ''gain'' = Single (VInt 5)"
  using wrong_listener_hides_change [of "\<lambda>i. no_user_code" "''gain''" "''gain''" example_storage gain_property deaf_component
    "\<lparr>callback_id = 1, argcount = 3\<rparr>" example_text "WireSingle (VInt 5)" "VInt 5" nothing_heard]
  by (auto simp: plain_codes example_checks example_ids)
    (auto simp: example_defs isConfigurable_def isProperty_def isWritable_def no_user_code_def held_value_def content_def same_object_def same_value_def)

end
