(* ===== verification/PropertyMonitors.thy ===== *)
theory PropertyMonitors
  imports PropertyAnswers
begin

text \<open>
  Property change listeners of a component (\<open>registerPropertyListener\<close>, \<open>unregisterPropertyListener\<close> and
  \<open>_propertyChangeServiceFunction\<close> in \<open>ossie/resource.py\<close>, with \<open>_PCL_Monitor\<close>, \<open>_PCL_MonitorTrack\<close> and
  \<open>_PropertyChangeRec\<close>): each registration keeps one flag per property, which is set by \<open>configure\<close> and
  by the monitor thread when it finds a changed value, and is reported and cleared when the interval
  of the registration has expired.

  A pass of the monitor thread holds the lock of the property interface. It reads the values of the
  properties from the component, for properties without user getters, and the clock once at its start and
  once when it sets new expiration times. Registration IDs are numbers, given by the caller in place of
  \<open>uuid1\<close>.
\<close>

section \<open>Monitors\<close>

record pcl_monitor =
  recorded :: bool
  changed :: bool

definition new_monitor :: pcl_monitor where
  "new_monitor = \<lparr>recorded = False, changed = False\<rparr>"

definition recordChanged :: "pcl_monitor \<Rightarrow> pcl_monitor" where
  "recordChanged p = (if recorded p then p else p\<lparr>recorded := True, changed := True\<rparr>)"

definition monitor_reset :: "pcl_monitor \<Rightarrow> pcl_monitor" where
  "monitor_reset p = p\<lparr>recorded := False, changed := False\<rparr>"

text \<open>The monitor of a property remembers the object that it saw last.\<close>

record monitor_track =
  old_ref :: pyref
  diff :: bool
  tested :: bool

record change_rec =
  reportInterval :: rat
  expiration :: rat
  watched :: "(string, pcl_monitor) dict"

record monitors =
  registrations :: "(nat, change_rec) dict"
  propMonitors :: "(string, monitor_track) dict"
  notices :: "(nat \<times> (string \<times> any_answer) list) list"
  thread_running :: bool
  thread_delay :: rat

type_synonym watched_component = "monitors component"

definition held_ref :: "'r component \<Rightarrow> string \<Rightarrow> pyref" where
  "held_ref c i = (case dget (attrs c) i of Some r \<Rightarrow> r | None \<Rightarrow> NoneRef)"

definition new_track :: "'r component \<Rightarrow> string \<Rightarrow> monitor_track" where
  "new_track c k = \<lparr>old_ref = held_ref c k, diff = False, tested = False\<rparr>"

definition track_isChanged :: "'r component \<Rightarrow> string \<Rightarrow> monitor_track \<Rightarrow> monitor_track" where
  "track_isChanged c k t = (if tested t then t
     else t\<lparr>diff := diff t \<or> \<not> same_object (content c (old_ref t)) (content c (held_ref c k)), tested := True\<rparr>)"

definition track_reset :: "'r component \<Rightarrow> string \<Rightarrow> monitor_track \<Rightarrow> monitor_track" where
  "track_reset c k t = t\<lparr>old_ref := held_ref c k, tested := False, diff := False\<rparr>"

definition init_monitors :: "storage \<Rightarrow> watched_component \<Rightarrow> watched_component" where
  "init_monitors st c = c\<lparr>registry := (registry c)\<lparr>propMonitors := map (\<lambda>(k, p). (k, new_track c k)) (properties st)\<rparr>\<rparr>"

section \<open>Registration\<close>

text \<open>The callback of a registration, a method with four parameters.\<close>

definition rec_listener :: "nat \<Rightarrow> listener" where
  "rec_listener n = \<lparr>callback_id = n, argcount = 4\<rparr>"

definition map_entry :: "'k \<Rightarrow> ('v \<Rightarrow> 'v) \<Rightarrow> ('k, 'v) dict \<Rightarrow> ('k, 'v) dict" where
  "map_entry k f d = map (\<lambda>(j, v). (j, if j = k then f v else v)) d"

definition rec_callback :: "monitors listening" where
  "rec_callback l i old new m =
     m\<lparr>registrations := map_entry (callback_id l) (\<lambda>r. r\<lparr>watched := map_entry i recordChanged (watched r)\<rparr>) (registrations m)\<rparr>"

datatype register_answer = Registered | UnknownIds "string list" | InvalidObjectReference
datatype unregister_answer = Unregistered | InvalidIdentifier

definition listed_ids :: "storage \<Rightarrow> string list \<Rightarrow> string list" where
  "listed_ids st ids = (if ids = [] then filter (\<lambda>i. queryable_id st i = Returned True) (dkeys (properties st)) else ids)"

fun watch_all :: "string list \<Rightarrow> (string, pcl_monitor) dict" where
  "watch_all [] = []"
| "watch_all (i # is) = dput i new_monitor (watch_all is)"

text \<open>Both operations release the lock by hand where they return; an exception leaves it held.\<close>

definition locked_by_hand :: "('r, 'a) component_action \<Rightarrow> ('r, 'a) component_action" where
  "locked_by_hand m = act_then acquire_lock (act_bind m (\<lambda>x. act_then release_lock (act_return x)))"

definition registerPropertyListener ::
    "storage \<Rightarrow> bool \<Rightarrow> nat \<Rightarrow> rat \<Rightarrow> rat \<Rightarrow> string list \<Rightarrow> (monitors, register_answer) component_action" where
  "registerPropertyListener st registrant_ok n now interval ids = locked_by_hand (
     act_bind (lift_outcome (collect_outcomes (queryable_id st) ids)) (\<lambda>known.
       let unknown = map fst (filter (\<lambda>(i, ok). \<not> ok) (zip ids known)) in
       if unknown \<noteq> [] then act_return (UnknownIds unknown)
       else if \<not> registrant_ok then act_return InvalidObjectReference
       else act_then (addChangeListener (rec_listener n) None)
         (act_then (act_update (\<lambda>c. c\<lparr>registry := (registry c)\<lparr>
             registrations := dput n \<lparr>reportInterval = interval, expiration = now + interval,
               watched = watch_all (listed_ids st ids)\<rparr> (registrations (registry c)),
             thread_running := True\<rparr>\<rparr>))
           (act_return Registered))))"

definition unregisterPropertyListener :: "nat \<Rightarrow> (monitors, unregister_answer) component_action" where
  "unregisterPropertyListener n = locked_by_hand (act_bind (act_get (\<lambda>c. dget (registrations (registry c)) n)) (\<lambda>found.
     if found = None then act_return InvalidIdentifier
     else act_then (removeChangeListener (rec_listener n))
       (act_then (act_update (\<lambda>c. c\<lparr>registry := (registry c)\<lparr>registrations := dpop n (registrations (registry c))\<rparr>\<rparr>))
         (act_then (act_update (\<lambda>c. if registrations (registry c) = []
             then c\<lparr>registry := (registry c)\<lparr>thread_running := False\<rparr>\<rparr> else c))
           (act_return Unregistered)))))"

section \<open>A pass of the monitor thread\<close>

text \<open>First loop over the properties of a registration: ask the monitors; a property without one is passed over.\<close>

fun ask_monitors ::
    "'r component \<Rightarrow> (string, pcl_monitor) dict \<Rightarrow> (string, monitor_track) dict
       \<Rightarrow> (string, pcl_monitor) dict \<times> (string, monitor_track) dict" where
  "ask_monitors c [] mons = ([], mons)"
| "ask_monitors c ((k, p) # ps) mons = (case dget mons k of
      None \<Rightarrow> (let (ps', mons') = ask_monitors c ps mons in ((k, p) # ps', mons'))
    | Some t \<Rightarrow> (let t' = track_isChanged c k t;
          (ps', mons') = ask_monitors c ps (dput k t' mons) in
        ((k, if diff t' then recordChanged p else p) # ps', mons')))"

text \<open>Second loop, when the interval has expired: the changed properties whose query succeeds.\<close>

definition changed_values ::
    "sequence_text \<Rightarrow> storage \<Rightarrow> 'r component \<Rightarrow> (string, pcl_monitor) dict \<Rightarrow> (string \<times> any_answer) list" where
  "changed_values F st c ps = concat (map (\<lambda>(k, p). if changed p
     then (case id_answer F st c k of Returned a \<Rightarrow> [(k, a)] | _ \<Rightarrow> []) else []) ps)"

definition next_delay :: "rat \<Rightarrow> rat \<Rightarrow> rat" where
  "next_delay delay dur = (let d = (if delay = 0 then dur else delay) in if 0 < dur then min d dur else d)"

text \<open>One registration: the entry afterwards, the monitors, what is sent, and the time to wait.\<close>

definition serve_registration ::
    "sequence_text \<Rightarrow> storage \<Rightarrow> 'r component \<Rightarrow> rat \<Rightarrow> rat \<Rightarrow> change_rec \<Rightarrow> (string, monitor_track) dict
       \<Rightarrow> change_rec \<times> (string, monitor_track) dict \<times> (string \<times> any_answer) list \<times> rat" where
  "serve_registration F st c now later r mons =
     (let (ps, mons') = ask_monitors c (watched r) mons in
      if expiration r - now \<le> 0 then
        (r\<lparr>watched := map (\<lambda>(k, p). (k, monitor_reset p)) ps, expiration := later + reportInterval r\<rparr>, mons',
         changed_values F st c ps, reportInterval r)
      else (r\<lparr>watched := ps\<rparr>, mons', [], expiration r - now))"

fun serve_all ::
    "sequence_text \<Rightarrow> storage \<Rightarrow> 'r component \<Rightarrow> rat \<Rightarrow> rat \<Rightarrow> (nat, change_rec) dict \<Rightarrow> (string, monitor_track) dict \<Rightarrow> rat
       \<Rightarrow> (nat, change_rec) dict \<times> (string, monitor_track) dict \<times> (nat \<times> (string \<times> any_answer) list) list \<times> rat" where
  "serve_all F st c now later [] mons delay = ([], mons, [], delay)"
| "serve_all F st c now later ((n, r) # rs) mons delay =
     (let (r', mons', sent, dur) = serve_registration F st c now later r mons;
          (rs', mons'', notes, delay') = serve_all F st c now later rs mons' (next_delay delay dur)
      in ((n, r') # rs', mons'', (if sent \<noteq> [] then [(n, sent)] else []) @ notes, delay'))"

definition service_pass :: "sequence_text \<Rightarrow> storage \<Rightarrow> rat \<Rightarrow> rat \<Rightarrow> watched_component \<Rightarrow> watched_component" where
  "service_pass F st now later c =
     (let m = registry c;
          (rs, mons, notes, delay) = serve_all F st c now later (registrations m) (propMonitors m) 0
      in c\<lparr>registry := m\<lparr>registrations := rs,
           propMonitors := (if registrations m \<noteq> [] then map (\<lambda>(k, t). (k, track_reset c k t)) mons else mons),
           notices := notices m @ notes,
           thread_delay := (if 0 < delay then delay else thread_delay m)\<rparr>\<rparr>)"

definition propertyChangeServiceFunction :: "sequence_text \<Rightarrow> storage \<Rightarrow> rat \<Rightarrow> rat \<Rightarrow> (monitors, unit) component_action" where
  "propertyChangeServiceFunction F st now later = locked_by_hand (act_update (service_pass F st now later))"

section \<open>What a pass does\<close>

definition differs :: "'r component \<Rightarrow> (string, monitor_track) dict \<Rightarrow> string \<Rightarrow> bool" where
  "differs c mons k = (case dget mons k of
      Some t \<Rightarrow> \<not> same_object (content c (old_ref t)) (content c (held_ref c k))
    | None \<Rightarrow> False)"

text \<open>Within a pass a monitor has not been asked, or knows whether the value differs.\<close>

definition tracks_ok :: "'r component \<Rightarrow> (string, monitor_track) dict \<Rightarrow> bool" where
  "tracks_ok c mons \<longleftrightarrow> (\<forall>k t. dget mons k = Some t \<longrightarrow> (if tested t then diff t = differs c mons k else \<not> diff t))"

lemma track_isChanged_diff:
  "tracks_ok c mons \<Longrightarrow> dget mons k = Some t \<Longrightarrow> diff (track_isChanged c k t) = differs c mons k"
  by (auto simp: tracks_ok_def track_isChanged_def differs_def split: if_splits)

lemma ask_keeps_tracks:
  assumes "tracks_ok c mons" "dget mons k = Some t"
  shows "tracks_ok c (dput k (track_isChanged c k t) mons)" "differs c (dput k (track_isChanged c k t) mons) = differs c mons"
proof -
  show d: "differs c (dput k (track_isChanged c k t) mons) = differs c mons"
    using assms(2) by (auto simp: differs_def track_isChanged_def fun_eq_iff)
  show "tracks_ok c (dput k (track_isChanged c k t) mons)"
    unfolding tracks_ok_def d using assms track_isChanged_diff [OF assms]
    by (auto simp: tracks_ok_def track_isChanged_def split: if_splits)
qed

definition ask_spec :: "(string \<Rightarrow> bool) \<Rightarrow> (string, pcl_monitor) dict \<Rightarrow> (string, pcl_monitor) dict" where
  "ask_spec D ps = map (\<lambda>(k, p). (k, if D k then recordChanged p else p)) ps"

lemma ask_monitors_spec:
  assumes "tracks_ok c mons"
  shows "\<exists>mons'. ask_monitors c ps mons = (ask_spec (differs c mons) ps, mons') \<and> tracks_ok c mons' \<and>
    differs c mons' = differs c mons \<and> dkeys mons' = dkeys mons"
  using assms
proof (induction ps arbitrary: mons)
  case (Cons e ps)
  obtain k p where e: "e = (k, p)" by (cases e)
  show ?case
  proof (cases "dget mons k")
    case None
    then have "\<not> differs c mons k" by (simp add: differs_def)
    then show ?thesis using Cons.IH [OF Cons.prems] None by (auto simp: e ask_spec_def)
  next
    case (Some t)
    have keys: "dkeys (dput k x mons) = dkeys mons" for x
      using dget_Some_mem [OF Some] by (force simp: dput_def dkeys_def update_keys)
    show ?thesis
      using Cons.IH [OF ask_keeps_tracks(1) [OF Cons.prems Some]] track_isChanged_diff [OF Cons.prems Some] Some
      by (auto simp: e ask_spec_def Let_def ask_keeps_tracks(2) [OF Cons.prems Some] keys)
  qed
qed (simp add: ask_spec_def)

text \<open>The values that a registration has to report, and the registration after the pass.\<close>

definition reported ::
    "sequence_text \<Rightarrow> storage \<Rightarrow> 'r component \<Rightarrow> (string \<Rightarrow> bool) \<Rightarrow> change_rec \<Rightarrow> (string \<times> any_answer) list" where
  "reported F st c D r = concat (map (\<lambda>(k, p). if changed p \<or> D k
     then (case id_answer F st c k of Returned a \<Rightarrow> [(k, a)] | _ \<Rightarrow> []) else []) (watched r))"

definition expired :: "rat \<Rightarrow> change_rec \<Rightarrow> bool" where
  "expired now r \<longleftrightarrow> expiration r \<le> now"

definition flags_ok :: "change_rec \<Rightarrow> bool" where
  "flags_ok r \<longleftrightarrow> (\<forall>(k, p) \<in> set (watched r). recorded p = changed p)"

definition served :: "(string \<Rightarrow> bool) \<Rightarrow> rat \<Rightarrow> rat \<Rightarrow> change_rec \<Rightarrow> change_rec" where
  "served D now later r = (if expired now r
     then r\<lparr>watched := map (\<lambda>(k, p). (k, new_monitor)) (watched r), expiration := later + reportInterval r\<rparr>
     else r\<lparr>watched := ask_spec D (watched r)\<rparr>)"

definition notes_of ::
    "sequence_text \<Rightarrow> storage \<Rightarrow> 'r component \<Rightarrow> (string \<Rightarrow> bool) \<Rightarrow> rat \<Rightarrow> (nat, change_rec) dict
       \<Rightarrow> (nat \<times> (string \<times> any_answer) list) list" where
  "notes_of F st c D now rs = concat (map (\<lambda>(n, r).
     if expired now r \<and> reported F st c D r \<noteq> [] then [(n, reported F st c D r)] else []) rs)"

lemma recordChanged_changed: "recorded p = changed p \<Longrightarrow> changed (if b then recordChanged p else p) = (changed p \<or> b)"
  by (simp add: recordChanged_def)

lemma changed_values_ask:
  "flags_ok r \<Longrightarrow> changed_values F st c (ask_spec D (watched r)) = reported F st c D r"
proof -
  assume ok: "flags_ok r"
  have "(case (case e of (k, p) \<Rightarrow> (k, if D k then recordChanged p else p)) of (k, p) \<Rightarrow> if changed p
        then (case id_answer F st c k of Returned a \<Rightarrow> [(k, a)] | _ \<Rightarrow> []) else [])
      = (case e of (k, p) \<Rightarrow> if changed p \<or> D k
        then (case id_answer F st c k of Returned a \<Rightarrow> [(k, a)] | _ \<Rightarrow> []) else [])" if "e \<in> set (watched r)" for e
    using ok that by (auto simp: flags_ok_def recordChanged_def)
  then show ?thesis by (simp add: changed_values_def ask_spec_def reported_def o_def cong: map_cong)
qed

lemma reset_asked: "map (\<lambda>(k, p). (k, monitor_reset p)) (ask_spec D ps) = map (\<lambda>(k, p). (k, new_monitor)) ps"
  by (auto simp: ask_spec_def monitor_reset_def new_monitor_def)

lemma serve_registration_spec:
  assumes "tracks_ok c mons" "flags_ok r"
  shows "\<exists>mons' dur. serve_registration F st c now later r mons =
      (served (differs c mons) now later r, mons', if expired now r then reported F st c (differs c mons) r else [], dur) \<and>
    tracks_ok c mons' \<and> differs c mons' = differs c mons \<and> dkeys mons' = dkeys mons"
  using ask_monitors_spec [OF assms(1), of "watched r"]
  by (auto simp: serve_registration_def served_def expired_def changed_values_ask [OF assms(2)] reset_asked)

lemma serve_all_spec:
  assumes "tracks_ok c mons" "\<forall>(n, r) \<in> set rs. flags_ok r"
  shows "\<exists>mons' delay'. serve_all F st c now later rs mons delay =
      (map (\<lambda>(n, r). (n, served (differs c mons) now later r)) rs, mons', notes_of F st c (differs c mons) now rs, delay') \<and>
    dkeys mons' = dkeys mons"
  using assms
proof (induction rs arbitrary: mons delay)
  case (Cons e rs)
  obtain n r where e: "e = (n, r)" by (cases e)
  obtain mons1 dur where one: "serve_registration F st c now later r mons =
      (served (differs c mons) now later r, mons1, if expired now r then reported F st c (differs c mons) r else [], dur)"
    "tracks_ok c mons1" "differs c mons1 = differs c mons" "dkeys mons1 = dkeys mons"
    using serve_registration_spec [OF Cons.prems(1)] Cons.prems(2) by (force simp: e)
  obtain mons2 delay2 where rest: "serve_all F st c now later rs mons1 (next_delay delay dur) =
      (map (\<lambda>(n, r). (n, served (differs c mons1) now later r)) rs, mons2, notes_of F st c (differs c mons1) now rs, delay2)"
    "dkeys mons2 = dkeys mons1"
    using Cons.IH [OF one(2), of "next_delay delay dur"] Cons.prems(2) by auto
  show ?case using rest one(3,4) by (auto simp: e one(1) notes_of_def Let_def)
qed (simp add: notes_of_def)

definition monitors_ok :: "watched_component \<Rightarrow> bool" where
  "monitors_ok c \<longleftrightarrow> dict_ok (registrations (registry c)) \<and> dict_ok (propMonitors (registry c)) \<and>
     (\<forall>(k, t) \<in> set (propMonitors (registry c)). \<not> tested t \<and> \<not> diff t) \<and>
     (\<forall>(n, r) \<in> set (registrations (registry c)). flags_ok r)"

abbreviation moved :: "watched_component \<Rightarrow> string \<Rightarrow> bool" where
  "moved c \<equiv> differs c (propMonitors (registry c))"

lemma service_pass_spec:
  assumes "monitors_ok c"
  shows "\<exists>delay. service_pass F st now later c = c\<lparr>registry := (registry c)\<lparr>
      registrations := map (\<lambda>(n, r). (n, served (moved c) now later r)) (registrations (registry c)),
      propMonitors := (if registrations (registry c) \<noteq> []
        then map (\<lambda>k. (k, new_track c k)) (dkeys (propMonitors (registry c))) else propMonitors (registry c)),
      notices := notices (registry c) @ notes_of F st c (moved c) now (registrations (registry c)),
      thread_delay := delay\<rparr>\<rparr>"
proof -
  let ?m = "registry c"
  have t: "tracks_ok c (propMonitors ?m)"
    using assms by (auto simp: monitors_ok_def tracks_ok_def dest!: dget_Some_mem)
  have flags: "\<forall>(n, r) \<in> set (registrations ?m). flags_ok r" using assms by (simp add: monitors_ok_def)
  obtain mons delay where s: "serve_all F st c now later (registrations ?m) (propMonitors ?m) 0 =
      (map (\<lambda>(n, r). (n, served (moved c) now later r)) (registrations ?m), mons,
       notes_of F st c (moved c) now (registrations ?m), delay)" "dkeys mons = dkeys (propMonitors ?m)"
    using serve_all_spec [OF t flags, of F st now later 0] by (elim exE conjE) (rule that)
  have none: "mons = propMonitors ?m" if "registrations ?m = []" using s(1) that by simp
  have "map (\<lambda>(k, t). (k, track_reset c k t)) mons = map (\<lambda>k. (k, new_track c k)) (dkeys mons)"
    by (auto simp: dkeys_def track_reset_def new_track_def)
  then have e: "(if registrations ?m \<noteq> [] then map (\<lambda>(k, t). (k, track_reset c k t)) mons else mons) =
      (if registrations ?m \<noteq> [] then map (\<lambda>k. (k, new_track c k)) (dkeys (propMonitors ?m)) else propMonitors ?m)"
    using none s(2) by simp
  show ?thesis by (rule exI) (simp only: service_pass_def Let_def s(1) prod.case e)
qed

end
