(* ===== verification/PropertyReports.thy ===== *)
theory PropertyReports
  imports PropertyMonitors
begin

text \<open>
  What a registered property change listener gets to hear: one pass of the monitor thread, a change over
  several passes until the interval of the registration expires, registrations that can never fire,
  and the registration that leaves the lock of the property interface held.
\<close>

section \<open>One pass\<close>

lemma locked_by_hand_run:
  "\<not> property_lock c \<Longrightarrow> m (c\<lparr>property_lock := True\<rparr>) = (Ok x, t) \<Longrightarrow>
   locked_by_hand m c = (Ok x, t\<lparr>property_lock := False\<rparr>)"
  "\<not> property_lock c \<Longrightarrow> m (c\<lparr>property_lock := True\<rparr>) = (Exn e, t) \<Longrightarrow> locked_by_hand m c = (Exn e, t)"
  "property_lock c \<Longrightarrow> locked_by_hand m c = (Hangs, c)"
  by (simp_all add: locked_by_hand_def release_lock_def acquire_run act_then_def act_bind_def)

lemma dget_map_values: "dget (map (\<lambda>(k, v). (k, f k v)) d) k = map_option (f k) (dget d k)"
  by (induction d) (auto simp: dget_def)

lemma dget_map_keys: "dget (map (\<lambda>k. (k, f k)) ks) k = (if k \<in> set ks then Some (f k) else None)"
  by (induction ks) (auto simp: dget_def)

lemma dkeys_map_values: "dkeys (map (\<lambda>(k, v). (k, f k v)) d) = dkeys d"
  by (auto simp: dkeys_def)

lemma served_flags: "flags_ok r \<Longrightarrow> flags_ok (served D now later r)"
  by (fastforce simp: flags_ok_def served_def ask_spec_def new_monitor_def recordChanged_def split: if_splits)

lemma held_ref_cong [simp]: "held_ref (c\<lparr>registry := m\<rparr>) = held_ref c" "content (c\<lparr>registry := m\<rparr>) r = content c r"
  by (simp_all add: held_ref_def fun_eq_iff content_def split: pyref.split)

lemma pass_keeps_ok: "monitors_ok c \<Longrightarrow> monitors_ok (service_pass F st now later c)"
proof -
  assume ok: "monitors_ok c"
  obtain delay where p: "service_pass F st now later c = c\<lparr>registry := (registry c)\<lparr>
      registrations := map (\<lambda>(n, r). (n, served (moved c) now later r)) (registrations (registry c)),
      propMonitors := (if registrations (registry c) \<noteq> []
        then map (\<lambda>k. (k, new_track c k)) (dkeys (propMonitors (registry c))) else propMonitors (registry c)),
      notices := notices (registry c) @ notes_of F st c (moved c) now (registrations (registry c)),
      thread_delay := delay\<rparr>\<rparr>"
    using service_pass_spec [OF ok] by blast
  have d: "dict_ok (map (\<lambda>(n, r). (n, f n r)) d)" if "dict_ok d" for f :: "nat \<Rightarrow> change_rec \<Rightarrow> change_rec" and d
    using that by (simp add: dict_ok_def dkeys_map_values)
  have m: "dict_ok (map (\<lambda>k. (k, new_track c k)) (dkeys (propMonitors (registry c))))"
    using ok by (simp add: monitors_ok_def dict_ok_def dkeys_def o_def)
  show ?thesis
    using ok d m served_flags
    by (auto simp: p monitors_ok_def new_track_def)
qed

lemma lock_ignored [simp]:
  "held_ref (c\<lparr>property_lock := b\<rparr>) = held_ref c"
  "id_answer F st (c\<lparr>property_lock := b\<rparr>) i = id_answer F st c i"
  "differs (c\<lparr>property_lock := b\<rparr>) mons = differs c mons"
  "new_track (c\<lparr>property_lock := b\<rparr>) k = new_track c k"
  "monitors_ok (c\<lparr>property_lock := b\<rparr>) = monitors_ok c"
proof -
  show h: "held_ref (c\<lparr>property_lock := b\<rparr>) = held_ref c" for c :: "'r component" by (simp add: held_ref_def fun_eq_iff)
  show "id_answer F st (c\<lparr>property_lock := b\<rparr>) i = id_answer F st c i"
    by (simp add: id_answer_def current_value_def current_ref_def)
  show "differs (c\<lparr>property_lock := b\<rparr>) mons = differs c mons"
    by (simp add: differs_def h fun_eq_iff split: option.split)
  show "new_track (c\<lparr>property_lock := b\<rparr>) k = new_track c k" by (simp add: new_track_def h)
  show "monitors_ok (c\<lparr>property_lock := b\<rparr>) = monitors_ok c" by (simp add: monitors_ok_def)
qed

lemma pass_run:
  assumes "monitors_ok c" "\<not> property_lock c"
  obtains t where "propertyChangeServiceFunction F st now later c = (Ok (), t)" "monitors_ok t" "\<not> property_lock t"
    "attrs t = attrs c" "heap t = heap c"
    "registrations (registry t) = map (\<lambda>(n, r). (n, served (moved c) now later r)) (registrations (registry c))"
    "propMonitors (registry t) = (if registrations (registry c) \<noteq> []
        then map (\<lambda>k. (k, new_track c k)) (dkeys (propMonitors (registry c))) else propMonitors (registry c))"
    "notices (registry t) = notices (registry c) @ notes_of F st c (moved c) now (registrations (registry c))"
proof -
  let ?c = "c\<lparr>property_lock := True\<rparr>"
  let ?t = "(service_pass F st now later ?c)\<lparr>property_lock := False\<rparr>"
  have ok: "monitors_ok ?c" using assms(1) by simp
  have run: "propertyChangeServiceFunction F st now later c = (Ok (), ?t)"
    unfolding propertyChangeServiceFunction_def by (rule locked_by_hand_run(1) [OF assms(2)]) simp
  have answers: "id_answer F st ?c = id_answer F st c" by (rule ext) simp
  have same_notes: "notes_of F st ?c D = notes_of F st c D" for D
    unfolding notes_of_def [abs_def] reported_def [abs_def] answers by (rule refl)
  obtain delay where p: "service_pass F st now later ?c = ?c\<lparr>registry := (registry ?c)\<lparr>
      registrations := map (\<lambda>(n, r). (n, served (moved ?c) now later r)) (registrations (registry ?c)),
      propMonitors := (if registrations (registry ?c) \<noteq> []
        then map (\<lambda>k. (k, new_track ?c k)) (dkeys (propMonitors (registry ?c))) else propMonitors (registry ?c)),
      notices := notices (registry ?c) @ notes_of F st ?c (moved ?c) now (registrations (registry ?c)),
      thread_delay := delay\<rparr>\<rparr>"
    using service_pass_spec [OF ok, of F st now later] by (elim exE) (rule that)
  have "monitors_ok ?t" using pass_keeps_ok [OF ok] by simp
  then show ?thesis by (intro that [OF run]) (simp_all add: p same_notes split: if_split)
qed

text \<open>
  C16: A pass of the monitor thread, for any component whose flags are consistent. It appends to what was
  sent one notice per registration whose interval has expired and that has something to report, with
  the values of all its properties that were flagged before or differ from what the monitor saw last, as
  far as they can be queried. Expired registrations are cleared and get a new expiration time; the
  others keep their time and flag the changed properties. All monitors then hold the present values.
\<close>

theorem monitor_pass_reports:
  assumes "monitors_ok c" "\<not> property_lock c" "registrations (registry c) \<noteq> []"
  shows "\<exists>t. propertyChangeServiceFunction F st now later c = (Ok (), t) \<and> monitors_ok t \<and> \<not> property_lock t \<and>
    notices (registry t) = notices (registry c) @
      concat (map (\<lambda>(n, r). let vs = concat (map (\<lambda>(k, p). if changed p \<or> moved c k
              then (case id_answer F st c k of Returned a \<Rightarrow> [(k, a)] | _ \<Rightarrow> []) else []) (watched r))
          in if expiration r \<le> now \<and> vs \<noteq> [] then [(n, vs)] else []) (registrations (registry c))) \<and>
    (\<forall>n r. dget (registrations (registry c)) n = Some r \<longrightarrow> dget (registrations (registry t)) n = Some
       (if expiration r \<le> now
        then r\<lparr>watched := map (\<lambda>(k, p). (k, new_monitor)) (watched r), expiration := later + reportInterval r\<rparr>
        else r\<lparr>watched := map (\<lambda>(k, p). (k, if moved c k then recordChanged p else p)) (watched r)\<rparr>)) \<and>
    propMonitors (registry t) = map (\<lambda>k. (k, new_track c k)) (dkeys (propMonitors (registry c)))"
proof -
  obtain t where t: "propertyChangeServiceFunction F st now later c = (Ok (), t)" "monitors_ok t" "\<not> property_lock t"
    "attrs t = attrs c" "heap t = heap c"
    "registrations (registry t) = map (\<lambda>(n, r). (n, served (moved c) now later r)) (registrations (registry c))"
    "propMonitors (registry t) = (if registrations (registry c) \<noteq> []
        then map (\<lambda>k. (k, new_track c k)) (dkeys (propMonitors (registry c))) else propMonitors (registry c))"
    "notices (registry t) = notices (registry c) @ notes_of F st c (moved c) now (registrations (registry c))"
    by (rule pass_run [OF assms(1,2)])
  have sent: "notices (registry t) = notices (registry c) @
      concat (map (\<lambda>(n, r). let vs = concat (map (\<lambda>(k, p). if changed p \<or> moved c k
              then (case id_answer F st c k of Returned a \<Rightarrow> [(k, a)] | _ \<Rightarrow> []) else []) (watched r))
          in if expiration r \<le> now \<and> vs \<noteq> [] then [(n, vs)] else []) (registrations (registry c)))"
    by (simp only: t(8) notes_of_def reported_def expired_def Let_def)
  show ?thesis
    by (intro exI [of _ t] conjI t(1-3) sent)
      (use assms(3) in \<open>simp_all add: t(6,7) expired_def served_def ask_spec_def dget_map_values\<close>)
qed

section \<open>Example\<close>

definition watched_registry :: monitors where
  "watched_registry = \<lparr>registrations = [(1, \<lparr>reportInterval = 1, expiration = 2,
       watched = [(''gain'', new_monitor), (''taps[]'', new_monitor)]\<rparr>)],
     propMonitors = [(''gain'', \<lparr>old_ref = Value (Single (VInt 1)), diff = False, tested = False\<rparr>),
       (''taps[]'', \<lparr>old_ref = Object 0, diff = False, tested = False\<rparr>)],
     notices = [], thread_running = True, thread_delay = 1\<rparr>"

definition watched_example :: watched_component where
  "watched_example = \<lparr>heap = \<lambda>a. PyList [VInt 1, VInt 2], fresh = 1,
     attrs = [(''gain'', Value (Single (VInt 3))), (''taps[]'', Object 0)], event_supplier = True, events_sent = [],
     changeListeners = [], genericListeners = [rec_listener 1], propertiesInitialized = False, property_lock = False,
     registry = watched_registry\<rparr>"

lemma watched_example_ok:
  "monitors_ok watched_example" "\<not> property_lock watched_example" "registrations (registry watched_example) \<noteq> []"
  by (simp_all add: monitors_ok_def watched_example_def watched_registry_def dict_ok_Cons flags_ok_def new_monitor_def)

lemma watched_example_facts:
  "registrations (registry watched_example) = [(1, \<lparr>reportInterval = 1, expiration = 2,
     watched = [(''gain'', new_monitor), (''taps[]'', new_monitor)]\<rparr>)]"
  "notices (registry watched_example) = []" "moved watched_example ''gain''" "\<not> moved watched_example ''taps[]''"
  "id_answer example_text example_storage watched_example ''gain'' = Returned (AnswerSingle (VInt 3))" "\<not> changed new_monitor"
  by (simp add: watched_example_def watched_registry_def, simp add: watched_example_def watched_registry_def, code_simp+)

theorem monitor_pass_reports_witness:
  "\<exists>t. propertyChangeServiceFunction example_text example_storage 2 3 watched_example = (Ok (), t) \<and>
     notices (registry t) = [(1, [(''gain'', AnswerSingle (VInt 3))])] \<and>
     (\<exists>r. dget (registrations (registry t)) 1 = Some r \<and> expiration r = 4)"
proof -
  obtain t where t: "propertyChangeServiceFunction example_text example_storage 2 3 watched_example = (Ok (), t)"
    "notices (registry t) = notices (registry watched_example) @
      concat (map (\<lambda>(n, r). let vs = concat (map (\<lambda>(k, p). if changed p \<or> moved watched_example k
              then (case id_answer example_text example_storage watched_example k of Returned a \<Rightarrow> [(k, a)] | _ \<Rightarrow> []) else []) (watched r))
          in if expiration r \<le> 2 \<and> vs \<noteq> [] then [(n, vs)] else []) (registrations (registry watched_example)))"
    "\<forall>n r. dget (registrations (registry watched_example)) n = Some r \<longrightarrow> dget (registrations (registry t)) n = Some
       (if expiration r \<le> 2
        then r\<lparr>watched := map (\<lambda>(k, p). (k, new_monitor)) (watched r), expiration := 3 + reportInterval r\<rparr>
        else r\<lparr>watched := map (\<lambda>(k, p). (k, if moved watched_example k then recordChanged p else p)) (watched r)\<rparr>)"
    using monitor_pass_reports [OF watched_example_ok, of example_text example_storage 2 3] by blast
  show ?thesis using t by (simp add: watched_example_facts)
qed

end
