(* ===== verification/PropertyRuns.thy ===== *)
theory PropertyRuns
  imports PropertyReports
begin

text \<open>
  Property change listeners over time: what requests do to the registrations; runs in which the component
  sets its properties, requests of all kinds are made and the monitor thread makes passes; and the lock of
  the property interface after a registration that raised an exception.
\<close>

section \<open>What requests do to the registrations\<close>

text \<open>Operations that touch what listeners keep only by telling them of changes.\<close>

lemma registry_kept [keeps_rules]:
  "keeps (\<lambda>c. Q (registry c)) (property_set (checking_code V j) p r)"
  "keeps (\<lambda>c. Q (registry c)) (property_get (checking_code V j) p)"
  "keeps (\<lambda>c. Q (registry c)) (new_object v)"
  "keeps (\<lambda>c. Q (registry c)) (act_update (store_object r v))"
  "keeps (\<lambda>c. Q (registry c)) (send_change_event i)"
  "keeps (\<lambda>c. Q (registry c)) acquire_lock" "keeps (\<lambda>c. Q (registry c)) release_lock"
proof -
  show "keeps (\<lambda>c. Q (registry c)) (property_set (checking_code V j) p r)"
    by (simp add: property_set_def) (rule keeps_update, simp)
  show "keeps (\<lambda>c. Q (registry c)) (property_get (checking_code V j) p)"
    by (simp add: keeps_def property_get_run)
  show "keeps (\<lambda>c. Q (registry c)) (new_object v)"
    unfolding new_object_def by (intro keeps_rules keeps_update) simp
  show "keeps (\<lambda>c. Q (registry c)) (act_update (store_object r v))"
    by (rule keeps_update) (simp add: store_object_def split: pyref.split)
  show "keeps (\<lambda>c. Q (registry c)) (send_change_event i)"
    unfolding send_change_event_def by (rule keeps_update) simp
  show "keeps (\<lambda>c. Q (registry c)) acquire_lock"
    unfolding acquire_lock_def by (intro keeps_rules keeps_update) simp
  show "keeps (\<lambda>c. Q (registry c)) release_lock"
    unfolding release_lock_def by (rule keeps_update) simp
qed

lemma registry_kept_complex [keeps_rules]: "keeps (\<lambda>c. Q (registry c)) (complex_ref r)"
  unfolding complex_ref_def
  by (intro keeps_bind keeps_rules) (auto split: pobj.split option.split intro!: keeps_rules simp: split_beta Let_def)

lemma registry_kept_assign [keeps_rules]: "keeps (\<lambda>c. Q (registry c)) (assign_value (checking_code V j) p quiet r)"
  unfolding assign_value_def approved_def by (auto intro!: keeps_rules)

lemma registry_kept_pairs [keeps_rules]: "keeps (\<lambda>c. Q (registry c)) (assign_pairs (checking_code V j) p w)"
  unfolding assign_pairs_def
  by (intro keeps_bind keeps_rules) (auto split: pobj.split intro!: keeps_rules simp: split_beta Let_def)

lemma registry_kept_configure [keeps_rules]:
  "keeps (\<lambda>c. Q (registry c)) (property_configure F (checking_code V j) p w op quiet)"
  unfolding property_configure_def by (auto split: property_class.split intro!: keeps_rules)

lemma keeps_split:
  "(\<And>j op. splitId i = Returned (j, op) \<Longrightarrow> keeps P (f (j, op))) \<Longrightarrow> keeps P (act_bind (lift_outcome (splitId i)) f)"
  by (cases "splitId i") (auto simp: keeps_def act_bind_def)

lemma split_id_fixed: "splitId i = Returned (j, op) \<Longrightarrow> bare_id j = Returned j"
proof -
  assume s: "splitId i = Returned (j, op)"
  then have "i \<noteq> []" by (auto simp: splitId_def)
  then show ?thesis
  proof (cases rule: splitId_cases)
    case 1 then show ?thesis using s by (simp add: bare_id_def)
  next
    case (2 base body)
    then show ?thesis using s splitId_operator [of "[]" base] by (simp add: bare_id_def)
  qed
qed

lemma registry_kept_storage:
  assumes "\<And>l j x y g. bare_id j = Returned j \<Longrightarrow> Q g \<Longrightarrow> Q (hear l j x y g)"
  shows "keeps (\<lambda>c. Q (registry c)) (storage_configure F (checking_code V) hear st i w quiet)"
proof -
  have call: "keeps (\<lambda>c. Q (registry c)) (call_listener hear j old new l)" if "bare_id j = Returned j" for j old new l
    unfolding call_listener_def by (rule keeps_update) (simp add: assms that)
  have each: "keeps (\<lambda>c. Q (registry c)) (act_each (call_listener hear j old new) ls)" if "bare_id j = Returned j" for j old new ls
    by (rule keeps_each) (rule call [OF that])
  show ?thesis unfolding storage_configure_def
    by (rule keeps_split)
      (auto simp: tell_by_id_def tell_generic_def complex_or_None_def split_id_fixed split: option.split
        intro!: keeps_rules call each)
qed

subsection \<open>Requests end\<close>

text \<open>With user code that only checks values, no request waits for ever once it has the lock.\<close>

definition ends :: "('s, 'a) action \<Rightarrow> bool" where
  "ends m \<longleftrightarrow> (\<forall>s. fst (m s) \<noteq> Hangs)"

named_theorems ends_rules \<open>composed actions that end\<close>

lemma ends_basic [ends_rules, simp]:
  "ends (act_return x)" "ends (act_raise e)" "ends (act_get f)" "ends (act_update g)"
  by (simp_all add: ends_def)

lemma ends_bind [ends_rules]: "ends m \<Longrightarrow> (\<And>x. ends (f x)) \<Longrightarrow> ends (act_bind m f)"
  by (auto simp: ends_def act_bind_def split: prod.split result.split) (metis fst_conv)

lemma ends_then [ends_rules]: "ends m \<Longrightarrow> ends n \<Longrightarrow> ends (act_then m n)"
  by (simp add: act_then_def ends_bind)

lemma ends_catch [ends_rules]: "ends m \<Longrightarrow> (\<And>e. ends (h e)) \<Longrightarrow> ends (act_catch m h)"
  by (auto simp: ends_def act_catch_def split: prod.split result.split) (metis fst_conv)

lemma ends_if [ends_rules]: "(b \<Longrightarrow> ends m) \<Longrightarrow> (\<not> b \<Longrightarrow> ends n) \<Longrightarrow> ends (if b then m else n)"
  by simp

lemma ends_when [ends_rules]: "ends m \<Longrightarrow> ends (act_when b m)"
  by (simp add: act_when_def)

lemma ends_each [ends_rules]: "(\<And>x. ends (f x)) \<Longrightarrow> ends (act_each f xs)"
  by (induction xs) (auto intro: ends_rules)

lemma ends_reject [ends_rules]: "(\<And>q. ends (f q)) \<Longrightarrow> ends (act_reject f qs)"
  by (induction qs) (auto intro!: ends_rules)

lemma ends_lift [ends_rules]: "m \<noteq> Blocked \<Longrightarrow> ends (lift_outcome m)"
  by (cases m) simp_all

lemma ends_property [ends_rules]:
  "ends (property_set (checking_code V j) p r)" "ends (property_get (checking_code V j) p)" "ends (new_object v)"
  "ends (send_change_event i)"
  by (auto simp: property_set_def property_get_def read_attribute_def new_object_def send_change_event_def
      split: option.split intro!: ends_rules)

lemma pair_outcomes_end: "fst (set_entries ps d) \<noteq> Blocked" "fst (set_items ps vs) \<noteq> Blocked"
proof -
  show "fst (set_entries ps d) \<noteq> Blocked" by (induction ps d rule: set_entries.induct) auto
  show "fst (set_items ps vs) \<noteq> Blocked"
    by (induction ps vs rule: set_items.induct) (auto simp: parse_int_def split: option.split)
qed

lemma pair_assignment_ends: "fst (setKeyValuePairsOperator old ps) \<noteq> Blocked" "pairs_in w \<noteq> Blocked"
proof -
  show "fst (setKeyValuePairsOperator old ps) \<noteq> Blocked"
    using pair_outcomes_end by (cases old) (auto simp: setKeyValuePairsOperator_def split_beta Let_def)
  show "pairs_in w \<noteq> Blocked" by (auto simp: pairs_in_def split: wire_value.split list.split pvalue.split)
qed

lemma convert_items_end: "fst (convert_items vs) \<noteq> Blocked"
  by (induction vs) (auto simp: split_beta Let_def split: outcome.split)

lemma ends_complex [ends_rules]: "ends (complex_ref r)"
  unfolding complex_ref_def
  by (intro ends_rules) (auto simp: split_beta Let_def convert_items_end split: pobj.split option.split intro!: ends_rules)

lemma ends_assign [ends_rules]: "ends (assign_value (checking_code V j) p quiet r)"
  unfolding assign_value_def approved_def by (auto intro!: ends_rules)

lemma ends_pairs [ends_rules]: "ends (assign_pairs (checking_code V j) p w)"
  unfolding assign_pairs_def
  by (intro ends_rules) (auto simp: split_beta Let_def pair_assignment_ends split: pobj.split intro!: ends_rules)

lemma ends_configure [ends_rules]: "ends (property_configure F (checking_code V j) p w op quiet)"
  unfolding property_configure_def by (auto split: property_class.split intro!: ends_rules)

lemma lookups_end: "lookup_id st j \<noteq> Blocked" "has_id st i \<noteq> Blocked" "storage_isConfigurable st i \<noteq> Blocked"
  "storage_isProperty st i \<noteq> Blocked" "queryable_id st i \<noteq> Blocked"
  by (auto simp: lookup_id_def has_id_def bare_id_def splitId_ends storage_isConfigurable_def storage_isProperty_def
      storage_isQueryable_def queryable_id_def getPropDef_def obind_Blocked_iff split: option.split)

lemma ends_split: "(\<And>j op. ends (f (j, op))) \<Longrightarrow> ends (act_bind (lift_outcome (splitId i)) f)"
  by (rule ends_bind) (auto simp: splitId_ends intro: ends_lift)

lemma ends_storage [ends_rules]:
  "ends (storage_configure F (checking_code V) hear st i w quiet)" "ends (storage_construct F (checking_code V) st i w)"
  "ends (storage_query F (checking_code V) st i)"
proof -
  show "ends (storage_configure F (checking_code V) hear st i w quiet)" unfolding storage_configure_def
    by (rule ends_split) (auto simp: tell_by_id_def tell_generic_def complex_or_None_def call_listener_def lookups_end
        split: option.split intro!: ends_rules)
  show "ends (storage_construct F (checking_code V) st i w)" unfolding storage_construct_def
    by (rule ends_split) (auto simp: lookups_end intro!: ends_rules)
  show "ends (storage_query F (checking_code V) st i)"
    unfolding ends_def using id_answer_ends plain_codes(4)
    by (subst storage_query_run) (auto split: outcome.split simp: lift_outcome_def)
qed

lemma ends_requests [ends_rules]:
  "ends (configure_properties F (checking_code V) hear st reqs)" "ends (act_reject (try_construct F (checking_code V) st) reqs)"
  by (auto simp: configure_properties_def try_configure_def try_construct_def guarded_def lookups_end intro!: ends_rules)

text \<open>A locked request releases the lock, and its registrations are those its body leaves.\<close>

lemma locked_effect:
  assumes "\<not> property_lock c" "ends m" "keeps (\<lambda>c. Q (registry c)) m" "Q (registry c)"
  shows "Q (registry (snd (locked m c))) \<and> \<not> property_lock (snd (locked m c))"
proof -
  obtain r t where m: "m (c\<lparr>property_lock := True\<rparr>) = (r, t)" by (cases "m (c\<lparr>property_lock := True\<rparr>)")
  have "r \<noteq> Hangs" using assms(2) m by (metis ends_def fst_conv)
  moreover have "Q (registry t)" by (rule keepsD [OF assms(3) _ m]) (simp add: assms(4))
  ultimately show ?thesis
    by (cases r) (simp_all add: locked_def release_lock_def acquire_run(1) [OF assms(1)] act_then_def act_bind_def act_catch_def m)
qed

lemma registry_kept_construct: "keeps (\<lambda>c. Q (registry c)) (act_reject (try_construct F (checking_code V) st) reqs)"
proof -
  have "keeps (\<lambda>c. Q (registry c)) (storage_construct F (checking_code V) st i w)" for i w
    unfolding storage_construct_def by (auto intro!: keeps_rules)
  then show ?thesis by (intro keeps_reject) (auto simp: try_construct_def guarded_def intro!: keeps_rules)
qed

lemma registry_kept_query: "keeps P (query_or e F (checking_code V) st i)"
  by (simp add: keeps_def query_or_run plain_codes(4))

lemma query_lists: "keeps P (query_all F (checking_code V) st is)" "keeps P (query_listed F (checking_code V) st is)"
  "ends (query_all F (checking_code V) st is)" "ends (query_listed F (checking_code V) st is)"
proof -
  show "keeps P (query_all F (checking_code V) st is)"
    by (induction "is") (auto intro!: keeps_rules registry_kept_query simp del: act_run)
  show "keeps P (query_listed F (checking_code V) st is)"
    by (induction "is") (auto intro!: keeps_rules registry_kept_query split: prod.split simp del: act_run)
  have q: "ends (query_or e F (checking_code V) st i)" for e i
    by (simp add: ends_def query_or_run plain_codes(4))
  show "ends (query_all F (checking_code V) st is)"
    by (induction "is") (auto intro!: ends_rules q simp: lookups_end simp del: act_run)
  show "ends (query_listed F (checking_code V) st is)"
    by (induction "is") (auto intro!: ends_rules q simp: lookups_end split: prod.split simp del: act_run)
qed

section \<open>Runs\<close>

lemma queryable_id_nonempty: "i \<noteq> [] \<Longrightarrow> \<exists>b. queryable_id st i = Returned b"
proof -
  assume "i \<noteq> []"
  then obtain j op where s: "splitId i = Returned (j, op)" by (cases rule: splitId_cases) auto
  show ?thesis
    by (cases "dget (properties st) j")
      (auto simp: queryable_id_def has_id_def bare_id_def s storage_isQueryable_def getPropDef_def lookup_id_def intro: exI [of _ False])
qed

text \<open>
  What can happen to a component: its code assigns a property without going through \<open>configure\<close>, or changes a
  list in place; the thread makes a pass; requests to configure, initialise and query properties, to
  register another listener and to unregister one. \<open>V\<close> is the check that the component makes of new values.
\<close>

datatype watched_step =
    CodeSets string pyref | CodeChanges nat pobj
  | Pass rat rat
  | AskConfigure "property_request list" | AskInitialise "property_request list" | AskQuery "string list"
  | AskRegister bool nat rat rat "string list" | AskUnregister nat

definition watched_run_step ::
    "sequence_text \<Rightarrow> (string \<Rightarrow> pobj \<Rightarrow> bool) \<Rightarrow> storage \<Rightarrow> watched_step \<Rightarrow> watched_component \<Rightarrow> watched_component" where
  "watched_run_step F V st s c = (case s of
      CodeSets i r \<Rightarrow> c\<lparr>attrs := dput i r (attrs c)\<rparr>
    | CodeChanges a v \<Rightarrow> c\<lparr>heap := (heap c)(a := v)\<rparr>
    | Pass now later \<Rightarrow> snd (propertyChangeServiceFunction F st now later c)
    | AskConfigure reqs \<Rightarrow> snd (Resource_configure F (checking_code V) rec_callback st reqs c)
    | AskInitialise reqs \<Rightarrow> snd (Resource_initializeProperties F (checking_code V) st reqs c)
    | AskQuery is \<Rightarrow> snd (Resource_query F (checking_code V) st is c)
    | AskRegister registrant_ok m now interval ids \<Rightarrow> snd (registerPropertyListener st registrant_ok m now interval ids c)
    | AskUnregister m \<Rightarrow> snd (unregisterPropertyListener m c))"

definition watched_run ::
    "sequence_text \<Rightarrow> (string \<Rightarrow> pobj \<Rightarrow> bool) \<Rightarrow> storage \<Rightarrow> watched_step list \<Rightarrow> watched_component \<Rightarrow> watched_component" where
  "watched_run F V st ss c = fold (watched_run_step F V st) ss c"

text \<open>
  The steps before the interval of registration \<open>n\<close> expires at \<open>e\<close>: the registration is not removed, its ID is
  not given to another, and no registration names the empty ID, which would leave the lock held.
\<close>

definition before :: "nat \<Rightarrow> rat \<Rightarrow> watched_step \<Rightarrow> bool" where
  "before n e s \<longleftrightarrow> (case s of
      Pass now later \<Rightarrow> now < e
    | AskRegister registrant_ok m now interval ids \<Rightarrow> m \<noteq> n \<and> [] \<notin> set ids
    | AskUnregister m \<Rightarrow> m \<noteq> n
    | _ \<Rightarrow> True)"

text \<open>A change that is flagged and waits for the end of the interval.\<close>

definition flagged :: "nat \<Rightarrow> string \<Rightarrow> rat \<Rightarrow> monitors \<Rightarrow> bool" where
  "flagged n k e g \<longleftrightarrow> dict_ok (registrations g) \<and> dict_ok (propMonitors g) \<and>
     (\<forall>(k, t) \<in> set (propMonitors g). \<not> tested t \<and> \<not> diff t) \<and> (\<forall>(n, r) \<in> set (registrations g). flags_ok r) \<and>
     (\<exists>r p. dget (registrations g) n = Some r \<and> expiration r = e \<and> (k, p) \<in> set (watched r) \<and> changed p)"

definition pending_change :: "nat \<Rightarrow> string \<Rightarrow> rat \<Rightarrow> watched_component \<Rightarrow> bool" where
  "pending_change n k e c \<longleftrightarrow> flagged n k e (registry c) \<and> \<not> property_lock c"

lemma pending_change_iff:
  "pending_change n k e c \<longleftrightarrow> monitors_ok c \<and> \<not> property_lock c \<and>
     (\<exists>r p. dget (registrations (registry c)) n = Some r \<and> expiration r = e \<and> (k, p) \<in> set (watched r) \<and> changed p)"
  by (auto simp: pending_change_def flagged_def monitors_ok_def)

lemma pass_step:
  assumes "monitors_ok c" "\<not> property_lock c" "dget (registrations (registry c)) n = Some r" "now < expiration r"
    and "(k, p) \<in> set (watched r)" "changed p \<or> moved c k"
  shows "pending_change n k (expiration r) (watched_run_step F V st (Pass now later) c)"
proof -
  obtain t where t: "propertyChangeServiceFunction F st now later c = (Ok (), t)" "monitors_ok t" "\<not> property_lock t"
    "registrations (registry t) = map (\<lambda>(n, r). (n, served (moved c) now later r)) (registrations (registry c))"
    by (rule pass_run [OF assms(1,2), of F st now later]) (rule that; assumption)
  let ?p = "if moved c k then recordChanged p else p"
  let ?r = "r\<lparr>watched := ask_spec (moved c) (watched r)\<rparr>"
  have "flags_ok r" using assms(1) dget_Some_mem [OF assms(3)] by (auto simp: monitors_ok_def)
  then have "recorded p = changed p" using assms(5) by (auto simp: flags_ok_def)
  then have "changed ?p" using assms(6) by (simp only: recordChanged_changed)
  moreover have "dget (registrations (registry t)) n = Some ?r"
    using assms(3,4) by (simp add: t(4) dget_map_values served_def expired_def)
  moreover have "(k, ?p) \<in> set (watched ?r)" using assms(5) by (force simp: ask_spec_def)
  ultimately show ?thesis using t(1-3) by (auto simp: pending_change_iff watched_run_step_def)
qed

text \<open>A listener that hears of a configured property only raises flags.\<close>

lemma map_entry_facts:
  "dkeys (map_entry k f d) = dkeys d" "dget (map_entry k f d) j = map_option (\<lambda>v. if j = k then f v else v) (dget d j)"
  "(j, v) \<in> set d \<Longrightarrow> (j, if j = k then f v else v) \<in> set (map_entry k f d)"
proof -
  show "dkeys (map_entry k f d) = dkeys d" by (auto simp: map_entry_def dkeys_def)
  show "dget (map_entry k f d) j = map_option (\<lambda>v. if j = k then f v else v) (dget d j)"
    unfolding map_entry_def by (induction d) (auto simp: dget_def)
  show "(j, v) \<in> set d \<Longrightarrow> (j, if j = k then f v else v) \<in> set (map_entry k f d)"
    by (force simp: map_entry_def)
qed

lemma record_flags: "flags_ok r \<Longrightarrow> flags_ok (r\<lparr>watched := map_entry i recordChanged (watched r)\<rparr>)"
  by (fastforce simp: flags_ok_def map_entry_def recordChanged_def split: if_splits)

lemma callback_keeps_flag:
  assumes "flagged n k e g"
  shows "flagged n k e (rec_callback l i old new g)"
proof -
  let ?f = "\<lambda>r. r\<lparr>watched := map_entry i recordChanged (watched r)\<rparr>"
  obtain r p where r: "dget (registrations g) n = Some r" "expiration r = e" "(k, p) \<in> set (watched r)" "changed p"
    using assms by (auto simp: flagged_def)
  let ?r = "if n = callback_id l then ?f r else r"
  have "\<exists>q. (k, q) \<in> set (watched ?r) \<and> changed q"
    using r(3,4) map_entry_facts(3) [OF r(3), of i recordChanged]
    by (cases "n = callback_id l"; cases "k = i") (auto simp: recordChanged_def split: if_splits)
  moreover have "dget (registrations (rec_callback l i old new g)) n = Some ?r"
    using r(1) by (simp add: rec_callback_def map_entry_facts(2))
  moreover have "expiration ?r = e" using r(2) by simp
  moreover have "\<forall>(m, s) \<in> set (registrations (rec_callback l i old new g)). flags_ok s"
    using assms record_flags by (auto simp: flagged_def rec_callback_def map_entry_def)
  ultimately show ?thesis using assms
    by (auto simp: flagged_def rec_callback_def dict_ok_def map_entry_facts(1))
qed

lemma dict_parts: "e \<in> set (dput k v d) \<Longrightarrow> e = (k, v) \<or> e \<in> set d" "e \<in> set (dpop k d) \<Longrightarrow> e \<in> set d"
  by (induction d) (auto split: if_splits)

lemma watch_all_flags: "flags_ok \<lparr>reportInterval = iv, expiration = x, watched = watch_all ids\<rparr>"
  unfolding flags_ok_def
  by (induction ids) (auto simp: new_monitor_def dest!: dict_parts(1))

lemma other_registrations:
  assumes "flagged n k e g" "m \<noteq> n"
  shows "flagged n k e (g\<lparr>registrations := dput m \<lparr>reportInterval = iv, expiration = x, watched = watch_all ids\<rparr> (registrations g),
      thread_running := b\<rparr>)"
    and "flagged n k e (g\<lparr>registrations := dpop m (registrations g)\<rparr>)"
  using assms watch_all_flags [of iv x ids] by (auto simp: flagged_def dest!: dict_parts)

lemma thread_flag [simp]: "flagged n k e (g\<lparr>thread_running := b\<rparr>) = flagged n k e g"
  by (simp add: flagged_def)

lemma by_hand_effect:
  assumes "\<not> property_lock c" "\<exists>x t. m (c\<lparr>property_lock := True\<rparr>) = (Ok x, t) \<and> Q (registry t)"
  shows "Q (registry (snd (locked_by_hand m c))) \<and> \<not> property_lock (snd (locked_by_hand m c))"
proof -
  obtain x t where t: "m (c\<lparr>property_lock := True\<rparr>) = (Ok x, t)" "Q (registry t)" using assms(2) by blast
  show ?thesis using locked_by_hand_run(1) [of c m, OF assms(1) t(1)] t(2) by simp
qed

lemma registering_keeps:
  assumes "pending_change n k e c" "m \<noteq> n" "[] \<notin> set ids"
  shows "pending_change n k e (snd (registerPropertyListener st registrant_ok m now interval ids c))"
proof -
  have f: "flagged n k e (registry c)" "\<not> property_lock c" using assms(1) by (simp_all add: pending_change_def)
  have "\<exists>bs. collect_outcomes (queryable_id st) ids = Returned bs"
    using assms(3)
  proof (induction ids)
    case (Cons i ids)
    then obtain b where "queryable_id st i = Returned b" using queryable_id_nonempty [of i st] by auto
    then show ?case using Cons by auto
  qed simp
  then obtain bs where bs: "collect_outcomes (queryable_id st) ids = Returned bs" by blast
  note new = other_registrations(1) [where iv = interval and x = "now + interval" and ids = "listed_ids st ids" and b = True, OF f(1) assms(2)]
  show ?thesis
    unfolding registerPropertyListener_def pending_change_def
    by (rule by_hand_effect [OF f(2)]) (use f(1) new in \<open>simp add: bs Let_def addChangeListener_def\<close>)
qed

lemma unregistering_keeps:
  assumes "pending_change n k e c" "m \<noteq> n"
  shows "pending_change n k e (snd (unregisterPropertyListener m c))"
proof -
  have f: "flagged n k e (registry c)" "\<not> property_lock c" using assms(1) by (simp_all add: pending_change_def)
  note rest = other_registrations(2) [OF f(1) assms(2)]
  show ?thesis
    unfolding unregisterPropertyListener_def pending_change_def
    by (rule by_hand_effect [OF f(2)])
      (use f(1) rest in \<open>cases "dpop m (registrations (registry c)) = []"; simp add: removeChangeListener_def\<close>)
qed

lemma requests_keep_flag:
  assumes "pending_change n k e c"
  shows "pending_change n k e (snd (Resource_configure F (checking_code V) rec_callback st reqs c))"
    and "pending_change n k e (snd (Resource_initializeProperties F (checking_code V) st reqs c))"
    and "pending_change n k e (snd (Resource_query F (checking_code V) st is c))"
proof -
  note f = assms [unfolded pending_change_def, THEN conjunct1] assms [unfolded pending_change_def, THEN conjunct2]
  note lock = locked_effect [where Q = "flagged n k e", OF f(2) _ _ f(1)]
  have "keeps (\<lambda>c. flagged n k e (registry c)) (configure_properties F (checking_code V) rec_callback st reqs)"
    unfolding configure_properties_def try_configure_def guarded_def
    by (intro keeps_bind keeps_reject keeps_return)
      (auto intro!: keeps_rules registry_kept_storage callback_keeps_flag)
  then show "pending_change n k e (snd (Resource_configure F (checking_code V) rec_callback st reqs c))"
    unfolding pending_change_def Resource_configure_def by (rule lock [OF ends_requests(1)])
  show "pending_change n k e (snd (Resource_initializeProperties F (checking_code V) st reqs c))"
    unfolding pending_change_def Resource_initializeProperties_def
    by (rule lock) (intro ends_rules, (intro keeps_bind keeps_if keeps_then keeps_return keeps_update registry_kept_construct; simp))
  show "pending_change n k e (snd (Resource_query F (checking_code V) st is c))"
    unfolding pending_change_def Resource_query_def
    by (rule lock) (auto intro!: ends_rules keeps_rules query_lists split: prod.split simp del: act_run)
qed

lemma pending_step: "pending_change n k e c \<Longrightarrow> before n e s \<Longrightarrow> pending_change n k e (watched_run_step F V st s c)"
proof (cases s)
  case (Pass now later)
  assume "pending_change n k e c" "before n e s"
  then show ?thesis using pass_step [of c n _ now k _ F V st later] by (auto simp: Pass pending_change_iff before_def)
qed (simp_all add: watched_run_step_def before_def requests_keep_flag registering_keeps unregistering_keeps,
    simp_all add: pending_change_def)

lemma pending_run: "pending_change n k e c \<Longrightarrow> \<forall>s \<in> set ss. before n e s \<Longrightarrow> pending_change n k e (watched_run F V st ss c)"
  by (induction ss arbitrary: c) (simp_all add: watched_run_def pending_step)

lemma expired_pass:
  assumes "pending_change n k e c" "e \<le> now" "id_answer F st c k = Returned a"
  shows "\<exists>new vs. notices (registry (watched_run_step F V st (Pass now later) c)) = notices (registry c) @ new \<and>
    (n, vs) \<in> set new \<and> (k, a) \<in> set vs"
proof -
  obtain r p where r: "monitors_ok c" "\<not> property_lock c" "dget (registrations (registry c)) n = Some r"
    "expiration r = e" "(k, p) \<in> set (watched r)" "changed p"
    using assms(1) by (auto simp: pending_change_iff)
  obtain t where t: "propertyChangeServiceFunction F st now later c = (Ok (), t)"
    "notices (registry t) = notices (registry c) @ notes_of F st c (moved c) now (registrations (registry c))"
    by (rule pass_run [OF r(1,2), of F st now later]) (rule that; assumption)
  have "(k, a) \<in> set ((\<lambda>(k, p). if changed p \<or> moved c k
     then (case id_answer F st c k of Returned a \<Rightarrow> [(k, a)] | _ \<Rightarrow> []) else []) (k, p))"
    using r(6) by (simp add: assms(3))
  then have "(k, a) \<in> set (reported F st c (moved c) r)"
    unfolding reported_def set_concat set_map using r(5) by blast
  moreover from this have "(n, reported F st c (moved c) r) \<in> set (notes_of F st c (moved c) now (registrations (registry c)))"
    using dget_Some_mem [OF r(3)] r(4) assms(2) by (fastforce simp: notes_of_def expired_def)
  ultimately show ?thesis using t by (auto simp: watched_run_step_def)
qed

text \<open>
  C18: A change of a watched property that a pass of the monitor thread sees is not lost. In between, as long as
  the registration is there, its interval has not expired at any pass, and no listener is registered for the
  empty ID, anything may happen: the component's code assigns properties (back to the old value too) or
  changes lists in place, further passes are made, properties are configured (by any requests), initialised
  and queried, other listeners are registered and unregistered; the component's own code for its properties
  only checks values. The first pass after the interval has expired then sends to the registration a notice
  with what a query for the property answers at that moment, if it answers at all.
\<close>

theorem change_reaches_listener:
  assumes "monitors_ok c" "\<not> property_lock c" "dget (registrations (registry c)) n = Some r"
    and "k \<in> set (dkeys (watched r))" "moved c k" "now0 < expiration r" "\<forall>s \<in> set ss. before n (expiration r) s"
    and "expiration r \<le> now"
    and "id_answer F st (watched_run F V st (Pass now0 later0 # ss) c) k = Returned a"
  shows "\<exists>new vs. notices (registry (watched_run F V st (Pass now0 later0 # ss @ [Pass now later]) c)) =
      notices (registry (watched_run F V st (Pass now0 later0 # ss) c)) @ new \<and>
    (n, vs) \<in> set new \<and> (k, a) \<in> set vs"
proof -
  obtain p where p: "(k, p) \<in> set (watched r)" using assms(4) by (auto simp: dkeys_def)
  have "pending_change n k (expiration r) (watched_run_step F V st (Pass now0 later0) c)"
    by (rule pass_step [OF assms(1-3,6) p]) (simp add: assms(5))
  from pending_run [OF this assms(7)]
  have "pending_change n k (expiration r) (watched_run F V st (Pass now0 later0 # ss) c)" by (simp add: watched_run_def)
  from expired_pass [OF this assms(8,9)] show ?thesis by (simp add: watched_run_def)
qed

definition back_again :: "watched_step list" where
  "back_again = [CodeSets ''gain'' (Value (Single (VInt 1))), Pass (3 / 2) (3 / 2), AskRegister True 2 (3 / 2) 5 [''taps[]''],
     AskConfigure [(''taps[1]'', WireSingle (VInt 4)), (''taps[]'', WireList [VInt 9])], AskQuery [''gain''], AskUnregister 2]"

theorem change_reaches_listener_witness:
  "\<exists>new vs. notices (registry (watched_run example_text anything_goes example_storage (Pass 1 1 # back_again @ [Pass 2 3]) watched_example)) =
      notices (registry (watched_run example_text anything_goes example_storage (Pass 1 1 # back_again) watched_example)) @ new \<and>
    (1, vs) \<in> set new \<and> (''gain'', AnswerSingle (VInt 1)) \<in> set vs"
proof -
  let ?r = "\<lparr>reportInterval = 1, expiration = 2, watched = [(''gain'', new_monitor), (''taps[]'', new_monitor)]\<rparr>"
  have a: "id_answer example_text example_storage
      (watched_run example_text anything_goes example_storage (Pass 1 1 # back_again) watched_example) ''gain''
      = Returned (AnswerSingle (VInt 1))" by code_simp
  show ?thesis
    by (rule change_reaches_listener [OF watched_example_ok(1,2), of 1 ?r "''gain''" 1 back_again 2, OF _ _ watched_example_facts(3) _ _ _ a])
      (simp_all add: watched_example_facts dkeys_def back_again_def before_def)
qed

section \<open>A registration that leaves the lock held\<close>

lemma queryable_ids_empty: "[] \<in> set ids \<Longrightarrow> collect_outcomes (queryable_id st) ids = Raised IndexError"
proof (induction ids)
  case (Cons i ids)
  show ?case
  proof (cases "i = []")
    case True
    then show ?thesis by (simp add: queryable_id_def has_id_def bare_id_def splitId_def)
  next
    case False
    then obtain b where "queryable_id st i = Returned b" using queryable_id_nonempty by blast
    then show ?thesis using Cons False by simp
  qed
qed simp

text \<open>
  C37: Registering a property listener with a list of IDs that contains the empty one raises
  \<open>IndexError\<close> and leaves the lock of the property interface held: from then on configuring, initialising
  and querying properties, registering and unregistering listeners, and the passes of the monitor
  thread wait for ever.
\<close>

theorem empty_id_locks_properties:
  assumes "\<not> property_lock c" "[] \<in> set ids"
  shows "\<exists>t. registerPropertyListener st registrant_ok n now interval ids c = (Exn IndexError, t) \<and>
    Resource_configure F us rec_callback st reqs t = (Hangs, t) \<and>
    Resource_initializeProperties F us st reqs t = (Hangs, t) \<and>
    Resource_query F us st asked t = (Hangs, t) \<and>
    registerPropertyListener st ok' n' now' interval' ids' t = (Hangs, t) \<and>
    unregisterPropertyListener n' t = (Hangs, t) \<and>
    propertyChangeServiceFunction F st now' later t = (Hangs, t)"
proof -
  let ?t = "c\<lparr>property_lock := True\<rparr>"
  have "registerPropertyListener st registrant_ok n now interval ids c = (Exn IndexError, ?t)"
    unfolding registerPropertyListener_def
    by (rule locked_by_hand_run(2) [OF assms(1)]) (simp add: queryable_ids_empty [OF assms(2)])
  then show ?thesis
    by (intro exI [of _ ?t])
      (simp add: Resource_configure_def Resource_initializeProperties_def Resource_query_def registerPropertyListener_def
        unregisterPropertyListener_def propertyChangeServiceFunction_def property_locked_run(2) locked_by_hand_run(3))
qed

theorem empty_id_locks_properties_witness:
  "\<exists>t. registerPropertyListener example_storage True 7 0 1 [''gain'', ''''] watched_example = (Exn IndexError, t) \<and>
    Resource_query example_text (\<lambda>i. no_user_code) example_storage [''gain''] t = (Hangs, t)"
proof -
  have "[] \<in> set [''gain'', '''']" by simp
  from empty_id_locks_properties [OF watched_example_ok(2) this, where st = example_storage and registrant_ok = True and n = 7
      and now = 0 and interval = 1 and F = example_text and us = "\<lambda>i. no_user_code" and reqs = "[]" and asked = "[''gain'']"
      and ok' = True and n' = 1 and now' = 0 and interval' = 1 and ids' = "[]" and later = 0]
  show ?thesis by blast
qed

end
