(* ===== verification/PropertyFits.thy ===== *)
theory PropertyFits
  imports PropertyRuns
begin

text \<open>
  The types of the values that properties hold: what \<open>to_pyvalue\<close> returns is of the Python type of the
  property, and requests to configure and initialise properties that convert their values (all but those for
  complex properties and those by \<open>[@]\<close>) leave each property with a value of its type and within its bounds.
\<close>

section \<open>Typed values\<close>

text \<open>
  The only exception to the type is a text for a boolean that is neither \<open>true\<close> nor \<open>false\<close>: the
  conversion returns it as it is.
\<close>

definition typed_value :: "string \<Rightarrow> pvalue \<Rightarrow> bool" where
  "typed_value t v \<longleftrightarrow> v = VNone \<or> (case getPyType t of Some p \<Rightarrow> is_instance v p | None \<Rightarrow> False)
     \<or> (t = ''boolean'' \<and> is_instance v TStr)"

lemma is_text: "is_instance v TStr \<longleftrightarrow> (\<exists>s. v = VStr s)"
  by (cases v) simp_all

lemma typed_value_iff:
  "typed_value t v \<longleftrightarrow> v = VNone \<or> (\<exists>p. getPyType t = Some p \<and> is_instance v p) \<or> (t = ''boolean'' \<and> (\<exists>s. v = VStr s))"
  by (simp add: typed_value_def is_text split: option.split)

lemma not_complex:
  "t \<in> {''boolean'', ''long'', ''octet'', ''short'', ''ushort''} \<Longrightarrow> \<not> starts_complex t"
  "t \<in> {''longlong'', ''ulong'', ''ulonglong''} \<Longrightarrow> \<not> starts_complex t"
  "t \<in> {''double'', ''float'', ''longdouble''} \<Longrightarrow> \<not> starts_complex t"
  "t \<in> {''char'', ''string'', ''wchar'', ''wstring''} \<Longrightarrow> \<not> starts_complex t"
  "t \<in> {''objref'', ''utctime''} \<Longrightarrow> \<not> starts_complex t"
  by (elim insertE; simp add: starts_complex_def)+

lemma complex_names:
  "t \<in> {''complexFloat'', ''complexBoolean'', ''complexULong'', ''complexShort'', ''complexOctet'',
     ''complexChar'', ''complexUShort'', ''complexDouble'', ''complexLong'', ''complexLongLong'', ''complexULongLong''}
   \<Longrightarrow> starts_complex t"
  by (elim insertE; simp add: starts_complex_def)

lemma complex_types:
  assumes "starts_complex t" "getPyType t = Some p"
  shows "p = TComplex"
proof -
  have "\<not> t \<in> A" if "t \<in> A \<Longrightarrow> \<not> starts_complex t" for A using that assms(1) by blast
  note n = this [OF not_complex(1)] this [OF not_complex(2)] this [OF not_complex(3)] this [OF not_complex(4)]
    this [OF not_complex(5)]
  show ?thesis using assms(2) unfolding getPyType_def
    by (simp only: n if_False option.inject option.distinct split: if_split_asm)
qed

lemma calls_typed:
  "call_int v = Returned x \<Longrightarrow> \<exists>n. x = VInt n"
  "call_float F v = Returned x \<Longrightarrow> \<exists>y. x = VFloat y"
  "call_str F v = Returned x \<Longrightarrow> \<exists>s. x = VStr s"
  by (auto simp: call_int_def call_float_def call_str_def split: pvalue.splits option.splits)

lemma make_complex_typed: "make_complex a b = Returned x \<Longrightarrow> \<exists>y z. x = VComplex y z"
  by (cases "number_of a"; cases "number_of b") (auto simp: make_complex_def)

lemma toPyComplex_typed: "toPyComplex v = Returned x \<Longrightarrow> \<exists>a b. x = VComplex a b"
  by (cases v) (auto simp: toPyComplex_def obind_Returned_iff dest: make_complex_typed)

lemma boolean_of_text_typed: "typed_value ''boolean'' (boolean_of_text s)"
  by (simp add: boolean_of_text_def typed_value_iff getPyType_def)

lemma complex_named: "getPyType t = Some TComplex \<Longrightarrow> starts_complex t"
  unfolding getPyType_def
  by (simp only: option.inject option.distinct pytype.distinct complex_names split: if_split_asm)

lemma to_pyvalue_other:
  assumes "v \<noteq> VNone" "getPyType t = Some p" "\<not> is_instance v p" "t \<noteq> ''boolean'' \<or> (\<forall>s. v \<noteq> VStr s)"
  shows "to_pyvalue F t v = (if starts_complex t then toPyComplex v
     else case p of TStr \<Rightarrow> call_str F v | TFloat \<Rightarrow> call_float F v | TObject \<Rightarrow> Raised TypeError
       | _ \<Rightarrow> (case v of VStr s \<Rightarrow> (case int_of_literal s of Some n \<Rightarrow> Returned (VInt n) | None \<Rightarrow> Raised ValueError)
          | _ \<Rightarrow> call_int v))"
proof (cases "t = ''boolean''")
  case True
  then have "to_pyvalue F t v = (case (True, v) of (True, VStr s) \<Rightarrow> Returned (boolean_of_text s)
     | _ \<Rightarrow> if starts_complex t then toPyComplex v
     else case p of TStr \<Rightarrow> call_str F v | TFloat \<Rightarrow> call_float F v | TObject \<Rightarrow> Raised TypeError
       | _ \<Rightarrow> (case v of VStr s \<Rightarrow> (case int_of_literal s of Some n \<Rightarrow> Returned (VInt n) | None \<Rightarrow> Raised ValueError)
          | _ \<Rightarrow> call_int v))"
    unfolding to_pyvalue_def assms(2) using assms(1,3) by simp
  then show ?thesis using assms(4) True by (cases v) simp_all
next
  case False
  then show ?thesis unfolding to_pyvalue_def assms(2) using assms(1,3) by simp
qed

lemma to_pyvalue_typed:
  assumes "to_pyvalue F t v = Returned x"
  shows "typed_value t x"
proof (cases "v = VNone")
  case True
  then show ?thesis using assms by (simp add: to_pyvalue_def typed_value_iff)
next
  case False
  then obtain p where p: "getPyType t = Some p" using assms by (cases "getPyType t") (simp_all add: to_pyvalue_def)
  consider "is_instance v p" | s where "\<not> is_instance v p" "t = ''boolean''" "v = VStr s"
    | "\<not> is_instance v p" "t \<noteq> ''boolean'' \<or> (\<forall>s. v \<noteq> VStr s)" "starts_complex t"
    | (other) "\<not> is_instance v p" "t \<noteq> ''boolean'' \<or> (\<forall>s. v \<noteq> VStr s)" "\<not> starts_complex t" by blast
  then show ?thesis
  proof cases
    case 1
    then show ?thesis using assms p by (auto simp: to_pyvalue_def typed_value_iff split: if_splits)
  next
    case 2
    then show ?thesis using assms p boolean_of_text_typed [of s] by (simp add: to_pyvalue_def)
  next
    case 3
    then have "toPyComplex v = Returned x" using assms to_pyvalue_other [OF False p 3(1,2)] by simp
    from toPyComplex_typed [OF this] complex_types [OF 3(3) p] show ?thesis using p by (auto simp: typed_value_iff)
  next
    case other
    then have r: "(case p of TStr \<Rightarrow> call_str F v | TFloat \<Rightarrow> call_float F v | TObject \<Rightarrow> Raised TypeError
        | _ \<Rightarrow> (case v of VStr s \<Rightarrow> (case int_of_literal s of Some n \<Rightarrow> Returned (VInt n) | None \<Rightarrow> Raised ValueError)
           | _ \<Rightarrow> call_int v)) = Returned x"
      using assms to_pyvalue_other [OF False p other(1,2), of F] other(3) by simp
    have "p \<noteq> TComplex" using complex_named p other(3) by blast
    then have "is_instance x p" using r
      by (cases p) (auto dest!: calls_typed split: pvalue.splits option.splits)
    then show ?thesis using p by (auto simp: typed_value_iff)
  qed
qed

lemma text_conversions_typed:
  "list_to_pyvalue t s = Returned x \<Longrightarrow> typed_value t x"
  "pair_to_pyvalue t s = Returned x \<Longrightarrow> typed_value t x"
  by (auto simp: list_to_pyvalue_def pair_to_pyvalue_def typed_value_iff split: option.splits pytype.splits)

lemma collected_typed:
  "(\<And>v x. v \<in> set vs \<Longrightarrow> f v = Returned x \<Longrightarrow> P x) \<Longrightarrow> collect_outcomes f vs = Returned xs \<Longrightarrow> \<forall>x \<in> set xs. P x"
proof (induction vs arbitrary: xs)
  case (Cons v vs)
  then show ?case by (force simp: obind_Returned_iff omap_Returned_iff)
qed simp

section \<open>Fitting values\<close>

definition typed_object :: "property_def \<Rightarrow> pobj \<Rightarrow> bool" where
  "typed_object p v \<longleftrightarrow> (case class_of p of
      SimpleProperty \<Rightarrow> (case v of Single x \<Rightarrow> typed_value (typename p) x | _ \<Rightarrow> False)
    | SimpleSeqProperty \<Rightarrow> typename p \<in> {''char'', ''octet''} \<or> v = Single VNone
        \<or> (case v of PyList xs \<Rightarrow> \<forall>x \<in> set xs. typed_value (typename p) x | _ \<Rightarrow> False))"

lemma typed_object_iff:
  "typed_object p v \<longleftrightarrow> (case class_of p of
      SimpleProperty \<Rightarrow> \<exists>x. v = Single x \<and> typed_value (typename p) x
    | SimpleSeqProperty \<Rightarrow> typename p \<in> {''char'', ''octet''} \<or> v = Single VNone
        \<or> (\<exists>xs. v = PyList xs \<and> (\<forall>x \<in> set xs. typed_value (typename p) x)))"
  by (auto simp: typed_object_def split: property_class.split pobj.split)

definition fitting :: "property_def \<Rightarrow> pobj \<Rightarrow> bool" where
  "fitting p v \<longleftrightarrow> typed_object p v \<and> checkValue p v = Returned ()"

lemma fromAny_typed: "fromAny F p w = Returned v \<Longrightarrow> typed_object p v"
  by (cases "class_of p"; cases w)
    (auto simp: fromAny_def simple_fromAny_def simpleseq_fromAny_def typed_object_iff omap_Returned_iff
      text_conversions_typed to_pyvalue_typed
      dest!: collected_typed [where P = "typed_value (typename p)", rotated] split: if_splits)

lemma checked_value_fits: "checked_value F p w = Returned v \<Longrightarrow> fitting p v"
  by (auto simp: checked_value_def fitting_def obind_Returned_iff omap_Returned_iff fromAny_typed)

definition fits_at :: "storage \<Rightarrow> string \<Rightarrow> pobj \<Rightarrow> bool" where
  "fits_at st i v \<longleftrightarrow> (\<forall>p. dget (properties st) i = Some p \<longrightarrow> fitting p v)"

lemma accepted_value_fits: "accepted_value F V allowed st q = Some (i, v) \<Longrightarrow> fits_at st i v"
  by (auto simp: accepted_value_def fits_at_def checked_value_fits split: outcome.splits option.splits if_splits)


section \<open>Every request keeps the values fitting\<close>

definition values_fit :: "storage \<Rightarrow> 'r component \<Rightarrow> bool" where
  "values_fit st c \<longleftrightarrow> (\<forall>i p. dget (properties st) i = Some p \<longrightarrow> fitting p (held_value c i))"

lemma values_fit_at: "values_fit st c \<longleftrightarrow> (\<forall>i. fits_at st i (held_value c i))"
  by (auto simp: values_fit_def fits_at_def)

definition fit_for_use :: "storage \<Rightarrow> 'r component \<Rightarrow> bool" where
  "fit_for_use st c \<longleftrightarrow> component_ok c \<and> \<not> property_lock c \<and> values_fit st c"

datatype property_call = Configures "property_request list" | Initialises "property_request list"

fun requests_of :: "property_call \<Rightarrow> property_request list" where
  "requests_of (Configures qs) = qs"
| "requests_of (Initialises qs) = qs"

definition run_call ::
    "sequence_text \<Rightarrow> (string \<Rightarrow> pobj \<Rightarrow> bool) \<Rightarrow> 'r listening \<Rightarrow> storage \<Rightarrow> property_call \<Rightarrow> 'r component \<Rightarrow> 'r component" where
  "run_call F V hear st call c = snd (case call of
      Configures qs \<Rightarrow> Resource_configure F (checking_code V) hear st qs c
    | Initialises qs \<Rightarrow> Resource_initializeProperties F (checking_code V) st qs c)"

lemma configure_keeps_fit:
  assumes "fit_for_use st c" "\<forall>q \<in> set qs. plain_request st q"
  shows "fit_for_use st (snd (Resource_configure F (checking_code V) hear st qs c))"
proof -
  let ?acc = "accepted_value F V isConfigurable st"
  have c: "component_ok (c\<lparr>property_lock := True\<rparr>)" "\<not> property_lock c"
    "\<And>i. fits_at st i (held_value (c\<lparr>property_lock := True\<rparr>) i)"
    using assms(1) by (simp_all add: fit_for_use_def values_fit_at)
  obtain t where t: "act_reject (try_configure F (checking_code V) hear st) qs (c\<lparr>property_lock := True\<rparr>)
      = (Ok (filter (\<lambda>q. ?acc q = None) qs), t)" "component_ok t" "\<forall>i. fits_at st i (held_value t i)"
    using configuring.requests_preserve [OF c(1), of qs st F V "fits_at st" hear] assms(2) c(3) accepted_value_fits by blast
  have "Resource_configure F (checking_code V) hear st qs c
      = (Ok (configuration_answer qs (filter (\<lambda>q. ?acc q = None) qs)), t\<lparr>property_lock := False\<rparr>)"
    unfolding Resource_configure_def configure_properties_def
    by (rule property_locked_run(1) [OF c(2)])
      (simp add: act_bind_run(1) [where m = "act_reject (try_configure F (checking_code V) hear st) qs", OF t(1)])
  then show ?thesis using t(2,3) by (simp add: fit_for_use_def values_fit_at)
qed

lemma initialise_keeps_fit:
  assumes "fit_for_use st c" "\<forall>q \<in> set qs. plain_request st q"
  shows "fit_for_use st (snd (Resource_initializeProperties F (checking_code V) st qs c))"
proof (cases "propertiesInitialized c")
  case True
  then have "Resource_initializeProperties F (checking_code V) st qs c = (Ok AlreadyInitialized, c)"
    unfolding Resource_initializeProperties_def by (intro locked_return) (use assms in \<open>simp_all add: fit_for_use_def\<close>)
  then show ?thesis using assms(1) by simp
next
  case False
  let ?acc = "accepted_value F V isProperty st"
  let ?c = "c\<lparr>property_lock := True, propertiesInitialized := True\<rparr>"
  have same: "held_value ?c = held_value c"
    by (simp add: held_value_def content_def fun_eq_iff split: pyref.split option.split)
  have c: "component_ok ?c" "\<not> property_lock c" "\<And>i. fits_at st i (held_value ?c i)"
    using assms(1) by (simp_all add: fit_for_use_def values_fit_at same component_ok_def)
  obtain t where t: "act_reject (try_construct F (checking_code V) st) qs ?c
      = (Ok (filter (\<lambda>q. ?acc q = None) qs), t)" "component_ok t" "\<forall>i. fits_at st i (held_value t i)"
    using constructing.requests_preserve [OF c(1), of qs st F V "fits_at st"] assms(2) c(3) accepted_value_fits by blast
  have "Resource_initializeProperties F (checking_code V) st qs c
      = (Ok (configuration_answer qs (filter (\<lambda>q. ?acc q = None) qs)), t\<lparr>property_lock := False\<rparr>)"
    unfolding Resource_initializeProperties_def
    by (rule property_locked_run(1) [OF c(2)]) (simp add: False
        act_bind_run(1) [where m = "act_reject (try_construct F (checking_code V) st) qs", OF t(1)])
  then show ?thesis using t(2,3) by (simp add: fit_for_use_def values_fit_at)
qed

lemma run_call_keeps_fit:
  "fit_for_use st c \<Longrightarrow> \<forall>q \<in> set (requests_of call). plain_request st q \<Longrightarrow> fit_for_use st (run_call F V hear st call c)"
  by (cases call) (simp_all add: run_call_def configure_keeps_fit initialise_keeps_fit)

text \<open>
  C10: Take a component whose own code for its properties only checks new values (\<open>checking_code\<close>), whose change
  listeners for single properties are methods, whose lock is free, and whose properties all hold fitting
  values. After any requests to configure and to initialise, in any order, none of them for a complex property
  or by pairs (\<open>[@]\<close>, which neither converts nor checks), every property still holds a fitting value, that is
  one within its bounds and of its type: a simple property a value of the Python type of its SCA type or
  \<open>None\<close>, a boolean also any text; a sequence a list of such values or \<open>None\<close>, except that for sequences of
  characters or octets nothing is said of the type, because their values are taken as they come.
\<close>

theorem requests_keep_types:
  assumes "fit_for_use st c" "\<forall>call \<in> set calls. \<forall>q \<in> set (requests_of call). plain_request st q"
  shows "fit_for_use st (fold (run_call F V hear st) calls c)"
  using assms by (induction calls arbitrary: c) (simp_all add: run_call_keeps_fit)

lemma example_fits: "fit_for_use example_storage example_component"
proof -
  have "fitting gain_property (held_value example_component ''gain'')"
    "fitting taps_property (held_value example_component ''taps[]'')" by code_simp+
  then show ?thesis using example_component_ok example_unlocked(1)
    by (auto simp: fit_for_use_def values_fit_def example_storage_def)
qed

theorem requests_keep_types_witness:
  "fit_for_use example_storage (fold (run_call example_text anything_goes nothing_heard example_storage)
     [Initialises example_request, Configures example_request] example_component)"
  by (rule requests_keep_types [OF example_fits]) (simp add: example_request_plain)

end
