(* ===== verification/LocalFiles.thy ===== *)
theory LocalFiles
  imports Device PyStrings
begin

text \<open>
  The functions of \<open>os.path\<close> on strings, and the files below the working directory of a device with
  the system calls that \<open>ossie/device.py\<close> makes on them. A path is a string relative to the working
  directory, which is the empty string; two paths name the same file only when they are equal, so
  there are no links. Times of change and files that are being executed are not part of the state:
  a call takes what the operating system says about them as an argument (\<open>os_view\<close>).
\<close>

section \<open>Paths\<close>

abbreviation slash :: char where "slash \<equiv> CHR ''/''"

definition starts_with_slash :: "string \<Rightarrow> bool" where
  "starts_with_slash p \<longleftrightarrow> p \<noteq> [] \<and> hd p = slash"

definition ends_with_slash :: "string \<Rightarrow> bool" where
  "ends_with_slash p \<longleftrightarrow> p \<noteq> [] \<and> last p = slash"

definition rstrip_slashes :: "string \<Rightarrow> string" where
  "rstrip_slashes p = rev (dropWhile (\<lambda>c. c = slash) (rev p))"

definition path_join :: "string \<Rightarrow> string \<Rightarrow> string" where
  "path_join a b = (if starts_with_slash b then b else if a = [] \<or> ends_with_slash a then a @ b else a @ slash # b)"

definition path_split :: "string \<Rightarrow> string \<times> string" where
  "path_split p = (case rindex slash p of
      None \<Rightarrow> ([], p)
    | Some i \<Rightarrow> (let head = take (Suc i) p in
        (if list_all (\<lambda>c. c = slash) head then head else rstrip_slashes head, drop (Suc i) p)))"

definition basename :: "string \<Rightarrow> string" where
  "basename p = snd (path_split p)"

text \<open>\<open>normpath\<close>: the components that stay, in the order of the loop.\<close>

definition norm_component :: "bool \<Rightarrow> string list \<Rightarrow> string \<Rightarrow> string list" where
  "norm_component initial new_comps part =
     (if part = [] \<or> part = ''.'' then new_comps
      else if part \<noteq> ''..'' \<or> (\<not> initial \<and> new_comps = []) \<or> (new_comps \<noteq> [] \<and> last new_comps = ''..'')
      then new_comps @ [part]
      else butlast new_comps)"

definition normpath :: "string \<Rightarrow> string" where
  "normpath p = (if p = [] then ''.'' else
     let initial = (if \<not> starts_with_slash p then 0
           else if take 2 p = ''//'' \<and> take 3 p \<noteq> ''///'' then 2 else 1 :: nat);
         comps = foldl (norm_component (0 < initial)) [] (split_on slash p);
         q = replicate initial slash @ join_on slash comps
     in if q = [] then ''.'' else q)"

section \<open>Files\<close>

datatype node = LocalDir | LocalFile string bool

type_synonym files = "(string, node) dict"

text \<open>A path with a trailing slash names a directory.\<close>

definition lookup_node :: "files \<Rightarrow> string \<Rightarrow> node option" where
  "lookup_node fs p = (if ends_with_slash p
     then (if dget fs (rstrip_slashes p) = Some LocalDir then Some LocalDir else None)
     else dget fs p)"

definition path_exists :: "files \<Rightarrow> string \<Rightarrow> bool" where
  "path_exists fs p \<longleftrightarrow> lookup_node fs p \<noteq> None"

definition is_dir :: "files \<Rightarrow> string \<Rightarrow> bool" where
  "is_dir fs p \<longleftrightarrow> lookup_node fs p = Some LocalDir"

definition is_file :: "files \<Rightarrow> string \<Rightarrow> bool" where
  "is_file fs p \<longleftrightarrow> (case lookup_node fs p of Some (LocalFile c x) \<Rightarrow> True | _ \<Rightarrow> False)"

definition parent :: "string \<Rightarrow> string" where
  "parent p = fst (path_split p)"

definition parent_exists :: "files \<Rightarrow> string \<Rightarrow> bool" where
  "parent_exists fs p \<longleftrightarrow> parent p = [] \<or> dget fs (parent p) = Some LocalDir"

definition listdir :: "files \<Rightarrow> string \<Rightarrow> string list" where
  "listdir fs p = map basename (filter (\<lambda>q. parent q = p) (dkeys fs))"

section \<open>System calls\<close>

record loader = device +
  local_files :: files
  loadedFiles :: "(string, int \<times> string list) dict"
  environ :: "(string, string) dict"
  modifications :: "(string \<times> string) list"
  sharedPkgs :: "string list"

record os_view =
  modified_at :: "string \<Rightarrow> rat"
  is_busy :: "string \<Rightarrow> bool"
  seconds :: string
  work_dir :: string
  nm_reads :: "string \<Rightarrow> bool"
  can_import :: "string \<Rightarrow> bool"
  zip_archive :: "string \<Rightarrow> bool"
  samefile :: "string \<Rightarrow> string \<Rightarrow> bool option"

definition put_node :: "string \<Rightarrow> node \<Rightarrow> ('x loader_scheme, unit) action" where
  "put_node p n = act_update (\<lambda>d. d\<lparr>local_files := dput p n (local_files d)\<rparr>)"

definition drop_node :: "string \<Rightarrow> ('x loader_scheme, unit) action" where
  "drop_node p = act_update (\<lambda>d. d\<lparr>local_files := dpop p (local_files d)\<rparr>)"

definition os_mkdir :: "string \<Rightarrow> ('x loader_scheme, unit) action" where
  "os_mkdir p = act_bind (act_get local_files) (\<lambda>fs.
     if path_exists fs p \<or> \<not> parent_exists fs p then act_raise EnvironmentError else put_node p LocalDir)"

text \<open>\<open>open(p, "w+")\<close>: an existing file is cut to length 0 and keeps its mode.\<close>

definition open_for_writing :: "os_view \<Rightarrow> string \<Rightarrow> ('x loader_scheme, unit) action" where
  "open_for_writing w p = act_bind (act_get local_files) (\<lambda>fs.
     case lookup_node fs p of
       Some LocalDir \<Rightarrow> act_raise EnvironmentError
     | Some (LocalFile c x) \<Rightarrow> if is_busy w p then act_raise TextFileBusy else put_node p (LocalFile [] x)
     | None \<Rightarrow> if ends_with_slash p \<or> \<not> parent_exists fs p then act_raise EnvironmentError
         else put_node p (LocalFile [] False))"

definition append_octets :: "string \<Rightarrow> string \<Rightarrow> ('x loader_scheme, unit) action" where
  "append_octets p buf = act_bind (act_get local_files) (\<lambda>fs.
     case dget fs p of Some (LocalFile c x) \<Rightarrow> put_node p (LocalFile (c @ buf) x) | _ \<Rightarrow> act_return ())"

definition os_rename :: "string \<Rightarrow> string \<Rightarrow> ('x loader_scheme, unit) action" where
  "os_rename p q = act_bind (act_get local_files) (\<lambda>fs.
     case dget fs p of
       Some (LocalFile c x) \<Rightarrow>
         if is_dir fs q \<or> \<not> parent_exists fs q then act_raise EnvironmentError
         else act_then (drop_node p) (put_node q (LocalFile c x))
     | _ \<Rightarrow> act_raise EnvironmentError)"

definition os_chmod_exec :: "string \<Rightarrow> ('x loader_scheme, unit) action" where
  "os_chmod_exec p = act_bind (act_get local_files) (\<lambda>fs.
     case lookup_node fs p of
       Some (LocalFile c x) \<Rightarrow> put_node p (LocalFile c True)
     | Some LocalDir \<Rightarrow> act_return ()
     | None \<Rightarrow> act_raise EnvironmentError)"

definition os_remove :: "string \<Rightarrow> ('x loader_scheme, unit) action" where
  "os_remove p = act_bind (act_get local_files) (\<lambda>fs.
     if is_file fs p then drop_node p else act_raise EnvironmentError)"

definition os_rmdir :: "string \<Rightarrow> ('x loader_scheme, unit) action" where
  "os_rmdir p = act_bind (act_get local_files) (\<lambda>fs.
     if is_dir fs p \<and> listdir fs p = [] then drop_node p else act_raise EnvironmentError)"

end
