(* ===== verification/LoadableDevice.thy ===== *)
theory LoadableDevice
  imports LocalFiles
begin

text \<open>
  \<open>LoadableDevice\<close> of \<open>ossie/device.py\<close>: loading files and directories of a remote file system into the
  working directory, the reference counts of what is loaded, unloading, and the search paths in the
  environment for shared libraries. The remote file system is a parameter (\<open>remote_files\<close>): what its
  operations \<open>list\<close> and \<open>open\<close> answer, and what an open file gives for each position and length.
\<close>

datatype file_kind = PLAIN | DIRECTORY | FILE_SYSTEM

record file_info =
  info_name :: string
  info_kind :: file_kind
  info_executable :: bool
  info_modified :: "rat option"

record remote_file =
  size_of :: "int outcome"
  read_at :: "nat \<Rightarrow> int \<Rightarrow> string outcome"

record remote_files =
  list_files :: "string \<Rightarrow> file_info list outcome"
  open_file :: "string \<Rightarrow> remote_file outcome"

section \<open>Copying\<close>

definition floorFileTransferSize :: int where
  "floorFileTransferSize = 1024 * 1024"

text \<open>The loop over the parts of a file; it ends at the size announced or at an empty part.\<close>

function copy_parts :: "remote_file \<Rightarrow> string \<Rightarrow> nat \<Rightarrow> int \<Rightarrow> ('x loader_scheme, unit) action" where
  "copy_parts f localPath pos fileSize =
     (if fileSize \<le> 0 then act_return ()
      else case read_at f pos (min floorFileTransferSize fileSize) of
        Returned buf \<Rightarrow> if buf = [] then act_return ()
          else act_then (append_octets localPath buf)
            (copy_parts f localPath (pos + length buf) (fileSize - int (length buf)))
      | Raised e \<Rightarrow> act_raise e
      | Blocked \<Rightarrow> act_hang)"
  by pat_completeness auto
termination
  by (relation "measure (\<lambda>(f, p, pos, n). nat n)") auto

declare copy_parts.simps [simp del]

definition create_local :: "os_view \<Rightarrow> string \<Rightarrow> ('x loader_scheme, string option) action" where
  "create_local w localPath = act_catch (act_then (open_for_writing w localPath) (act_return None)) (\<lambda>e.
     if e = TextFileBusy then
       (let modifiedName = localPath @ ''_'' @ seconds w in
        act_then (os_rename localPath modifiedName)
          (act_then (open_for_writing w localPath) (act_return (Some modifiedName))))
     else act_raise e)"

definition copyFile :: "os_view \<Rightarrow> remote_files \<Rightarrow> string \<Rightarrow> string \<Rightarrow> ('x loader_scheme, string option) action" where
  "copyFile w R remotePath localPath = act_bind (lift_outcome (open_file R remotePath)) (\<lambda>f.
     act_bind (create_local w localPath) (\<lambda>modifiedName.
     act_bind (lift_outcome (size_of f)) (\<lambda>fileSize.
     act_then (copy_parts f localPath 0 fileSize) (act_return modifiedName))))"

text \<open>
  \<open>_loadTree\<close>. The first argument is what is left of Python's limit on recursion, after which it
  raises \<open>RuntimeError\<close>.
\<close>

fun act_concat :: "('a \<Rightarrow> ('s, 'b list) action) \<Rightarrow> 'a list \<Rightarrow> ('s, 'b list) action" where
  "act_concat f [] = act_return []"
| "act_concat f (x # xs) = act_bind (f x) (\<lambda>ys. act_bind (act_concat f xs) (\<lambda>zs. act_return (ys @ zs)))"

definition load_plain :: "os_view \<Rightarrow> remote_files \<Rightarrow> string \<Rightarrow> string \<Rightarrow> file_info \<Rightarrow> ('x loader_scheme, string list) action" where
  "load_plain w R remotePath localPath fi =
     (let localFile = path_join localPath (info_name fi) in
      act_bind (copyFile w R (if ends_with_slash remotePath then remotePath @ info_name fi else remotePath) localFile) (\<lambda>m.
      act_then (act_when (info_executable fi) (os_chmod_exec localFile))
        (act_return (localFile # (case m of None \<Rightarrow> [] | Some n \<Rightarrow> [n])))))"

definition make_directory :: "string \<Rightarrow> ('x loader_scheme, unit) action" where
  "make_directory d = act_bind (act_get local_files) (\<lambda>fs. act_when (\<not> path_exists fs d) (os_mkdir d))"

fun loadTree :: "nat \<Rightarrow> os_view \<Rightarrow> remote_files \<Rightarrow> string \<Rightarrow> string \<Rightarrow> ('x loader_scheme, string list) action" where
  "loadTree 0 w R remotePath localPath = act_raise RuntimeError"
| "loadTree (Suc n) w R remotePath localPath = act_bind (lift_outcome (list_files R remotePath)) (\<lambda>fis.
     if fis = [] then
       (if remotePath = [] then act_raise IndexError
        else if ends_with_slash remotePath
        then act_bind (lift_outcome (list_files R (butlast remotePath))) (\<lambda>_. act_return [])
        else act_raise InvalidFileName)
     else act_concat (\<lambda>fi. case info_kind fi of
         PLAIN \<Rightarrow> load_plain w R remotePath localPath fi
       | DIRECTORY \<Rightarrow> (let localDirectory = path_join localPath (info_name fi) in
           act_then (make_directory localDirectory)
             (if ends_with_slash remotePath
              then act_bind (loadTree n w R (remotePath @ slash # info_name fi) localPath)
                (\<lambda>fs. act_return (localDirectory # fs))
              else loadTree n w R (remotePath @ [slash]) localDirectory))
       | FILE_SYSTEM \<Rightarrow> act_return []) fis)"

section \<open>Search paths of shared libraries\<close>

definition getEnvVarAsList :: "(string, string) dict \<Rightarrow> string \<Rightarrow> string list" where
  "getEnvVarAsList env var = (case dget env var of Some v \<Rightarrow> split_on (CHR '':'') v | None \<Rightarrow> [])"

definition same_entry :: "os_view \<Rightarrow> string \<Rightarrow> string \<Rightarrow> bool" where
  "same_entry w entry newVal = (case samefile w entry newVal of Some b \<Rightarrow> b | None \<Rightarrow> entry = newVal)"

definition prependToEnvVar :: "os_view \<Rightarrow> string \<Rightarrow> string \<Rightarrow> (string, string) dict \<Rightarrow> (string, string) dict" where
  "prependToEnvVar w newVal envVar env =
     (if list_ex (\<lambda>entry. same_entry w entry newVal) (getEnvVarAsList env envVar) then env
      else dput envVar (case dget env envVar of
          Some old \<Rightarrow> newVal @ '':'' @ old @ '':''
        | None \<Rightarrow> newVal @ '':'') env)"

text \<open>
  \<open>_modifications\<close> is an attribute of the class \<open>sharedLibraryStorage\<close> that its constructor does not
  set: all objects share one list. \<open>sharedPkgs\<close> therefore keeps the names only.
\<close>

definition apply_modifications :: "os_view \<Rightarrow> ('x loader_scheme, unit) action" where
  "apply_modifications w = act_update (\<lambda>d. d\<lparr>environ :=
     fold (\<lambda>(var, val). prependToEnvVar w val var) (modifications d) (environ d)\<rparr>)"

definition update_selected_paths :: "os_view \<Rightarrow> string list \<Rightarrow> ('x loader_scheme, unit) action" where
  "update_selected_paths w paths = act_each (\<lambda>path. apply_modifications w) paths"

definition addModification :: "string \<Rightarrow> string \<Rightarrow> ('x loader_scheme, unit) action" where
  "addModification var val = act_update (\<lambda>d. d\<lparr>modifications := modifications d @ [(var, val)]\<rparr>)"

definition abspath :: "os_view \<Rightarrow> string \<Rightarrow> string" where
  "abspath w p = normpath (path_join (work_dir w) p)"

definition with_slashes :: "string list \<Rightarrow> string" where
  "with_slashes ds = concat (map (\<lambda>d. d @ [slash]) ds)"

text \<open>
  The part for Python modules, of which every exception is ignored: without a directory in the path the
  name \<open>aggregateChange\<close> is not bound, and without \<open>PYTHONPATH\<close> in the environment the log message
  raises \<open>KeyError\<close> after the modification was added.
\<close>

definition python_module :: "os_view \<Rightarrow> string \<Rightarrow> ('x loader_scheme, bool) action" where
  "python_module w localFilePath = act_catch
     (let subdirs = split_on slash localFilePath; aggregateChange = with_slashes (butlast subdirs) in
      act_bind (act_get local_files) (\<lambda>fs.
      act_then (act_when (length subdirs \<noteq> 1 \<and> \<not> is_dir fs aggregateChange \<and> aggregateChange \<noteq> [slash])
        (act_raise EnvironmentError))
      (if \<not> can_import w localFilePath then act_raise RuntimeError
       else if length subdirs = 1 then act_raise NameError
       else act_then (addModification ''PYTHONPATH'' (work_dir w @ slash # aggregateChange))
        (act_bind (act_get environ) (\<lambda>env.
         if dget env ''PYTHONPATH'' = None then act_raise KeyError else act_return True)))))
     (\<lambda>e. act_return False)"

definition setEnvVars :: "os_view \<Rightarrow> string \<Rightarrow> string \<Rightarrow> ('x loader_scheme, unit) action" where
  "setEnvVars w localFilePath fileName =
     act_then (act_when (nm_reads w localFilePath)
       (addModification ''LD_LIBRARY_PATH'' (with_slashes (butlast (split_on slash (abspath w localFilePath))))))
     (act_bind (python_module w localFilePath) (\<lambda>python.
      let jar = (drop (length localFilePath - 4) localFilePath = ''.jar'' \<and> zip_archive w localFilePath) in
      act_then (act_when jar (addModification ''CLASSPATH'' (work_dir w @ slash # localFilePath)))
      (act_then (act_when (\<not> (nm_reads w localFilePath \<or> python \<or> jar))
        (act_then (addModification ''LD_LIBRARY_PATH'' (abspath w localFilePath))
          (addModification ''OCTAVE_PATH'' (abspath w localFilePath))))
      (act_then (update_selected_paths w [fileName])
        (act_update (\<lambda>d. d\<lparr>sharedPkgs := List.insert fileName (sharedPkgs d)\<rparr>))))))"

section \<open>Loading\<close>

datatype load_type = KERNEL_MODULE | DRIVER | SHARED_LIBRARY | EXECUTABLE

fun make_load_point :: "string \<Rightarrow> string list \<Rightarrow> ('x loader_scheme, string) action" where
  "make_load_point loadPoint [] = act_return loadPoint"
| "make_load_point loadPoint (d # ds) = (if d = [] then make_load_point loadPoint ds
     else (let p = path_join loadPoint d in act_then (make_directory p) (make_load_point p ds)))"

definition modTime :: "remote_files \<Rightarrow> string \<Rightarrow> ('x loader_scheme, rat) action" where
  "modTime R remotePath = (case list_files R remotePath of
      Returned (fi # fis) \<Rightarrow> act_return (case info_modified fi of Some t \<Rightarrow> t | None \<Rightarrow> 0)
    | Blocked \<Rightarrow> act_hang
    | _ \<Rightarrow> act_return 0)"

definition load_cached ::
    "nat \<Rightarrow> os_view \<Rightarrow> remote_files \<Rightarrow> string \<Rightarrow> ('x loader_scheme, string) action" where
  "load_cached n w R fileName =
     act_bind (make_load_point [] (split_on slash (tl (fst (path_split (normpath fileName)))))) (\<lambda>loadPoint.
     act_bind (act_get (\<lambda>d. dget (loadedFiles d) fileName)) (\<lambda>entry.
     act_bind (act_get local_files) (\<lambda>fs.
     let (refCnt, loaded) = (case entry of Some e \<Rightarrow> e | None \<Rightarrow> (0, []));
         localFilePath = path_join loadPoint (basename fileName);
         exist = path_exists fs localFilePath \<and> list_all (path_exists fs) loaded
     in act_bind (if exist then act_bind (modTime R fileName) (\<lambda>t. act_return (\<not> t > modified_at w localFilePath))
         else act_return False) (\<lambda>current.
       act_bind (if refCnt = 0 \<or> \<not> current then loadTree n w R (normpath fileName) loadPoint else act_return loaded)
         (\<lambda>loaded. act_then (act_update (\<lambda>d. d\<lparr>loadedFiles := dput fileName (refCnt + 1, loaded) (loadedFiles d)\<rparr>))
           (act_return localFilePath))))))"

definition LoadableDevice_load ::
    "nat \<Rightarrow> os_view \<Rightarrow> remote_files \<Rightarrow> string \<Rightarrow> load_type \<Rightarrow> ('x loader_scheme, unit) action" where
  "LoadableDevice_load n w R fileName loadType = act_catch
     (if \<not> starts_with_slash fileName then act_raise InvalidFileName
      else act_bind (act_get isLocked) (\<lambda>locked. if locked then act_raise InvalidState
      else act_bind (act_get isDisabled) (\<lambda>disabled. if disabled then act_raise InvalidState
      else if loadType = EXECUTABLE \<or> loadType = SHARED_LIBRARY
      then act_bind (load_cached n w R fileName) (\<lambda>localFilePath.
        act_when (loadType = SHARED_LIBRARY) (setEnvVars w localFilePath fileName))
      else act_raise InvalidLoadKind)))
     (\<lambda>e. act_raise LoadFail)"

section \<open>Unloading\<close>

definition quietly :: "('s, unit) action \<Rightarrow> ('s, unit) action" where
  "quietly m = act_catch m (\<lambda>e. act_return ())"

definition remove_loaded :: "string \<Rightarrow> ('x loader_scheme, unit) action" where
  "remove_loaded f = act_bind (act_get local_files) (\<lambda>fs.
     if is_dir fs f \<and> listdir fs f = [] then quietly (os_rmdir f)
     else act_then (quietly (os_remove f))
       (act_when (drop (length f - 3) f = ''.py'') (quietly (os_remove (f @ ''c'')))))"

definition unload_file :: "string \<Rightarrow> bool \<Rightarrow> ('x loader_scheme, unit) action" where
  "unload_file fileName force = act_bind (act_get (\<lambda>d. dget (loadedFiles d) fileName)) (\<lambda>entry.
     case entry of
       None \<Rightarrow> act_raise InvalidFileName
     | Some (cnt, loaded) \<Rightarrow> (let refCnt = (if force then 0 else cnt - 1) in
         if refCnt = 0 then act_then (act_each remove_loaded (rev loaded))
           (act_update (\<lambda>d. d\<lparr>loadedFiles := dpop fileName (loadedFiles d)\<rparr>))
         else act_update (\<lambda>d. d\<lparr>loadedFiles := dput fileName (refCnt, loaded) (loadedFiles d)\<rparr>)))"

definition LoadableDevice_unload :: "string \<Rightarrow> ('x loader_scheme, unit) action" where
  "LoadableDevice_unload fileName =
     act_bind (act_get isLocked) (\<lambda>locked. if locked then act_raise InvalidState
     else act_bind (act_get isDisabled) (\<lambda>disabled. if disabled then act_raise InvalidState
     else unload_file fileName False))"

definition unloadAll :: "('x loader_scheme, unit) action" where
  "unloadAll = act_bind (act_get (\<lambda>d. dkeys (loadedFiles d))) (\<lambda>names.
     act_each (\<lambda>fileName. quietly (unload_file fileName True)) names)"

end
