(* ===== verification/LoadTrees.thy ===== *)
theory LoadTrees
  imports LoadableDevice
begin

text \<open>
  What \<open>_loadTree\<close> does, against trees: a remote file system that serves a tree, the plan of the files
  and directories that the tree becomes below a local path, and the proof that loading carries out the
  plan, however the remote side cuts the contents of the files into parts.
\<close>

section \<open>Trees\<close>

datatype remote_tree = RemoteFile string bool | RemoteDir "(string \<times> remote_tree) list"

definition proper_name :: "string \<Rightarrow> bool" where
  "proper_name n \<longleftrightarrow> n \<noteq> [] \<and> slash \<notin> set n"

fun proper_tree :: "remote_tree \<Rightarrow> bool" where
  "proper_tree (RemoteFile c x) = True"
| "proper_tree (RemoteDir es) = (\<forall>(n, t) \<in> set es. proper_name n \<and> proper_tree t)"

fun depth :: "remote_tree \<Rightarrow> nat" where
  "depth (RemoteFile c x) = 1"
| "depth (RemoteDir es) = 2 + foldr max (map (\<lambda>(n, t). depth t) es) 0"

text \<open>The nodes that the tree becomes at a local path, in the order in which they are made.\<close>

fun plan :: "string \<Rightarrow> remote_tree \<Rightarrow> (string \<times> node) list" where
  "plan p (RemoteFile c x) = [(p, LocalFile c x)]"
| "plan p (RemoteDir es) = (p, LocalDir) # concat (map (\<lambda>(n, t). plan (path_join p n) t) es)"

definition listed_files :: "string \<Rightarrow> remote_tree \<Rightarrow> string list" where
  "listed_files p t = (case t of RemoteFile c x \<Rightarrow> [p] | RemoteDir es \<Rightarrow> map fst (tl (plan p t)))"

text \<open>A file that exists keeps its mode.\<close>

definition lay :: "string \<times> node \<Rightarrow> files \<Rightarrow> files" where
  "lay pn fs = dput (fst pn) (case (snd pn, dget fs (fst pn)) of
      (LocalFile c x, Some (LocalFile c' x')) \<Rightarrow> LocalFile c (x' \<or> x)
    | _ \<Rightarrow> snd pn) fs"

definition carried_out :: "(string \<times> node) list \<Rightarrow> files \<Rightarrow> files" where
  "carried_out ps fs = fold lay ps fs"

section \<open>The remote side\<close>

text \<open>An open file gives at least one octet and at most the length asked for, until its end.\<close>

definition delivers :: "remote_files \<Rightarrow> string \<Rightarrow> string \<Rightarrow> bool" where
  "delivers R q c \<longleftrightarrow> (\<exists>f. open_file R q = Returned f \<and> size_of f = Returned (int (length c)) \<and>
     (\<forall>pos n. pos < length c \<longrightarrow> 0 < n \<longrightarrow>
        (\<exists>k. 0 < k \<and> k \<le> nat n \<and> read_at f pos n = Returned (take k (drop pos c)))))"

definition describes :: "file_info \<Rightarrow> string \<times> remote_tree \<Rightarrow> bool" where
  "describes fi nt \<longleftrightarrow> info_name fi = fst nt \<and> (case snd nt of
      RemoteFile c x \<Rightarrow> info_kind fi = PLAIN \<and> info_executable fi = x
    | RemoteDir es \<Rightarrow> info_kind fi = DIRECTORY)"

text \<open>
  A directory is asked for its contents with a trailing slash; the directories in it are then named
  with two slashes, which the file system takes as one.
\<close>

fun serves :: "remote_files \<Rightarrow> string \<Rightarrow> string \<times> remote_tree \<Rightarrow> bool" where
  "serves R q (n, RemoteFile c x) = ((\<exists>fi. list_files R q = Returned [fi] \<and> describes fi (n, RemoteFile c x)) \<and> delivers R q c)"
| "serves R q (n, RemoteDir es) = ((\<exists>fi. list_files R q = Returned [fi] \<and> describes fi (n, RemoteDir es)) \<and>
     (\<exists>fis. list_files R (q @ [slash]) = Returned fis \<and> list_all2 describes fis es) \<and>
     (\<forall>(m, t) \<in> set es. case t of
         RemoteFile c x \<Rightarrow> delivers R (q @ slash # m) c
       | RemoteDir us \<Rightarrow> serves R (q @ slash # slash # m) (m, RemoteDir us)))"

declare serves.simps(2) [simp del]

lemma serves_directory:
  assumes "serves R q (n, RemoteDir es)"
  obtains fi fis where "list_files R q = Returned [fi]" "info_kind fi = DIRECTORY" "info_name fi = n"
    "list_files R (q @ [slash]) = Returned fis" "list_all2 describes fis es"
    "\<And>m c x. (m, RemoteFile c x) \<in> set es \<Longrightarrow> delivers R (q @ slash # m) c"
    "\<And>m us. (m, RemoteDir us) \<in> set es \<Longrightarrow> serves R (q @ slash # slash # m) (m, RemoteDir us)"
proof -
  from assms [THEN serves.simps(2) [THEN iffD1]] have s: "\<exists>fi. list_files R q = Returned [fi] \<and> describes fi (n, RemoteDir es)"
    "\<exists>fis. list_files R (q @ [slash]) = Returned fis \<and> list_all2 describes fis es"
    "\<forall>(m, t) \<in> set es. case t of RemoteFile c x \<Rightarrow> delivers R (q @ slash # m) c
       | RemoteDir us \<Rightarrow> serves R (q @ slash # slash # m) (m, RemoteDir us)"
    by blast+
  from s(1) obtain fi where "list_files R q = Returned [fi]" "info_kind fi = DIRECTORY" "info_name fi = n"
    by (auto simp: describes_def)
  moreover from s(2) obtain fis where "list_files R (q @ [slash]) = Returned fis" "list_all2 describes fis es" by blast
  ultimately show ?thesis using s(3) by (intro that [of fi fis]) force+
qed

section \<open>Paths\<close>

lemma proper_names:
  assumes "proper_name n"
  shows "\<not> starts_with_slash n" "\<not> ends_with_slash n" "\<not> ends_with_slash (q @ n)" "\<not> ends_with_slash (q @ slash # n)"
  using assms by (auto simp: proper_name_def starts_with_slash_def ends_with_slash_def dest: last_in_set)
    (metis last_in_set list.set_sel(1))+

lemma join_proper: "proper_name n \<Longrightarrow> \<not> ends_with_slash p \<Longrightarrow> path_join p n = (if p = [] then n else p @ slash # n)"
  by (simp add: path_join_def proper_names)

lemma join_not_ending: "proper_name n \<Longrightarrow> \<not> ends_with_slash p \<Longrightarrow> \<not> ends_with_slash (path_join p n)"
  by (simp add: join_proper proper_names)

lemma join_not_Nil: "proper_name n \<Longrightarrow> \<not> ends_with_slash p \<Longrightarrow> path_join p n \<noteq> []"
  by (simp add: join_proper proper_name_def)

lemma path_split_join: "proper_name n \<Longrightarrow> \<not> ends_with_slash p \<Longrightarrow> path_split (path_join p n) = (p, n)"
proof (cases "p = []")
  case True
  assume "proper_name n"
  then show ?thesis using True by (simp add: join_proper path_split_def rindex_None proper_name_def ends_with_slash_def)
next
  case False
  assume n: "proper_name n" and p: "\<not> ends_with_slash p"
  obtain q c where q: "p = q @ [c]" using False by (cases p rule: rev_cases) auto
  then have c: "c \<noteq> slash" using p by (simp add: ends_with_slash_def)
  have "rindex slash (p @ slash # n) = Some (length p)" using n by (simp add: rindex_last proper_name_def)
  then show ?thesis using n p False c by (simp add: join_proper path_split_def q rstrip_slashes_def)
qed

lemma parent_join: "proper_name n \<Longrightarrow> \<not> ends_with_slash p \<Longrightarrow> parent (path_join p n) = p"
  by (simp add: parent_def path_split_join)

lemma lookup_plain: "\<not> ends_with_slash p \<Longrightarrow> lookup_node fs p = dget fs p"
  by (simp add: lookup_node_def)


section \<open>Copying a file\<close>

lemma dput_same: "dget d k = Some v \<Longrightarrow> dput k v d = d"
  by (induction d) (auto split: if_splits)

lemma dput_twice [simp]: "dput k v (dput k u d) = dput k v d"
  by (induction d) auto

lemma put_node_run [simp]: "put_node p n s = (Ok (), s\<lparr>local_files := dput p n (local_files s)\<rparr>)"
  by (simp add: put_node_def)

lemma append_octets_run:
  "dget (local_files s) p = Some (LocalFile c x) \<Longrightarrow>
   append_octets p buf s = (Ok (), s\<lparr>local_files := dput p (LocalFile (c @ buf) x) (local_files s)\<rparr>)"
  by (simp add: append_octets_def)

lemma copy_parts_run:
  assumes "\<forall>pos n. pos < length c \<longrightarrow> 0 < n \<longrightarrow> (\<exists>k. 0 < k \<and> k \<le> nat n \<and> read_at f pos n = Returned (take k (drop pos c)))"
    and "dget (local_files s) p = Some (LocalFile (take pos c) x)" "pos \<le> length c"
  shows "copy_parts f p pos (int (length c) - int pos) s = (Ok (), s\<lparr>local_files := dput p (LocalFile c x) (local_files s)\<rparr>)"
  using assms(2,3)
proof (induction "length c - pos" arbitrary: pos s rule: less_induct)
  case less
  show ?case
  proof (cases "pos = length c")
    case True
    then show ?thesis using less.prems(1) by (simp add: copy_parts.simps dput_same)
  next
    case False
    then have pos: "pos < length c" using less.prems(2) by simp
    define m where "m = min floorFileTransferSize (int (length c) - int pos)"
    have m: "0 < m" using pos by (simp add: m_def floorFileTransferSize_def)
    obtain k where k: "0 < k" "k \<le> nat m" "read_at f pos m = Returned (take k (drop pos c))"
      using assms(1) pos m by blast
    have le: "k \<le> length c - pos" using k(2) pos by (simp add: m_def)
    have buf: "take k (drop pos c) \<noteq> []" "length (take k (drop pos c)) = k" using k(1) le pos by simp_all
    let ?s = "s\<lparr>local_files := dput p (LocalFile (take (pos + k) c) x) (local_files s)\<rparr>"
    have step: "append_octets p (take k (drop pos c)) s = (Ok (), ?s)"
      by (simp add: append_octets_run [OF less.prems(1)] take_add)
    have rest: "int (length c) - int pos - int k = int (length c) - int (pos + k)" by simp
    have "copy_parts f p (pos + k) (int (length c) - int (pos + k)) ?s
        = (Ok (), ?s\<lparr>local_files := dput p (LocalFile c x) (local_files ?s)\<rparr>)"
      by (rule less.hyps) (use k(1) le pos in simp_all)
    then show ?thesis
      using pos buf by (simp add: copy_parts.simps [of f p pos] m_def [symmetric] k(3) rest
          act_then_run(1) [where m = "append_octets p (take k (drop pos c))", OF step])
  qed
qed

definition writable_at :: "os_view \<Rightarrow> files \<Rightarrow> string \<Rightarrow> bool" where
  "writable_at w fs p \<longleftrightarrow> \<not> ends_with_slash p \<and> (case dget fs p of
      Some LocalDir \<Rightarrow> False
    | Some (LocalFile c x) \<Rightarrow> \<not> is_busy w p
    | None \<Rightarrow> parent_exists fs p)"

definition old_mode :: "files \<Rightarrow> string \<Rightarrow> bool" where
  "old_mode fs p \<longleftrightarrow> (case dget fs p of Some (LocalFile c x) \<Rightarrow> x | _ \<Rightarrow> False)"

lemma open_for_writing_run:
  "writable_at w (local_files s) p \<Longrightarrow>
   open_for_writing w p s = (Ok (), s\<lparr>local_files := dput p (LocalFile [] (old_mode (local_files s) p)) (local_files s)\<rparr>)"
  by (auto simp: writable_at_def open_for_writing_def lookup_plain old_mode_def split: option.splits node.splits)

lemma create_local_run:
  "writable_at w (local_files s) p \<Longrightarrow>
   create_local w p s = (Ok None, s\<lparr>local_files := dput p (LocalFile [] (old_mode (local_files s) p)) (local_files s)\<rparr>)"
  unfolding create_local_def
  by (rule act_catch_run(1)) (simp add: act_then_run(1) [where m = "open_for_writing w p", OF open_for_writing_run])

lemma copyFile_run:
  assumes "delivers R q c" "writable_at w (local_files s) p"
  shows "copyFile w R q p s = (Ok None, s\<lparr>local_files := dput p (LocalFile c (old_mode (local_files s) p)) (local_files s)\<rparr>)"
proof -
  obtain f where f: "open_file R q = Returned f" "size_of f = Returned (int (length c))"
    "\<forall>pos n. pos < length c \<longrightarrow> 0 < n \<longrightarrow> (\<exists>k. 0 < k \<and> k \<le> nat n \<and> read_at f pos n = Returned (take k (drop pos c)))"
    using assms(1) by (auto simp: delivers_def)
  let ?s = "s\<lparr>local_files := dput p (LocalFile [] (old_mode (local_files s) p)) (local_files s)\<rparr>"
  have "copy_parts f p 0 (int (length c) - int 0) ?s
      = (Ok (), ?s\<lparr>local_files := dput p (LocalFile c (old_mode (local_files s) p)) (local_files ?s)\<rparr>)"
    by (rule copy_parts_run [OF f(3)]) simp_all
  then show ?thesis
    by (simp add: copyFile_def f(1,2) act_bind_run(1) [where m = "create_local w p", OF create_local_run [OF assms(2)]] act_then_run(1))
qed

lemma lay_file: "lay (p, LocalFile c x) fs = (case dget fs p of Some LocalDir \<Rightarrow> dput p (LocalFile c x) fs
    | _ \<Rightarrow> dput p (LocalFile c (old_mode fs p \<or> x)) fs)"
  by (simp add: lay_def old_mode_def split: option.split node.split)

text \<open>A plain entry carries out its plan.\<close>

lemma load_plain_run:
  assumes "delivers R (if ends_with_slash q then q @ n else q) c" "info_name fi = n" "info_executable fi = x"
    and "proper_name n" "\<not> ends_with_slash lp" "writable_at w (local_files s) (path_join lp n)"
  shows "load_plain w R q lp fi s = (Ok [path_join lp n], s\<lparr>local_files := lay (path_join lp n, LocalFile c x) (local_files s)\<rparr>)"
proof -
  let ?p = "path_join lp n"
  have p: "\<not> ends_with_slash ?p" by (rule join_not_ending [OF assms(4,5)])
  have nd: "dget (local_files s) ?p \<noteq> Some LocalDir" using assms(6) by (auto simp: writable_at_def)
  let ?s = "s\<lparr>local_files := dput ?p (LocalFile c (old_mode (local_files s) ?p)) (local_files s)\<rparr>"
  have chmod: "act_when x (os_chmod_exec ?p) ?s
      = (Ok (), s\<lparr>local_files := dput ?p (LocalFile c (old_mode (local_files s) ?p \<or> x)) (local_files s)\<rparr>)"
    by (simp add: act_when_def os_chmod_exec_def lookup_plain [OF p])
  have laid: "lay (?p, LocalFile c x) (local_files s)
      = dput ?p (LocalFile c (old_mode (local_files s) ?p \<or> x)) (local_files s)"
    using nd by (auto simp: lay_file split: option.split node.split)
  show ?thesis unfolding load_plain_def Let_def assms(2,3) laid
    by (rule act_bind_run(1) [where m = "copyFile w R _ _", OF copyFile_run [OF assms(1,6)], THEN trans])
      (simp add: act_then_run(1) [where m = "act_when x (os_chmod_exec ?p)", OF chmod])
qed


section \<open>Loading carries out the plan\<close>

definition node_ready :: "os_view \<Rightarrow> files \<Rightarrow> string \<times> node \<Rightarrow> bool" where
  "node_ready w fs pn \<longleftrightarrow> (case (snd pn, dget fs (fst pn)) of
      (LocalDir, Some (LocalFile c x)) \<Rightarrow> False
    | (LocalFile c x, Some LocalDir) \<Rightarrow> False
    | (LocalFile c x, Some (LocalFile c' x')) \<Rightarrow> \<not> is_busy w (fst pn)
    | _ \<Rightarrow> True)"

definition ready :: "os_view \<Rightarrow> files \<Rightarrow> (string \<times> node) list \<Rightarrow> bool" where
  "ready w fs ps \<longleftrightarrow> list_all (node_ready w fs) ps \<and> distinct (map fst ps)"

lemma dget_lay: "q \<noteq> fst pn \<Longrightarrow> dget (lay pn fs) q = dget fs q"
  by (simp add: lay_def)

lemma lay_dir [simp]: "dget (lay (p, LocalDir) fs) p = Some LocalDir"
  by (simp add: lay_def)

lemma carried_out_simps [simp]:
  "carried_out [] fs = fs" "carried_out (pn # ps) fs = carried_out ps (lay pn fs)"
  "carried_out (ps @ qs) fs = carried_out qs (carried_out ps fs)"
  by (simp_all add: carried_out_def)

lemma carried_out_elsewhere: "q \<notin> fst ` set ps \<Longrightarrow> dget (carried_out ps fs) q = dget fs q"
  by (induction ps arbitrary: fs) (auto simp: dget_lay)

lemma node_ready_cong: "dget fs (fst pn) = dget fs' (fst pn) \<Longrightarrow> node_ready w fs pn = node_ready w fs' pn"
  by (simp add: node_ready_def)

lemma ready_later: "ready w fs (ps @ qs) \<Longrightarrow> ready w (carried_out ps fs) qs"
proof -
  assume r: "ready w fs (ps @ qs)"
  have "node_ready w (carried_out ps fs) pn" if "pn \<in> set qs" for pn
  proof -
    have "fst pn \<notin> fst ` set ps" using r that by (auto simp: ready_def)
    then have "node_ready w (carried_out ps fs) pn = node_ready w fs pn"
      by (intro node_ready_cong) (rule carried_out_elsewhere)
    then show ?thesis using r that by (auto simp: ready_def list_all_iff)
  qed
  then show ?thesis using r by (auto simp: ready_def list_all_iff)
qed

lemma ready_split: "ready w fs (ps @ qs) \<Longrightarrow> ready w fs ps" "ready w fs (ps @ qs) \<Longrightarrow> fst ` set ps \<inter> fst ` set qs = {}"
  by (auto simp: ready_def)

lemma ready_writable:
  "ready w fs ((p, LocalFile c x) # ps) \<Longrightarrow> \<not> ends_with_slash p \<Longrightarrow> parent_exists fs p \<Longrightarrow> writable_at w fs p"
  by (auto simp: ready_def node_ready_def writable_at_def split: option.splits node.splits)

lemma parent_ready: "proper_name n \<Longrightarrow> \<not> ends_with_slash lp \<Longrightarrow> lp = [] \<or> dget fs lp = Some LocalDir \<Longrightarrow> parent_exists fs (path_join lp n)"
  by (auto simp: parent_exists_def parent_join)

lemma make_directory_run:
  assumes "ready w (local_files s) ((d, LocalDir) # ps)" "\<not> ends_with_slash d" "parent_exists (local_files s) d"
  shows "make_directory d s = (Ok (), s\<lparr>local_files := lay (d, LocalDir) (local_files s)\<rparr>)"
proof -
  have "dget (local_files s) d = None \<or> dget (local_files s) d = Some LocalDir"
    using assms(1) by (auto simp: ready_def node_ready_def split: option.splits node.splits)
  then show ?thesis using assms(2,3)
    by (auto simp: make_directory_def act_when_def os_mkdir_def path_exists_def lookup_plain lay_def dput_same)
qed

lemma lay_twice: "lay (d, LocalDir) (lay (d, LocalDir) fs) = lay (d, LocalDir) fs"
  by (simp add: lay_def)

lemma ready_after_directory: "ready w fs ((d, LocalDir) # ps) \<Longrightarrow> ready w (lay (d, LocalDir) fs) ((d, LocalDir) # ps)"
proof -
  assume r: "ready w fs ((d, LocalDir) # ps)"
  then have "ready w (carried_out [(d, LocalDir)] fs) ps" by (intro ready_later) simp
  then show ?thesis using r by (simp add: ready_def node_ready_def)
qed

lemma depth_child: "(n, t) \<in> set es \<Longrightarrow> depth t + 2 \<le> depth (RemoteDir es)"
  by (induction es) auto

lemma ends_slash [simp]: "ends_with_slash (q @ [slash])"
  by (simp add: ends_with_slash_def)

lemma loadTree_directory:
  assumes "list_files R q = Returned [fi]" "info_kind fi = DIRECTORY" "\<not> ends_with_slash q"
    and "make_directory (path_join lp (info_name fi)) s = (Ok (), t)"
    and "loadTree n w R (q @ [slash]) (path_join lp (info_name fi)) t = (Ok fs, u)"
  shows "loadTree (Suc n) w R q lp s = (Ok fs, u)"
  using assms(3) by (simp add: assms(1,2) Let_def
      act_then_run(1) [where m = "make_directory _", OF assms(4)] act_bind_def assms(5) act_then_def assms(4))

lemma loadTree_entry:
  fixes s :: "'x loader_scheme"
  assumes "serves R q (n, t)" "proper_tree t" "proper_name n" "\<not> ends_with_slash lp" "\<not> ends_with_slash q"
    and "p = path_join lp n" "lp = [] \<or> dget (local_files s) lp = Some LocalDir"
    and "ready w (local_files s) (plan p t)" "depth t \<le> k"
  shows "loadTree k w R q lp s = (Ok (listed_files p t), s\<lparr>local_files := carried_out (plan p t) (local_files s)\<rparr>)"
  using assms
proof (induction p t arbitrary: k q n lp s rule: plan.induct)
  case (1 p c x)
  from \<open>depth _ \<le> k\<close> obtain k' where k: "k = Suc k'" by (cases k) auto
  obtain fi where fi: "list_files R q = Returned [fi]" "info_kind fi = PLAIN" "info_name fi = n" "info_executable fi = x"
    and d: "delivers R q c" using 1(1) by (auto simp: describes_def)
  have "writable_at w (local_files s) p" using 1 by (auto intro!: ready_writable parent_ready simp: join_not_ending)
  then have "load_plain w R q lp fi s = (Ok [p], s\<lparr>local_files := lay (p, LocalFile c x) (local_files s)\<rparr>)"
    using load_plain_run [of R q n c fi x lp w s] d fi 1 by simp
  then show ?case
    by (simp add: k fi(1,2) listed_files_def act_bind_run(1) [where m = "load_plain w R q lp fi"])
next
  case (2 p es)
  have "2 \<le> k" using \<open>depth _ \<le> k\<close> by simp
  then obtain k' where k: "k = Suc (Suc k')" by (auto simp: le_iff_add)
  obtain fi fis where fi: "list_files R q = Returned [fi]" "info_kind fi = DIRECTORY" "info_name fi = n"
    and fis: "list_files R (q @ [slash]) = Returned fis" "list_all2 describes fis es"
    and files: "\<And>m c x. (m, RemoteFile c x) \<in> set es \<Longrightarrow> delivers R (q @ slash # m) c"
    and dirs: "\<And>m us. (m, RemoteDir us) \<in> set es \<Longrightarrow> serves R (q @ slash # slash # m) (m, RemoteDir us)"
    using 2(2) by (rule serves_directory) blast
  have p: "\<not> ends_with_slash p" "parent_exists (local_files s) p"
    using 2(4,5,7,8) by (simp_all add: join_not_ending parent_ready)
  let ?kids = "\<lambda>es. concat (map (\<lambda>(m, t). plan (path_join p m) t) es)"
  let ?s = "s\<lparr>local_files := lay (p, LocalDir) (local_files s)\<rparr>"
  have mk: "make_directory p s = (Ok (), ?s)" by (rule make_directory_run [OF _ p]) (use 2 in simp)
  have rp: "ready w (local_files ?s) (?kids es)"
  proof -
    have "ready w (carried_out [(p, LocalDir)] (local_files s)) (?kids es)" by (rule ready_later) (use 2 in simp)
    then show ?thesis by simp
  qed
  have notin: "p \<notin> fst ` set (?kids es)" using \<open>ready w (local_files s) _\<close> by (auto simp: ready_def)
  let ?load = "\<lambda>fi. case info_kind fi of
         PLAIN \<Rightarrow> load_plain w R (q @ [slash]) p fi
       | DIRECTORY \<Rightarrow> (let localDirectory = path_join p (info_name fi) in
           act_then (make_directory localDirectory)
             (if ends_with_slash (q @ [slash])
              then act_bind (loadTree k' w R ((q @ [slash]) @ slash # info_name fi) p)
                (\<lambda>fs. act_return (localDirectory # fs))
              else loadTree k' w R ((q @ [slash]) @ [slash]) localDirectory))
       | FILE_SYSTEM \<Rightarrow> act_return []"
  have one: "?load fi u = (Ok (map fst (plan (path_join p m) t)), u\<lparr>local_files := carried_out (plan (path_join p m) t) (local_files u)\<rparr>)"
    if mt: "(m, t) \<in> set es" "describes fi (m, t)" "dget (local_files u) p = Some LocalDir"
      "ready w (local_files u) (plan (path_join p m) t)" for fi m t and u :: "'x loader_scheme"
  proof (cases t)
    case (RemoteFile c x)
    have m: "proper_name m" "delivers R (q @ slash # m) c" using mt(1) 2(3) RemoteFile files by auto
    have "writable_at w (local_files u) (path_join p m)"
      using mt(3,4) m(1) p(1) RemoteFile by (auto intro!: ready_writable parent_ready simp: join_not_ending)
    then show ?thesis
      using load_plain_run [of R "q @ [slash]" m c fi x p w u] m p(1) mt(2) RemoteFile by (simp add: describes_def)
  next
    case (RemoteDir us)
    let ?d = "path_join p m"
    have m: "proper_name m" "proper_tree t" using mt(1) 2(3) by auto
    have rq: "\<not> ends_with_slash (q @ slash # slash # m)" using proper_names(4) [OF m(1), of "q @ [slash]"] by simp
    have served: "serves R (q @ slash # slash # m) (m, t)" using mt(1) RemoteDir dirs by simp
    have d: "\<not> ends_with_slash ?d" "parent_exists (local_files u) ?d"
      using m(1) p(1) mt(3) by (auto simp: join_not_ending parent_ready)
    let ?u = "u\<lparr>local_files := lay (?d, LocalDir) (local_files u)\<rparr>"
    have md: "make_directory ?d u = (Ok (), ?u)" by (rule make_directory_run [OF _ d]) (use mt(4) RemoteDir in simp)
    have "?d \<noteq> p" using notin mt(1) RemoteDir by force
    then have "loadTree k' w R (q @ slash # slash # m) p ?u
        = (Ok (listed_files ?d t), ?u\<lparr>local_files := carried_out (plan ?d t) (local_files ?u)\<rparr>)"
      using mt m served rq d p(1) RemoteDir depth_child [OF mt(1)] \<open>depth _ \<le> k\<close> k
      by (intro 2(1)) (auto simp: dget_lay proper_names ready_after_directory)
    then show ?thesis using mt(2) RemoteDir
      by (simp add: describes_def Let_def act_then_run(1) [where m = "make_directory ?d", OF md]
          act_bind_run(1) [where m = "loadTree k' w R (q @ slash # slash # m) p"] listed_files_def lay_twice)
  qed
  have kids: "act_concat ?load fis u = (Ok (map fst (?kids es')), u\<lparr>local_files := carried_out (?kids es') (local_files u)\<rparr>)"
    if "list_all2 describes fis es'" "set es' \<subseteq> set es" "dget (local_files u) p = Some LocalDir"
      "ready w (local_files u) (?kids es')" for fis es' and u :: "'x loader_scheme"
    using that
  proof (induction fis es' arbitrary: u rule: list_all2_induct)
    case (Cons fi fis mt es')
    obtain m t where mt: "mt = (m, t)" by (cases mt)
    let ?ps = "plan (path_join p m) t"
    let ?u = "u\<lparr>local_files := carried_out ?ps (local_files u)\<rparr>"
    have r: "ready w (local_files u) (?ps @ ?kids es')" using Cons.prems(3) mt by simp
    have first: "?load fi u = (Ok (map fst ?ps), ?u)"
      by (rule one) (use Cons.prems(1,2) Cons.hyps(1) ready_split(1) [OF r] mt in auto)
    have "p \<notin> fst ` set ?ps" using notin Cons.prems(1) mt by force
    then have "act_concat ?load fis ?u = (Ok (map fst (?kids es')), ?u\<lparr>local_files := carried_out (?kids es') (local_files ?u)\<rparr>)"
      by (intro Cons.IH) (use Cons.prems ready_later [OF r] carried_out_elsewhere in auto)
    then show ?case
      by (simp only: act_concat.simps act_bind_run(1) [where m = "?load fi", OF first] mt)
        (simp add: act_bind_run(1) [where m = "act_concat ?load fis"])
  qed simp
  have inner: "loadTree (Suc k') w R (q @ [slash]) p ?s
      = (Ok (map fst (?kids es)), ?s\<lparr>local_files := carried_out (?kids es) (local_files ?s)\<rparr>)"
  proof (cases "fis = []")
    case True
    then show ?thesis using fis by (simp add: fi(1))
  next
    case False
    then show ?thesis using kids [OF fis(2) _ _ rp] by (simp add: fis(1))
  qed
  have pn: "path_join lp (info_name fi) = p" using 2(7) fi(3) by simp
  show ?case unfolding k
    by (rule trans [OF loadTree_directory [OF fi(1,2) 2(6) mk [folded pn] inner [folded pn]]])
      (simp add: listed_files_def pn)
qed

end
