(* ===== verification/LoadCopies.thy ===== *)
theory LoadCopies
  imports LoadTrees
begin

text \<open>
  Loading and unloading as the client sees it: \<open>load\<close> of an absolute file name copies the tree that the
  remote file system serves there, and \<open>unload\<close> takes it away again.
\<close>

section \<open>Absolute file names\<close>

definition plain_name :: "string \<Rightarrow> bool" where
  "plain_name n \<longleftrightarrow> proper_name n \<and> n \<noteq> ''.'' \<and> n \<noteq> ''..''"

definition absolute :: "string list \<Rightarrow> string \<Rightarrow> string" where
  "absolute ds n = slash # join_on slash (ds @ [n])"

definition relative :: "string list \<Rightarrow> string" where
  "relative ds = join_on slash ds"

lemma join_on_snoc: "join_on c (ds @ [n]) = (if ds = [] then n else join_on c ds @ c # n)"
  by (induction c ds rule: join_on.induct) auto

lemma proper_split: "proper_name n \<Longrightarrow> slash \<notin> set n"
  by (simp add: proper_name_def)

lemma plain_split: "plain_name n \<Longrightarrow> slash \<notin> set n"
  by (simp add: plain_name_def proper_split)

lemma split_absolute:
  assumes "\<forall>d \<in> set (ds @ [n]). plain_name d"
  shows "split_on slash (absolute ds n) = [] # ds @ [n]"
proof -
  have "split_on slash (join_on slash (ds @ [n])) = ds @ [n]" by (rule split_on_join) (use assms plain_split in blast)+
  then show ?thesis by (simp add: absolute_def)
qed

lemma norm_components:
  "\<forall>d \<in> set cs. plain_name d \<Longrightarrow> foldl (norm_component True) acc cs = acc @ cs"
  by (induction cs arbitrary: acc) (auto simp: norm_component_def plain_name_def proper_name_def)

lemma hd_join: "plain_name d \<Longrightarrow> \<exists>c s. join_on slash (d # ds) = c # s \<and> c \<noteq> slash"
  by (cases ds; cases d) (auto simp: plain_name_def proper_name_def)

lemma normpath_absolute:
  assumes "\<forall>d \<in> set (ds @ [n]). plain_name d"
  shows "normpath (absolute ds n) = absolute ds n"
proof -
  obtain c s where c: "join_on slash (ds @ [n]) = c # s" "c \<noteq> slash"
    using hd_join [of "hd (ds @ [n])" "tl (ds @ [n])"] assms by (cases ds) auto
  have f: "foldl (norm_component True) [] (split_on slash (absolute ds n)) = ds @ [n]"
    using norm_components [OF assms] by (simp add: split_absolute [OF assms] norm_component_def)
  have "take 2 (absolute ds n) \<noteq> ''//''" "starts_with_slash (absolute ds n)" "absolute ds n \<noteq> []"
    using c by (simp_all add: absolute_def starts_with_slash_def)
  moreover have "replicate 1 slash @ join_on slash (ds @ [n]) = absolute ds n" by (simp add: absolute_def)
  ultimately show ?thesis by (simp only: normpath_def Let_def if_False if_True simp_thms zero_less_one f)
qed

lemma relative_not_ending: "\<forall>d \<in> set ds. plain_name d \<Longrightarrow> \<not> ends_with_slash (relative ds)"
proof (cases ds rule: rev_cases)
  case Nil then show ?thesis by (simp add: relative_def ends_with_slash_def)
next
  case (snoc es n)
  assume "\<forall>d \<in> set ds. plain_name d"
  then have "proper_name n" using snoc by (simp add: plain_name_def)
  then show ?thesis by (simp add: snoc relative_def join_on_snoc proper_names)
qed

lemma relative_Nil_iff: "\<forall>d \<in> set ds. plain_name d \<Longrightarrow> relative ds = [] \<longleftrightarrow> ds = []"
  by (cases ds) (use hd_join [of "hd ds" "tl ds"] in \<open>auto simp: relative_def\<close>)

lemma relative_snoc:
  assumes "\<forall>d \<in> set (ds @ [n]). plain_name d"
  shows "relative (ds @ [n]) = path_join (relative ds) n"
proof -
  have d: "\<forall>d \<in> set ds. plain_name d" and n: "proper_name n" using assms by (simp_all add: plain_name_def)
  show ?thesis
    by (simp only: join_proper [OF n relative_not_ending [OF d]] relative_Nil_iff [OF d]) (simp add: relative_def join_on_snoc)
qed

lemma path_split_absolute:
  assumes "\<forall>d \<in> set (ds @ [n]). plain_name d"
  shows "path_split (absolute ds n) = (slash # relative ds, n)"
proof -
  have n: "slash \<notin> set n" using assms by (simp add: plain_name_def proper_split)
  show ?thesis
  proof (cases "ds = []")
    case True
    have "rindex slash ([] @ slash # n) = Some (length ([] :: string))" by (rule rindex_last) (rule n)
    then show ?thesis using True by (simp add: absolute_def path_split_def relative_def)
  next
    case False
    have a: "absolute ds n = (slash # relative ds) @ slash # n"
      using False by (simp add: absolute_def join_on_snoc relative_def)
    have r: "\<not> ends_with_slash (relative ds)" by (rule relative_not_ending) (use assms in simp)
    obtain q c where q: "relative ds = q @ [c]" "c \<noteq> slash"
    proof -
      obtain d s where "relative ds = d # s" "d \<noteq> slash"
        using hd_join [of "hd ds" "tl ds"] False assms by (auto simp: relative_def)
      then have "relative ds = butlast (relative ds) @ [last (relative ds)]" "last (relative ds) \<noteq> slash"
        using r by (simp_all add: ends_with_slash_def)
      then show thesis by (rule that)
    qed
    have "rindex slash (absolute ds n) = Some (length (slash # relative ds))" unfolding a by (rule rindex_last) (rule n)
    then show ?thesis unfolding a path_split_def by (simp add: q rstrip_slashes_def)
  qed
qed

lemma basename_absolute: "\<forall>d \<in> set (ds @ [n]). plain_name d \<Longrightarrow> basename (absolute ds n) = n"
  by (simp add: basename_def path_split_absolute)


section \<open>Loading\<close>

fun dirs_plan :: "string \<Rightarrow> string list \<Rightarrow> (string \<times> node) list" where
  "dirs_plan p [] = []"
| "dirs_plan p (d # ds) = (path_join p d, LocalDir) # dirs_plan (path_join p d) ds"

lemma relative_Cons_split: "make_load_point p (split_on slash (relative ds)) = make_load_point p ds"
  if "\<forall>d \<in> set ds. plain_name d"
proof (cases "ds = []")
  case True
  then show ?thesis by (simp add: relative_def fun_eq_iff)
next
  case False
  have "split_on slash (relative ds) = ds"
    unfolding relative_def by (rule split_on_join) (use that False in \<open>auto simp: plain_name_def proper_split\<close>)
  then show ?thesis by simp
qed

lemma make_load_point_run:
  assumes "\<forall>d \<in> set ds. plain_name d" "\<not> ends_with_slash p" "p = [] \<or> dget (local_files s) p = Some LocalDir"
    and "ready w (local_files s) (dirs_plan p ds)"
  shows "make_load_point p ds s = (Ok (foldl path_join p ds), s\<lparr>local_files := carried_out (dirs_plan p ds) (local_files s)\<rparr>)"
  using assms
proof (induction ds arbitrary: p s)
  case (Cons d ds)
  let ?d = "path_join p d" and ?s = "s\<lparr>local_files := lay (path_join p d, LocalDir) (local_files s)\<rparr>"
  have d: "proper_name d" "d \<noteq> []" using Cons.prems(1) by (simp_all add: plain_name_def proper_name_def)
  have mk: "make_directory ?d s = (Ok (), ?s)"
    by (rule make_directory_run) (use Cons.prems d in \<open>simp_all add: join_not_ending parent_ready\<close>)
  have "ready w (carried_out [(?d, LocalDir)] (local_files s)) (dirs_plan ?d ds)"
    by (rule ready_later) (use Cons.prems(4) in simp)
  then have "make_load_point ?d ds ?s
      = (Ok (foldl path_join ?d ds), ?s\<lparr>local_files := carried_out (dirs_plan ?d ds) (local_files ?s)\<rparr>)"
    by (intro Cons.IH) (use Cons.prems d in \<open>simp_all add: join_not_ending\<close>)
  then show ?case by (simp add: d(2) Let_def act_then_run(1) [where m = "make_directory ?d", OF mk])
qed simp

lemma foldl_join: "\<forall>d \<in> set ds. plain_name d \<Longrightarrow> foldl path_join [] ds = relative ds"
proof (induction ds rule: rev_induct)
  case (snoc d ds)
  then show ?case using relative_snoc [of ds d] by simp
qed (simp add: relative_def)

lemma carried_out_member:
  assumes "ready w fs ps" "(q, LocalDir) \<in> set ps"
  shows "dget (carried_out ps fs) q = Some LocalDir"
proof -
  obtain xs ys where ps: "ps = xs @ (q, LocalDir) # ys" using split_list [OF assms(2)] by blast
  then have "q \<notin> fst ` set ys" using assms(1) by (auto simp: ready_def)
  then show ?thesis by (simp add: ps carried_out_elsewhere)
qed

lemma dirs_plan_last: "ds \<noteq> [] \<Longrightarrow> (foldl path_join p ds, LocalDir) \<in> set (dirs_plan p ds)"
  by (induction p ds rule: dirs_plan.induct) (auto, case_tac ds, auto)

definition whole_plan :: "string list \<Rightarrow> string \<Rightarrow> remote_tree \<Rightarrow> (string \<times> node) list" where
  "whole_plan ds n t = dirs_plan [] ds @ plan (relative (ds @ [n])) t"

definition in_use :: "'x loader_scheme \<Rightarrow> bool" where
  "in_use d \<longleftrightarrow> \<not> isLocked d \<and> \<not> isDisabled d"

lemma if_return: "(if b then act_return x else act_return False) = act_return (b \<and> x)"
  by (cases b) simp_all

lemma modTime_served: "serves R q nt \<Longrightarrow> \<exists>m. modTime R q = act_return m"
proof -
  assume "serves R q nt"
  then obtain fi where "list_files R q = Returned [fi]"
    by (cases nt; cases "snd nt") (auto elim: serves_directory)
  then show ?thesis by (auto simp: modTime_def)
qed

lemma load_cached_run:
  fixes s :: "'x loader_scheme"
  assumes "\<forall>d \<in> set (ds @ [n]). plain_name d" "serves R (absolute ds n) (n, t)" "proper_tree t" "depth t \<le> k"
    and "ready w (local_files s) (whole_plan ds n t)" "dget (loadedFiles s) (absolute ds n) = None"
  shows "load_cached k w R (absolute ds n) s = (Ok (relative (ds @ [n])),
    s\<lparr>local_files := carried_out (whole_plan ds n t) (local_files s),
      loadedFiles := dput (absolute ds n) (1, listed_files (relative (ds @ [n])) t) (loadedFiles s)\<rparr>)"
proof -
  let ?lp = "relative ds" and ?f = "absolute ds n" and ?p = "relative (ds @ [n])"
  let ?s = "s\<lparr>local_files := carried_out (dirs_plan [] ds) (local_files s)\<rparr>"
  note plain = assms(1)
  have pds: "\<forall>d \<in> set ds. plain_name d" and n: "proper_name n" using plain by (simp_all add: plain_name_def)
  have p: "?p = path_join ?lp n" by (rule relative_snoc [OF plain])
  have lp: "\<not> ends_with_slash ?lp" by (rule relative_not_ending [OF pds])
  have r: "ready w (local_files s) (dirs_plan [] ds @ plan ?p t)" using assms(5) by (simp add: whole_plan_def)
  have mk: "make_load_point [] (split_on slash (tl (fst (path_split (normpath ?f))))) s = (Ok ?lp, ?s)"
    using make_load_point_run [OF pds, of "[]" s w] ready_split(1) [OF r]
    by (simp add: normpath_absolute [OF plain] path_split_absolute [OF plain] relative_Cons_split [OF pds]
        foldl_join [OF pds] ends_with_slash_def)
  have lpd: "?lp = [] \<or> dget (local_files ?s) ?lp = Some LocalDir"
  proof (cases "ds = []")
    case False
    then show ?thesis
      using carried_out_member [OF ready_split(1) [OF r], of ?lp] dirs_plan_last [of ds "[]"] by (simp add: foldl_join [OF pds])
  qed (simp add: relative_def)
  have fe: "\<not> ends_with_slash ?f"
    using proper_names(4) [OF n, of "slash # relative ds"] proper_names(4) [OF n, of "[]"]
    by (cases "ds = []") (simp_all add: absolute_def join_on_snoc relative_def)
  have ld: "loadTree k w R ?f ?lp ?s = (Ok (listed_files ?p t), ?s\<lparr>local_files := carried_out (plan ?p t) (local_files ?s)\<rparr>)"
    by (rule loadTree_entry [OF assms(2,3) n lp fe p lpd _ assms(4)]) (use ready_later [OF r] in simp)
  have rest: "(act_bind (if (refCnt :: int) = 0 \<or> \<not> c then loadTree k w R (normpath ?f) ?lp else act_return old)
       (\<lambda>loaded. act_then (act_update (\<lambda>d. d\<lparr>loadedFiles := dput ?f (refCnt + 1, loaded) (loadedFiles d)\<rparr>)) (act_return q))) ?s
    = (Ok q, ?s\<lparr>local_files := carried_out (plan ?p t) (local_files ?s),
         loadedFiles := dput ?f (1, listed_files ?p t) (loadedFiles ?s)\<rparr>)" if "refCnt = 0" for refCnt c old q
    using that by (simp add: normpath_absolute [OF plain] act_bind_run(1) [where m = "loadTree k w R ?f ?lp", OF ld])
  show ?thesis
  proof -
    obtain m where m: "modTime R ?f = (act_return m :: ('x loader_scheme, rat) action)"
      using modTime_served [OF assms(2)] by blast
    let ?exist = "path_exists (local_files ?s) (path_join ?lp (basename ?f)) \<and> list_all (path_exists (local_files ?s)) []"
    obtain c where c: "(if ?exist then act_bind (modTime R ?f) (\<lambda>t. act_return (\<not> t > modified_at w (path_join ?lp (basename ?f))))
        else act_return False) = (act_return c :: ('x loader_scheme, bool) action)"
      by (simp only: m act_bind_simps(1) if_return)
    have whole: "carried_out (plan ?p t) (local_files ?s) = carried_out (whole_plan ds n t) (local_files s)"
      by (simp add: whole_plan_def)
    have entry: "dget (loadedFiles ?s) ?f = None" by (simp add: assms(6))
    show ?thesis unfolding load_cached_def
      by (rule trans [OF act_bind_run(1) [where m = "make_load_point _ _", OF mk]])
        (simp only: act_bind_simps(3) entry option.case prod.case Let_def c act_bind_simps(1) rest [OF refl] whole,
          simp add: basename_absolute [OF plain] p)
  qed
qed


lemma carried_out_file:
  assumes "ready w fs ps" "(q, LocalFile c x) \<in> set ps"
  shows "\<exists>y. dget (carried_out ps fs) q = Some (LocalFile c (y \<or> x))"
proof -
  obtain xs ys where ps: "ps = xs @ (q, LocalFile c x) # ys" using split_list [OF assms(2)] by blast
  then have "q \<notin> fst ` set ys" using assms(1) by (auto simp: ready_def)
  then show ?thesis by (auto simp: ps carried_out_elsewhere lay_def split: option.split node.split)
qed

definition node_present :: "files \<Rightarrow> string \<times> node \<Rightarrow> bool" where
  "node_present fs pn \<longleftrightarrow> (case snd pn of
      LocalDir \<Rightarrow> dget fs (fst pn) = Some LocalDir
    | LocalFile c x \<Rightarrow> dget fs (fst pn) = Some (LocalFile c x) \<or> dget fs (fst pn) = Some (LocalFile c True))"

lemma carried_out_present: "ready w fs ps \<Longrightarrow> pn \<in> set ps \<Longrightarrow> node_present (carried_out ps fs) pn"
proof (cases "snd pn")
  case LocalDir
  assume "ready w fs ps" "pn \<in> set ps"
  then show ?thesis using LocalDir carried_out_member [of w fs ps "fst pn"] by (cases pn) (simp add: node_present_def)
next
  case (LocalFile c x)
  assume "ready w fs ps" "pn \<in> set ps"
  then obtain y where "dget (carried_out ps fs) (fst pn) = Some (LocalFile c (y \<or> x))"
    using LocalFile carried_out_file [of w fs ps "fst pn" c x] by (cases pn) auto
  then show ?thesis using LocalFile by (cases y) (simp_all add: node_present_def)
qed

lemma load_executable_run:
  assumes "in_use s" "load_cached k w R (absolute ds n) s = (Ok p, t)"
  shows "LoadableDevice_load k w R (absolute ds n) EXECUTABLE s = (Ok (), t)"
  using assms(1) unfolding LoadableDevice_load_def in_use_def
  by (intro act_catch_run(1)) (simp add: starts_with_slash_def absolute_def [of ds n, symmetric] act_when_def
      act_bind_run(1) [where m = "load_cached k w R (absolute ds n)", OF assms(2)], simp add: absolute_def)

text \<open>
  C8: Loading a file name at which the remote file system serves a file or a directory tree, in however
  many parts it gives the contents, makes every directory and file of the tree below the working
  directory, with the contents of the remote one and executable when that is, touches nothing else, and
  counts one reference. Nothing in the way may be a file where a directory is to be or the reverse, or a file that
  is being executed.
\<close>

theorem load_copies_remote_tree:
  assumes "\<forall>d \<in> set (ds @ [n]). plain_name d" "serves R (absolute ds n) (n, t)" "proper_tree t" "depth t \<le> limit"
    and "ready w (local_files s) (whole_plan ds n t)" "dget (loadedFiles s) (absolute ds n) = None" "in_use s"
  shows "\<exists>fs. LoadableDevice_load limit w R (absolute ds n) EXECUTABLE s =
      (Ok (), s\<lparr>local_files := fs,
        loadedFiles := dput (absolute ds n) (1, listed_files (relative (ds @ [n])) t) (loadedFiles s)\<rparr>) \<and>
    (\<forall>pn \<in> set (whole_plan ds n t). node_present fs pn) \<and>
    (\<forall>q. q \<notin> fst ` set (whole_plan ds n t) \<longrightarrow> dget fs q = dget (local_files s) q)"
  using load_executable_run [OF assms(7) load_cached_run [OF assms(1-6)]]
  by (intro exI [of _ "carried_out (whole_plan ds n t) (local_files s)"])
    (simp add: carried_out_present [OF assms(5)] carried_out_elsewhere)

end
