(* ===== verification/Unloading.thy ===== *)
theory Unloading
  imports LoadCopies
begin

text \<open>
  \<open>unload\<close> of the last reference removes what \<open>load\<close> made, and the compiled files that Python has left
  beside modules in the meantime; the count of references over a run of loads and unloads.
\<close>

section \<open>The order of a plan\<close>

lemma rindex_bound: "rindex c s = Some i \<Longrightarrow> i < length s"
  by (induction s arbitrary: i) (auto split: option.splits if_splits)

lemma rindex_append: "c \<notin> set e \<Longrightarrow> rindex c (p @ e) = rindex c p"
  by (induction p) (auto simp: rindex_None split: option.split)

lemma parent_append: "slash \<notin> set e \<Longrightarrow> parent (p @ e) = parent p"
  using rindex_bound [of slash p] by (auto simp: parent_def path_split_def rindex_append Let_def split: option.split)

lemma length_parent: "length (parent p) \<le> length p"
  by (auto simp: parent_def path_split_def Let_def rstrip_slashes_def split: option.split)
    (metis length_dropWhile_le length_rev length_take min.cobounded1 order_trans)

lemma rindex_at: "rindex c s = Some i \<Longrightarrow> s ! i = c"
  by (induction s arbitrary: i) (auto split: option.splits if_splits)

lemma parent_shorter:
  assumes "p \<noteq> []" "\<not> ends_with_slash p"
  shows "length (parent p) < length p"
proof (cases "rindex slash p")
  case None
  then show ?thesis using assms(1) by (simp add: parent_def path_split_def)
next
  case (Some i)
  have "Suc i \<noteq> length p"
  proof
    assume "Suc i = length p"
    then have "length p - 1 = i" by simp
    then show False using rindex_at [OF Some] assms by (simp add: ends_with_slash_def last_conv_nth)
  qed
  then have "Suc i < length p" using rindex_bound [OF Some] by simp
  moreover have "length (parent p) \<le> Suc i"
    using Some length_dropWhile_le [of "\<lambda>c. c = slash" "rev (take (Suc i) p)"]
    by (auto simp: parent_def path_split_def Let_def rstrip_slashes_def)
  ultimately show ?thesis by simp
qed

lemma join_longer: "proper_name n \<Longrightarrow> \<not> ends_with_slash p \<Longrightarrow> length p < length (path_join p n)"
  by (simp add: join_proper proper_name_def)

lemma plan_paths:
  "proper_tree t \<Longrightarrow> \<not> ends_with_slash p \<Longrightarrow> q \<in> fst ` set (plan p t) \<Longrightarrow>
    \<not> ends_with_slash q \<and> length p \<le> length q \<and> (q = p \<or> parent q \<in> fst ` set (plan p t))"
proof (induction p t rule: plan.induct)
  case (2 p es)
  show ?case
  proof (cases "q = p")
    case False
    then obtain m t where m: "(m, t) \<in> set es" "q \<in> fst ` set (plan (path_join p m) t)" using 2(4) by auto
    have n: "proper_name m" "proper_tree t" using 2(2) m(1) by auto
    have i: "\<not> ends_with_slash q \<and> length (path_join p m) \<le> length q \<and>
      (q = path_join p m \<or> parent q \<in> fst ` set (plan (path_join p m) t))"
      by (rule 2(1) [OF m(1) refl n(2) _ m(2)]) (rule join_not_ending [OF n(1) 2(3)])
    have sub: "fst ` set (plan (path_join p m) t) \<subseteq> fst ` set (plan p (RemoteDir es))" using m(1) by force
    show ?thesis
    proof (cases "q = path_join p m")
      case True
      then have "parent q = p" using parent_join [OF n(1) 2(3)] by simp
      then show ?thesis using i join_longer [OF n(1) 2(3)] by simp
    next
      case False
      then show ?thesis using i sub join_longer [OF n(1) 2(3)] by auto
    qed
  qed (use 2(3) in simp)
qed simp

definition parents_first :: "(string \<times> node) list \<Rightarrow> bool" where
  "parents_first ps \<longleftrightarrow> sorted_wrt (\<lambda>a b. parent (fst a) \<noteq> fst b) ps"

lemma plan_parents_first:
  assumes "proper_tree t" "\<not> ends_with_slash p" "distinct (map fst (plan p t))"
  shows "parents_first (plan p t)"
  using assms
proof (induction p t rule: plan.induct)
  case (2 p es)
  let ?kids = "\<lambda>es. concat (map (\<lambda>(m, t). plan (path_join p m) t) es)"
  have longer: "length p < length q" if q: "q \<in> fst ` set (?kids es)" for q
  proof -
    obtain m t where m: "(m, t) \<in> set es" "q \<in> fst ` set (plan (path_join p m) t)" using q by auto
    have n: "proper_name m" "proper_tree t" using 2(2) m(1) by auto
    from plan_paths [OF n(2) join_not_ending [OF n(1) 2(3)] m(2)] join_longer [OF n(1) 2(3)] show ?thesis by linarith
  qed
  have "parents_first (?kids es')" if "set es' \<subseteq> set es" "distinct (map fst (?kids es'))" for es'
    using that
  proof (induction es')
    case Nil then show ?case by (simp add: parents_first_def)
  next
    case (Cons mt es')
    obtain m t where mt: "mt = (m, t)" by (cases mt)
    let ?ps = "plan (path_join p m) t"
    have m: "(m, t) \<in> set es" "proper_name m" "proper_tree t" using Cons.prems(1) 2(2) mt by auto
    have d: "distinct (map fst ?ps)" "distinct (map fst (?kids es'))" "fst ` set ?ps \<inter> fst ` set (?kids es') = {}"
      using Cons.prems(2) mt by auto
    note j = join_not_ending [OF m(2) 2(3)]
    have first: "parents_first ?ps" by (rule 2(1) [OF m(1) refl m(3) j d(1)])
    have rest: "parents_first (?kids es')" by (rule Cons.IH) (use Cons.prems(1) d(2) in simp_all)
    have "parent (fst a) \<noteq> fst b" if ab: "a \<in> set ?ps" "b \<in> set (?kids es')" for a b
    proof -
      have "b \<in> set (?kids es)" using ab(2) Cons.prems(1) by auto
      then have "length p < length (fst b)" by (intro longer) simp
      then have "fst b \<noteq> p" by auto
      moreover have "fst a = path_join p m \<or> parent (fst a) \<in> fst ` set ?ps"
        using plan_paths [OF m(3) j, of "fst a"] ab(1) by auto
      moreover have "fst b \<notin> fst ` set ?ps" using d(3) ab(2) by (metis disjoint_iff imageI)
      ultimately show ?thesis using parent_join [OF m(2) 2(3)] by metis
    qed
    then show ?case using first rest by (simp add: mt parents_first_def sorted_wrt_append)
  qed
  moreover have "parent p \<noteq> fst b" if "b \<in> set (?kids es)" for b
    using longer [of "fst b"] that length_parent [of p] by force
  ultimately show ?case using 2(4) by (simp add: parents_first_def)
qed (simp add: parents_first_def)


section \<open>Removing what was made\<close>

definition ends_py :: "string \<Rightarrow> bool" where
  "ends_py p \<longleftrightarrow> drop (length p - 3) p = ''.py''"

text \<open>The compiled files that belong to the modules of a plan.\<close>

definition compiled :: "(string \<times> node) list \<Rightarrow> string set" where
  "compiled ps = {p @ ''c'' | p c x. (p, LocalFile c x) \<in> set ps \<and> ends_py p}"

text \<open>What \<open>fs\<close> holds beyond \<open>base\<close>: the plan, perhaps without some of its files, and compiled files.\<close>

definition left_over :: "files \<Rightarrow> (string \<times> node) list \<Rightarrow> files \<Rightarrow> bool" where
  "left_over base ps fs \<longleftrightarrow>
     (\<forall>q. q \<notin> fst ` set ps \<union> compiled ps \<longrightarrow> dget fs q = dget base q) \<and>
     (\<forall>q. (q, LocalDir) \<in> set ps \<longrightarrow> dget fs q = Some LocalDir) \<and>
     (\<forall>q \<in> compiled ps. dget fs q \<noteq> Some LocalDir) \<and>
     (\<forall>q c x. (q, LocalFile c x) \<in> set ps \<longrightarrow> dget fs q \<noteq> Some LocalDir)"

definition removable :: "files \<Rightarrow> (string \<times> node) list \<Rightarrow> bool" where
  "removable base ps \<longleftrightarrow> distinct (map fst ps) \<and> parents_first ps \<and>
     (\<forall>q \<in> fst ` set ps \<union> compiled ps. dget base q = None) \<and>
     (\<forall>q. dget base q \<noteq> None \<longrightarrow> parent q \<notin> fst ` set ps) \<and>
     (\<forall>q \<in> compiled ps. (q, LocalDir) \<notin> set ps) \<and> (\<forall>q \<in> fst ` set ps. q \<noteq> [] \<and> \<not> ends_with_slash q)"

lemma compiled_append [simp]: "compiled (ps @ qs) = compiled ps \<union> compiled qs"
  by (auto simp: compiled_def)

lemma compiled_one [simp]:
  "compiled [(p, LocalDir)] = {}" "compiled [(p, LocalFile c x)] = (if ends_py p then {p @ ''c''} else {})" "compiled [] = {}"
  by (auto simp: compiled_def)

lemma parent_compiled: "q \<in> compiled ps \<Longrightarrow> \<exists>p \<in> fst ` set ps. parent q = parent p"
  by (force simp: compiled_def parent_append)

lemma removable_prefix: "removable base (ps @ qs) \<Longrightarrow> removable base ps"
  by (auto simp: removable_def parents_first_def sorted_wrt_append)

lemma quiet_remove:
  assumes "\<not> ends_with_slash p" "dget (local_files s) p \<noteq> Some LocalDir"
  shows "quietly (os_remove p) s = (Ok (), s\<lparr>local_files := dpop p (local_files s)\<rparr>)"
proof (cases "dget (local_files s) p")
  case None
  then have "dpop p (local_files s) = local_files s"
    by (induction "local_files s" rule: list.induct) (auto simp: dpop_def dget_def delete_idem map_of_eq_None_iff image_iff)
  then show ?thesis using None assms(1)
    by (simp add: quietly_def os_remove_def is_file_def lookup_plain act_catch_def)
next
  case (Some n)
  then obtain c x where "n = LocalFile c x" using assms(2) by (cases n) auto
  then show ?thesis using Some assms(1)
    by (simp add: quietly_def os_remove_def is_file_def lookup_plain act_catch_def drop_node_def)
qed

lemma remove_directory_run:
  assumes "\<not> ends_with_slash p" "dget (local_files s) p = Some LocalDir"
    and "\<forall>q. dget (local_files s) q \<noteq> None \<longrightarrow> parent q \<noteq> p"
  shows "remove_loaded p s = (Ok (), s\<lparr>local_files := dpop p (local_files s)\<rparr>)"
proof -
  have "filter (\<lambda>q. parent q = p) (dkeys (local_files s)) = []"
    using assms(3) dget_None_iff [of "local_files s"] by (auto simp: filter_empty_conv)
  then have "is_dir (local_files s) p" "listdir (local_files s) p = []"
    using assms(1,2) by (simp_all add: is_dir_def lookup_plain listdir_def)
  then show ?thesis by (simp add: remove_loaded_def quietly_def os_rmdir_def act_catch_def drop_node_def)
qed

lemma remove_file_run:
  assumes "\<not> ends_with_slash p" "dget (local_files s) p \<noteq> Some LocalDir"
    and "ends_py p \<Longrightarrow> dget (local_files s) (p @ ''c'') \<noteq> Some LocalDir"
  shows "remove_loaded p s = (Ok (), s\<lparr>local_files :=
    (if ends_py p then dpop (p @ ''c'') (dpop p (local_files s)) else dpop p (local_files s))\<rparr>)"
proof -
  have n: "\<not> is_dir (local_files s) p" using assms(1,2) by (simp add: is_dir_def lookup_plain)
  let ?s = "s\<lparr>local_files := dpop p (local_files s)\<rparr>"
  have q: "quietly (os_remove (p @ ''c'')) ?s = (Ok (), ?s\<lparr>local_files := dpop (p @ ''c'') (local_files ?s)\<rparr>)" if "ends_py p"
    by (rule quiet_remove) (use that assms(3) in \<open>auto simp: ends_with_slash_def\<close>)
  show ?thesis
    using n q by (auto simp: remove_loaded_def act_then_run(1) [where m = "quietly (os_remove p)", OF quiet_remove [OF assms(1,2)]]
        act_when_def ends_py_def)
qed


lemma left_over_directory:
  assumes "removable base (ps @ [(p, LocalDir)])" "left_over base (ps @ [(p, LocalDir)]) (local_files s)"
  shows "remove_loaded p s = (Ok (), s\<lparr>local_files := dpop p (local_files s)\<rparr>)"
    and "left_over base ps (dpop p (local_files s))"
proof -
  have p: "p \<notin> fst ` set ps" "dget base p = None" "\<forall>a \<in> set ps. parent (fst a) \<noteq> p" "\<not> ends_with_slash p" "p \<notin> compiled ps"
    using assms(1) by (auto simp: removable_def parents_first_def sorted_wrt_append)
  have "parent q \<noteq> p" if q: "dget (local_files s) q \<noteq> None" for q
  proof -
    consider "q \<in> fst ` set ps" | "q = p" | "q \<in> compiled ps" | "q \<notin> fst ` set (ps @ [(p, LocalDir)]) \<union> compiled (ps @ [(p, LocalDir)])"
      by auto
    then show ?thesis
    proof cases
      case 2
      then show ?thesis using parent_shorter [of p] p(4) assms(1) by (auto simp: removable_def)
    next
      case 4
      then have "dget base q \<noteq> None" using assms(2) q by (auto simp: left_over_def)
      then show ?thesis using assms(1) by (auto simp: removable_def)
    qed (use p(3) parent_compiled in force)+
  qed
  moreover have "dget (local_files s) p = Some LocalDir" using assms(2) by (auto simp: left_over_def)
  ultimately show "remove_loaded p s = (Ok (), s\<lparr>local_files := dpop p (local_files s)\<rparr>)"
    by (intro remove_directory_run) (use p(4) in auto)
  show "left_over base ps (dpop p (local_files s))"
    using assms(2) p(1,2,5) unfolding left_over_def by (auto simp: image_iff)
qed

lemma left_over_file:
  assumes "removable base (ps @ [(p, LocalFile c x)])" "left_over base (ps @ [(p, LocalFile c x)]) (local_files s)"
  shows "\<exists>fs. remove_loaded p s = (Ok (), s\<lparr>local_files := fs\<rparr>) \<and> left_over base ps fs"
proof -
  let ?fs = "if ends_py p then dpop (p @ ''c'') (dpop p (local_files s)) else dpop p (local_files s)"
  have p: "p \<notin> fst ` set ps" "dget base p = None" "\<not> ends_with_slash p" "ends_py p \<Longrightarrow> dget base (p @ ''c'') = None"
    "ends_py p \<Longrightarrow> (p @ ''c'', LocalDir) \<notin> set ps"
    using assms(1) by (auto simp: removable_def)
  have d: "dget (local_files s) p \<noteq> Some LocalDir" "ends_py p \<Longrightarrow> dget (local_files s) (p @ ''c'') \<noteq> Some LocalDir"
    using assms(2) by (auto simp: left_over_def)
  have "left_over base ps ?fs"
    using assms(2) p(1,2,4,5) unfolding left_over_def by (auto simp: image_iff)
  then show ?thesis using remove_file_run [OF p(3) d] by blast
qed

lemma remove_all:
  assumes "removable base ps" "left_over base ps (local_files s)"
  shows "\<exists>fs. act_each remove_loaded (rev (map fst ps)) s = (Ok (), s\<lparr>local_files := fs\<rparr>) \<and> (\<forall>q. dget fs q = dget base q)"
  using assms
proof (induction ps arbitrary: s rule: rev_induct)
  case Nil
  then show ?case by (intro exI [of _ "local_files s"]) (simp add: left_over_def)
next
  case (snoc pn ps)
  obtain p n where pn: "pn = (p, n)" by (cases pn)
  have r: "removable base ps" by (rule removable_prefix [OF snoc.prems(1)])
  obtain fs where fs: "remove_loaded p s = (Ok (), s\<lparr>local_files := fs\<rparr>)" "left_over base ps fs"
  proof (cases n)
    case LocalDir
    then show thesis using left_over_directory [OF snoc.prems [unfolded pn LocalDir]] that by blast
  next
    case (LocalFile c x)
    then show thesis using left_over_file [OF snoc.prems [unfolded pn LocalFile]] that by blast
  qed
  obtain gs where "act_each remove_loaded (rev (map fst ps)) (s\<lparr>local_files := fs\<rparr>) = (Ok (), s\<lparr>local_files := fs\<rparr>\<lparr>local_files := gs\<rparr>)"
    "\<forall>q. dget gs q = dget base q" using snoc.IH [OF r, of "s\<lparr>local_files := fs\<rparr>"] fs(2) by auto
  then show ?case by (intro exI [of _ gs]) (simp add: pn act_then_run(1) [where m = "remove_loaded p", OF fs(1)])
qed


section \<open>Unloading undoes loading\<close>

text \<open>
  Of a tree, everything is removed except the directories of the load point and, when the tree is a
  directory, that directory itself, which \<open>_loadTree\<close> does not put on its list.
\<close>

definition tree_items :: "string \<Rightarrow> remote_tree \<Rightarrow> (string \<times> node) list" where
  "tree_items p t = (case t of RemoteFile c x \<Rightarrow> plan p t | RemoteDir es \<Rightarrow> tl (plan p t))"

definition kept_dirs :: "string list \<Rightarrow> string \<Rightarrow> remote_tree \<Rightarrow> (string \<times> node) list" where
  "kept_dirs ds n t = dirs_plan [] ds @ (case t of RemoteFile c x \<Rightarrow> [] | RemoteDir es \<Rightarrow> [(relative (ds @ [n]), LocalDir)])"

definition fresh_place :: "files \<Rightarrow> string list \<Rightarrow> string \<Rightarrow> remote_tree \<Rightarrow> bool" where
  "fresh_place fs ds n t \<longleftrightarrow> (let items = tree_items (relative (ds @ [n])) t in
     (\<forall>q \<in> fst ` set items \<union> compiled items. dget fs q = None) \<and>
     (\<forall>q \<in> compiled items. (q, LocalDir) \<notin> set (whole_plan ds n t)) \<and>
     (\<forall>q. dget fs q \<noteq> None \<longrightarrow> parent_exists fs q))"

lemma whole_plan_split: "whole_plan ds n t = kept_dirs ds n t @ tree_items (relative (ds @ [n])) t"
  by (simp add: whole_plan_def kept_dirs_def tree_items_def split: remote_tree.split)

lemma listed_items: "listed_files p t = map fst (tree_items p t)"
  by (simp add: listed_files_def tree_items_def split: remote_tree.split)

lemma dirs_plan_nodes: "pn \<in> set (dirs_plan p ds) \<Longrightarrow> snd pn = LocalDir"
  by (induction p ds rule: dirs_plan.induct) auto

lemma kept_nodes: "pn \<in> set (kept_dirs ds n t) \<Longrightarrow> snd pn = LocalDir"
  by (auto simp: kept_dirs_def dest: dirs_plan_nodes split: remote_tree.splits)

lemma dirs_plan_parents:
  "\<forall>d \<in> set ds. plain_name d \<Longrightarrow> \<not> ends_with_slash p \<Longrightarrow> q \<in> fst ` set (dirs_plan p ds) \<Longrightarrow>
    parent q = p \<or> parent q \<in> fst ` set (dirs_plan p ds)"
proof (induction p ds rule: dirs_plan.induct)
  case (2 p d ds)
  have d: "proper_name d" using 2(2) by (simp add: plain_name_def)
  show ?case
  proof (cases "q = path_join p d")
    case True
    then show ?thesis using parent_join [OF d 2(3)] by simp
  next
    case False
    then have "q \<in> fst ` set (dirs_plan (path_join p d) ds)" using 2(4) by auto
    then show ?thesis using 2(1) [OF _ join_not_ending [OF d 2(3)]] 2(2) by auto
  qed
qed simp

lemma kept_parents:
  assumes "\<forall>d \<in> set (ds @ [n]). plain_name d" "q \<in> fst ` set (kept_dirs ds n t)"
  shows "parent q = [] \<or> parent q \<in> fst ` set (kept_dirs ds n t)"
proof -
  have ds: "\<forall>d \<in> set ds. plain_name d" and n: "proper_name n" using assms(1) by (simp_all add: plain_name_def)
  consider "q \<in> fst ` set (dirs_plan [] ds)" | "q = relative (ds @ [n])"
    using assms(2) by (auto simp: kept_dirs_def split: remote_tree.splits)
  then show ?thesis
  proof cases
    case 1
    then show ?thesis using dirs_plan_parents [OF ds _ 1] by (auto simp: kept_dirs_def ends_with_slash_def)
  next
    case 2
    then have "parent q = relative ds"
      using relative_snoc [OF assms(1)] parent_join [OF n relative_not_ending [OF ds]] by simp
    then show ?thesis
      using dirs_plan_last [of ds "[]"] foldl_join [OF ds] by (cases "ds = []") (force simp: relative_def kept_dirs_def)+
  qed
qed

lemma items_removable:
  assumes "\<forall>d \<in> set (ds @ [n]). plain_name d" "proper_tree t" "ready w fs (whole_plan ds n t)" "fresh_place fs ds n t"
  shows "removable (carried_out (kept_dirs ds n t) fs) (tree_items (relative (ds @ [n])) t)"
proof -
  let ?p = "relative (ds @ [n])" and ?kept = "kept_dirs ds n t"
  let ?items = "tree_items ?p t"
  have pn: "\<not> ends_with_slash ?p" "?p \<noteq> []" using relative_not_ending [OF assms(1)] relative_Nil_iff [OF assms(1)] by simp_all
  have r: "ready w fs (?kept @ ?items)" using assms(3) by (simp add: whole_plan_split)
  have apart: "fst ` set ?kept \<inter> fst ` set ?items = {}" by (rule ready_split(2) [OF r])
  have f: "\<forall>q \<in> fst ` set ?items \<union> compiled ?items. dget fs q = None" "\<forall>q \<in> compiled ?items. (q, LocalDir) \<notin> set (?kept @ ?items)"
    "\<forall>q. dget fs q \<noteq> None \<longrightarrow> parent_exists fs q"
    using assms(4) by (simp_all add: fresh_place_def Let_def whole_plan_split)
  have plan: "set ?items \<subseteq> set (plan ?p t)" by (auto simp: tree_items_def split: remote_tree.splits)
  have "distinct (map fst (plan ?p t))" using assms(3) by (simp add: whole_plan_def ready_def)
  from plan_parents_first [OF assms(2) pn(1) this] have "parents_first ?items"
    by (auto simp: parents_first_def tree_items_def split: remote_tree.split)
  moreover have "distinct (map fst ?items)" using r by (simp add: ready_def)
  moreover have names: "\<forall>q \<in> fst ` set ?items. q \<noteq> [] \<and> \<not> ends_with_slash q"
    using plan_paths [OF assms(2) pn(1)] pn(2) plan by fastforce
  moreover have base: "dget (carried_out ?kept fs) q = None" if "q \<in> fst ` set ?items \<union> compiled ?items" for q
  proof -
    have "q \<notin> fst ` set ?kept"
      using that apart f(2) kept_nodes by (metis (no_types, lifting) Un_iff append_is_Nil_conv disjoint_iff image_iff in_set_conv_decomp prod.collapse set_append)
    then show ?thesis using f(1) that by (simp add: carried_out_elsewhere)
  qed
  moreover have "parent q \<notin> fst ` set ?items" if q: "dget (carried_out ?kept fs) q \<noteq> None" for q
  proof (cases "q \<in> fst ` set ?kept")
    case True
    then show ?thesis using kept_parents [OF assms(1) True] apart names by auto
  next
    case False
    then have "parent_exists fs q" using q f(3) by (simp add: carried_out_elsewhere)
    then have "parent q = [] \<or> dget fs (parent q) \<noteq> None" by (auto simp: parent_exists_def)
    moreover have "[] \<notin> fst ` set ?items" using names by blast
    ultimately show ?thesis using f(1) by (metis UnI1)
  qed
  ultimately show ?thesis using f(2) unfolding removable_def by auto
qed


lemma dget_kept:
  assumes "ready w fs (whole_plan ds n t)"
  shows "dget (carried_out (kept_dirs ds n t) fs) q = (if (q, LocalDir) \<in> set (kept_dirs ds n t) then Some LocalDir else dget fs q)"
proof (cases "(q, LocalDir) \<in> set (kept_dirs ds n t)")
  case True
  have "ready w fs (kept_dirs ds n t)" using assms ready_split(1) unfolding whole_plan_split by blast
  from carried_out_member [OF this True] True show ?thesis by simp
next
  case False
  then have "q \<notin> fst ` set (kept_dirs ds n t)" using kept_nodes [of "(q, _)"] by force
  then show ?thesis using False by (simp add: carried_out_elsewhere)
qed

lemma unload_last_run:
  assumes "in_use e" "dget (loadedFiles e) f = Some (1, names)"
    and "act_each remove_loaded (rev names) e = (Ok (), e\<lparr>local_files := fs\<rparr>)"
  shows "LoadableDevice_unload f e = (Ok (), e\<lparr>local_files := fs, loadedFiles := dpop f (loadedFiles e)\<rparr>)"
  using assms(1) by (simp add: LoadableDevice_unload_def unload_file_def in_use_def assms(2)
      act_then_run(1) [where m = "act_each remove_loaded (rev names)", OF assms(3)])

definition meanwhile :: "string set \<Rightarrow> 'x loader_scheme \<Rightarrow> 'x loader_scheme \<Rightarrow> bool" where
  "meanwhile cs d e \<longleftrightarrow> in_use e \<and> loadedFiles e = loadedFiles d \<and>
     (\<forall>q. q \<notin> cs \<longrightarrow> dget (local_files e) q = dget (local_files d) q) \<and> (\<forall>q \<in> cs. dget (local_files e) q \<noteq> Some LocalDir)"

text \<open>
  C9: When a tree has been loaded to a place where nothing of it existed before, and Python has
  perhaps compiled modules of it in the meantime, unloading it gives back the files as they were before
  loading, with two exceptions: the directories of the load point stay, and when the tree is a directory
  that directory itself stays too, empty. The file name is forgotten.
\<close>

theorem unload_undoes_load:
  assumes "\<forall>d \<in> set (ds @ [n]). plain_name d" "serves R (absolute ds n) (n, t)" "proper_tree t" "depth t \<le> limit"
    and "ready w (local_files s) (whole_plan ds n t)" "dget (loadedFiles s) (absolute ds n) = None" "in_use s"
    and "fresh_place (local_files s) ds n t" "LoadableDevice_load limit w R (absolute ds n) EXECUTABLE s = (r, d)"
    and "meanwhile (compiled (tree_items (relative (ds @ [n])) t)) d e"
  shows "\<exists>fs. LoadableDevice_unload (absolute ds n) e =
      (Ok (), e\<lparr>local_files := fs, loadedFiles := dpop (absolute ds n) (loadedFiles e)\<rparr>) \<and>
    (\<forall>q. dget fs q = (if (q, LocalDir) \<in> set (kept_dirs ds n t) then Some LocalDir else dget (local_files s) q))"
proof -
  let ?p = "relative (ds @ [n])" and ?kept = "kept_dirs ds n t"
  let ?items = "tree_items ?p t" and ?base = "carried_out ?kept (local_files s)"
  have d: "d = s\<lparr>local_files := carried_out ?items ?base, loadedFiles := dput (absolute ds n) (1, map fst ?items) (loadedFiles s)\<rparr>"
    using load_executable_run [OF assms(7) load_cached_run [OF assms(1-6)]] assms(9)
    by (simp add: whole_plan_split listed_items)
  have rem: "removable ?base ?items" by (rule items_removable [OF assms(1,3,5,8)])
  have ready: "ready w ?base ?items" using assms(5) ready_later unfolding whole_plan_split by blast
  have "left_over ?base ?items (local_files e)" unfolding left_over_def
  proof (intro conjI allI impI ballI)
    fix q assume "q \<notin> fst ` set ?items \<union> compiled ?items"
    then show "dget (local_files e) q = dget ?base q" using assms(10) d by (simp add: meanwhile_def carried_out_elsewhere)
  next
    fix q assume q: "(q, LocalDir) \<in> set ?items"
    then have "q \<notin> compiled ?items" using rem by (auto simp: removable_def)
    then show "dget (local_files e) q = Some LocalDir"
      using assms(10) d carried_out_member [OF ready q] by (simp add: meanwhile_def)
  next
    fix q assume "q \<in> compiled ?items"
    then show "dget (local_files e) q \<noteq> Some LocalDir" using assms(10) by (simp add: meanwhile_def)
  next
    fix q c x assume q: "(q, LocalFile c x) \<in> set ?items"
    then show "dget (local_files e) q \<noteq> Some LocalDir"
      using assms(10) d carried_out_file [OF ready q] by (cases "q \<in> compiled ?items") (auto simp: meanwhile_def)
  qed
  from remove_all [OF rem this] obtain fs where
    fs: "act_each remove_loaded (rev (map fst ?items)) e = (Ok (), e\<lparr>local_files := fs\<rparr>)" "\<forall>q. dget fs q = dget ?base q" by blast
  have entry: "dget (loadedFiles e) (absolute ds n) = Some (1, map fst ?items)" using assms(10) d by (simp add: meanwhile_def)
  have used: "in_use e" using assms(10) by (simp add: meanwhile_def)
  show ?thesis
    by (rule exI [of _ fs]) (simp add: unload_last_run [OF used entry fs(1)] fs(2) dget_kept [OF assms(5)])
qed

end
