(* ===== verification/LoadCounts.thy ===== *)
theory LoadCounts
  imports Unloading
begin

text \<open>
  The reference counts of a loadable device over a run: a load that succeeds adds one reference, an
  unload that succeeds takes one away, and whatever fails, at whatever point, changes no count.
\<close>

section \<open>What leaves the counts alone\<close>

definition leaves_counts :: "('x loader_scheme, 'a) action \<Rightarrow> bool" where
  "leaves_counts m \<longleftrightarrow> (\<forall>L. keeps (\<lambda>d. loadedFiles d = L) m)"

lemma leaves_counts_rules [keeps_rules]:
  "leaves_counts (act_return x)" "leaves_counts (act_raise e)" "leaves_counts (act_get g)" "leaves_counts act_hang"
  "leaves_counts m \<Longrightarrow> (\<And>x. leaves_counts (f x)) \<Longrightarrow> leaves_counts (act_bind m f)"
  "leaves_counts m1 \<Longrightarrow> leaves_counts m2 \<Longrightarrow> leaves_counts (act_then m1 m2)"
  "leaves_counts m3 \<Longrightarrow> (\<And>e. leaves_counts (h e)) \<Longrightarrow> leaves_counts (act_catch m3 h)"
  "(b \<Longrightarrow> leaves_counts m4) \<Longrightarrow> (\<not> b \<Longrightarrow> leaves_counts m5) \<Longrightarrow> leaves_counts (if b then m4 else m5)"
  "(b \<Longrightarrow> leaves_counts m6) \<Longrightarrow> leaves_counts (act_when b m6)"
  "(\<And>d. loadedFiles (u d) = loadedFiles d) \<Longrightarrow> leaves_counts (act_update u)"
  "(\<And>x. x \<in> set xs \<Longrightarrow> leaves_counts (each x)) \<Longrightarrow> leaves_counts (act_each each xs)"
  by (auto simp: leaves_counts_def keeps_update intro!: keeps_rules)

lemma leaves_counts_lift [keeps_rules]: "leaves_counts (lift_outcome m)"
  by (cases m) (simp_all add: leaves_counts_rules)

lemma leaves_counts_concat: "(\<And>x. x \<in> set xs \<Longrightarrow> leaves_counts (f x)) \<Longrightarrow> leaves_counts (act_concat f xs)"
  by (induction xs) (auto intro!: keeps_rules)

lemma leaves_counts_files [keeps_rules]:
  "leaves_counts (put_node p n)" "leaves_counts (drop_node p)" "leaves_counts (os_mkdir p)"
  "leaves_counts (open_for_writing w p)" "leaves_counts (append_octets p buf)" "leaves_counts (os_rename p q)"
  "leaves_counts (os_chmod_exec p)" "leaves_counts (os_remove p)" "leaves_counts (os_rmdir p)"
  "leaves_counts (make_directory p)" "leaves_counts (create_local w p)"
proof -
  show n [keeps_rules]: "leaves_counts (put_node p n)" "leaves_counts (drop_node p)" for p n
    unfolding put_node_def drop_node_def by (auto intro!: keeps_rules)
  show o [keeps_rules]: "leaves_counts (open_for_writing w p)" "leaves_counts (os_rename p q)" "leaves_counts (os_mkdir p)"
    for p q unfolding open_for_writing_def os_rename_def os_mkdir_def by (auto intro!: keeps_rules n split: option.split node.split)
  show "leaves_counts (append_octets p buf)" "leaves_counts (os_chmod_exec p)" "leaves_counts (os_remove p)" "leaves_counts (os_rmdir p)"
    unfolding append_octets_def os_chmod_exec_def os_remove_def os_rmdir_def
    by (auto intro!: keeps_rules n split: option.split node.split)
  show "leaves_counts (make_directory p)" unfolding make_directory_def by (auto intro!: keeps_rules o)
  show "leaves_counts (create_local w p)" unfolding create_local_def Let_def by (auto intro!: keeps_rules o)
qed

lemma leaves_counts_parts: "leaves_counts (copy_parts f p pos n)"
proof (induction f p pos n rule: copy_parts.induct)
  case (1 f p pos n)
  then show ?case by (subst copy_parts.simps) (auto intro!: keeps_rules split: outcome.split)
qed

lemma leaves_counts_plain [keeps_rules]: "leaves_counts (load_plain w R q lp fi)"
  unfolding load_plain_def copyFile_def Let_def by (auto intro!: keeps_rules leaves_counts_parts)

lemma leaves_counts_tree [keeps_rules]: "leaves_counts (loadTree k w R q lp)"
  by (induction k arbitrary: q lp)
    (auto simp: Let_def intro!: keeps_rules leaves_counts_concat split: file_kind.split)

lemma leaves_counts_load_point [keeps_rules]: "leaves_counts (make_load_point p ds)"
  by (induction p ds rule: make_load_point.induct) (auto simp: Let_def simp del: act_run intro!: keeps_rules)

lemma leaves_counts_removal [keeps_rules]: "leaves_counts (remove_loaded f)" "leaves_counts (modTime R q)"
  unfolding remove_loaded_def quietly_def modTime_def by (auto intro!: keeps_rules split: outcome.split list.split)

lemma leaves_counts_env [keeps_rules]: "leaves_counts (setEnvVars w p f)"
  unfolding setEnvVars_def python_module_def addModification_def update_selected_paths_def apply_modifications_def Let_def
  by (auto intro!: keeps_rules)

section \<open>Counting\<close>

definition references :: "(string, int \<times> string list) dict \<Rightarrow> string \<Rightarrow> int" where
  "references L f = (case dget L f of Some (c, names) \<Rightarrow> c | None \<Rightarrow> 0)"

lemma counted_bind:
  assumes "leaves_counts m" "loadedFiles s = L"
    and "\<And>x t. m s = (Ok x, t) \<Longrightarrow> loadedFiles t = L \<Longrightarrow> Q (fst (f x t)) (snd (f x t))"
    and "\<And>e t. loadedFiles t = L \<Longrightarrow> Q (Exn e) t" "\<And>t. loadedFiles t = L \<Longrightarrow> Q Hangs t"
  shows "Q (fst (act_bind m f s)) (snd (act_bind m f s))"
proof -
  obtain r t where mt: "m s = (r, t)" by (cases "m s")
  then have "loadedFiles t = L" using assms(1,2) keepsD [of "\<lambda>d. loadedFiles d = L" m s r t] by (simp add: leaves_counts_def)
  then show ?thesis using assms(3-5) mt by (cases r) (simp_all add: act_bind_def)
qed

definition adds_reference :: "(string, int \<times> string list) dict \<Rightarrow> string \<Rightarrow> 'a result \<Rightarrow> 'x loader_scheme \<Rightarrow> bool" where
  "adds_reference L f r d \<longleftrightarrow> (case r of
      Ok x \<Rightarrow> \<exists>names. loadedFiles d = dput f (references L f + 1, names) L
    | _ \<Rightarrow> loadedFiles d = L)"

lemma adds_reference_else [simp]: "adds_reference L f (Exn e) d = (loadedFiles d = L)" "adds_reference L f Hangs d = (loadedFiles d = L)"
  by (simp_all add: adds_reference_def)

lemma counted_tail:
  assumes "leaves_counts current" "\<And>b. leaves_counts (load b)" "loadedFiles t = L" "references L f = c"
  shows "adds_reference L f
    (fst (act_bind current (\<lambda>b. act_bind (load b) (\<lambda>names.
       act_then (act_update (\<lambda>d. d\<lparr>loadedFiles := dput f (c + 1, names) (loadedFiles d)\<rparr>)) (act_return q))) t))
    (snd (act_bind current (\<lambda>b. act_bind (load b) (\<lambda>names.
       act_then (act_update (\<lambda>d. d\<lparr>loadedFiles := dput f (c + 1, names) (loadedFiles d)\<rparr>)) (act_return q))) t))"
proof (rule counted_bind [where Q = "adds_reference L f", OF assms(1,3)], goal_cases)
  case (1 b u)
  show ?case
    by (rule counted_bind [where Q = "adds_reference L f", OF assms(2) 1(2)]) (auto simp: adds_reference_def assms(4))
qed simp_all

lemma load_cached_counts:
  assumes "loadedFiles s = L"
  shows "adds_reference L f (fst (load_cached k w R f s)) (snd (load_cached k w R f s))"
proof -
  obtain c names where entry: "(case dget L f of Some e \<Rightarrow> e | None \<Rightarrow> (0, [])) = (c, names)" by fastforce
  then have c: "references L f = c" by (auto simp: references_def split: option.splits)
  show ?thesis unfolding load_cached_def
  proof (rule counted_bind [where Q = "adds_reference L f", OF leaves_counts_load_point assms], goal_cases)
    case (1 lp t)
    show ?case unfolding act_bind_simps(3) 1(2) entry prod.case Let_def
      by (rule counted_tail [OF _ _ 1(2) c]) (auto intro!: keeps_rules)
  qed simp_all
qed

text \<open>Nothing that follows the counting can fail.\<close>

definition always_ends :: "('s, 'a) action \<Rightarrow> bool" where
  "always_ends m \<longleftrightarrow> (\<forall>s. \<exists>x t. m s = (Ok x, t))"

lemma always_ends_bind:
  assumes "always_ends m" "\<And>x. always_ends (f x)"
  shows "always_ends (act_bind m f)"
  unfolding always_ends_def
proof
  fix s
  obtain x u where x: "m s = (Ok x, u)" using assms(1) unfolding always_ends_def by blast
  obtain y v where "f x u = (Ok y, v)" using assms(2) unfolding always_ends_def by blast
  then show "\<exists>y v. act_bind m f s = (Ok y, v)" using x by (simp add: act_bind_def)
qed

lemma always_ends_then: "always_ends m \<Longrightarrow> always_ends n \<Longrightarrow> always_ends (act_then m n)"
  unfolding act_then_def by (rule always_ends_bind)

lemma always_ends_basic:
  "always_ends (act_return x)" "always_ends (act_get g)" "always_ends (act_update u)"
  "always_ends m \<Longrightarrow> always_ends (act_when b m)"
  "(b \<Longrightarrow> always_ends m1) \<Longrightarrow> (\<not> b \<Longrightarrow> always_ends m2) \<Longrightarrow> always_ends (if b then m1 else m2)"
  by (simp_all add: always_ends_def act_when_def)

lemma always_ends_each: "(\<And>x. x \<in> set xs \<Longrightarrow> always_ends (f x)) \<Longrightarrow> always_ends (act_each f xs)"
  by (induction xs) (simp_all add: always_ends_basic always_ends_then)

lemmas always_ends_rules = always_ends_bind always_ends_then always_ends_basic always_ends_each

lemma python_module_ends: "always_ends (python_module w p)"
  by (auto simp: always_ends_def python_module_def act_catch_def act_when_def addModification_def Let_def)

lemma setEnvVars_ends: "always_ends (setEnvVars w p f)"
  unfolding setEnvVars_def addModification_def update_selected_paths_def apply_modifications_def Let_def
  by (intro always_ends_rules python_module_ends)

lemma load_counts:
  "adds_reference (loadedFiles s) f (fst (LoadableDevice_load k w R f ty s)) (snd (LoadableDevice_load k w R f ty s))"
proof -
  let ?rest = "\<lambda>p. act_when (ty = SHARED_LIBRARY) (setEnvVars w p f)"
  let ?body = "act_bind (load_cached k w R f) ?rest"
  have body: "adds_reference (loadedFiles s) f (fst (?body s)) (snd (?body s))"
  proof -
    obtain r t where rt: "load_cached k w R f s = (r, t)" by (cases "load_cached k w R f s")
    have c: "adds_reference (loadedFiles s) f r t" using load_cached_counts [of s "loadedFiles s" f k w R] rt by simp
    show ?thesis
    proof (cases r)
      case (Ok p)
      have "always_ends (?rest p)" "leaves_counts (?rest p)"
        by (rule always_ends_rules setEnvVars_ends, rule setEnvVars_ends) (auto intro!: keeps_rules)
      then obtain u where "?rest p t = (Ok (), u)" "loadedFiles u = loadedFiles t"
        unfolding always_ends_def leaves_counts_def keeps_def by (metis snd_conv unit.exhaust)
      then show ?thesis using c Ok by (simp add: act_bind_def rt adds_reference_def)
    qed (use c in \<open>simp_all add: act_bind_def rt\<close>)
  qed
  have caught: "adds_reference L f (fst (act_catch m (\<lambda>e. act_raise LoadFail) s)) (snd (act_catch m (\<lambda>e. act_raise LoadFail) s))"
    if "adds_reference L f (fst (m s)) (snd (m s))" for L and m :: "('a loader_scheme, unit) action"
    using that by (cases "m s"; cases "fst (m s)") (simp_all add: act_catch_def)
  show ?thesis unfolding LoadableDevice_load_def
    by (rule caught) (simp add: body)
qed

lemma quiet_ends: "always_ends (quietly (os_remove p))" "always_ends (quietly (os_rmdir p))"
  by (auto simp: always_ends_def quietly_def os_remove_def os_rmdir_def act_catch_def drop_node_def)

lemma remove_loaded_ends: "always_ends (remove_loaded f)"
  unfolding remove_loaded_def by (intro always_ends_rules quiet_ends)

lemma unload_counts:
  assumes "LoadableDevice_unload f s = (r, d)"
  shows "case r of
      Ok x \<Rightarrow> (\<exists>c names. dget (loadedFiles s) f = Some (c, names) \<and> loadedFiles d =
        (if c = 1 then dpop f (loadedFiles s) else dput f (c - 1, names) (loadedFiles s)))
    | _ \<Rightarrow> loadedFiles d = loadedFiles s"
proof (cases "in_use s \<and> dget (loadedFiles s) f \<noteq> None")
  case False
  then show ?thesis using assms
    by (cases "dget (loadedFiles s) f")
      (auto simp: LoadableDevice_unload_def unload_file_def in_use_def split: if_splits)
next
  case True
  then obtain c names where e: "dget (loadedFiles s) f = Some (c, names)" and u: "in_use s" by auto
  have run: "LoadableDevice_unload f s = unload_file f False s" using u by (simp add: LoadableDevice_unload_def in_use_def)
  show ?thesis
  proof (cases "c = 1")
    case one: True
    have "always_ends (act_each remove_loaded (rev names) :: ('a loader_scheme, unit) action)"
      "leaves_counts (act_each remove_loaded (rev names) :: ('a loader_scheme, unit) action)"
      by (auto intro!: always_ends_rules remove_loaded_ends keeps_rules)
    then obtain t where t: "act_each remove_loaded (rev names) s = (Ok (), t)" "loadedFiles t = loadedFiles s"
      unfolding always_ends_def leaves_counts_def keeps_def by (metis snd_conv unit.exhaust)
    have "unload_file f False s = (Ok (), t\<lparr>loadedFiles := dpop f (loadedFiles t)\<rparr>)"
      by (simp add: unload_file_def e one act_then_run(1) [where m = "act_each remove_loaded (rev names)", OF t(1)])
    then show ?thesis using assms e one t(2) run by auto
  next
    case False
    then have "unload_file f False s = (Ok (), s\<lparr>loadedFiles := dput f (c - 1, names) (loadedFiles s)\<rparr>)"
      by (simp add: unload_file_def e Let_def)
    then show ?thesis using assms e False run by auto
  qed
qed

section \<open>Runs\<close>

datatype load_call = Load os_view remote_files string load_type | Unload string | SetAdmin admin

definition load_call_step :: "nat \<Rightarrow> load_call \<Rightarrow> ('x loader_scheme, unit) action" where
  "load_call_step limit call = (case call of
      Load w R f ty \<Rightarrow> LoadableDevice_load limit w R f ty
    | Unload f \<Rightarrow> LoadableDevice_unload f
    | SetAdmin a \<Rightarrow> act_update (set_adminState a))"

fun load_run :: "nat \<Rightarrow> load_call list \<Rightarrow> 'x loader_scheme \<Rightarrow> (load_call \<times> unit result) list \<times> 'x loader_scheme" where
  "load_run limit [] d = ([], d)"
| "load_run limit (call # calls) d = (let (r, t) = load_call_step limit call d; (hist, u) = load_run limit calls t
     in ((call, r) # hist, u))"

definition reference_change :: "string \<Rightarrow> load_call \<times> unit result \<Rightarrow> int" where
  "reference_change f e = (case e of
      (Load w R g ty, Ok x) \<Rightarrow> if g = f then 1 else 0
    | (Unload g, Ok x) \<Rightarrow> if g = f then - 1 else 0
    | _ \<Rightarrow> 0)"

definition positive_counts :: "(string, int \<times> string list) dict \<Rightarrow> bool" where
  "positive_counts L \<longleftrightarrow> (\<forall>f c names. dget L f = Some (c, names) \<longrightarrow> 0 < c)"

lemma positive_counts_updates:
  "positive_counts L \<Longrightarrow> 0 < c \<Longrightarrow> positive_counts (dput g (c, names) L)"
  "positive_counts L \<Longrightarrow> positive_counts (dpop g L)"
  unfolding positive_counts_def by (auto split: if_splits)

lemma references_updates:
  "references (dput g (c, names) L) f = (if f = g then c else references L f)"
  "references (dpop g L) f = (if f = g then 0 else references L f)"
  by (simp_all add: references_def)

lemma references_positive:
  "positive_counts L \<Longrightarrow> dget L f = Some (c, names) \<Longrightarrow> references L f = c \<and> 0 < c"
  "positive_counts L \<Longrightarrow> 0 < references L f + 1"
  by (fastforce simp: references_def positive_counts_def split: option.split)+

lemma load_call_step_counts:
  assumes "positive_counts (loadedFiles s)" "load_call_step limit call s = (r, d)"
  shows "positive_counts (loadedFiles d) \<and>
    references (loadedFiles d) f = references (loadedFiles s) f + reference_change f (call, r)"
proof (cases call)
  case (Load w R g ty)
  have c: "adds_reference (loadedFiles s) g r d"
    using load_counts [of s g limit w R ty] assms(2) by (simp add: Load load_call_step_def)
  show ?thesis
  proof (cases r)
    case (Ok x)
    then obtain names where "loadedFiles d = dput g (references (loadedFiles s) g + 1, names) (loadedFiles s)"
      using c by (auto simp: adds_reference_def)
    then show ?thesis using Ok positive_counts_updates(1) [OF assms(1) references_positive(2) [OF assms(1)]]
      by (simp add: references_updates Load reference_change_def)
  qed (use c assms(1) in \<open>simp_all add: Load reference_change_def\<close>)
next
  case (Unload g)
  note u = unload_counts [of g s r d]
  have run: "LoadableDevice_unload g s = (r, d)" using assms(2) by (simp add: Unload load_call_step_def)
  show ?thesis
  proof (cases r)
    case (Ok x)
    then obtain c names where c: "dget (loadedFiles s) g = Some (c, names)"
      "loadedFiles d = (if c = 1 then dpop g (loadedFiles s) else dput g (c - 1, names) (loadedFiles s))"
      using u [OF run] by auto
    have "references (loadedFiles s) g = c" "0 < c" using references_positive(1) [OF assms(1) c(1)] by simp_all
    then show ?thesis using c(2) Ok assms(1)
      by (simp add: references_updates positive_counts_updates Unload reference_change_def)
  qed (use u [OF run] assms(1) in \<open>simp_all add: Unload reference_change_def\<close>)
next
  case (SetAdmin a)
  have "loadedFiles d = loadedFiles s" "r = Ok ()"
    using assms(2) by (auto simp: SetAdmin load_call_step_def set_adminState_def assign_adminState_def sendStateChangeEvent_def Let_def)
  then show ?thesis using assms(1) by (simp add: SetAdmin reference_change_def)
qed

text \<open>
  C20: Over any run of loads, unloads and changes of the administrative state, with failures wherever they
  happen, the reference count of a file name is the number of loads of it that succeeded less the number
  of unloads that succeeded; a file name that is known has a positive count.
\<close>

theorem references_are_counted:
  assumes "positive_counts (loadedFiles s)" "load_run limit calls s = (hist, d)"
  shows "positive_counts (loadedFiles d) \<and>
    references (loadedFiles d) f = references (loadedFiles s) f + sum_list (map (reference_change f) hist)"
  using assms
proof (induction calls arbitrary: s hist)
  case (Cons call calls)
  obtain r t where step: "load_call_step limit call s = (r, t)" by (cases "load_call_step limit call s")
  obtain rest where rest: "load_run limit calls t = (rest, d)" "hist = (call, r) # rest"
    using Cons.prems(2) step by (auto split: prod.splits)
  show ?case
    using Cons.IH [OF _ rest(1)] load_call_step_counts [OF Cons.prems(1) step, of f] by (simp add: rest(2))
qed simp

end
