(* ===== verification/ExecutableDevice.thy ===== *)
theory ExecutableDevice
  imports LoadCounts PropertyTypes
begin

text \<open>
  \<open>ExecutableDevice\<close> and \<open>AggregateDevice\<close> of \<open>ossie/device.py\<close>: starting processes with the search
  paths of the shared libraries they depend on, stopping them with signals, and the list of child
  devices. Processes are parameters (\<open>processes\<close>): what \<open>Popen\<close> answers, how long after a signal a process
  group is gone, and the status of a child. Time passes while \<open>_terminate\<close> sleeps.
\<close>

record executor = loader +
  initialState :: "(string, string) dict"
  cacheDirectory :: string
  applications :: "(nat, unit) dict"
  launched :: "(nat \<times> string list \<times> (string, string) dict) list"
  clock :: rat
  group_end :: "(nat, rat) dict"
  signals_sent :: "(nat \<times> int) list"

record processes =
  popen :: "string list \<Rightarrow> nat outcome"
  reacts :: "nat \<Rightarrow> int \<Rightarrow> rat option"
  child_status :: "nat \<Rightarrow> int option"

section \<open>The environment\<close>

definition search_paths :: "string list" where
  "search_paths = [''LD_LIBRARY_PATH'', ''PYTHONPATH'', ''CLASSPATH'', ''OCTAVE_PATH'']"

text \<open>The constructor of \<open>envStateContainer\<close> and \<open>envState.__enter__\<close>; a variable that is not set is empty.\<close>

definition env_snapshot :: "(string, string) dict \<Rightarrow> (string, string) dict" where
  "env_snapshot env = map (\<lambda>v. (v, case dget env v of Some s \<Rightarrow> s | None \<Rightarrow> [])) search_paths"

text \<open>\<open>envStateContainer.set\<close> and \<open>envState.__exit__\<close>.\<close>

definition set_env :: "(string, string) dict \<Rightarrow> ('x loader_scheme, unit) action" where
  "set_env snap = act_update (\<lambda>d. d\<lparr>environ := fold (\<lambda>(v, s). dput v s) snap (environ d)\<rparr>)"

definition act_finally :: "('s, 'a) action \<Rightarrow> ('s, unit) action \<Rightarrow> ('s, 'a) action" where
  "act_finally m n = act_bind (act_catch (act_bind m (\<lambda>x. act_return (Inr x))) (\<lambda>e. act_return (Inl e)))
     (\<lambda>r. act_then n (case r of Inl e \<Rightarrow> act_raise e | Inr x \<Rightarrow> act_return x))"

section \<open>Starting processes\<close>

definition is_int :: "pvalue \<Rightarrow> bool" where
  "is_int v \<longleftrightarrow> is_instance v TInt \<or> is_instance v TLong"

definition invalid_option :: "string \<times> pvalue \<Rightarrow> bool" where
  "invalid_option op \<longleftrightarrow> fst op \<in> {''PRIORITY'', ''STACK_SIZE''} \<and> \<not> is_int (snd op)"

fun process_arguments :: "text_format \<Rightarrow> (string \<times> pvalue) list \<Rightarrow> string list outcome" where
  "process_arguments F [] = Returned []"
| "process_arguments F ((i, v) # ps) =
     (if v = VNone then process_arguments F ps
      else obind (call_str F v) (\<lambda>s. omap (\<lambda>as. i # (case s of VStr x \<Rightarrow> x | _ \<Rightarrow> []) # as) (process_arguments F ps)))"

definition execute_process ::
    "text_format \<Rightarrow> processes \<Rightarrow> string \<Rightarrow> (string \<times> pvalue) list \<Rightarrow> ('x executor_scheme, nat) action" where
  "execute_process F P command parameters =
     act_bind (lift_outcome (omap (\<lambda>as. command # as) (process_arguments F parameters))) (\<lambda>args.
     case popen P args of
       Returned pid \<Rightarrow> act_then (act_update (\<lambda>d. d\<lparr>applications := dput pid () (applications d),
           launched := launched d @ [(pid, args, environ d)]\<rparr>)) (act_return pid)
     | Raised e \<Rightarrow> act_raise (if e = EnvironmentError then ExecuteFail else e)
     | Blocked \<Rightarrow> act_hang)"

definition ExecutableDevice_execute ::
    "text_format \<Rightarrow> processes \<Rightarrow> string \<Rightarrow> (string \<times> pvalue) list \<Rightarrow> (string \<times> pvalue) list \<Rightarrow> ('x executor_scheme, nat) action" where
  "ExecutableDevice_execute F P name options parameters =
     (if \<not> starts_with_slash name then act_raise InvalidFileName
      else act_bind (act_get isLocked) (\<lambda>locked. if locked then act_raise InvalidState
      else act_bind (act_get isDisabled) (\<lambda>disabled. if disabled then act_raise InvalidState
      else if list_ex invalid_option options then act_raise InvalidOptions
      else act_bind (act_get (\<lambda>d. is_file (local_files d) (tl name))) (\<lambda>present.
        if \<not> present then act_raise InvalidFileName
        else act_then (os_chmod_exec (tl name)) (execute_process F P (tl name) parameters)))))"

definition executeLinked ::
    "text_format \<Rightarrow> processes \<Rightarrow> os_view \<Rightarrow> string \<Rightarrow> (string \<times> pvalue) list \<Rightarrow> (string \<times> pvalue) list \<Rightarrow> string list
       \<Rightarrow> ('x executor_scheme, nat) action" where
  "executeLinked F P w name options parameters deps =
     act_bind (act_get (\<lambda>d. (env_snapshot (environ d), initialState d, sharedPkgs d, cacheDirectory d)))
       (\<lambda>(saved, initial, pkgs, root). act_finally
         (act_then (set_env initial)
         (act_then (update_selected_paths w (filter (\<lambda>dep. dep \<in> set pkgs) deps))
           (ExecutableDevice_execute F P name options (parameters @ [(''RH::DEPLOYMENT_ROOT'', VStr root)]))))
         (set_env saved))"

section \<open>Stopping processes\<close>

definition STOP_SIGNALS :: "(int \<times> rat) list" where
  "STOP_SIGNALS = [(2, 2), (15, 2), (9, 1 / 2)]"

definition checkpg :: "'x executor_scheme \<Rightarrow> nat \<Rightarrow> bool" where
  "checkpg d pid \<longleftrightarrow> (case dget (group_end d) pid of Some t \<Rightarrow> clock d < t | None \<Rightarrow> True)"

definition killpg :: "processes \<Rightarrow> nat \<Rightarrow> int \<Rightarrow> 'x executor_scheme \<Rightarrow> 'x executor_scheme" where
  "killpg P pid sig d = d\<lparr>signals_sent := signals_sent d @ [(pid, sig)],
     group_end := (case reacts P pid sig of
         None \<Rightarrow> group_end d
       | Some delay \<Rightarrow> dput pid (case dget (group_end d) pid of
             Some t \<Rightarrow> min t (clock d + delay) | None \<Rightarrow> clock d + delay) (group_end d))\<rparr>"

text \<open>
  The loop that waits for the group to be gone, a tenth of a second at a time: the clock counts nominal sleeping
  time, and how much longer a sleep takes, and the time between sleeps, are not modelled.
\<close>

function wait_gone :: "nat \<Rightarrow> rat \<Rightarrow> 'x executor_scheme \<Rightarrow> 'x executor_scheme" where
  "wait_gone pid giveup_time d =
     (if checkpg d pid \<and> clock d < giveup_time then wait_gone pid giveup_time (d\<lparr>clock := clock d + 1 / 10\<rparr>) else d)"
  by pat_completeness auto
termination
proof (relation "measure (\<lambda>(pid, g, d). nat \<lceil>(g - clock d) * 10\<rceil>)", simp, goal_cases)
  case (1 pid g d)
  have new: "(g - clock (d\<lparr>clock := clock d + 1 / 10\<rparr>)) * 10 = (g - clock d) * 10 - 1" by (simp add: field_simps)
  have "0 < (g - clock d) * 10" using 1 by simp
  then have "nat \<lceil>(g - clock d) * 10 - 1\<rceil> < nat \<lceil>(g - clock d) * 10\<rceil>" by linarith
  then show ?case unfolding in_measure split_conv new .
qed

declare wait_gone.simps [simp del]

fun stop_group :: "processes \<Rightarrow> nat \<Rightarrow> (int \<times> rat) list \<Rightarrow> 'x executor_scheme \<Rightarrow> 'x executor_scheme" where
  "stop_group P pid [] d = d"
| "stop_group P pid ((sig, timeout) # sigs) d =
     (if \<not> checkpg d pid then d
      else stop_group P pid sigs (wait_gone pid (clock d + timeout) (killpg P pid sig d)))"

definition terminate_process :: "processes \<Rightarrow> nat \<Rightarrow> ('x executor_scheme, unit) action" where
  "terminate_process P pid = act_bind (act_get (\<lambda>d. dget (applications d) pid)) (\<lambda>app.
     if app = None then act_raise InvalidProcess
     else act_then (act_update (stop_group P pid STOP_SIGNALS))
       (act_update (\<lambda>d. d\<lparr>applications := dpop pid (applications d)\<rparr>)))"

definition ExecutableDevice_terminate :: "processes \<Rightarrow> nat \<Rightarrow> ('x executor_scheme, unit) action" where
  "ExecutableDevice_terminate P pid =
     act_bind (act_get isLocked) (\<lambda>locked. if locked then act_raise InvalidState
     else act_bind (act_get isDisabled) (\<lambda>disabled. if disabled then act_raise InvalidState
     else terminate_process P pid))"

text \<open>The handler of \<open>SIGCHLD\<close> forgets the children that a signal has ended.\<close>

definition child_handler :: "processes \<Rightarrow> 'x executor_scheme \<Rightarrow> 'x executor_scheme" where
  "child_handler P d = d\<lparr>applications := fold (\<lambda>pid apps. case child_status P pid of
       Some status \<Rightarrow> if status < 0 then dpop pid apps else apps
     | None \<Rightarrow> apps) (dkeys (applications d)) (applications d)\<rparr>"

section \<open>Child devices\<close>

text \<open>
  Devices are references with the identifier that they answer. \<open>removeDevice\<close> removes from the list
  that it iterates over: the iterator goes on at the next index, so that it skips one device.
\<close>

function remove_loop :: "string \<Rightarrow> nat \<Rightarrow> (nat \<times> string) list \<Rightarrow> (nat \<times> string) list" where
  "remove_loop ident i devs = (if i < length devs
     then (if snd (devs ! i) = ident then remove_loop ident (Suc i) (remove1 (devs ! i) devs)
           else remove_loop ident (Suc i) devs)
     else devs)"
  by pat_completeness auto
termination
  by (relation "measure (\<lambda>(ident, i, devs). length devs - i)") (auto simp: length_remove1)

declare remove_loop.simps [simp del]

definition addDevice :: "nat \<times> string \<Rightarrow> (nat \<times> string) list \<Rightarrow> (nat \<times> string) list" where
  "addDevice dev devs = devs @ [dev]"

definition removeDevice :: "nat \<times> string \<Rightarrow> (nat \<times> string) list \<Rightarrow> (nat \<times> string) list" where
  "removeDevice dev devs = remove_loop (snd dev) 0 devs"

end
