(* ===== verification/LoadExamples.thy ===== *)
theory LoadExamples
  imports LoadCounts
begin

text \<open>A small remote file system and device, at which the theorems about loading are applied.\<close>

definition whole_file :: "string \<Rightarrow> remote_file" where
  "whole_file c = \<lparr>size_of = Returned (int (length c)), read_at = (\<lambda>pos n. Returned (take (nat n) (drop pos c)))\<rparr>"

definition entry_info :: "string \<Rightarrow> file_kind \<Rightarrow> bool \<Rightarrow> file_info" where
  "entry_info n k x = \<lparr>info_name = n, info_kind = k, info_executable = x, info_modified = None\<rparr>"

definition example_tree :: remote_tree where
  "example_tree = RemoteDir [(''a.py'', RemoteFile ''xy'' False), (''s'', RemoteDir [(''b'', RemoteFile ''z'' True)])]"

definition example_remote :: remote_files where
  "example_remote = \<lparr>list_files = (\<lambda>q.
       if q = ''/lib/p'' then Returned [entry_info ''p'' DIRECTORY False]
       else if q = ''/lib/p/'' then Returned [entry_info ''a.py'' PLAIN False, entry_info ''s'' DIRECTORY False]
       else if q = ''/lib/p//s'' then Returned [entry_info ''s'' DIRECTORY False]
       else if q = ''/lib/p//s/'' then Returned [entry_info ''b'' PLAIN True]
       else Returned []),
     open_file = (\<lambda>q.
       if q = ''/lib/p/a.py'' then Returned (whole_file ''xy'')
       else if q = ''/lib/p//s/b'' then Returned (whole_file ''z'')
       else Raised InvalidFileName)\<rparr>"

definition example_view :: os_view where
  "example_view = \<lparr>modified_at = (\<lambda>p. 0), is_busy = (\<lambda>p. False), seconds = ''7'', work_dir = ''/cache'',
     nm_reads = (\<lambda>p. False), can_import = (\<lambda>p. False), zip_archive = (\<lambda>p. False), samefile = (\<lambda>p q. None)\<rparr>"

definition example_loader :: loader where
  "example_loader = \<lparr>d_usageState = IDLE, d_adminState = UNLOCKED, d_operationalState = ENABLED, idm_publisher = False,
     idm_events = [], local_files = [(''lib'', LocalDir)], loadedFiles = [], environ = [], modifications = [], sharedPkgs = []\<rparr>"

lemma whole_file_delivers: "open_file R q = Returned (whole_file c) \<Longrightarrow> delivers R q c"
  unfolding delivers_def by (rule exI [of _ "whole_file c"]) (auto simp: whole_file_def intro: exI [of _ "nat _"])

lemma example_served: "serves example_remote (absolute [''lib''] ''p'') (''p'', example_tree)"
proof -
  have q: "absolute [''lib''] ''p'' = ''/lib/p''" by (simp add: absolute_def)
  have d: "delivers example_remote ''/lib/p/a.py'' ''xy''" "delivers example_remote ''/lib/p//s/b'' ''z''"
    by (rule whole_file_delivers, simp add: example_remote_def)+
  show ?thesis unfolding q example_tree_def
    using d by (subst serves.simps(2))
      (simp add: example_remote_def entry_info_def describes_def, subst serves.simps(2), simp add: entry_info_def describes_def)
qed

lemma example_names: "\<forall>d \<in> set ([''lib''] @ [''p'']). plain_name d"
  by (simp add: plain_name_def proper_name_def)

lemma example_proper: "proper_tree example_tree" "depth example_tree \<le> 5"
  by (simp_all add: example_tree_def proper_name_def)

lemma example_plan: "whole_plan [''lib''] ''p'' example_tree =
  [(''lib'', LocalDir), (''lib/p'', LocalDir), (''lib/p/a.py'', LocalFile ''xy'' False), (''lib/p/s'', LocalDir),
   (''lib/p/s/b'', LocalFile ''z'' True)]"
  by code_simp

lemma example_tree_items: "tree_items (relative ([''lib''] @ [''p''])) example_tree =
  [(''lib/p/a.py'', LocalFile ''xy'' False), (''lib/p/s'', LocalDir), (''lib/p/s/b'', LocalFile ''z'' True)]"
  by code_simp

lemma example_ready: "ready example_view (local_files example_loader) (whole_plan [''lib''] ''p'' example_tree)"
  unfolding example_plan by (simp add: ready_def node_ready_def example_loader_def)

lemma example_unloaded: "dget (loadedFiles example_loader) (absolute [''lib''] ''p'') = None" "in_use example_loader"
  by (simp_all add: example_loader_def in_use_def isLocked_def isDisabled_def)

theorem load_copies_remote_tree_witness:
  "\<exists>d. LoadableDevice_load 5 example_view example_remote (absolute [''lib''] ''p'') EXECUTABLE example_loader = (Ok (), d) \<and>
    node_present (local_files d) (''lib/p/s/b'', LocalFile ''z'' True)"
proof -
  obtain fs where fs: "LoadableDevice_load 5 example_view example_remote (absolute [''lib''] ''p'') EXECUTABLE example_loader =
      (Ok (), example_loader\<lparr>local_files := fs,
        loadedFiles := dput (absolute [''lib''] ''p'') (1, listed_files (relative ([''lib''] @ [''p''])) example_tree)
          (loadedFiles example_loader)\<rparr>)"
    "\<forall>pn \<in> set (whole_plan [''lib''] ''p'' example_tree). node_present fs pn"
    using load_copies_remote_tree [OF example_names example_served example_proper example_ready example_unloaded] by blast
  from fs(2) have "node_present fs (''lib/p/s/b'', LocalFile ''z'' True)" by (simp add: example_plan)
  then show ?thesis using fs(1) by auto
qed


lemma example_compiled: "compiled (tree_items (relative ([''lib''] @ [''p''])) example_tree) = {''lib/p/a.pyc''}"
proof -
  have e: "ends_py ''lib/p/a.py''" "\<not> ends_py ''lib/p/s/b''" by code_simp+
  have three: "[x, y, z] = [x] @ [y] @ [z]" for x y z :: "string \<times> node" by simp
  show ?thesis unfolding example_tree_items three compiled_append compiled_one using e by simp
qed

lemma example_fresh: "fresh_place (local_files example_loader) [''lib''] ''p'' example_tree"
proof -
  have p: "parent ''lib'' = []" by code_simp
  show ?thesis unfolding fresh_place_def Let_def example_compiled example_plan unfolding example_tree_items
    by (auto simp: example_loader_def parent_exists_def p split: if_splits)
qed

lemma example_kept: "kept_dirs [''lib''] ''p'' example_tree = [(''lib'', LocalDir), (''lib/p'', LocalDir)]"
  by code_simp

definition compile_module :: "loader \<Rightarrow> loader" where
  "compile_module d = d\<lparr>local_files := dput ''lib/p/a.pyc'' (LocalFile ''q'' False) (local_files d)\<rparr>"

theorem unload_undoes_load_witness:
  "\<exists>d fs. LoadableDevice_load 5 example_view example_remote (absolute [''lib''] ''p'') EXECUTABLE example_loader = (Ok (), d) \<and>
    LoadableDevice_unload (absolute [''lib''] ''p'') (compile_module d) =
      (Ok (), (compile_module d)\<lparr>local_files := fs, loadedFiles := dpop (absolute [''lib''] ''p'') (loadedFiles (compile_module d))\<rparr>) \<and>
    dget fs ''lib/p/s/b'' = None \<and> dget fs ''lib/p/a.pyc'' = None \<and> dget fs ''lib/p'' = Some LocalDir"
proof -
  let ?f = "absolute [''lib''] ''p''"
  obtain d where d: "LoadableDevice_load 5 example_view example_remote ?f EXECUTABLE example_loader = (Ok (), d)" "in_use d"
  proof -
    have u: "in_use (example_loader\<lparr>local_files := fs, loadedFiles := L\<rparr>)" for fs L
      using example_unloaded(2) by (simp add: in_use_def isLocked_def isDisabled_def)
    show thesis
      by (rule that [OF load_executable_run [OF example_unloaded(2) load_cached_run [OF example_names example_served
            example_proper example_ready example_unloaded(1)]] u])
  qed
  have m: "meanwhile (compiled (tree_items (relative ([''lib''] @ [''p''])) example_tree)) d (compile_module d)"
    unfolding meanwhile_def example_compiled using d(2) by (simp add: compile_module_def in_use_def isLocked_def isDisabled_def)
  obtain fs where fs: "LoadableDevice_unload ?f (compile_module d) =
      (Ok (), (compile_module d)\<lparr>local_files := fs, loadedFiles := dpop ?f (loadedFiles (compile_module d))\<rparr>)"
    "\<forall>q. dget fs q = (if (q, LocalDir) \<in> set (kept_dirs [''lib''] ''p'' example_tree) then Some LocalDir
      else dget (local_files example_loader) q)"
    using unload_undoes_load [OF example_names example_served example_proper example_ready example_unloaded example_fresh d(1) m]
    by blast
  have "dget fs ''lib/p/s/b'' = None" "dget fs ''lib/p/a.pyc'' = None" "dget fs ''lib/p'' = Some LocalDir"
    by (simp_all add: fs(2) example_kept example_loader_def)
  then show ?thesis using d(1) fs(1) by blast
qed

text \<open>Two loads that succeed, one that is refused because the device is locked, and an unload.\<close>

definition counted_calls :: "load_call list" where
  "counted_calls = [Load example_view example_remote ''/lib/p'' EXECUTABLE, Unload ''/x'', Load example_view example_remote ''/lib/p'' EXECUTABLE,
     Unload ''/lib/p'', SetAdmin LOCKED, Load example_view example_remote ''/lib/p'' EXECUTABLE]"

lemma counted_changes:
  "map (reference_change ''/lib/p'') (fst (load_run 5 counted_calls example_loader)) = [1, 0, 1, - 1, 0, 0]"
  by code_simp

theorem references_are_counted_witness:
  "references (loadedFiles (snd (load_run 5 counted_calls example_loader))) ''/lib/p'' = 1"
proof -
  have p: "positive_counts (loadedFiles example_loader)" by (simp add: positive_counts_def example_loader_def)
  have z: "references (loadedFiles example_loader) ''/lib/p'' = 0" by code_simp
  obtain hist d where run: "load_run 5 counted_calls example_loader = (hist, d)" by fastforce
  have "map (reference_change ''/lib/p'') hist = [1, 0, 1, - 1, 0, 0]" using counted_changes run by simp
  then show ?thesis using references_are_counted [OF p run, of "''/lib/p''"] run z by simp
qed

end
