(* ===== verification/ExecutableRuns.thy ===== *)
theory ExecutableRuns
  imports ExecutableDevice LoadExamples
begin

text \<open>
  What executing and stopping processes guarantees: the environment of the device after
  \<open>executeLinked\<close>, the one that the process gets, and how far \<open>terminate\<close> goes.
\<close>

section \<open>Search paths\<close>

lemma prepend_elsewhere: "v \<noteq> var \<Longrightarrow> dget (prependToEnvVar w val var env) v = dget env v"
  by (simp add: prependToEnvVar_def)

lemma prepends_elsewhere:
  "v \<notin> fst ` set mods \<Longrightarrow> dget (fold (\<lambda>(var, val). prependToEnvVar w val var) mods env) v = dget env v"
  by (induction mods arbitrary: env) (auto simp: prepend_elsewhere)

lemma split_on_both: "split_on c (a @ c # b) = split_on c a @ split_on c b"
proof (induction a)
  case (Cons x a)
  have "split_on c a \<noteq> []" by (cases a) (auto split: list.split)
  then show ?case using Cons by (auto split: list.split)
qed simp

definition on_path :: "os_view \<Rightarrow> (string, string) dict \<Rightarrow> string \<times> string \<Rightarrow> bool" where
  "on_path w env m \<longleftrightarrow> list_ex (\<lambda>entry. same_entry w entry (snd m)) (getEnvVarAsList env (fst m))"

lemma prepend_entries:
  "set (getEnvVarAsList env v) \<subseteq> set (getEnvVarAsList (prependToEnvVar w val var env) v)"
proof (cases "v = var")
  case True
  have "val @ '':'' @ old @ '':'' = val @ CHR '':'' # (old @ CHR '':'' # [])" for old by simp
  then show ?thesis using True
    by (auto simp: prependToEnvVar_def getEnvVarAsList_def split_on_both split: option.split)
qed (simp add: prepend_elsewhere getEnvVarAsList_def)

lemma prepend_keeps: "on_path w env m \<Longrightarrow> on_path w (prependToEnvVar w val var env) m"
  using prepend_entries unfolding on_path_def list_ex_iff by blast

lemma prepend_adds:
  assumes "same_entry w val val" "CHR '':'' \<notin> set val"
  shows "on_path w (prependToEnvVar w val var env) (var, val)"
proof (cases "list_ex (\<lambda>entry. same_entry w entry val) (getEnvVarAsList env var)")
  case True
  then show ?thesis by (simp add: on_path_def prependToEnvVar_def)
next
  case False
  have "val \<in> set (getEnvVarAsList (prependToEnvVar w val var env) var)"
    using False assms(2) by (auto simp: prependToEnvVar_def getEnvVarAsList_def split_on_append split: option.split)
  then show ?thesis using assms(1) by (auto simp: on_path_def list_ex_iff)
qed

lemma prepends_keep: "on_path w env m \<Longrightarrow> on_path w (fold (\<lambda>(var, val). prependToEnvVar w val var) mods env) m"
  by (induction mods arbitrary: env) (auto simp: prepend_keeps)

lemma prepends_add:
  "m \<in> set mods \<Longrightarrow> same_entry w (snd m) (snd m) \<Longrightarrow> CHR '':'' \<notin> set (snd m) \<Longrightarrow>
   on_path w (fold (\<lambda>(var, val). prependToEnvVar w val var) mods env) m"
proof (induction mods arbitrary: env)
  case (Cons k mods)
  obtain var val where k: "k = (var, val)" by (cases k)
  show ?case
  proof (cases "m = k")
    case True
    then show ?thesis using prepends_keep [OF prepend_adds [of w val var env]] Cons.prems by (simp add: k)
  next
    case False
    then show ?thesis using Cons by (simp add: k)
  qed
qed simp

lemma update_selected_run:
  "\<exists>env. update_selected_paths w deps d = (Ok (), d\<lparr>environ := env\<rparr>) \<and>
    (\<forall>v. v \<notin> fst ` set (modifications d) \<longrightarrow> dget env v = dget (environ d) v) \<and>
    (deps \<noteq> [] \<longrightarrow> (\<forall>m \<in> set (modifications d). same_entry w (snd m) (snd m) \<longrightarrow> CHR '':'' \<notin> set (snd m) \<longrightarrow> on_path w env m))"
proof (induction deps arbitrary: d)
  case Nil
  then show ?case by (intro exI [of _ "environ d"]) (simp add: update_selected_paths_def)
next
  case (Cons dep deps)
  let ?e = "fold (\<lambda>(var, val). prependToEnvVar w val var) (modifications d) (environ d)"
  obtain env where env: "update_selected_paths w deps (d\<lparr>environ := ?e\<rparr>) = (Ok (), d\<lparr>environ := ?e\<rparr>\<lparr>environ := env\<rparr>)"
    "\<forall>v. v \<notin> fst ` set (modifications d) \<longrightarrow> dget env v = dget ?e v"
    "deps \<noteq> [] \<longrightarrow> (\<forall>m \<in> set (modifications d). same_entry w (snd m) (snd m) \<longrightarrow> CHR '':'' \<notin> set (snd m) \<longrightarrow> on_path w env m)"
    using Cons.IH [of "d\<lparr>environ := ?e\<rparr>"] by auto
  have run: "update_selected_paths w (dep # deps) d = (Ok (), d\<lparr>environ := env\<rparr>)"
    using env(1) by (simp add: update_selected_paths_def apply_modifications_def)
  have all: "on_path w env m" if "m \<in> set (modifications d)" "same_entry w (snd m) (snd m)" "CHR '':'' \<notin> set (snd m)" for m
  proof (cases "deps = []")
    case True
    then have "env = ?e" using env(1) by (cases d) (simp add: update_selected_paths_def)
    then show ?thesis using prepends_add that by blast
  qed (use env(3) that in blast)
  show ?case using run env(2) all by (intro exI [of _ env]) (auto simp: prepends_elsewhere)
qed


section \<open>Executing with dependencies\<close>

lemma chmod_effect:
  fixes s :: "'x executor_scheme"
  shows "os_chmod_exec p s = (r, u) \<Longrightarrow> environ u = environ s \<and> launched u = launched s"
  by (auto simp: os_chmod_exec_def split: option.splits node.splits)

lemma execute_process_effect:
  "execute_process F P command ps s = (r, u) \<Longrightarrow> environ u = environ s \<and>
    (\<forall>pid. r = Ok pid \<longrightarrow> (\<exists>args. launched u = launched s @ [(pid, args, environ s)]))"
proof -
  assume run: "execute_process F P command ps s = (r, u)"
  show ?thesis
  proof (cases "process_arguments F ps")
    case (Returned as)
    then show ?thesis using run by (auto simp: execute_process_def split: outcome.splits if_splits)
  qed (use run in \<open>auto simp: execute_process_def act_bind_def\<close>)
qed

lemma execute_effect:
  assumes "ExecutableDevice_execute F P name options ps s = (r, u)"
  shows "environ u = environ s \<and> (\<forall>pid. r = Ok pid \<longrightarrow> (\<exists>args. launched u = launched s @ [(pid, args, environ s)]))"
proof (cases "starts_with_slash name \<and> \<not> isLocked s \<and> \<not> isDisabled s \<and> \<not> list_ex invalid_option options
    \<and> is_file (local_files s) (tl name)")
  case False
  then show ?thesis using assms by (auto simp: ExecutableDevice_execute_def split: if_splits)
next
  case True
  then have run: "act_then (os_chmod_exec (tl name)) (execute_process F P (tl name) ps) s = (r, u)"
    using assms by (simp add: ExecutableDevice_execute_def)
  obtain q t where q: "os_chmod_exec (tl name) s = (q, t)" by (cases "os_chmod_exec (tl name) s")
  show ?thesis using run execute_process_effect [of F P "tl name" ps t r u] chmod_effect [OF q] q
    by (cases q) (auto simp: act_then_def act_bind_def)
qed

lemma finally_run:
  assumes "m s = (r, u)" "n u = (Ok (), t)" "r \<noteq> Hangs"
  shows "act_finally m n s = (r, t)"
  using assms by (cases r) (simp_all add: act_finally_def act_bind_def act_catch_def act_then_def)

lemma executeLinked_run:
  fixes s :: "'x executor_scheme"
  assumes "executeLinked F P w name options ps deps s = (r, t)" "r \<noteq> Hangs"
  obtains env u where
    "ExecutableDevice_execute F P name options (ps @ [(''RH::DEPLOYMENT_ROOT'', VStr (cacheDirectory s))]) (s\<lparr>environ := env\<rparr>) = (r, u)"
    "t = u\<lparr>environ := fold (\<lambda>(v, s). dput v s) (env_snapshot (environ s)) (environ u)\<rparr>"
    "\<forall>v. v \<notin> fst ` set (modifications s) \<union> fst ` set (initialState s) \<longrightarrow> dget env v = dget (environ s) v"
    "\<forall>dep \<in> set deps. dep \<in> set (sharedPkgs s) \<longrightarrow> (\<forall>m \<in> set (modifications s). same_entry w (snd m) (snd m) \<longrightarrow>
       CHR '':'' \<notin> set (snd m) \<longrightarrow> on_path w env m)"
proof -
  let ?e = "fold (\<lambda>(v, s). dput v s) (initialState s) (environ s)"
  let ?deps = "filter (\<lambda>dep. dep \<in> set (sharedPkgs s)) deps"
  let ?ps = "ps @ [(''RH::DEPLOYMENT_ROOT'', VStr (cacheDirectory s))]"
  have init: "dget (fold (\<lambda>(v, s). dput v s) snap e) v = dget e v" if "v \<notin> fst ` set snap" for snap e v
    using that by (induction snap arbitrary: e) auto
  obtain env where env: "update_selected_paths w ?deps (s\<lparr>environ := ?e\<rparr>) = (Ok (), s\<lparr>environ := ?e\<rparr>\<lparr>environ := env\<rparr>)"
    "\<forall>v. v \<notin> fst ` set (modifications s) \<longrightarrow> dget env v = dget ?e v"
    "?deps \<noteq> [] \<longrightarrow> (\<forall>m \<in> set (modifications s). same_entry w (snd m) (snd m) \<longrightarrow> CHR '':'' \<notin> set (snd m) \<longrightarrow> on_path w env m)"
    using update_selected_run [of w ?deps "s\<lparr>environ := ?e\<rparr>"] by auto
  obtain q u where q: "ExecutableDevice_execute F P name options ?ps (s\<lparr>environ := env\<rparr>) = (q, u)"
    by (cases "ExecutableDevice_execute F P name options ?ps (s\<lparr>environ := env\<rparr>)")
  let ?body = "act_then (set_env (initialState s)) (act_then (update_selected_paths w ?deps)
     (ExecutableDevice_execute F P name options ?ps))"
  have body: "?body s = (q, u)"
    using q by (simp add: set_env_def act_then_run(1) [where m = "update_selected_paths w ?deps", OF env(1)])
  have linked: "executeLinked F P w name options ps deps s = act_finally ?body (set_env (env_snapshot (environ s))) s"
    by (simp add: executeLinked_def)
  let ?t = "u\<lparr>environ := fold (\<lambda>(v, s). dput v s) (env_snapshot (environ s)) (environ u)\<rparr>"
  have "q \<noteq> Hangs"
  proof
    assume "q = Hangs"
    then have "r = Hangs" using assms(1) body by (simp add: linked act_finally_def act_bind_def act_catch_def)
    then show False using assms(2) by simp
  qed
  have "set_env (env_snapshot (environ s)) u = (Ok (), ?t)" by (simp add: set_env_def)
  from finally_run [where m = ?body and n = "set_env (env_snapshot (environ s))", OF body this \<open>q \<noteq> Hangs\<close>] have "r = q" "t = ?t"
    using assms(1) by (simp_all add: linked)
  moreover have "\<forall>v. v \<notin> fst ` set (modifications s) \<union> fst ` set (initialState s) \<longrightarrow> dget env v = dget (environ s) v"
    using env(2) init by auto
  moreover have "\<forall>dep \<in> set deps. dep \<in> set (sharedPkgs s) \<longrightarrow> (\<forall>m \<in> set (modifications s). same_entry w (snd m) (snd m) \<longrightarrow>
       CHR '':'' \<notin> set (snd m) \<longrightarrow> on_path w env m)"
    using env(3) by (metis (mono_tags, lifting) filter_empty_conv)
  ultimately show thesis using q that by blast
qed

lemma restored: "dget (fold (\<lambda>(v, s). dput v s) (env_snapshot e) env) v =
    (if v \<in> set search_paths then Some (case dget e v of Some x \<Rightarrow> x | None \<Rightarrow> []) else dget env v)"
  by (simp add: env_snapshot_def search_paths_def)

text \<open>
  C38: Whether starting the process succeeds or raises an exception, \<open>executeLinked\<close> leaves the environment
  of the device as it was, except that the four search paths that were not set are now empty strings.
\<close>

theorem executeLinked_restores_environment:
  assumes "executeLinked F P w name options ps deps s = (r, t)" "r \<noteq> Hangs"
    and "fst ` set (modifications s) \<subseteq> set search_paths" "map fst (initialState s) = search_paths"
  shows "dget (environ t) v =
    (if v \<in> set search_paths then Some (case dget (environ s) v of Some x \<Rightarrow> x | None \<Rightarrow> []) else dget (environ s) v)"
proof -
  obtain env u where u:
    "ExecutableDevice_execute F P name options (ps @ [(''RH::DEPLOYMENT_ROOT'', VStr (cacheDirectory s))]) (s\<lparr>environ := env\<rparr>) = (r, u)"
    "t = u\<lparr>environ := fold (\<lambda>(v, s). dput v s) (env_snapshot (environ s)) (environ u)\<rparr>"
    "\<forall>v. v \<notin> fst ` set (modifications s) \<union> fst ` set (initialState s) \<longrightarrow> dget env v = dget (environ s) v"
    by (rule executeLinked_run [OF assms(1,2)]) blast
  have "environ u = env" using execute_effect [OF u(1)] by simp
  moreover have "fst ` set (initialState s) = set search_paths" using assms(4) by (metis set_map)
  moreover have "dget env v = dget (environ s) v" if "v \<notin> set search_paths"
    using u(3) that assms(3) calculation(2) by blast
  ultimately show ?thesis using u(2) by (simp add: restored)
qed

text \<open>
  C39: A process that is started with one shared library as its dependency gets, in the search paths of its
  environment, the directories of every library that was ever loaded, by this device or another one in
  the same Python process: the list of modifications belongs to the class \<open>sharedLibraryStorage\<close>
  and not to its objects.
\<close>

theorem one_dependency_selects_all:
  assumes "executeLinked F P w name options ps deps s = (Ok pid, t)" "dep \<in> set deps" "dep \<in> set (sharedPkgs s)"
    and "(var, val) \<in> set (modifications s)" "CHR '':'' \<notin> set val" "same_entry w val val"
  shows "\<exists>args env. launched t = launched s @ [(pid, args, env)] \<and>
    (\<exists>entry \<in> set (getEnvVarAsList env var). same_entry w entry val)"
proof -
  obtain env u where u:
    "ExecutableDevice_execute F P name options (ps @ [(''RH::DEPLOYMENT_ROOT'', VStr (cacheDirectory s))]) (s\<lparr>environ := env\<rparr>) = (Ok pid, u)"
    "t = u\<lparr>environ := fold (\<lambda>(v, s). dput v s) (env_snapshot (environ s)) (environ u)\<rparr>"
    "\<forall>dep \<in> set deps. dep \<in> set (sharedPkgs s) \<longrightarrow> (\<forall>m \<in> set (modifications s). same_entry w (snd m) (snd m) \<longrightarrow>
       CHR '':'' \<notin> set (snd m) \<longrightarrow> on_path w env m)"
    by (rule executeLinked_run [OF assms(1)]) (simp, blast)
  obtain args where "launched u = launched s @ [(pid, args, env)]" using execute_effect [OF u(1)] by auto
  moreover have "on_path w env (var, val)" using u(3) assms(2-6) by force
  ultimately show ?thesis using u(2) by (auto simp: on_path_def list_ex_iff)
qed


section \<open>Stopping a process group\<close>

lemma checkpg_update [simp]:
  "checkpg (d\<lparr>applications := a\<rparr>) pid = checkpg d pid"
  by (simp add: checkpg_def split: option.split)

lemma wait_gone_run:
  "\<exists>m \<le> n. wait_gone pid (clock d + of_nat n / 10) d = d\<lparr>clock := clock d + of_nat m / 10\<rparr> \<and>
    (m < n \<longrightarrow> \<not> checkpg (d\<lparr>clock := clock d + of_nat m / 10\<rparr>) pid)"
proof (induction n arbitrary: d)
  case 0
  then show ?case by (simp add: wait_gone.simps)
next
  case (Suc n)
  show ?case
  proof (cases "checkpg d pid")
    case False
    then show ?thesis by (intro exI [of _ 0]) (simp add: wait_gone.simps)
  next
    case True
    let ?d = "d\<lparr>clock := clock d + 1 / 10\<rparr>"
    have e: "clock d + of_nat (Suc n) / 10 = clock ?d + of_nat n / 10" by (simp add: field_simps)
    obtain m where m: "m \<le> n" "wait_gone pid (clock ?d + of_nat n / 10) ?d = ?d\<lparr>clock := clock ?d + of_nat m / 10\<rparr>"
      "m < n \<longrightarrow> \<not> checkpg (?d\<lparr>clock := clock ?d + of_nat m / 10\<rparr>) pid" using Suc.IH by blast
    have s: "?d\<lparr>clock := clock ?d + of_nat m / 10\<rparr> = d\<lparr>clock := clock d + of_nat (Suc m) / 10\<rparr>" by (simp add: field_simps)
    have "wait_gone pid (clock d + of_nat (Suc n) / 10) d = wait_gone pid (clock ?d + of_nat n / 10) ?d"
      using True unfolding e by (subst wait_gone.simps) (simp add: add_pos_nonneg)
    then show ?thesis using m(1,2,3) unfolding s by (intro exI [of _ "Suc m"]) simp
  qed
qed

definition tenths :: "(int \<times> rat) list \<Rightarrow> bool" where
  "tenths sigs \<longleftrightarrow> (\<forall>(sig, timeout) \<in> set sigs. \<exists>n. timeout = of_nat n / 10)"

lemma killpg_fields [simp]:
  "clock (killpg P pid sig d) = clock d" "applications (killpg P pid sig d) = applications d"
  "signals_sent (killpg P pid sig d) = signals_sent d @ [(pid, sig)]"
  "isLocked (killpg P pid sig d) = isLocked d"
  by (simp_all add: killpg_def isLocked_def)

lemma stop_group_run:
  assumes "tenths sigs"
  shows "\<exists>k \<le> length sigs. let t = stop_group P pid sigs d in
    signals_sent t = signals_sent d @ map (Pair pid) (take k (map fst sigs)) \<and> applications t = applications d \<and>
    (k < length sigs \<longrightarrow> \<not> checkpg t pid) \<and> (checkpg d pid \<longrightarrow> sigs \<noteq> [] \<longrightarrow> 0 < k) \<and> (\<not> checkpg d pid \<longrightarrow> k = 0) \<and>
    clock d + sum_list (take (k - 1) (map snd sigs)) \<le> clock t \<and> clock t \<le> clock d + sum_list (take k (map snd sigs))"
  using assms
proof (induction sigs arbitrary: d)
  case (Cons s sigs)
  obtain sig timeout where s: "s = (sig, timeout)" by (cases s)
  obtain n where n: "timeout = of_nat n / 10" using Cons.prems by (auto simp: s tenths_def)
  show ?case
  proof (cases "checkpg d pid")
    case False
    then show ?thesis by (intro exI [of _ 0]) (simp add: s)
  next
    case True
    let ?d = "killpg P pid sig d"
    obtain m where m: "m \<le> n" "wait_gone pid (clock d + timeout) ?d = ?d\<lparr>clock := clock d + of_nat m / 10\<rparr>"
      "m < n \<longrightarrow> \<not> checkpg (?d\<lparr>clock := clock d + of_nat m / 10\<rparr>) pid"
      using wait_gone_run [of n pid ?d] by (auto simp: n)
    let ?e = "?d\<lparr>clock := clock d + of_nat m / 10\<rparr>" and ?t = "stop_group P pid sigs (?d\<lparr>clock := clock d + of_nat m / 10\<rparr>)"
    obtain k where k: "k \<le> length sigs"
      "signals_sent ?t = signals_sent ?e @ map (Pair pid) (take k (map fst sigs))" "applications ?t = applications ?e"
      "k < length sigs \<longrightarrow> \<not> checkpg ?t pid" "\<not> checkpg ?e pid \<longrightarrow> k = 0"
      "clock ?e + sum_list (take (k - 1) (map snd sigs)) \<le> clock ?t" "clock ?t \<le> clock ?e + sum_list (take k (map snd sigs))"
      using Cons.IH [of ?e] Cons.prems by (auto simp: tenths_def Let_def)
    have le: "(of_nat m :: rat) / 10 \<le> timeout" using m(1) by (simp add: n divide_right_mono)
    have lower: "clock d + sum_list (take k (timeout # map snd sigs)) \<le> clock ?t"
    proof (cases k)
      case 0
      then show ?thesis using k(6) by (simp add: order_trans [of _ "clock d + of_nat m / 10"])
    next
      case (Suc k')
      then have "m = n" using k(5) m(1,3) by auto
      then show ?thesis using k(6) Suc by (simp add: n)
    qed
    have t: "stop_group P pid (s # sigs) d = ?t" using True m(2) by (simp add: s)
    show ?thesis unfolding t Let_def
      using k(1-4,7) le lower True by (intro exI [of _ "Suc k"]) (simp add: s)
  qed
qed simp

text \<open>
  C21: \<open>terminate\<close> of a process that the device knows, on a device that is neither locked nor disabled, always
  returns, after at most four and a half seconds of nominal waiting: each of its sleeps counts as the tenth of a
  second that it asks for, although \<open>time.sleep\<close> may take longer. It sends the process group SIGINT, SIGTERM and SIGKILL in this order and stops as soon as the group is gone: the
  second signal is sent only when the group has outlived two seconds, the third when it has outlived four.
  Afterwards the process is forgotten, whether it is gone or not.
\<close>

theorem terminate_escalates:
  assumes "in_use s" "dget (applications s) pid \<noteq> None"
  shows "\<exists>t k. ExecutableDevice_terminate P pid s = (Ok (), t) \<and> dget (applications t) pid = None \<and> k \<le> 3 \<and>
    signals_sent t = signals_sent s @ map (Pair pid) (take k [2, 15, 9]) \<and> (k = 0 \<longleftrightarrow> \<not> checkpg s pid) \<and>
    (k < 3 \<longrightarrow> \<not> checkpg t pid) \<and> (2 \<le> k \<longrightarrow> clock s + 2 \<le> clock t) \<and> (k = 3 \<longrightarrow> clock s + 4 \<le> clock t) \<and>
    clock s \<le> clock t \<and> clock t \<le> clock s + 9 / 2"
proof -
  let ?u = "stop_group P pid STOP_SIGNALS s"
  let ?t = "?u\<lparr>applications := dpop pid (applications ?u)\<rparr>"
  have "tenths STOP_SIGNALS"
    by (auto simp: tenths_def STOP_SIGNALS_def intro: exI [of _ 20] exI [of _ 5])
  have lists: "length STOP_SIGNALS = 3" "map fst STOP_SIGNALS = [2, 15, 9]" "map snd STOP_SIGNALS = [2, 2, 1 / 2]"
    "(STOP_SIGNALS \<noteq> [] \<longrightarrow> b) = b" for b
    by (simp_all add: STOP_SIGNALS_def)
  from stop_group_run [OF \<open>tenths STOP_SIGNALS\<close>, of P pid s] obtain k where k: "k \<le> 3"
    "signals_sent ?u = signals_sent s @ map (Pair pid) (take k [2, 15, 9])" "applications ?u = applications s"
    "k < 3 \<longrightarrow> \<not> checkpg ?u pid" "checkpg s pid \<longrightarrow> 0 < k" "\<not> checkpg s pid \<longrightarrow> k = 0"
    "clock s + sum_list (take (k - 1) [2, 2, 1 / 2]) \<le> clock ?u" "clock ?u \<le> clock s + sum_list (take k [2, 2, 1 / 2])"
    unfolding Let_def lists by (elim exE conjE) (rule that; assumption)
  have run: "ExecutableDevice_terminate P pid s = (Ok (), ?t)"
    using assms by (simp add: ExecutableDevice_terminate_def terminate_process_def in_use_def)
  consider "k = 0" | "k = 1" | "k = 2" | "k = 3" using k(1) by linarith
  then have "(2 \<le> k \<longrightarrow> clock s + 2 \<le> clock ?u) \<and> (k = 3 \<longrightarrow> clock s + 4 \<le> clock ?u) \<and> clock s \<le> clock ?u \<and> clock ?u \<le> clock s + 9 / 2"
    using k(7,8) by cases simp_all
  then show ?thesis using run k(1-6) by (intro exI [of _ ?t] exI [of _ k]) auto
qed


section \<open>Removing a child device\<close>

lemma remove_loop_none: "\<forall>d \<in> set (drop i devs). snd d \<noteq> ident \<Longrightarrow> remove_loop ident i devs = devs"
proof (induction ident i devs rule: remove_loop.induct)
  case (1 ident i devs)
  show ?case
  proof (cases "i < length devs")
    case True
    then have "drop i devs = devs ! i # drop (Suc i) devs" by (simp add: Cons_nth_drop_Suc)
    then have "snd (devs ! i) \<noteq> ident" "\<forall>d \<in> set (drop (Suc i) devs). snd d \<noteq> ident" using "1.prems" by simp_all
    then show ?thesis using "1.IH"(2) [OF True] by (subst remove_loop.simps) simp
  qed (simp add: remove_loop.simps)
qed

text \<open>Among devices with different identifiers the right one is removed; of one that was added twice, one stays.\<close>

lemma remove_loop_distinct:
  "distinct (map snd devs) \<Longrightarrow> \<forall>d \<in> set (take i devs). snd d \<noteq> ident \<Longrightarrow>
   remove_loop ident i devs = filter (\<lambda>d. snd d \<noteq> ident) devs"
proof (induction ident i devs rule: remove_loop.induct)
  case (1 ident i devs)
  show ?case
  proof (cases "i < length devs \<and> snd (devs ! i) = ident")
    case True
    let ?xs = "take i devs" and ?ys = "drop (Suc i) devs"
    have devs: "devs = ?xs @ devs ! i # ?ys" using True by (simp add: id_take_nth_drop)
    have "distinct (map snd (?xs @ devs ! i # ?ys))" using "1.prems"(1) devs by simp
    then have apart: "snd (devs ! i) \<notin> snd ` set ?xs" "snd (devs ! i) \<notin> snd ` set ?ys" by simp_all
    have other: "\<forall>d \<in> set ?xs \<union> set ?ys. snd d \<noteq> ident"
    proof
      fix d assume "d \<in> set ?xs \<union> set ?ys"
      then have "snd d \<in> snd ` set ?xs \<union> snd ` set ?ys" by blast
      then show "snd d \<noteq> ident" using apart True by (metis Un_iff)
    qed
    have first: "devs ! i \<notin> set ?xs" using apart(1) by blast
    have "remove1 (devs ! i) devs = ?xs @ ?ys"
      using first by (subst devs) (simp add: remove1_append del: append_take_drop_id)
    moreover have "remove_loop ident (Suc i) (?xs @ ?ys) = ?xs @ ?ys"
    proof (rule remove_loop_none)
      have "\<forall>d \<in> set (?xs @ ?ys). snd d \<noteq> ident" using other by simp
      then show "\<forall>d \<in> set (drop (Suc i) (?xs @ ?ys)). snd d \<noteq> ident" using in_set_dropD by fast
    qed
    moreover have "filter (\<lambda>d. snd d \<noteq> ident) devs = ?xs @ ?ys"
      using other True by (subst devs) (simp add: filter_True del: append_take_drop_id)
    ultimately show ?thesis using True by (subst remove_loop.simps) simp
  next
    case False
    show ?thesis
    proof (cases "i < length devs")
      case True
      then have "\<forall>d \<in> set (take (Suc i) devs). snd d \<noteq> ident"
        using "1.prems"(2) False by (auto simp: take_Suc_conv_app_nth)
      then show ?thesis using "1.IH"(2) [OF True] False True "1.prems"(1) by (subst remove_loop.simps) simp
    next
      case False
      then show ?thesis using "1.prems"(2) by (subst remove_loop.simps) (simp add: filter_id_conv)
    qed
  qed
qed

lemma removeDevice_distinct: "distinct (map snd devs) \<Longrightarrow> removeDevice dev devs = filter (\<lambda>d. snd d \<noteq> snd dev) devs"
  by (simp add: removeDevice_def remove_loop_distinct)

lemma removeDevice_skips: "removeDevice (1, ''a'') [(1, ''a''), (1, ''a'')] = [(1, ''a'')]"
  by (simp add: removeDevice_def remove_loop.simps)

section \<open>Examples\<close>

definition example_executor :: executor where
  "example_executor = \<lparr>d_usageState = IDLE, d_adminState = UNLOCKED, d_operationalState = ENABLED, idm_publisher = False,
     idm_events = [], local_files = [(''run'', LocalFile ''x'' False)], loadedFiles = [],
     environ = [(''PATH'', ''/bin''), (''CLASSPATH'', ''j'')],
     modifications = [(''LD_LIBRARY_PATH'', ''/cache/a''), (''OCTAVE_PATH'', ''/cache/b'')],
     sharedPkgs = [''/a'', ''/b''], initialState = env_snapshot [], cacheDirectory = ''/cache'',
     applications = [(7, ())], launched = [], clock = 0, group_end = [], signals_sent = []\<rparr>"

definition example_processes :: processes where
  "example_processes = \<lparr>popen = (\<lambda>as. Returned 42),
     reacts = (\<lambda>pid sig. if sig = 15 then Some 1 else None), child_status = (\<lambda>pid. None)\<rparr>"

definition plain_text :: text_format where
  "plain_text = \<lparr>read_float = (\<lambda>s. None), show_value = (\<lambda>v. '''')\<rparr>"

abbreviation "example_run \<equiv> executeLinked plain_text example_processes example_view ''/run'' [] [] [''/a''] example_executor"

lemma example_run_ends: "fst example_run = Ok 42"
  by code_simp

lemma example_run_result: "\<exists>t. example_run = (Ok 42, t)"
  using example_run_ends by (metis prod.collapse)

theorem executeLinked_restores_environment_witness:
  "\<exists>t. example_run = (Ok 42, t) \<and> dget (environ t) ''PATH'' = Some ''/bin'' \<and> dget (environ t) ''CLASSPATH'' = Some ''j'' \<and>
    dget (environ t) ''OCTAVE_PATH'' = Some ''''"
proof -
  obtain t where t: "example_run = (Ok 42, t)" using example_run_result by blast
  have m: "fst ` set (modifications example_executor) \<subseteq> set search_paths" "map fst (initialState example_executor) = search_paths"
    by (simp_all add: example_executor_def search_paths_def env_snapshot_def)
  have "dget (environ t) v = (if v \<in> set search_paths
      then Some (case dget (environ example_executor) v of Some x \<Rightarrow> x | None \<Rightarrow> []) else dget (environ example_executor) v)" for v
    by (rule executeLinked_restores_environment [OF t _ m]) simp
  then show ?thesis using t by (simp add: search_paths_def) (simp add: example_executor_def)
qed

theorem one_dependency_selects_all_witness:
  "\<exists>t args env. example_run = (Ok 42, t) \<and> launched t = [(42, args, env)] \<and>
    (\<exists>entry \<in> set (getEnvVarAsList env ''OCTAVE_PATH''). same_entry example_view entry ''/cache/b'')"
proof -
  obtain t where t: "example_run = (Ok 42, t)" using example_run_result by blast
  have l: "launched example_executor = []" by (simp add: example_executor_def)
  have "\<exists>args env. launched t = launched example_executor @ [(42, args, env)] \<and>
      (\<exists>entry \<in> set (getEnvVarAsList env ''OCTAVE_PATH''). same_entry example_view entry ''/cache/b'')"
    by (rule one_dependency_selects_all [OF t, of "''/a''"])
      (simp_all add: example_executor_def same_entry_def example_view_def)
  then show ?thesis using t unfolding l by auto
qed

theorem terminate_escalates_witness:
  "\<exists>t k. ExecutableDevice_terminate example_processes 7 example_executor = (Ok (), t) \<and> dget (applications t) 7 = None \<and>
    k \<le> 3 \<and> signals_sent t = map (Pair 7) (take k [2, 15, 9]) \<and> 0 < k \<and> clock t \<le> 9 / 2"
proof -
  have s: "in_use example_executor" "dget (applications example_executor) 7 \<noteq> None" "checkpg example_executor 7"
    "signals_sent example_executor = []" "clock example_executor = 0"
    by (simp_all add: example_executor_def in_use_def isLocked_def isDisabled_def checkpg_def)
  obtain t k where t: "ExecutableDevice_terminate example_processes 7 example_executor = (Ok (), t)" "dget (applications t) 7 = None"
    "k \<le> 3" "signals_sent t = signals_sent example_executor @ map (Pair 7) (take k [2, 15, 9])"
    "k = 0 \<longleftrightarrow> \<not> checkpg example_executor 7" "clock t \<le> clock example_executor + 9 / 2"
    using terminate_escalates [OF s(1,2), of example_processes] by blast
  then show ?thesis using s(3-5) by (intro exI [of _ t] exI [of _ k]) simp
qed

end
