(* ===== verification/ThreadedComponent.thy ===== *)
theory ThreadedComponent
  imports Prelude
begin

text \<open>
  \<open>ossie/threadedcomponent.py\<close>: the thread that calls \<open>process\<close> again and again, and the operations that start
  and stop it. The state of a thread is where it is in its loop; the steps of threads and the calls of
  the operations interleave. Only what an operation does while it holds \<open>threadControlLock\<close> is one step:
  what \<open>stopThread\<close> and \<open>setThreadDelay\<close> do after they have released it is a step of its own, and the state
  holds the calls that are between the two. \<open>os._exit\<close> ends everything.
\<close>

section \<open>Threads\<close>

text \<open>
  What \<open>process\<close> gives back: \<open>NORMAL\<close> is any value but the other two, \<open>Fails\<close> an \<open>Exception\<close>, and \<open>Quits\<close> an
  exception that is not one (\<open>SystemExit\<close>), which \<open>run\<close> does not catch.
\<close>

datatype process_result = NOOP | NORMAL | FINISH | Fails | Quits

datatype phase = AtLoop | InTarget | Sleeping rat | Ended

record process_thread =
  stop_signal :: bool
  pause :: rat
  phase_of :: phase

text \<open>
  \<open>current\<close> is \<open>process_thread\<close>, an index into the threads that were started; \<open>stopping\<close> are the threads that a
  call of \<open>stopThread\<close> has taken from there but not told to stop yet, \<open>pausing\<close> the delays that calls of
  \<open>setThreadDelay\<close> have yet to write to \<open>PAUSE\<close>.
\<close>

record threaded =
  current :: "nat option"
  threads :: "process_thread list"
  stopping :: "nat list"
  pausing :: "rat list"
  defaultDelay :: rat
  PAUSE :: "rat option"
  exited :: bool

definition ProcessThread_init :: "rat \<Rightarrow> process_thread" where
  "ProcessThread_init p = \<lparr>stop_signal = False, pause = p, phase_of = AtLoop\<rparr>"

definition ProcessThread_stop :: "process_thread \<Rightarrow> process_thread" where
  "ProcessThread_stop t = t\<lparr>stop_signal := True\<rparr>"

definition updatePause :: "rat \<Rightarrow> process_thread \<Rightarrow> process_thread" where
  "updatePause p t = t\<lparr>pause := p\<rparr>"

text \<open>
  One step of \<open>run\<close>: the test of the loop, the call of the target, or the end of the sleep. A negative
  delay makes \<open>time.sleep\<close> raise, and nothing in \<open>run\<close> catches it.
\<close>

definition run_step :: "process_result \<Rightarrow> process_thread \<Rightarrow> process_thread" where
  "run_step r t = (case phase_of t of
      AtLoop \<Rightarrow> t\<lparr>phase_of := if stop_signal t then Ended else InTarget\<rparr>
    | InTarget \<Rightarrow> t\<lparr>phase_of := (case r of
          FINISH \<Rightarrow> Ended
        | Quits \<Rightarrow> Ended
        | NOOP \<Rightarrow> if pause t < 0 then Ended else Sleeping (pause t)
        | NORMAL \<Rightarrow> Sleeping (1 / 10 ^ 9)
        | Fails \<Rightarrow> InTarget)\<rparr>
    | Sleeping d \<Rightarrow> t\<lparr>phase_of := AtLoop\<rparr>
    | Ended \<Rightarrow> t)"

definition isAlive :: "process_thread \<Rightarrow> bool" where
  "isAlive t \<longleftrightarrow> phase_of t \<noteq> Ended"

section \<open>The component\<close>

definition ThreadedComponent_init :: "rat option \<Rightarrow> threaded" where
  "ThreadedComponent_init p = \<lparr>current = None, threads = [], stopping = [], pausing = [],
     defaultDelay = 125 / 10000, PAUSE = p, exited = False\<rparr>"

definition startThread :: "rat option \<Rightarrow> threaded \<Rightarrow> threaded" where
  "startThread p c = (let p = (case p of None \<Rightarrow> defaultDelay c | Some x \<Rightarrow> x) in
     if current c = None then c\<lparr>current := Some (length (threads c)), threads := threads c @ [ProcessThread_init p]\<rparr>
     else c)"

text \<open>
  \<open>stopThread\<close> in three parts. Under the lock it takes the thread from \<open>process_thread\<close>; then, the lock released,
  it tells that thread to stop; then it waits for it for at most the timeout and gives the answer.
\<close>

definition stopThread_request :: "threaded \<Rightarrow> nat option \<times> threaded" where
  "stopThread_request c = (case current c of
      None \<Rightarrow> (None, c)
    | Some i \<Rightarrow> (Some i, c\<lparr>current := None, stopping := stopping c @ [i]\<rparr>))"

definition stopThread_tell :: "nat \<Rightarrow> threaded \<Rightarrow> threaded" where
  "stopThread_tell i c = (if i \<in> set (stopping c)
     then c\<lparr>stopping := remove1 i (stopping c), threads := (threads c)[i := ProcessThread_stop (threads c ! i)]\<rparr>
     else c)"

definition stopThread_answer :: "nat option \<Rightarrow> threaded \<Rightarrow> bool" where
  "stopThread_answer w c = (case w of None \<Rightarrow> True | Some i \<Rightarrow> \<not> isAlive (threads c ! i))"

definition getThreadDelay :: "threaded \<Rightarrow> rat" where
  "getThreadDelay c = (case PAUSE c of Some p \<Rightarrow> p | None \<Rightarrow> defaultDelay c)"

text \<open>\<open>setThreadDelay\<close> in two parts: the delay of the current thread under the lock, then \<open>PAUSE\<close>, if there is one.\<close>

definition setThreadDelay :: "rat \<Rightarrow> threaded \<Rightarrow> threaded" where
  "setThreadDelay d c = c\<lparr>defaultDelay := d, pausing := pausing c @ [d],
     threads := (case current c of Some i \<Rightarrow> (threads c)[i := updatePause d (threads c ! i)] | None \<Rightarrow> threads c)\<rparr>"

definition setThreadDelay_PAUSE :: "nat \<Rightarrow> threaded \<Rightarrow> threaded" where
  "setThreadDelay_PAUSE k c = (if k < length (pausing c)
     then c\<lparr>PAUSE := map_option (\<lambda>p. pausing c ! k) (PAUSE c), pausing := take k (pausing c) @ drop (Suc k) (pausing c)\<rparr>
     else c)"

definition isRunning :: "threaded \<Rightarrow> bool" where
  "isRunning c \<longleftrightarrow> current c \<noteq> None"

text \<open>A thread makes a step; an exception of the target ends the whole process.\<close>

definition thread_runs :: "nat \<Rightarrow> process_result \<Rightarrow> threaded \<Rightarrow> threaded" where
  "thread_runs i r c = (if phase_of (threads c ! i) = InTarget \<and> r = Fails then c\<lparr>exited := True\<rparr>
     else c\<lparr>threads := (threads c)[i := run_step r (threads c ! i)]\<rparr>)"

inductive threaded_step :: "threaded \<Rightarrow> threaded \<Rightarrow> bool" where
  starts: "\<not> exited c \<Longrightarrow> threaded_step c (startThread p c)"
| stops: "\<not> exited c \<Longrightarrow> threaded_step c (snd (stopThread_request c))"
| tells: "\<not> exited c \<Longrightarrow> threaded_step c (stopThread_tell i c)"
| delays: "\<not> exited c \<Longrightarrow> threaded_step c (setThreadDelay d c)"
| pauses: "\<not> exited c \<Longrightarrow> threaded_step c (setThreadDelay_PAUSE k c)"
| runs: "\<not> exited c \<Longrightarrow> i < length (threads c) \<Longrightarrow> threaded_step c (thread_runs i r c)"

inductive_cases threaded_stepE: "threaded_step c c'"

definition threaded_reachable :: "threaded \<Rightarrow> bool" where
  "threaded_reachable c \<longleftrightarrow> (\<exists>p. threaded_step\<^sup>*\<^sup>* (ThreadedComponent_init p) c)"


section \<open>Which threads have been told to stop\<close>

definition threaded_ok :: "threaded \<Rightarrow> bool" where
  "threaded_ok c \<longleftrightarrow> distinct (stopping c) \<and> (\<forall>i \<in> set (stopping c). i < length (threads c) \<and> current c \<noteq> Some i) \<and>
     (\<forall>i. current c = Some i \<longrightarrow> i < length (threads c)) \<and>
     (\<forall>i < length (threads c). stop_signal (threads c ! i) \<longleftrightarrow> current c \<noteq> Some i \<and> i \<notin> set (stopping c))"

lemma run_step_fields [simp]: "stop_signal (run_step r t) = stop_signal t" "stop_signal (updatePause d t) = stop_signal t"
  by (simp_all add: run_step_def updatePause_def split: phase.split)

lemma threaded_ok_init: "threaded_ok (ThreadedComponent_init p)"
  by (simp add: threaded_ok_def ThreadedComponent_init_def)

lemma threaded_ok_start: "threaded_ok c \<Longrightarrow> threaded_ok (startThread p c)"
  by (auto simp: threaded_ok_def startThread_def Let_def ProcessThread_init_def nth_append less_Suc_eq)

lemma threaded_ok_stop: "threaded_ok c \<Longrightarrow> threaded_ok (snd (stopThread_request c))"
  by (auto simp: threaded_ok_def stopThread_request_def ProcessThread_stop_def nth_list_update split: option.split)

lemma threaded_ok_tell: "threaded_ok c \<Longrightarrow> threaded_ok (stopThread_tell i c)"
  by (auto simp: threaded_ok_def stopThread_tell_def ProcessThread_stop_def nth_list_update)

lemma threaded_ok_pause: "threaded_ok c \<Longrightarrow> threaded_ok (setThreadDelay_PAUSE k c)"
  by (simp add: threaded_ok_def setThreadDelay_PAUSE_def)

lemma threaded_ok_delay: "threaded_ok c \<Longrightarrow> threaded_ok (setThreadDelay d c)"
  by (auto simp: threaded_ok_def setThreadDelay_def nth_list_update split: option.split)

lemma threaded_ok_run: "threaded_ok c \<Longrightarrow> threaded_ok (thread_runs i r c)"
  by (cases "i < length (threads c)") (auto simp: threaded_ok_def thread_runs_def nth_list_update list_update_beyond)

lemma threaded_ok_step: "threaded_step c c' \<Longrightarrow> threaded_ok c \<Longrightarrow> threaded_ok c'"
  by (induction rule: threaded_step.induct) (simp_all add: threaded_ok_start threaded_ok_stop threaded_ok_tell
    threaded_ok_delay threaded_ok_pause threaded_ok_run)

lemma threaded_reachable_ok: "threaded_reachable c \<Longrightarrow> threaded_ok c"
proof -
  assume "threaded_reachable c"
  then obtain p where "threaded_step\<^sup>*\<^sup>* (ThreadedComponent_init p) c" unfolding threaded_reachable_def by blast
  then show ?thesis by (induction rule: rtranclp_induct) (simp_all add: threaded_ok_init threaded_ok_step)
qed

section \<open>Runs\<close>

datatype threaded_call = Starts "rat option" | Stops | Tells nat | Delays rat | Pauses nat | Runs nat process_result

definition do_call :: "threaded_call \<Rightarrow> threaded \<Rightarrow> threaded" where
  "do_call a c = (if exited c then c else case a of
      Starts p \<Rightarrow> startThread p c
    | Stops \<Rightarrow> snd (stopThread_request c)
    | Tells i \<Rightarrow> stopThread_tell i c
    | Delays d \<Rightarrow> setThreadDelay d c
    | Pauses k \<Rightarrow> setThreadDelay_PAUSE k c
    | Runs i r \<Rightarrow> if i < length (threads c) then thread_runs i r c else c)"

lemma do_call_steps: "threaded_step\<^sup>*\<^sup>* c (do_call a c)"
  unfolding do_call_def
  by (auto split: threaded_call.split intro: threaded_step.intros)

lemma do_call_reachable: "threaded_reachable c \<Longrightarrow> threaded_reachable (do_call a c)"
  using do_call_steps [of c a] unfolding threaded_reachable_def by (meson rtranclp_trans)

lemma do_calls_reachable: "threaded_reachable c \<Longrightarrow> threaded_reachable (fold do_call as c)"
proof (induction as arbitrary: c)
  case (Cons a as)
  show ?case using Cons.IH [OF do_call_reachable [OF Cons.prems]] by simp
qed simp

text \<open>The steps that a thread that was told to stop still has before it.\<close>

definition steps_left :: "process_thread \<Rightarrow> nat" where
  "steps_left t = (case phase_of t of InTarget \<Rightarrow> 3 | Sleeping d \<Rightarrow> 2 | AtLoop \<Rightarrow> 1 | Ended \<Rightarrow> 0)"

definition own_steps :: "nat \<Rightarrow> threaded_call list \<Rightarrow> nat" where
  "own_steps i as = length (filter (\<lambda>a. \<exists>r. a = Runs i r) as)"

lemma run_step_left: "stop_signal t \<Longrightarrow> \<not> (phase_of t = InTarget \<and> r = Fails) \<Longrightarrow> steps_left (run_step r t) \<le> steps_left t - 1"
  by (cases "phase_of t"; cases r) (simp_all add: run_step_def steps_left_def)

definition told_to_stop :: "nat \<Rightarrow> threaded \<Rightarrow> bool" where
  "told_to_stop i c \<longleftrightarrow> i < length (threads c) \<and> stop_signal (threads c ! i) \<and> threaded_ok c"

lemma told_step:
  assumes "told_to_stop i c" "\<not> exited (do_call a c)"
  shows "told_to_stop i (do_call a c) \<and>
    steps_left (threads (do_call a c) ! i) + own_steps i [a] \<le> max (steps_left (threads c ! i)) (own_steps i [a])"
proof -
  have ne: "\<not> exited c" using assms(2) by (auto simp: do_call_def)
  have i: "i < length (threads c)" "stop_signal (threads c ! i)" "threaded_ok c" "current c \<noteq> Some i" "i \<notin> set (stopping c)"
    using assms(1) by (auto simp: told_to_stop_def threaded_ok_def)
  show ?thesis
  proof (cases a)
    case (Starts p)
    then show ?thesis using i ne threaded_ok_start [OF i(3), of p]
      by (auto simp: do_call_def told_to_stop_def own_steps_def startThread_def Let_def nth_append)
  next
    case Stops
    then show ?thesis using i ne threaded_ok_stop [OF i(3)]
      by (auto simp: do_call_def told_to_stop_def own_steps_def stopThread_request_def nth_list_update split: option.splits)
  next
    case (Tells j)
    then show ?thesis using i ne threaded_ok_tell [OF i(3), of j]
      by (cases "j = i") (auto simp: do_call_def told_to_stop_def own_steps_def stopThread_tell_def)
  next
    case (Pauses k)
    then show ?thesis using i ne threaded_ok_pause [OF i(3), of k]
      by (simp add: do_call_def told_to_stop_def own_steps_def setThreadDelay_PAUSE_def)
  next
    case (Delays d)
    then show ?thesis using i ne threaded_ok_delay [OF i(3), of d]
      by (auto simp: do_call_def told_to_stop_def own_steps_def setThreadDelay_def nth_list_update split: option.splits)
  next
    case (Runs j r)
    show ?thesis
    proof (cases "j = i")
      case True
      have f: "\<not> (phase_of (threads c ! i) = InTarget \<and> r = Fails)"
        using assms(2) ne i(1) by (auto simp: do_call_def Runs True thread_runs_def)
      have t: "threads (do_call a c) ! i = run_step r (threads c ! i)" "told_to_stop i (do_call a c)"
        using f i ne threaded_ok_run [OF i(3), of i r]
        by (auto simp: do_call_def Runs True thread_runs_def told_to_stop_def)
      have "own_steps i [a] = 1" by (simp add: own_steps_def Runs True)
      then show ?thesis using run_step_left [OF i(2) f] t by simp
    next
      case False
      then show ?thesis using i ne threaded_ok_run [OF i(3), of j r]
        by (auto simp: do_call_def Runs thread_runs_def told_to_stop_def own_steps_def)
    qed
  qed
qed

lemma exited_stays: "exited c \<Longrightarrow> fold do_call as c = c"
  by (induction as) (simp_all add: do_call_def)

lemma told_run:
  "told_to_stop i c \<Longrightarrow> \<not> exited (fold do_call as c) \<Longrightarrow> steps_left (threads c ! i) \<le> own_steps i as \<Longrightarrow>
   told_to_stop i (fold do_call as c) \<and> steps_left (threads (fold do_call as c) ! i) = 0"
proof (induction as arbitrary: c)
  case (Cons a as)
  have ne: "\<not> exited (do_call a c)"
  proof
    assume "exited (do_call a c)"
    then show False using Cons.prems(2) exited_stays [of "do_call a c" as] by simp
  qed
  have s: "own_steps i (a # as) = own_steps i [a] + own_steps i as" by (simp add: own_steps_def)
  have "own_steps i [a] \<le> 1" by (simp add: own_steps_def)
  then have "steps_left (threads (do_call a c) ! i) \<le> own_steps i as"
    using told_step [OF Cons.prems(1) ne] Cons.prems(3) s by auto
  then show ?case using Cons.IH [of "do_call a c"] told_step [OF Cons.prems(1) ne] Cons.prems(2) by simp
qed (simp add: own_steps_def)

text \<open>A thread that is no longer current stays so, and the second part of \<open>stopThread\<close> tells it to stop.\<close>

lemma forgotten_step:
  "threaded_ok c \<Longrightarrow> i < length (threads c) \<Longrightarrow> current c \<noteq> Some i \<Longrightarrow>
   i < length (threads (do_call a c)) \<and> current (do_call a c) \<noteq> Some i"
  by (cases a) (auto simp: do_call_def startThread_def Let_def stopThread_request_def stopThread_tell_def
      setThreadDelay_def setThreadDelay_PAUSE_def thread_runs_def split: option.splits)

lemma forgotten_run:
  "threaded_reachable c \<Longrightarrow> i < length (threads c) \<Longrightarrow> current c \<noteq> Some i \<Longrightarrow>
   i < length (threads (fold do_call as c)) \<and> current (fold do_call as c) \<noteq> Some i"
proof (induction as arbitrary: c)
  case (Cons a as)
  show ?case
    using Cons.IH [OF do_call_reachable [OF Cons.prems(1)], of a]
      forgotten_step [OF threaded_reachable_ok [OF Cons.prems(1)] Cons.prems(2,3), of a] by simp
qed simp

lemma tells_told:
  "threaded_reachable c \<Longrightarrow> i < length (threads c) \<Longrightarrow> current c \<noteq> Some i \<Longrightarrow> \<not> exited c \<Longrightarrow>
   told_to_stop i (do_call (Tells i) c)"
proof -
  assume c: "threaded_reachable c" "i < length (threads c)" "current c \<noteq> Some i" "\<not> exited c"
  have ok: "threaded_ok c" by (rule threaded_reachable_ok [OF c(1)])
  show ?thesis
    using threaded_ok_tell [OF ok, of i] ok c(2-4)
    by (auto simp: told_to_stop_def do_call_def stopThread_tell_def ProcessThread_stop_def threaded_ok_def)
qed

lemma told_ends:
  assumes "told_to_stop i c" "3 \<le> own_steps i as" "\<not> exited (fold do_call as c)"
  shows "\<not> isAlive (threads (fold do_call as c) ! i)"
proof -
  have "steps_left (threads c ! i) \<le> own_steps i as"
    using assms(2) by (simp add: steps_left_def split: phase.split)
  then have "steps_left (threads (fold do_call as c) ! i) = 0" using told_run assms(1,3) by blast
  then show ?thesis by (simp add: isAlive_def steps_left_def split: phase.splits)
qed

text \<open>
  C40: The threads that have not been told to stop are the one that the component knows and those that a call
  of \<open>stopThread\<close> has taken from it, under the lock, and is about to tell. Once that call has made its next
  step, the thread, wherever it is in its loop, has ended after three steps of its own, whatever else happens
  before and after (other threads, starts, stops, changes of the delay), unless \<open>process\<close> raises an exception
  and ends the Python process.
\<close>

theorem stopped_threads_end:
  assumes "threaded_reachable c" "i < length (threads c)"
  shows "(stop_signal (threads c ! i) \<longleftrightarrow> current c \<noteq> Some i \<and> i \<notin> set (stopping c)) \<and>
    (stop_signal (threads c ! i) \<longrightarrow> 3 \<le> own_steps i as \<longrightarrow> \<not> exited (fold do_call as c) \<longrightarrow>
      \<not> isAlive (threads (fold do_call as c) ! i)) \<and>
    (i \<in> set (stopping c) \<longrightarrow> 3 \<le> own_steps i as \<longrightarrow> \<not> exited (fold do_call (bs @ Tells i # as) c) \<longrightarrow>
      \<not> isAlive (threads (fold do_call (bs @ Tells i # as) c) ! i))"
proof -
  have ok: "threaded_ok c" by (rule threaded_reachable_ok [OF assms(1)])
  have now: "\<not> isAlive (threads (fold do_call as c) ! i)"
    if s: "stop_signal (threads c ! i)" "3 \<le> own_steps i as" "\<not> exited (fold do_call as c)"
    using told_ends [OF _ s(2,3)] assms(2) s(1) ok by (simp add: told_to_stop_def)
  have later: "\<not> isAlive (threads (fold do_call (bs @ Tells i # as) c) ! i)"
    if s: "i \<in> set (stopping c)" "3 \<le> own_steps i as" "\<not> exited (fold do_call (bs @ Tells i # as) c)"
  proof -
    let ?d = "fold do_call bs c"
    have "current c \<noteq> Some i" using ok s(1) by (auto simp: threaded_ok_def)
    then have d: "threaded_reachable ?d" "i < length (threads ?d)" "current ?d \<noteq> Some i"
      using forgotten_run [OF assms] do_calls_reachable [OF assms(1)] by auto
    have "\<not> exited ?d" using s(3) exited_stays [of ?d "Tells i # as"] by auto
    then show ?thesis using told_ends [OF tells_told [OF d] s(2)] s(3) by simp
  qed
  show ?thesis using now later ok assms(2) by (auto simp: threaded_ok_def)
qed

text \<open>
  A component is started, a call of \<open>stopThread\<close> has taken its thread, and before it tells the thread to stop
  the component is started again.
\<close>

definition restarted_calls :: "threaded_call list" where
  "restarted_calls = [Starts None, Runs 0 NORMAL, Stops, Starts None, Runs 1 NORMAL]"

definition restarted :: threaded where
  "restarted = fold do_call restarted_calls (ThreadedComponent_init None)"

lemma restarted_reachable: "threaded_reachable restarted"
  unfolding restarted_def by (rule do_calls_reachable) (auto simp: threaded_reachable_def)

definition afterwards :: "threaded_call list" where
  "afterwards = [Runs 0 NOOP, Runs 1 NORMAL, Runs 0 NOOP, Runs 0 NOOP]"

theorem stopped_threads_end_witness:
  "\<not> stop_signal (threads restarted ! 0) \<and> isAlive (threads restarted ! 0) \<and>
   \<not> isAlive (threads (fold do_call ([Runs 0 NORMAL] @ Tells 0 # afterwards) restarted) ! 0) \<and>
   isAlive (threads (fold do_call ([Runs 0 NORMAL] @ Tells 0 # afterwards) restarted) ! 1)"
proof -
  have f: "0 < length (threads restarted)" "0 \<in> set (stopping restarted)" "isAlive (threads restarted ! 0)"
    "\<not> exited (fold do_call ([Runs 0 NORMAL] @ Tells 0 # afterwards) restarted)"
    "isAlive (threads (fold do_call ([Runs 0 NORMAL] @ Tells 0 # afterwards) restarted) ! 1)" by code_simp+
  have "3 \<le> own_steps 0 afterwards" by (simp add: own_steps_def afterwards_def)
  then show ?thesis
    using stopped_threads_end [OF restarted_reachable f(1), of afterwards "[Runs 0 NORMAL]"] f(2-5) by blast
qed

text \<open>
  In the window between the two parts of \<open>stopThread\<close>, a start gives two threads neither of which has been told
  to stop. And \<open>stopThread\<close> gives up on a thread after its timeout: then the component can be started again
  while the old thread, which was told, is still in \<open>process\<close>. In both cases two threads call it at once.
\<close>

lemma two_threads_untold:
  "\<exists>c. threaded_reachable c \<and> \<not> stop_signal (threads c ! 0) \<and> \<not> stop_signal (threads c ! 1) \<and>
    phase_of (threads c ! 0) = InTarget \<and> phase_of (threads c ! 1) = InTarget"
proof -
  have "\<not> stop_signal (threads restarted ! 0)" "\<not> stop_signal (threads restarted ! 1)"
    "phase_of (threads restarted ! 0) = InTarget" "phase_of (threads restarted ! 1) = InTarget" by code_simp+
  then show ?thesis using restarted_reachable by blast
qed

lemma two_threads_process:
  "\<exists>c. threaded_reachable c \<and> stop_signal (threads c ! 0) \<and>
    phase_of (threads c ! 0) = InTarget \<and> phase_of (threads c ! 1) = InTarget"
proof -
  have "stop_signal (threads (do_call (Tells 0) restarted) ! 0)"
    "phase_of (threads (do_call (Tells 0) restarted) ! 0) = InTarget"
    "phase_of (threads (do_call (Tells 0) restarted) ! 1) = InTarget" by code_simp+
  then show ?thesis using do_call_reachable [OF restarted_reachable] by blast
qed

text \<open>A component whose \<open>process\<close> has returned \<open>FINISH\<close> still counts as running, and starting it does nothing.\<close>

lemma finished_stays_running: "current c = Some i \<Longrightarrow> isRunning c \<and> startThread p c = c"
  by (simp add: isRunning_def startThread_def)

end
