(* ===== verification/OutBitPort.thy ===== *)
theory OutBitPort
  imports BitOps OutPortFaults
begin

text \<open>
  \<open>OutBitPort\<close> in \<open>bulkio/output_ports.py\<close>, the one numeric port whose packets do not hold just the samples of
  their slice: it overrides \<open>_sendPacket\<close> to send \<open>data.bytes()\<close> with the number of bits, and \<open>bytes\<close> of an
  aligned slice is the whole rest of the array that the slice is a view of.
\<close>

section \<open>Sending bits\<close>

text \<open>\<open>_reformat\<close>, and \<open>_sendPacket\<close>: the octets and the number of bits that go out.\<close>

definition OutBitPort_reformat :: "bitsource \<Rightarrow> store \<Rightarrow> (bitbuffer \<times> store) outcome" where
  "OutBitPort_reformat data st = bitbuffer_init data None None st"

definition OutBitPort_sendPacket :: "bitbuffer \<Rightarrow> store \<Rightarrow> ((int list \<times> int) \<times> store) outcome" where
  "OutBitPort_sendPacket data st =
     obind (bb_bytes data st) (\<lambda>(octets, st). omap (\<lambda>n. ((octets, n), st)) (bb_len data))"

text \<open>
  The loop of \<open>OutNumericPort._pushPacket\<close> over a bit buffer, for one connection; \<open>n\<close> is \<open>max_samples\<close>. Only what
  the packets carry is modelled here: their times, end-of-stream flags and SRIs are those of \<open>OutPort_numericPush\<close>.
\<close>

fun send_bit_slices :: "int list \<Rightarrow> nat \<Rightarrow> bitbuffer \<Rightarrow> store \<Rightarrow> ((int list \<times> int) list \<times> store) outcome" where
  "send_bit_slices [] n data st = Returned ([], st)"
| "send_bit_slices (start # rest) n data st =
     obind (bb_getslice data (Some start) (Some (start + int n)) None st) (\<lambda>(piece, st).
     obind (OutBitPort_sendPacket piece st) (\<lambda>(sent, st).
     omap (\<lambda>(more, st). (sent # more, st)) (send_bit_slices rest n data st)))"

definition OutBitPort_push :: "nat \<Rightarrow> nat \<Rightarrow> bitbuffer \<Rightarrow> store \<Rightarrow> ((int list \<times> int) list \<times> store) outcome" where
  "OutBitPort_push maxSamples frame data st = obind (bb_len data) (\<lambda>count.
     if count \<le> int maxSamples then omap (\<lambda>(sent, st). ([sent], st)) (OutBitPort_sendPacket data st)
     else let n = maxSamples div frame * frame in
       if n = 0 then Raised ValueError else send_bit_slices (xrange 0 count (int n)) n data st)"

section \<open>What a packet carries\<close>

text \<open>The octets of a view that starts at a byte are all octets from there on, and their number is no less than the bits need.\<close>

lemma aligned_view_sent:
  assumes "bb_valid b st" "(bb_start b + i) mod 8 = 0" "int i \<le> j" "j \<le> bb_bits b"
  shows "OutBitPort_sendPacket (bb_view b (int i) j) st =
    Returned ((drop ((bb_start b + i) div 8) (st ! bb_data b), j - int i), st)"
  using assms by (simp add: OutBitPort_sendPacket_def bb_bytes_def bb_split_index_def split_index_def bb_view_def bb_len_def Let_def)

lemma slices_sent:
  assumes "bb_valid b st" "bb_start b mod 8 = 0" "n mod 8 = 0" "\<forall>k \<in> set ks. int (k * n) \<le> bb_bits b"
  shows "send_bit_slices (map (\<lambda>k. int (k * n)) ks) n b st =
    Returned (map (\<lambda>k. (drop (bb_start b div 8 + k * (n div 8)) (st ! bb_data b), min (int n) (bb_bits b - int (k * n)))) ks, st)"
  using assms(4)
proof (induction ks)
  case (Cons k ks)
  let ?stop = "min (int (k * n) + int n) (bb_bits b)"
  have c: "int (k * n) \<le> bb_bits b" using Cons.prems by simp
  have slice: "bb_getslice b (Some (int (k * n))) (Some (int (k * n) + int n)) None st = Returned (bb_view b (int (k * n)) ?stop, st)"
    using assms(1) c by (simp add: bb_getslice_def bb_indices_def min_def)
  obtain m where m: "n = 8 * m" using assms(3) by (metis mod_0_imp_dvd dvdE)
  obtain q where q: "bb_start b = 8 * q" using assms(2) by (metis mod_0_imp_dvd dvdE)
  have at: "(bb_start b + k * n) mod 8 = 0" "(bb_start b + k * n) div 8 = bb_start b div 8 + k * (n div 8)"
  proof -
    have e: "bb_start b + k * n = 8 * (q + k * m)" by (simp add: m q)
    show "(bb_start b + k * n) mod 8 = 0" unfolding e by simp
    show "(bb_start b + k * n) div 8 = bb_start b div 8 + k * (n div 8)" unfolding e by (simp add: m q)
  qed
  have sent: "OutBitPort_sendPacket (bb_view b (int (k * n)) ?stop) st =
      Returned ((drop (bb_start b div 8 + k * (n div 8)) (st ! bb_data b), min (int n) (bb_bits b - int (k * n))), st)"
    using aligned_view_sent [OF assms(1) at(1), of ?stop] c at(2) by simp
  show ?case using Cons slice sent by simp
qed simp

lemma xrange_multiples:
  assumes "0 < n" "0 \<le> count"
  shows "xrange 0 count (int n) = map (\<lambda>k. int (k * n)) [0..<nat ((count + int n - 1) div int n)]"
  using assms by (simp add: xrange_def)

text \<open>
  C30: A bit port does not respect the transfer size. When the bits to push start at a byte and are more than
  the port may put into one packet, they are split into packets of the right number of bits; but, where this
  number is a multiple of eight, each packet carries all octets of the backing array from its first bit on, up
  to the end of the array. In particular the first packet carries every octet of the data, so that its size
  is not bounded by that of a packet at all.
\<close>

theorem bit_packets_carry_the_rest:
  assumes "bb_valid b st" "bb_start b mod 8 = 0" "n = maxSamples div frame * frame" "n mod 8 = 0" "0 < n"
    and "int maxSamples < bb_bits b"
  shows "\<exists>packets. OutBitPort_push maxSamples frame b st = Returned (packets, st) \<and>
    packets = map (\<lambda>k. (drop (bb_start b div 8 + k * (n div 8)) (st ! bb_data b), min (int n) (bb_bits b - int (k * n))))
      [0..<nat ((bb_bits b + int n - 1) div int n)] \<and>
    packets \<noteq> [] \<and> snd (hd packets) = int n \<and> bb_bits b \<le> 8 * int (length (fst (hd packets)))"
proof -
  let ?ks = "[0..<nat ((bb_bits b + int n - 1) div int n)]"
  let ?f = "\<lambda>k. (drop (bb_start b div 8 + k * (n div 8)) (st ! bb_data b), min (int n) (bb_bits b - int (k * n)))"
  have "n \<le> maxSamples" unfolding assms(3) by (rule div_times_less_eq_dividend)
  then have pos: "0 \<le> bb_bits b" "int n \<le> int maxSamples" using assms(1) by (simp_all add: bb_valid_def)
  have in_range: "\<forall>k \<in> set ?ks. int (k * n) \<le> bb_bits b"
  proof
    fix k assume "k \<in> set ?ks"
    then have "int k + 1 \<le> (bb_bits b + int n - 1) div int n" by auto
    then have "(int k + 1) * int n \<le> (bb_bits b + int n - 1) div int n * int n" by (intro mult_right_mono) simp_all
    also have "\<dots> \<le> bb_bits b + int n - 1"
    proof -
      have "0 \<le> (bb_bits b + int n - 1) mod int n" using assms(5) by simp
      then show ?thesis using div_mult_mod_eq [of "bb_bits b + int n - 1" "int n"] by linarith
    qed
    finally show "int (k * n) \<le> bb_bits b" by (simp add: algebra_simps)
  qed
  have run: "OutBitPort_push maxSamples frame b st = Returned (map ?f ?ks, st)"
    using assms(1,5,6) slices_sent [OF assms(1,2,4) in_range]
    by (simp add: OutBitPort_push_def assms(3) [symmetric] xrange_multiples [OF assms(5) pos(1)] Let_def)
  have "0 < (bb_bits b + int n - 1) div int n" using assms(5,6) pos by (simp add: pos_imp_zdiv_pos_iff)
  then have ks: "?ks = 0 # [1..<nat ((bb_bits b + int n - 1) div int n)]" by (simp add: upt_conv_Cons)
  have "bb_bits b \<le> 8 * int (length (drop (bb_start b div 8) (st ! bb_data b)))"
  proof -
    obtain q where q: "bb_start b = 8 * q" using assms(2) by (metis mod_0_imp_dvd dvdE)
    show ?thesis using assms(1) pos(1) by (auto simp: bb_valid_def q)
  qed
  then show ?thesis using run assms(6) pos(2) by (intro exI [of _ "map ?f ?ks"]) (simp add: ks)
qed

definition three_octets :: store where
  "three_octets = [[1, 2, 3]]"

definition twenty_bits :: bitbuffer where
  "twenty_bits = \<lparr>bb_data = 0, bb_bits = 20, bb_start = 0\<rparr>"

theorem bit_packets_carry_the_rest_witness:
  "OutBitPort_push 8 1 twenty_bits three_octets =
     Returned ([([1, 2, 3], 8), ([2, 3], 8), ([3], 4)], three_octets)"
proof -
  have v: "bb_valid twenty_bits three_octets"
    by (auto simp: bb_valid_def twenty_bits_def three_octets_def bytes_ok_def)
  have "(8::nat) = 8 div 1 * 1" "(8::nat) mod 8 = 0" "(0::nat) < 8" "int 8 < bb_bits twenty_bits" "bb_start twenty_bits mod 8 = 0"
    by (simp_all add: twenty_bits_def)
  from bit_packets_carry_the_rest [OF v this(5,1-4)] show ?thesis
    by (simp add: twenty_bits_def three_octets_def upt_conv_Cons)
qed

text \<open>With the limit of the port itself, 15,099,488 bits, a buffer of 2 MiB goes out whole in the first packet.\<close>

lemma bit_port_limit:
  "op_maxSamples (OutPort_init name calcsize 1 True faults) = 15099488" "15099488 mod 8 = (0::nat)"
  by (simp_all add: OutPort_init_def max_samples_value)

end
