(* ===== verification/Spec2Isabelle.thy ===== *)
theory Spec2Isabelle
  imports DataBlocks AttachDelivery StreamDelivery BitOps DeviceCapacity TunerRequests TunerValidation PropertyFits ExecutableRuns ThreadedComponent
  OutBitPort
begin

text \<open>
  A verification library for the Python part of the REDHAWK core framework: the BulkIO data transfer
  layer (\<open>bulkioInterfaces/libsrc/python/bulkio\<close>), the bit buffer
  (\<open>redhawk/src/base/framework/python/redhawk/bitbuffer.py\<close>), the properties of components
  (\<open>properties.py\<close>, \<open>resource.py\<close> and parts of \<open>ossie\<close> beside them), devices that hand out capacities, load files
  and run processes (\<open>redhawk/src/base/framework/python/ossie/device.py\<close>) and the frontend tuner devices
  (\<open>frontendInterfaces/libsrc/python/tuner_device.py\<close>).

  The program. A BulkIO output port sends packets of samples, each belonging to a stream described by
  a StreamSRI, over CORBA to the input ports it is connected to. An input port queues the packets, drops
  older ones when it may not block, and keeps books on the streams; a component reads them as packets
  or, through input streams, as blocks of a size of its choice, and writes through output streams that
  may buffer. A component has properties that clients configure and query, and whose changes it reports to
  listeners. A device hands out capacities: generic ones through callbacks, tuners through
  allocations with one controller and many listeners. A loadable device copies files and
  directories from a remote file system and counts who uses them; an executable one starts processes
  with the search paths of their libraries and stops them with signals.

  The theories.
  \<^item> \<open>Prelude\<close>: outcomes of calls (a value, an exception, a thread that waits forever), dictionaries as
    association lists, and Python's rounding; \<open>Actions\<close>: state with exceptions, for code whose effects
    before a raise matter, and rules that carry an invariant through a composed action.
  \<^item> \<open>Timestamp\<close> (\<open>timestamp.py\<close>), \<open>Sri\<close> (\<open>sri.py\<close>), \<open>Statistics\<close> (\<open>statistics.py\<close>): the small
    modules, with round trips, field masks, the laws of keywords, and the windows of the statistics.
  \<^item> \<open>PortTypes\<close>, \<open>Flush\<close>, \<open>InPort\<close> (\<open>input_ports.py\<close>): the records of packets, streams and the input
    port, the flush of a full queue, and every operation of \<open>InPort\<close>; threads that run while an
    operation waits are the list of their effects. \<open>PacketSource\<close> is the locale of what an input
    stream relies on, \<open>InPortDelivery\<close> its interpretation on the port, with the port invariant and
    what pushes and reads do to the queue.
  \<^item> \<open>InputStreams\<close> (\<open>input_streams.py\<close>, \<open>datablock.py\<close>): \<open>InputStream\<close> and \<open>BufferedInputStream\<close>, proved over
    the locale; \<open>StreamReads\<close> applies this to the port: sized reads deliver the queued samples in order.
    \<open>DataBlocks\<close> adds the accessors and the time drift of a block.
  \<^item> \<open>OutPort\<close> (\<open>output_ports.py\<close>): \<open>OutPort\<close> and \<open>OutNumericPort\<close>. Remote calls append to a log of the
    wire; a list of faults says which of them fail. \<open>OutPortDelivery\<close>: the receiver knows the SRI of every
    packet, routed connections get it, large packets are cut; \<open>OutPortFaults\<close>: runs with failing calls,
    the transfer limit, disconnecting. \<open>OutBitPort\<close>: the override of \<open>_sendPacket\<close> for packed bits, whose
    packets carry more octets than their bits.
  \<^item> \<open>OutputStreams\<close> (\<open>output_streams.py\<close>), \<open>StreamWrites\<close> (the locale of a sink for packets and the proofs
    over it), \<open>StreamDelivery\<close> (its interpretation on the output port): what is written is what
    arrives, each sample under the SRI it was written with.
  \<^item> \<open>InAttachable\<close>, \<open>AttachStreams\<close>, \<open>OutAttachable\<close> (\<open>input_ports.py\<close>, \<open>output_ports.py\<close>): the attachable ports
    of SDDS and VITA49 streams. The receivers of an output port are arguments of its operations, with the laws
    of the locale \<open>attach_peers\<close> in \<open>AttachBooks\<close>; \<open>AttachKeeps\<close> and \<open>AttachRequests\<close> prove that every request
    keeps the books, \<open>AttachRouting\<close> and \<open>AttachRoutes\<close> that the attachments follow the filter table.
    \<open>AttachNetwork\<close> interprets the locale with input ports, once for any of them and once for those that
    never refuse; \<open>AttachDelivery\<close> states what the two sides do together.
  \<^item> \<open>BitBuffer\<close>, \<open>BitStrings\<close>, \<open>BitOps\<close> (\<open>bitbuffer.py\<close>): byte arrays in a store, because slices share
    them; the copy by bytes against a copy by bits, and the operations against lists of booleans.
  \<^item> \<open>Device\<close>, \<open>DeviceCapacity\<close> (\<open>device.py\<close>): states and their events, allocation all or nothing.
  \<^item> \<open>TunerDevice\<close>, \<open>TunerControl\<close>, \<open>TunerRequests\<close>, \<open>TunerValidation\<close> (\<open>tuner_device.py\<close>): the tables of a
    tuner device agree after every request, control is exclusive, releasing undoes allocating, and what
    the validation helpers check.
  \<^item> \<open>PyStrings\<close>: the string functions of Python. \<open>PropertyTypes\<close>, \<open>PropertyBounds\<close>, \<open>PropertyIds\<close>,
    \<open>SequenceOperators\<close> (\<open>properties.py\<close>): types and their conversions, definitions of properties, bounds
    against machine words, \<open>splitId\<close>, and the operators of sequence properties such as \<open>[@]\<close>.
  \<^item> \<open>PropertyState\<close>: a component whose values are references to objects, because an assignment by pairs
    changes the object in place; \<open>property_configure\<close> and \<open>property_query\<close> with the code of the
    component as a parameter. \<open>PropertyAssignments\<close> shows what that aliasing does. \<open>PropertyChanges\<close>: the
    \<open>PropertyStorage\<close> with its listeners and start values.
  \<^item> \<open>PropertyRequests\<close>: the locale of a store whose requests are accepted or refused as a whole; \<open>PropertySet\<close>
    (\<open>resource.py\<close>): \<open>configure\<close>, \<open>initializeProperties\<close> and \<open>query\<close> under the lock, with two interpretations
    of the locale; \<open>PropertyAnswers\<close>: what queries should answer, stated without the operators of the code
    (\<open>answered\<close>), that they do, and the example component.
  \<^item> \<open>PropertyMonitors\<close>, \<open>PropertyReports\<close>, \<open>PropertyRuns\<close>: registered property listeners, a pass of
    the monitor thread against its specification, and runs of passes, assignments and requests of all kinds in
    which no change is lost; a registration that leaves the lock held.
    \<open>PropertyFits\<close>: requests that convert their values keep the values typed and within bounds.
  \<^item> \<open>LocalFiles\<close>: \<open>os.path\<close> on strings, the files below the working directory and the system calls on them.
    \<open>LoadableDevice\<close> (\<open>device.py\<close>): \<open>load\<close>, \<open>_loadTree\<close>, \<open>_copyFile\<close>, \<open>unload\<close>, and the search
    paths of shared libraries. \<open>LoadTrees\<close>, \<open>LoadCopies\<close>: loading carries out the plan that a remote tree gives;
    \<open>Unloading\<close>: unloading undoes it; \<open>LoadCounts\<close>: reference counts over runs; \<open>LoadExamples\<close> applies them.
  \<^item> \<open>ExecutableDevice\<close>, \<open>ExecutableRuns\<close> (\<open>device.py\<close>): \<open>execute\<close>, \<open>executeLinked\<close>, \<open>terminate\<close>, the handler of
    \<open>SIGCHLD\<close> and child devices; the environment that is restored and the one that a process gets, and
    how far \<open>terminate\<close> goes.
  \<^item> \<open>ThreadedComponent\<close> (\<open>threadedcomponent.py\<close>): the processing thread of a component and the operations that
    start and stop it, as a step relation over all threads, in which what an operation does after it has
    released the lock is a step of its own.

  Numbers and time. Python floats are rational numbers and never round, so that the lemmas about time stamps
  and the times of packets hold of exact seconds only; the clock is an argument, and sleeping takes exactly as
  long as it is asked to.
  Samples are of an arbitrary type, so the packing of samples into octets and the element sizes of
  the typed ports are not modelled beyond the number of octets of a sample.

  Loops. \<open>BOS_doBuffer\<close> has fuel: a round takes at least one sample as long as the buffer is not full,
  so the length of the data and one more is enough, which \<open>buffered_writes_end\<close> proves; Python's limit on the
  depth of that recursion is not modelled. The loops of the input
  stream and of the statistics are functions with a measure; waiting is a recursion over the effects
  of other threads. \<open>remove_other_ids\<close> has fuel: each round shortens a list of ids by one, so
  one more than its length is enough; a list it cannot shorten is a loop that hangs, as in the code.
  \<open>loadTree\<close> has the limit on recursion of Python as its first argument; the depth of the tree is enough, as
  \<open>load_copies_remote_tree\<close> proves. \<open>copy_parts\<close> has what is left of the file as its measure, \<open>wait_gone\<close> the
  time until it gives up.

  Concurrency. Locks are taken as held for the length of an operation, and the two operations of
  \<open>ThreadedComponent\<close> that act after releasing theirs are split there; an operation that waits for a
  lock it holds itself, or for a signal that never comes, is \<open>Blocked\<close>. Interleavings inside one
  operation are modelled where the code releases the lock (waiting for queue space or for data).

  Outside the program. A CORBA \<open>Any\<close> is the Python value that it carries; reading and printing floats as
  text, the checks and handlers that a component adds to its properties, the remote file system, what
  the operating system says about files and libraries, and processes are parameters. The theorems about
  loading assume of the remote file system that it serves a tree (\<open>serves\<close>): what it lists and that an
  open file gives its octets in parts.

  Not modelled. The typed ports of BulkIO but \<open>OutBitPort\<close>, the packing of samples, struct properties and the export of
  properties as XML, the release and registration of devices, burst ports and frontend ports, the sandbox,
  XML parsers and code generators, component start-up, logging, the domain manager, device manager and
  GPP (C++), and the network itself: these are input and output, generated code, one-line
  delegations, or further components for which the manifest states the reason. Exceptions raised by an output
  port carry no state in its model, so what a port had sent before raising is not described there.
\<close>

end
